(* ===== verification/Prelude.thy ===== *)
theory Prelude
  imports Complex_Main "HOL-Library.AList"
begin

text \<open>
  Shared vocabulary of the development.

  \<^item> Instants and durations. A Python \<open>datetime\<close> is a count of microseconds (its
    resolution), so an instant is an \<open>int\<close>; a constant given in seconds in the code is
    written with \<open>secs\<close>.
  \<^item> Floats. A Python float is read as an exact rational (\<open>pyfloat\<close>); rounding is not
    modelled. The comparisons of the code that the theorems are about are between
    quotients of counters and decimal constants.
  \<^item> Raised exceptions are values: an operation that may raise returns \<open>'e + 'a\<close>.
  \<^item> A database table is the list of its rows; the helpers below are the few SQL shapes
    the code uses: find the row with a key, update the row with a key.
  \<^item> \<open>engine\<close> computations thread a state and may raise without undoing what they did
    before (an exception in Python does not roll back object mutation).
\<close>

section \<open>Collections of rewrite rules\<close>

named_theorems table_simps \<open>lookup and update of table rows\<close>
named_theorems engine_simps \<open>unfolding state-and-exception computations\<close>
named_theorems keeps_intros \<open>a computation leaves an observation of the state unchanged\<close>
named_theorems stays_intros \<open>a computation never leaves a set of states\<close>
named_theorems status_tables \<open>the transition tables, as equations\<close>

section \<open>Time and numbers\<close>

type_synonym instant = int
type_synonym pyfloat = rat

definition secs :: "int \<Rightarrow> int" where
  "secs n = 1000000 * n"

definition hours :: "int \<Rightarrow> int" where
  "hours n = secs (3600 * n)"

lemma secs_mono [simp]: "secs a \<le> secs b \<longleftrightarrow> a \<le> b" "secs a < secs b \<longleftrightarrow> a < b"
  by (simp_all add: secs_def)

lemma secs_pos [simp]: "0 < secs n \<longleftrightarrow> 0 < n" "0 \<le> secs n \<longleftrightarrow> 0 \<le> n"
  by (simp_all add: secs_def)

lemma hours_pos [simp]: "0 < hours n \<longleftrightarrow> 0 < n"
  by (simp add: hours_def)

text \<open>Python's \<open>round(x, n)\<close>: to the nearest multiple of \<open>10 ^ -n\<close>, ties to the even one.\<close>

definition round_half_even :: "pyfloat \<Rightarrow> int" where
  "round_half_even x =
     (let f = \<lfloor>x\<rfloor>; d = x - of_int f
      in if d < 1/2 then f else if d > 1/2 then f + 1 else if even f then f else f + 1)"

definition pyround :: "pyfloat \<Rightarrow> nat \<Rightarrow> pyfloat" where
  "pyround x n = of_int (round_half_even (x * 10 ^ n)) / 10 ^ n"

lemma round_half_even_bounds: "\<bar>of_int (round_half_even x) - x\<bar> \<le> 1/2"
proof -
  have "of_int \<lfloor>x\<rfloor> \<le> x" "x < of_int \<lfloor>x\<rfloor> + 1" by linarith+
  then show ?thesis by (auto simp: round_half_even_def Let_def)
qed

lemma pyround_error: "\<bar>pyround x n - x\<bar> \<le> 1 / (2 * 10 ^ n)"
proof -
  have p: "(0::rat) < 10 ^ n" by simp
  have "\<bar>pyround x n - x\<bar> * 10 ^ n = \<bar>of_int (round_half_even (x * 10 ^ n)) - x * 10 ^ n\<bar>"
    by (simp add: pyround_def abs_mult_pos[symmetric] field_simps)
  also have "\<dots> \<le> 1/2" by (rule round_half_even_bounds)
  finally show ?thesis using p by (simp add: field_simps)
qed

section \<open>Tables: rows found and updated by a key\<close>

text \<open>\<open>SELECT ... WHERE key = k\<close>, at most one row (\<open>scalar_one_or_none\<close>).\<close>

fun row_find :: "('r \<Rightarrow> 'k) \<Rightarrow> 'k \<Rightarrow> 'r list \<Rightarrow> 'r option" where
  "row_find key k [] = None"
| "row_find key k (r # rs) = (if key r = k then Some r else row_find key k rs)"

text \<open>Mutation of the mapped object whose key is \<open>k\<close>.\<close>

definition row_update :: "('r \<Rightarrow> 'k) \<Rightarrow> 'k \<Rightarrow> ('r \<Rightarrow> 'r) \<Rightarrow> 'r list \<Rightarrow> 'r list" where
  "row_update key k f rs = map (\<lambda>r. if key r = k then f r else r) rs"

lemma row_find_Some_iff_distinct:
  "distinct (map key rs) \<Longrightarrow> row_find key k rs = Some r \<longleftrightarrow> r \<in> set rs \<and> key r = k"
  by (induction rs) (auto simp: image_iff)

lemma row_find_SomeD: "row_find key k rs = Some r \<Longrightarrow> r \<in> set rs \<and> key r = k"
  by (induction rs) (auto split: if_splits)

lemma row_find_None_iff [table_simps]: "row_find key k rs = None \<longleftrightarrow> k \<notin> key ` set rs"
  by (induction rs) auto

lemma row_find_append [table_simps]:
  "row_find key k (xs @ ys) = (case row_find key k xs of None \<Rightarrow> row_find key k ys | Some r \<Rightarrow> Some r)"
  by (induction xs) auto

lemma row_find_update [table_simps]:
  assumes "\<And>r. key (f r) = key r"
  shows "row_find key j (row_update key k f rs) =
    (if j = k then map_option f (row_find key k rs) else row_find key j rs)"
  by (induction rs) (auto simp: row_update_def assms)

lemma row_update_keys [table_simps]:
  assumes "\<And>r. key (f r) = key r"
  shows "map key (row_update key k f rs) = map key rs"
  by (simp add: row_update_def assms)

lemma length_row_update [simp]: "length (row_update key k f rs) = length rs"
  by (simp add: row_update_def)

lemma row_update_Nil [simp]: "row_update key k f [] = []"
  by (simp add: row_update_def)

lemma row_update_Cons [simp]:
  "row_update key k f (r # rs) = (if key r = k then f r else r) # row_update key k f rs"
  by (simp add: row_update_def)

section \<open>Python's \<open>or\<close> on optional values, and dictionaries in insertion order\<close>

definition opt_or :: "'a option \<Rightarrow> 'a \<Rightarrow> 'a" where
  "opt_or x d = (case x of None \<Rightarrow> d | Some v \<Rightarrow> v)"

lemma opt_or_simps [simp]: "opt_or None d = d" "opt_or (Some v) d = v"
  by (simp_all add: opt_or_def)

text \<open>\<open>{**d, k: v}\<close>: an existing key keeps its place, a new one goes last. This is
  \<open>AList.update\<close>; only its lookup behaviour is ever used.\<close>

lemma map_of_update_alist [table_simps]: "map_of (AList.update k v d) = (map_of d)(k \<mapsto> v)"
  by (rule update_conv')

section \<open>Computations with state and exceptions\<close>

type_synonym ('s, 'e, 'a) engine = "'s \<Rightarrow> ('e + 'a) \<times> 's"

definition ret :: "'a \<Rightarrow> ('s, 'e, 'a) engine" where
  "ret x = (\<lambda>s. (Inr x, s))"

definition raise :: "'e \<Rightarrow> ('s, 'e, 'a) engine" where
  "raise e = (\<lambda>s. (Inl e, s))"

definition get :: "('s, 'e, 's) engine" where
  "get = (\<lambda>s. (Inr s, s))"

definition modify :: "('s \<Rightarrow> 's) \<Rightarrow> ('s, 'e, unit) engine" where
  "modify f = (\<lambda>s. (Inr (), f s))"

definition andthen :: "('s, 'e, 'a) engine \<Rightarrow> ('a \<Rightarrow> ('s, 'e, 'b) engine) \<Rightarrow> ('s, 'e, 'b) engine" where
  "andthen m k = (\<lambda>s. case m s of (Inl e, s') \<Rightarrow> (Inl e, s') | (Inr x, s') \<Rightarrow> k x s')"

definition lift_sum :: "'e + 'a \<Rightarrow> ('s, 'e, 'a) engine" where
  "lift_sum r = (\<lambda>s. (r, s))"

lemma engine_unfold [engine_simps]:
  "ret x s = (Inr x, s)"
  "raise e s = (Inl e, s)"
  "get s = (Inr s, s)"
  "modify f s = (Inr (), f s)"
  "lift_sum r s = (r, s)"
  by (simp_all add: ret_def raise_def get_def modify_def lift_sum_def)

lemma andthen_Inr [engine_simps]: "m s = (Inr x, s') \<Longrightarrow> andthen m k s = k x s'"
  by (simp add: andthen_def)

lemma andthen_Inl [engine_simps]: "m s = (Inl e, s') \<Longrightarrow> andthen m k s = (Inl e, s')"
  by (simp add: andthen_def)

lemma andthen_ret [simp]: "andthen (ret x) k = k x"
  by (simp add: andthen_def ret_def)

lemma andthen_modify [simp]: "andthen (modify f) k s = k () (f s)"
  by (simp add: andthen_def modify_def)

lemma andthen_get [simp]: "andthen get k s = k s s"
  by (simp add: andthen_def get_def)

lemma andthen_assoc: "andthen (andthen m f) g = andthen m (\<lambda>x. andthen (f x) g)"
  by (auto simp: andthen_def fun_eq_iff split: prod.splits sum.splits)

section \<open>What a computation leaves unchanged, and what it establishes\<close>

text \<open>\<open>keeps f m\<close>: whatever \<open>m\<close> does, exceptions included, the observation \<open>f\<close> of the state is the
  same afterwards. \<open>triple P m Q E\<close>: from a state in \<open>P\<close>, a normal end gives \<open>Q\<close> and an exception \<open>E\<close>.\<close>

definition keeps :: "('s \<Rightarrow> 'v) \<Rightarrow> ('s, 'e, 'a) engine \<Rightarrow> bool" where
  "keeps f m \<longleftrightarrow> (\<forall>s. f (snd (m s)) = f s)"

definition triple ::
  "('s \<Rightarrow> bool) \<Rightarrow> ('s, 'e, 'a) engine \<Rightarrow> ('a \<Rightarrow> 's \<Rightarrow> bool) \<Rightarrow> ('e \<Rightarrow> 's \<Rightarrow> bool) \<Rightarrow> bool" where
  "triple P m Q E \<longleftrightarrow> (\<forall>s. P s \<longrightarrow> (case m s of (Inl e, s') \<Rightarrow> E e s' | (Inr x, s') \<Rightarrow> Q x s'))"

lemma keepsD: "keeps f m \<Longrightarrow> f (snd (m s)) = f s"
  by (simp add: keeps_def)

lemma keeps_andthen [keeps_intros]: "keeps f m \<Longrightarrow> (\<And>x. keeps f (k x)) \<Longrightarrow> keeps f (andthen m k)"
  by (auto simp: keeps_def andthen_def split: prod.splits sum.splits) (metis snd_conv)+

lemma keeps_simple [keeps_intros]:
  "keeps f (ret x)" "keeps f (raise e)" "keeps f get" "keeps f (lift_sum r)"
  by (simp_all add: keeps_def ret_def raise_def get_def lift_sum_def)

lemma keeps_modify [keeps_intros]: "(\<And>s. f (g s) = f s) \<Longrightarrow> keeps f (modify g)"
  by (simp add: keeps_def modify_def)

lemma keeps_if [keeps_intros]: "keeps f m \<Longrightarrow> keeps f n \<Longrightarrow> keeps f (if b then m else n)"
  by simp

lemma keeps_let [keeps_intros]: "(\<And>x. keeps f (m x)) \<Longrightarrow> keeps f (Let v m)"
  by simp

lemma keeps_case [keeps_intros]:
  "(\<And>a. keeps f (l a)) \<Longrightarrow> (\<And>b. keeps f (r b)) \<Longrightarrow> keeps f (case v of Inl a \<Rightarrow> l a | Inr b \<Rightarrow> r b)"
  "keeps f n \<Longrightarrow> (\<And>x. keeps f (m x)) \<Longrightarrow> keeps f (case ov of None \<Rightarrow> n | Some x \<Rightarrow> m x)"
  "(\<And>a b. keeps f (h a b)) \<Longrightarrow> keeps f (case p of (a, b) \<Rightarrow> h a b)"
  by (simp_all split: sum.split option.split prod.split)

lemma triple_andthen:
  "triple P m R E \<Longrightarrow> (\<And>x. triple (R x) (k x) Q E) \<Longrightarrow> triple P (andthen m k) Q E"
  by (fastforce simp: triple_def andthen_def split: prod.splits sum.splits)

lemma triple_ret: "(\<And>s. P s \<Longrightarrow> Q x s) \<Longrightarrow> triple P (ret x) Q E"
  by (simp add: triple_def ret_def)

lemma triple_raise: "(\<And>s. P s \<Longrightarrow> E e s) \<Longrightarrow> triple P (raise e) Q E"
  by (simp add: triple_def raise_def)

lemma triple_get: "triple P get (\<lambda>x s. P s \<and> x = s) E"
  by (simp add: triple_def get_def)

lemma triple_modify: "(\<And>s. P s \<Longrightarrow> Q () (g s)) \<Longrightarrow> triple P (modify g) Q E"
  by (simp add: triple_def modify_def)

lemma triple_if: "(b \<Longrightarrow> triple P m Q E) \<Longrightarrow> (\<not> b \<Longrightarrow> triple P n Q E) \<Longrightarrow> triple P (if b then m else n) Q E"
  by simp

lemma triple_conseq:
  "triple P m Q E \<Longrightarrow> (\<And>s. P' s \<Longrightarrow> P s) \<Longrightarrow> (\<And>x s. Q x s \<Longrightarrow> Q' x s) \<Longrightarrow> (\<And>e s. E e s \<Longrightarrow> E' e s)
     \<Longrightarrow> triple P' m Q' E'"
  by (fastforce simp: triple_def split: prod.splits sum.splits)

lemma triple_keeps: "keeps f m \<Longrightarrow> (\<And>s. P s = Q (f s)) \<Longrightarrow> triple P m (\<lambda>_. P) (\<lambda>_. P)"
  by (auto simp: triple_def keeps_def split: prod.splits sum.splits) (metis snd_conv)+

lemma triple_end: "triple P m (\<lambda>_. Q) (\<lambda>_. Q) \<Longrightarrow> P s \<Longrightarrow> Q (snd (m s))"
  by (auto simp: triple_def split: prod.splits sum.splits) (metis prod.collapse sumE)

lemma triple_frame:
  "triple P m Q (\<lambda>_ _. False) \<Longrightarrow> keeps f m \<Longrightarrow>
     triple (\<lambda>s. P s \<and> f s = a) m (\<lambda>x s. Q x s \<and> f s = a) E"
  by (auto simp: triple_def keeps_def split: prod.splits sum.splits) (metis snd_conv)+

text \<open>\<open>stays I m\<close>: \<open>m\<close> never leaves \<open>I\<close>, exceptions included.\<close>

definition stays :: "('s \<Rightarrow> bool) \<Rightarrow> ('s, 'e, 'a) engine \<Rightarrow> bool" where
  "stays I m \<longleftrightarrow> (\<forall>s. I s \<longrightarrow> I (snd (m s)))"

lemma staysD: "stays I m \<Longrightarrow> I s \<Longrightarrow> I (snd (m s))"
  by (simp add: stays_def)

lemma stays_andthen [stays_intros]: "stays I m \<Longrightarrow> (\<And>x. stays I (k x)) \<Longrightarrow> stays I (andthen m k)"
  by (auto simp: stays_def andthen_def split: prod.splits sum.splits)

lemma stays_simple [stays_intros]: "stays I (ret x)" "stays I (raise e)" "stays I get"
  by (simp_all add: stays_def ret_def raise_def get_def)

lemma stays_modify [stays_intros]: "(\<And>s. I s \<Longrightarrow> I (g s)) \<Longrightarrow> stays I (modify g)"
  by (simp add: stays_def modify_def)

lemma stays_branch [stays_intros]:
  "(b \<Longrightarrow> stays I m) \<Longrightarrow> (\<not> b \<Longrightarrow> stays I n) \<Longrightarrow> stays I (if b then m else n)"
  "(\<And>x. stays I (h x)) \<Longrightarrow> stays I (Let v h)"
  "(\<And>a. stays I (l a)) \<Longrightarrow> (\<And>b. stays I (r b)) \<Longrightarrow> stays I (case sv of Inl a \<Rightarrow> l a | Inr b \<Rightarrow> r b)"
  "stays I n \<Longrightarrow> (\<And>x. stays I (h x)) \<Longrightarrow> stays I (case ov of None \<Rightarrow> n | Some x \<Rightarrow> h x)"
  "(\<And>a b. stays I (p a b)) \<Longrightarrow> stays I (case pv of (a, b) \<Rightarrow> p a b)"
  by (simp_all split: sum.split option.split prod.split)

lemma triple_stays: "triple I m (\<lambda>_. I) (\<lambda>_. I) \<Longrightarrow> stays I m"
  using triple_end by (fastforce simp: stays_def)

lemma stays_keeps: "keeps f m \<Longrightarrow> (\<And>s. I s = J (f s)) \<Longrightarrow> stays I m"
  by (simp add: stays_def keeps_def)

section \<open>Decimal texts\<close>

fun nat_text :: "nat \<Rightarrow> string" where
  "nat_text n = (if n < 10 then [char_of (48 + n)] else nat_text (n div 10) @ [char_of (48 + n mod 10)])"

declare nat_text.simps [simp del]

section \<open>Characters\<close>

text \<open>\<open>str.lower\<close> and \<open>str.isspace\<close> on ASCII.\<close>

definition lower :: "char \<Rightarrow> char" where
  "lower c = (let n = (of_char c :: nat) in if 65 \<le> n \<and> n \<le> 90 then char_of (n + 32) else c)"

definition is_space :: "char \<Rightarrow> bool" where
  "is_space c = (let n = (of_char c :: nat) in n = 32 \<or> 9 \<le> n \<and> n \<le> 13 \<or> 28 \<le> n \<and> n \<le> 31)"

definition em_dash :: string where
  "em_dash = [CHR 0xE2, CHR 0x80, CHR 0x94]"

end
