(* ===== verification/Circuit_Breakers.thy ===== *)
theory Circuit_Breakers
  imports Prelude
begin

text \<open>
  The three circuit breakers: per model for the LLM API
  (\<open>orchestrator/api_circuit_breaker.py\<close>), per server for MCP
  (\<open>services/mcp_resilience.py\<close>), and the single one of the graph database
  (\<open>_Neo4jCircuit\<close> in \<open>services/graph_engine.py\<close>). A dictionary is its list of items in
  insertion order; \<open>time.monotonic()\<close> is an argument, one per read.

  The locale \<open>breaker\<close> is the contract their callers rely on: an open circuit rejects and is
  unchanged until its deadline, \<open>limit\<close> consecutive failures open it, a success closes it.
\<close>

section \<open>The contract and its client\<close>

text \<open>A caller: ask, call the service if admitted, report the outcome. The result counts the
  calls that reached the service.\<close>

fun guarded_calls ::
  "(pyfloat \<Rightarrow> 's \<Rightarrow> bool \<times> 's) \<Rightarrow> (pyfloat \<Rightarrow> 's \<Rightarrow> 's) \<Rightarrow> (pyfloat \<Rightarrow> 's \<Rightarrow> 's) \<Rightarrow>
   (pyfloat \<times> bool) list \<Rightarrow> 's \<Rightarrow> nat \<times> 's" where
  "guarded_calls allow succ fail [] s = (0, s)"
| "guarded_calls allow succ fail ((t, ok) # cs) s =
     (let (go, s1) = allow t s in
      if go then
        let (n, s2) = guarded_calls allow succ fail cs (if ok then succ t s1 else fail t s1)
        in (Suc n, s2)
      else guarded_calls allow succ fail cs s1)"

locale breaker =
  fixes allow :: "pyfloat \<Rightarrow> 's \<Rightarrow> bool \<times> 's"
    and succ :: "pyfloat \<Rightarrow> 's \<Rightarrow> 's"
    and fail :: "pyfloat \<Rightarrow> 's \<Rightarrow> 's"
    and deadline :: "'s \<Rightarrow> pyfloat option"
    and failures :: "'s \<Rightarrow> nat"
    and limit :: "'s \<Rightarrow> nat"
    and inv :: "'s \<Rightarrow> bool"
  assumes open_rejects: "inv s \<Longrightarrow> deadline s = Some d \<Longrightarrow> t < d \<Longrightarrow> allow t s = (False, s)"
    and open_cools: "inv s \<Longrightarrow> deadline s = Some d \<Longrightarrow> d \<le> t \<Longrightarrow> fst (allow t s)"
    and succ_closes: "inv s \<Longrightarrow> deadline (succ t s) = None \<and> fst (allow t' (succ t s)) \<and> failures (succ t s) = 0"
    and fail_counts: "inv s \<Longrightarrow> failures (fail t s) = Suc (failures s) \<and> limit (fail t s) = limit s"
    and fail_trips: "inv s \<Longrightarrow> limit s \<le> Suc (failures s) \<Longrightarrow> deadline (fail t s) \<noteq> None"
    and inv_allow: "inv s \<Longrightarrow> inv (snd (allow t s))"
    and inv_succ: "inv s \<Longrightarrow> inv (succ t s)"
    and inv_fail: "inv s \<Longrightarrow> inv (fail t s)"
begin

lemma nothing_sent_while_open:
  "inv s \<Longrightarrow> deadline s = Some d \<Longrightarrow> \<forall>(t, ok) \<in> set cs. t < d \<Longrightarrow>
     guarded_calls allow succ fail cs s = (0, s)"
  by (induction cs) (auto simp: open_rejects)

lemma failures_in_a_row:
  "inv s \<Longrightarrow>
     failures (fold fail ts s) = failures s + length ts \<and> limit (fold fail ts s) = limit s
     \<and> inv (fold fail ts s)"
  by (induction ts arbitrary: s) (auto simp: fail_counts inv_fail)

lemma trips_after_limit:
  assumes "inv s" and "limit s \<le> length ts" and "ts \<noteq> []"
  shows "deadline (fold fail ts s) \<noteq> None"
proof -
  obtain us t where ts: "ts = us @ [t]" using assms(3) by (cases ts rule: rev_cases) auto
  have "limit (fold fail us s) \<le> Suc (failures (fold fail us s))"
    using assms(2) failures_in_a_row[OF assms(1), of us] by (simp add: ts)
  then show ?thesis
    using failures_in_a_row[OF assms(1), of us] by (simp add: ts fail_trips)
qed

lemma guarded_calls_inv: "inv s \<Longrightarrow> inv (snd (guarded_calls allow succ fail cs s))"
proof (induction cs arbitrary: s)
  case Nil
  then show ?case by simp
next
  case (Cons c cs)
  obtain t ok where c: "c = (t, ok)" by (cases c)
  obtain go s1 where a: "allow t s = (go, s1)" by (cases "allow t s")
  with inv_allow[OF Cons.prems, of t] have "inv s1" by simp
  then have "inv (if ok then succ t s1 else fail t s1)" by (simp add: inv_succ inv_fail)
  from Cons.IH[OF this] Cons.IH[OF \<open>inv s1\<close>] show ?case
    by (simp add: c a split_beta)
qed

end

section \<open>LLM API: one circuit per model\<close>

datatype circuit_state = Closed | Open | HalfOpen

fun circuit_state_text :: "circuit_state \<Rightarrow> string" where
  "circuit_state_text Closed = ''closed''"
| "circuit_state_text Open = ''open''"
| "circuit_state_text HalfOpen = ''half_open''"

record model_circuit =
  mc_state :: circuit_state
  mc_failure_count :: nat
  mc_last_failure_at :: pyfloat
  mc_last_success_at :: pyfloat
  mc_opened_at :: pyfloat
  mc_total_calls :: nat
  mc_total_failures :: nat

definition new_model_circuit :: model_circuit where
  "new_model_circuit =
     \<lparr>mc_state = Closed, mc_failure_count = 0, mc_last_failure_at = 0, mc_last_success_at = 0,
      mc_opened_at = 0, mc_total_calls = 0, mc_total_failures = 0\<rparr>"

record api_breaker =
  ab_failure_threshold :: nat
  ab_cooldown_seconds :: pyfloat
  ab_circuits :: "(string \<times> model_circuit) list"
  ab_half_open_testing :: "(string \<times> bool) list"

definition new_api_breaker :: api_breaker where
  "new_api_breaker =
     \<lparr>ab_failure_threshold = 5, ab_cooldown_seconds = 120, ab_circuits = [], ab_half_open_testing = []\<rparr>"

text \<open>\<open>_get_circuit\<close>: creates the circuit of an unknown model.\<close>

definition ab_get_circuit :: "string \<Rightarrow> api_breaker \<Rightarrow> model_circuit \<times> api_breaker" where
  "ab_get_circuit m b =
     (case map_of (ab_circuits b) m of
        Some c \<Rightarrow> (c, b)
      | None \<Rightarrow> (new_model_circuit, b\<lparr>ab_circuits := AList.update m new_model_circuit (ab_circuits b)\<rparr>))"

definition ab_put_circuit :: "string \<Rightarrow> model_circuit \<Rightarrow> api_breaker \<Rightarrow> api_breaker" where
  "ab_put_circuit m c b = b\<lparr>ab_circuits := AList.update m c (ab_circuits b)\<rparr>"

definition ab_testing :: "string \<Rightarrow> api_breaker \<Rightarrow> bool" where
  "ab_testing m b = (case map_of (ab_half_open_testing b) m of None \<Rightarrow> False | Some x \<Rightarrow> x)"

definition ab_set_testing :: "string \<Rightarrow> bool \<Rightarrow> api_breaker \<Rightarrow> api_breaker" where
  "ab_set_testing m x b = b\<lparr>ab_half_open_testing := AList.update m x (ab_half_open_testing b)\<rparr>"

definition ab_get_state :: "pyfloat \<Rightarrow> string \<Rightarrow> api_breaker \<Rightarrow> circuit_state \<times> api_breaker" where
  "ab_get_state now m b =
     (let (c, b1) = ab_get_circuit m b in
      if mc_state c = Open \<and> now - mc_opened_at c \<ge> ab_cooldown_seconds b1
      then (HalfOpen, ab_put_circuit m (c\<lparr>mc_state := HalfOpen\<rparr>) b1)
      else (mc_state c, b1))"

definition ab_is_available :: "string \<Rightarrow> pyfloat \<Rightarrow> api_breaker \<Rightarrow> bool \<times> api_breaker" where
  "ab_is_available m now b =
     (let (st, b1) = ab_get_state now m b in
      if st = HalfOpen then
        if ab_testing m b1 then (False, b1)
        else (True, ab_set_testing m True b1)
      else (st = Closed, b1))"

definition ab_record_success :: "string \<Rightarrow> pyfloat \<Rightarrow> api_breaker \<Rightarrow> api_breaker" where
  "ab_record_success m now b =
     (let (c, b1) = ab_get_circuit m b;
          c1 = c\<lparr>mc_state := Closed, mc_failure_count := 0, mc_last_success_at := now,
                mc_total_calls := mc_total_calls c + 1\<rparr>
      in ab_set_testing m False (ab_put_circuit m c1 b1))"

text \<open>\<open>record_failure\<close> reads the clock twice; both reads are the argument \<open>now\<close>.\<close>

definition ab_record_failure :: "string \<Rightarrow> pyfloat \<Rightarrow> api_breaker \<Rightarrow> api_breaker" where
  "ab_record_failure m now b =
     (let (c, b1) = ab_get_circuit m b;
          c1 = c\<lparr>mc_failure_count := mc_failure_count c + 1,
                mc_total_failures := mc_total_failures c + 1,
                mc_total_calls := mc_total_calls c + 1, mc_last_failure_at := now\<rparr>;
          c2 = (if mc_failure_count c1 \<ge> ab_failure_threshold b1 \<and> mc_state c1 \<noteq> Open
                then c1\<lparr>mc_state := Open, mc_opened_at := now\<rparr> else c1)
      in ab_put_circuit m c2 (ab_set_testing m False b1))"

definition ab_reset_half_open_probe :: "string \<Rightarrow> api_breaker \<Rightarrow> api_breaker" where
  "ab_reset_half_open_probe m b = (if ab_testing m b then ab_set_testing m False b else b)"

definition ab_get_status :: "api_breaker \<Rightarrow> (string \<times> string \<times> nat \<times> nat \<times> nat) list" where
  "ab_get_status b =
     map (\<lambda>(m, c). (m, circuit_state_text (mc_state c), mc_failure_count c, mc_total_calls c,
                    mc_total_failures c)) (ab_circuits b)"

text \<open>The circuit a model is seen with, and what the operations keep true of it: a circuit that
  is not closed has reached the threshold, and no probe is outstanding while it is open.\<close>

definition ab_circuit :: "string \<Rightarrow> api_breaker \<Rightarrow> model_circuit" where
  "ab_circuit m b = (case map_of (ab_circuits b) m of None \<Rightarrow> new_model_circuit | Some c \<Rightarrow> c)"

definition ab_inv :: "string \<Rightarrow> api_breaker \<Rightarrow> bool" where
  "ab_inv m b \<longleftrightarrow> 0 < ab_failure_threshold b
     \<and> (mc_state (ab_circuit m b) \<noteq> Closed \<longrightarrow> ab_failure_threshold b \<le> mc_failure_count (ab_circuit m b))
     \<and> (mc_state (ab_circuit m b) = Closed \<longrightarrow> mc_failure_count (ab_circuit m b) < ab_failure_threshold b)
     \<and> (mc_state (ab_circuit m b) = Open \<longrightarrow> \<not> ab_testing m b)"

definition ab_deadline :: "string \<Rightarrow> api_breaker \<Rightarrow> pyfloat option" where
  "ab_deadline m b =
     (if mc_state (ab_circuit m b) = Open then Some (mc_opened_at (ab_circuit m b) + ab_cooldown_seconds b)
      else None)"

lemma ab_get_circuit_simps [simp]:
  "fst (ab_get_circuit m b) = ab_circuit m b"
  "ab_circuit m' (snd (ab_get_circuit m b)) = ab_circuit m' b"
  "ab_testing m' (snd (ab_get_circuit m b)) = ab_testing m' b"
  "ab_failure_threshold (snd (ab_get_circuit m b)) = ab_failure_threshold b"
  "ab_cooldown_seconds (snd (ab_get_circuit m b)) = ab_cooldown_seconds b"
  by (auto simp: ab_get_circuit_def ab_circuit_def ab_testing_def table_simps split: option.split)

lemma ab_put_circuit_simps [simp]:
  "ab_circuit m' (ab_put_circuit m c b) = (if m' = m then c else ab_circuit m' b)"
  "ab_testing m' (ab_put_circuit m c b) = ab_testing m' b"
  "ab_failure_threshold (ab_put_circuit m c b) = ab_failure_threshold b"
  "ab_cooldown_seconds (ab_put_circuit m c b) = ab_cooldown_seconds b"
  by (auto simp: ab_put_circuit_def ab_circuit_def ab_testing_def table_simps)

lemma ab_set_testing_simps [simp]:
  "ab_circuit m' (ab_set_testing m x b) = ab_circuit m' b"
  "ab_testing m' (ab_set_testing m x b) = (if m' = m then x else ab_testing m' b)"
  "ab_failure_threshold (ab_set_testing m x b) = ab_failure_threshold b"
  "ab_cooldown_seconds (ab_set_testing m x b) = ab_cooldown_seconds b"
  by (auto simp: ab_set_testing_def ab_circuit_def ab_testing_def table_simps)

lemma ab_get_state_unfold:
  "fst (ab_get_state now m b) =
     (if mc_state (ab_circuit m b) = Open \<and> now - mc_opened_at (ab_circuit m b) \<ge> ab_cooldown_seconds b
      then HalfOpen else mc_state (ab_circuit m b))"
  "ab_circuit m' (snd (ab_get_state now m b)) =
     (if m' = m \<and> mc_state (ab_circuit m b) = Open
         \<and> now - mc_opened_at (ab_circuit m b) \<ge> ab_cooldown_seconds b
      then (ab_circuit m b)\<lparr>mc_state := HalfOpen\<rparr> else ab_circuit m' b)"
  "ab_testing m' (snd (ab_get_state now m b)) = ab_testing m' b"
  "ab_failure_threshold (snd (ab_get_state now m b)) = ab_failure_threshold b"
  "ab_cooldown_seconds (snd (ab_get_state now m b)) = ab_cooldown_seconds b"
  by (auto simp: ab_get_state_def split_beta Let_def)

lemmas ab_unfold = ab_is_available_def ab_record_success_def ab_record_failure_def Let_def split_beta
  ab_get_state_unfold

lemma ab_open_unchanged:
  assumes "mc_state (ab_circuit m b) = Open"
    and "now < mc_opened_at (ab_circuit m b) + ab_cooldown_seconds b"
  shows "ab_is_available m now b = (False, b)"
proof -
  from assms(1) obtain c where c: "map_of (ab_circuits b) m = Some c" "mc_state c = Open"
    by (auto simp: ab_circuit_def new_model_circuit_def split: option.splits)
  with assms(2) show ?thesis
    by (simp add: ab_is_available_def ab_get_state_def ab_get_circuit_def ab_circuit_def)
qed

interpretation api: breaker "ab_is_available m" "ab_record_success m" "ab_record_failure m"
  "ab_deadline m" "\<lambda>b. mc_failure_count (ab_circuit m b)" ab_failure_threshold "ab_inv m" for m
proof (unfold_locales, goal_cases)
  case (1 s d t)
  then show ?case by (auto simp: ab_deadline_def ab_open_unchanged split: if_splits)
next
  case (2 s d t)
  then show ?case by (auto simp: ab_deadline_def ab_inv_def ab_unfold split: if_splits)
next
  case (3 s t t')
  then show ?case by (auto simp: ab_deadline_def ab_unfold)
next
  case (4 s t)
  then show ?case by (auto simp: ab_unfold)
next
  case (5 s t)
  then show ?case by (auto simp: ab_deadline_def ab_unfold)
next
  case (6 s t)
  then show ?case by (auto simp: ab_inv_def ab_unfold)
next
  case (7 s t)
  then show ?case by (auto simp: ab_inv_def ab_unfold)
next
  case (8 s t)
  then show ?case by (auto simp: ab_inv_def ab_unfold)
qed

text \<open>One model's circuit never depends on another's.\<close>

lemma ab_other_model_untouched:
  assumes "m' \<noteq> m"
  shows "ab_circuit m' (snd (ab_is_available m t b)) = ab_circuit m' b"
    and "ab_circuit m' (ab_record_success m t b) = ab_circuit m' b"
    and "ab_circuit m' (ab_record_failure m t b) = ab_circuit m' b"
  using assms by (auto simp: ab_unfold)

section \<open>MCP servers: one circuit per server\<close>

record mcp_circuit =
  sc_state :: circuit_state
  sc_failure_count :: nat
  sc_last_failure_at :: pyfloat
  sc_last_success_at :: pyfloat
  sc_opened_at :: pyfloat
  sc_total_calls :: nat
  sc_total_failures :: nat
  sc_latencies_ms :: "pyfloat list"

definition new_mcp_circuit :: mcp_circuit where
  "new_mcp_circuit =
     \<lparr>sc_state = Closed, sc_failure_count = 0, sc_last_failure_at = 0, sc_last_success_at = 0,
      sc_opened_at = 0, sc_total_calls = 0, sc_total_failures = 0, sc_latencies_ms = []\<rparr>"

record mcp_breaker =
  mb_failure_threshold :: nat
  mb_cooldown_seconds :: pyfloat
  mb_circuits :: "(string \<times> mcp_circuit) list"

definition new_mcp_breaker :: mcp_breaker where
  "new_mcp_breaker = \<lparr>mb_failure_threshold = 3, mb_cooldown_seconds = 300, mb_circuits = []\<rparr>"

definition mb_get_circuit :: "string \<Rightarrow> mcp_breaker \<Rightarrow> mcp_circuit \<times> mcp_breaker" where
  "mb_get_circuit srv b =
     (case map_of (mb_circuits b) srv of
        Some c \<Rightarrow> (c, b)
      | None \<Rightarrow> (new_mcp_circuit, b\<lparr>mb_circuits := AList.update srv new_mcp_circuit (mb_circuits b)\<rparr>))"

definition mb_put_circuit :: "string \<Rightarrow> mcp_circuit \<Rightarrow> mcp_breaker \<Rightarrow> mcp_breaker" where
  "mb_put_circuit srv c b = b\<lparr>mb_circuits := AList.update srv c (mb_circuits b)\<rparr>"

definition mb_get_state :: "pyfloat \<Rightarrow> string \<Rightarrow> mcp_breaker \<Rightarrow> circuit_state \<times> mcp_breaker" where
  "mb_get_state now srv b =
     (let (c, b1) = mb_get_circuit srv b in
      if sc_state c = Open \<and> now - sc_opened_at c \<ge> mb_cooldown_seconds b1
      then (HalfOpen, mb_put_circuit srv (c\<lparr>sc_state := HalfOpen\<rparr>) b1)
      else (sc_state c, b1))"

definition mb_is_available :: "string \<Rightarrow> pyfloat \<Rightarrow> mcp_breaker \<Rightarrow> bool \<times> mcp_breaker" where
  "mb_is_available srv now b =
     (let (st, b1) = mb_get_state now srv b in (st = Closed \<or> st = HalfOpen, b1))"

text \<open>\<open>record_success(server, latency_ms)\<close>: only the last 100 latencies are kept.\<close>

definition mb_record_success :: "pyfloat \<Rightarrow> string \<Rightarrow> pyfloat \<Rightarrow> mcp_breaker \<Rightarrow> mcp_breaker" where
  "mb_record_success latency srv now b =
     (let (c, b1) = mb_get_circuit srv b;
          c1 = c\<lparr>sc_state := Closed, sc_failure_count := 0, sc_last_success_at := now,
                sc_total_calls := sc_total_calls c + 1\<rparr>;
          ls = sc_latencies_ms c1 @ [latency];
          c2 = (if latency > 0
                then c1\<lparr>sc_latencies_ms := (if length ls > 100 then drop (length ls - 100) ls else ls)\<rparr>
                else c1)
      in mb_put_circuit srv c2 b1)"

definition mb_record_failure :: "string \<Rightarrow> pyfloat \<Rightarrow> mcp_breaker \<Rightarrow> mcp_breaker" where
  "mb_record_failure srv now b =
     (let (c, b1) = mb_get_circuit srv b;
          c1 = c\<lparr>sc_failure_count := sc_failure_count c + 1,
                sc_total_failures := sc_total_failures c + 1,
                sc_total_calls := sc_total_calls c + 1, sc_last_failure_at := now\<rparr>;
          c2 = (if sc_state c1 = HalfOpen then c1\<lparr>sc_state := Open, sc_opened_at := now\<rparr>
                else if sc_failure_count c1 \<ge> mb_failure_threshold b1
                     then c1\<lparr>sc_state := Open, sc_opened_at := now\<rparr>
                else c1)
      in mb_put_circuit srv c2 b1)"

text \<open>\<open>get_all_states\<close>: asks every tracked server in turn, which may half-open some.\<close>

fun mb_states_of :: "pyfloat \<Rightarrow> string list \<Rightarrow> mcp_breaker \<Rightarrow> (string \<times> string) list \<times> mcp_breaker" where
  "mb_states_of now [] b = ([], b)"
| "mb_states_of now (srv # srvs) b =
     (let (st, b1) = mb_get_state now srv b; (rest, b2) = mb_states_of now srvs b1
      in ((srv, circuit_state_text st) # rest, b2))"

definition mb_get_all_states :: "pyfloat \<Rightarrow> mcp_breaker \<Rightarrow> (string \<times> string) list \<times> mcp_breaker" where
  "mb_get_all_states now b = mb_states_of now (map fst (mb_circuits b)) b"

definition mb_reset :: "string \<Rightarrow> mcp_breaker \<Rightarrow> mcp_breaker" where
  "mb_reset srv b = b\<lparr>mb_circuits := filter (\<lambda>(k, _). k \<noteq> srv) (mb_circuits b)\<rparr>"

record mcp_health =
  mh_circuit_state :: string
  mh_failure_count :: nat
  mh_total_calls :: nat
  mh_total_failures :: nat
  mh_error_rate :: pyfloat
  mh_latency :: "(pyfloat \<times> pyfloat) option" \<comment> \<open>p50 and p95, when there are latencies\<close>

definition mb_health_entry :: "circuit_state \<Rightarrow> mcp_circuit \<Rightarrow> mcp_health" where
  "mb_health_entry st c =
     (let ls = sort (sc_latencies_ms c); n = length ls;
          p95 = min (nat \<lfloor>rat_of_nat n * (95/100)\<rfloor>) (n - 1)
      in \<lparr>mh_circuit_state = circuit_state_text st, mh_failure_count = sc_failure_count c,
          mh_total_calls = sc_total_calls c, mh_total_failures = sc_total_failures c,
          mh_error_rate = (if sc_total_calls c > 0
             then pyround (rat_of_nat (sc_total_failures c) / rat_of_nat (sc_total_calls c)) 3 else 0),
          mh_latency = (if ls = [] then None else Some (pyround (ls ! (n div 2)) 1, pyround (ls ! p95) 1))\<rparr>)"

fun mb_report_of :: "pyfloat \<Rightarrow> string list \<Rightarrow> mcp_breaker \<Rightarrow> (string \<times> mcp_health) list \<times> mcp_breaker" where
  "mb_report_of now [] b = ([], b)"
| "mb_report_of now (srv # srvs) b =
     (let (st, b1) = mb_get_state now srv b; (c, _) = mb_get_circuit srv b1;
          (rest, b2) = mb_report_of now srvs b1
      in ((srv, mb_health_entry st c) # rest, b2))"

definition mb_get_health_report :: "pyfloat \<Rightarrow> mcp_breaker \<Rightarrow> (string \<times> mcp_health) list \<times> mcp_breaker" where
  "mb_get_health_report now b = mb_report_of now (map fst (mb_circuits b)) b"

definition mb_circuit :: "string \<Rightarrow> mcp_breaker \<Rightarrow> mcp_circuit" where
  "mb_circuit srv b = (case map_of (mb_circuits b) srv of None \<Rightarrow> new_mcp_circuit | Some c \<Rightarrow> c)"

definition mb_inv :: "string \<Rightarrow> mcp_breaker \<Rightarrow> bool" where
  "mb_inv srv b \<longleftrightarrow> 0 < mb_failure_threshold b \<and> 0 < mb_cooldown_seconds b"

definition mb_deadline :: "string \<Rightarrow> mcp_breaker \<Rightarrow> pyfloat option" where
  "mb_deadline srv b =
     (if sc_state (mb_circuit srv b) = Open then Some (sc_opened_at (mb_circuit srv b) + mb_cooldown_seconds b)
      else None)"

lemma mb_get_circuit_simps [simp]:
  "fst (mb_get_circuit srv b) = mb_circuit srv b"
  "mb_circuit srv' (snd (mb_get_circuit srv b)) = mb_circuit srv' b"
  "mb_failure_threshold (snd (mb_get_circuit srv b)) = mb_failure_threshold b"
  "mb_cooldown_seconds (snd (mb_get_circuit srv b)) = mb_cooldown_seconds b"
  by (auto simp: mb_get_circuit_def mb_circuit_def table_simps split: option.split)

lemma mb_put_circuit_simps [simp]:
  "mb_circuit srv' (mb_put_circuit srv c b) = (if srv' = srv then c else mb_circuit srv' b)"
  "mb_failure_threshold (mb_put_circuit srv c b) = mb_failure_threshold b"
  "mb_cooldown_seconds (mb_put_circuit srv c b) = mb_cooldown_seconds b"
  by (auto simp: mb_put_circuit_def mb_circuit_def table_simps)

lemma mb_get_state_unfold:
  "fst (mb_get_state now srv b) =
     (if sc_state (mb_circuit srv b) = Open \<and> now - sc_opened_at (mb_circuit srv b) \<ge> mb_cooldown_seconds b
      then HalfOpen else sc_state (mb_circuit srv b))"
  "mb_circuit srv' (snd (mb_get_state now srv b)) =
     (if srv' = srv \<and> sc_state (mb_circuit srv b) = Open
         \<and> now - sc_opened_at (mb_circuit srv b) \<ge> mb_cooldown_seconds b
      then (mb_circuit srv b)\<lparr>sc_state := HalfOpen\<rparr> else mb_circuit srv' b)"
  "mb_failure_threshold (snd (mb_get_state now srv b)) = mb_failure_threshold b"
  "mb_cooldown_seconds (snd (mb_get_state now srv b)) = mb_cooldown_seconds b"
  by (auto simp: mb_get_state_def split_beta Let_def)

lemmas mb_unfold = mb_is_available_def mb_record_success_def mb_record_failure_def Let_def split_beta
  mb_get_state_unfold

lemma mb_open_unchanged:
  assumes "sc_state (mb_circuit srv b) = Open"
    and "now < sc_opened_at (mb_circuit srv b) + mb_cooldown_seconds b"
  shows "mb_is_available srv now b = (False, b)"
proof -
  from assms(1) obtain c where c: "map_of (mb_circuits b) srv = Some c" "sc_state c = Open"
    by (auto simp: mb_circuit_def new_mcp_circuit_def split: option.splits)
  with assms(2) show ?thesis
    by (simp add: mb_is_available_def mb_get_state_def mb_get_circuit_def mb_circuit_def)
qed

interpretation mcp: breaker "mb_is_available srv" "mb_record_success lat srv" "mb_record_failure srv"
  "mb_deadline srv" "\<lambda>b. sc_failure_count (mb_circuit srv b)" mb_failure_threshold "mb_inv srv"
  for srv lat
proof (unfold_locales, goal_cases)
  case (1 s d t)
  then show ?case by (auto simp: mb_deadline_def mb_open_unchanged split: if_splits)
next
  case (2 s d t)
  then show ?case by (auto simp: mb_deadline_def mb_unfold split: if_splits)
next
  case (3 s t t')
  then show ?case by (auto simp: mb_deadline_def mb_unfold)
next
  case (4 s t)
  then show ?case by (auto simp: mb_unfold)
next
  case (5 s t)
  then show ?case by (auto simp: mb_deadline_def mb_unfold)
qed (auto simp: mb_inv_def mb_unfold)

lemma mb_latencies_bounded:
  "length (sc_latencies_ms (mb_circuit srv b)) \<le> 100 \<Longrightarrow>
     length (sc_latencies_ms (mb_circuit srv (mb_record_success lat srv now b))) \<le> 100"
  by (auto simp: mb_unfold)

section \<open>Graph database: a single circuit\<close>

text \<open>\<open>_Neo4jCircuit\<close>. Its half-open state admits every request, not one.\<close>

record neo4j_circuit =
  nc_failures :: nat
  nc_state :: circuit_state
  nc_opened_at :: pyfloat

definition NEO4J_FAILURE_THRESHOLD :: nat where "NEO4J_FAILURE_THRESHOLD = 5"
definition NEO4J_COOLDOWN_SECONDS :: pyfloat where "NEO4J_COOLDOWN_SECONDS = 120"

definition new_neo4j_circuit :: neo4j_circuit where
  "new_neo4j_circuit = \<lparr>nc_failures = 0, nc_state = Closed, nc_opened_at = 0\<rparr>"

definition nc_record_success :: "neo4j_circuit \<Rightarrow> neo4j_circuit" where
  "nc_record_success c = c\<lparr>nc_failures := 0, nc_state := Closed\<rparr>"

definition nc_record_failure :: "pyfloat \<Rightarrow> neo4j_circuit \<Rightarrow> neo4j_circuit" where
  "nc_record_failure now c =
     (let c1 = c\<lparr>nc_failures := nc_failures c + 1\<rparr>
      in if nc_failures c1 \<ge> NEO4J_FAILURE_THRESHOLD
         then c1\<lparr>nc_state := Open, nc_opened_at := now\<rparr> else c1)"

definition nc_allow_request :: "pyfloat \<Rightarrow> neo4j_circuit \<Rightarrow> bool \<times> neo4j_circuit" where
  "nc_allow_request now c =
     (if nc_state c = Closed then (True, c)
      else if nc_state c = Open then
        if now - nc_opened_at c \<ge> NEO4J_COOLDOWN_SECONDS then (True, c\<lparr>nc_state := HalfOpen\<rparr>)
        else (False, c)
      else (True, c))"

definition nc_deadline :: "neo4j_circuit \<Rightarrow> pyfloat option" where
  "nc_deadline c = (if nc_state c = Open then Some (nc_opened_at c + NEO4J_COOLDOWN_SECONDS) else None)"

interpretation neo4j: breaker nc_allow_request "\<lambda>_. nc_record_success" nc_record_failure
  nc_deadline nc_failures "\<lambda>_. NEO4J_FAILURE_THRESHOLD" "\<lambda>_. True"
  by unfold_locales
     (auto simp: nc_allow_request_def nc_record_success_def nc_record_failure_def nc_deadline_def
        Let_def split: if_splits)

section \<open>Properties\<close>

text \<open>Once a model's circuit is open, and until its cooldown is over, no sequence of guarded
  calls, whatever their outcomes would be, reaches the API, and the breaker does not change.\<close>

lemma api_open_blocks_all:
  assumes "ab_inv m b" and "ab_deadline m b = Some d" and "\<forall>(t, ok) \<in> set calls. t < d"
  shows "guarded_calls (ab_is_available m) (ab_record_success m) (ab_record_failure m) calls b = (0, b)"
  using assms by (rule api.nothing_sent_while_open)

definition tripped_breaker :: api_breaker where
  "tripped_breaker = fold (ab_record_failure ''opus'') [1, 2, 3, 4, 5] new_api_breaker"

lemma tripped_breaker_eval:
  "ab_inv ''opus'' tripped_breaker" "ab_deadline ''opus'' tripped_breaker = Some 125"
  by code_simp+

text \<open>As many consecutive failures as the threshold, from any state the operations can
  reach, leave the model's circuit open.\<close>

lemma api_trips_at_threshold:
  assumes "ab_inv m b" and "ab_failure_threshold b \<le> length ts"
  shows "mc_state (ab_circuit m (fold (ab_record_failure m) ts b)) = Open"
proof -
  from assms have "ts \<noteq> []" by (auto simp: ab_inv_def)
  from api.trips_after_limit[OF assms this] show ?thesis
    by (auto simp: ab_deadline_def split: if_splits)
qed

text \<open>Several callers asking one after the other, none reporting an outcome yet.\<close>

fun asks :: "(pyfloat \<Rightarrow> 's \<Rightarrow> bool \<times> 's) \<Rightarrow> pyfloat list \<Rightarrow> 's \<Rightarrow> bool list \<times> 's" where
  "asks allow [] s = ([], s)"
| "asks allow (t # ts) s =
     (let (go, s1) = allow t s; (gos, s2) = asks allow ts s1 in (go # gos, s2))"

lemma asks_refused: "(\<And>t. allow t s = (False, s)) \<Longrightarrow> asks allow ts s = (replicate (length ts) False, s)"
  by (induction ts) simp_all

lemma ab_probing_unchanged:
  assumes "mc_state (ab_circuit m b) = HalfOpen" and "ab_testing m b"
  shows "ab_is_available m t b = (False, b)"
proof -
  from assms(1) obtain c where c: "map_of (ab_circuits b) m = Some c" "mc_state c = HalfOpen"
    by (auto simp: ab_circuit_def new_model_circuit_def split: option.splits)
  with assms(2) show ?thesis
    by (simp add: ab_is_available_def ab_get_state_def ab_get_circuit_def ab_circuit_def)
qed

text \<open>After the cooldown exactly one caller is admitted as the probe: of any callers that ask
  before an outcome is recorded only the first is, a failed probe opens the circuit again from the
  time of that failure, and a successful one admits the next caller.\<close>

lemma api_single_probe:
  assumes inv: "ab_inv m b" and cooled: "ab_deadline m b = Some d" "d \<le> t"
  shows "fst (asks (ab_is_available m) (t # ts) b) = True # replicate (length ts) False
    \<and> ab_deadline m (ab_record_failure m t' (snd (asks (ab_is_available m) (t # ts) b)))
        = Some (t' + ab_cooldown_seconds b)
    \<and> fst (ab_is_available m u (ab_record_success m t' (snd (asks (ab_is_available m) (t # ts) b))))"
proof -
  obtain go b1 where g: "ab_is_available m t b = (go, b1)" by (cases "ab_is_available m t b")
  have "fst (ab_is_available m t b)" "mc_state (ab_circuit m (snd (ab_is_available m t b))) = HalfOpen"
    "ab_testing m (snd (ab_is_available m t b))"
    using assms by (auto simp: ab_deadline_def ab_inv_def ab_unfold split: if_splits)
  then have h: "go" "mc_state (ab_circuit m b1) = HalfOpen" "ab_testing m b1" by (simp_all add: g)
  have "asks (ab_is_available m) (t # ts) b = (True # replicate (length ts) False, b1)"
    using h asks_refused[of "ab_is_available m" b1 ts, OF ab_probing_unchanged[OF h(2,3)]] by (simp add: g)
  moreover have "ab_deadline m (ab_record_failure m t' (snd (ab_is_available m t b))) = Some (t' + ab_cooldown_seconds b)"
    "fst (ab_is_available m u (ab_record_success m t' b1))"
    using assms by (auto simp: ab_deadline_def ab_inv_def ab_unfold split: if_splits)
  ultimately show ?thesis by (simp add: g)
qed

text \<open>The graph database's circuit has no single probe: once its cooldown is over every request
  is admitted, however many ask before the first one reports, and one failure opens it again.\<close>

lemma neo4j_half_open_admits_all:
  "(let c = fold nc_record_failure [1, 2, 3, 4, 5] new_neo4j_circuit;
        (gos, c1) = asks nc_allow_request (replicate (Suc n) 125) c
    in nc_deadline c = Some 125 \<and> gos = replicate (Suc n) True
       \<and> fst (nc_allow_request t (nc_record_failure t' c1)) = (t - t' \<ge> NEO4J_COOLDOWN_SECONDS))"
proof -
  let ?c = "fold nc_record_failure [1, 2, 3, 4, 5] new_neo4j_circuit"
  have c: "?c = \<lparr>nc_failures = 5, nc_state = Open, nc_opened_at = 5\<rparr>"
    by (simp add: nc_record_failure_def new_neo4j_circuit_def NEO4J_FAILURE_THRESHOLD_def)
  have h: "asks nc_allow_request (replicate k 125) \<lparr>nc_failures = 5, nc_state = HalfOpen, nc_opened_at = 5\<rparr>
      = (replicate k True, \<lparr>nc_failures = 5, nc_state = HalfOpen, nc_opened_at = 5\<rparr>)" for k
    by (induction k) (simp_all add: nc_allow_request_def)
  have "asks nc_allow_request (replicate (Suc n) 125) ?c
      = (replicate (Suc n) True, \<lparr>nc_failures = 5, nc_state = HalfOpen, nc_opened_at = 5\<rparr>)"
    unfolding c by (simp add: nc_allow_request_def NEO4J_COOLDOWN_SECONDS_def h)
  then show ?thesis
    unfolding c Let_def by (simp add: nc_deadline_def NEO4J_COOLDOWN_SECONDS_def nc_record_failure_def
        NEO4J_FAILURE_THRESHOLD_def nc_allow_request_def)
qed

end
