(* ===== verification/Json.thy ===== *)
theory Json
  imports Prelude
begin

text \<open>
  JSON values: the contents of the code's JSONB columns and of the Python dictionaries
  passed between tools and steps (\<open>input_data\<close>, \<open>output_data\<close>, \<open>checkpoint\<close>,
  \<open>artifact_refs\<close>). An object is the list of its items in insertion order. The
  readers below are Python's: \<open>dict.get\<close>, truth value, \<open>isinstance\<close>.
\<close>

datatype json =
    JNull
  | JBool bool
  | JNum pyfloat
  | JStr string
  | JList "json list"
  | JObj "(string \<times> json) list"

type_synonym jdict = "(string \<times> json) list"

text \<open>Python truth value (\<open>bool(v)\<close>).\<close>

fun truthy :: "json \<Rightarrow> bool" where
  "truthy JNull = False"
| "truthy (JBool b) = b"
| "truthy (JNum n) = (n \<noteq> 0)"
| "truthy (JStr s) = (s \<noteq> [])"
| "truthy (JList xs) = (xs \<noteq> [])"
| "truthy (JObj d) = (d \<noteq> [])"

text \<open>\<open>d.get(k)\<close>: a missing key and a null value both read as \<open>JNull\<close>.\<close>

definition jget :: "jdict \<Rightarrow> string \<Rightarrow> json" where
  "jget d k = (case map_of d k of None \<Rightarrow> JNull | Some v \<Rightarrow> v)"

text \<open>\<open>d.get(k, default)\<close>: the default only for a missing key.\<close>

definition jget_default :: "jdict \<Rightarrow> string \<Rightarrow> json \<Rightarrow> json" where
  "jget_default d k v = (case map_of d k of None \<Rightarrow> v | Some w \<Rightarrow> w)"

text \<open>\<open>a or b\<close>.\<close>

definition jor :: "json \<Rightarrow> json \<Rightarrow> json" where
  "jor a b = (if truthy a then a else b)"

fun is_obj :: "json \<Rightarrow> bool" where
  "is_obj (JObj _) = True"
| "is_obj _ = False"

fun obj_items :: "json \<Rightarrow> jdict" where
  "obj_items (JObj d) = d"
| "obj_items _ = []"

fun jstr :: "json \<Rightarrow> string" where
  "jstr (JStr s) = s"
| "jstr _ = []"

fun as_str :: "json \<Rightarrow> string option" where
  "as_str (JStr s) = Some s"
| "as_str _ = None"

text \<open>\<open>x or {}\<close> for an optional dictionary column.\<close>

definition dict_or_empty :: "jdict option \<Rightarrow> jdict" where
  "dict_or_empty d = opt_or d []"

text \<open>\<open>{**a, **b}\<close>.\<close>

definition dict_merge :: "jdict \<Rightarrow> jdict \<Rightarrow> jdict" where
  "dict_merge a b = fold (\<lambda>(k, v) d. AList.update k v d) b a"

lemma jget_Nil [simp]: "jget [] k = JNull"
  by (simp add: jget_def)

lemma jget_Cons [simp]: "jget ((k', v) # d) k = (if k = k' then v else jget d k)"
  by (simp add: jget_def)

lemma jget_default_simps [simp]:
  "jget_default [] k v = v"
  "jget_default ((k', w) # d) k v = (if k = k' then w else jget_default d k v)"
  by (simp_all add: jget_default_def)

lemma jget_update [table_simps]: "jget (AList.update k v d) j = (if j = k then v else jget d j)"
  by (simp add: jget_def table_simps)

lemma dict_or_empty_simps [simp]: "dict_or_empty None = []" "dict_or_empty (Some d) = d"
  by (simp_all add: dict_or_empty_def)

end
