(* ===== verification/Perception_Policy.thy ===== *)
theory Perception_Policy
  imports Json
begin

text \<open>
  \<open>backend/src/services/perception_policy.py\<close>: when each perception source is checked. The
  \<open>perception_states\<close> table is a list of rows; a clock read is an argument; the rows that another
  transaction has locked (\<open>FOR UPDATE SKIP LOCKED\<close>) are a predicate. The error classes are regular
  expressions, for which the section below has the few forms the code uses. Strings are bytes:
  a byte above 127 counts as a letter.
\<close>

section \<open>Guardrails\<close>

definition MIN_INTERVAL_S :: int where "MIN_INTERVAL_S = 60"
definition MAX_INTERVAL_S :: int where "MAX_INTERVAL_S = 3600"
definition CIRCUIT_COOLDOWN_S :: int where "CIRCUIT_COOLDOWN_S = 300"
definition CIRCUIT_FAILURE_THRESHOLD :: nat where "CIRCUIT_FAILURE_THRESHOLD = 3"
definition STARVATION_CEILING_S :: int where "STARVATION_CEILING_S = 1800"
definition BACKOFF_CAP :: int where "BACKOFF_CAP = 8"
definition LEASE_TTL_S :: int where "LEASE_TTL_S = 180"
definition TRANSIENT_FAILURE_THRESHOLD :: nat where "TRANSIENT_FAILURE_THRESHOLD = 6"
definition PERMANENT_FAILURE_THRESHOLD :: nat where "PERMANENT_FAILURE_THRESHOLD = 1"

lemmas guardrails = MIN_INTERVAL_S_def MAX_INTERVAL_S_def CIRCUIT_COOLDOWN_S_def
  CIRCUIT_FAILURE_THRESHOLD_def STARVATION_CEILING_S_def BACKOFF_CAP_def LEASE_TTL_S_def
  TRANSIENT_FAILURE_THRESHOLD_def PERMANENT_FAILURE_THRESHOLD_def

definition DEFAULT_INTERVALS :: "(string \<times> int) list" where
  "DEFAULT_INTERVALS =
     [(''gmail'', 300), (''calendar'', 900), (''slack'', 300), (''github'', 600), (''notion'', 900)]"

section \<open>Error classes\<close>

text \<open>A pattern is a sequence of: a character, \<open>c?\<close>, \<open>.?\<close>, \<open>\s*\<close>, \<open>\b\<close>. Alternatives are separate
  patterns. \<open>re.search\<close> tries every suffix, remembering the character before it.\<close>

datatype relem = Ch char | OptCh char | OptAny | Spaces | Boundary

definition is_word :: "char \<Rightarrow> bool" where
  "is_word c = (let n = (of_char c :: nat)
     in 48 \<le> n \<and> n \<le> 57 \<or> 65 \<le> n \<and> n \<le> 90 \<or> n = 95 \<or> 97 \<le> n \<and> n \<le> 122 \<or> 128 \<le> n)"

definition word_at :: "char option \<Rightarrow> bool" where
  "word_at c = (case c of None \<Rightarrow> False | Some x \<Rightarrow> is_word x)"

definition first_char :: "string \<Rightarrow> char option" where
  "first_char s = (case s of [] \<Rightarrow> None | c # _ \<Rightarrow> Some c)"

definition same_char :: "bool \<Rightarrow> char \<Rightarrow> char \<Rightarrow> bool" where
  "same_char ignorecase a b = (if ignorecase then lower a = lower b else a = b)"

fun pmatch :: "bool \<Rightarrow> relem list \<Rightarrow> char option \<Rightarrow> string \<Rightarrow> bool" where
  "pmatch ic [] prev s = True"
| "pmatch ic (Ch c # r) prev s = (case s of [] \<Rightarrow> False | x # xs \<Rightarrow> same_char ic c x \<and> pmatch ic r (Some x) xs)"
| "pmatch ic (OptCh c # r) prev s =
     ((case s of [] \<Rightarrow> False | x # xs \<Rightarrow> same_char ic c x \<and> pmatch ic r (Some x) xs) \<or> pmatch ic r prev s)"
| "pmatch ic (OptAny # r) prev s =
     ((case s of [] \<Rightarrow> False | x # xs \<Rightarrow> x \<noteq> CHR 0x0A \<and> pmatch ic r (Some x) xs) \<or> pmatch ic r prev s)"
| "pmatch ic (Spaces # r) prev s =
     ((case s of [] \<Rightarrow> False | x # xs \<Rightarrow> is_space x \<and> pmatch ic (Spaces # r) (Some x) xs) \<or> pmatch ic r prev s)"
| "pmatch ic (Boundary # r) prev s = (word_at prev \<noteq> word_at (first_char s) \<and> pmatch ic r prev s)"

fun psearch :: "bool \<Rightarrow> relem list \<Rightarrow> char option \<Rightarrow> string \<Rightarrow> bool" where
  "psearch ic p prev [] = pmatch ic p prev []"
| "psearch ic p prev (x # xs) = (pmatch ic p prev (x # xs) \<or> psearch ic p (Some x) xs)"

definition lit :: "string \<Rightarrow> relem list" where "lit s = map Ch s"

definition whole :: "string \<Rightarrow> relem list" where "whole s = [Boundary] @ lit s @ [Boundary]"

definition glued :: "string \<Rightarrow> string list \<Rightarrow> (bool \<times> relem list) list" where
  "glued a bs = map (\<lambda>b. (True, lit a @ [OptAny] @ lit b)) bs"

definition TRANSIENT_PATTERNS :: "(bool \<times> relem list) list" where
  "TRANSIENT_PATTERNS =
     [(True, lit ''timeout''),
      (True, lit ''time'' @ [OptCh (CHR ''d''), Spaces] @ lit ''out''),
      (False, whole ''429'')]
     @ glued ''rate'' [''limit'']
     @ [(False, whole ''503'')]
     @ glued ''service'' [''unavailable'']
     @ [(False, whole ''502'')]
     @ glued ''bad'' [''gateway'']
     @ [(False, whole ''504'')]
     @ glued ''gateway'' [''timeout'']
     @ glued ''connection'' [''reset'', ''refused'', ''aborted'']
     @ glued ''temporary'' [''failure'']
     @ [(True, lit ''ECONNRESET''), (True, lit ''ECONNREFUSED''), (True, lit ''ETIMEDOUT'')]"

definition PERMANENT_PATTERNS :: "(bool \<times> relem list) list" where
  "PERMANENT_PATTERNS =
     [(False, whole ''401''), (True, lit ''unauthorized''), (False, whole ''403''), (True, lit ''forbidden''),
      (True, lit ''revoked'')]
     @ glued ''invalid'' [''token'', ''credential'', ''key'', ''grant'']
     @ glued ''token'' [''expired'']
     @ glued ''access'' [''denied'']
     @ glued ''not'' [''authorized'']
     @ glued ''permission'' [''denied'']
     @ [(True, lit ''scope'' @ [OptAny] @ lit ''not'' @ [OptAny] @ lit ''granted'')]
     @ [(True, whole ''permanent'')]"

datatype error_class = Transient | Permanent | Unknown

definition matches :: "(bool \<times> relem list) list \<Rightarrow> string \<Rightarrow> bool" where
  "matches ps s = list_ex (\<lambda>(ic, p). psearch ic p None s) ps"

definition classify_error :: "string \<Rightarrow> error_class" where
  "classify_error error =
     (if error = [] then Unknown
      else if matches PERMANENT_PATTERNS error then Permanent
      else if matches TRANSIENT_PATTERNS error then Transient
      else Unknown)"

definition threshold_for_error_class :: "error_class \<Rightarrow> nat" where
  "threshold_for_error_class e =
     (if e = Permanent then PERMANENT_FAILURE_THRESHOLD
      else if e = Transient then TRANSIENT_FAILURE_THRESHOLD
      else CIRCUIT_FAILURE_THRESHOLD)"

section \<open>Perception states\<close>

datatype pcircuit = PClosed | POpen | PHalfOpen

record perception_state =
  ps_state_id :: string
  ps_workspace_id :: string
  ps_user_id :: string
  ps_source :: string
  ps_mode :: string
  ps_base_interval_s :: int
  ps_effective_interval_s :: int
  ps_next_run_at :: "instant option"
  ps_last_run_at :: "instant option"
  ps_agent_interval_s :: "int option"
  ps_watch_entities :: "string list option"
  ps_consecutive_failures :: nat
  ps_last_error :: "string option"
  ps_circuit_state :: pcircuit
  ps_circuit_opened_at :: "instant option"
  ps_pending_run :: bool
  ps_signal_source :: "string option"
  ps_signal_at :: "instant option"
  ps_last_event_count :: nat
  ps_total_runs :: nat

definition WAKE_SIGNALS :: "string list" where
  "WAKE_SIGNALS = [''user_intent'', ''agent'', ''bootstrap'', ''manual_poll'']"

definition ps_key :: "perception_state \<Rightarrow> string \<times> string \<times> string" where
  "ps_key s = (ps_workspace_id s, ps_user_id s, ps_source s)"

definition default_interval :: "string \<Rightarrow> int" where
  "default_interval source = (case map_of DEFAULT_INTERVALS source of Some i \<Rightarrow> i | None \<Rightarrow> 300)"

definition new_perception_state :: "string \<Rightarrow> string \<times> string \<times> string \<Rightarrow> perception_state" where
  "new_perception_state state_id k =
     (let base = default_interval (snd (snd k))
      in \<lparr>ps_state_id = state_id, ps_workspace_id = fst k, ps_user_id = fst (snd k),
          ps_source = snd (snd k), ps_mode = ''paused'', ps_base_interval_s = base,
          ps_effective_interval_s = base, ps_next_run_at = None, ps_last_run_at = None,
          ps_agent_interval_s = None, ps_watch_entities = None, ps_consecutive_failures = 0,
          ps_last_error = None, ps_circuit_state = PClosed, ps_circuit_opened_at = None,
          ps_pending_run = False, ps_signal_source = None, ps_signal_at = None,
          ps_last_event_count = 0, ps_total_runs = 0\<rparr>)"

definition get_or_create_state ::
  "string \<Rightarrow> string \<times> string \<times> string \<Rightarrow> perception_state list \<Rightarrow> perception_state \<times> perception_state list" where
  "get_or_create_state fresh_id k tbl =
     (case row_find ps_key k tbl of
        Some s \<Rightarrow> (s, tbl)
      | None \<Rightarrow> (new_perception_state fresh_id k, tbl @ [new_perception_state fresh_id k]))"

section \<open>Intervals\<close>

definition compute_effective_interval :: "perception_state \<Rightarrow> int" where
  "compute_effective_interval s =
     (let base0 = (case ps_agent_interval_s s of Some i \<Rightarrow> i | None \<Rightarrow> ps_base_interval_s s);
          base = (if ps_consecutive_failures s > 0
                  then base0 * min (2 ^ ps_consecutive_failures s) BACKOFF_CAP else base0)
      in max MIN_INTERVAL_S (min base MAX_INTERVAL_S))"

definition compute_next_run :: "instant \<Rightarrow> perception_state \<Rightarrow> int \<Rightarrow> instant" where
  "compute_next_run now s budget_multiplier =
     (let interval = min (ps_effective_interval_s s * max budget_multiplier 1) MAX_INTERVAL_S
      in case ps_last_run_at s of
           Some last_run \<Rightarrow> if now - last_run \<ge> secs STARVATION_CEILING_S then now else now + secs interval
         | None \<Rightarrow> now + secs interval)"

definition maybe_reopen_circuit :: "instant \<Rightarrow> perception_state \<Rightarrow> perception_state" where
  "maybe_reopen_circuit now s =
     (case ps_circuit_opened_at s of
        None \<Rightarrow> s
      | Some t \<Rightarrow>
          if ps_circuit_state s \<noteq> POpen then s
          else if now - t \<ge> secs CIRCUIT_COOLDOWN_S
          then s\<lparr>ps_circuit_state := PHalfOpen, ps_consecutive_failures := 0\<rparr>
          else s)"

section \<open>Due sources\<close>

definition due :: "instant \<Rightarrow> perception_state \<Rightarrow> bool" where
  "due now s =
     (ps_mode s \<noteq> ''paused''
      \<and> (ps_pending_run s
         \<or> (case ps_next_run_at s of Some t \<Rightarrow> t \<le> now | None \<Rightarrow> False)
         \<or> ps_circuit_state s = POpen
           \<and> (case ps_circuit_opened_at s of Some t \<Rightarrow> t \<le> now - secs CIRCUIT_COOLDOWN_S | None \<Rightarrow> False)))"

text \<open>\<open>ORDER BY next_run_at ASC NULLS LAST\<close> (ties in table order).\<close>

definition order_by_next_run :: "perception_state list \<Rightarrow> perception_state list" where
  "order_by_next_run ss =
     sort_key (\<lambda>s. case ps_next_run_at s of Some t \<Rightarrow> t | None \<Rightarrow> 0) (filter (\<lambda>s. ps_next_run_at s \<noteq> None) ss)
     @ filter (\<lambda>s. ps_next_run_at s = None) ss"

text \<open>The two queries, as the list returned and the table with the reopened circuits.\<close>

definition get_due_sources ::
  "instant \<Rightarrow> (perception_state \<Rightarrow> bool) \<Rightarrow> string \<Rightarrow> perception_state list \<Rightarrow>
   perception_state list \<times> perception_state list" where
  "get_due_sources now locked user_id tbl =
     (let sel = (\<lambda>s. ps_user_id s = user_id \<and> due now s \<and> \<not> locked s);
          step = (\<lambda>s. if ps_circuit_state s = PHalfOpen then s else maybe_reopen_circuit now s);
          states = map step (order_by_next_run (filter sel tbl))
      in (filter (\<lambda>s. ps_circuit_state s \<noteq> POpen) states, map (\<lambda>s. if sel s then step s else s) tbl))"

definition get_due_sources_all_users ::
  "instant \<Rightarrow> (perception_state \<Rightarrow> bool) \<Rightarrow> perception_state list \<Rightarrow>
   perception_state list \<times> perception_state list" where
  "get_due_sources_all_users now locked tbl =
     (let sel = (\<lambda>s. due now s \<and> \<not> locked s);
          states = map (maybe_reopen_circuit now) (order_by_next_run (filter sel tbl))
      in (filter (\<lambda>s. ps_circuit_state s \<noteq> POpen) states,
          map (\<lambda>s. if sel s then maybe_reopen_circuit now s else s) tbl))"

record claimed_source =
  cs_state_id :: string
  cs_source :: string
  cs_user_id :: string
  cs_workspace_id :: string

definition lease :: "instant \<Rightarrow> perception_state \<Rightarrow> perception_state" where
  "lease now s = s\<lparr>ps_pending_run := False, ps_next_run_at := Some (now + secs LEASE_TTL_S)\<rparr>"

definition claim_due_sources ::
  "instant \<Rightarrow> perception_state list \<Rightarrow> perception_state list \<Rightarrow> claimed_source list \<times> perception_state list" where
  "claim_due_sources now sources tbl =
     (map (\<lambda>s. \<lparr>cs_state_id = ps_state_id s, cs_source = ps_source s, cs_user_id = ps_user_id s,
               cs_workspace_id = ps_workspace_id s\<rparr>) sources,
      map (\<lambda>s. if ps_state_id s \<in> ps_state_id ` set sources then lease now s else s) tbl)"

definition get_by_state_id :: "string \<Rightarrow> perception_state list \<Rightarrow> perception_state option" where
  "get_by_state_id sid tbl = row_find ps_state_id sid tbl"

section \<open>Outcomes and signals\<close>

text \<open>The clock is read at the start (\<open>now\<close>) and again in \<open>_compute_next_run\<close> (\<open>now2\<close>).\<close>

definition record_success ::
  "instant \<Rightarrow> instant \<Rightarrow> nat \<Rightarrow> int \<Rightarrow> perception_state \<Rightarrow> perception_state" where
  "record_success now now2 event_count budget_multiplier s =
     (let s1 = s\<lparr>ps_consecutive_failures := 0, ps_last_error := None, ps_circuit_state := PClosed,
                ps_circuit_opened_at := None, ps_last_run_at := Some now,
                ps_last_event_count := event_count, ps_total_runs := ps_total_runs s + 1,
                ps_pending_run := False\<rparr>;
          s2 = s1\<lparr>ps_effective_interval_s := compute_effective_interval s1\<rparr>
      in s2\<lparr>ps_next_run_at := Some (compute_next_run now2 s2 budget_multiplier)\<rparr>)"

definition record_failure :: "instant \<Rightarrow> instant \<Rightarrow> string \<Rightarrow> perception_state \<Rightarrow> perception_state" where
  "record_failure now now2 error s =
     (let threshold = threshold_for_error_class (classify_error error);
          s1 = s\<lparr>ps_consecutive_failures := ps_consecutive_failures s + 1,
                ps_last_error := Some (take 512 error), ps_pending_run := False\<rparr>
      in if ps_consecutive_failures s1 \<ge> threshold
         then s1\<lparr>ps_circuit_state := POpen, ps_circuit_opened_at := Some now\<rparr>
         else
           (let s2 = s1\<lparr>ps_effective_interval_s := compute_effective_interval s1\<rparr>
            in s2\<lparr>ps_next_run_at := Some (compute_next_run now2 s2 1)\<rparr>))"

definition request_run ::
  "instant \<Rightarrow> string \<Rightarrow> string \<times> string \<times> string \<Rightarrow> string \<Rightarrow> perception_state list \<Rightarrow> perception_state list" where
  "request_run now fresh_id k signal_source tbl =
     (let (state, tbl1) = get_or_create_state fresh_id k tbl;
          woken = (ps_mode state = ''paused'' \<and> signal_source \<in> set WAKE_SIGNALS)
      in if ps_mode state = ''paused'' \<and> signal_source \<notin> set WAKE_SIGNALS then tbl1
         else row_update ps_key k
           (\<lambda>s. s\<lparr>ps_mode := (if woken then ''active'' else ps_mode s), ps_pending_run := True,
                 ps_signal_source := Some signal_source, ps_signal_at := Some now\<rparr>) tbl1)"

definition apply_agent_policy ::
  "instant \<Rightarrow> int option \<Rightarrow> string list option \<Rightarrow> perception_state \<Rightarrow> perception_state" where
  "apply_agent_policy now next_check_seconds watch_entities s =
     (let s1 = (case next_check_seconds of
                  None \<Rightarrow> s
                | Some n \<Rightarrow> s\<lparr>ps_agent_interval_s := Some (max MIN_INTERVAL_S (min n MAX_INTERVAL_S))\<rparr>);
          s2 = (case watch_entities of None \<Rightarrow> s1 | Some w \<Rightarrow> s1\<lparr>ps_watch_entities := Some w\<rparr>);
          s3 = s2\<lparr>ps_effective_interval_s := compute_effective_interval s2\<rparr>
      in s3\<lparr>ps_next_run_at := Some (compute_next_run now s3 1)\<rparr>)"

section \<open>Facts\<close>

lemma effective_interval_bounds:
  "MIN_INTERVAL_S \<le> compute_effective_interval s \<and> compute_effective_interval s \<le> MAX_INTERVAL_S"
  by (simp add: compute_effective_interval_def Let_def guardrails)

lemma compute_next_run_bounds:
  assumes "MIN_INTERVAL_S \<le> ps_effective_interval_s s"
  shows "now \<le> compute_next_run now s m \<and> compute_next_run now s m \<le> now + secs MAX_INTERVAL_S
    \<and> (compute_next_run now s m \<noteq> now \<longrightarrow> now + secs MIN_INTERVAL_S \<le> compute_next_run now s m)"
proof -
  have "ps_effective_interval_s s * 1 \<le> ps_effective_interval_s s * max m 1"
    using assms by (intro mult_left_mono) (auto simp: guardrails)
  then have "MIN_INTERVAL_S \<le> ps_effective_interval_s s * max m 1"
    using assms by linarith
  then have "MIN_INTERVAL_S \<le> min (ps_effective_interval_s s * max m 1) MAX_INTERVAL_S"
    by (simp add: guardrails del: mult_le_cancel_left)
  then show ?thesis
    by (auto simp: compute_next_run_def Let_def guardrails secs_def split: option.split)
qed

lemma maybe_reopen_frame [simp]:
  "ps_state_id (maybe_reopen_circuit now s) = ps_state_id s"
  "ps_user_id (maybe_reopen_circuit now s) = ps_user_id s"
  "ps_mode (maybe_reopen_circuit now s) = ps_mode s"
  "ps_next_run_at (maybe_reopen_circuit now s) = ps_next_run_at s"
  "ps_pending_run (maybe_reopen_circuit now s) = ps_pending_run s"
  by (auto simp: maybe_reopen_circuit_def split: option.split)

lemma maybe_reopen_half_open [simp]: "ps_circuit_state s = PHalfOpen \<Longrightarrow> maybe_reopen_circuit now s = s"
  by (simp add: maybe_reopen_circuit_def split: option.split)

lemma set_order_by [simp]: "set (order_by_next_run ss) = set ss"
  by (auto simp: order_by_next_run_def)

lemma filter_order_by: "filter P (order_by_next_run ss) = order_by_next_run (filter P ss)"
proof -
  have "filter P (filter Q ss) = filter Q (filter P ss)" for Q :: "perception_state \<Rightarrow> bool"
    by (simp add: conj_commute)
  then show ?thesis by (simp only: order_by_next_run_def filter_append filter_sort)
qed

lemma due_list_row:
  "s \<in> set (fst (get_due_sources_all_users t locked tbl)) \<longleftrightarrow>
     (\<exists>r \<in> set tbl. due t r \<and> \<not> locked r \<and> s = maybe_reopen_circuit t r \<and> ps_circuit_state s \<noteq> POpen)"
  by (auto simp: get_due_sources_all_users_def Let_def)

text \<open>A claimed row, once leased, is due again only when the lease is over.\<close>

lemma leased_due:
  "ps_circuit_state s \<noteq> POpen \<Longrightarrow> due t' (lease t s) \<longleftrightarrow> ps_mode s \<noteq> ''paused'' \<and> t + secs LEASE_TTL_S \<le> t'"
  by (simp add: due_def lease_def)

definition claim_tick ::
  "instant \<Rightarrow> (perception_state \<Rightarrow> bool) \<Rightarrow> perception_state list \<Rightarrow> claimed_source list \<times> perception_state list" where
  "claim_tick now locked tbl =
     (let (ss, tbl1) = get_due_sources_all_users now locked tbl in claim_due_sources now ss tbl1)"

lemma claim_tick_rows:
  assumes "distinct (map ps_state_id tbl)"
  shows "snd (claim_tick t locked tbl) =
      map (\<lambda>r. let s = (if due t r \<and> \<not> locked r then maybe_reopen_circuit t r else r)
               in if due t r \<and> \<not> locked r \<and> ps_circuit_state s \<noteq> POpen then lease t s else s) tbl"
    and "cs_state_id ` set (fst (claim_tick t locked tbl)) =
      ps_state_id ` {r \<in> set tbl. due t r \<and> \<not> locked r \<and> ps_circuit_state (maybe_reopen_circuit t r) \<noteq> POpen}"
proof -
  let ?ss = "fst (get_due_sources_all_users t locked tbl)"
  have ids: "ps_state_id ` set ?ss =
      ps_state_id ` {r \<in> set tbl. due t r \<and> \<not> locked r \<and> ps_circuit_state (maybe_reopen_circuit t r) \<noteq> POpen}"
  proof -
    have "set ?ss = maybe_reopen_circuit t ` {r \<in> set tbl. due t r \<and> \<not> locked r
        \<and> ps_circuit_state (maybe_reopen_circuit t r) \<noteq> POpen}"
      by (auto simp: due_list_row)
    then show ?thesis by (simp add: image_image)
  qed
  then show "cs_state_id ` set (fst (claim_tick t locked tbl)) =
      ps_state_id ` {r \<in> set tbl. due t r \<and> \<not> locked r \<and> ps_circuit_state (maybe_reopen_circuit t r) \<noteq> POpen}"
    by (simp add: claim_tick_def claim_due_sources_def split_beta image_image)
  have mem: "ps_state_id r \<in> ps_state_id ` set ?ss \<longleftrightarrow>
      due t r \<and> \<not> locked r \<and> ps_circuit_state (maybe_reopen_circuit t r) \<noteq> POpen" if "r \<in> set tbl" for r
    unfolding ids using assms that by (auto simp: distinct_map inj_on_def)
  have tbl1: "snd (get_due_sources_all_users t locked tbl) =
      map (\<lambda>s. if due t s \<and> \<not> locked s then maybe_reopen_circuit t s else s) tbl"
    by (simp add: get_due_sources_all_users_def Let_def)
  show "snd (claim_tick t locked tbl) =
      map (\<lambda>r. let s = (if due t r \<and> \<not> locked r then maybe_reopen_circuit t r else r)
               in if due t r \<and> \<not> locked r \<and> ps_circuit_state s \<noteq> POpen then lease t s else s) tbl"
    unfolding claim_tick_def claim_due_sources_def split_beta Let_def snd_conv tbl1 map_map
    using mem by (intro map_cong) auto
qed

section \<open>Properties of the policy\<close>

definition well_scheduled :: "instant \<Rightarrow> perception_state \<Rightarrow> bool" where
  "well_scheduled now s =
     (MIN_INTERVAL_S \<le> ps_effective_interval_s s \<and> ps_effective_interval_s s \<le> MAX_INTERVAL_S
      \<and> (case ps_next_run_at s of None \<Rightarrow> False | Some t \<Rightarrow> now \<le> t \<and> t \<le> now + secs MAX_INTERVAL_S))"

text \<open>The polling interval is never below a minute nor above an hour, whatever the base, the
  agent's override, the number of failures and the budget multiplier; the next run is never more than
  an hour away, and after a success it is at least a minute away.\<close>

lemma polling_interval_bounds:
  "well_scheduled now (record_success now now n m s)
   \<and> well_scheduled now (apply_agent_policy now nxt w s)
   \<and> (case ps_next_run_at (record_success now now n m s) of None \<Rightarrow> False
      | Some t \<Rightarrow> now + secs MIN_INTERVAL_S \<le> t)"
proof -
  have b: "MIN_INTERVAL_S \<le> ps_effective_interval_s (x\<lparr>ps_effective_interval_s := compute_effective_interval x\<rparr>)" for x
    using effective_interval_bounds by simp
  have starve: "\<not> now - now \<ge> secs STARVATION_CEILING_S" by (simp add: guardrails secs_def)
  let ?s = "(record_success now now n m s)"
  obtain x where x: "?s = x\<lparr>ps_effective_interval_s := compute_effective_interval x,
      ps_next_run_at := Some (compute_next_run now (x\<lparr>ps_effective_interval_s := compute_effective_interval x\<rparr>) m)\<rparr>"
    "ps_last_run_at x = Some now"
    by (simp add: record_success_def Let_def)
  obtain y where y: "apply_agent_policy now nxt w s = y\<lparr>ps_effective_interval_s := compute_effective_interval y,
      ps_next_run_at := Some (compute_next_run now (y\<lparr>ps_effective_interval_s := compute_effective_interval y\<rparr>) 1)\<rparr>"
    by (simp add: apply_agent_policy_def Let_def)
  have "compute_next_run now (x\<lparr>ps_effective_interval_s := compute_effective_interval x\<rparr>) m \<noteq> now"
  proof -
    let ?x = "x\<lparr>ps_effective_interval_s := compute_effective_interval x\<rparr>"
    have "compute_effective_interval x * 1 \<le> compute_effective_interval x * max m 1"
      using effective_interval_bounds[of x] by (intro mult_left_mono) (auto simp: guardrails)
    then have "0 < min (compute_effective_interval x * max m 1) MAX_INTERVAL_S"
      using effective_interval_bounds[of x] unfolding guardrails by linarith
    then show ?thesis using x(2) by (simp add: compute_next_run_def Let_def guardrails secs_def)
  qed
  then show ?thesis
    using compute_next_run_bounds[OF b, of now x m] compute_next_run_bounds[OF b, of now y 1]
      effective_interval_bounds[of x] effective_interval_bounds[of y]
    by (simp add: x(1) y well_scheduled_def)
qed

text \<open>The lease: a tick that claims the due sources at time \<open>t\<close> makes none of them due again to
  any query, of any worker, for 180 seconds; and unless an outcome is recorded they all are after
  that (so a crashed cycle is retried).\<close>

lemma lease_prevents_double_pick:
  assumes "distinct (map ps_state_id tbl)"
  shows "(let (claimed, tbl') = claim_tick t locked tbl;
              again = \<lambda>t' locked'. ps_state_id ` set (fst (get_due_sources_all_users t' locked' tbl'));
              ids = cs_state_id ` set claimed
     in (t' < t + secs LEASE_TTL_S \<longrightarrow> ids \<inter> again t' locked' = {})
        \<and> (t + secs LEASE_TTL_S \<le> t' \<longrightarrow> ids \<subseteq> again t' (\<lambda>_. False)))"
proof -
  let ?c = "\<lambda>r. due t r \<and> \<not> locked r \<and> ps_circuit_state (maybe_reopen_circuit t r) \<noteq> POpen"
  let ?tbl' = "snd (claim_tick t locked tbl)"
  have row: "lease t (maybe_reopen_circuit t r) \<in> set ?tbl'" if "r \<in> set tbl" "?c r" for r
    unfolding claim_tick_rows(1)[OF assms] using that by (force simp: Let_def)
  have key: "\<exists>q \<in> set tbl. ps_state_id q = ps_state_id r
      \<and> r = (if ?c q then lease t (maybe_reopen_circuit t q)
             else if due t q \<and> \<not> locked q then maybe_reopen_circuit t q else q)" if "r \<in> set ?tbl'" for r
    using that unfolding claim_tick_rows(1)[OF assms] by (auto simp: Let_def lease_def)
  have early: "\<not> due t' r" if h: "t' < t + secs LEASE_TTL_S" "r \<in> set ?tbl'" "ps_state_id r = ps_state_id q"
    "q \<in> set tbl" "?c q" for r q
  proof -
    obtain q' where q': "q' \<in> set tbl" "ps_state_id q' = ps_state_id r"
      "r = (if ?c q' then lease t (maybe_reopen_circuit t q')
            else if due t q' \<and> \<not> locked q' then maybe_reopen_circuit t q' else q')"
      using key[OF h(2)] by blast
    have "q' = q" using assms q'(1,2) h(3,4) by (auto simp: distinct_map inj_on_def)
    then have "r = lease t (maybe_reopen_circuit t q)" using q'(3) h(5) by simp
    then show ?thesis using h(1,5) by (simp add: leased_due)
  qed
  have late: "ps_state_id q \<in> ps_state_id ` set (fst (get_due_sources_all_users t' (\<lambda>_. False) ?tbl'))"
    if "t + secs LEASE_TTL_S \<le> t'" "q \<in> set tbl" "?c q" for q
  proof -
    let ?r = "lease t (maybe_reopen_circuit t q)"
    have m: "ps_mode q \<noteq> ''paused''" using that(3) by (simp add: due_def)
    have "due t' ?r" using that m by (simp add: leased_due)
    moreover have "ps_circuit_state (maybe_reopen_circuit t' ?r) \<noteq> POpen"
      using that(3) by (auto simp: maybe_reopen_circuit_def lease_def split: option.split)
    ultimately have "maybe_reopen_circuit t' ?r \<in> set (fst (get_due_sources_all_users t' (\<lambda>_. False) ?tbl'))"
      using row[OF that(2,3)] unfolding due_list_row by blast
    then show ?thesis by (rule rev_image_eqI) (simp add: lease_def)
  qed
  show ?thesis
    unfolding split_beta Let_def claim_tick_rows(2)[OF assms]
  proof (intro conjI impI)
    assume t: "t' < t + secs LEASE_TTL_S"
    show "ps_state_id ` {r \<in> set tbl. ?c r} \<inter> ps_state_id ` set (fst (get_due_sources_all_users t' locked' ?tbl')) = {}"
      using early[OF t] by (auto simp: due_list_row) metis
  next
    assume t: "t + secs LEASE_TTL_S \<le> t'"
    show "ps_state_id ` {r \<in> set tbl. ?c r} \<subseteq> ps_state_id ` set (fst (get_due_sources_all_users t' (\<lambda>_. False) ?tbl'))"
      using late[OF t] by blast
  qed
qed

definition sample_source :: "string \<Rightarrow> perception_state" where
  "sample_source sid = (new_perception_state sid (''ws'', ''u'', ''gmail''))
     \<lparr>ps_mode := ''active'', ps_pending_run := True\<rparr>"

lemma record_failure_count [simp]:
  "ps_consecutive_failures (record_failure n1 n2 e s) = Suc (ps_consecutive_failures s)"
  by (simp add: record_failure_def Let_def)

lemma record_failure_circuit:
  "ps_circuit_state (record_failure n1 n2 e s) =
     (if threshold_for_error_class (classify_error e) \<le> Suc (ps_consecutive_failures s) then POpen
      else ps_circuit_state s)"
  by (simp add: record_failure_def Let_def)

definition failures_in_a_row :: "(instant \<times> instant \<times> string) list \<Rightarrow> perception_state \<Rightarrow> perception_state" where
  "failures_in_a_row es s = foldl (\<lambda>s (n1, n2, e). record_failure n1 n2 e s) s es"

text \<open>The circuit of a source opens after exactly as many consecutive failures as the class of the
  error allows: one for a permanent error, six for a transient one, three for an unknown one.\<close>

lemma circuit_threshold_by_class:
  assumes "ps_circuit_state s = PClosed" and "ps_consecutive_failures s = 0" and "es \<noteq> []"
    and "\<forall>(n1, n2, e) \<in> set es. classify_error e = c"
  shows "ps_circuit_state (failures_in_a_row es s) =
      (if (case c of Permanent \<Rightarrow> 1 | Transient \<Rightarrow> 6 | Unknown \<Rightarrow> 3) \<le> length es then POpen else PClosed)
    \<and> ps_consecutive_failures (failures_in_a_row es s) = length es"
  using assms(3,4)
proof (induction es rule: rev_induct)
  case Nil
  then show ?case by simp
next
  case (snoc x es)
  obtain n1 n2 e where x: "x = (n1, n2, e)" by (cases x)
  have c: "threshold_for_error_class (classify_error e) =
      (case c of Permanent \<Rightarrow> 1 | Transient \<Rightarrow> 6 | Unknown \<Rightarrow> 3)"
    using snoc.prems(2) by (cases c) (auto simp: x threshold_for_error_class_def guardrails)
  show ?case
  proof (cases "es = []")
    case True
    then show ?thesis
      using assms(1,2) c by (cases c) (auto simp: failures_in_a_row_def x record_failure_circuit)
  next
    case False
    with snoc have "ps_circuit_state (failures_in_a_row es s) =
        (if (case c of Permanent \<Rightarrow> 1 | Transient \<Rightarrow> 6 | Unknown \<Rightarrow> 3) \<le> length es then POpen else PClosed)"
      "ps_consecutive_failures (failures_in_a_row es s) = length es" by auto
    then show ?thesis
      using c by (cases c) (auto simp: failures_in_a_row_def x record_failure_circuit)
  qed
qed

text \<open>A source that has had no successful run for 30 minutes is retried at once after every failure
  that does not open its circuit: the backoff has no effect and the source is due again
  immediately, below the one-minute minimum.\<close>

lemma silent_source_has_no_backoff:
  assumes "ps_last_run_at s = Some r" and "r + secs STARVATION_CEILING_S \<le> now2" and "ps_mode s \<noteq> ''paused''"
    and "Suc (ps_consecutive_failures s) < threshold_for_error_class (classify_error e)"
  shows "ps_next_run_at (record_failure now now2 e s) = Some now2 \<and> due now2 (record_failure now now2 e s)"
  using assms by (simp add: record_failure_def Let_def compute_next_run_def due_def)

lemma get_or_create_state_row:
  "row_find ps_key j (snd (get_or_create_state i k tbl)) =
     (case row_find ps_key j tbl of
        Some s \<Rightarrow> Some s
      | None \<Rightarrow> if j = k then Some (new_perception_state i k) else None)"
  by (auto simp: get_or_create_state_def row_find_append new_perception_state_def ps_key_def Let_def
      split: option.split)

text \<open>A paused source is never polled, and only the four wake signals resume it: any other signal, a
  webhook in particular, leaves its row unchanged (and creates a missing one paused), while a wake
  signal makes it active with a run pending, hence due at once.\<close>

lemma only_wake_signals_resume:
  assumes "case row_find ps_key k tbl of None \<Rightarrow> True | Some s \<Rightarrow> ps_mode s = ''paused''"
  shows "(if signal \<in> set WAKE_SIGNALS
      then (\<exists>s. row_find ps_key k (request_run now i k signal tbl) = Some s \<and> ps_mode s = ''active''
              \<and> ps_pending_run s \<and> due t s)
      else (\<exists>s. row_find ps_key k (request_run now i k signal tbl) = Some s \<and> ps_mode s = ''paused'' \<and> \<not> due t s
              \<and> row_find ps_key k tbl \<in> {None, Some s}))
    \<and> ''webhook'' \<notin> set WAKE_SIGNALS"
proof -
  obtain s tbl1 where g: "get_or_create_state i k tbl = (s, tbl1)" by (cases "get_or_create_state i k tbl")
  have m: "ps_mode s = ''paused''" and f: "row_find ps_key k tbl1 = Some s"
    and o: "row_find ps_key k tbl \<in> {None, Some s}"
    using assms g get_or_create_state_row[of k i k tbl]
    by (auto simp: get_or_create_state_def new_perception_state_def Let_def split: option.splits)
  let ?f = "\<lambda>s. s\<lparr>ps_mode := ''active'', ps_pending_run := True, ps_signal_source := Some signal, ps_signal_at := Some now\<rparr>"
  have u: "row_find ps_key k (row_update ps_key k ?f tbl1) = Some (?f s)"
    by (subst row_find_update) (simp_all add: ps_key_def f)
  have w: "request_run now i k signal tbl =
      (if signal \<in> set WAKE_SIGNALS then row_update ps_key k ?f tbl1 else tbl1)"
    by (simp add: request_run_def g m)
  show ?thesis using u f m o unfolding w by (auto simp: due_def WAKE_SIGNALS_def)
qed

text \<open>The per-user query is the all-users query restricted to that user: same rows, same order, same
  reopened circuits.\<close>

lemma per_user_query_agrees:
  "fst (get_due_sources now locked u tbl) =
     filter (\<lambda>s. ps_user_id s = u) (fst (get_due_sources_all_users now locked tbl))"
proof -
  let ?open = "\<lambda>s. ps_circuit_state s \<noteq> POpen"
  have step: "(if ps_circuit_state s = PHalfOpen then s else maybe_reopen_circuit now s) = maybe_reopen_circuit now s" for s
    by simp
  have "filter (\<lambda>s. ps_user_id s = u) (map (maybe_reopen_circuit now) (order_by_next_run xs))
      = map (maybe_reopen_circuit now) (order_by_next_run (filter (\<lambda>s. ps_user_id s = u) xs))" for xs
    by (simp add: filter_map o_def filter_order_by)
  note p = this
  have "filter (\<lambda>s. ps_user_id s = u) (filter ?open (map (maybe_reopen_circuit now) (order_by_next_run xs)))
      = filter ?open (map (maybe_reopen_circuit now) (order_by_next_run (filter (\<lambda>s. ps_user_id s = u) xs)))" for xs
    unfolding p[symmetric] by (simp add: conj_commute)
  then show ?thesis
    unfolding get_due_sources_def get_due_sources_all_users_def Let_def fst_conv step
    by (simp add: conj_ac)
qed

end
