(* ===== verification/Capabilities.thy ===== *)
theory Capabilities
  imports Json
begin

text \<open>
  \<open>backend/src/integrations/capabilities.py\<close> and
  \<open>backend/src/services/verification/predicate.py\<close>: the catalog of capabilities (what a
  tool is allowed to do), read-only and system-action classification, and the fail-closed
  irreversibility predicate shared by the verification trigger and the coverage gates.
  A \<open>frozenset\<close> is the list of its elements.
\<close>

section \<open>Catalog\<close>

datatype capability_family =
    FamEmail | FamCalendar | FamRepo | FamIssue | FamDoc | FamWorkflow | FamMessaging | FamSearch
  | FamInternal | FamSystem

fun family_text :: "capability_family \<Rightarrow> string" where
  "family_text FamEmail = ''email''"
| "family_text FamCalendar = ''calendar''"
| "family_text FamRepo = ''repo''"
| "family_text FamIssue = ''issue''"
| "family_text FamDoc = ''doc''"
| "family_text FamWorkflow = ''workflow''"
| "family_text FamMessaging = ''messaging''"
| "family_text FamSearch = ''search''"
| "family_text FamInternal = ''internal''"
| "family_text FamSystem = ''system''"

definition all_families :: "capability_family list" where
  "all_families = [FamEmail, FamCalendar, FamRepo, FamIssue, FamDoc, FamWorkflow, FamMessaging,
     FamSearch, FamInternal, FamSystem]"

record capability_meta =
  cm_family :: capability_family
  cm_read_only :: bool
  cm_risk_level :: string

definition cap :: "capability_family \<Rightarrow> bool \<Rightarrow> string \<Rightarrow> capability_meta" where
  "cap f ro risk = \<lparr>cm_family = f, cm_read_only = ro, cm_risk_level = risk\<rparr>"

definition CAPABILITY_CATALOG :: "(string \<times> capability_meta) list" where
  "CAPABILITY_CATALOG =
    [(''email.send'', cap FamEmail False ''high''),
     (''email.draft'', cap FamEmail False ''medium''),
     (''email.reply'', cap FamEmail False ''high''),
     (''email.list'', cap FamEmail True ''low''),
     (''email.read'', cap FamEmail True ''low''),
     (''email.search'', cap FamEmail True ''low''),
     (''email.delete'', cap FamEmail False ''critical''),
     (''calendar.list'', cap FamCalendar True ''low''),
     (''calendar.get'', cap FamCalendar True ''low''),
     (''calendar.create'', cap FamCalendar False ''medium''),
     (''calendar.update'', cap FamCalendar False ''medium''),
     (''calendar.delete'', cap FamCalendar False ''critical''),
     (''repo.search_code'', cap FamRepo True ''low''),
     (''repo.search_repos'', cap FamRepo True ''low''),
     (''repo.get_diff'', cap FamRepo True ''low''),
     (''repo.get_files'', cap FamRepo True ''low''),
     (''repo.create_pr'', cap FamRepo False ''high''),
     (''repo.merge_pr'', cap FamRepo False ''high''),
     (''repo.update_pr'', cap FamRepo False ''medium''),
     (''repo.list_prs'', cap FamRepo True ''low''),
     (''repo.search_prs'', cap FamRepo True ''low''),
     (''repo.get_reviews'', cap FamRepo True ''low''),
     (''repo.review_pr'', cap FamRepo False ''medium''),
     (''repo.get_checks'', cap FamRepo True ''low''),
     (''issue.create'', cap FamIssue False ''medium''),
     (''issue.update'', cap FamIssue False ''medium''),
     (''issue.comment'', cap FamIssue False ''medium''),
     (''issue.list'', cap FamIssue True ''low''),
     (''issue.get'', cap FamIssue True ''low''),
     (''issue.search'', cap FamIssue True ''low''),
     (''issue.delete'', cap FamIssue False ''critical''),
     (''issue.transition'', cap FamIssue False ''medium''),
     (''issue.sub_issue'', cap FamIssue False ''medium''),
     (''doc.create'', cap FamDoc False ''medium''),
     (''doc.update'', cap FamDoc False ''medium''),
     (''doc.get'', cap FamDoc True ''low''),
     (''doc.search'', cap FamDoc True ''low''),
     (''doc.delete'', cap FamDoc False ''critical''),
     (''doc.comment'', cap FamDoc False ''medium''),
     (''doc.append'', cap FamDoc False ''medium''),
     (''doc.query'', cap FamDoc True ''low''),
     (''workflow.create_issue'', cap FamWorkflow False ''medium''),
     (''workflow.update_issue'', cap FamWorkflow False ''medium''),
     (''workflow.transition'', cap FamWorkflow False ''medium''),
     (''workflow.comment'', cap FamWorkflow False ''medium''),
     (''workflow.list'', cap FamWorkflow True ''low''),
     (''workflow.get'', cap FamWorkflow True ''low''),
     (''workflow.search'', cap FamWorkflow True ''low''),
     (''workflow.delete'', cap FamWorkflow False ''critical''),
     (''workflow.get_teams'', cap FamWorkflow True ''low''),
     (''messaging.send'', cap FamMessaging False ''high''),
     (''messaging.reply'', cap FamMessaging False ''high''),
     (''messaging.react'', cap FamMessaging False ''medium''),
     (''messaging.update'', cap FamMessaging False ''medium''),
     (''messaging.list_channels'', cap FamMessaging True ''low''),
     (''messaging.get_history'', cap FamMessaging True ''low''),
     (''messaging.get_thread'', cap FamMessaging True ''low''),
     (''messaging.get_users'', cap FamMessaging True ''low''),
     (''messaging.get_profile'', cap FamMessaging True ''low''),
     (''messaging.search'', cap FamMessaging True ''low''),
     (''messaging.send_template'', cap FamMessaging False ''high''),
     (''messaging.mark_read'', cap FamMessaging False ''low''),
     (''search.web'', cap FamSearch True ''low''),
     (''search.memory'', cap FamSearch True ''low''),
     (''search.users'', cap FamSearch True ''low''),
     (''search.orgs'', cap FamSearch True ''low''),
     (''messaging.post'', cap FamMessaging False ''high''),
     (''messaging.share'', cap FamMessaging False ''high''),
     (''messaging.get_mentions'', cap FamMessaging True ''low''),
     (''internal.search'', cap FamInternal True ''low''),
     (''internal.get_plans'', cap FamInternal True ''low''),
     (''internal.get_plan_details'', cap FamInternal True ''low''),
     (''internal.get_goals'', cap FamInternal True ''low''),
     (''internal.get_briefing'', cap FamInternal True ''low''),
     (''internal.get_cursor'', cap FamInternal True ''low''),
     (''internal.report_observation'', cap FamInternal False ''low''),
     (''internal.build_context'', cap FamInternal True ''low''),
     (''internal.ingest_event'', cap FamInternal False ''low''),
     (''internal.update_entity'', cap FamInternal False ''low''),
     (''internal.evaluate_policy'', cap FamInternal False ''low''),
     (''internal.report_verdict'', cap FamInternal False ''low''),
     (''internal.approve_action'', cap FamInternal False ''medium''),
     (''internal.update_cursor'', cap FamInternal False ''low''),
     (''internal.extract_preferences'', cap FamInternal False ''low''),
     (''internal.verify_run'', cap FamInternal False ''low''),
     (''internal.update_execution'', cap FamInternal False ''low''),
     (''internal.store_memory'', cap FamInternal False ''low''),
     (''internal.store_preference'', cap FamInternal False ''low''),
     (''internal.get_entity'', cap FamInternal True ''low''),
     (''internal.query_facts'', cap FamInternal True ''low''),
     (''internal.traverse'', cap FamInternal True ''low''),
     (''internal.get_provenance'', cap FamInternal True ''low''),
     (''doc.drive_list'', cap FamDoc True ''low''),
     (''doc.drive_search'', cap FamDoc True ''low''),
     (''doc.drive_create'', cap FamDoc False ''medium''),
     (''doc.drive_delete'', cap FamDoc False ''critical''),
     (''workflow.create_issues'', cap FamWorkflow False ''medium''),
     (''workflow.bulk_update'', cap FamWorkflow False ''medium''),
     (''workflow.search_by_id'', cap FamWorkflow True ''low''),
     (''workflow.update_comment'', cap FamWorkflow False ''medium''),
     (''workflow.delete_comment'', cap FamWorkflow False ''high''),
     (''workflow.resolve_comment'', cap FamWorkflow False ''medium''),
     (''workflow.unresolve_comment'', cap FamWorkflow False ''medium''),
     (''workflow.get_user'', cap FamWorkflow True ''low''),
     (''workflow.get_project'', cap FamWorkflow True ''low''),
     (''workflow.list_projects'', cap FamWorkflow True ''low''),
     (''workflow.create_project'', cap FamWorkflow False ''medium''),
     (''workflow.create_milestone'', cap FamWorkflow False ''medium''),
     (''workflow.get_milestones'', cap FamWorkflow True ''low''),
     (''workflow.update_milestone'', cap FamWorkflow False ''medium''),
     (''workflow.delete_milestone'', cap FamWorkflow False ''high''),
     (''workflow.create_customer_need'', cap FamWorkflow False ''medium''),
     (''workflow.auth'', cap FamWorkflow True ''low''),
     (''doc.get_property'', cap FamDoc True ''low''),
     (''doc.get_comment'', cap FamDoc True ''low''),
     (''doc.get_children'', cap FamDoc True ''low''),
     (''doc.get_block'', cap FamDoc True ''low''),
     (''doc.update_block'', cap FamDoc False ''medium''),
     (''doc.delete_block'', cap FamDoc False ''high''),
     (''doc.move'', cap FamDoc False ''medium''),
     (''doc.get_database'', cap FamDoc True ''low''),
     (''doc.create_datasource'', cap FamDoc False ''medium''),
     (''doc.get_datasource'', cap FamDoc True ''low''),
     (''doc.update_datasource'', cap FamDoc False ''medium''),
     (''doc.list_templates'', cap FamDoc True ''low''),
     (''doc.get_self'', cap FamDoc True ''low''),
     (''doc.get_user'', cap FamDoc True ''low''),
     (''doc.get_users'', cap FamDoc True ''low''),
     (''system.discovery'', cap FamSystem True ''none''),
     (''system.set_goal'', cap FamSystem False ''low''),
     (''system.set_instruction'', cap FamSystem False ''low''),
     (''system.schedule_reminder'', cap FamSystem False ''low''),
     (''system.add_to_brief'', cap FamSystem False ''low'')]"

definition SYSTEM_ACTION_CAPABILITIES :: "string list" where
  "SYSTEM_ACTION_CAPABILITIES =
    [''system.set_goal'', ''system.set_instruction'', ''system.schedule_reminder'',
     ''system.add_to_brief'']"

definition catalog_meta :: "string \<Rightarrow> capability_meta option" where
  "catalog_meta c = map_of CAPABILITY_CATALOG c"

definition is_read_only_capability :: "string \<Rightarrow> bool" where
  "is_read_only_capability c =
     (case catalog_meta c of Some m \<Rightarrow> cm_read_only m | None \<Rightarrow> False)"

text \<open>\<open>CapabilityFamily(prefix)\<close>, \<open>None\<close> where it raises \<open>ValueError\<close>.\<close>

definition family_of_text :: "string \<Rightarrow> capability_family option" where
  "family_of_text t = map_of (map (\<lambda>f. (family_text f, f)) all_families) t"

definition get_family_for_capability :: "string \<Rightarrow> capability_family option" where
  "get_family_for_capability c =
     (case catalog_meta c of
        Some m \<Rightarrow> Some (cm_family m)
      | None \<Rightarrow>
          (let prefix = takeWhile (\<lambda>x. x \<noteq> CHR ''.'') c
           in if CHR ''.'' \<in> set c \<and> prefix \<noteq> [] then family_of_text prefix else None))"

section \<open>Irreversibility\<close>

definition EXTERNAL_BLAST_RADIUS :: "string list" where
  "EXTERNAL_BLAST_RADIUS = [''external_single'', ''external_multiple'', ''public'']"

definition IRREVERSIBLE :: "bool \<Rightarrow> string \<Rightarrow> bool" where
  "IRREVERSIBLE reversible blast_radius =
     (\<not> reversible \<or> blast_radius \<in> set EXTERNAL_BLAST_RADIUS)"

definition REVERSIBLE_INTERNAL_CAPABILITIES :: "string list" where
  "REVERSIBLE_INTERNAL_CAPABILITIES =
    [''internal.report_observation'', ''internal.ingest_event'', ''internal.update_entity'',
     ''internal.evaluate_policy'', ''internal.report_verdict'', ''internal.approve_action'',
     ''internal.update_cursor'', ''internal.extract_preferences'', ''internal.verify_run'',
     ''internal.update_execution'', ''internal.store_memory'', ''internal.store_preference'',
     ''email.draft'', ''messaging.mark_read'']
     @ SYSTEM_ACTION_CAPABILITIES"

definition is_irreversible_capability :: "string \<Rightarrow> bool" where
  "is_irreversible_capability c =
     (if is_read_only_capability c then False
      else if c \<in> set REVERSIBLE_INTERNAL_CAPABILITIES then False
      else True)"

definition write_capabilities :: "string list" where
  "write_capabilities = filter (\<lambda>c. \<not> is_read_only_capability c) (map fst CAPABILITY_CATALOG)"

text \<open>A risk assessment as the predicate reads it; \<open>None\<close> when there is no assessment.\<close>

record risk_assessment =
  ra_risk_level :: string
  ra_reasoning :: string
  ra_reversible :: bool
  ra_blast_radius :: string

definition is_write_verification_required :: "string \<Rightarrow> risk_assessment option \<Rightarrow> bool" where
  "is_write_verification_required c risk =
     (if is_irreversible_capability c then True
      else case risk of
          None \<Rightarrow> False
        | Some r \<Rightarrow> IRREVERSIBLE (ra_reversible r) (ra_blast_radius r))"

section \<open>Facts about the catalog\<close>

lemma unlisted_is_not_read_only: "catalog_meta c = None \<Longrightarrow> \<not> is_read_only_capability c"
  by (simp add: is_read_only_capability_def)

lemma system_actions_reversible: "c \<in> set SYSTEM_ACTION_CAPABILITIES \<Longrightarrow> \<not> is_irreversible_capability c"
  by (auto simp: is_irreversible_capability_def REVERSIBLE_INTERNAL_CAPABILITIES_def)

lemma read_only_reversible: "is_read_only_capability c \<Longrightarrow> \<not> is_irreversible_capability c"
  by (simp add: is_irreversible_capability_def)

lemma irreversible_catalog_row:
  assumes "c \<in> set write_capabilities" and "is_irreversible_capability c"
  shows "\<exists>m. (c, m) \<in> set CAPABILITY_CATALOG \<and> \<not> cm_read_only m
    \<and> c \<notin> set REVERSIBLE_INTERNAL_CAPABILITIES"
proof -
  have ro: "\<not> is_read_only_capability c" and rev: "c \<notin> set REVERSIBLE_INTERNAL_CAPABILITIES"
    using assms(2) unfolding is_irreversible_capability_def by (metis (full_types))+
  have "c \<in> fst ` set CAPABILITY_CATALOG"
    using assms(1) unfolding write_capabilities_def by simp
  then obtain m where m: "map_of CAPABILITY_CATALOG c = Some m"
    using map_of_eq_None_iff[of CAPABILITY_CATALOG c] by blast
  then have "\<not> cm_read_only m"
    using ro unfolding is_read_only_capability_def catalog_meta_def by simp
  with map_of_SomeD[OF m] rev show ?thesis by blast
qed

end
