(* ===== verification/Trust.thy ===== *)
theory Trust
  imports Capabilities
begin

text \<open>
  Graduated autonomy: \<open>backend/src/services/risk_assessor.py\<close> (levels, graduation, rejection,
  the feedback loop) and \<open>backend/src/services/trust_engine.py\<close> (the policy matrix, ceilings,
  the dashboard's progress). Levels are the code's strings; the abstract ladder is the type
  \<open>level\<close> with its linear order, and \<open>level_of\<close> maps a string to it the way
  \<open>_trust_level_index\<close> does (an unknown string is the lowest level). The \<open>trust_states\<close> and
  \<open>trust_ceilings\<close> tables are lists of rows.
\<close>

section \<open>The ladder\<close>

datatype level = FirstUse | Learning | Trusted | Autonomous

fun level_rank :: "level \<Rightarrow> nat" where
  "level_rank FirstUse = 0"
| "level_rank Learning = 1"
| "level_rank Trusted = 2"
| "level_rank Autonomous = 3"

instantiation level :: linorder
begin

definition less_eq_level :: "level \<Rightarrow> level \<Rightarrow> bool" where
  "less_eq_level a b \<longleftrightarrow> level_rank a \<le> level_rank b"

definition less_level :: "level \<Rightarrow> level \<Rightarrow> bool" where
  "less_level a b \<longleftrightarrow> level_rank a < level_rank b"

instance
proof
  fix x y z :: level
  show "x < y \<longleftrightarrow> x \<le> y \<and> \<not> y \<le> x" by (auto simp: less_eq_level_def less_level_def)
  show "x \<le> x" by (simp add: less_eq_level_def)
  show "x \<le> y \<Longrightarrow> y \<le> z \<Longrightarrow> x \<le> z" by (simp add: less_eq_level_def)
  show "x \<le> y \<Longrightarrow> y \<le> x \<Longrightarrow> x = y"
    by (cases x; cases y) (simp_all add: less_eq_level_def)
  show "x \<le> y \<or> y \<le> x" by (auto simp: less_eq_level_def)
qed

end

definition TRUST_LEVELS :: "string list" where
  "TRUST_LEVELS = [''first_use'', ''learning'', ''trusted'', ''autonomous'']"

fun index_of :: "'a \<Rightarrow> 'a list \<Rightarrow> nat option" where
  "index_of x [] = None"
| "index_of x (y # ys) = (if x = y then Some 0 else map_option Suc (index_of x ys))"

definition trust_level_index :: "string \<Rightarrow> nat" where
  "trust_level_index l = (case index_of l TRUST_LEVELS of Some i \<Rightarrow> i | None \<Rightarrow> 0)"

definition min_trust_level :: "string \<Rightarrow> string \<Rightarrow> string" where
  "min_trust_level a b = TRUST_LEVELS ! min (trust_level_index a) (trust_level_index b)"

fun level_text :: "level \<Rightarrow> string" where
  "level_text FirstUse = ''first_use''"
| "level_text Learning = ''learning''"
| "level_text Trusted = ''trusted''"
| "level_text Autonomous = ''autonomous''"

definition level_of :: "string \<Rightarrow> level" where
  "level_of l = (if l = ''autonomous'' then Autonomous else if l = ''trusted'' then Trusted
     else if l = ''learning'' then Learning else FirstUse)"

lemma level_of_text [simp]: "level_of (level_text l) = l"
  by (cases l) (simp_all add: level_of_def)

lemma trust_level_index_rank: "trust_level_index l = level_rank (level_of l)"
  by (auto simp: trust_level_index_def TRUST_LEVELS_def level_of_def)

lemma nth_TRUST_LEVELS: "TRUST_LEVELS ! level_rank l = level_text l"
  by (cases l) (simp_all add: TRUST_LEVELS_def)

lemma min_level_rank: "min (level_rank a) (level_rank b) = level_rank (min a b)"
  by (auto simp: min_def less_eq_level_def)

lemma min_trust_level_text: "min_trust_level a b = level_text (min (level_of a) (level_of b))"
  by (simp add: min_trust_level_def trust_level_index_rank min_level_rank nth_TRUST_LEVELS)

section \<open>Trust state and graduation\<close>

record trust_state =
  ts_workspace_id :: string
  ts_capability :: string
  ts_risk_level :: string
  ts_approved_count :: nat
  ts_rejected_count :: nat
  ts_modified_count :: nat
  ts_trust_level :: string
  ts_last_decision_at :: "instant option"
  ts_cooldown_until :: "instant option"

text \<open>\<open>GRADUATION_THRESHOLDS\<close>: approvals needed, and the rejection rate to stay below.\<close>

definition GRADUATION_THRESHOLDS :: "(string \<times> nat \<times> pyfloat) list" where
  "GRADUATION_THRESHOLDS = [(''trusted'', 10, 10/100), (''autonomous'', 25, 5/100)]"

definition LEARNING_MIN_APPROVED :: nat where
  "LEARNING_MIN_APPROVED = 3"

definition threshold :: "string \<Rightarrow> nat \<times> pyfloat" where
  "threshold l = (case map_of GRADUATION_THRESHOLDS l of Some t \<Rightarrow> t | None \<Rightarrow> (0, 0))"

lemma threshold_simps [simp]:
  "threshold ''trusted'' = (10, 10/100)" "threshold ''autonomous'' = (25, 5/100)"
  by (simp_all add: threshold_def GRADUATION_THRESHOLDS_def)

definition in_cooldown :: "instant \<Rightarrow> trust_state \<Rightarrow> bool" where
  "in_cooldown now s = (case ts_cooldown_until s of None \<Rightarrow> False | Some c \<Rightarrow> now < c)"

definition rejection_rate :: "trust_state \<Rightarrow> pyfloat" where
  "rejection_rate s = rat_of_nat (ts_rejected_count s) / rat_of_nat (ts_approved_count s + ts_rejected_count s)"

definition graduate_trust :: "instant \<Rightarrow> trust_state \<Rightarrow> string" where
  "graduate_trust now s =
     (if in_cooldown now s then ts_trust_level s
      else if ts_approved_count s + ts_rejected_count s = 0 then ''first_use''
      else
        (let (auto_min, auto_max) = threshold ''autonomous'';
             (trust_min, trust_max) = threshold ''trusted''
         in if ts_approved_count s \<ge> auto_min \<and> rejection_rate s < auto_max then ''autonomous''
            else if ts_approved_count s \<ge> trust_min \<and> rejection_rate s < trust_max then ''trusted''
            else if ts_approved_count s \<ge> trust_min then ''learning''
            else if ts_approved_count s \<ge> LEARNING_MIN_APPROVED \<and> ts_rejected_count s = 0 then ''learning''
            else ''first_use''))"

definition apply_rejection :: "instant \<Rightarrow> trust_state \<Rightarrow> trust_state" where
  "apply_rejection now s =
     (let s1 = s\<lparr>ts_rejected_count := ts_rejected_count s + 1\<rparr>
      in if ts_trust_level s1 = ''autonomous'' then
           s1\<lparr>ts_trust_level := ''trusted'', ts_cooldown_until := Some (now + hours 72)\<rparr>
         else if ts_trust_level s1 = ''trusted'' then
           s1\<lparr>ts_trust_level := ''learning'', ts_cooldown_until := Some (now + hours 48)\<rparr>
         else if ts_trust_level s1 = ''learning'' then
           s1\<lparr>ts_trust_level := ''first_use'', ts_cooldown_until := Some (now + hours 24)\<rparr>
         else s1)"

text \<open>What \<open>record_approval_decision\<close> does to the fetched row. The clock is read three times:
  in \<open>apply_rejection\<close>, for \<open>last_decision_at\<close>, and in \<open>graduate_trust\<close>.\<close>

definition decide_state :: "instant \<Rightarrow> instant \<Rightarrow> instant \<Rightarrow> string \<Rightarrow> trust_state \<Rightarrow> trust_state" where
  "decide_state n1 n2 n3 decision s =
     (let s1 = (if decision = ''approved'' then s\<lparr>ts_approved_count := ts_approved_count s + 1\<rparr>
                else if decision = ''rejected'' then apply_rejection n1 s
                else if decision = ''modified'' then
                  s\<lparr>ts_modified_count := ts_modified_count s + 1, ts_approved_count := ts_approved_count s + 1\<rparr>
                else s);
          s2 = s1\<lparr>ts_last_decision_at := Some n2\<rparr>
      in s2\<lparr>ts_trust_level := graduate_trust n3 s2\<rparr>)"

section \<open>The trust table\<close>

type_synonym trust_key = "string \<times> string \<times> string"

definition ts_key :: "trust_state \<Rightarrow> trust_key" where
  "ts_key s = (ts_workspace_id s, ts_capability s, ts_risk_level s)"

definition new_trust_state :: "trust_key \<Rightarrow> trust_state" where
  "new_trust_state k =
     \<lparr>ts_workspace_id = fst k, ts_capability = fst (snd k), ts_risk_level = snd (snd k),
      ts_approved_count = 0, ts_rejected_count = 0, ts_modified_count = 0,
      ts_trust_level = ''first_use'', ts_last_decision_at = None, ts_cooldown_until = None\<rparr>"

definition get_or_create_trust_state ::
  "trust_key \<Rightarrow> trust_state list \<Rightarrow> trust_state \<times> trust_state list" where
  "get_or_create_trust_state k tbl =
     (case row_find ts_key k tbl of
        Some s \<Rightarrow> (s, tbl)
      | None \<Rightarrow> (new_trust_state k, tbl @ [new_trust_state k]))"

definition record_approval_decision ::
  "instant \<Rightarrow> instant \<Rightarrow> instant \<Rightarrow> string \<Rightarrow> string \<Rightarrow> string \<Rightarrow> string \<Rightarrow>
   trust_state list \<Rightarrow> trust_state list" where
  "record_approval_decision n1 n2 n3 ws capability risk decision tbl =
     (let (s, tbl1) = get_or_create_trust_state (ws, capability, risk) tbl
      in row_update ts_key (ws, capability, risk) (\<lambda>_. decide_state n1 n2 n3 decision s) tbl1)"

definition reset_trust_for_capability :: "string \<Rightarrow> string \<Rightarrow> trust_state list \<Rightarrow> trust_state list" where
  "reset_trust_for_capability ws capability tbl =
     map (\<lambda>s. if ts_workspace_id s = ws \<and> ts_capability s = capability
              then s\<lparr>ts_approved_count := 0, ts_rejected_count := 0, ts_modified_count := 0,
                    ts_trust_level := ''first_use'', ts_cooldown_until := None\<rparr>
              else s) tbl"

lemma ts_key_new [simp]: "ts_key (new_trust_state k) = k"
  by (simp add: ts_key_def new_trust_state_def)

lemma apply_rejection_frame [simp]:
  "ts_key (apply_rejection n s) = ts_key s"
  "ts_approved_count (apply_rejection n s) = ts_approved_count s"
  "ts_rejected_count (apply_rejection n s) = ts_rejected_count s + 1"
  by (simp_all add: apply_rejection_def ts_key_def Let_def)

lemma decide_state_key [simp]: "ts_key (decide_state n1 n2 n3 d s) = ts_key s"
  by (auto simp: decide_state_def Let_def ts_key_def apply_rejection_def)

definition trust_row :: "trust_key \<Rightarrow> trust_state list \<Rightarrow> trust_state" where
  "trust_row k tbl = (case row_find ts_key k tbl of Some s \<Rightarrow> s | None \<Rightarrow> new_trust_state k)"

lemma get_or_create_row [simp]: "fst (get_or_create_trust_state k tbl) = trust_row k tbl"
  by (simp add: get_or_create_trust_state_def trust_row_def split: option.split)

lemma trust_row_get_or_create [simp]:
  "trust_row j (snd (get_or_create_trust_state k tbl)) = trust_row j tbl"
  by (auto simp: get_or_create_trust_state_def trust_row_def row_find_append split: option.split)

lemma get_or_create_has_row: "\<exists>s. row_find ts_key k (snd (get_or_create_trust_state k tbl)) = Some s"
  by (auto simp: get_or_create_trust_state_def row_find_append split: option.split)

lemma get_or_create_cases:
  obtains tbl1 where "get_or_create_trust_state k tbl = (trust_row k tbl, tbl1)"
    and "\<And>j. trust_row j tbl1 = trust_row j tbl"
proof -
  obtain s tbl1 where g: "get_or_create_trust_state k tbl = (s, tbl1)"
    by (cases "get_or_create_trust_state k tbl")
  show thesis
  proof (rule that[of tbl1])
    show "get_or_create_trust_state k tbl = (trust_row k tbl, tbl1)"
      using get_or_create_row[of k tbl] by (simp add: g)
    show "trust_row j tbl1 = trust_row j tbl" for j
      using trust_row_get_or_create[of j k tbl] by (simp add: g)
  qed
qed

lemma row_find_set:
  assumes "ts_key s' = k"
  shows "row_find ts_key j (row_update ts_key k (\<lambda>_. s') tbl) =
    (if j = k then map_option (\<lambda>_. s') (row_find ts_key k tbl) else row_find ts_key j tbl)"
  by (induction tbl) (auto simp: assms)

lemma ts_key_trust_row [simp]: "ts_key (trust_row k tbl) = k"
  by (auto simp: trust_row_def dest: row_find_SomeD split: option.split)

text \<open>A decision changes exactly the row of its workspace, capability and risk level.\<close>

lemma trust_row_update:
  assumes "ts_key s' = k" "row_find ts_key k tbl = Some s0"
  shows "trust_row j (row_update ts_key k (\<lambda>_. s') tbl) = (if j = k then s' else trust_row j tbl)"
  by (simp add: trust_row_def row_find_set[OF assms(1)] assms(2))

lemma trust_row_record:
  "trust_row j (record_approval_decision n1 n2 n3 ws c r d tbl) =
     (if j = (ws, c, r) then decide_state n1 n2 n3 d (trust_row j tbl) else trust_row j tbl)"
proof -
  let ?k = "(ws, c, r)"
  obtain s tbl1 where g: "get_or_create_trust_state ?k tbl = (s, tbl1)"
    by (cases "get_or_create_trust_state ?k tbl")
  have s: "s = trust_row ?k tbl"
    using get_or_create_row[of ?k tbl] by (simp add: g)
  have t: "trust_row i tbl1 = trust_row i tbl" for i
    using trust_row_get_or_create[of i ?k tbl] by (simp add: g)
  obtain s0 where f: "row_find ts_key ?k tbl1 = Some s0"
    using get_or_create_has_row[of ?k tbl] by (auto simp: g)
  have k: "ts_key (decide_state n1 n2 n3 d s) = ?k" by (simp add: s)
  have "trust_row j (row_update ts_key ?k (\<lambda>_. decide_state n1 n2 n3 d s) tbl1) =
      (if j = ?k then decide_state n1 n2 n3 d s else trust_row j tbl)"
    by (simp only: trust_row_update[OF k f] t)
  then show ?thesis by (simp add: record_approval_decision_def g s)
qed

section \<open>What a level means\<close>

text \<open>The declarative reading of the thresholds, in whole numbers: at least 25 approvals and fewer
  than one rejection in twenty; at least 10 and fewer than one in ten; 10 approvals at any rate, or
  3 with no rejection.\<close>

fun earned :: "nat \<Rightarrow> nat \<Rightarrow> level \<Rightarrow> bool" where
  "earned a r FirstUse = True"
| "earned a r Learning = (10 \<le> a \<or> 3 \<le> a \<and> r = 0)"
| "earned a r Trusted = (10 \<le> a \<and> 10 * r < a + r)"
| "earned a r Autonomous = (25 \<le> a \<and> 20 * r < a + r)"

lemma rate_below:
  assumes "0 < a + r" "0 < n"
  shows "rat_of_nat r / rat_of_nat (a + r) < 1 / rat_of_nat n \<longleftrightarrow> n * r < a + r"
proof -
  have "rat_of_nat r / rat_of_nat (a + r) < 1 / rat_of_nat n
      \<longleftrightarrow> rat_of_nat r * rat_of_nat n < rat_of_nat (a + r)"
    using assms by (simp add: field_simps del: of_nat_add)
  also have "\<dots> \<longleftrightarrow> rat_of_nat (n * r) < rat_of_nat (a + r)" by (simp add: mult.commute)
  finally show ?thesis by (simp only: of_nat_less_iff)
qed

lemma rejection_rate_below:
  assumes "0 < ts_approved_count s + ts_rejected_count s"
  shows "rejection_rate s < 10/100 \<longleftrightarrow> 10 * ts_rejected_count s < ts_approved_count s + ts_rejected_count s"
    "rejection_rate s < 5/100 \<longleftrightarrow> 20 * ts_rejected_count s < ts_approved_count s + ts_rejected_count s"
  using rate_below[OF assms, of 10] rate_below[OF assms, of 20]
  by (simp_all add: rejection_rate_def)

lemma graduate_open:
  assumes "\<not> in_cooldown now s"
  shows "graduate_trust now s =
    (let a = ts_approved_count s; r = ts_rejected_count s in level_text
      (if earned a r Autonomous then Autonomous else if earned a r Trusted then Trusted
       else if earned a r Learning then Learning else FirstUse))"
proof (cases "ts_approved_count s + ts_rejected_count s = 0")
  case True
  then show ?thesis using assms by (simp add: graduate_trust_def Let_def)
next
  case False
  then have p: "0 < ts_approved_count s + ts_rejected_count s" by simp
  show ?thesis
    using assms False
    unfolding graduate_trust_def Let_def threshold_simps prod.case rejection_rate_below[OF p]
      LEARNING_MIN_APPROVED_def by auto
qed

lemma graduate_closed: "in_cooldown now s \<Longrightarrow> graduate_trust now s = ts_trust_level s"
  by (simp add: graduate_trust_def)

text \<open>C21. Outside a cooldown the level of a decision is exactly the highest one whose volume and
  rejection-rate thresholds the counters meet; inside a cooldown it is the level the row already
  has. Counters are those after the decision.\<close>

theorem graduation_is_highest_earned:
  "(let l = level_of (graduate_trust now s); a = ts_approved_count s; r = ts_rejected_count s
    in if in_cooldown now s then graduate_trust now s = ts_trust_level s
       else graduate_trust now s = level_text l \<and> {l'. earned a r l'} \<noteq> {}
            \<and> l = Max {l'. earned a r l'})"
proof (cases "in_cooldown now s")
  case True
  then show ?thesis by (simp add: graduate_closed Let_def)
next
  case False
  let ?a = "ts_approved_count s" and ?r = "ts_rejected_count s"
  define m where "m = (if earned ?a ?r Autonomous then Autonomous else if earned ?a ?r Trusted then Trusted
       else if earned ?a ?r Learning then Learning else FirstUse)"
  have g: "graduate_trust now s = level_text m"
    using graduate_open[OF False] by (simp only: Let_def m_def)
  have fin: "finite {l'. earned ?a ?r l'}"
  proof (rule finite_subset)
    show "{l'. earned ?a ?r l'} \<subseteq> {FirstUse, Learning, Trusted, Autonomous}"
      using level.exhaust by blast
  qed simp
  have "Max {l'. earned ?a ?r l'} = m"
  proof (rule Max_eqI[OF fin])
    show "y \<le> m" if "y \<in> {l'. earned ?a ?r l'}" for y
      using that by (cases y) (auto simp: m_def less_eq_level_def)
    show "m \<in> {l'. earned ?a ?r l'}" by (simp add: m_def)
  qed
  moreover have "{l'. earned ?a ?r l'} \<noteq> {}"
    using earned.simps(1)[of ?a ?r] by blast
  ultimately show ?thesis using False by (simp add: g Let_def)
qed

section \<open>Rejections and cooldown\<close>

text \<open>One timed decision: the three clock readings and the decision.\<close>

type_synonym timed_decision = "instant \<times> instant \<times> instant \<times> string"

definition decide_all :: "timed_decision list \<Rightarrow> trust_state \<Rightarrow> trust_state" where
  "decide_all ds s = foldl (\<lambda>s (n1, n2, n3, d). decide_state n1 n2 n3 d s) s ds"

definition timed_within :: "instant \<Rightarrow> instant \<Rightarrow> timed_decision \<Rightarrow> bool" where
  "timed_within lo hi t = (case t of (n1, n2, n3, _) \<Rightarrow>
     lo \<le> n1 \<and> n1 < hi \<and> lo \<le> n2 \<and> n2 < hi \<and> lo \<le> n3 \<and> n3 < hi)"

definition cooling :: "instant \<Rightarrow> nat \<Rightarrow> trust_state \<Rightarrow> bool" where
  "cooling hi rank s = ((\<exists>c. ts_cooldown_until s = Some c \<and> hi \<le> c) \<and> trust_level_index (ts_trust_level s) \<le> rank)"

lemma trust_level_index_simps [simp]:
  "trust_level_index ''first_use'' = 0" "trust_level_index ''learning'' = 1"
  "trust_level_index ''trusted'' = 2" "trust_level_index ''autonomous'' = 3"
  by (simp_all add: trust_level_index_rank level_of_def)

lemma apply_rejection_level:
  "trust_level_index (ts_trust_level (apply_rejection n s)) = trust_level_index (ts_trust_level s) - 1"
  by (auto simp: apply_rejection_def Let_def trust_level_index_rank level_of_def)

lemma apply_rejection_cooldown:
  "ts_cooldown_until (apply_rejection n s) =
     (if trust_level_index (ts_trust_level s) = 0 then ts_cooldown_until s
      else Some (n + hours (24 * int (trust_level_index (ts_trust_level s)))))"
  by (auto simp: apply_rejection_def Let_def trust_level_index_rank level_of_def)

lemma decide_held:
  assumes "\<exists>c. ts_cooldown_until s = Some c \<and> n3 < c" and "d \<noteq> ''rejected''"
  shows "ts_trust_level (decide_state n1 n2 n3 d s) = ts_trust_level s
    \<and> ts_cooldown_until (decide_state n1 n2 n3 d s) = ts_cooldown_until s"
  using assms by (auto simp: decide_state_def Let_def graduate_closed in_cooldown_def)

lemma decide_rejected:
  "decide_state n1 n2 n3 ''rejected'' s =
     (let s2 = (apply_rejection n1 s)\<lparr>ts_last_decision_at := Some n2\<rparr>
      in s2\<lparr>ts_trust_level := graduate_trust n3 s2\<rparr>)"
  by (simp add: decide_state_def)

lemma cooling_decide:
  assumes t: "timed_within lo (lo + hours 24) (n1, n2, n3, d)" and c: "cooling (lo + hours 24) k s"
  shows "cooling (lo + hours 24) k (decide_state n1 n2 n3 d s)"
proof -
  let ?hi = "lo + hours 24"
  have n: "lo \<le> n1" "n3 < ?hi" using t by (auto simp: timed_within_def)
  obtain u where u: "ts_cooldown_until s = Some u" "?hi \<le> u" using c by (auto simp: cooling_def)
  show ?thesis
  proof (cases "d = ''rejected''")
    case False
    then show ?thesis using decide_held[of s n3 d n1 n2] u n c by (auto simp: cooling_def)
  next
    case True
    let ?s2 = "(apply_rejection n1 s)\<lparr>ts_last_decision_at := Some n2\<rparr>"
    have hi: "?hi \<le> n1 + hours (24 * int r)" if "r \<noteq> 0" for r
      using n(1) that by (cases r) (auto simp: hours_def secs_def)
    obtain v where v: "ts_cooldown_until ?s2 = Some v" "?hi \<le> v"
      using u hi by (cases "trust_level_index (ts_trust_level s) = 0") (auto simp: apply_rejection_cooldown)
    then have "graduate_trust n3 ?s2 = ts_trust_level ?s2"
      using n(2) by (intro graduate_closed) (simp add: in_cooldown_def)
    with v c show ?thesis
      by (auto simp: True decide_rejected Let_def cooling_def apply_rejection_level)
  qed
qed

text \<open>A rejection costs one level for at least a day: from any level above first_use, whatever
  decisions follow while the clock stays within 24 hours of it, the level is strictly below the one
  that was rejected.\<close>

lemma rejection_lowers_for_a_day:
  assumes "0 < trust_level_index (ts_trust_level s)"
    and "timed_within n (n + hours 24) (n, n2, n3, ''rejected'')"
    and "list_all (timed_within n (n + hours 24)) ds"
  shows "trust_level_index (ts_trust_level (decide_all ds (decide_state n n2 n3 ''rejected'' s)))
    < trust_level_index (ts_trust_level s)"
proof -
  let ?k = "trust_level_index (ts_trust_level s) - 1" and ?hi = "n + hours 24"
  let ?s2 = "(apply_rejection n s)\<lparr>ts_last_decision_at := Some n2\<rparr>"
  have h: "?hi \<le> n + hours (24 * int (trust_level_index (ts_trust_level s)))"
    using assms(1) by (simp add: hours_def secs_def)
  have "n3 < ?hi" using assms(2) by (simp add: timed_within_def)
  then have "graduate_trust n3 ?s2 = ts_trust_level ?s2"
    using assms(1) h by (intro graduate_closed) (simp add: in_cooldown_def apply_rejection_cooldown)
  then have start: "cooling ?hi ?k (decide_state n n2 n3 ''rejected'' s)"
    using assms(1) h
    by (simp add: decide_rejected Let_def cooling_def apply_rejection_cooldown apply_rejection_level)
  have "cooling ?hi ?k (decide_all ds x)" if "cooling ?hi ?k x" "list_all (timed_within n ?hi) ds" for ds x
    using that
  proof (induction ds arbitrary: x)
    case Nil
    then show ?case by (simp add: decide_all_def)
  next
    case (Cons t ds)
    obtain n1 n2 n3 d where t: "t = (n1, n2, n3, d)" by (cases t)
    show ?case
      using Cons.IH[of "decide_state n1 n2 n3 d x"] cooling_decide[of n n1 n2 n3 d ?k x] Cons.prems
      by (simp add: decide_all_def t)
  qed
  from this[OF start assms(3)]
  have "trust_level_index (ts_trust_level (decide_all ds (decide_state n n2 n3 ''rejected'' s))) \<le> ?k"
    by (simp add: cooling_def)
  then show ?thesis using assms(1) by linarith
qed

definition sample_trust :: "nat \<Rightarrow> nat \<Rightarrow> string \<Rightarrow> trust_state" where
  "sample_trust a r l = (new_trust_state (''ws'', ''email.send'', ''low''))
     \<lparr>ts_approved_count := a, ts_rejected_count := r, ts_trust_level := l\<rparr>"

text \<open>The converse does not hold at the bottom: at first_use a rejection sets no cooldown, so with
  77 approvals on record the fourth rejection, after the last cooldown has run out, promotes the
  capability from first_use to autonomous.\<close>

lemma rejection_can_promote:
  "(let day = hours 24;
        rows = foldl (\<lambda>tbl d. record_approval_decision 0 0 0 ''ws'' ''email.send'' ''low'' d tbl) []
          (replicate 77 ''approved'' @ replicate 3 ''rejected'')
    in ts_trust_level (trust_row (''ws'', ''email.send'', ''low'') rows) = ''first_use''
     \<and> ts_trust_level (trust_row (''ws'', ''email.send'', ''low'')
          (record_approval_decision day day day ''ws'' ''email.send'' ''low'' ''rejected'' rows))
       = ''autonomous'')"
  by code_simp

text \<open>A decision changes the trust of its own workspace, capability and risk level and of no other,
  and resetting a capability sets exactly that workspace's rows for it back to first use.\<close>

lemma trust_decisions_are_isolated:
  "trust_row j (record_approval_decision n1 n2 n3 ws c r d tbl) =
      (if j = (ws, c, r) then decide_state n1 n2 n3 d (trust_row j tbl) else trust_row j tbl)
   \<and> (let s = trust_row j tbl; s' = trust_row j (reset_trust_for_capability ws c tbl)
      in if fst j = ws \<and> fst (snd j) = c
         then ts_trust_level s' = ''first_use'' \<and> ts_approved_count s' = 0 \<and> ts_rejected_count s' = 0
            \<and> ts_cooldown_until s' = None
         else s' = s)"
proof -
  have "row_find ts_key j (reset_trust_for_capability ws c tbl) =
      map_option (\<lambda>s. if ts_workspace_id s = ws \<and> ts_capability s = c
              then s\<lparr>ts_approved_count := 0, ts_rejected_count := 0, ts_modified_count := 0,
                    ts_trust_level := ''first_use'', ts_cooldown_until := None\<rparr> else s)
        (row_find ts_key j tbl)"
    unfolding reset_trust_for_capability_def by (induction tbl) (auto simp: ts_key_def)
  moreover have "ts_workspace_id s = fst j \<and> ts_capability s = fst (snd j)"
    if "row_find ts_key j tbl = Some s" for s
    using row_find_SomeD[OF that] by (auto simp: ts_key_def)
  ultimately have "let s = trust_row j tbl; s' = trust_row j (reset_trust_for_capability ws c tbl)
      in if fst j = ws \<and> fst (snd j) = c
         then ts_trust_level s' = ''first_use'' \<and> ts_approved_count s' = 0 \<and> ts_rejected_count s' = 0
            \<and> ts_cooldown_until s' = None
         else s' = s"
    by (cases "row_find ts_key j tbl") (auto simp: trust_row_def Let_def new_trust_state_def)
  with trust_row_record show ?thesis by (rule conjI)
qed

end
