(* ===== verification/Trust_Engine.thy ===== *)
theory Trust_Engine
  imports Trust
begin

text \<open>
  \<open>backend/src/services/trust_engine.py\<close> and the assessment half of
  \<open>backend/src/services/risk_assessor.py\<close>. The language model is a parameter (the reply to the
  assessment prompt, \<open>None\<close> when the call raises), as are the JSON extraction of
  \<open>parse_llm_json\<close> and pydantic's coercion of a value to a bool; the Redis cache is a parameter
  as well (a reader that may raise, and whether the write raises).
\<close>

section \<open>Risk assessments\<close>

definition RISK_LEVELS :: "string list" where
  "RISK_LEVELS = [''none'', ''low'', ''medium'', ''high'']"

definition BLAST_RADII :: "string list" where
  "BLAST_RADII = [''self'', ''internal'', ''external_single'', ''external_multiple'', ''public'']"

text \<open>\<open>RiskAssessment.model_validate(data)\<close>: \<open>None\<close> where pydantic raises. Unknown keys are
  ignored; \<open>as_bool\<close> is pydantic's lax coercion.\<close>

definition validate_risk :: "(json \<Rightarrow> bool option) \<Rightarrow> json \<Rightarrow> risk_assessment option" where
  "validate_risk as_bool data =
     (case data of
        JObj d \<Rightarrow>
          (case (as_str (jget d ''risk_level''), as_str (jget d ''reasoning''),
                 as_bool (jget_default d ''reversible'' (JBool True)),
                 as_str (jget_default d ''blast_radius'' (JStr ''self''))) of
             (Some level, Some reasoning, Some reversible, Some radius) \<Rightarrow>
               (if level \<in> set RISK_LEVELS \<and> radius \<in> set BLAST_RADII
                then Some \<lparr>ra_risk_level = level, ra_reasoning = reasoning,
                           ra_reversible = reversible, ra_blast_radius = radius\<rparr>
                else None)
           | _ \<Rightarrow> None)
      | _ \<Rightarrow> None)"

definition risk_fallback :: risk_assessment where
  "risk_fallback =
     \<lparr>ra_risk_level = ''high'',
      ra_reasoning = ''Fallback '' @ em_dash @ '' risk assessment failed, failing closed to high'',
      ra_reversible = False, ra_blast_radius = ''self''\<rparr>"

definition assess_risk ::
  "(string \<Rightarrow> json option) \<Rightarrow> (json \<Rightarrow> bool option) \<Rightarrow> string option \<Rightarrow> risk_assessment" where
  "assess_risk parse_llm_json as_bool reply =
     (case reply of
        None \<Rightarrow> risk_fallback
      | Some text \<Rightarrow>
          (case parse_llm_json text of
             None \<Rightarrow> risk_fallback
           | Some data \<Rightarrow>
               (case validate_risk as_bool data of
                  None \<Rightarrow> risk_fallback
                | Some r \<Rightarrow> r)))"

text \<open>The cached assessment. \<open>cached\<close> is what \<open>redis.get\<close> and \<open>model_validate_json\<close> give: \<open>Inl ()\<close>
  if either raises, \<open>Inr None\<close> for a miss. The result also says what is written back.\<close>

definition get_or_assess_risk ::
  "unit + risk_assessment option \<Rightarrow> risk_assessment \<Rightarrow> risk_assessment \<times> risk_assessment option" where
  "get_or_assess_risk cached fresh =
     (case cached of
        Inr (Some r) \<Rightarrow> (r, None)
      | _ \<Rightarrow> (fresh, Some fresh))"

section \<open>The policy matrix\<close>

definition matrix_lookup :: "string \<Rightarrow> string \<Rightarrow> string" where
  "matrix_lookup trust_level risk_level =
     (if trust_level \<in> {''first_use'', ''learning''} then ''approval_required''
      else if trust_level = ''trusted'' then
        (if risk_level \<in> {''none'', ''low''} then ''auto_execute_notify'' else ''approval_required'')
      else if trust_level = ''autonomous'' then
        (if risk_level = ''high'' then ''approval_required''
         else if risk_level = ''medium'' then ''auto_execute_notify''
         else ''auto_execute_silent'')
      else ''approval_required'')"

record policy_decision =
  pd_decision :: string
  pd_justification :: string
  pd_risk_level :: string
  pd_approval_id :: "string option"
  pd_execution_id :: "string option"
  pd_trust_level :: string
  pd_effective_trust_level :: string
  pd_approved_count :: nat
  pd_rejected_count :: nat

section \<open>Ceilings\<close>

record trust_ceiling =
  tc_workspace_id :: string
  tc_capability :: string
  tc_max_level :: string

definition tc_key :: "trust_ceiling \<Rightarrow> string \<times> string" where
  "tc_key c = (tc_workspace_id c, tc_capability c)"

text \<open>\<open>_get_ceiling(...).max_level\<close>: the default ceiling is \<open>autonomous\<close>.\<close>

definition get_ceiling :: "string \<Rightarrow> string \<Rightarrow> trust_ceiling list \<Rightarrow> string" where
  "get_ceiling ws capability tbl =
     (case row_find tc_key (ws, capability) tbl of
        Some c \<Rightarrow> tc_max_level c
      | None \<Rightarrow> ''autonomous'')"

text \<open>\<open>INSERT ... ON CONFLICT (uq_trust_ceiling) DO UPDATE\<close>.\<close>

definition set_ceiling :: "string \<Rightarrow> string \<Rightarrow> string \<Rightarrow> trust_ceiling list \<Rightarrow> trust_ceiling list" where
  "set_ceiling ws capability max_level tbl =
     (if (ws, capability) \<in> tc_key ` set tbl
      then row_update tc_key (ws, capability) (\<lambda>c. c\<lparr>tc_max_level := max_level\<rparr>) tbl
      else tbl @ [\<lparr>tc_workspace_id = ws, tc_capability = capability, tc_max_level = max_level\<rparr>])"

text \<open>The batch form looks the existing rows up once, so a capability named twice that has no row
  is added twice and the flush violates \<open>uq_trust_ceiling\<close>: \<open>Inl ()\<close>.\<close>

definition set_ceilings_batch ::
  "string \<Rightarrow> string list \<Rightarrow> string \<Rightarrow> trust_ceiling list \<Rightarrow> unit + nat \<times> trust_ceiling list" where
  "set_ceilings_batch ws capabilities max_level tbl =
     (let existing = (\<lambda>c. (ws, c) \<in> tc_key ` set tbl);
          tbl1 = map (\<lambda>r. if tc_workspace_id r = ws \<and> tc_capability r \<in> set capabilities
                          then r\<lparr>tc_max_level := max_level\<rparr> else r) tbl;
          fresh = filter (\<lambda>c. \<not> existing c) capabilities
      in if \<not> distinct fresh then Inl ()
         else Inr (length capabilities,
           tbl1 @ map (\<lambda>c. \<lparr>tc_workspace_id = ws, tc_capability = c, tc_max_level = max_level\<rparr>) fresh))"

section \<open>Evaluation\<close>

record trust_db =
  td_states :: "trust_state list"
  td_ceilings :: "trust_ceiling list"

text \<open>\<open>evaluate\<close>: the workspace argument overrides the engine's own, an empty one falls back to it.
  The fetched state is created when it is missing.\<close>

definition engine_ws :: "string \<Rightarrow> string option \<Rightarrow> string" where
  "engine_ws self workspace_id =
     (let ws = (case workspace_id of None \<Rightarrow> self | Some w \<Rightarrow> w) in if ws = [] then self else ws)"

definition evaluate ::
  "string \<Rightarrow> string \<Rightarrow> risk_assessment \<Rightarrow> string option \<Rightarrow> trust_db \<Rightarrow> policy_decision \<times> trust_db" where
  "evaluate self capability ra workspace_id db =
     (let ws = engine_ws self workspace_id;
          risk = ra_risk_level ra;
          (state, states1) = get_or_create_trust_state (ws, capability, risk) (td_states db);
          ceiling = get_ceiling ws capability (td_ceilings db);
          effective_level = min_trust_level (ts_trust_level state) ceiling;
          decision = matrix_lookup effective_level risk
      in (\<lparr>pd_decision = decision, pd_justification = ra_reasoning ra, pd_risk_level = risk,
           pd_approval_id = None, pd_execution_id = None,
           pd_trust_level = ts_trust_level state, pd_effective_trust_level = effective_level,
           pd_approved_count = ts_approved_count state, pd_rejected_count = ts_rejected_count state\<rparr>,
          db\<lparr>td_states := states1\<rparr>))"

text \<open>\<open>evaluate_plan_risk\<close>: building the assessment raises on a level outside the four.\<close>

definition evaluate_plan_risk ::
  "string \<Rightarrow> string \<Rightarrow> string \<Rightarrow> string option \<Rightarrow> trust_db \<Rightarrow> unit + policy_decision \<times> trust_db" where
  "evaluate_plan_risk self capability risk_level workspace_id db =
     (if risk_level \<notin> set RISK_LEVELS then Inl ()
      else Inr (evaluate self capability
        \<lparr>ra_risk_level = risk_level, ra_reasoning = ''Plan-level risk: '' @ risk_level,
         ra_reversible = True, ra_blast_radius = ''self''\<rparr> workspace_id db))"

section \<open>Progress and dashboard\<close>

record progress =
  gp_next_level :: "string option"
  gp_current :: nat
  gp_target :: nat
  gp_percentage :: pyfloat
  gp_blocked_by_rejections :: bool
  gp_status :: "string option"

definition graduation_progress :: "trust_state \<Rightarrow> progress" where
  "graduation_progress s =
     (let level = ts_trust_level s;
          approved = ts_approved_count s;
          rejected = ts_rejected_count s;
          total = approved + rejected;
          (trusted_target, trusted_max_reject) = threshold ''trusted'';
          (autonomous_target, autonomous_max_reject) = threshold ''autonomous'';
          share = (\<lambda>target. min (rat_of_nat approved / rat_of_nat target) 1);
          too_many = (\<lambda>m. total > 0 \<and> rat_of_nat rejected / rat_of_nat total \<ge> m);
          step = (\<lambda>nxt target blocked.
            \<lparr>gp_next_level = Some nxt, gp_current = approved, gp_target = target,
             gp_percentage = share target, gp_blocked_by_rejections = blocked, gp_status = None\<rparr>);
          result =
            (if level = ''first_use'' then step ''learning'' LEARNING_MIN_APPROVED (rejected > 0)
             else if level = ''learning'' then step ''trusted'' trusted_target (too_many trusted_max_reject)
             else if level = ''trusted'' then
               step ''autonomous'' autonomous_target (too_many autonomous_max_reject)
             else \<lparr>gp_next_level = None, gp_current = approved, gp_target = approved,
                   gp_percentage = 1, gp_blocked_by_rejections = False, gp_status = None\<rparr>)
      in if gp_blocked_by_rejections result
         then result\<lparr>gp_percentage := min (gp_percentage result) (95/100),
                     gp_status := Some ''blocked_by_rejections''\<rparr>
         else result)"

text \<open>\<open>by_cap\<close> of the dashboard: the capabilities of the workspace's rows in order of first
  appearance, each with its rows.\<close>

fun first_seen :: "'a list \<Rightarrow> 'a list" where
  "first_seen [] = []"
| "first_seen (x # xs) = x # first_seen (filter (\<lambda>y. y \<noteq> x) xs)"

definition best_level :: "trust_state list \<Rightarrow> string" where
  "best_level rows =
     foldl (\<lambda>best s. if trust_level_index (ts_trust_level s) > trust_level_index best
                      then ts_trust_level s else best) ''first_use'' rows"

record risk_row =
  rr_risk_level :: string
  rr_trust_level :: string
  rr_approved_count :: nat
  rr_rejected_count :: nat
  rr_progress :: progress

record dashboard_entry =
  de_capability :: string
  de_family :: string
  de_trust_level :: string
  de_ceiling :: string
  de_risk_levels :: "risk_row list"

definition risk_row_of :: "trust_state \<Rightarrow> risk_row" where
  "risk_row_of s =
     \<lparr>rr_risk_level = ts_risk_level s, rr_trust_level = ts_trust_level s,
      rr_approved_count = ts_approved_count s, rr_rejected_count = ts_rejected_count s,
      rr_progress = graduation_progress s\<rparr>"

definition family_name :: "string \<Rightarrow> string" where
  "family_name capability =
     (case catalog_meta capability of Some m \<Rightarrow> family_text (cm_family m) | None \<Rightarrow> ''unknown'')"

definition get_trust_dashboard_grouped :: "string \<Rightarrow> trust_db \<Rightarrow> dashboard_entry list" where
  "get_trust_dashboard_grouped ws db =
     (let states = filter (\<lambda>s. ts_workspace_id s = ws) (td_states db)
      in map (\<lambda>c.
           let rows = filter (\<lambda>s. ts_capability s = c) states
           in \<lparr>de_capability = c, de_family = family_name c, de_trust_level = best_level rows,
               de_ceiling = get_ceiling ws c (td_ceilings db),
               de_risk_levels = map risk_row_of rows\<rparr>)
         (first_seen (map ts_capability states)))"

record detail_row =
  dr_row :: risk_row
  dr_modified_count :: nat
  dr_last_decision_at :: "instant option"
  dr_cooldown_until :: "instant option"

definition get_capability_detail ::
  "string \<Rightarrow> string \<Rightarrow> trust_db \<Rightarrow> string \<times> string \<times> string \<times> detail_row list" where
  "get_capability_detail ws capability db =
     (capability, family_name capability, get_ceiling ws capability (td_ceilings db),
      map (\<lambda>s. \<lparr>dr_row = risk_row_of s, dr_modified_count = ts_modified_count s,
                dr_last_decision_at = ts_last_decision_at s, dr_cooldown_until = ts_cooldown_until s\<rparr>)
        (filter (\<lambda>s. ts_workspace_id s = ws \<and> ts_capability s = capability) (td_states db)))"

text \<open>The stored value of \<open>trust.time_policies\<close>, as a list.\<close>

definition get_time_policies :: "json \<Rightarrow> json list" where
  "get_time_policies v = (case v of JList ps \<Rightarrow> ps | _ \<Rightarrow> [])"

section \<open>Levels, caution and ceilings\<close>

text \<open>The abstract reading of a decision: how much the user is asked.\<close>

definition caution :: "string \<Rightarrow> nat" where
  "caution d = (if d = ''auto_execute_silent'' then 0 else if d = ''auto_execute_notify'' then 1 else 2)"

definition risk_rank :: "string \<Rightarrow> nat" where
  "risk_rank r = (case index_of r RISK_LEVELS of Some i \<Rightarrow> i | None \<Rightarrow> 4)"

lemma in_RISK_LEVELS:
  "r \<in> set RISK_LEVELS \<longleftrightarrow> r = ''none'' \<or> r = ''low'' \<or> r = ''medium'' \<or> r = ''high''"
  by (auto simp: RISK_LEVELS_def)

lemma validate_risk_level: "validate_risk as_bool data = Some ra \<Longrightarrow> ra_risk_level ra \<in> set RISK_LEVELS"
  by (cases data) (auto simp: validate_risk_def split: option.split_asm if_split_asm)

lemma risk_rank_simps [simp]:
  "risk_rank ''none'' = 0" "risk_rank ''low'' = 1" "risk_rank ''medium'' = 2" "risk_rank ''high'' = 3"
  by (simp_all add: risk_rank_def RISK_LEVELS_def)

text \<open>The matrix over the abstract ladder.\<close>

lemma matrix_lookup_level:
  "matrix_lookup (level_text l) r =
     (case l of
        Autonomous \<Rightarrow> (if r = ''high'' then ''approval_required'' else if r = ''medium''
                       then ''auto_execute_notify'' else ''auto_execute_silent'')
      | Trusted \<Rightarrow> (if r = ''none'' \<or> r = ''low'' then ''auto_execute_notify'' else ''approval_required'')
      | _ \<Rightarrow> ''approval_required'')"
  by (cases l) (simp_all add: matrix_lookup_def)

lemma caution_matrix:
  "r \<in> set RISK_LEVELS \<Longrightarrow> caution (matrix_lookup (level_text l) r) =
     (if level_rank l \<le> 1 \<or> 3 \<le> risk_rank r then 2
      else if level_rank l = 2 then (if risk_rank r \<le> 1 then 1 else 2)
      else if risk_rank r = 2 then 1 else 0)"
  unfolding in_RISK_LEVELS
  by (cases l; elim disjE) (simp_all add: matrix_lookup_def caution_def)

lemma matrix_high [simp]: "matrix_lookup l ''high'' = ''approval_required''"
  by (simp add: matrix_lookup_def)

lemma evaluate_decision:
  "fst (evaluate self c ra w db) =
     (let ws = engine_ws self w;
          s = trust_row (ws, c, ra_risk_level ra) (td_states db);
          l = min (level_of (ts_trust_level s)) (level_of (get_ceiling ws c (td_ceilings db)))
      in \<lparr>pd_decision = matrix_lookup (level_text l) (ra_risk_level ra),
          pd_justification = ra_reasoning ra, pd_risk_level = ra_risk_level ra,
          pd_approval_id = None, pd_execution_id = None,
          pd_trust_level = ts_trust_level s, pd_effective_trust_level = level_text l,
          pd_approved_count = ts_approved_count s, pd_rejected_count = ts_rejected_count s\<rparr>)"
  by (rule get_or_create_cases[of "(engine_ws self w, c, ra_risk_level ra)" "td_states db"])
    (simp add: evaluate_def Let_def min_trust_level_text)

lemma evaluate_keeps_rows:
  "trust_row k (td_states (snd (evaluate self c ra w db))) = trust_row k (td_states db)
   \<and> td_ceilings (snd (evaluate self c ra w db)) = td_ceilings db"
  by (rule get_or_create_cases[of "(engine_ws self w, c, ra_risk_level ra)" "td_states db"])
    (simp add: evaluate_def Let_def)

lemma get_ceiling_set:
  "get_ceiling ws' c' (set_ceiling ws c m tbl) =
     (if (ws', c') = (ws, c) then m else get_ceiling ws' c' tbl)"
proof (cases "(ws, c) \<in> tc_key ` set tbl")
  case True
  then obtain r where r: "row_find tc_key (ws, c) tbl = Some r"
    by (cases "row_find tc_key (ws, c) tbl") (auto simp: row_find_None_iff)
  have k: "tc_key (x\<lparr>tc_max_level := m\<rparr>) = tc_key x" for x by (simp add: tc_key_def)
  from True r show ?thesis
    by (auto simp: set_ceiling_def get_ceiling_def row_find_update[where f = "\<lambda>c. c\<lparr>tc_max_level := m\<rparr>" and key = tc_key, OF k] split: option.splits)
next
  case False
  then have "row_find tc_key (ws, c) tbl = None" by (simp add: row_find_None_iff)
  with False show ?thesis
    by (auto simp: set_ceiling_def get_ceiling_def row_find_append tc_key_def split: option.splits)
qed

lemma set_ceiling_distinct:
  "distinct (map tc_key tbl) \<Longrightarrow> distinct (map tc_key (set_ceiling ws c m tbl))"
proof -
  have k: "tc_key (x\<lparr>tc_max_level := m\<rparr>) = tc_key x" for x by (simp add: tc_key_def)
  assume "distinct (map tc_key tbl)"
  then show ?thesis
    by (auto simp: set_ceiling_def tc_key_def
        row_update_keys[where f = "\<lambda>c. c\<lparr>tc_max_level := m\<rparr>" and key = tc_key, OF k])
qed

section \<open>Properties of the gate\<close>

text \<open>C19. Auto-execution of an assessed action is possible only if the model replied, its reply parsed
  and validated as rated none, low or medium, and the level that is both earned for that risk and
  allowed by the workspace's ceiling is autonomous (or trusted, for none and low). In every other
  case, a failed assessment included, the decision is to ask.\<close>

theorem auto_execution_needs_assessed_risk_and_trust:
  "pd_decision (fst (evaluate self c (assess_risk parse as_bool reply) w db)) \<noteq> ''approval_required''
   \<longleftrightarrow> (\<exists>text data ra.
        reply = Some text \<and> parse text = Some data \<and> validate_risk as_bool data = Some ra
        \<and> (let ws = engine_ws self w;
               l = min (level_of (ts_trust_level (trust_row (ws, c, ra_risk_level ra) (td_states db))))
                       (level_of (get_ceiling ws c (td_ceilings db)))
           in ra_risk_level ra \<in> {''none'', ''low''} \<and> Trusted \<le> l
              \<or> ra_risk_level ra = ''medium'' \<and> Autonomous \<le> l))"
proof -
  note rl = validate_risk_level
  have m: "matrix_lookup (level_text l) r \<noteq> ''approval_required''
      \<longleftrightarrow> r \<in> {''none'', ''low''} \<and> Trusted \<le> l \<or> r = ''medium'' \<and> Autonomous \<le> l"
    if "r \<in> set RISK_LEVELS" for l r
    using that unfolding in_RISK_LEVELS
    by (cases l; elim disjE) (simp_all add: matrix_lookup_def less_eq_level_def)
  have fb: "pd_decision (fst (evaluate self c risk_fallback w db)) = ''approval_required''"
    by (simp add: evaluate_decision Let_def risk_fallback_def)
  show ?thesis
  proof (cases "\<exists>text data ra. reply = Some text \<and> parse text = Some data
      \<and> validate_risk as_bool data = Some ra")
    case True
    then obtain t data ra where r: "reply = Some t" "parse t = Some data"
      "validate_risk as_bool data = Some ra" by blast
    then show ?thesis
      using m[OF rl[OF r(3)]] by (simp add: assess_risk_def evaluate_decision Let_def)
  next
    case False
    then have "assess_risk parse as_bool reply = risk_fallback"
      by (auto simp: assess_risk_def split: option.splits)
    with fb False show ?thesis by auto
  qed
qed

text \<open>The matrix never asks less when trust is lower or the risk is higher: from a level that is
  not above another and a risk that is not below another, the decision is at least as cautious;
  and at high risk it is always to ask.\<close>

lemma matrix_monotone:
  assumes "trust_level_index l \<le> trust_level_index l'" and "l \<in> set TRUST_LEVELS"
    and "risk_rank r' \<le> risk_rank r" and "r \<in> set RISK_LEVELS"
  shows "caution (matrix_lookup l' r') \<le> caution (matrix_lookup l r)
    \<and> matrix_lookup l' ''high'' = ''approval_required''"
proof -
  have r': "r' \<in> set RISK_LEVELS"
    using assms(3,4) by (auto simp: risk_rank_def RISK_LEVELS_def split: if_splits)
  have l: "l = level_text (level_of l)"
    using assms(2) by (auto simp: TRUST_LEVELS_def level_of_def)
  have ll: "level_of l \<le> level_of l'"
    using assms(1) by (simp add: trust_level_index_rank less_eq_level_def)
  have l': "l' = level_text (level_of l') \<or> level_of l' = FirstUse"
    by (auto simp: level_of_def)
  show ?thesis
  proof (cases "level_of l' = FirstUse")
    case True
    then have "level_of l = FirstUse" using ll by (cases "level_of l") (simp_all add: less_eq_level_def)
    then have "matrix_lookup l r = ''approval_required''"
      by (subst l) (simp add: matrix_lookup_def)
    then show ?thesis by (simp add: caution_def)
  next
    case False
    with l' have l': "l' = level_text (level_of l')" by simp
    have "caution (matrix_lookup (level_text (level_of l')) r') \<le> caution (matrix_lookup (level_text (level_of l)) r)"
      using assms(3) ll
      unfolding caution_matrix[OF r'] caution_matrix[OF assms(4)] less_eq_level_def by auto
    with l l' show ?thesis by simp
  qed
qed

text \<open>After a ceiling is set, every evaluation for that capability in that workspace acts on the
  lower of the earned level and the ceiling, whatever the risk; evaluations of another capability or
  workspace are unchanged.\<close>

lemma ceiling_caps_trust:
  "(let pd = fst (evaluate ws c ra None (db\<lparr>td_ceilings := set_ceiling ws' c' m (td_ceilings db)\<rparr>));
        pd0 = fst (evaluate ws c ra None db)
    in if ws' = engine_ws ws None \<and> c' = c
       then pd_effective_trust_level pd = min_trust_level (pd_trust_level pd0) m
         \<and> trust_level_index (pd_effective_trust_level pd) \<le> trust_level_index m
         \<and> trust_level_index (pd_effective_trust_level pd) \<le> trust_level_index (pd_trust_level pd)
       else pd = pd0)"
  by (auto simp: evaluate_decision Let_def get_ceiling_set min_trust_level_text
      trust_level_index_rank min_level_rank[symmetric])

text \<open>The progress shown on the Trust tab is always a share between 0 and 1, and below 1 when the
  row is blocked by rejections. It is not the gate's answer: after one rejection and nine approvals
  the row at first_use is shown as blocked on its way to learning, and the tenth approval takes it
  to trusted.\<close>

lemma progress_shown:
  "0 \<le> gp_percentage (graduation_progress s) \<and> gp_percentage (graduation_progress s) \<le> 1
   \<and> (if gp_blocked_by_rejections (graduation_progress s)
      then gp_percentage (graduation_progress s) \<le> 95/100
        \<and> gp_status (graduation_progress s) = Some ''blocked_by_rejections''
      else gp_status (graduation_progress s) = None)
   \<and> (let s1 = decide_all ((0, 0, 0, ''rejected'') # replicate 9 (0, 0, 0, ''approved''))
                  (new_trust_state (''ws'', ''email.send'', ''low''))
      in gp_blocked_by_rejections (graduation_progress s1)
         \<and> gp_next_level (graduation_progress s1) = Some ''learning''
         \<and> ts_trust_level (decide_state 1 1 1 ''approved'' s1) = ''trusted'')"
proof (intro conjI)
  show "let s1 = decide_all ((0, 0, 0, ''rejected'') # replicate 9 (0, 0, 0, ''approved''))
                  (new_trust_state (''ws'', ''email.send'', ''low''))
      in gp_blocked_by_rejections (graduation_progress s1)
         \<and> gp_next_level (graduation_progress s1) = Some ''learning''
         \<and> ts_trust_level (decide_state 1 1 1 ''approved'' s1) = ''trusted''"
    by code_simp
qed (auto simp: graduation_progress_def Let_def min_def)

end
