(* ===== verification/Task_Graph.thy ===== *)
theory Task_Graph
  imports Json
begin

text \<open>
  The rows of \<open>backend/src/models/task_graph.py\<close> that the execution engine reads and
  writes: a run, its steps, its checkpoints. A status column is a string; the model has
  one constructor per status the engine knows and one for any other text, with the text
  of each as \<open>run_status_text\<close> / \<open>step_status_text\<close>. Columns that only history views
  and traces use (versions, token counters, schema, artifact references) are left out.
\<close>

section \<open>Status columns\<close>

datatype run_status =
    RPending | RRunning | RPaused | RAwaitingApproval | RAwaitingInput | RAwaitingReauth
  | RBlocked | RPartiallyCompleted | RCompleted | RFailed | RCancelled | RArchived | RTimedOut
  | ROther string

datatype step_status =
    SPending | SReady | SRunning | SWaitingApproval | SAwaitingInput | SBlocked | SCompleted
  | SCompletedUnverified | SPartiallyCompleted | SFailed | SSkipped | SCancelled | STimedOut
  | SOther string

fun run_status_text :: "run_status \<Rightarrow> string" where
  "run_status_text RPending = ''pending''"
| "run_status_text RRunning = ''running''"
| "run_status_text RPaused = ''paused''"
| "run_status_text RAwaitingApproval = ''awaiting_approval''"
| "run_status_text RAwaitingInput = ''awaiting_input''"
| "run_status_text RAwaitingReauth = ''awaiting_reauth''"
| "run_status_text RBlocked = ''blocked''"
| "run_status_text RPartiallyCompleted = ''partially_completed''"
| "run_status_text RCompleted = ''completed''"
| "run_status_text RFailed = ''failed''"
| "run_status_text RCancelled = ''cancelled''"
| "run_status_text RArchived = ''archived''"
| "run_status_text RTimedOut = ''timed_out''"
| "run_status_text (ROther t) = t"

fun step_status_text :: "step_status \<Rightarrow> string" where
  "step_status_text SPending = ''pending''"
| "step_status_text SReady = ''ready''"
| "step_status_text SRunning = ''running''"
| "step_status_text SWaitingApproval = ''waiting_approval''"
| "step_status_text SAwaitingInput = ''awaiting_input''"
| "step_status_text SBlocked = ''blocked''"
| "step_status_text SCompleted = ''completed''"
| "step_status_text SCompletedUnverified = ''completed_unverified''"
| "step_status_text SPartiallyCompleted = ''partially_completed''"
| "step_status_text SFailed = ''failed''"
| "step_status_text SSkipped = ''skipped''"
| "step_status_text SCancelled = ''cancelled''"
| "step_status_text STimedOut = ''timed_out''"
| "step_status_text (SOther t) = t"

definition known_run_statuses :: "run_status list" where
  "known_run_statuses =
     [RPending, RRunning, RPaused, RAwaitingApproval, RAwaitingInput, RAwaitingReauth, RBlocked,
      RPartiallyCompleted, RCompleted, RFailed, RCancelled, RArchived, RTimedOut]"

definition known_step_statuses :: "step_status list" where
  "known_step_statuses =
     [SPending, SReady, SRunning, SWaitingApproval, SAwaitingInput, SBlocked, SCompleted,
      SCompletedUnverified, SPartiallyCompleted, SFailed, SSkipped, SCancelled, STimedOut]"

text \<open>Reading a status column back.\<close>

definition run_status_of :: "string \<Rightarrow> run_status" where
  "run_status_of t =
     (case map_of (map (\<lambda>s. (run_status_text s, s)) known_run_statuses) t of
        Some s \<Rightarrow> s | None \<Rightarrow> ROther t)"

definition step_status_of :: "string \<Rightarrow> step_status" where
  "step_status_of t =
     (case map_of (map (\<lambda>s. (step_status_text s, s)) known_step_statuses) t of
        Some s \<Rightarrow> s | None \<Rightarrow> SOther t)"

lemma run_status_text_of [simp]: "run_status_text (run_status_of t) = t"
  by (auto simp: run_status_of_def split: option.split dest!: map_of_SomeD)

lemma step_status_text_of [simp]: "step_status_text (step_status_of t) = t"
  by (auto simp: step_status_of_def split: option.split dest!: map_of_SomeD)

lemma run_status_of_text: "s \<in> set known_run_statuses \<Longrightarrow> run_status_of (run_status_text s) = s"
proof -
  have "list_all (\<lambda>s. run_status_of (run_status_text s) = s) known_run_statuses"
    by code_simp
  then show "run_status_of (run_status_text s) = s" if "s \<in> set known_run_statuses"
    using that by (simp add: list_all_iff)
qed

lemma step_status_of_text: "s \<in> set known_step_statuses \<Longrightarrow> step_status_of (step_status_text s) = s"
proof -
  have "list_all (\<lambda>s. step_status_of (step_status_text s) = s) known_step_statuses"
    by code_simp
  then show "step_status_of (step_status_text s) = s" if "s \<in> set known_step_statuses"
    using that by (simp add: list_all_iff)
qed

section \<open>Rows\<close>

record task_run =
  run_id :: string
  run_plan_id :: "string option"
  run_user_id :: string
  run_workspace_id :: string
  run_status :: run_status
  run_source :: string
  run_execution_mode :: "string option"
  run_current_step_ids :: "string list option"
  run_checkpoint :: "jdict option"
  run_started_at :: "instant option"
  run_completed_at :: "instant option"
  run_error :: "jdict option"

record task_step =
  step_id :: string
  step_run_id :: string
  step_workspace_id :: string
  step_task_id :: string
  step_type :: "string option"
  step_name :: "string option"
  step_depends_on :: "string list option"
  step_status :: step_status
  step_input_data :: "jdict option"
  step_output_data :: "jdict option"
  step_error :: "jdict option"
  step_retry_count :: nat
  step_max_retries :: nat
  step_timeout_seconds :: "nat option"
  step_started_at :: "instant option"
  step_completed_at :: "instant option"

record task_checkpoint =
  ckpt_run_id :: string
  ckpt_workspace_id :: string
  ckpt_step_id :: "string option"
  ckpt_reason :: string
  ckpt_state_snapshot :: jdict

text \<open>A domain event handed to an emitter: its type and its payload.\<close>

record domain_event =
  ev_type :: string
  ev_user_id :: string
  ev_payload :: jdict

end
