(* ===== verification/Governor.thy ===== *)
theory Governor
  imports Trust_Engine Task_Graph
begin

text \<open>
  The plan-level gate: \<open>backend/src/services/governor.py\<close>, the approval factory
  (\<open>services/approval_service.py\<close>), what a rejection is evidence about
  (\<open>api/approval_trust_scope.py\<close>) and the run-detail store (\<open>services/run_detail_store.py\<close>).
  Identifiers made by \<open>ULID()\<close> are arguments. The settings service and the trust engine are the
  optional collaborators of the code: a settings reply is \<open>Inl ()\<close> when the read raises.
  Audit rows, notifications and log lines are left out.
\<close>

section \<open>Approvals\<close>

definition DEFAULT_EXPIRY_HOURS :: int where
  "DEFAULT_EXPIRY_HOURS = 24"

definition PREPARED_APPROVAL_TYPE :: string where
  "PREPARED_APPROVAL_TYPE = ''prepared_action''"

definition NON_EXPIRING_TYPES :: "string list" where
  "NON_EXPIRING_TYPES = [PREPARED_APPROVAL_TYPE]"

record approval =
  ap_approval_id :: string
  ap_user_id :: string
  ap_workspace_id :: string
  ap_execution_id :: string
  ap_approval_type :: string
  ap_title :: string
  ap_summary :: "string option"
  ap_artifact_refs :: "jdict option"
  ap_thread_id :: json
  ap_tool_call_id :: json
  ap_risk_level :: string
  ap_status :: string
  ap_decided_at :: "instant option"
  ap_decision_reason :: "string option"
  ap_expires_at :: "instant option"
  ap_run_id :: "string option"
  ap_step_id :: "string option"
  ap_requested_by :: string
  ap_approved_by :: "string option"

definition starts_with :: "string \<Rightarrow> string \<Rightarrow> bool" where
  "starts_with p s = (take (length p) s = p)"

definition quoted :: "string \<Rightarrow> string" where
  "quoted s = [CHR 0x27] @ s @ [CHR 0x27]"

text \<open>The one way to create an approval. The text of the error leaves out the list of keys.\<close>

definition create_approval ::
  "instant \<Rightarrow> string \<Rightarrow> string \<Rightarrow> string \<Rightarrow> string \<Rightarrow> string \<Rightarrow> string option \<Rightarrow> string \<Rightarrow> string
   \<Rightarrow> string option \<Rightarrow> string option \<Rightarrow> string \<Rightarrow> jdict option \<Rightarrow> instant option
   \<Rightarrow> approval list \<Rightarrow> string + approval \<times> approval list" where
  "create_approval now ulid user_id workspace_id approval_type title summary risk_level execution_id
     rid sid requested_by artifact_refs expires_at approvals =
     (if dict_or_empty artifact_refs \<noteq> [] \<and> approval_type \<noteq> [] \<and> starts_with ''tool:'' approval_type
         \<and> ''tool_name'' \<notin> fst ` set (dict_or_empty artifact_refs)
      then Inl (''Tool-level approval requires '' @ quoted ''tool_name'' @ '' in artifact_refs'')
      else
        (let expires_at =
               (if expires_at = None \<and> approval_type \<notin> set NON_EXPIRING_TYPES
                then Some (now + hours DEFAULT_EXPIRY_HOURS) else expires_at);
             approval =
               \<lparr>ap_approval_id = ''apr_'' @ ulid, ap_user_id = user_id, ap_workspace_id = workspace_id,
                ap_execution_id = execution_id, ap_approval_type = approval_type, ap_title = title,
                ap_summary = summary, ap_artifact_refs = artifact_refs,
                ap_thread_id = jget (dict_or_empty artifact_refs) ''thread_id'',
                ap_tool_call_id = jget (dict_or_empty artifact_refs) ''tool_call_id'',
                ap_risk_level = risk_level, ap_status = ''pending'', ap_decided_at = None,
                ap_decision_reason = None, ap_expires_at = expires_at,
                ap_run_id = rid, ap_step_id = sid, ap_requested_by = requested_by,
                ap_approved_by = None\<rparr>
         in Inr (approval, approvals @ [approval])))"

text \<open>\<open>split(":", 1)[1]\<close>: what follows the first colon.\<close>

definition after_colon :: "string \<Rightarrow> string" where
  "after_colon t = tl (dropWhile (\<lambda>c. c \<noteq> CHR '':'') t)"

definition rejected_capability :: "string option \<Rightarrow> string option" where
  "rejected_capability approval_type =
     (case approval_type of
        None \<Rightarrow> None
      | Some t \<Rightarrow>
          if t = [] then None
          else
            (let candidate = (if CHR '':'' \<in> set t then after_colon t else t)
             in if catalog_meta candidate \<noteq> None then Some candidate else None))"

definition decision_route :: "json \<Rightarrow> string" where
  "decision_route artifact_refs =
     (if jget (obj_items artifact_refs) ''chat'' = JBool True then ''chat'' else ''queue'')"

section \<open>Run details\<close>

record run_detail =
  rd_run_id :: string
  rd_workspace_id :: string
  rd_policy_decision :: "jdict option"
  rd_context_pack :: "jdict option"
  rd_context_pack_expires_at :: "instant option"

definition CONTEXT_PACK_TTL_DAYS :: int where
  "CONTEXT_PACK_TTL_DAYS = 30"

definition upsert_policy_decision :: "string \<Rightarrow> string \<Rightarrow> jdict \<Rightarrow> run_detail list \<Rightarrow> run_detail list" where
  "upsert_policy_decision rid ws decision tbl =
     (if rid \<in> rd_run_id ` set tbl
      then row_update rd_run_id rid (\<lambda>d. d\<lparr>rd_policy_decision := Some decision\<rparr>) tbl
      else tbl @ [\<lparr>rd_run_id = rid, rd_workspace_id = ws, rd_policy_decision = Some decision,
                   rd_context_pack = None, rd_context_pack_expires_at = None\<rparr>])"

definition upsert_context_pack ::
  "instant \<Rightarrow> string \<Rightarrow> string \<Rightarrow> jdict \<Rightarrow> int \<Rightarrow> run_detail list \<Rightarrow> run_detail list" where
  "upsert_context_pack now rid ws pack ttl_days tbl =
     (let expires_at = now + hours (24 * ttl_days)
      in if rid \<in> rd_run_id ` set tbl
         then row_update rd_run_id rid
           (\<lambda>d. d\<lparr>rd_context_pack := Some pack, rd_context_pack_expires_at := Some expires_at\<rparr>) tbl
         else tbl @ [\<lparr>rd_run_id = rid, rd_workspace_id = ws, rd_policy_decision = None,
                      rd_context_pack = Some pack, rd_context_pack_expires_at = Some expires_at\<rparr>])"

definition get_context_pack :: "instant \<Rightarrow> string \<Rightarrow> run_detail list \<Rightarrow> jdict option" where
  "get_context_pack now rid tbl =
     (case row_find rd_run_id rid tbl of
        None \<Rightarrow> None
      | Some row \<Rightarrow>
          (case rd_context_pack row of
             None \<Rightarrow> None
           | Some pack \<Rightarrow>
               (case rd_context_pack_expires_at row of
                  Some e \<Rightarrow> if e < now then None else Some pack
                | None \<Rightarrow> Some pack)))"

definition get_policy_decision :: "string \<Rightarrow> run_detail list \<Rightarrow> jdict option" where
  "get_policy_decision rid tbl =
     (case row_find rd_run_id rid tbl of None \<Rightarrow> None | Some row \<Rightarrow> rd_policy_decision row)"

section \<open>The governor\<close>

record plan_task =
  pt_task_id :: string
  pt_task_type :: "string option"
  pt_input_data :: "jdict option"
  pt_depends_on :: json

record plan =
  pl_plan_id :: string
  pl_goal :: string
  pl_reasoning_summary :: "string option"
  pl_risk_level :: "string option"
  pl_execution_mode :: string
  pl_status :: string
  pl_tasks :: "plan_task list"

definition VALID_POLICY_MODES :: "string list" where
  "VALID_POLICY_MODES = [''lockdown'', ''approval_required'', ''suggest_only'', ''full_auto'']"

definition DECISION_TO_RUN_STATUS :: "(string \<times> run_status) list" where
  "DECISION_TO_RUN_STATUS =
     [(''auto_execute'', RPending), (''auto_execute_notify'', RPending), (''auto_execute_silent'', RPending),
      (''approval_required'', RAwaitingApproval), (''blocked'', RCancelled)]"

text \<open>Truth of an optional string, \<open>x or d\<close>.\<close>

definition str_or :: "string option \<Rightarrow> string \<Rightarrow> string" where
  "str_or x d = (case x of None \<Rightarrow> d | Some s \<Rightarrow> if s = [] then d else s)"

text \<open>The first task's capability; a non-string \<open>capability\<close> entry reads as its text.\<close>

definition first_capability :: "plan \<Rightarrow> string" where
  "first_capability p =
     (case pl_tasks p of
        [] \<Rightarrow> ''plan_execution''
      | t # _ \<Rightarrow> str_or (pt_task_type t)
          (jstr (jget_default (dict_or_empty (pt_input_data t)) ''capability'' (JStr ''plan_execution''))))"

definition get_policy_mode :: "(unit + string) option \<Rightarrow> string" where
  "get_policy_mode settings =
     (case settings of
        Some (Inr mode) \<Rightarrow> if mode \<in> set VALID_POLICY_MODES then mode else ''approval_required''
      | _ \<Rightarrow> ''approval_required'')"

text \<open>\<open>_check_trust\<close>: \<open>None\<close> for no trust engine; the argument is its \<open>evaluate_plan_risk\<close>.\<close>

definition check_trust ::
  "(string \<Rightarrow> string \<Rightarrow> string option \<Rightarrow> trust_db \<Rightarrow> unit + policy_decision \<times> trust_db) option \<Rightarrow>
   string \<Rightarrow> string \<Rightarrow> string \<Rightarrow> trust_db \<Rightarrow> bool \<times> trust_db" where
  "check_trust engine ws capability risk db =
     (case engine of
        None \<Rightarrow> (False, db)
      | Some f \<Rightarrow>
          (case f capability risk (Some ws) db of
             Inl _ \<Rightarrow> (False, db)
           | Inr (d, db1) \<Rightarrow>
               (pd_decision d \<in> {''auto_execute'', ''auto_execute_notify'', ''auto_execute_silent''}, db1)))"

definition apply_policy ::
  "(unit + string) option \<Rightarrow>
   (string \<Rightarrow> string \<Rightarrow> string option \<Rightarrow> trust_db \<Rightarrow> unit + policy_decision \<times> trust_db) option \<Rightarrow>
   plan \<Rightarrow> string \<Rightarrow> trust_db \<Rightarrow> string \<times> trust_db" where
  "apply_policy settings engine p ws db =
     (let risk = str_or (pl_risk_level p) ''low'';
          policy_mode = get_policy_mode settings
      in if policy_mode = ''lockdown'' then (''blocked'', db)
         else if policy_mode = ''suggest_only'' then (''blocked'', db)
         else if risk = ''critical'' then (''approval_required'', db)
         else if policy_mode = ''full_auto'' then
           (if risk = ''high'' then (''approval_required'', db) else (''auto_execute'', db))
         else if risk = ''high'' then (''approval_required'', db)
         else
           (let first_cap = first_capability p
            in if risk = ''medium'' then
                 (let (ok, db1) = check_trust engine ws first_cap risk db
                  in if ok then (''auto_execute'', db1) else (''approval_required'', db1))
               else
                 (let (ok, db1) = check_trust engine ws first_cap risk db
                  in if ok then (''auto_execute'', db1) else (''approval_required'', db1))))"

record gov_db =
  gd_plans :: "plan list"
  gd_runs :: "task_run list"
  gd_details :: "run_detail list"
  gd_approvals :: "approval list"
  gd_trust :: trust_db
  gd_events :: "domain_event list"

definition PLAN_RISK_LEVELS :: "string list" where
  "PLAN_RISK_LEVELS = [''none'', ''low'', ''medium'', ''high'', ''critical'']"

definition policy_decision_of ::
  "string \<Rightarrow> string \<Rightarrow> string \<Rightarrow> string option \<Rightarrow> string option \<Rightarrow> unit + policy_decision" where
  "policy_decision_of decision justification risk approval_id execution_id =
     (if risk \<in> set PLAN_RISK_LEVELS
         \<and> decision \<in> {''auto_execute'', ''auto_execute_notify'', ''auto_execute_silent'',
                        ''approval_required'', ''blocked''}
      then Inr \<lparr>pd_decision = decision, pd_justification = justification, pd_risk_level = risk,
                pd_approval_id = approval_id, pd_execution_id = execution_id, pd_trust_level = [],
                pd_effective_trust_level = [], pd_approved_count = 0, pd_rejected_count = 0\<rparr>
      else Inl ())"

definition new_plan_run :: "string \<Rightarrow> string \<Rightarrow> string \<Rightarrow> string \<Rightarrow> string \<Rightarrow> task_run" where
  "new_plan_run rid plan_id user_id ws decision =
     \<lparr>run_id = rid, run_plan_id = Some plan_id, run_user_id = user_id, run_workspace_id = ws,
      run_status = (case map_of DECISION_TO_RUN_STATUS decision of Some st \<Rightarrow> st | None \<Rightarrow> RPending),
      run_source = ''plan'', run_execution_mode = Some decision, run_current_step_ids = None,
      run_checkpoint = None, run_started_at = None, run_completed_at = None, run_error = None\<rparr>"

definition plan_event_type :: "string \<Rightarrow> string" where
  "plan_event_type decision =
     (if decision = ''auto_execute'' then ''plan.approved''
      else if decision = ''blocked'' then ''plan.rejected''
      else ''approval.requested'')"

text \<open>\<open>evaluate_plan\<close>. \<open>run_ulid\<close> and \<open>apr_ulid\<close> are the two fresh identifiers. The verdict is built
  after the commit, so an invalid risk text raises with everything already stored.\<close>

definition evaluate_plan ::
  "(unit + string) option \<Rightarrow>
   (string \<Rightarrow> string \<Rightarrow> string option \<Rightarrow> trust_db \<Rightarrow> unit + policy_decision \<times> trust_db) option \<Rightarrow>
   instant \<Rightarrow> string \<Rightarrow> string \<Rightarrow> string \<Rightarrow> string \<Rightarrow> string \<Rightarrow> gov_db \<Rightarrow>
   (unit + policy_decision) \<times> gov_db" where
  "evaluate_plan settings engine now run_ulid apr_ulid plan_id user_id ws db =
     (case row_find pl_plan_id plan_id (gd_plans db) of
        None \<Rightarrow> (policy_decision_of ''blocked'' ''Plan not found'' ''high'' None None, db)
      | Some p \<Rightarrow>
          (let (decision, trust1) = apply_policy settings engine p ws (gd_trust db);
               rid = ''run_'' @ run_ulid;
               run = new_plan_run rid plan_id user_id ws decision;
               details1 = upsert_policy_decision rid ws
                 [(''decision'', JStr decision), (''risk_level'', JStr (str_or (pl_risk_level p) ''low''))]
                 (gd_details db);
               plans1 = row_update pl_plan_id plan_id
                 (\<lambda>p. p\<lparr>pl_status := ''policy_checked'', pl_execution_mode := decision\<rparr>) (gd_plans db);
               created =
                 (if decision = ''approval_required'' then
                    create_approval now apr_ulid user_id ws (first_capability p) (''Approve: '' @ pl_goal p)
                      (pl_reasoning_summary p) (str_or (pl_risk_level p) ''medium'') rid None None user_id
                      (Some [(''plan_id'', JStr (pl_plan_id p))]) None (gd_approvals db)
                  else Inl []);
               approval_id =
                 (if decision = ''approval_required''
                  then (case created of Inr (a, _) \<Rightarrow> Some (ap_approval_id a) | Inl _ \<Rightarrow> None) else None);
               approvals1 = (case created of Inr (_, as) \<Rightarrow> as | Inl _ \<Rightarrow> gd_approvals db);
               plans2 =
                 (if decision = ''blocked''
                  then row_update pl_plan_id plan_id (\<lambda>p. p\<lparr>pl_status := ''blocked''\<rparr>) plans1
                  else plans1);
               event = \<lparr>ev_type = plan_event_type decision, ev_user_id = user_id,
                        ev_payload = [(''plan_id'', JStr plan_id), (''run_id'', JStr rid),
                                      (''policy_decision'', JStr decision)]\<rparr>;
               db1 = db\<lparr>gd_plans := plans2, gd_runs := gd_runs db @ [run], gd_details := details1,
                        gd_approvals := approvals1, gd_trust := trust1, gd_events := gd_events db @ [event]\<rparr>
           in if decision = ''approval_required'' \<and> approval_id = None then (Inl (), db)
              else (policy_decision_of decision
                      (''Plan '' @ quoted (pl_goal p) @ '' evaluated as '' @ decision) (str_or (pl_risk_level p) ''low'')
                      approval_id (Some rid), db1)))"

text \<open>\<open>is_auto_execute_tool\<close> on the registry row (risk level, requires_approval).\<close>

definition is_auto_execute_tool :: "(string \<times> bool) option \<Rightarrow> bool" where
  "is_auto_execute_tool tool =
     (case tool of None \<Rightarrow> False | Some (risk, requires_approval) \<Rightarrow> risk = ''low'' \<and> \<not> requires_approval)"

section \<open>What the governor lets through\<close>

lemma str_or_simps [simp]: "str_or None d = d" "str_or (Some []) d = d" "str_or (Some (c # s)) d = c # s"
  by (simp_all add: str_or_def)

lemma apply_policy_values:
  "fst (apply_policy settings engine p ws db) \<in> {''blocked'', ''approval_required'', ''auto_execute''}"
  by (auto simp: apply_policy_def Let_def split: prod.split)

text \<open>When the governor auto-executes: the user's mode must not be lockdown or suggest-only, the
  risk must not be critical or high, and unless the mode is full_auto the trust engine must be there
  and have answered with an automatic decision for the first task's capability. A settings read
  that raises, a missing engine and an engine that raises all lead to asking.\<close>

lemma auto_execute_iff:
  "fst (apply_policy settings engine p ws db) = ''auto_execute'' \<longleftrightarrow>
     (let risk = str_or (pl_risk_level p) ''low''; mode = get_policy_mode settings
      in mode \<noteq> ''lockdown'' \<and> mode \<noteq> ''suggest_only'' \<and> risk \<noteq> ''critical'' \<and> risk \<noteq> ''high''
        \<and> (mode = ''full_auto''
           \<or> (\<exists>f d db1. engine = Some f \<and> f (first_capability p) risk (Some ws) db = Inr (d, db1)
                \<and> pd_decision d \<in> {''auto_execute'', ''auto_execute_notify'', ''auto_execute_silent''})))"
proof -
  have t: "fst (check_trust engine ws c risk db) \<longleftrightarrow>
      (\<exists>f d db1. engine = Some f \<and> f c risk (Some ws) db = Inr (d, db1)
        \<and> pd_decision d \<in> {''auto_execute'', ''auto_execute_notify'', ''auto_execute_silent''})" for c risk
    by (auto simp: check_trust_def split: option.splits sum.splits)
  show ?thesis
    unfolding apply_policy_def Let_def t[symmetric] by (auto split: prod.splits)
qed

text \<open>In full_auto mode the trust engine has no say: whatever it would answer, and whether or not
  there is one, the decision is the same, and it auto-executes every plan that is not high or
  critical.\<close>

lemma full_auto_ignores_trust:
  "apply_policy (Some (Inr ''full_auto'')) engine p ws db =
     (if str_or (pl_risk_level p) ''low'' \<in> {''high'', ''critical''} then ''approval_required'' else ''auto_execute'', db)"
  by (simp add: apply_policy_def Let_def get_policy_mode_def VALID_POLICY_MODES_def)

text \<open>With the real trust engine and no full_auto setting, the governor auto-executes exactly when
  the level that is both earned for the risk and allowed by the ceiling is at least trusted for none
  and low risk and autonomous for medium risk; a text outside the four levels is never
  auto-executed.\<close>

lemma governor_with_trust_engine:
  assumes "get_policy_mode settings = ''approval_required''"
  shows "fst (apply_policy settings (Some (evaluate_plan_risk self)) p ws db) = ''auto_execute'' \<longleftrightarrow>
     (let risk = str_or (pl_risk_level p) ''low''; w = engine_ws self (Some ws); c = first_capability p;
          l = min (level_of (ts_trust_level (trust_row (w, c, risk) (td_states db))))
                  (level_of (get_ceiling w c (td_ceilings db)))
      in risk \<in> {''none'', ''low''} \<and> Trusted \<le> l \<or> risk = ''medium'' \<and> Autonomous \<le> l)"
proof -
  have m: "matrix_lookup (level_text l) r \<in> {''auto_execute'', ''auto_execute_notify'', ''auto_execute_silent''}
      \<longleftrightarrow> r \<in> {''none'', ''low''} \<and> Trusted \<le> l \<or> r = ''medium'' \<and> Autonomous \<le> l"
    if "r \<in> set RISK_LEVELS" for l r
    using that unfolding in_RISK_LEVELS
    by (cases l; elim disjE) (simp_all add: matrix_lookup_def less_eq_level_def)
  define risk where "risk = str_or (pl_risk_level p) ''low''"
  show ?thesis
  proof (cases "risk \<in> set RISK_LEVELS")
    case True
    then have "risk \<noteq> ''critical''" by (auto simp: in_RISK_LEVELS)
    then show ?thesis
      using True assms m[OF True] unfolding auto_execute_iff Let_def risk_def[symmetric]
      by (auto simp: evaluate_plan_risk_def prod_eq_iff evaluate_decision Let_def)
  next
    case False
    then have "risk \<noteq> ''none'' \<and> risk \<noteq> ''low'' \<and> risk \<noteq> ''medium''" by (auto simp: in_RISK_LEVELS)
    then show ?thesis
      using False assms unfolding auto_execute_iff Let_def risk_def[symmetric]
      by (simp add: evaluate_plan_risk_def)
  qed
qed

definition sample_plan :: "string \<Rightarrow> plan" where
  "sample_plan risk = \<lparr>pl_plan_id = ''p1'', pl_goal = ''g'', pl_reasoning_summary = None, pl_risk_level = Some risk,
     pl_execution_mode = ''approval_required'', pl_status = ''created'',
     pl_tasks = [\<lparr>pt_task_id = ''t1'', pt_task_type = Some ''email.send'', pt_input_data = None, pt_depends_on = JNull\<rparr>]\<rparr>"

definition sample_trust_db :: trust_db where
  "sample_trust_db = \<lparr>td_states = [sample_trust 12 0 ''trusted''], td_ceilings = []\<rparr>"

lemma approval_created:
  assumes "\<not> starts_with ''tool:'' t" and "t \<noteq> PREPARED_APPROVAL_TYPE"
  shows "\<exists>a. create_approval now ulid u ws t title sm rl eid rid sid rb refs None as = Inr (a, as @ [a])
    \<and> ap_execution_id a = eid \<and> ap_workspace_id a = ws \<and> ap_requested_by a = rb \<and> ap_status a = ''pending''
    \<and> ap_approval_id a = ''apr_'' @ ulid \<and> ap_expires_at a = Some (now + hours 24)"
  using assms by (simp add: create_approval_def NON_EXPIRING_TYPES_def DEFAULT_EXPIRY_HOURS_def Let_def)

text \<open>A plan's verdict is stored before it is returned: one new run carrying the decision as its
  mode, pending if it may run, cancelled if blocked, and awaiting approval exactly when a pending
  approval for that run, expiring in 24 hours, has been created; no other decision creates one.\<close>

lemma plan_verdict_recorded:
  assumes "row_find pl_plan_id plan_id (gd_plans db) = Some p"
    and "\<not> starts_with ''tool:'' (first_capability p)" and "first_capability p \<noteq> PREPARED_APPROVAL_TYPE"
  shows "(let db' = snd (evaluate_plan settings engine now rulid aulid plan_id u ws db);
              decision = fst (apply_policy settings engine p ws (gd_trust db))
     in \<exists>run. gd_runs db' = gd_runs db @ [run] \<and> run_execution_mode run = Some decision
          \<and> run_workspace_id run = ws \<and> run_plan_id run = Some plan_id
          \<and> (if decision = ''approval_required''
             then run_status run = RAwaitingApproval
               \<and> (\<exists>a. gd_approvals db' = gd_approvals db @ [a] \<and> ap_execution_id a = run_id run
                    \<and> ap_workspace_id a = ws \<and> ap_status a = ''pending''
                    \<and> ap_expires_at a = Some (now + hours 24))
             else gd_approvals db' = gd_approvals db
               \<and> run_status run = (if decision = ''blocked'' then RCancelled else RPending)))"
proof -
  obtain d t where dt: "apply_policy settings engine p ws (gd_trust db) = (d, t)"
    by (cases "apply_policy settings engine p ws (gd_trust db)")
  have d: "d \<in> {''blocked'', ''approval_required'', ''auto_execute''}"
    using apply_policy_values[of settings engine p ws "gd_trust db"] by (simp add: dt)
  obtain a where a: "create_approval now aulid u ws (first_capability p) (''Approve: '' @ pl_goal p)
      (pl_reasoning_summary p) (str_or (pl_risk_level p) ''medium'') (''run_'' @ rulid) None None u
      (Some [(''plan_id'', JStr (pl_plan_id p))]) None (gd_approvals db) = Inr (a, gd_approvals db @ [a])"
      "ap_execution_id a = ''run_'' @ rulid" "ap_workspace_id a = ws" "ap_status a = ''pending''"
      "ap_expires_at a = Some (now + hours 24)"
    using approval_created[OF assms(2,3)] by blast
  show ?thesis
  proof (cases "d = ''approval_required''")
    case True
    then show ?thesis
      using a by (simp add: evaluate_plan_def assms(1) dt Let_def new_plan_run_def DECISION_TO_RUN_STATUS_def)
  next
    case False
    then show ?thesis
      using d by (auto simp: evaluate_plan_def assms(1) dt Let_def new_plan_run_def DECISION_TO_RUN_STATUS_def)
  qed
qed

definition sample_gov_db :: "string \<Rightarrow> gov_db" where
  "sample_gov_db risk = \<lparr>gd_plans = [sample_plan risk], gd_runs = [], gd_details = [], gd_approvals = [],
     gd_trust = sample_trust_db, gd_events = []\<rparr>"

text \<open>A rejection is held against a capability only if the catalog has it: the bare capability of
  a plan approval or the suffix of a step approval; a tool name, a proposal or a missing type is
  held against nothing.\<close>

lemma rejection_names_catalog_capability:
  "(case rejected_capability t of
      None \<Rightarrow> t = None \<or> t = Some [] \<or> (\<exists>s. t = Some s \<and> catalog_meta (if CHR '':'' \<in> set s then after_colon s else s) = None)
    | Some c \<Rightarrow> catalog_meta c \<noteq> None \<and> (t = Some c \<or> (\<exists>prefix. t = Some (prefix @ '':'' @ c) \<and> CHR '':'' \<notin> set prefix)))
   \<and> rejected_capability (Some ''filter_proposal'') = None
   \<and> rejected_capability (Some ''tool:send_email'') = None
   \<and> rejected_capability (Some ''step:email.send'') = Some ''email.send''"
proof (intro conjI)
  have split: "\<exists>prefix. s = prefix @ '':'' @ after_colon s \<and> CHR '':'' \<notin> set prefix" if "CHR '':'' \<in> set s" for s
  proof -
    from split_list_first[OF that] obtain ys zs where s: "s = ys @ CHR '':'' # zs" "CHR '':'' \<notin> set ys" by blast
    have "dropWhile (\<lambda>c. c \<noteq> CHR '':'') s = CHR '':'' # zs"
      using s(2) unfolding s(1) by (subst dropWhile_append2) auto
    with s show ?thesis by (auto simp: after_colon_def)
  qed
  show "case rejected_capability t of
      None \<Rightarrow> t = None \<or> t = Some [] \<or> (\<exists>s. t = Some s \<and> catalog_meta (if CHR '':'' \<in> set s then after_colon s else s) = None)
    | Some c \<Rightarrow> catalog_meta c \<noteq> None \<and> (t = Some c \<or> (\<exists>prefix. t = Some (prefix @ '':'' @ c) \<and> CHR '':'' \<notin> set prefix))"
    using split by (cases t) (auto simp: rejected_capability_def Let_def)
qed code_simp+

end
