(* ===== verification/Execution_State.thy ===== *)
theory Execution_State
  imports Task_Graph
begin

text \<open>
  \<open>backend/src/services/execution_state.py\<close>: the transition tables of runs and steps and
  the two functions every status change goes through. The tables are written as in the
  code; \<open>transition_run\<close> and \<open>transition_step\<close> return the changed row and the event given
  to the \<open>emit_event\<close> callback (an exception of the callback is swallowed by the code, so
  it has no effect here), or the raised \<open>InvalidTransitionError\<close>.

  The locale \<open>status_machine\<close> is what the engine relies on from a transition table: keys
  are unique, targets are themselves keys. Its lemmas (terminal statuses are stuck, runs of
  transitions stay inside the table) are proved once and used for both tables.
\<close>

section \<open>The transition tables\<close>

definition RUN_TRANSITIONS :: "(run_status \<times> run_status list) list" where
  "RUN_TRANSITIONS =
    [(RPending, [RRunning, RCancelled, RBlocked]),
     (RRunning, [RPaused, RAwaitingApproval, RAwaitingInput, RAwaitingReauth, RCompleted, RFailed,
                 RCancelled, RPartiallyCompleted]),
     (RPaused, [RRunning, RCancelled]),
     (RAwaitingApproval, [RRunning, RCancelled, RFailed]),
     (RAwaitingInput, [RRunning, RCancelled, RFailed]),
     (RAwaitingReauth, [RPending, RRunning, RCancelled, RFailed]),
     (RBlocked, [RPending, RCancelled]),
     (RPartiallyCompleted, [RRunning, RCompleted, RFailed, RCancelled]),
     (RCompleted, [RArchived]),
     (RFailed, [RPending]),
     (RCancelled, []),
     (RArchived, []),
     (RTimedOut, [RPending, RCancelled])]"

definition STEP_TRANSITIONS :: "(step_status \<times> step_status list) list" where
  "STEP_TRANSITIONS =
    [(SPending, [SReady, SSkipped, SBlocked]),
     (SReady, [SRunning, SSkipped]),
     (SRunning, [SCompleted, SCompletedUnverified, SPartiallyCompleted, SFailed, SWaitingApproval,
                 SAwaitingInput, SSkipped, STimedOut, SCancelled]),
     (SWaitingApproval, [SRunning, SSkipped]),
     (SAwaitingInput, [SRunning, SSkipped, SCancelled]),
     (SBlocked, [SPending, SSkipped]),
     (SCompleted, []),
     (SCompletedUnverified, [SCompleted, SPartiallyCompleted]),
     (SPartiallyCompleted, []),
     (SFailed, [SPending]),
     (SSkipped, []),
     (SCancelled, []),
     (STimedOut, [SPending, SSkipped])]"

definition TERMINAL_SUCCESS :: "step_status list" where
  "TERMINAL_SUCCESS = [SCompleted, SCompletedUnverified]"

text \<open>\<open>TABLE.get(status, set())\<close>.\<close>

definition allowed :: "('s \<times> 's list) list \<Rightarrow> 's \<Rightarrow> 's list" where
  "allowed table s = (case map_of table s of None \<Rightarrow> [] | Some ts \<Rightarrow> ts)"

lemma allowed_run [status_tables]:
  "allowed RUN_TRANSITIONS RPending = [RRunning, RCancelled, RBlocked]"
  "allowed RUN_TRANSITIONS RRunning = [RPaused, RAwaitingApproval, RAwaitingInput, RAwaitingReauth,
     RCompleted, RFailed, RCancelled, RPartiallyCompleted]"
  "allowed RUN_TRANSITIONS RPaused = [RRunning, RCancelled]"
  "allowed RUN_TRANSITIONS RAwaitingApproval = [RRunning, RCancelled, RFailed]"
  "allowed RUN_TRANSITIONS RAwaitingInput = [RRunning, RCancelled, RFailed]"
  "allowed RUN_TRANSITIONS RAwaitingReauth = [RPending, RRunning, RCancelled, RFailed]"
  "allowed RUN_TRANSITIONS RBlocked = [RPending, RCancelled]"
  "allowed RUN_TRANSITIONS RPartiallyCompleted = [RRunning, RCompleted, RFailed, RCancelled]"
  "allowed RUN_TRANSITIONS RCompleted = [RArchived]"
  "allowed RUN_TRANSITIONS RFailed = [RPending]"
  "allowed RUN_TRANSITIONS RCancelled = []"
  "allowed RUN_TRANSITIONS RArchived = []"
  "allowed RUN_TRANSITIONS RTimedOut = [RPending, RCancelled]"
  "allowed RUN_TRANSITIONS (ROther t) = []"
  by (simp_all add: allowed_def RUN_TRANSITIONS_def)

lemma allowed_step [status_tables]:
  "allowed STEP_TRANSITIONS SPending = [SReady, SSkipped, SBlocked]"
  "allowed STEP_TRANSITIONS SReady = [SRunning, SSkipped]"
  "allowed STEP_TRANSITIONS SRunning = [SCompleted, SCompletedUnverified, SPartiallyCompleted, SFailed,
     SWaitingApproval, SAwaitingInput, SSkipped, STimedOut, SCancelled]"
  "allowed STEP_TRANSITIONS SWaitingApproval = [SRunning, SSkipped]"
  "allowed STEP_TRANSITIONS SAwaitingInput = [SRunning, SSkipped, SCancelled]"
  "allowed STEP_TRANSITIONS SBlocked = [SPending, SSkipped]"
  "allowed STEP_TRANSITIONS SCompleted = []"
  "allowed STEP_TRANSITIONS SCompletedUnverified = [SCompleted, SPartiallyCompleted]"
  "allowed STEP_TRANSITIONS SPartiallyCompleted = []"
  "allowed STEP_TRANSITIONS SFailed = [SPending]"
  "allowed STEP_TRANSITIONS SSkipped = []"
  "allowed STEP_TRANSITIONS SCancelled = []"
  "allowed STEP_TRANSITIONS STimedOut = [SPending, SSkipped]"
  "allowed STEP_TRANSITIONS (SOther t) = []"
  by (simp_all add: allowed_def STEP_TRANSITIONS_def)

section \<open>Changing a status\<close>

text \<open>\<open>InvalidTransitionError(entity_type, entity_id, from_status, to_status)\<close>: the raised
  error with the transitions it reports as allowed.\<close>

datatype transition_error =
  InvalidTransition (err_entity: string) (err_id: string) (err_from: string) (err_to: string)
    (err_allowed: "string list")

definition run_transition_error :: "task_run \<Rightarrow> run_status \<Rightarrow> transition_error" where
  "run_transition_error r s =
     InvalidTransition ''run'' (run_id r) (run_status_text (run_status r)) (run_status_text s)
       (map run_status_text (allowed RUN_TRANSITIONS (run_status r)))"

definition step_transition_error :: "task_step \<Rightarrow> step_status \<Rightarrow> transition_error" where
  "step_transition_error p s =
     InvalidTransition ''step'' (step_id p) (step_status_text (step_status p)) (step_status_text s)
       (map step_status_text (allowed STEP_TRANSITIONS (step_status p)))"

definition transition_run ::
  "task_run \<Rightarrow> run_status \<Rightarrow> bool \<Rightarrow> transition_error + (task_run \<times> domain_event list)" where
  "transition_run r new emit =
     (if new \<notin> set (allowed RUN_TRANSITIONS (run_status r)) then Inl (run_transition_error r new)
      else Inr (r\<lparr>run_status := new\<rparr>,
        (if emit then
           [\<lparr>ev_type = ''run.status_changed'', ev_user_id = [],
             ev_payload = [(''run_id'', JStr (run_id r)),
                           (''from_status'', JStr (run_status_text (run_status r))),
                           (''to_status'', JStr (run_status_text new))]\<rparr>]
         else [])))"

definition transition_step ::
  "task_step \<Rightarrow> step_status \<Rightarrow> bool \<Rightarrow> transition_error + (task_step \<times> domain_event list)" where
  "transition_step p new emit =
     (if new \<notin> set (allowed STEP_TRANSITIONS (step_status p)) then Inl (step_transition_error p new)
      else Inr (p\<lparr>step_status := new\<rparr>,
        (if emit then
           [\<lparr>ev_type = ''step.status_changed'', ev_user_id = [],
             ev_payload = [(''step_id'', JStr (step_id p)),
                           (''from_status'', JStr (step_status_text (step_status p))),
                           (''to_status'', JStr (step_status_text new))]\<rparr>]
         else [])))"

lemma transition_run_ok:
  "transition_run r new e = Inr (r', evs) \<Longrightarrow>
     r' = r\<lparr>run_status := new\<rparr> \<and> new \<in> set (allowed RUN_TRANSITIONS (run_status r))"
  by (auto simp: transition_run_def split: if_splits)

lemma transition_step_ok:
  "transition_step p new e = Inr (p', evs) \<Longrightarrow>
     p' = p\<lparr>step_status := new\<rparr> \<and> new \<in> set (allowed STEP_TRANSITIONS (step_status p))"
  by (auto simp: transition_step_def split: if_splits)

section \<open>Machines given by a table\<close>

inductive table_reach :: "('s \<times> 's list) list \<Rightarrow> 's \<Rightarrow> 's \<Rightarrow> bool" for table where
  reach_refl: "table_reach table s s"
| reach_step: "table_reach table s t \<Longrightarrow> u \<in> set (allowed table t) \<Longrightarrow> table_reach table s u"

inductive_simps table_reach_from: "table_reach table s t"

locale status_machine =
  fixes table :: "('s \<times> 's list) list"
  assumes keys_distinct: "distinct (map fst table)"
    and targets_are_keys: "ts \<in> set (map snd table) \<Longrightarrow> t \<in> set ts \<Longrightarrow> t \<in> set (map fst table)"
begin

lemma allowed_row: "(s, ts) \<in> set table \<Longrightarrow> allowed table s = ts"
  using keys_distinct by (simp add: allowed_def)

lemma allowed_target_row:
  assumes "t \<in> set (allowed table s)"
  shows "\<exists>ts \<in> set (map snd table). t \<in> set ts"
proof -
  from assms obtain ts where "map_of table s = Some ts" "t \<in> set ts"
    by (cases "map_of table s") (auto simp: allowed_def)
  then show ?thesis by (force dest: map_of_SomeD)
qed

lemma allowed_is_key: "t \<in> set (allowed table s) \<Longrightarrow> t \<in> set (map fst table)"
  using targets_are_keys allowed_target_row by blast

lemma reach_trans: "table_reach table t u \<Longrightarrow> table_reach table s t \<Longrightarrow> table_reach table s u"
  by (induction rule: table_reach.induct) (auto intro: table_reach.intros)

lemma stuck_when_terminal: "table_reach table s t \<Longrightarrow> allowed table s = [] \<Longrightarrow> t = s"
  by (induction rule: table_reach.induct) auto

lemma reach_stays_in_table:
  "table_reach table s t \<Longrightarrow> s \<in> set (map fst table) \<Longrightarrow> t \<in> set (map fst table)"
  by (induction rule: table_reach.induct) (auto dest: allowed_is_key)

lemma never_entered:
  "table_reach table s t \<Longrightarrow> \<forall>ts \<in> set (map snd table). bad \<notin> set ts \<Longrightarrow> s \<noteq> bad \<Longrightarrow> t \<noteq> bad"
  by (induction rule: table_reach.induct) (use allowed_target_row in blast)+

end

interpretation run_machine: status_machine RUN_TRANSITIONS
  by unfold_locales (auto simp: RUN_TRANSITIONS_def)

interpretation step_machine: status_machine STEP_TRANSITIONS
  by unfold_locales (auto simp: STEP_TRANSITIONS_def)

section \<open>Properties\<close>

text \<open>Any sequence of attempted changes of one row: a refused attempt raises and leaves the row as
  it was.\<close>

fun run_history :: "task_run \<Rightarrow> run_status list \<Rightarrow> task_run" where
  "run_history r [] = r"
| "run_history r (s # ss) =
     run_history (case transition_run r s False of Inl _ \<Rightarrow> r | Inr (r', _) \<Rightarrow> r') ss"

fun step_history :: "task_step \<Rightarrow> step_status list \<Rightarrow> task_step" where
  "step_history p [] = p"
| "step_history p (s # ss) =
     step_history (case transition_step p s False of Inl _ \<Rightarrow> p | Inr (p', _) \<Rightarrow> p') ss"

lemma run_history_reach: "table_reach RUN_TRANSITIONS (run_status r) (run_status (run_history r ss))"
proof (induction ss arbitrary: r)
  case Nil
  show ?case by (simp add: reach_refl)
next
  case (Cons s ss)
  have "table_reach RUN_TRANSITIONS (run_status r)
     (run_status (case transition_run r s False of Inl _ \<Rightarrow> r | Inr (r', _) \<Rightarrow> r'))"
    by (auto simp: transition_run_def intro: table_reach.intros)
  from run_machine.reach_trans[OF Cons.IH this] show ?case by simp
qed

lemma step_history_reach: "table_reach STEP_TRANSITIONS (step_status p) (step_status (step_history p ss))"
proof (induction ss arbitrary: p)
  case Nil
  show ?case by (simp add: reach_refl)
next
  case (Cons s ss)
  have "table_reach STEP_TRANSITIONS (step_status p)
     (step_status (case transition_step p s False of Inl _ \<Rightarrow> p | Inr (p', _) \<Rightarrow> p'))"
    by (auto simp: transition_step_def intro: table_reach.intros)
  from step_machine.reach_trans[OF Cons.IH this] show ?case by simp
qed

lemma step_history_stuck: "allowed STEP_TRANSITIONS (step_status p) = [] \<Longrightarrow> step_history p ss = p"
  by (induction ss) (auto simp: transition_step_def)

lemma unverified_reach:
  "table_reach STEP_TRANSITIONS s t \<Longrightarrow> s = SCompletedUnverified \<Longrightarrow>
     t \<in> {SCompletedUnverified, SCompleted, SPartiallyCompleted}"
  by (induction rule: table_reach.induct) (auto simp: status_tables)

text \<open>A step that is completed, partially completed, skipped or cancelled is never changed
  again, whatever changes are attempted on it; one that is completed but unverified only ever
  settles to completed or partially completed, and never re-runs.\<close>

lemma finished_step_is_final:
  "(step_status p \<in> {SCompleted, SPartiallyCompleted, SSkipped, SCancelled} \<longrightarrow> step_history p ss = p)
   \<and> (step_status p = SCompletedUnverified \<longrightarrow>
        step_status (step_history p ss) \<in> {SCompletedUnverified, SCompleted, SPartiallyCompleted})"
  using unverified_reach[OF step_history_reach, of p ss]
  by (auto intro!: step_history_stuck simp: status_tables)

definition sample_step :: "step_status \<Rightarrow> task_step" where
  "sample_step st =
     \<lparr>step_id = ''s1'', step_run_id = ''run_1'', step_workspace_id = ''ws'', step_task_id = ''t1'',
      step_type = None, step_name = None, step_depends_on = None, step_status = st,
      step_input_data = None, step_output_data = None, step_error = None, step_retry_count = 0,
      step_max_retries = 3, step_timeout_seconds = None, step_started_at = None,
      step_completed_at = None\<rparr>"

text \<open>\<open>transition_run\<close> never records a run as timed out: the change to \<open>timed_out\<close> is refused from
  every status, so a run that did not start out timed out never becomes it through the table, whatever
  is attempted (the stuck-run check writes the column directly).\<close>

lemma run_never_times_out:
  "transition_run r RTimedOut e = Inl (run_transition_error r RTimedOut)
   \<and> (run_status r \<noteq> RTimedOut \<longrightarrow> run_status (run_history r ss) \<noteq> RTimedOut)"
proof -
  have none: "\<forall>ts \<in> set (map snd RUN_TRANSITIONS). RTimedOut \<notin> set ts"
    by (simp add: RUN_TRANSITIONS_def)
  then have "RTimedOut \<notin> set (allowed RUN_TRANSITIONS (run_status r))"
    using run_machine.allowed_target_row by blast
  moreover have "run_status r \<noteq> RTimedOut \<Longrightarrow> run_status (run_history r ss) \<noteq> RTimedOut"
    using run_machine.never_entered[OF run_history_reach none] .
  ultimately show ?thesis by (auto simp: transition_run_def)
qed

definition sample_run :: "run_status \<Rightarrow> task_run" where
  "sample_run st =
     \<lparr>run_id = ''run_1'', run_plan_id = None, run_user_id = ''u'', run_workspace_id = ''ws'',
      run_status = st, run_source = ''plan'', run_execution_mode = None, run_current_step_ids = None,
      run_checkpoint = None, run_started_at = None, run_completed_at = None, run_error = None\<rparr>"

text \<open>A cancelled or archived run is final; from every other status of the table a final one
  can be reached, so no run status is a dead end that has to stay open.\<close>

lemma run_can_always_end:
  assumes "s \<in> set (map fst RUN_TRANSITIONS)"
  shows "\<exists>t. table_reach RUN_TRANSITIONS s t \<and> t \<in> {RCancelled, RArchived}
     \<and> (\<forall>u. table_reach RUN_TRANSITIONS t u \<longrightarrow> u = t)"
proof -
  have final: "table_reach RUN_TRANSITIONS t u \<Longrightarrow> t \<in> {RCancelled, RArchived} \<Longrightarrow> u = t" for t u
    by (rule run_machine.stuck_when_terminal) (auto simp: status_tables)
  have one: "t \<in> set (allowed RUN_TRANSITIONS s) \<Longrightarrow> table_reach RUN_TRANSITIONS s t" for t s
    by (rule reach_step[OF reach_refl])
  have failed: "table_reach RUN_TRANSITIONS RFailed RCancelled"
    by (rule reach_step[OF one[of RPending]]) (simp_all add: status_tables)
  have "\<exists>t. table_reach RUN_TRANSITIONS s t \<and> t \<in> {RCancelled, RArchived}"
    using assms one[of RCancelled s] one[of RArchived s] failed reach_refl[of RUN_TRANSITIONS s]
    by (auto simp: RUN_TRANSITIONS_def allowed_def)
  with final show ?thesis by blast
qed

end
