(* ===== verification/Step_Graph.thy ===== *)
theory Step_Graph
  imports Governor Execution_State
begin

text \<open>
  The step DAG of a run: \<open>backend/src/services/step_graph_store.py\<close> (building the steps of a
  plan, the ready steps, references between steps, checkpoints), the pure helpers of
  \<open>services/execution_support.py\<close>, the UI status map of \<open>contracts/__init__.py\<close> and the
  user-action rules of \<open>services/user_action_steps.py\<close>. The rows of a run are its steps in
  \<open>created_at\<close> order. The pre-built context pack of \<open>populate_steps\<close> is left out (it only
  reads), as are log lines.
\<close>

section \<open>Helpers\<close>

definition compute_retry_delay :: "nat \<Rightarrow> int" where
  "compute_retry_delay retry_count = min (2 ^ retry_count) 30"

definition is_auth_required :: "json \<Rightarrow> bool" where
  "is_auth_required v = (is_obj v \<and> jget (obj_items v) ''error_code'' = JStr ''auth_required'')"

definition detect_auth_required :: "json \<Rightarrow> jdict option" where
  "detect_auth_required output =
     (if \<not> is_obj output then None
      else
        (let nested = jget (obj_items output) ''auth_required''
         in if is_auth_required nested then Some (obj_items nested)
            else if is_auth_required output then Some (obj_items output)
            else None))"

definition STEP_STATUS_TO_UI :: "(string \<times> string) list" where
  "STEP_STATUS_TO_UI =
    [(''pending'', ''pending''),
     (''ready'', ''pending''),
     (''running'', ''executing''),
     (''completed'', ''completed''),
     (''completed_unverified'', ''completed_unverified''),
     (''partially_completed'', ''partially_completed''),
     (''failed'', ''failed''),
     (''skipped'', ''completed''),
     (''waiting_approval'', ''approval_needed''),
     (''awaiting_input'', ''user_action''),
     (''blocked'', ''pending''),
     (''timed_out'', ''failed''),
     (''cancelled'', ''failed'')]"

definition step_status_to_ui :: "string option \<Rightarrow> string" where
  "step_status_to_ui status =
     (case status of
        None \<Rightarrow> ''pending''
      | Some s \<Rightarrow> if s = [] then ''pending''
                  else case map_of STEP_STATUS_TO_UI s of Some u \<Rightarrow> u | None \<Rightarrow> ''pending'')"

definition UI_STATUSES :: "string list" where
  "UI_STATUSES = [''pending'', ''executing'', ''completed'', ''completed_unverified'', ''partially_completed'',
     ''failed'', ''approval_needed'', ''user_action'']"

record step_state =
  ss_step_id :: string
  ss_description :: json
  ss_status :: string
  ss_duration_ms :: "int option"
  ss_started_at :: "instant option"
  ss_completed_at :: "instant option"
  ss_timeout_seconds :: "nat option"
  ss_error :: "jdict option"
  ss_retry_count :: "nat option"

definition step_to_state :: "task_step \<Rightarrow> string option \<Rightarrow> step_state" where
  "step_to_state s status_override =
     \<lparr>ss_step_id = step_id s,
      ss_description =
        (case step_name s of
           Some n \<Rightarrow> if n \<noteq> [] then JStr n
             else jget_default (dict_or_empty (step_input_data s)) ''capability'' (JStr (step_task_id s))
         | None \<Rightarrow> jget_default (dict_or_empty (step_input_data s)) ''capability'' (JStr (step_task_id s))),
      ss_status = str_or status_override (step_status_to_ui (Some (step_status_text (step_status s)))),
      ss_duration_ms =
        (case (step_completed_at s, step_started_at s) of
           (Some c, Some b) \<Rightarrow> Some ((c - b) div 1000) | _ \<Rightarrow> None),
      ss_started_at = step_started_at s, ss_completed_at = step_completed_at s,
      ss_timeout_seconds = step_timeout_seconds s, ss_error = step_error s,
      ss_retry_count = (if step_retry_count s > 0 then Some (step_retry_count s) else None)\<rparr>"

section \<open>Building the graph\<close>

definition task_deps :: "plan_task \<Rightarrow> json list" where
  "task_deps t = (case pt_depends_on t of JList xs \<Rightarrow> xs | _ \<Rightarrow> [])"

definition opt_json :: "string option \<Rightarrow> json" where
  "opt_json x = (case x of None \<Rightarrow> JNull | Some s \<Rightarrow> JStr s)"

definition build_graph_definition :: "plan_task list \<Rightarrow> jdict" where
  "build_graph_definition tasks =
     [(''nodes'', JList (map (\<lambda>t. JObj [(''task_id'', JStr (pt_task_id t)),
                                        (''task_type'', opt_json (pt_task_type t))]) tasks)),
      (''edges'', JList (concat (map (\<lambda>t. map (\<lambda>d. JObj [(''from'', d), (''to'', JStr (pt_task_id t))])
                                         (task_deps t)) tasks)))]"

text \<open>\<open>task_id_to_step_id\<close>: one fresh identifier per task, the last of equal task ids winning.\<close>

definition task_step_ids :: "(nat \<Rightarrow> string) \<Rightarrow> plan_task list \<Rightarrow> (string \<times> string) list" where
  "task_step_ids ulid tasks =
     rev (zip (map pt_task_id tasks) (map (\<lambda>i. ''step_'' @ ulid i) [0..<length tasks]))"

definition step_of_task :: "(string \<times> string) list \<Rightarrow> task_run \<Rightarrow> plan_task \<Rightarrow> task_step" where
  "step_of_task ids run t =
     (let sid = (case map_of ids (pt_task_id t) of Some s \<Rightarrow> s | None \<Rightarrow> []);
          deps = concat (map (\<lambda>d. case as_str d of
                    None \<Rightarrow> []
                  | Some n \<Rightarrow> (case map_of ids n of Some s \<Rightarrow> [s] | None \<Rightarrow> [])) (task_deps t));
          input0 = dict_or_empty (pt_input_data t);
          input = (if str_or (pt_task_type t) [] \<noteq> [] \<and> ''task_type'' \<notin> fst ` set input0
                   then input0 @ [(''task_type'', opt_json (pt_task_type t))] else input0);
          name = jor (jor (jget input ''description'') (opt_json (pt_task_type t))) (jget input ''capability'')
      in \<lparr>step_id = sid, step_run_id = run_id run, step_workspace_id = run_workspace_id run,
          step_task_id = pt_task_id t, step_type = pt_task_type t, step_name = as_str name,
          step_depends_on = (if deps = [] then None else Some deps), step_status = SPending,
          step_input_data = (if input = [] then None else Some input), step_output_data = None,
          step_error = None, step_retry_count = 0, step_max_retries = 3, step_timeout_seconds = None,
          step_started_at = None, step_completed_at = None\<rparr>)"

definition populate_steps :: "(nat \<Rightarrow> string) \<Rightarrow> task_run \<Rightarrow> plan_task list \<Rightarrow> task_step list" where
  "populate_steps ulid run tasks = map (step_of_task (task_step_ids ulid tasks) run) tasks"

section \<open>Ready steps\<close>

definition completed_ids :: "task_step list \<Rightarrow> string list" where
  "completed_ids steps = map step_id (filter (\<lambda>s. step_status s \<in> set TERMINAL_SUCCESS) steps)"

definition deps_done :: "task_step list \<Rightarrow> task_step \<Rightarrow> bool" where
  "deps_done steps s = list_all (\<lambda>d. d \<in> set (completed_ids steps)) (opt_or (step_depends_on s) [])"

text \<open>One step of the loop: is it ready, and the row after it.\<close>

definition ready_step :: "task_step list \<Rightarrow> task_step \<Rightarrow> bool \<times> task_step" where
  "ready_step steps s =
     (if step_status s = SReady then (True, s)
      else if step_status s = SRunning then (True, s)
      else if step_status s = SPending \<and> deps_done steps s then
        (case transition_step s SReady False of Inr (s', _) \<Rightarrow> (True, s') | Inl _ \<Rightarrow> (False, s))
      else (False, s))"

definition get_ready_steps :: "task_step list \<Rightarrow> task_step list \<times> task_step list" where
  "get_ready_steps steps =
     (map snd (filter fst (map (ready_step steps) steps)), map (\<lambda>s. snd (ready_step steps s)) steps)"

section \<open>References between steps\<close>

text \<open>\<open>str.partition(sep)\<close>: \<open>None\<close> when the separator does not occur.\<close>

fun str_partition :: "string \<Rightarrow> string \<Rightarrow> (string \<times> string) option" where
  "str_partition sep [] = (if sep = [] then Some ([], []) else None)"
| "str_partition sep (c # s) =
     (if starts_with sep (c # s) then Some ([], drop (length sep) (c # s))
      else map_option (\<lambda>(a, b). (c # a, b)) (str_partition sep s))"

definition REF_SEP :: string where
  "REF_SEP = ''}.output.''"

definition outputs_by_task :: "task_step list \<Rightarrow> (string \<times> jdict) list" where
  "outputs_by_task steps =
     rev (concat (map (\<lambda>s. case step_output_data s of
        Some d \<Rightarrow> if d = [] then [] else [(step_task_id s, d)] | None \<Rightarrow> []) steps))"

definition resolve_value :: "(string \<times> jdict) list \<Rightarrow> json \<Rightarrow> json" where
  "resolve_value outputs value =
     (case value of
        JStr (c # rest) \<Rightarrow>
          if c = CHR ''{'' then
            (case str_partition REF_SEP rest of
               None \<Rightarrow> value
             | Some (ref, field) \<Rightarrow>
                 (case map_of outputs ref of
                    None \<Rightarrow> value
                  | Some source \<Rightarrow> (case map_of source field of None \<Rightarrow> value | Some v \<Rightarrow> v)))
          else value
      | _ \<Rightarrow> value)"

definition resolve_step_references :: "task_step list \<Rightarrow> task_step \<Rightarrow> jdict" where
  "resolve_step_references steps s =
     map (\<lambda>(k, v). (k, resolve_value (outputs_by_task steps) v)) (dict_or_empty (step_input_data s))"

section \<open>Checkpoints\<close>

text \<open>\<open>py_str\<close> is \<open>str(...)\<close> of an output dictionary, \<open>iso\<close> the ISO text of an instant.\<close>

definition completed_outputs :: "(jdict \<Rightarrow> string) \<Rightarrow> task_step list \<Rightarrow> jdict" where
  "completed_outputs py_str steps =
     map (\<lambda>s. (step_id s, JObj
       [(''task_id'', JStr (step_task_id s)), (''status'', JStr (step_status_text (step_status s))),
        (''output_summary'', (case step_output_data s of
            Some d \<Rightarrow> if d = [] then JNull else JStr (py_str d) | None \<Rightarrow> JNull))]))
       (filter (\<lambda>s. step_status s \<in> set TERMINAL_SUCCESS) steps)"

definition run_snapshot :: "(jdict \<Rightarrow> string) \<Rightarrow> string \<Rightarrow> task_run \<Rightarrow> task_step list \<Rightarrow> jdict" where
  "run_snapshot py_str iso_now run steps =
     [(''status'', JStr (run_status_text (run_status run))),
      (''current_step_ids'', (case run_current_step_ids run of
          None \<Rightarrow> JNull | Some ids \<Rightarrow> JList (map JStr ids))),
      (''completed_steps'', JObj (completed_outputs py_str steps)),
      (''checkpoint_at'', JStr iso_now)]"

definition checkpoint ::
  "(jdict \<Rightarrow> string) \<Rightarrow> string \<Rightarrow> task_run \<Rightarrow> task_step list \<Rightarrow> string option \<Rightarrow> string \<Rightarrow> task_run \<times> task_checkpoint" where
  "checkpoint py_str iso_now run steps sid reason =
     (let snapshot = run_snapshot py_str iso_now run steps
      in (run\<lparr>run_checkpoint := Some (dict_merge (dict_or_empty (run_checkpoint run)) snapshot)\<rparr>,
          \<lparr>ckpt_run_id = run_id run, ckpt_workspace_id = run_workspace_id run, ckpt_step_id = sid,
           ckpt_reason = reason, ckpt_state_snapshot = snapshot\<rparr>))"

section \<open>Steps the founder performs\<close>

definition USER_ACTION_TASK_TYPE :: string where
  "USER_ACTION_TASK_TYPE = ''user_action''"

definition is_user_action_step :: "task_step \<Rightarrow> bool" where
  "is_user_action_step s =
     (step_type s = Some USER_ACTION_TASK_TYPE
      \<or> jget (dict_or_empty (step_input_data s)) ''task_type'' = JStr USER_ACTION_TASK_TYPE)"

definition OTHER_WAITS :: "string list" where
  "OTHER_WAITS = [''waiting_approval'', ''awaiting_input'', ''awaiting_reauth'']"

definition STILL_MOVING :: "step_status list" where
  "STILL_MOVING = [SPending, SReady, SRunning]"

text \<open>\<open>park_if_blocked_on_founder\<close>: the run, and whether it was parked.\<close>

definition park_if_blocked_on_founder :: "task_run \<Rightarrow> task_step list \<Rightarrow> bool \<times> task_run" where
  "park_if_blocked_on_founder run steps =
     (if \<not> list_ex (\<lambda>s. is_user_action_step s \<and> step_status s = SSkipped) steps then (False, run)
      else if list_ex (\<lambda>s. step_status_text (step_status s) \<in> set OTHER_WAITS) steps then (False, run)
      else if \<not> list_ex (\<lambda>s. step_status s \<in> set STILL_MOVING) steps then (False, run)
      else if run_status run \<noteq> RRunning then (False, run)
      else (case transition_run run RAwaitingInput False of
              Inr (run', _) \<Rightarrow> (True, run') | Inl _ \<Rightarrow> (False, run)))"

section \<open>Facts\<close>

lemma ready_step_eq:
  "ready_step steps s =
     (step_status s \<in> {SReady, SRunning} \<or> step_status s = SPending \<and> deps_done steps s,
      if step_status s = SPending \<and> deps_done steps s then s\<lparr>step_status := SReady\<rparr> else s)"
  by (auto simp: ready_step_def transition_step_def status_tables)

lemma get_ready_steps_rows:
  "snd (get_ready_steps steps) =
     map (\<lambda>s. if step_status s = SPending \<and> deps_done steps s then s\<lparr>step_status := SReady\<rparr> else s) steps"
  by (simp add: get_ready_steps_def ready_step_eq)

lemma in_ready_steps:
  "r \<in> set (fst (get_ready_steps steps)) \<longleftrightarrow>
     (\<exists>s \<in> set steps. r = (if step_status s = SPending then s\<lparr>step_status := SReady\<rparr> else s)
        \<and> (step_status s \<in> {SReady, SRunning} \<or> step_status s = SPending \<and> deps_done steps s))"
  unfolding get_ready_steps_def fst_conv ready_step_eq by (auto split: if_splits) force+

lemma completed_ids_relabel:
  "completed_ids (map (\<lambda>s. if step_status s = SPending \<and> D s then s\<lparr>step_status := SReady\<rparr> else s) steps)
     = completed_ids steps"
  by (induction steps) (auto simp: completed_ids_def TERMINAL_SUCCESS_def)

lemma completed_ids_ready [simp]: "completed_ids (snd (get_ready_steps steps)) = completed_ids steps"
  by (simp add: get_ready_steps_rows completed_ids_relabel)

lemma jget_dict_merge:
  "jget (dict_merge a b) k = (if k \<in> fst ` set b then jget (rev b) k else jget a k)"
proof (induction b arbitrary: a)
  case Nil
  then show ?case by (simp add: dict_merge_def)
next
  case (Cons x b)
  obtain i v where x: "x = (i, v)" by (cases x)
  have m: "map_of (rev b @ [(i, v)]) k = (case map_of (rev b) k of None \<Rightarrow> if k = i then Some v else None | Some w \<Rightarrow> Some w)"
    by (auto simp: map_of_append map_add_def split: option.split)
  have "dict_merge a ((i, v) # b) = dict_merge (AList.update i v a) b" by (simp add: dict_merge_def)
  then show ?case
    using Cons.IH[of "AList.update i v a"]
    by (auto simp: x jget_def table_simps m split: option.splits)
      (metis map_of_eq_None_iff option.distinct(1) set_rev fst_conv image_eqI)+
qed

end
