(* ===== verification/Verification.thy ===== *)
theory Verification
  imports Capabilities Execution_State "HOL-Library.List_Lexorder" "HOL-Library.Char_ord"
begin

text \<open>
  \<open>backend/src/services/verification\<close>: enforced read-back. A write's effect is read back
  before its step becomes terminal; the verdict decides the terminal status. The connector read
  is a parameter \<open>read_fn\<close> (\<open>None\<close>: no seam; a result \<open>Inl ()\<close>: it raised), as in the code,
  where it is injected.
\<close>

section \<open>Verdicts\<close>

datatype verify_verdict = Confirmed | Contradicted | Unverified

fun verdict_text :: "verify_verdict \<Rightarrow> string" where
  "verdict_text Confirmed = ''confirmed''"
| "verdict_text Contradicted = ''contradicted''"
| "verdict_text Unverified = ''unverified''"

fun verdict_to_step_status :: "verify_verdict \<Rightarrow> step_status" where
  "verdict_to_step_status Confirmed = SCompleted"
| "verdict_to_step_status Contradicted = SPartiallyCompleted"
| "verdict_to_step_status Unverified = SCompletedUnverified"

section \<open>Post-conditions\<close>

type_synonym read_fn = "string \<Rightarrow> jdict \<Rightarrow> unit + json"

record post_condition =
  pc_read_capability :: string
  pc_read_args :: "jdict \<Rightarrow> jdict \<Rightarrow> jdict"
  pc_assertion :: "json \<Rightarrow> jdict \<Rightarrow> jdict \<Rightarrow> bool"

definition created_id :: "jdict \<Rightarrow> json" where
  "created_id write_output = jor (jget write_output ''event_id'') (jget write_output ''id'')"

text \<open>\<open>_event_created\<close>. Identifiers are strings; equality of JSON values stands for \<open>==\<close>.\<close>

definition event_created :: "json \<Rightarrow> jdict \<Rightarrow> jdict \<Rightarrow> bool" where
  "event_created read_result write_input write_output =
     (if \<not> truthy (created_id write_output) then False
      else
        (let items = (case read_result of JList xs \<Rightarrow> xs | v \<Rightarrow> [v])
         in list_ex (\<lambda>it. is_obj it \<and> jget (obj_items it) ''id'' = created_id write_output) items))"

definition calendar_create_post_condition :: post_condition where
  "calendar_create_post_condition =
     \<lparr>pc_read_capability = ''calendar.get'',
      pc_read_args = (\<lambda>write_input write_output.
        [(''event_id'', created_id write_output), (''calendar_id'', jget write_input ''calendar_id'')]),
      pc_assertion = event_created\<rparr>"

definition POST_CONDITIONS :: "(string \<times> post_condition) list" where
  "POST_CONDITIONS = [(''calendar.create'', calendar_create_post_condition)]"

definition UNVERIFIABLE_CAPABILITIES :: "string list" where
  "UNVERIFIABLE_CAPABILITIES =
    [''email.send'', ''email.reply'', ''email.delete'', ''calendar.update'',
     ''calendar.delete'', ''repo.create_pr'', ''repo.merge_pr'', ''repo.update_pr'',
     ''repo.review_pr'', ''issue.create'', ''issue.update'', ''issue.comment'',
     ''issue.delete'', ''issue.transition'', ''issue.sub_issue'', ''doc.create'',
     ''doc.update'', ''doc.delete'', ''doc.comment'', ''doc.append'', ''doc.move'',
     ''doc.update_block'', ''doc.delete_block'', ''doc.create_datasource'',
     ''doc.update_datasource'', ''doc.drive_create'', ''doc.drive_delete'',
     ''workflow.create_issue'', ''workflow.update_issue'', ''workflow.transition'',
     ''workflow.comment'', ''workflow.delete'', ''workflow.create_issues'',
     ''workflow.bulk_update'', ''workflow.update_comment'', ''workflow.delete_comment'',
     ''workflow.resolve_comment'', ''workflow.unresolve_comment'',
     ''workflow.create_project'', ''workflow.create_milestone'',
     ''workflow.update_milestone'', ''workflow.delete_milestone'',
     ''workflow.create_customer_need'', ''messaging.send'', ''messaging.reply'',
     ''messaging.react'', ''messaging.update'', ''messaging.send_template'',
     ''messaging.post'', ''messaging.share'']"

definition coverage_error :: "string \<Rightarrow> string" where
  "coverage_error c = ''IRREVERSIBLE capability '' @ [CHR 0x27] @ c @ [CHR 0x27] @
     '' has no registered post-condition (add a PostCondition to POST_CONDITIONS or mark it UNVERIFIABLE)''"

text \<open>The startup gate: one error per irreversible capability without a registered read-back.\<close>

definition validate_post_condition_coverage :: "string list \<Rightarrow> string list" where
  "validate_post_condition_coverage caps =
     (let registered = map fst POST_CONDITIONS @ UNVERIFIABLE_CAPABILITIES
      in map coverage_error
           (filter (\<lambda>c. is_irreversible_capability c \<and> c \<notin> set registered) (sort (remdups caps))))"

section \<open>The verifier\<close>

definition verify_step ::
  "read_fn option \<Rightarrow> string \<Rightarrow> jdict \<Rightarrow> jdict \<Rightarrow> risk_assessment option \<Rightarrow> verify_verdict" where
  "verify_step read_fn capability write_input write_output risk =
     (if \<not> is_write_verification_required capability risk then Confirmed
      else case map_of POST_CONDITIONS capability of
          None \<Rightarrow> Unverified
        | Some pc \<Rightarrow>
            (case read_fn of
               None \<Rightarrow> Unverified
             | Some f \<Rightarrow>
                 (case f (pc_read_capability pc) (pc_read_args pc write_input write_output) of
                    Inl _ \<Rightarrow> Unverified
                  | Inr read_result \<Rightarrow>
                      (if pc_assertion pc read_result write_input write_output then Confirmed
                       else Contradicted))))"

datatype inflight_resolution = AlreadyDone | Escalate

definition resolve_inflight_on_resume :: "verify_verdict \<Rightarrow> inflight_resolution" where
  "resolve_inflight_on_resume v = (if v = Confirmed then AlreadyDone else Escalate)"

section \<open>Compensation\<close>

record compensation =
  co_capability :: string
  co_build_input :: "jdict \<Rightarrow> jdict"
  co_description :: string

definition COMPENSATIONS :: "(string \<times> compensation) list" where
  "COMPENSATIONS =
    [(''calendar.create'',
      \<lparr>co_capability = ''calendar.delete'',
       co_build_input = (\<lambda>artifact_ref.
         [(''event_id'', jor (jget artifact_ref ''event_id'') (jget artifact_ref ''id''))]),
       co_description = ''Delete the calendar event that the read-back could not confirm.''\<rparr>)]"

definition get_compensation :: "string \<Rightarrow> compensation option" where
  "get_compensation c = map_of COMPENSATIONS c"

definition build_divergence_escalation :: "string \<Rightarrow> jdict \<Rightarrow> string \<Rightarrow> jdict" where
  "build_divergence_escalation capability artifact_ref observed =
     (let compensator =
        (case get_compensation capability of
           None \<Rightarrow> JNull
         | Some act \<Rightarrow>
             JObj [(''capability'', JStr (co_capability act)),
                   (''input'', JObj (co_build_input act artifact_ref)),
                   (''description'', JStr (co_description act))])
      in [(''capability'', JStr capability), (''artifact_ref'', JObj artifact_ref),
          (''observed'', JStr observed), (''compensator'', compensator)])"

section \<open>What the verdicts mean\<close>

lemma coverage_ok_iff:
  "validate_post_condition_coverage caps = [] \<longleftrightarrow>
     list_all (\<lambda>c. is_irreversible_capability c \<longrightarrow>
       c \<in> set (map fst POST_CONDITIONS @ UNVERIFIABLE_CAPABILITIES)) caps"
  by (auto simp: validate_post_condition_coverage_def Let_def list_all_iff filter_empty_conv)

lemma verdict_status_terminal:
  "verdict_to_step_status v \<in> set TERMINAL_SUCCESS \<longleftrightarrow> v \<noteq> Contradicted"
  by (cases v) (auto simp: TERMINAL_SUCCESS_def)

lemma verdict_status_allowed: "verdict_to_step_status v \<in> set (allowed STEP_TRANSITIONS SRunning)"
  by (cases v) (auto simp: status_tables)

lemma verification_not_required_confirms:
  "\<not> is_write_verification_required c risk \<Longrightarrow> verify_step rf c wi wo risk = Confirmed"
  by (simp add: verify_step_def)

lemma catalog_rows_covered:
  "list_all (\<lambda>(c, m). cm_read_only m \<or> c \<in> set REVERSIBLE_INTERNAL_CAPABILITIES
     \<or> c \<in> set (map fst POST_CONDITIONS @ UNVERIFIABLE_CAPABILITIES)) CAPABILITY_CATALOG"
  by code_simp

text \<open>A write is reported confirmed only if nothing had to be verified or a registered read
  ran and its assertion held on what it returned; it is reported contradicted only if such a
  read ran and the assertion failed. A missing read, a missing seam or a read that raises gives
  neither.\<close>

lemma verify_step_verdicts:
  "(verify_step rf c wi wo risk = Confirmed \<longleftrightarrow>
      (if is_write_verification_required c risk
       then \<exists>pc f res. map_of POST_CONDITIONS c = Some pc \<and> rf = Some f
            \<and> f (pc_read_capability pc) (pc_read_args pc wi wo) = Inr res
            \<and> pc_assertion pc res wi wo
       else True))
   \<and> (verify_step rf c wi wo risk = Contradicted \<longleftrightarrow>
      is_write_verification_required c risk
      \<and> (\<exists>pc f res. map_of POST_CONDITIONS c = Some pc \<and> rf = Some f
            \<and> f (pc_read_capability pc) (pc_read_args pc wi wo) = Inr res
            \<and> \<not> pc_assertion pc res wi wo))"
  by (auto simp: verify_step_def split: option.splits sum.splits)

text \<open>Fail-closed: a capability that is in no list is a write that must be verified whatever
  the risk assessment says, and it never becomes a confirmed step.\<close>

lemma unlisted_capability_never_confirmed:
  assumes "catalog_meta c = None" and "c \<notin> set REVERSIBLE_INTERNAL_CAPABILITIES"
    and "c \<noteq> ''calendar.create''"
  shows "is_write_verification_required c risk
     \<and> verdict_to_step_status (verify_step rf c wi wo risk) = SCompletedUnverified"
  using assms
  by (auto simp: is_write_verification_required_def is_irreversible_capability_def
      unlisted_is_not_read_only verify_step_def POST_CONDITIONS_def)

text \<open>The shipped catalog passes the startup gate: every irreversible write has a read-back or
  is an audited exception.\<close>

lemma read_backs_cover: "validate_post_condition_coverage write_capabilities = []"
proof -
  have "c \<in> set (map fst POST_CONDITIONS @ UNVERIFIABLE_CAPABILITIES)"
    if "c \<in> set write_capabilities" "is_irreversible_capability c" for c
    using irreversible_catalog_row[OF that] catalog_rows_covered by (fastforce simp: list_all_iff)
  then show ?thesis by (simp add: coverage_ok_iff list_all_iff)
qed

end
