(* ===== verification/Run_World.thy ===== *)
theory Run_World
  imports Step_Graph Verification
begin

text \<open>
  What a step of a run does to the database besides the gate decision: the approval pause and the
  trust feedback of \<open>backend/src/services/trust_gate.py\<close>, the deferral of
  \<open>services/reauth_service.py\<close>, and the failure, finalisation and escalation helpers of
  \<open>services/dag_runner.py\<close>. The state is a record of the rows on the run's session; a computation
  may raise and keeps what it changed. Everything outside the repository's own code is in the
  record of services: the model's risk answer, the executor agent's outcome for the n-th action,
  the connector read-back, the clock, identifiers and the texts made from them. Surface updates,
  notifications and log lines are left out; the actions sent to the executor are kept as a list.
\<close>

section \<open>Services and state\<close>

datatype action_outcome =
    ActOutput jdict
  | ActTimeout
  | ActCancelled
  | ActAuthRequired (auth_provider: string) (auth_server: string)
  | ActError string

record services =
  sv_trust_engine :: bool
  sv_presence :: string
  sv_reauth :: bool
  sv_verifier :: "(string \<times> pyfloat \<times> string) option option" \<comment> \<open>none wired; raises; verdict, score, details\<close>
  sv_risk :: "string \<Rightarrow> jdict \<Rightarrow> string \<Rightarrow> string \<Rightarrow> risk_assessment option"
  sv_action :: "nat \<Rightarrow> task_step \<Rightarrow> task_run \<Rightarrow> bool \<Rightarrow> action_outcome"
  sv_readback :: read_fn
  sv_provider_for_server :: "string \<Rightarrow> string"
  sv_classify :: "string \<Rightarrow> string \<times> string"
  sv_correlation :: string
  sv_refresh :: "task_run \<Rightarrow> task_run"
  sv_now :: instant
  sv_iso_now :: string
  sv_elapsed_ms :: nat
  sv_ulid :: "nat \<Rightarrow> string"
  sv_py_str :: "jdict \<Rightarrow> string"

text \<open>A call of the executor: for which step, and with its capability pre-approved or withheld.\<close>

record action_call =
  ac_step_id :: string
  ac_pre_approved :: bool

record world =
  w_run :: task_run
  w_steps :: "task_step list"
  w_checkpoints :: "task_checkpoint list"
  w_approvals :: "approval list"
  w_trust :: trust_db
  w_events :: "domain_event list"
  w_actions :: "action_call list"
  w_needs_reauth :: "string list"

datatype dag_exn =
    TransitionRefused transition_error
  | CancellationRequested
  | ApprovalRefused string
  | RowGone string

type_synonym 'a dag = "(world, dag_exn, 'a) engine"

section \<open>Rows of the run\<close>

definition emit :: "string \<Rightarrow> jdict \<Rightarrow> unit dag" where
  "emit t payload =
     modify (\<lambda>w. w\<lparr>w_events := w_events w @ [\<lparr>ev_type = t, ev_user_id = run_user_id (w_run w), ev_payload = payload\<rparr>]\<rparr>)"

definition get_step :: "string \<Rightarrow> task_step dag" where
  "get_step sid = (\<lambda>w. case row_find step_id sid (w_steps w) of
     None \<Rightarrow> (Inl (RowGone sid), w) | Some s \<Rightarrow> (Inr s, w))"

definition set_step :: "string \<Rightarrow> (task_step \<Rightarrow> task_step) \<Rightarrow> unit dag" where
  "set_step sid f = modify (\<lambda>w. w\<lparr>w_steps := row_update step_id sid f (w_steps w)\<rparr>)"

definition set_run :: "(task_run \<Rightarrow> task_run) \<Rightarrow> unit dag" where
  "set_run f = modify (\<lambda>w. w\<lparr>w_run := f (w_run w)\<rparr>)"

definition move_step :: "string \<Rightarrow> step_status \<Rightarrow> unit dag" where
  "move_step sid new =
     andthen (get_step sid) (\<lambda>s.
       case transition_step s new False of
         Inl e \<Rightarrow> raise (TransitionRefused e)
       | Inr _ \<Rightarrow> set_step sid (\<lambda>s. s\<lparr>step_status := new\<rparr>))"

definition move_run :: "run_status \<Rightarrow> unit dag" where
  "move_run new =
     andthen get (\<lambda>w.
       case transition_run (w_run w) new False of
         Inl e \<Rightarrow> raise (TransitionRefused e)
       | Inr _ \<Rightarrow> set_run (\<lambda>r. r\<lparr>run_status := new\<rparr>))"

definition save_checkpoint :: "services \<Rightarrow> string option \<Rightarrow> string \<Rightarrow> unit dag" where
  "save_checkpoint sv sid reason =
     modify (\<lambda>w.
       let (run', c) = checkpoint (sv_py_str sv) (sv_iso_now sv) (w_run w) (w_steps w) sid reason
       in w\<lparr>w_run := run', w_checkpoints := w_checkpoints w @ [c]\<rparr>)"

text \<open>The capability a step declares; a value that is not a string reads as the empty one.\<close>

definition step_capability :: "string \<Rightarrow> task_step \<Rightarrow> string" where
  "step_capability dflt s =
     (let d = dict_or_empty (step_input_data s)
      in jstr (jget_default d ''capability'' (jget_default d ''task_type'' (JStr dflt))))"

definition safe_error_fields :: "services \<Rightarrow> string \<Rightarrow> jdict" where
  "safe_error_fields sv err =
     (let (code, message) = sv_classify sv err
      in [(''message'', JStr message), (''error_code'', JStr code), (''correlation_id'', JStr (sv_correlation sv))])"

section \<open>The gate's helpers\<close>

definition assess_step_risk :: "services \<Rightarrow> string \<Rightarrow> task_step \<Rightarrow> task_run \<Rightarrow> risk_assessment" where
  "assess_step_risk sv capability s run =
     (case sv_risk sv capability (dict_or_empty (step_input_data s)) (run_user_id run) (run_workspace_id run) of
        Some r \<Rightarrow> r
      | None \<Rightarrow>
          \<lparr>ra_risk_level = ''high'',
           ra_reasoning = ''Fallback '' @ em_dash @ '' risk assessment unavailable, failing closed to high'',
           ra_reversible = False, ra_blast_radius = ''self''\<rparr>)"

definition resolve_confirmation :: "string \<Rightarrow> string" where
  "resolve_confirmation presence = (if presence = ''present'' then ''interrupt'' else ''prepare'')"

definition approval_artifacts :: "string \<Rightarrow> task_step \<Rightarrow> risk_assessment \<Rightarrow> jdict" where
  "approval_artifacts capability s risk =
     [(''capability'', JStr capability),
      (''step_name'', JStr (str_or (step_name s) capability)),
      (''description'', jor (jget (dict_or_empty (step_input_data s)) ''description'') (JStr [])),
      (''reversible'', JBool (ra_reversible risk)),
      (''blast_radius'', JStr (ra_blast_radius risk))]"

text \<open>After the approval is created: pause the step and the run, checkpoint, announce.\<close>

definition pause_for_approval ::
  "services \<Rightarrow> string \<Rightarrow> string \<Rightarrow> risk_assessment \<Rightarrow> policy_decision \<Rightarrow> approval \<Rightarrow> unit dag" where
  "pause_for_approval sv sid capability risk decision a =
     andthen (modify (\<lambda>w. w\<lparr>w_approvals := w_approvals w @ [a]\<rparr>)) (\<lambda>_.
     andthen (move_step sid SRunning) (\<lambda>_.
     andthen (move_step sid SWaitingApproval) (\<lambda>_.
     andthen get (\<lambda>w.
     andthen (if run_status (w_run w) \<noteq> RAwaitingApproval then move_run RAwaitingApproval else ret ()) (\<lambda>_.
     andthen (save_checkpoint sv (Some sid) ''approval_gate'') (\<lambda>_.
     emit ''approval_requested''
       [(''run_id'', JStr (run_id (w_run w))), (''step_id'', JStr sid),
        (''approval_id'', JStr (ap_approval_id a)), (''capability'', JStr capability),
        (''risk_level'', JStr (ra_risk_level risk)),
        (''trust_decision'', JStr (pd_decision decision))]))))))"

definition step_approval ::
  "services \<Rightarrow> string \<Rightarrow> string \<Rightarrow> risk_assessment \<Rightarrow> policy_decision \<Rightarrow> task_step \<Rightarrow> world \<Rightarrow> string + approval \<times> approval list" where
  "step_approval sv sid capability risk decision s w =
     (let run = w_run w
      in create_approval (sv_now sv) (sv_ulid sv (length (w_approvals w))) (run_user_id run)
           (run_workspace_id run) (''step:'' @ capability) (''Approve step: '' @ str_or (step_name s) capability)
           (Some (str_or (Some (pd_justification decision)) (''Trust gate: '' @ ra_reasoning risk)))
           (ra_risk_level risk) (run_id run) (Some (run_id run)) (Some sid) (run_user_id run)
           (Some (approval_artifacts capability s risk)) None (w_approvals w))"

definition create_approval_and_pause ::
  "services \<Rightarrow> string \<Rightarrow> string \<Rightarrow> risk_assessment \<Rightarrow> policy_decision \<Rightarrow> unit dag" where
  "create_approval_and_pause sv sid capability risk decision =
     andthen (get_step sid) (\<lambda>s. andthen get (\<lambda>w.
       case step_approval sv sid capability risk decision s w of
         Inl e \<Rightarrow> raise (ApprovalRefused e)
       | Inr (a, _) \<Rightarrow> pause_for_approval sv sid capability risk decision a))"

text \<open>\<open>record_auto_execution_outcome\<close> and \<open>record_user_approval_outcome\<close>: the same trust write, the
  first always with \<open>approved\<close>.\<close>

definition record_trust_outcome :: "services \<Rightarrow> string \<Rightarrow> string \<Rightarrow> string \<Rightarrow> string \<Rightarrow> unit dag" where
  "record_trust_outcome sv capability risk_level ws decision =
     (if capability = [] then ret ()
      else modify (\<lambda>w. w\<lparr>w_trust := (w_trust w)\<lparr>td_states :=
             record_approval_decision (sv_now sv) (sv_now sv) (sv_now sv) ws capability risk_level decision
               (td_states (w_trust w))\<rparr>\<rparr>))"

definition record_auto_execution_outcome :: "services \<Rightarrow> string \<Rightarrow> string \<Rightarrow> string \<Rightarrow> unit dag" where
  "record_auto_execution_outcome sv capability risk_level ws =
     record_trust_outcome sv capability risk_level ws ''approved''"

definition record_user_approval_outcome :: "services \<Rightarrow> string \<Rightarrow> string \<Rightarrow> string \<Rightarrow> string \<Rightarrow> unit dag" where
  "record_user_approval_outcome sv capability risk_level ws decision_type =
     record_trust_outcome sv capability risk_level ws decision_type"

section \<open>Re-authorisation\<close>

text \<open>\<open>defer_run\<close>, \<open>requeue_deferred_runs\<close>.\<close>

definition defer_run :: "string \<Rightarrow> unit dag" where
  "defer_run provider =
     andthen (move_run RAwaitingReauth) (\<lambda>_.
     set_run (\<lambda>r. r\<lparr>run_checkpoint :=
       Some (AList.update ''awaiting_provider'' (JStr provider) (dict_or_empty (run_checkpoint r)))\<rparr>))"

definition requeue_deferred_run :: "string \<Rightarrow> string \<Rightarrow> task_run \<Rightarrow> bool \<times> task_run" where
  "requeue_deferred_run user_id provider r =
     (if run_user_id r = user_id \<and> run_status r = RAwaitingReauth
         \<and> jget (dict_or_empty (run_checkpoint r)) ''awaiting_provider'' = JStr provider
      then (case transition_run r RPending False of
              Inl _ \<Rightarrow> (False, r)
            | Inr (r1, _) \<Rightarrow>
                (True, if run_source r1 \<in> {''background'', ''approval_resume''} then r1
                       else r1\<lparr>run_source := ''background''\<rparr>))
      else (False, r))"

definition requeue_deferred_runs :: "string \<Rightarrow> string \<Rightarrow> task_run list \<Rightarrow> nat \<times> task_run list" where
  "requeue_deferred_runs user_id provider runs =
     (let rs = map (requeue_deferred_run user_id provider) runs
      in (length (filter fst rs), map snd rs))"

text \<open>\<open>_defer_for_reauth\<close>: the result is a surfaced exception or a tool output.\<close>

datatype auth_signal = AuthException (sig_provider: string) (sig_server: string) | AuthOutput jdict

definition auth_signal_provider :: "services \<Rightarrow> auth_signal \<Rightarrow> string" where
  "auth_signal_provider sv result =
     (case result of
        AuthException provider server \<Rightarrow> str_or (Some provider) (sv_provider_for_server sv server)
      | AuthOutput d \<Rightarrow>
          (case detect_auth_required (JObj d) of
             None \<Rightarrow> []
           | Some auth \<Rightarrow>
               str_or (Some (jstr (jget auth ''provider'')))
                 (sv_provider_for_server sv (jstr (jget_default auth ''server'' (JStr []))))))"

definition defer_for_reauth :: "services \<Rightarrow> string \<Rightarrow> auth_signal \<Rightarrow> bool dag" where
  "defer_for_reauth sv sid result =
     (if \<not> sv_reauth sv then ret False
      else
        (let provider = auth_signal_provider sv result
         in if provider = [] then ret False
            else
              andthen (defer_run provider) (\<lambda>_.
              andthen (modify (\<lambda>w. w\<lparr>w_needs_reauth := w_needs_reauth w @ [provider]\<rparr>)) (\<lambda>_.
              andthen get (\<lambda>w.
              andthen (emit ''run.awaiting_reauth''
                [(''run_id'', JStr (run_id (w_run w))), (''step_id'', JStr sid), (''provider'', JStr provider)]) (\<lambda>_.
              ret True))))))"

section \<open>Failure and finalisation\<close>

definition handle_step_failure :: "services \<Rightarrow> string \<Rightarrow> string \<Rightarrow> unit dag" where
  "handle_step_failure sv sid err =
     andthen (set_step sid (\<lambda>s. s\<lparr>step_retry_count := step_retry_count s + 1\<rparr>)) (\<lambda>_.
     andthen (get_step sid) (\<lambda>s. andthen get (\<lambda>w.
       let safe = safe_error_fields sv err
       in if step_retry_count s < step_max_retries s then
            andthen (move_step sid SFailed) (\<lambda>_.
            andthen (move_step sid SPending) (\<lambda>_.
            set_step sid (\<lambda>s. s\<lparr>step_error := Some
              ([(''attempt'', JNum (of_nat (step_retry_count s)))] @ safe
               @ [(''retry_after_seconds'', JNum (of_int (compute_retry_delay (step_retry_count s))))])\<rparr>)))
          else
            andthen (move_step sid SFailed) (\<lambda>_.
            andthen (set_step sid (\<lambda>s. s\<lparr>
              step_output_data := Some ((''error'', jget safe ''message'') # tl safe),
              step_completed_at := Some (sv_now sv),
              step_error := Some (safe @ [(''final'', JBool True)])\<rparr>)) (\<lambda>_.
            emit ''step.failed''
              ([(''run_id'', JStr (run_id (w_run w))), (''step_id'', JStr sid), (''error'', jget safe ''message'')]
               @ tl safe @ [(''duration_ms'', JNum (of_nat (sv_elapsed_ms sv)))]))))))"

definition SURFACE_KEYS :: "string list" where
  "SURFACE_KEYS = [''draft'', ''report'', ''summary'', ''result'', ''view'']"

definition finalize_step :: "services \<Rightarrow> string \<Rightarrow> jdict \<Rightarrow> step_status \<Rightarrow> unit dag" where
  "finalize_step sv sid output status =
     andthen (get_step sid) (\<lambda>s. andthen get (\<lambda>w.
       let rid = JStr (run_id (w_run w))
       in andthen (emit ''tool_call_completed''
            [(''run_id'', rid), (''step_id'', JStr sid), (''tool_name'', JStr (step_capability ''unknown'' s)),
             (''duration_ms'', JNum (of_nat (sv_elapsed_ms sv)))]) (\<lambda>_.
          andthen (move_step sid status) (\<lambda>_.
          andthen (set_step sid (\<lambda>s. s\<lparr>step_output_data := Some output, step_completed_at := Some (sv_now sv)\<rparr>)) (\<lambda>_.
          andthen (save_checkpoint sv (Some sid) ''step_completed'') (\<lambda>_.
          andthen (emit ''step_completed''
            [(''run_id'', rid), (''step_id'', JStr sid), (''task_id'', JStr (step_task_id s)),
             (''duration_ms'', JNum (of_nat (sv_elapsed_ms sv))), (''status'', JStr (step_status_text status))]) (\<lambda>_.
          if list_ex (\<lambda>k. k \<in> fst ` set output) SURFACE_KEYS
          then emit ''surface_created''
            [(''run_id'', rid), (''step_id'', JStr sid), (''surface_type'', JStr ''step_output'')]
          else ret ())))))))"

definition ARTIFACT_KEYS :: "string list" where
  "ARTIFACT_KEYS = [''event_id'', ''id'', ''message_id'', ''url'', ''thread_id'']"

definition build_verification_meta ::
  "string \<Rightarrow> risk_assessment option \<Rightarrow> verify_verdict \<Rightarrow> jdict \<Rightarrow> jdict" where
  "build_verification_meta capability risk verdict out =
     [(''capability'', JStr capability),
      (''risk_level'', JStr (case risk of None \<Rightarrow> ''high'' | Some r \<Rightarrow> ra_risk_level r)),
      (''reversible'', JBool (case risk of None \<Rightarrow> False | Some r \<Rightarrow> ra_reversible r)),
      (''blast_radius'', JStr (case risk of None \<Rightarrow> ''self'' | Some r \<Rightarrow> ra_blast_radius r)),
      (''verdict'', JStr (verdict_text verdict)),
      (''attempts'', JNum 1),
      (''artifact_ref'', JObj (map (\<lambda>k. (k, jget out k)) (filter (\<lambda>k. jget out k \<noteq> JNull) ARTIFACT_KEYS)))]"

definition escalate_divergence :: "string \<Rightarrow> string \<Rightarrow> jdict \<Rightarrow> unit dag" where
  "escalate_divergence sid capability out =
     andthen get (\<lambda>w.
       let meta = obj_items (jget_default out ''verification'' (JObj []));
           artifact_ref = obj_items (jget meta ''artifact_ref'');
           escalation = build_divergence_escalation capability artifact_ref
             ''Read-back could not confirm the expected effect of this write.''
       in emit ''surface_created''
            [(''run_id'', JStr (run_id (w_run w))), (''step_id'', JStr sid),
             (''surface_type'', JStr ''verification_divergence''),
             (''preview'', JStr (''Could not confirm '' @ capability @ '' '' @ em_dash @ '' review needed'')),
             (''escalation'', JObj escalation)])"

definition finalize_with_verification ::
  "services \<Rightarrow> string \<Rightarrow> jdict \<Rightarrow> string \<Rightarrow> risk_assessment option \<Rightarrow> verify_verdict dag" where
  "finalize_with_verification sv sid output capability risk =
     andthen (get_step sid) (\<lambda>s.
       let verdict = verify_step (Some (sv_readback sv)) capability (dict_or_empty (step_input_data s)) output risk;
           status = verdict_to_step_status verdict;
           output1 = (if status \<noteq> SCompleted
             then dict_merge output [(''verification'', JObj (build_verification_meta capability risk verdict output))]
             else output)
       in andthen (finalize_step sv sid output1 status) (\<lambda>_.
          andthen (if verdict = Contradicted then escalate_divergence sid capability output1 else ret ()) (\<lambda>_.
          ret verdict)))"

section \<open>What the operations leave unchanged\<close>

lemma other_rows_ignore [simp]:
  "(\<And>s. step_id (g s) = step_id s) \<Longrightarrow>
     filter (\<lambda>s. step_id s \<noteq> sid) (row_update step_id sid g rows) = filter (\<lambda>s. step_id s \<noteq> sid) rows"
  by (induction rows) auto

text \<open>An observation of the run's other data: it does not look at the run row, the rows of the log
  (events, checkpoints, providers) or, except for its identifier, at the row of step \<open>sid\<close>. No
  helper that works on step \<open>sid\<close> changes such an observation.\<close>

locale observation =
  fixes sid :: string and f :: "world \<Rightarrow> 'v"
  assumes ignores_row: "(\<And>s. step_id (g s) = step_id s)
      \<Longrightarrow> f (w\<lparr>w_steps := row_update step_id sid g (w_steps w)\<rparr>) = f w"
    and ignores_run: "f (w\<lparr>w_run := r\<rparr>) = f w"
    and ignores_events: "f (w\<lparr>w_events := ev\<rparr>) = f w"
    and ignores_checkpoints: "f (w\<lparr>w_checkpoints := cs\<rparr>) = f w"
    and ignores_reauth: "f (w\<lparr>w_needs_reauth := ps\<rparr>) = f w"
begin

lemmas obs = ignores_row ignores_run ignores_events ignores_checkpoints ignores_reauth

lemma keeps_emit: "keeps f (emit t p)"
  unfolding emit_def by (intro keeps_modify) (simp add: obs)

lemma keeps_get_step: "keeps f (get_step i)"
  by (auto simp: keeps_def get_step_def split: option.split)

lemma keeps_set_step: "(\<And>s. step_id (g s) = step_id s) \<Longrightarrow> keeps f (set_step sid g)"
  unfolding set_step_def by (intro keeps_modify) (simp add: obs)

lemma keeps_set_run: "keeps f (set_run g)"
  unfolding set_run_def by (intro keeps_modify) (simp add: obs)

lemma keeps_move_step: "keeps f (move_step sid new)"
  unfolding move_step_def
  by (intro keeps_intros keeps_get_step keeps_set_step) simp_all

lemma keeps_move_run: "keeps f (move_run new)"
  unfolding move_run_def
  by (intro keeps_intros keeps_set_run)

lemma keeps_save_checkpoint: "keeps f (save_checkpoint sv i reason)"
proof -
  have "f (w\<lparr>w_run := r, w_checkpoints := c\<rparr>) = f w" for w r c
    by (simp add: obs)
  then show ?thesis
    unfolding save_checkpoint_def by (intro keeps_modify) (simp add: checkpoint_def Let_def)
qed

lemmas keeps_rows = keeps_emit keeps_get_step keeps_set_step keeps_set_run keeps_move_step keeps_move_run
  keeps_save_checkpoint

lemma keeps_defer: "keeps f (defer_for_reauth sv sid r)"
  unfolding defer_for_reauth_def defer_run_def
  by (intro keeps_intros keeps_rows) (simp add: obs)

lemma keeps_failure: "keeps f (handle_step_failure sv sid e)"
  unfolding handle_step_failure_def by (intro keeps_intros keeps_rows) simp_all

lemma keeps_finalize_step: "keeps f (finalize_step sv sid out st)"
  unfolding finalize_step_def by (intro keeps_intros keeps_rows) simp_all

lemma keeps_finalize: "keeps f (finalize_with_verification sv sid out c r)"
  unfolding finalize_with_verification_def escalate_divergence_def
  by (intro keeps_intros keeps_rows keeps_finalize_step)

lemma keeps_pause:
  assumes "\<And>w as. f (w\<lparr>w_approvals := as\<rparr>) = f w"
  shows "keeps f (create_approval_and_pause sv sid c r d)"
  unfolding create_approval_and_pause_def pause_for_approval_def
  by (intro keeps_intros keeps_rows) (use assms in simp_all)

lemma keeps_trust_outcome:
  assumes "\<And>w t. f (w\<lparr>w_trust := t\<rparr>) = f w"
  shows "keeps f (record_trust_outcome sv c r ws d)"
  unfolding record_trust_outcome_def by (intro keeps_intros) (use assms in simp)

end

text \<open>A step approval is never refused: its type is not a tool's.\<close>

lemma step_approval_created:
  "\<exists>a. step_approval sv sid c r d s w = Inr (a, w_approvals w @ [a]) \<and> ap_run_id a = Some (run_id (w_run w))
     \<and> ap_step_id a = Some sid \<and> ap_status a = ''pending''"
  by (simp add: step_approval_def create_approval_def starts_with_def Let_def)

interpretation actions: observation sid w_actions for sid
  by unfold_locales simp_all

interpretation approvals: observation sid w_approvals for sid
  by unfold_locales simp_all

interpretation trust: observation sid w_trust for sid
  by unfold_locales simp_all

interpretation step_ids: observation sid "\<lambda>w. map step_id (w_steps w)" for sid
  by unfold_locales (simp_all add: row_update_keys)

interpretation other_steps: observation sid "\<lambda>w. filter (\<lambda>s. step_id s \<noteq> sid) (w_steps w)" for sid
  by unfold_locales simp_all

end
