(* ===== verification/Dag_Runner.thy ===== *)
theory Dag_Runner
  imports Run_World
begin

text \<open>
  The DAG engine, \<open>backend/src/services/dag_runner.py\<close>: the per-step pipeline with the single trust
  gate (\<open>execute_step\<close>) and the ready-step loop (\<open>execute_dag\<close>), with the steps of the founder
  (\<open>services/user_action_steps.py\<close>) and the advisory run verification
  (\<open>services/outcome_learner.py\<close>). The loop takes fuel; \<open>execute_dag_terminates\<close> gives an amount that
  is always enough. The executor's outcome is one value of \<open>action_outcome\<close> per call, so the branches
  of the code's \<open>try\<close> are its constructors. Memory write-back and belief reconciliation are left out.
\<close>

section \<open>One step\<close>

definition handle_user_action_step :: "services \<Rightarrow> string \<Rightarrow> bool dag" where
  "handle_user_action_step sv sid =
     andthen (get_step sid) (\<lambda>s.
       if \<not> is_user_action_step s then ret False
       else
         andthen (move_step sid SRunning) (\<lambda>_.
         andthen (move_step sid SSkipped) (\<lambda>_.
         andthen (set_step sid (\<lambda>s. s\<lparr>step_completed_at := Some (sv_now sv),
           step_output_data := Some [(''user_action'', JBool True), (''performed'', JBool False)]\<rparr>)) (\<lambda>_.
         andthen get (\<lambda>w.
         andthen (emit ''step.skipped''
           [(''run_id'', JStr (run_id (w_run w))), (''step_id'', JStr sid), (''reason'', JStr ''user_action'')]) (\<lambda>_.
         ret True))))))"

definition contract_violation :: "services \<Rightarrow> string \<Rightarrow> string \<Rightarrow> unit dag" where
  "contract_violation sv sid reason =
     andthen (move_step sid SRunning) (\<lambda>_.
     andthen (move_step sid SFailed) (\<lambda>_.
     andthen (set_step sid (\<lambda>s. s\<lparr>step_completed_at := Some (sv_now sv),
       step_output_data := Some [(''error'', JStr (''contract_violation: '' @ reason))],
       step_error := Some [(''message'', JStr (''Step cannot be gated ('' @ reason @
         ''); refusing to execute ungated (TrustEngine contract violation)'')), (''final'', JBool True)]\<rparr>)) (\<lambda>_.
     andthen get (\<lambda>w.
     emit ''step.failed''
       [(''run_id'', JStr (run_id (w_run w))), (''step_id'', JStr sid),
        (''error'', JStr (''contract_violation: '' @ reason))]))))"

text \<open>Capabilities that are never gated.\<close>

definition gate_exempt :: "string \<Rightarrow> bool" where
  "gate_exempt capability =
     (capability \<in> set SYSTEM_ACTION_CAPABILITIES \<or> is_read_only_capability capability)"

text \<open>The gate: \<open>None\<close> if the run was paused for an approval; otherwise whether the capability is
  pre-approved for the executor, with the assessment and the decision (both \<open>None\<close> when exempt).\<close>

type_synonym clearance = "(bool \<times> risk_assessment option \<times> policy_decision option) option"

definition gate_step ::
  "services \<Rightarrow> string \<Rightarrow> string \<Rightarrow> clearance dag" where
  "gate_step sv sid capability =
     (if gate_exempt capability then ret (Some (True, None, None))
      else
        andthen (get_step sid) (\<lambda>s. andthen get (\<lambda>w.
          let run = w_run w;
              risk = assess_step_risk sv capability s run;
              (decision, trust1) =
                evaluate (run_workspace_id run) capability risk (Some (run_workspace_id run)) (w_trust w)
          in andthen (modify (\<lambda>w. w\<lparr>w_trust := trust1\<rparr>)) (\<lambda>_.
             if pd_decision decision = ''approval_required'' then
               (if resolve_confirmation (sv_presence sv) = ''interrupt''
                then andthen (create_approval_and_pause sv sid capability risk decision) (\<lambda>_. ret None)
                else ret (Some (False, Some risk, Some decision)))
             else ret (Some (True, Some risk, Some decision))))))"

definition start_step :: "services \<Rightarrow> string \<Rightarrow> unit dag" where
  "start_step sv sid =
     andthen (set_step sid (\<lambda>s. s\<lparr>step_started_at :=
       (case step_started_at s of Some t \<Rightarrow> Some t | None \<Rightarrow> Some (sv_now sv))\<rparr>)) (\<lambda>_.
     andthen get (\<lambda>w.
     andthen (emit ''step.started'' [(''run_id'', JStr (run_id (w_run w))), (''step_id'', JStr sid)]) (\<lambda>_.
     andthen (get_step sid) (\<lambda>s.
       let resolved = resolve_step_references (w_steps w) s
       in if resolved \<noteq> dict_or_empty (step_input_data s)
          then set_step sid (\<lambda>s. s\<lparr>step_input_data := Some resolved\<rparr>) else ret ()))))"

definition run_step_action :: "services \<Rightarrow> string \<Rightarrow> bool \<Rightarrow> action_outcome dag" where
  "run_step_action sv sid pre_approve =
     andthen (get_step sid) (\<lambda>s. andthen get (\<lambda>w.
     andthen (emit ''tool_call_started''
       [(''run_id'', JStr (run_id (w_run w))), (''step_id'', JStr sid),
        (''tool_name'', JStr (step_capability ''unknown'' s))]) (\<lambda>_.
     andthen (modify (\<lambda>w. w\<lparr>w_actions :=
       w_actions w @ [\<lparr>ac_step_id = sid, ac_pre_approved = pre_approve\<rparr>]\<rparr>)) (\<lambda>_.
     ret (sv_action sv (length (w_actions w)) s (w_run w) pre_approve)))))"

definition step_timeout :: "task_step \<Rightarrow> nat" where
  "step_timeout s = (case step_timeout_seconds s of None \<Rightarrow> 120 | Some t \<Rightarrow> if t = 0 then 120 else t)"

text \<open>What follows the action: \<open>Some output\<close> to go on, \<open>None\<close> where the code returns.\<close>

definition settle_outcome :: "services \<Rightarrow> string \<Rightarrow> action_outcome \<Rightarrow> jdict option dag" where
  "settle_outcome sv sid outcome =
     (case outcome of
        ActTimeout \<Rightarrow>
          andthen (move_step sid STimedOut) (\<lambda>_.
          andthen (set_step sid (\<lambda>s. s\<lparr>step_error := Some [(''message'',
            JStr (''Step timed out after '' @ nat_text (step_timeout s) @ ''s''))],
            step_completed_at := Some (sv_now sv)\<rparr>)) (\<lambda>_. ret None))
      | ActCancelled \<Rightarrow>
          andthen (move_step sid SCancelled) (\<lambda>_.
          andthen (set_step sid (\<lambda>s. s\<lparr>step_completed_at := Some (sv_now sv)\<rparr>)) (\<lambda>_.
          raise CancellationRequested))
      | ActAuthRequired provider server \<Rightarrow>
          andthen (defer_for_reauth sv sid (AuthException provider server)) (\<lambda>deferred.
          if deferred then ret None
          else andthen (handle_step_failure sv sid ''auth_required'') (\<lambda>_. ret None))
      | ActError e \<Rightarrow> andthen (handle_step_failure sv sid e) (\<lambda>_. ret None)
      | ActOutput output \<Rightarrow>
          andthen (defer_for_reauth sv sid (AuthOutput output)) (\<lambda>deferred.
          ret (if deferred then None else Some output)))"

text \<open>Trust is reinforced for a confirmed write that the gate itself cleared.\<close>

definition reinforce_trust ::
  "services \<Rightarrow> string \<Rightarrow> bool \<Rightarrow> risk_assessment option \<Rightarrow> policy_decision option \<Rightarrow> verify_verdict \<Rightarrow> unit dag" where
  "reinforce_trust sv capability pre_approve risk decision verdict =
     andthen get (\<lambda>w.
       if pre_approve \<and> decision \<noteq> None \<and> verdict = Confirmed
       then record_auto_execution_outcome sv capability
              (case risk of Some r \<Rightarrow> ra_risk_level r | None \<Rightarrow> []) (run_workspace_id (w_run w))
       else ret ())"

definition run_cleared_step :: "services \<Rightarrow> string \<Rightarrow> string \<Rightarrow> clearance \<Rightarrow> unit dag" where
  "run_cleared_step sv sid capability clearance =
     (case clearance of
        None \<Rightarrow> ret ()
      | Some (pre_approve, risk, decision) \<Rightarrow>
          andthen (move_step sid SRunning) (\<lambda>_.
          andthen (start_step sv sid) (\<lambda>_.
          andthen (run_step_action sv sid pre_approve) (\<lambda>outcome.
          andthen (settle_outcome sv sid outcome) (\<lambda>r.
          case r of
            None \<Rightarrow> ret ()
          | Some output \<Rightarrow>
              andthen (finalize_with_verification sv sid output capability risk)
                (reinforce_trust sv capability pre_approve risk decision))))))"

definition execute_fresh_step :: "services \<Rightarrow> string \<Rightarrow> unit dag" where
  "execute_fresh_step sv sid =
     andthen (get_step sid) (\<lambda>s.
     andthen (handle_user_action_step sv sid) (\<lambda>handled.
       if handled then ret ()
       else if \<not> sv_trust_engine sv then contract_violation sv sid ''missing TrustEngine''
       else if step_capability [] s = [] then contract_violation sv sid ''empty capability''
       else andthen (gate_step sv sid (step_capability [] s)) (run_cleared_step sv sid (step_capability [] s))))"

text \<open>\<open>ORDER BY decided_at DESC NULLS LAST\<close>, first row.\<close>

definition latest_approval :: "approval list \<Rightarrow> approval option" where
  "latest_approval as =
     (let decided = filter (\<lambda>a. ap_decided_at a \<noteq> None) as
      in case sort_key (\<lambda>a. - (case ap_decided_at a of Some t \<Rightarrow> t | None \<Rightarrow> 0)) decided of
           a # _ \<Rightarrow> Some a
         | [] \<Rightarrow> (case as of a # _ \<Rightarrow> Some a | [] \<Rightarrow> None))"

definition read_approval_decision_type :: "string \<Rightarrow> string dag" where
  "read_approval_decision_type sid =
     andthen get (\<lambda>w.
       ret (case latest_approval (filter (\<lambda>a. ap_run_id a = Some (run_id (w_run w)) \<and> ap_step_id a = Some sid)
                   (w_approvals w)) of
              None \<Rightarrow> ''approved''
            | Some a \<Rightarrow> jstr (jget_default (dict_or_empty (ap_artifact_refs a)) ''decision_type'' (JStr ''approved''))))"

definition stamp_decision_type :: "string \<Rightarrow> task_step \<Rightarrow> task_step" where
  "stamp_decision_type decision_type s =
     (case step_output_data s of
        None \<Rightarrow> s
      | Some out \<Rightarrow>
          if is_obj (jget out ''verification'')
          then s\<lparr>step_output_data := Some (dict_merge out [(''verification'',
                  JObj (dict_merge (obj_items (jget out ''verification'')) [(''decision_type'', JStr decision_type)]))])\<rparr>
          else s)"

definition credit_approval :: "services \<Rightarrow> string \<Rightarrow> string \<Rightarrow> risk_assessment \<Rightarrow> verify_verdict \<Rightarrow> unit dag" where
  "credit_approval sv sid capability risk verdict =
     andthen get (\<lambda>w.
       if verdict = Confirmed then
         andthen (read_approval_decision_type sid) (\<lambda>decision_type.
         record_user_approval_outcome sv capability (ra_risk_level risk) (run_workspace_id (w_run w)) decision_type)
       else if verdict = Unverified then
         andthen (read_approval_decision_type sid) (\<lambda>decision_type.
         set_step sid (stamp_decision_type decision_type))
       else ret ())"

definition execute_approved_step :: "services \<Rightarrow> string \<Rightarrow> unit dag" where
  "execute_approved_step sv sid =
     andthen (start_step sv sid) (\<lambda>_.
     andthen (run_step_action sv sid True) (\<lambda>outcome.
     andthen (settle_outcome sv sid outcome) (\<lambda>r.
     case r of
       None \<Rightarrow> ret ()
     | Some output \<Rightarrow>
         andthen (get_step sid) (\<lambda>s. andthen get (\<lambda>w.
         let capability = step_capability ''unknown'' s;
             risk = assess_step_risk sv capability s (w_run w)
         in andthen (finalize_with_verification sv sid output capability (Some risk))
              (credit_approval sv sid capability risk))))))"

definition execute_step :: "services \<Rightarrow> string \<Rightarrow> unit dag" where
  "execute_step sv sid =
     andthen (get_step sid) (\<lambda>s.
       if step_status s = SRunning then execute_approved_step sv sid else execute_fresh_step sv sid)"

section \<open>The loop\<close>

definition run_verification :: "services \<Rightarrow> unit dag" where
  "run_verification sv =
     (case sv_verifier sv of
        Some (Some (verdict, score, details)) \<Rightarrow>
          andthen (save_checkpoint sv None ''verification'') (\<lambda>_.
          andthen (set_run (\<lambda>r. r\<lparr>run_checkpoint := Some (dict_merge (dict_or_empty (run_checkpoint r))
            [(''verification'', JObj [(''verdict'', JStr verdict), (''score'', JNum score), (''details'', JStr details)])])\<rparr>)) (\<lambda>_.
          andthen get (\<lambda>w.
          if run_status (w_run w) = RPartiallyCompleted
             \<and> \<not> list_ex (\<lambda>s. step_status s \<in> {SFailed, STimedOut}) (w_steps w)
          then move_run RCompleted else ret ())))
      | _ \<Rightarrow> ret ())"

definition run_completed_payload :: "task_run \<Rightarrow> jdict" where
  "run_completed_payload run =
     [(''run_id'', JStr (run_id run)), (''plan_id'', opt_json (run_plan_id run)),
      (''status'', JStr (run_status_text (run_status run)))]"

text \<open>No step is ready: complete, fail, park, or leave the run as it is.\<close>

definition finish_dag :: "services \<Rightarrow> unit dag" where
  "finish_dag sv =
     andthen get (\<lambda>w.
       if \<not> list_ex (\<lambda>s. step_status s \<in> set STILL_MOVING) (w_steps w) then
         andthen (move_run (if sv_verifier sv \<noteq> None then RPartiallyCompleted else RCompleted)) (\<lambda>_.
         andthen (set_run (\<lambda>r. r\<lparr>run_completed_at := Some (sv_now sv)\<rparr>)) (\<lambda>_.
         andthen get (\<lambda>w1.
         andthen (emit ''run_completed'' (run_completed_payload (w_run w1))) (\<lambda>_.
         run_verification sv))))
       else
         (let failed = filter (\<lambda>s. step_status s = SFailed) (w_steps w)
          in if failed \<noteq> [] then
               andthen (move_run RFailed) (\<lambda>_.
               set_run (\<lambda>r. r\<lparr>run_completed_at := Some (sv_now sv),
                 run_error := Some [(''message'', JStr (nat_text (length failed) @ '' step(s) failed'')),
                                    (''failed_steps'', JList (map (\<lambda>s. JStr (step_id s)) failed))]\<rparr>))
             else
               (let (parked, run') = park_if_blocked_on_founder (w_run w) (w_steps w)
                in if parked then
                     andthen (set_run (\<lambda>_. run')) (\<lambda>_.
                     emit ''run.awaiting_input''
                       [(''run_id'', JStr (run_id run')), (''reason'', JStr ''user_action'')])
                   else ret ())))"

definition PARKED_IN_BATCH :: "run_status list" where
  "PARKED_IN_BATCH = [RPaused, RAwaitingApproval, RAwaitingInput, RAwaitingReauth]"

definition PARKED_AFTER_BATCH :: "run_status list" where
  "PARKED_AFTER_BATCH = [RPaused, RAwaitingApproval, RAwaitingReauth]"

text \<open>The \<open>for\<close> over the ready batch: \<open>False\<close> when a cancellation ends the whole loop.\<close>

fun run_batch :: "services \<Rightarrow> string list \<Rightarrow> world \<Rightarrow> bool \<times> world" where
  "run_batch sv [] w = (True, w)"
| "run_batch sv (sid # sids) w =
     (let (res, w1) = execute_step sv sid w
      in if res = Inl CancellationRequested then (False, w1)
         else if run_status (w_run w1) \<in> set PARKED_IN_BATCH then (True, w1)
         else run_batch sv sids w1)"

definition begin_batch :: "world \<Rightarrow> string list \<times> world" where
  "begin_batch w =
     (let (ready, steps1) = get_ready_steps (w_steps w);
          ids = map step_id ready
      in (ids, w\<lparr>w_steps := steps1,
                 w_run := (if ids = [] then w_run w else (w_run w)\<lparr>run_current_step_ids := Some ids\<rparr>)\<rparr>))"

fun execute_dag :: "services \<Rightarrow> nat \<Rightarrow> world \<Rightarrow> ((dag_exn + unit) \<times> world) option" where
  "execute_dag sv 0 w = None"
| "execute_dag sv (Suc fuel) w =
     (let (ids, w1) = begin_batch w
      in if ids = [] then Some (finish_dag sv w1)
         else
           (let (going, w2) = run_batch sv ids w1
            in if \<not> going then Some (Inr (), w2)
               else
                 (let w3 = (if run_status (w_run w2) \<notin> set PARKED_AFTER_BATCH
                            then w2\<lparr>w_run := sv_refresh sv (w_run w2)\<rparr> else w2)
                  in if run_status (w_run w3) \<in> set PARKED_AFTER_BATCH then Some (Inr (), w3)
                     else execute_dag sv fuel w3)))"

section \<open>The row of a step through its pipeline\<close>

text \<open>Where a step is: its status, the retries it has left, and the status of its run.\<close>

definition at_step :: "string \<Rightarrow> run_status \<Rightarrow> step_status \<Rightarrow> nat \<Rightarrow> world \<Rightarrow> bool" where
  "at_step sid rs x k w \<longleftrightarrow>
     (\<exists>s. row_find step_id sid (w_steps w) = Some s \<and> step_status s = x \<and> step_max_retries s - step_retry_count s = k)
     \<and> run_status (w_run w) = rs"

lemma at_same:
  "(\<And>w. row_find step_id sid (w_steps (g w)) = row_find step_id sid (w_steps w)
      \<and> run_status (w_run (g w)) = run_status (w_run w)) \<Longrightarrow>
     triple (at_step sid rs x k) (modify g) (\<lambda>_. at_step sid rs x k) E"
  by (rule triple_modify) (simp add: at_step_def)

lemma at_emit: "triple (at_step sid rs x k) (emit t p) (\<lambda>_. at_step sid rs x k) E"
  unfolding emit_def by (rule at_same) simp

lemma at_checkpoint: "triple (at_step sid rs x k) (save_checkpoint sv i r) (\<lambda>_. at_step sid rs x k) E"
  unfolding save_checkpoint_def by (rule at_same) (simp add: checkpoint_def Let_def)

lemma at_set_run:
  "(\<And>r. run_status (g r) = run_status r) \<Longrightarrow> triple (at_step sid rs x k) (set_run g) (\<lambda>_. at_step sid rs x k) E"
  unfolding set_run_def by (rule at_same) simp

lemma at_get: "triple (at_step sid rs x k) get (\<lambda>v w. at_step sid rs x k w \<and> v = w) E"
  by (rule triple_get)

lemma at_get_any: "triple (at_step sid rs x k) get (\<lambda>_. at_step sid rs x k) E"
  by (rule triple_conseq[OF triple_get]) auto

lemma at_get_step:
  "triple (at_step sid rs x k) (get_step sid)
     (\<lambda>s w. at_step sid rs x k w \<and> step_status s = x \<and> step_max_retries s - step_retry_count s = k) E"
  by (auto simp: triple_def get_step_def at_step_def)

lemma at_get_step_any: "triple (at_step sid rs x k) (get_step sid) (\<lambda>_. at_step sid rs x k) E"
  by (rule triple_conseq[OF at_get_step]) auto

lemma at_set_step:
  assumes "\<And>s. step_id (g s) = step_id s \<and> step_status (g s) = step_status s
    \<and> step_max_retries (g s) = step_max_retries s \<and> step_retry_count (g s) = step_retry_count s"
  shows "triple (at_step sid rs x k) (set_step sid g) (\<lambda>_. at_step sid rs x k) E"
  unfolding set_step_def using assms
  by (intro triple_modify) (auto simp: at_step_def row_find_update)

lemma at_move_step:
  assumes "new \<in> set (allowed STEP_TRANSITIONS x)"
  shows "triple (at_step sid rs x k) (move_step sid new) (\<lambda>_. at_step sid rs new k) E"
  using assms
  by (auto simp: triple_def move_step_def andthen_def get_step_def at_step_def transition_step_def
      set_step_def modify_def row_find_update)

lemma at_move_run:
  assumes "new \<in> set (allowed RUN_TRANSITIONS rs)"
  shows "triple (at_step sid rs x k) (move_run new) (\<lambda>_. at_step sid new x k) E"
  using assms
  by (auto simp: triple_def move_run_def at_step_def transition_run_def set_run_def modify_def)

lemma at_ret: "triple (at_step sid rs x k) (ret v) (\<lambda>_. at_step sid rs x k) E"
  by (rule triple_ret)

lemmas at_rules = at_emit at_checkpoint at_set_run at_get_any at_get_step_any at_ret

text \<open>How far a step is from its end: a retry costs one of the retries left.\<close>

fun weight :: "step_status \<Rightarrow> nat \<Rightarrow> nat" where
  "weight SPending k = 4 * k + 3"
| "weight SReady k = 4 * k + 2"
| "weight SRunning k = 4 * k + 1"
| "weight _ k = 0"

text \<open>The step has moved on, its run is still running; or the run is parked.\<close>

definition lighter :: "string \<Rightarrow> nat \<Rightarrow> world \<Rightarrow> bool" where
  "lighter sid n w \<longleftrightarrow> (\<exists>x k. at_step sid RRunning x k w \<and> weight x k < n)"

definition parked :: "world \<Rightarrow> bool" where
  "parked w \<longleftrightarrow> run_status (w_run w) \<in> {RAwaitingApproval, RAwaitingReauth}"

lemma lighterI: "weight x k < n \<Longrightarrow> at_step sid RRunning x k w \<Longrightarrow> lighter sid n w"
  by (auto simp: lighter_def)

lemma lighter_keep:
  "(\<And>x k. triple (at_step sid RRunning x k) m (\<lambda>_. at_step sid RRunning x k) E) \<Longrightarrow>
     triple (lighter sid n) m (\<lambda>_. lighter sid n) E"
  by (fastforce simp: triple_def lighter_def split: prod.splits sum.splits)

lemma at_defer:
  "triple (at_step sid RRunning x k) (defer_for_reauth sv sid r)
     (\<lambda>d w. if d then at_step sid RAwaitingReauth x k w else at_step sid RRunning x k w) E"
proof -
  have m: "triple (at_step sid RAwaitingReauth x k) (modify (\<lambda>w. w\<lparr>w_needs_reauth := w_needs_reauth w @ [p]\<rparr>))
      (\<lambda>_. at_step sid RAwaitingReauth x k) E" for p
    by (rule at_same) simp
  have d: "triple (at_step sid RRunning x k) (defer_run p) (\<lambda>_. at_step sid RAwaitingReauth x k) E" for p
    unfolding defer_run_def
    by (rule triple_andthen[OF at_move_run]) (auto intro: at_set_run simp: status_tables)
  show ?thesis
    unfolding defer_for_reauth_def Let_def
    by (intro triple_if triple_andthen[OF d] triple_andthen[OF m] triple_andthen[OF at_get_any]
        triple_andthen[OF at_emit] triple_ret) auto
qed

lemma at_failure:
  "triple (at_step sid RRunning SRunning k) (handle_step_failure sv sid e)
     (\<lambda>_. lighter sid (weight SRunning k)) E"
proof -
  have inc: "triple (at_step sid RRunning SRunning k)
      (set_step sid (\<lambda>s. s\<lparr>step_retry_count := step_retry_count s + 1\<rparr>))
      (\<lambda>_. at_step sid RRunning SRunning (k - 1)) E"
    unfolding set_step_def by (intro triple_modify) (auto simp: at_step_def row_find_update)
  have retry: "triple (at_step sid RRunning SRunning (k - 1))
      (andthen (move_step sid SFailed) (\<lambda>_. andthen (move_step sid SPending) (\<lambda>_.
        set_step sid (\<lambda>s. s\<lparr>step_error := err s\<rparr>)))) (\<lambda>_. at_step sid RRunning SPending (k - 1)) E" for err
    by (intro triple_andthen[OF at_move_step] at_set_step) (auto simp: status_tables)
  have final: "triple (at_step sid RRunning SRunning (k - 1))
      (andthen (move_step sid SFailed) (\<lambda>_. andthen (set_step sid (\<lambda>s. s\<lparr>step_output_data := o1,
        step_completed_at := t1, step_error := err\<rparr>)) (\<lambda>_. emit t p)))
      (\<lambda>_. at_step sid RRunning SFailed (k - 1)) E" for o1 t1 err t p
    by (intro triple_andthen[OF at_move_step] triple_andthen[OF at_set_step] at_emit) (auto simp: status_tables)
  show ?thesis
    unfolding handle_step_failure_def Let_def
  proof (intro triple_andthen[OF inc] triple_andthen[OF at_get_step] triple_andthen[OF triple_get] triple_if)
    fix s v
    assume r: "step_retry_count s < step_max_retries s"
    show "triple (\<lambda>w. (at_step sid RRunning SRunning (k - 1) w \<and> step_status s = SRunning
          \<and> step_max_retries s - step_retry_count s = k - 1) \<and> v = w)
        (andthen (move_step sid SFailed) (\<lambda>_. andthen (move_step sid SPending) (\<lambda>_.
          set_step sid (\<lambda>s'. s'\<lparr>step_error := Some
            ([(''attempt'', JNum (of_nat (step_retry_count s')))] @ safe_error_fields sv e
             @ [(''retry_after_seconds'', JNum (of_int (compute_retry_delay (step_retry_count s'))))])\<rparr>))))
        (\<lambda>_. lighter sid (weight SRunning k)) E"
    proof (cases "1 \<le> k - 1")
      case True
      then have "weight SPending (k - 1) < weight SRunning k" by simp
      then show ?thesis
        by (intro triple_conseq[OF retry]) (auto intro: lighterI simp del: weight.simps)
    next
      case False
      with r show ?thesis by (auto simp: triple_def)
    qed
  next
    fix s v
    show "triple (\<lambda>w. (at_step sid RRunning SRunning (k - 1) w \<and> step_status s = SRunning
          \<and> step_max_retries s - step_retry_count s = k - 1) \<and> v = w)
        (andthen (move_step sid SFailed) (\<lambda>_. andthen (set_step sid (\<lambda>s. s\<lparr>
              step_output_data := Some ((''error'', jget (safe_error_fields sv e) ''message'') # tl (safe_error_fields sv e)),
              step_completed_at := Some (sv_now sv),
              step_error := Some (safe_error_fields sv e @ [(''final'', JBool True)])\<rparr>)) (\<lambda>_.
            emit ''step.failed''
              ([(''run_id'', JStr (run_id (w_run v))), (''step_id'', JStr sid),
                (''error'', jget (safe_error_fields sv e) ''message'')]
               @ tl (safe_error_fields sv e) @ [(''duration_ms'', JNum (of_nat (sv_elapsed_ms sv)))]))))
        (\<lambda>_. lighter sid (weight SRunning k)) E"
      by (intro triple_conseq[OF final]) (auto intro!: lighterI[where x = SFailed])
  qed
qed

lemma at_finalize_step:
  assumes "new \<in> set (allowed STEP_TRANSITIONS SRunning)"
  shows "triple (at_step sid rs SRunning k) (finalize_step sv sid out new) (\<lambda>_. at_step sid rs new k) E"
  unfolding finalize_step_def Let_def
  by (intro triple_andthen[OF at_get_step_any] triple_andthen[OF at_get_any] triple_andthen[OF at_emit]
      triple_andthen[OF at_move_step[OF assms]] triple_andthen[OF at_set_step]
      triple_andthen[OF at_checkpoint] triple_if at_emit at_ret) simp

lemma verdict_weight [simp]: "weight (verdict_to_step_status v) k = 0"
  by (cases v) simp_all

lemma at_finalize:
  "triple (at_step sid rs SRunning k) (finalize_with_verification sv sid out c r)
     (\<lambda>v. at_step sid rs (verdict_to_step_status v) k) E"
proof -
  have e: "triple (at_step sid rs x k) (if v = Contradicted then escalate_divergence sid c o1 else ret ())
      (\<lambda>_. at_step sid rs x k) E" for v o1 x
    unfolding escalate_divergence_def Let_def
    by (intro triple_if triple_andthen[OF at_get_any] at_emit at_ret)
  show ?thesis
    unfolding finalize_with_verification_def Let_def
    by (intro triple_andthen[OF at_get_step_any] triple_andthen[OF at_finalize_step[OF verdict_status_allowed]]
        triple_andthen[OF e]) (rule triple_ret)
qed

lemma at_settle:
  "triple (at_step sid RRunning SRunning k) (settle_outcome sv sid outcome)
     (\<lambda>r w. case r of None \<Rightarrow> lighter sid (weight SRunning k) w \<or> parked w
        | Some _ \<Rightarrow> at_step sid RRunning SRunning k w)
     (\<lambda>e _. e = CancellationRequested)"
proof (cases outcome)
  case (ActOutput out)
  have "triple (\<lambda>w. if d then at_step sid RAwaitingReauth SRunning k w else at_step sid RRunning SRunning k w)
      (ret (if d then None else Some out))
      (\<lambda>r w. case r of None \<Rightarrow> lighter sid (weight SRunning k) w \<or> parked w
        | Some _ \<Rightarrow> at_step sid RRunning SRunning k w) (\<lambda>e _. e = CancellationRequested)" for d
    by (rule triple_ret) (auto simp: parked_def at_step_def split: if_splits)
  then show ?thesis
    unfolding settle_outcome_def ActOutput action_outcome.case
    by (rule triple_andthen[OF at_defer])
next
  case ActTimeout
  have "triple (at_step sid RRunning STimedOut k) (ret None)
      (\<lambda>r w. case r of None \<Rightarrow> lighter sid (weight SRunning k) w \<or> parked w
        | Some _ \<Rightarrow> at_step sid RRunning SRunning k w) (\<lambda>e _. e = CancellationRequested)"
    by (rule triple_ret) (auto intro!: lighterI[where x = STimedOut])
  then show ?thesis
    unfolding settle_outcome_def ActTimeout action_outcome.case
    by (intro triple_andthen[OF at_move_step] triple_andthen[OF at_set_step]) (auto simp: status_tables)
next
  case ActCancelled
  show ?thesis
    unfolding settle_outcome_def ActCancelled action_outcome.case
    by (intro triple_andthen[OF at_move_step] triple_andthen[OF at_set_step] triple_raise)
      (auto simp: status_tables)
next
  case (ActAuthRequired p q)
  have "triple (\<lambda>w. if d then at_step sid RAwaitingReauth SRunning k w else at_step sid RRunning SRunning k w)
      (if d then ret None else andthen (handle_step_failure sv sid ''auth_required'') (\<lambda>_. ret None))
      (\<lambda>r w. case r of None \<Rightarrow> lighter sid (weight SRunning k) w \<or> parked w
        | Some _ \<Rightarrow> at_step sid RRunning SRunning k w) (\<lambda>e _. e = CancellationRequested)" for d
  proof (cases d)
    case True
    then show ?thesis by (simp add: triple_def ret_def parked_def at_step_def)
  next
    case False
    then show ?thesis by (simp, intro triple_andthen[OF at_failure] triple_ret) simp
  qed
  then show ?thesis
    unfolding settle_outcome_def ActAuthRequired action_outcome.case
    by (rule triple_andthen[OF at_defer])
next
  case (ActError e)
  show ?thesis
    unfolding settle_outcome_def ActError action_outcome.case
    by (intro triple_andthen[OF at_failure] triple_ret) simp
qed

lemma at_start: "triple (at_step sid rs x k) (start_step sv sid) (\<lambda>_. at_step sid rs x k) E"
  unfolding start_step_def Let_def
  by (intro triple_andthen[OF at_set_step] triple_andthen[OF at_get_any] triple_andthen[OF at_emit]
      triple_andthen[OF at_get_step_any] triple_if at_set_step at_ret) simp_all

lemma at_action: "triple (at_step sid rs x k) (run_step_action sv sid pre) (\<lambda>_. at_step sid rs x k) E"
proof -
  have "triple (at_step sid rs x k) (modify (\<lambda>w. w\<lparr>w_actions := w_actions w @ [a]\<rparr>)) (\<lambda>_. at_step sid rs x k) E" for a
    by (rule at_same) simp
  then show ?thesis
    unfolding run_step_action_def
    by (intro triple_andthen[OF at_get_step_any] triple_andthen[OF at_get_any] triple_andthen[OF at_emit]
        triple_andthen[where R = "\<lambda>_. at_step sid rs x k"] at_ret)
qed

lemma at_trust_outcome:
  "triple (at_step sid rs x k) (record_trust_outcome sv c r ws d) (\<lambda>_. at_step sid rs x k) E"
proof -
  have "triple (at_step sid rs x k) (modify (\<lambda>w. w\<lparr>w_trust := h w\<rparr>)) (\<lambda>_. at_step sid rs x k) E" for h
    by (rule at_same) simp
  then show ?thesis unfolding record_trust_outcome_def by (intro triple_if at_ret)
qed

lemma at_user_action:
  "triple (at_step sid RRunning SReady k) (handle_user_action_step sv sid)
     (\<lambda>h w. if h then at_step sid RRunning SSkipped k w else at_step sid RRunning SReady k w) E"
  unfolding handle_user_action_step_def
  by (intro triple_andthen[OF at_get_step_any] triple_if triple_andthen[OF at_move_step]
      triple_andthen[OF at_set_step] triple_andthen[OF at_get_any] triple_andthen[OF at_emit] triple_ret)
    (simp_all add: status_tables)

lemma at_contract:
  "triple (at_step sid RRunning SReady k) (contract_violation sv sid reason) (\<lambda>_. at_step sid RRunning SFailed k) E"
  unfolding contract_violation_def
  by (intro triple_andthen[OF at_move_step] triple_andthen[OF at_set_step] triple_andthen[OF at_get_any] at_emit)
    (simp_all add: status_tables)

lemma at_pause:
  "triple (at_step sid RRunning SReady k) (create_approval_and_pause sv sid c r d)
     (\<lambda>_. at_step sid RAwaitingApproval SWaitingApproval k) E"
proof -
  have m: "triple (at_step sid RRunning SReady k) (modify (\<lambda>w. w\<lparr>w_approvals := w_approvals w @ [a]\<rparr>))
      (\<lambda>_. at_step sid RRunning SReady k) E" for a
    by (rule at_same) simp
  have g: "triple (at_step sid RRunning SWaitingApproval k) get
      (\<lambda>v w. at_step sid RRunning SWaitingApproval k w \<and> run_status (w_run v) = RRunning) E"
    by (rule triple_conseq[OF triple_get]) (auto simp: at_step_def)
  have mv: "triple (\<lambda>w. at_step sid RRunning SWaitingApproval k w \<and> run_status (w_run v) = RRunning)
      (if run_status (w_run v) \<noteq> RAwaitingApproval then move_run RAwaitingApproval else ret ())
      (\<lambda>_. at_step sid RAwaitingApproval SWaitingApproval k) E" for v
    using at_move_run[of RAwaitingApproval RRunning sid SWaitingApproval k E]
    by (auto simp: triple_def status_tables)
  have p: "triple (at_step sid RRunning SReady k) (pause_for_approval sv sid c r d a)
      (\<lambda>_. at_step sid RAwaitingApproval SWaitingApproval k) E" for a
    unfolding pause_for_approval_def
    by (intro triple_andthen[OF m] triple_andthen[OF at_move_step] triple_andthen[OF g] triple_andthen[OF mv]
        triple_andthen[OF at_checkpoint] at_emit) (simp_all add: status_tables)
  show ?thesis
    unfolding create_approval_and_pause_def
  proof (intro triple_andthen[OF at_get_step_any] triple_andthen[OF at_get_any])
    fix s v
    obtain a as where "step_approval sv sid c r d s v = Inr (a, as)" using step_approval_created by blast
    then show "triple (at_step sid RRunning SReady k)
        (case step_approval sv sid c r d s v of Inl e \<Rightarrow> raise (ApprovalRefused e)
         | Inr (a, _) \<Rightarrow> pause_for_approval sv sid c r d a)
        (\<lambda>_. at_step sid RAwaitingApproval SWaitingApproval k) E"
      using p by simp
  qed
qed

lemma at_gate:
  "triple (at_step sid RRunning SReady k) (gate_step sv sid c)
     (\<lambda>g w. case g of None \<Rightarrow> at_step sid RAwaitingApproval SWaitingApproval k w
        | Some _ \<Rightarrow> at_step sid RRunning SReady k w) E"
proof -
  have m: "triple (at_step sid RRunning SReady k) (modify (\<lambda>w. w\<lparr>w_trust := t\<rparr>))
      (\<lambda>_. at_step sid RRunning SReady k) E" for t
    by (rule at_same) simp
  show ?thesis
    unfolding gate_step_def Let_def split_beta
    by (intro triple_if triple_andthen[OF at_get_step_any] triple_andthen[OF at_get_any] triple_andthen[OF m]
        triple_andthen[OF at_pause] triple_ret) simp_all
qed

text \<open>A ready or running step of a running run: after its pipeline the run is parked, the step has moved
  on, or the executor was cancelled; nothing else is raised.\<close>

definition stepped :: "string \<Rightarrow> nat \<Rightarrow> world \<Rightarrow> bool" where
  "stepped sid n w \<longleftrightarrow> lighter sid n w \<or> parked w"

definition only_cancel :: "dag_exn \<Rightarrow> world \<Rightarrow> bool" where
  "only_cancel e w \<longleftrightarrow> e = CancellationRequested"

lemma stepped_mono: "stepped sid m w \<Longrightarrow> m \<le> n \<Longrightarrow> stepped sid n w"
  unfolding stepped_def lighter_def by (meson order_less_le_trans)

lemma stepped_done: "weight x k = 0 \<Longrightarrow> 0 < n \<Longrightarrow> at_step sid RRunning x k w \<Longrightarrow> stepped sid n w"
  unfolding stepped_def by (metis lighterI)

lemma at_finish:
  assumes "\<And>v. triple (at_step sid RRunning (verdict_to_step_status v) k) (rest v)
      (\<lambda>_. at_step sid RRunning (verdict_to_step_status v) k) only_cancel"
  shows "triple (at_step sid RRunning SRunning k) (andthen (finalize_with_verification sv sid out c risk) rest)
    (\<lambda>_. stepped sid (weight SRunning k)) only_cancel"
  by (rule triple_andthen[OF at_finalize], rule triple_conseq[OF assms]) (auto intro: stepped_done[rotated 2])

lemma at_reinforce:
  "triple (at_step sid rs x k) (reinforce_trust sv c pre risk d v) (\<lambda>_. at_step sid rs x k) E"
  unfolding reinforce_trust_def record_auto_execution_outcome_def
  by (intro triple_andthen[OF at_get_any] triple_if at_trust_outcome at_ret)

lemma at_credit:
  "triple (at_step sid rs x k) (credit_approval sv sid c risk v) (\<lambda>_. at_step sid rs x k) E"
proof -
  have r: "triple (at_step sid rs x k) (read_approval_decision_type sid) (\<lambda>_. at_step sid rs x k) E"
    unfolding read_approval_decision_type_def by (intro triple_andthen[OF at_get_any] at_ret)
  have st: "triple (at_step sid rs x k) (set_step sid (stamp_decision_type t)) (\<lambda>_. at_step sid rs x k) E" for t
    by (rule at_set_step) (simp add: stamp_decision_type_def split: option.split)
  show ?thesis
    unfolding credit_approval_def record_user_approval_outcome_def
    by (intro triple_andthen[OF at_get_any] triple_if triple_andthen[OF r] at_trust_outcome st at_ret)
qed

lemma at_act:
  assumes "\<And>out. triple (at_step sid RRunning SRunning k) (fin out) (\<lambda>_. stepped sid (weight SRunning k)) only_cancel"
  shows "triple (at_step sid RRunning SRunning k)
    (andthen (start_step sv sid) (\<lambda>_. andthen (run_step_action sv sid pre) (\<lambda>outcome.
     andthen (settle_outcome sv sid outcome) (\<lambda>r. case r of None \<Rightarrow> ret () | Some out \<Rightarrow> fin out))))
    (\<lambda>_. stepped sid (weight SRunning k)) only_cancel"
proof -
  have "only_cancel = (\<lambda>e _. e = CancellationRequested)" by (simp add: only_cancel_def fun_eq_iff)
  note settle = at_settle[of sid k sv, folded this]
  show ?thesis
  proof (intro triple_andthen[OF at_start] triple_andthen[OF at_action] triple_andthen[OF settle])
    fix r
    show "triple (\<lambda>w. case r of None \<Rightarrow> lighter sid (weight SRunning k) w \<or> parked w
          | Some _ \<Rightarrow> at_step sid RRunning SRunning k w)
        (case r of None \<Rightarrow> ret () | Some out \<Rightarrow> fin out) (\<lambda>_. stepped sid (weight SRunning k)) only_cancel"
      using assms by (cases r) (auto simp: triple_def ret_def stepped_def)
  qed
qed

lemma at_cleared:
  "triple (\<lambda>w. case g of None \<Rightarrow> at_step sid RAwaitingApproval SWaitingApproval k w
        | Some _ \<Rightarrow> at_step sid RRunning SReady k w)
     (run_cleared_step sv sid c g) (\<lambda>_. stepped sid (weight SReady k)) only_cancel"
proof (cases g)
  case None
  then show ?thesis
    by (auto simp: run_cleared_step_def triple_def ret_def stepped_def parked_def at_step_def)
next
  case (Some p)
  obtain pre risk d where p: "p = (pre, risk, d)" by (cases p)
  have "triple (at_step sid RRunning SReady k) (run_cleared_step sv sid c g)
      (\<lambda>_. stepped sid (weight SRunning k)) only_cancel"
    unfolding run_cleared_step_def Some p option.case prod.case
    by (intro triple_andthen[OF at_move_step] at_act at_finish at_reinforce) (simp add: status_tables)
  then show ?thesis
    unfolding Some option.case by (rule triple_conseq) (auto intro: stepped_mono)
qed

lemma at_fresh:
  "triple (at_step sid RRunning SReady k) (execute_fresh_step sv sid)
     (\<lambda>_. stepped sid (weight SReady k)) only_cancel"
  unfolding execute_fresh_step_def
proof (intro triple_andthen[OF at_get_step_any] triple_andthen[OF at_user_action])
  fix s h
  have contract: "triple (at_step sid RRunning SReady k) (contract_violation sv sid t)
      (\<lambda>_. stepped sid (weight SReady k)) only_cancel" for t
    by (rule triple_conseq[OF at_contract]) (auto intro!: stepped_done[where x = SFailed])
  show "triple (\<lambda>w. if h then at_step sid RRunning SSkipped k w else at_step sid RRunning SReady k w)
      (if h then ret ()
       else if \<not> sv_trust_engine sv then contract_violation sv sid ''missing TrustEngine''
       else if step_capability [] s = [] then contract_violation sv sid ''empty capability''
       else andthen (gate_step sv sid (step_capability [] s)) (run_cleared_step sv sid (step_capability [] s)))
      (\<lambda>_. stepped sid (weight SReady k)) only_cancel"
  proof (cases h)
    case True
    then show ?thesis by (auto simp: triple_def ret_def intro!: stepped_done[where x = SSkipped])
  next
    case False
    show ?thesis
      unfolding if_not_P[OF False]
      by (intro triple_if contract triple_andthen[OF at_gate] at_cleared)
  qed
qed

lemma at_approved:
  "triple (at_step sid RRunning SRunning k) (execute_approved_step sv sid)
     (\<lambda>_. stepped sid (weight SRunning k)) only_cancel"
  unfolding execute_approved_step_def Let_def
  by (intro at_act triple_andthen[OF at_get_step_any] triple_andthen[OF at_get_any] at_finish at_credit)

section \<open>What a step's pipeline leaves unchanged\<close>

context observation
begin

lemma keeps_start: "keeps f (start_step sv sid)"
  unfolding start_step_def by (intro keeps_intros keeps_rows) simp_all

lemma keeps_settle: "keeps f (settle_outcome sv sid oc)"
  unfolding settle_outcome_def
  by (cases oc) (simp_all, (intro keeps_intros keeps_rows keeps_defer keeps_failure, simp?)+)

lemma keeps_user_action: "keeps f (handle_user_action_step sv sid)"
  unfolding handle_user_action_step_def by (intro keeps_intros keeps_rows) simp_all

lemma keeps_contract: "keeps f (contract_violation sv sid r)"
  unfolding contract_violation_def by (intro keeps_intros keeps_rows) simp_all

lemma keeps_stamp: "keeps f (set_step sid (stamp_decision_type t))"
  by (rule keeps_set_step) (simp add: stamp_decision_type_def split: option.split)

end

text \<open>An observation that does not look at trust, approvals or the executor's log either is unchanged by
  the whole pipeline of step \<open>sid\<close>.\<close>

locale step_observation = observation +
  assumes ignores_trust: "f (w\<lparr>w_trust := t\<rparr>) = f w"
    and ignores_approvals: "f (w\<lparr>w_approvals := as\<rparr>) = f w"
    and ignores_actions: "f (w\<lparr>w_actions := cs\<rparr>) = f w"
begin

lemma keeps_gate: "keeps f (gate_step sv sid c)"
  unfolding gate_step_def
  by (intro keeps_intros keeps_rows keeps_pause) (simp_all add: ignores_trust ignores_approvals)

lemma keeps_action: "keeps f (run_step_action sv sid pre)"
  unfolding run_step_action_def by (intro keeps_intros keeps_rows) (simp add: ignores_actions)

lemma keeps_reinforce: "keeps f (reinforce_trust sv c pre risk d v)"
  unfolding reinforce_trust_def record_auto_execution_outcome_def
  by (intro keeps_intros keeps_trust_outcome) (simp add: ignores_trust)

lemma keeps_credit: "keeps f (credit_approval sv sid c risk v)"
  unfolding credit_approval_def record_user_approval_outcome_def read_approval_decision_type_def
  by (intro keeps_intros keeps_trust_outcome keeps_stamp) (simp add: ignores_trust)

lemma keeps_execute_step: "keeps f (execute_step sv sid)"
  unfolding execute_step_def execute_fresh_step_def execute_approved_step_def run_cleared_step_def
  by (intro keeps_intros keeps_rows keeps_start keeps_settle keeps_user_action keeps_contract keeps_gate
      keeps_action keeps_reinforce keeps_credit keeps_finalize)

end

interpretation pipeline_ids: step_observation sid "\<lambda>w. map step_id (w_steps w)" for sid
  by unfold_locales simp_all

interpretation pipeline_others: step_observation sid "\<lambda>w. filter (\<lambda>s. step_id s \<noteq> sid) (w_steps w)" for sid
  by unfold_locales simp_all

section \<open>The loop ends\<close>

definition step_weight :: "task_step \<Rightarrow> nat" where
  "step_weight s = weight (step_status s) (step_max_retries s - step_retry_count s)"

definition total_weight :: "world \<Rightarrow> nat" where
  "total_weight w = sum_list (map step_weight (w_steps w))"

lemma total_weight_split:
  assumes "distinct (map step_id rows)" and "row_find step_id sid rows = Some s"
  shows "sum_list (map step_weight rows)
    = step_weight s + sum_list (map step_weight (filter (\<lambda>s. step_id s \<noteq> sid) rows))"
  using assms
proof (induction rows)
  case Nil
  then show ?case by simp
next
  case (Cons r rows)
  show ?case
  proof (cases "step_id r = sid")
    case True
    have "sid \<notin> step_id ` set rows" using True Cons.prems(1) by simp
    then have "\<forall>x \<in> set rows. step_id x \<noteq> sid" by (metis imageI)
    then have "filter (\<lambda>s. step_id s \<noteq> sid) rows = rows" by (rule filter_True)
    then show ?thesis using True Cons.prems(2) by simp
  next
    case False
    then show ?thesis using Cons by simp
  qed
qed

lemma row_find_filter: "j \<noteq> sid \<Longrightarrow> row_find step_id j (filter (\<lambda>s. step_id s \<noteq> sid) rows) = row_find step_id j rows"
  by (induction rows) auto

lemma step_progress:
  assumes w: "distinct (map step_id (w_steps w))" "run_status (w_run w) = RRunning"
    and s: "row_find step_id sid (w_steps w) = Some s" "step_status s \<in> {SReady, SRunning}"
  shows "(let (res, w') = execute_step sv sid w
     in map step_id (w_steps w') = map step_id (w_steps w)
        \<and> (\<forall>j. j \<noteq> sid \<longrightarrow> row_find step_id j (w_steps w') = row_find step_id j (w_steps w))
        \<and> (res = Inl CancellationRequested \<or> parked w'
           \<or> run_status (w_run w') = RRunning \<and> total_weight w' < total_weight w))"
proof -
  obtain res w' where e: "execute_step sv sid w = (res, w')" by (cases "execute_step sv sid w")
  have ids: "map step_id (w_steps w') = map step_id (w_steps w)"
    and others: "filter (\<lambda>s. step_id s \<noteq> sid) (w_steps w') = filter (\<lambda>s. step_id s \<noteq> sid) (w_steps w)"
    using keepsD[OF pipeline_ids.keeps_execute_step[where sid = sid and sv = sv], of w]
      keepsD[OF pipeline_others.keeps_execute_step[where sid = sid and sv = sv], of w] by (simp_all add: e)
  let ?k = "step_max_retries s - step_retry_count s"
  have at: "at_step sid RRunning (step_status s) ?k w" using w(2) s(1) by (simp add: at_step_def)
  have "triple (at_step sid RRunning (step_status s) ?k)
      (if step_status s = SRunning then execute_approved_step sv sid else execute_fresh_step sv sid)
      (\<lambda>_. stepped sid (step_weight s)) only_cancel"
    using s(2) at_fresh[of sid ?k sv] at_approved[of sid ?k sv] by (auto simp: step_weight_def)
  then have "(case res of Inl e \<Rightarrow> e = CancellationRequested | Inr _ \<Rightarrow> stepped sid (step_weight s) w')"
    using at e s(1)
    by (auto simp: triple_def execute_step_def andthen_def get_step_def only_cancel_def split: sum.splits)
  moreover have "run_status (w_run w') = RRunning \<and> total_weight w' < total_weight w"
    if l: "lighter sid (step_weight s) w'"
  proof -
    obtain s' where s': "row_find step_id sid (w_steps w') = Some s'" "step_weight s' < step_weight s"
      "run_status (w_run w') = RRunning"
      using l by (auto simp: lighter_def at_step_def step_weight_def)
    have d: "distinct (map step_id (w_steps w'))" using w(1) by (simp add: ids)
    show ?thesis
      using total_weight_split[OF d s'(1)] total_weight_split[OF w(1) s(1)] s'(2,3)
      by (simp add: total_weight_def others)
  qed
  moreover have "row_find step_id j (w_steps w') = row_find step_id j (w_steps w)" if "j \<noteq> sid" for j
    using row_find_filter[OF that, of "w_steps w'"] row_find_filter[OF that, of "w_steps w"] others by simp
  ultimately show ?thesis by (cases res) (auto simp: e ids stepped_def)
qed

lemma batch_progress:
  assumes "distinct (map step_id (w_steps w))" "run_status (w_run w) = RRunning" "distinct ids"
    and "\<forall>i \<in> set ids. \<exists>s. row_find step_id i (w_steps w) = Some s \<and> step_status s \<in> {SReady, SRunning}"
  shows "(let (going, w') = run_batch sv ids w
     in map step_id (w_steps w') = map step_id (w_steps w)
        \<and> (\<not> going \<or> parked w' \<or> run_status (w_run w') = RRunning
             \<and> (if ids = [] then w' = w else total_weight w' < total_weight w)))"
  using assms
proof (induction ids arbitrary: w)
  case Nil
  then show ?case by simp
next
  case (Cons i ids)
  obtain s where s: "row_find step_id i (w_steps w) = Some s" "step_status s \<in> {SReady, SRunning}"
    using Cons.prems(4) by auto
  obtain res w1 where e: "execute_step sv i w = (res, w1)" by (cases "execute_step sv i w")
  note p = step_progress[OF Cons.prems(1,2) s, of sv, unfolded e Let_def prod.case]
  show ?case
  proof (cases "res = Inl CancellationRequested \<or> run_status (w_run w1) \<in> set PARKED_IN_BATCH")
    case True
    then show ?thesis using p e by (auto simp: parked_def PARKED_IN_BATCH_def)
  next
    case False
    then have np: "run_status (w_run w1) = RRunning" "total_weight w1 < total_weight w"
      using p by (auto simp: parked_def PARKED_IN_BATCH_def)
    have d: "distinct (map step_id (w_steps w1))" using p Cons.prems(1) by simp
    have r: "\<forall>j \<in> set ids. \<exists>s. row_find step_id j (w_steps w1) = Some s \<and> step_status s \<in> {SReady, SRunning}"
      using Cons.prems(3,4) p by auto
    have "distinct ids" using Cons.prems(3) by simp
    from Cons.IH[OF d np(1) this r] show ?thesis
      using np(2) p e False by (auto simp: Let_def split: prod.splits if_splits)
  qed
qed

lemma begin_batch_facts:
  assumes "distinct (map step_id (w_steps w))"
  shows "(let (ids, w1) = begin_batch w
     in map step_id (w_steps w1) = map step_id (w_steps w) \<and> run_status (w_run w1) = run_status (w_run w)
        \<and> total_weight w1 \<le> total_weight w \<and> distinct ids
        \<and> (\<forall>i \<in> set ids. \<exists>s. row_find step_id i (w_steps w1) = Some s \<and> step_status s \<in> {SReady, SRunning}))"
proof -
  let ?rows = "w_steps w" and ?r = "ready_step (w_steps w)"
  have id: "step_id (snd (?r s)) = step_id s" for s by (simp add: ready_step_eq)
  have le: "step_weight (snd (?r s)) \<le> step_weight s" for s
    by (simp add: ready_step_eq step_weight_def)
  have mono: "sum_list (map step_weight (map (\<lambda>s. snd (?r s)) rows)) \<le> sum_list (map step_weight rows)" for rows
    by (induction rows) (use le in \<open>auto intro: add_mono\<close>)
  have ids: "map step_id (map (\<lambda>s. snd (?r s)) ?rows) = map step_id ?rows" by (simp add: id)
  have ready: "map step_id (fst (get_ready_steps ?rows)) = map step_id (filter (\<lambda>s. fst (?r s)) ?rows)"
    by (simp add: get_ready_steps_def filter_map o_def id)
  have d: "distinct (map step_id (map (\<lambda>s. snd (?r s)) ?rows))" using assms by (simp only: ids)
  have "\<exists>s. row_find step_id i (map (\<lambda>s. snd (?r s)) ?rows) = Some s \<and> step_status s \<in> {SReady, SRunning}"
    if i: "i \<in> set (map step_id (fst (get_ready_steps ?rows)))" for i
  proof -
    from i obtain s where s: "s \<in> set ?rows" "fst (?r s)" "step_id s = i" unfolding ready by auto
    then have "snd (?r s) \<in> set (map (\<lambda>s. snd (?r s)) ?rows) \<and> step_id (snd (?r s)) = i
        \<and> step_status (snd (?r s)) \<in> {SReady, SRunning}"
      by (auto simp: ready_step_eq)
    then show ?thesis using row_find_Some_iff_distinct[OF d] by metis
  qed
  moreover have "distinct (map step_id (fst (get_ready_steps ?rows)))"
    unfolding ready using assms by (rule distinct_map_filter)
  moreover obtain ids' w1 where b: "begin_batch w = (ids', w1)" by (cases "begin_batch w")
  moreover have "ids' = map step_id (fst (get_ready_steps ?rows))"
    "w_steps w1 = map (\<lambda>s. snd (?r s)) ?rows" "run_status (w_run w1) = run_status (w_run w)"
    using b by (auto simp: begin_batch_def get_ready_steps_def Let_def)
  ultimately show ?thesis
    using mono[of ?rows] ids by (simp add: total_weight_def)
qed

text \<open>The loop always ends. Its iterations are bounded by the retries the steps have left: with the
  sum over the steps of four times the retries left plus three (or the total weight, which is at most
  that), as fuel, \<open>execute_dag\<close> returns, whatever the executor, the model and the read-backs answer.
  The run row that is refreshed is the session's own.\<close>

theorem execute_dag_terminates:
  assumes "distinct (map step_id (w_steps w))" and "run_status (w_run w) = RRunning"
    and "\<forall>r. sv_refresh sv r = r" and "total_weight w < fuel"
  shows "\<exists>r. execute_dag sv fuel w = Some r"
  using assms(1,2,4)
proof (induction fuel arbitrary: w)
  case 0
  then show ?case by simp
next
  case (Suc fuel)
  obtain ids w1 where b: "begin_batch w = (ids, w1)" by (cases "begin_batch w")
  note bf = begin_batch_facts[OF Suc.prems(1), unfolded b Let_def prod.case]
  show ?case
  proof (cases "ids = []")
    case True
    then show ?thesis by (simp add: b)
  next
    case False
    obtain going w2 where r: "run_batch sv ids w1 = (going, w2)" by (cases "run_batch sv ids w1")
    have d1: "distinct (map step_id (w_steps w1))" "run_status (w_run w1) = RRunning"
      using bf Suc.prems(1,2) by simp_all
    have p: "map step_id (w_steps w2) = map step_id (w_steps w1)"
      "\<not> going \<or> parked w2 \<or> run_status (w_run w2) = RRunning \<and> total_weight w2 < total_weight w1"
      using batch_progress[OF d1, of ids sv] bf False by (auto simp: r)
    have refresh: "w2\<lparr>w_run := sv_refresh sv (w_run w2)\<rparr> = w2" using assms(3) by simp
    show ?thesis
    proof (cases "\<not> going \<or> run_status (w_run w2) \<in> set PARKED_AFTER_BATCH")
      case True
      then show ?thesis using False by (auto simp: b r refresh)
    next
      case nf: False
      then have "run_status (w_run w2) = RRunning" "total_weight w2 < fuel"
        using p(2) bf Suc.prems(3) by (auto simp: parked_def PARKED_AFTER_BATCH_def)
      moreover have "distinct (map step_id (w_steps w2))" using p(1) d1(1) by simp
      ultimately obtain res where "execute_dag sv fuel w2 = Some res" using Suc.IH by blast
      then show ?thesis using False nf by (simp add: b r refresh)
    qed
  qed
qed

lemma execute_dag_more_fuel: "execute_dag sv fuel w = Some r \<Longrightarrow> execute_dag sv (fuel + n) w = Some r"
proof (induction fuel arbitrary: w)
  case 0
  then show ?case by simp
next
  case (Suc fuel)
  then show ?case by (auto simp: Let_def split: prod.splits if_splits)
qed

section \<open>What is sent to the executor\<close>

definition sample_services :: services where
  "sample_services =
     \<lparr>sv_trust_engine = True, sv_presence = ''absent'', sv_reauth = True, sv_verifier = None,
      sv_risk = (\<lambda>_ _ _ _. Some \<lparr>ra_risk_level = ''low'', ra_reasoning = ''r'', ra_reversible = True, ra_blast_radius = ''self''\<rparr>),
      sv_action = (\<lambda>n _ _ _. if n = 0 then ActAuthRequired ''google'' [] else ActOutput [(''event_id'', JStr ''e1'')]),
      sv_readback = (\<lambda>_ _. Inr (JObj [(''id'', JStr ''e1'')])),
      sv_provider_for_server = (\<lambda>s. s), sv_classify = (\<lambda>e. (e, e)), sv_correlation = ''c'',
      sv_refresh = (\<lambda>r. r), sv_now = 0, sv_iso_now = ''t'', sv_elapsed_ms = 1, sv_ulid = (\<lambda>_. ''u''),
      sv_py_str = (\<lambda>_. [])\<rparr>"

definition dag_step :: "string \<Rightarrow> string list \<Rightarrow> string \<Rightarrow> step_status \<Rightarrow> task_step" where
  "dag_step sid deps capability st =
     \<lparr>step_id = sid, step_run_id = ''run_1'', step_workspace_id = ''ws'', step_task_id = sid, step_type = None,
      step_name = None, step_depends_on = (if deps = [] then None else Some deps), step_status = st,
      step_input_data = Some [(''capability'', JStr capability)], step_output_data = None, step_error = None,
      step_retry_count = 0, step_max_retries = 3, step_timeout_seconds = None, step_started_at = None,
      step_completed_at = None\<rparr>"

definition dag_run :: "run_status \<Rightarrow> task_run" where
  "dag_run st =
     \<lparr>run_id = ''run_1'', run_plan_id = None, run_user_id = ''u'', run_workspace_id = ''ws'', run_status = st,
      run_source = ''plan'', run_execution_mode = None, run_current_step_ids = None, run_checkpoint = None,
      run_started_at = None, run_completed_at = None, run_error = None\<rparr>"

definition dag_world :: "task_step list \<Rightarrow> world" where
  "dag_world steps =
     \<lparr>w_run = dag_run RRunning, w_steps = steps, w_checkpoints = [], w_approvals = [],
      w_trust = \<lparr>td_states = [], td_ceilings = []\<rparr>, w_events = [], w_actions = [], w_needs_reauth = []\<rparr>"

text \<open>The verdict of the trust engine that a gated step meets.\<close>

definition gate_verdict :: "services \<Rightarrow> task_step \<Rightarrow> world \<Rightarrow> string" where
  "gate_verdict sv s w =
     (let c = step_capability [] s; ws = run_workspace_id (w_run w)
      in pd_decision (fst (evaluate ws c (assess_step_risk sv c s (w_run w)) (Some ws) (w_trust w))))"

definition dispatched :: "services \<Rightarrow> task_step \<Rightarrow> world \<Rightarrow> action_call list" where
  "dispatched sv s w =
     (let c = step_capability [] s; call = (\<lambda>pre. [\<lparr>ac_step_id = step_id s, ac_pre_approved = pre\<rparr>])
      in if is_user_action_step s \<or> \<not> sv_trust_engine sv \<or> c = [] then []
         else if gate_exempt c \<or> gate_verdict sv s w \<noteq> ''approval_required'' then call True
         else if sv_presence sv = ''present'' then []
         else call False)"

lemma acts_run:
  "triple (\<lambda>w. at_step sid rs x k w \<and> w_actions w = A) (run_step_action sv sid pre)
     (\<lambda>_ w. w_actions w = A @ [\<lparr>ac_step_id = sid, ac_pre_approved = pre\<rparr>]) E"
  by (auto simp: triple_def run_step_action_def get_step_def at_step_def emit_def andthen_def modify_def get_def ret_def)

lemma acts_keep:
  fixes m :: "'a dag"
  shows "keeps w_actions m \<Longrightarrow> triple (\<lambda>w. w_actions w = A) m (\<lambda>_ w. w_actions w = A) (\<lambda>_ w. w_actions w = A)"
  by (rule triple_keeps[where f = w_actions and Q = "\<lambda>a. a = A"]) simp_all

lemma trust_writes_keep_actions:
  "keeps w_actions (reinforce_trust sv c pre risk d v)" "keeps w_actions (credit_approval sv sid c rk v)"
proof -
  show "keeps w_actions (reinforce_trust sv c pre risk d v)"
    unfolding reinforce_trust_def record_auto_execution_outcome_def
    by (intro keeps_intros actions.keeps_trust_outcome) simp
  show "keeps w_actions (credit_approval sv sid c rk v)"
    unfolding credit_approval_def record_user_approval_outcome_def read_approval_decision_type_def
    by (intro keeps_intros actions.keeps_trust_outcome actions.keeps_stamp) simp
qed

lemma acts_act:
  assumes "\<And>out. keeps w_actions (fin out)"
  shows "triple (\<lambda>w. at_step sid rs SRunning k w \<and> w_actions w = A)
    (andthen (start_step sv sid) (\<lambda>_. andthen (run_step_action sv sid pre) (\<lambda>outcome.
     andthen (settle_outcome sv sid outcome) (\<lambda>r. case r of None \<Rightarrow> ret () | Some out \<Rightarrow> fin out))))
    (\<lambda>_ w. w_actions w = A @ [\<lparr>ac_step_id = sid, ac_pre_approved = pre\<rparr>])
    (\<lambda>_ w. w_actions w = A @ [\<lparr>ac_step_id = sid, ac_pre_approved = pre\<rparr>])"
  by (intro triple_andthen[OF triple_frame[OF at_start actions.keeps_start]] triple_andthen[OF acts_run]
      acts_keep keeps_intros actions.keeps_settle assms)

lemma acts_cleared:
  "triple (\<lambda>w. at_step sid rs SReady k w \<and> w_actions w = A) (run_cleared_step sv sid c (Some (pre, risk, d)))
     (\<lambda>_ w. w_actions w = A @ [\<lparr>ac_step_id = sid, ac_pre_approved = pre\<rparr>])
     (\<lambda>_ w. w_actions w = A @ [\<lparr>ac_step_id = sid, ac_pre_approved = pre\<rparr>])"
  unfolding run_cleared_step_def option.case prod.case
  by (intro triple_andthen[OF triple_frame[OF at_move_step actions.keeps_move_step]] acts_act keeps_intros
      actions.keeps_finalize trust_writes_keep_actions) (simp add: status_tables)

lemma acts_approved:
  "triple (\<lambda>w. at_step sid rs SRunning k w \<and> w_actions w = A) (execute_approved_step sv sid)
     (\<lambda>_ w. w_actions w = A @ [\<lparr>ac_step_id = sid, ac_pre_approved = True\<rparr>])
     (\<lambda>_ w. w_actions w = A @ [\<lparr>ac_step_id = sid, ac_pre_approved = True\<rparr>])"
  unfolding execute_approved_step_def
  by (intro acts_act keeps_intros actions.keeps_rows actions.keeps_finalize trust_writes_keep_actions)

text \<open>The gate as a function of the state.\<close>

lemma gate_step_eval:
  assumes "row_find step_id sid (w_steps w) = Some s"
  shows "gate_step sv sid (step_capability [] s) w =
    (let c = step_capability [] s; ws = run_workspace_id (w_run w);
         risk = assess_step_risk sv c s (w_run w);
         (d, t) = evaluate ws c risk (Some ws) (w_trust w);
         w1 = w\<lparr>w_trust := t\<rparr>
     in if gate_exempt c then (Inr (Some (True, None, None)), w)
        else if gate_verdict sv s w \<noteq> ''approval_required'' then (Inr (Some (True, Some risk, Some d)), w1)
        else if sv_presence sv = ''present''
        then andthen (create_approval_and_pause sv sid c risk d) (\<lambda>_. ret None) w1
        else (Inr (Some (False, Some risk, Some d)), w1))"
  using assms
  by (simp add: gate_step_def gate_verdict_def get_step_def andthen_def get_def modify_def ret_def Let_def
      split_beta resolve_confirmation_def)

lemma user_action_eval:
  assumes "row_find step_id sid (w_steps w) = Some s" and "step_status s = SReady"
  shows "\<exists>w'. handle_user_action_step sv sid w = (Inr (is_user_action_step s), w')
    \<and> w_actions w' = w_actions w \<and> (\<not> is_user_action_step s \<longrightarrow> w' = w)"
proof (cases "is_user_action_step s")
  case False
  then show ?thesis using assms by (simp add: handle_user_action_step_def andthen_def get_step_def ret_def)
next
  case True
  then show ?thesis
    using assms
    by (simp add: handle_user_action_step_def andthen_def get_step_def ret_def get_def emit_def modify_def
        move_step_def set_step_def transition_step_def status_tables row_find_update)
qed

text \<open>C1. The gate decides what reaches the executor. A ready step is sent once with its capability
  pre-approved if it is exempt or the trust engine did not ask for approval; if it asked, the step is
  not sent at all when the user is present, and is sent with the capability withheld when nobody is; a
  founder's step, a missing engine and an empty capability send nothing. A step that is already
  running is sent pre-approved without being gated.\<close>

theorem gate_decides_dispatch:
  assumes "row_find step_id sid (w_steps w) = Some s" and "step_status s \<in> {SReady, SRunning}"
  shows "w_actions (snd (execute_step sv sid w)) = w_actions w @
    (if step_status s = SReady then dispatched sv s w
     else [\<lparr>ac_step_id = sid, ac_pre_approved = True\<rparr>])"
proof -
  let ?rs = "run_status (w_run w)" and ?k = "step_max_retries s - step_retry_count s"
  have sid: "step_id s = sid" using row_find_SomeD[OF assms(1)] by simp
  have at: "at_step sid ?rs (step_status s) ?k w" using assms(1) by (simp add: at_step_def)
  have ends: "w_actions (snd (m w')) = X" if "triple P m (\<lambda>_ w. w_actions w = X) (\<lambda>_ w. w_actions w = X)" "P w'"
    for P m X and w' :: world
    using triple_end[OF that] .
  have step: "execute_step sv sid w =
      (if step_status s = SRunning then execute_approved_step sv sid w else execute_fresh_step sv sid w)"
    using assms(1) by (simp add: execute_step_def andthen_def get_step_def)
  show ?thesis
  proof (cases "step_status s = SRunning")
    case True
    then show ?thesis
      unfolding step using ends[OF acts_approved[where k = ?k and rs = ?rs]] at by simp
  next
    case False
    with assms(2) have ready: "step_status s = SReady" by simp
    let ?c = "step_capability [] s"
    obtain w0 where u: "handle_user_action_step sv sid w = (Inr (is_user_action_step s), w0)"
      "w_actions w0 = w_actions w" "\<not> is_user_action_step s \<longrightarrow> w0 = w"
      using user_action_eval[OF assms(1) ready] by blast
    have fresh: "execute_fresh_step sv sid w =
        (if is_user_action_step s then (Inr (), w0)
         else if \<not> sv_trust_engine sv then contract_violation sv sid ''missing TrustEngine'' w
         else if ?c = [] then contract_violation sv sid ''empty capability'' w
         else andthen (gate_step sv sid ?c) (run_cleared_step sv sid ?c) w)"
      using assms(1) u by (simp add: execute_fresh_step_def andthen_def get_step_def ret_def)
    have contract: "w_actions (snd (contract_violation sv sid t w)) = w_actions w" for t
      by (rule keepsD[OF actions.keeps_contract])
    have cleared: "w_actions (snd (run_cleared_step sv sid ?c (Some (pre, r, d)) (w\<lparr>w_trust := t\<rparr>)))
        = w_actions w @ [\<lparr>ac_step_id = sid, ac_pre_approved = pre\<rparr>]" for pre r d t
      by (rule ends[OF acts_cleared[where k = ?k and rs = ?rs]]) (use at ready in \<open>simp add: at_step_def\<close>)
    have cleared0: "w_actions (snd (run_cleared_step sv sid ?c (Some (pre, r, d)) w))
        = w_actions w @ [\<lparr>ac_step_id = sid, ac_pre_approved = pre\<rparr>]" for pre r d
      by (rule ends[OF acts_cleared[where k = ?k and rs = ?rs]]) (use at ready in simp)
    have paused: "w_actions (snd (andthen (andthen (create_approval_and_pause sv sid ?c r d) (\<lambda>_. ret None))
        (run_cleared_step sv sid ?c) (w\<lparr>w_trust := t\<rparr>))) = w_actions w" for r d t
    proof -
      have "keeps w_actions (andthen (andthen (create_approval_and_pause sv sid ?c r d) (\<lambda>_. ret None))
          (run_cleared_step sv sid ?c))"
        unfolding andthen_assoc andthen_ret
        by (intro keeps_intros actions.keeps_pause) (simp_all add: run_cleared_step_def keeps_intros)
      from keepsD[OF this, of "w\<lparr>w_trust := t\<rparr>"] show ?thesis by simp
    qed
    obtain d t where dt: "evaluate (run_workspace_id (w_run w)) ?c (assess_step_risk sv ?c s (w_run w))
        (Some (run_workspace_id (w_run w))) (w_trust w) = (d, t)"
      by (metis prod.exhaust)
    note gate = gate_step_eval[OF assms(1), of sv, unfolded Let_def dt prod.case]
    have "w_actions (snd (andthen (gate_step sv sid ?c) (run_cleared_step sv sid ?c) w)) = w_actions w @
        (if gate_exempt ?c \<or> gate_verdict sv s w \<noteq> ''approval_required''
         then [\<lparr>ac_step_id = sid, ac_pre_approved = True\<rparr>]
         else if sv_presence sv = ''present'' then [] else [\<lparr>ac_step_id = sid, ac_pre_approved = False\<rparr>])"
    proof (cases "\<not> gate_exempt ?c \<and> gate_verdict sv s w = ''approval_required'' \<and> sv_presence sv = ''present''")
      case True
      then have "gate_step sv sid ?c w = andthen (create_approval_and_pause sv sid ?c
          (assess_step_risk sv ?c s (w_run w)) d) (\<lambda>_. ret None) (w\<lparr>w_trust := t\<rparr>)"
        using gate by simp
      then have "andthen (gate_step sv sid ?c) (run_cleared_step sv sid ?c) w =
          andthen (andthen (create_approval_and_pause sv sid ?c (assess_step_risk sv ?c s (w_run w)) d) (\<lambda>_. ret None))
            (run_cleared_step sv sid ?c) (w\<lparr>w_trust := t\<rparr>)"
        by (simp add: andthen_def)
      then show ?thesis using True paused by simp
    next
      case False
      then show ?thesis
        using gate cleared cleared0 by (auto simp: andthen_def)
    qed
    then show ?thesis
      using u(2) contract False unfolding step fresh by (simp add: dispatched_def Let_def sid ready)
  qed
qed

section \<open>Invariants of whole runs\<close>

text \<open>A set of states that the helpers of \<open>finish_dag\<close> do not leave is not left by it, and one that no
  step leaves is not left by a run.\<close>

lemma stays_finish_dag:
  assumes move: "\<And>rs. rs \<noteq> RAwaitingApproval \<Longrightarrow> stays I (move_run rs)" and emit: "\<And>t p. stays I (emit t p)"
    and on_run: "\<And>g. (\<And>r. run_status (g r) = run_status r \<and> run_id (g r) = run_id r) \<Longrightarrow> stays I (set_run g)"
    and save: "\<And>j r. stays I (save_checkpoint sv j r)"
    and park: "\<And>w. I w \<Longrightarrow> I (w\<lparr>w_run := snd (park_if_blocked_on_founder (w_run w) (w_steps w))\<rparr>)"
  shows "stays I (finish_dag sv)"
proof -
  have verify: "stays I (run_verification sv)"
    unfolding run_verification_def
    by (auto split: option.split intro!: stays_andthen stays_simple stays_branch move on_run save)
  show ?thesis
    unfolding stays_def
  proof (intro allI impI)
    fix w assume i: "I w"
    have either: "I (snd (m w)) \<Longrightarrow> I (snd (n w)) \<Longrightarrow> I (snd ((if b then m else n) w))" for b m n by simp
    have park_here: "I (snd (andthen (set_run (\<lambda>_. snd (park_if_blocked_on_founder (w_run w) (w_steps w))))
        (\<lambda>_. emit t p) w))" for t p
      using staysD[OF emit park[OF i]] by (simp add: set_run_def andthen_def modify_def)
    have complete: "I (snd (andthen (move_run (if sv_verifier sv \<noteq> None then RPartiallyCompleted else RCompleted)) (\<lambda>_.
         andthen (set_run (\<lambda>r. r\<lparr>run_completed_at := Some (sv_now sv)\<rparr>)) (\<lambda>_.
         andthen get (\<lambda>w1.
         andthen (emit ''run_completed'' (run_completed_payload (w_run w1))) (\<lambda>_.
         run_verification sv)))) w))"
      by (rule staysD[where I = I, OF _ i], intro stays_andthen stays_simple verify move on_run emit) simp_all
    have fail: "I (snd (andthen (move_run RFailed) (\<lambda>_. set_run (\<lambda>r. r\<lparr>run_completed_at := c, run_error := e\<rparr>)) w))" for c e
      by (rule staysD[where I = I, OF _ i], intro stays_andthen move on_run) simp_all
    show "I (snd (finish_dag sv w))"
      unfolding finish_dag_def andthen_get Let_def split_beta
      by (intro either complete[unfolded andthen_get] fail park_here) (simp add: ret_def i)
  qed
qed

lemma execute_dag_stays:
  assumes step: "\<And>sid. stays I (execute_step sv sid)" and finish: "stays I (finish_dag sv)"
    and start: "\<And>w. I w \<Longrightarrow> I (snd (begin_batch w))" and refresh: "\<forall>r. sv_refresh sv r = r"
  shows "I w \<Longrightarrow> execute_dag sv fuel w = Some (res, w') \<Longrightarrow> I w'"
proof (induction fuel arbitrary: w)
  case 0
  then show ?case by simp
next
  case (Suc fuel)
  have batch: "I v \<Longrightarrow> I (snd (run_batch sv ids v))" for ids v
  proof (induction ids arbitrary: v)
    case Nil
    then show ?case by simp
  next
    case (Cons i ids)
    have "I (snd (execute_step sv i v))" by (rule staysD[OF step Cons.prems])
    with Cons.IH show ?case by (auto simp: Let_def split_beta)
  qed
  obtain ids w1 where b: "begin_batch w = (ids, w1)" by (cases "begin_batch w")
  have i1: "I w1" using start[OF Suc.prems(1)] by (simp add: b)
  obtain going w2 where r: "run_batch sv ids w1 = (going, w2)" by (cases "run_batch sv ids w1")
  have i2: "I w2" using batch[OF i1, of ids] by (simp add: r)
  have same: "w2\<lparr>w_run := sv_refresh sv (w_run w2)\<rparr> = w2" using refresh by simp
  have i3: "I (snd (finish_dag sv w1))" by (rule staysD[OF finish i1])
  show ?case
    using Suc.prems(2) i2 i3 Suc.IH[OF i2]
    by (auto simp: b r same Let_def split: if_splits)
qed

end
