(* ===== verification/Dag_Properties.thy ===== *)
theory Dag_Properties
  imports Dag_Runner
begin

text \<open>
  Properties of whole runs of \<open>backend/src/services/dag_runner.py\<close>: runs with nobody present, trust
  after a prepared step, what a finished run says about its steps, steps resumed after a
  re-authorisation, and steps of the founder. The samples are those of \<open>Dag_Runner\<close>.
\<close>

theorem gate_decides_dispatch_witness:
  "w_actions (snd (execute_step sample_services ''s1'' (dag_world [dag_step ''s1'' [] ''email.send'' SReady])))
     = [\<lparr>ac_step_id = ''s1'', ac_pre_approved = False\<rparr>]"
proof -
  let ?w = "dag_world [dag_step ''s1'' [] ''email.send'' SReady]"
  have f: "row_find step_id ''s1'' (w_steps ?w) = Some (dag_step ''s1'' [] ''email.send'' SReady)"
    by (simp add: dag_world_def dag_step_def)
  have r: "step_status (dag_step ''s1'' [] ''email.send'' SReady) \<in> {SReady, SRunning}"
    by (simp add: dag_step_def)
  have d: "dispatched sample_services (dag_step ''s1'' [] ''email.send'' SReady) ?w
      = [\<lparr>ac_step_id = ''s1'', ac_pre_approved = False\<rparr>]" by code_simp
  show ?thesis
    unfolding gate_decides_dispatch[OF f r] d by (simp add: dag_world_def dag_step_def)
qed

section \<open>Nobody present\<close>

text \<open>No approval is added and the run does not start waiting for one.\<close>

definition unasked :: "approval list \<Rightarrow> world \<Rightarrow> bool" where
  "unasked A w \<longleftrightarrow> w_approvals w = A \<and> run_status (w_run w) \<noteq> RAwaitingApproval"

lemma unasked_rows [stays_intros]:
  "stays (unasked A) (emit t p)" "stays (unasked A) (get_step i)" "stays (unasked A) (set_step i g)"
  "stays (unasked A) (move_step i st)" "stays (unasked A) (save_checkpoint sv j r)"
  by (auto simp: stays_def unasked_def emit_def get_step_def set_step_def move_step_def save_checkpoint_def
      checkpoint_def modify_def andthen_def raise_def Let_def split: option.split sum.split)

lemma unasked_set_run [stays_intros]:
  "(\<And>r. run_status (g r) \<noteq> RAwaitingApproval \<or> g r = r \<or> run_status (g r) = run_status r) \<Longrightarrow> stays (unasked A) (set_run g)"
  by (auto simp: stays_def unasked_def set_run_def modify_def) (metis)+

lemma unasked_move_run [stays_intros]:
  "st \<noteq> RAwaitingApproval \<Longrightarrow> stays (unasked A) (move_run st)"
  by (auto simp: stays_def unasked_def move_run_def set_run_def modify_def andthen_def get_def raise_def
      split: sum.split)

lemma unasked_world [stays_intros]:
  "stays (unasked A) (modify (\<lambda>w. w\<lparr>w_trust := h w\<rparr>))"
  "stays (unasked A) (modify (\<lambda>w. w\<lparr>w_actions := a w\<rparr>))"
  "stays (unasked A) (modify (\<lambda>w. w\<lparr>w_needs_reauth := n w\<rparr>))"
  by (auto simp: stays_def unasked_def modify_def)

lemma unasked_helpers [stays_intros]:
  "stays (unasked A) (defer_for_reauth sv sid r)"
  "stays (unasked A) (handle_step_failure sv sid e)"
  "stays (unasked A) (finalize_with_verification sv sid out c rk)"
  "stays (unasked A) (handle_user_action_step sv sid)"
  "stays (unasked A) (contract_violation sv sid t)"
  "stays (unasked A) (start_step sv sid)"
  "stays (unasked A) (run_step_action sv sid pre)"
  "stays (unasked A) (reinforce_trust sv c pre risk d v)"
  "stays (unasked A) (credit_approval sv sid c ra v)"
  unfolding defer_for_reauth_def defer_run_def handle_step_failure_def finalize_with_verification_def
    finalize_step_def escalate_divergence_def handle_user_action_step_def contract_violation_def start_step_def
    run_step_action_def reinforce_trust_def record_auto_execution_outcome_def credit_approval_def
    record_user_approval_outcome_def record_trust_outcome_def read_approval_decision_type_def
  by (intro stays_intros; simp)+

lemma unasked_settle [stays_intros]: "stays (unasked A) (settle_outcome sv sid oc)"
  unfolding settle_outcome_def by (cases oc) (simp_all, (intro stays_intros; simp?)+)

lemma unasked_execute_step:
  assumes "sv_presence sv \<noteq> ''present''"
  shows "stays (unasked A) (execute_step sv sid)"
proof -
  have gate: "stays (unasked A) (gate_step sv sid c)" for c
  proof -
    have "resolve_confirmation (sv_presence sv) \<noteq> ''interrupt''" using assms by (simp add: resolve_confirmation_def)
    then show ?thesis unfolding gate_step_def by (intro stays_intros; simp)
  qed
  have cleared: "stays (unasked A) (run_cleared_step sv sid c g)" for c g
    unfolding run_cleared_step_def by (intro stays_intros)
  show ?thesis
    unfolding execute_step_def execute_fresh_step_def execute_approved_step_def
    by (intro stays_intros gate cleared)
qed

lemma unasked_finish: "stays (unasked A) (finish_dag sv)"
proof (rule stays_finish_dag)
  fix w assume "unasked A w"
  then show "unasked A (w\<lparr>w_run := snd (park_if_blocked_on_founder (w_run w) (w_steps w))\<rparr>)"
    by (auto simp: unasked_def park_if_blocked_on_founder_def transition_run_def split: sum.split)
qed (intro stays_intros; simp)+

text \<open>A run with nobody present never freezes on an approval: whatever the steps, the model and the
  executor do, it creates no approval and does not end waiting for one.\<close>

lemma absent_run_never_waits_for_approval:
  assumes "sv_presence sv \<noteq> ''present''" and "\<forall>r. sv_refresh sv r = r"
    and "run_status (w_run w) \<noteq> RAwaitingApproval" and "execute_dag sv fuel w = Some (res, w')"
  shows "w_approvals w' = w_approvals w \<and> run_status (w_run w') \<noteq> RAwaitingApproval"
proof -
  have "unasked (w_approvals w) w'"
  proof (rule execute_dag_stays[OF unasked_execute_step[OF assms(1)] unasked_finish _ assms(2) _ assms(4)])
    show "unasked (w_approvals w) (snd (begin_batch v))" if "unasked (w_approvals w) v" for v
      using that by (auto simp: begin_batch_def unasked_def split_beta Let_def split: if_splits)
    show "unasked (w_approvals w) w" using assms(3) by (simp add: unasked_def)
  qed
  then show ?thesis by (simp add: unasked_def)
qed

section \<open>Trust after a step\<close>

lemma trust_observed:
  "observation sid (\<lambda>w. trust_row j (td_states (w_trust w)))"
  by unfold_locales simp_all

text \<open>Only a write the gate itself cleared earns trust: a ready step that is exempt, or for which
  approval was asked, leaves every row of the trust table as it was, whatever the executor reports
  and however its read-back comes out.\<close>

lemma uncleared_step_earns_no_trust:
  assumes "row_find step_id sid (w_steps w) = Some s" and "step_status s = SReady"
    and "gate_exempt (step_capability [] s) \<or> gate_verdict sv s w = ''approval_required''"
  shows "trust_row j (td_states (w_trust (snd (execute_step sv sid w)))) = trust_row j (td_states (w_trust w))"
proof -
  let ?f = "\<lambda>w. trust_row j (td_states (w_trust w))" and ?c = "step_capability [] s"
  note tr = observation.keeps_rows observation.keeps_start observation.keeps_settle
    observation.keeps_finalize observation.keeps_pause observation.keeps_contract
  note keep = tr[OF trust_observed]
  have act: "keeps ?f (run_step_action sv sid pre)" for pre
    unfolding run_step_action_def by (intro keeps_intros keep) simp
  have cleared: "keeps ?f (run_cleared_step sv sid ?c (Some (pre, r, d)))" if "\<not> pre \<or> d = None" for pre r d
  proof -
    have "keeps ?f (reinforce_trust sv ?c pre r d v)" for v
      unfolding reinforce_trust_def
      by (intro keeps_andthen keeps_simple) (use that in \<open>auto intro: keeps_simple\<close>)
    then show ?thesis
      unfolding run_cleared_step_def option.case prod.case by (intro keeps_intros keep act)
  qed
  have paused: "keeps ?f (andthen (andthen (create_approval_and_pause sv sid ?c r d) (\<lambda>_. ret None))
      (run_cleared_step sv sid ?c))" for r d
    unfolding andthen_assoc andthen_ret by (intro keeps_intros keep) (simp_all add: run_cleared_step_def keeps_intros)
  obtain d t where dt: "evaluate (run_workspace_id (w_run w)) ?c (assess_step_risk sv ?c s (w_run w))
      (Some (run_workspace_id (w_run w))) (w_trust w) = (d, t)"
    by (metis prod.exhaust)
  have t: "trust_row j (td_states t) = ?f w"
    using evaluate_keeps_rows[of j "run_workspace_id (w_run w)" ?c "assess_step_risk sv ?c s (w_run w)"
        "Some (run_workspace_id (w_run w))" "w_trust w"] by (simp add: dt)
  note gate = gate_step_eval[OF assms(1), of sv, unfolded Let_def dt prod.case]
  have gated: "?f (snd (andthen (gate_step sv sid ?c) (run_cleared_step sv sid ?c) w)) = ?f w"
  proof (cases "\<not> gate_exempt ?c \<and> sv_presence sv = ''present''")
    case True
    then have "andthen (gate_step sv sid ?c) (run_cleared_step sv sid ?c) w =
        andthen (andthen (create_approval_and_pause sv sid ?c (assess_step_risk sv ?c s (w_run w)) d) (\<lambda>_. ret None))
          (run_cleared_step sv sid ?c) (w\<lparr>w_trust := t\<rparr>)"
      using assms(3) gate by (simp add: andthen_def)
    then show ?thesis using keepsD[OF paused, of _ d "w\<lparr>w_trust := t\<rparr>"] t by simp
  next
    case False
    then show ?thesis
      using assms(3) gate keepsD[OF cleared, of False "Some d" _ "w\<lparr>w_trust := t\<rparr>"]
        keepsD[OF cleared, of True None None w] t
      by (auto simp: andthen_def)
  qed
  obtain w0 where u: "handle_user_action_step sv sid w = (Inr (is_user_action_step s), w0)"
    "\<not> is_user_action_step s \<longrightarrow> w0 = w"
    using user_action_eval[OF assms(1,2)] by blast
  have "?f (snd (handle_user_action_step sv sid w)) = ?f w"
    by (rule keepsD[OF observation.keeps_user_action[OF trust_observed]])
  then have u0: "?f w0 = ?f w" by (simp add: u(1))
  have c: "?f (snd (contract_violation sv sid x w)) = ?f w" for x
    by (rule keepsD[OF observation.keeps_contract[OF trust_observed]])
  show ?thesis
    using assms(1,2) u u0 c gated
    by (auto simp: execute_step_def execute_fresh_step_def andthen_def get_step_def ret_def)
qed

section \<open>Findings\<close>

text \<open>A step that was deferred for re-authorisation comes back pre-approved: nobody is present, the
  gate asks for approval, so the step is first run with its capability withheld; the executor
  reports that the provider must be reconnected and the step is left running; once the run is
  requeued and started again the same step is run with its capability pre-approved and, confirmed,
  is credited to the user as an approval, though nobody has been asked.\<close>

lemma deferred_step_resumes_pre_approved:
  "(let w0 = dag_world [dag_step ''s1'' [] ''calendar.create'' SPending];
        w1 = snd (the (execute_dag sample_services 16 w0));
        (requeued, run1) = requeue_deferred_run ''u'' ''google'' (w_run w1);
        w2 = w1\<lparr>w_run := run1\<lparr>run_status := RRunning\<rparr>\<rparr>;
        w3 = snd (the (execute_dag sample_services 16 w2))
    in gate_verdict sample_services (dag_step ''s1'' [] ''calendar.create'' SReady) w0 = ''approval_required''
       \<and> run_status (w_run w1) = RAwaitingReauth \<and> requeued
       \<and> map ac_pre_approved (w_actions w3) = [False, True]
       \<and> w_approvals w3 = []
       \<and> map step_status (w_steps w3) = [SCompleted]
       \<and> ts_approved_count (trust_row (''ws'', ''calendar.create'', ''low'') (td_states (w_trust w1))) = 0
       \<and> ts_approved_count (trust_row (''ws'', ''calendar.create'', ''low'') (td_states (w_trust w3))) = 1)"
  by code_simp

text \<open>A run all of whose steps have failed for good is reported completed: no step is pending, ready
  or running any more, so the loop takes its completion branch and announces run_completed.\<close>

lemma failed_steps_complete_the_run:
  "(let sv = sample_services\<lparr>sv_action := (\<lambda>_ _ _ _. ActError ''boom'')\<rparr>;
        (res, w) = the (execute_dag sv 32 (dag_world [dag_step ''s1'' [] ''email.list'' SPending,
                                                     dag_step ''s2'' [] ''email.read'' SPending]))
    in map step_status (w_steps w) = [SFailed, SFailed] \<and> run_status (w_run w) = RCompleted
       \<and> run_error (w_run w) = None \<and> list_ex (\<lambda>e. ev_type e = ''run_completed'') (w_events w))"
  by code_simp

text \<open>A dependent of a step the founder must perform never runs: the founder's step is recorded as
  skipped, a skipped step is not a success, and the run is parked waiting for input with the
  dependent still pending.\<close>

lemma founder_step_blocks_dependents:
  "(let steps = [(dag_step ''s1'' [] ''email.list'' SPending)\<lparr>step_type := Some USER_ACTION_TASK_TYPE\<rparr>,
                 dag_step ''s2'' [''s1''] ''email.list'' SPending];
        (res, w) = the (execute_dag sample_services 32 (dag_world steps))
    in map step_status (w_steps w) = [SSkipped, SPending] \<and> run_status (w_run w) = RAwaitingInput
       \<and> w_actions w = [])"
  by code_simp

end
