(* ===== verification/Run_Projection.thy ===== *)
theory Run_Projection
  imports Dag_Runner
begin

text \<open>
  Reading runs back. \<open>backend/src/services/runtime_projection.py\<close>: the read models over the rows
  (active and blocked runs) and the projection of a run folded from the \<open>runtime_events\<close> log alone;
  \<open>SurfaceEmitter.emit_event\<close>, which writes that log; \<open>backend/src/services/run_reconcile.py\<close>, which
  brings the rows up to the log at a resume. The log is the list of its rows in the order of \<open>seq\<close>.
  Not modelled: workload and summary counts, and the realtime copies of an event.
\<close>

section \<open>The log\<close>

record runtime_event =
  re_run_id :: "string option"
  re_step_id :: "string option"
  re_event_type :: string
  re_payload :: jdict

definition underscored :: "string \<Rightarrow> string" where
  "underscored t = map (\<lambda>c. if c = CHR ''.'' then CHR ''_'' else c) t"

text \<open>The row \<open>emit_event\<close> persists for a domain event of a workspace.\<close>

definition runtime_event_of :: "domain_event \<Rightarrow> runtime_event" where
  "runtime_event_of e =
     \<lparr>re_run_id = as_str (jget (ev_payload e) ''run_id''), re_step_id = as_str (jget (ev_payload e) ''step_id''),
      re_event_type = underscored (ev_type e), re_payload = ev_payload e\<rparr>"

section \<open>The projection folded from the log\<close>

definition EVENT_TYPE_TO_RUN_STATUS :: "(string \<times> string) list" where
  "EVENT_TYPE_TO_RUN_STATUS =
     [(''run_completed'', ''completed''), (''run_failed'', ''failed''), (''run_cancelled'', ''cancelled'')]"

record folded =
  fo_status :: "string option"
  fo_started :: "string list"
  fo_completed :: "string list"

definition event_step :: "runtime_event \<Rightarrow> string" where
  "event_step e = jstr (jor (jget (re_payload e) ''step_id'') (opt_json (re_step_id e)))"

definition success_payload :: "jdict \<Rightarrow> bool" where
  "success_payload p =
     (case jget_default p ''status'' (JStr ''completed'') of
        JStr t \<Rightarrow> t \<in> step_status_text ` set TERMINAL_SUCCESS | _ \<Rightarrow> False)"

definition fold_event :: "runtime_event \<Rightarrow> folded \<Rightarrow> folded" where
  "fold_event e f =
     (let p = re_payload e; sid = event_step e
      in if re_event_type e \<in> {''step_started'', ''tool_call_started''} \<and> sid \<noteq> []
         then f\<lparr>fo_started := List.insert sid (fo_started f)\<rparr>
         else if re_event_type e = ''step_completed'' \<and> sid \<noteq> []
         then (if success_payload p then f\<lparr>fo_completed := List.insert sid (fo_completed f)\<rparr> else f)
         else (case map_of EVENT_TYPE_TO_RUN_STATUS (re_event_type e) of
                 None \<Rightarrow> f
               | Some st \<Rightarrow> f\<lparr>fo_status := Some (str_or (as_str (jget p ''status'')) st)\<rparr>))"

record projection =
  pj_run_id :: string
  pj_status :: "string option"
  pj_total_steps :: nat
  pj_completed_steps :: nat
  pj_progress_pct :: int
  pj_completed_step_ids :: "string list"

definition progress_pct :: "nat \<Rightarrow> nat \<Rightarrow> int" where
  "progress_pct completed n_steps =
     (if n_steps = 0 then 0 else round_half_even (of_nat completed / of_nat n_steps * 100))"

definition rebuild_run_projection :: "string \<Rightarrow> runtime_event list \<Rightarrow> projection" where
  "rebuild_run_projection rid evlog =
     (let f = fold fold_event (filter (\<lambda>e. re_run_id e = Some rid) evlog)
                \<lparr>fo_status = None, fo_started = [], fo_completed = []\<rparr>;
          n_steps = length (fo_started f); n_done = length (fo_completed f)
      in \<lparr>pj_run_id = rid, pj_status = fo_status f, pj_total_steps = n_steps, pj_completed_steps = n_done,
          pj_progress_pct = progress_pct n_done n_steps, pj_completed_step_ids = sort (fo_completed f)\<rparr>)"

section \<open>Active and blocked runs\<close>

record active_run =
  ar_run_id :: string
  ar_plan_id :: "string option"
  ar_status :: run_status
  ar_total_steps :: nat
  ar_completed_steps :: nat
  ar_progress_pct :: int
  ar_blocking_step_id :: "string option"
  ar_blocking_reason :: "string option"

definition ACTIVE_STATUSES :: "string list" where
  "ACTIVE_STATUSES = [''running'', ''pending'', ''awaiting_approval'', ''paused'']"

definition BLOCKED_STATUSES :: "string list" where
  "BLOCKED_STATUSES = [''awaiting_approval'', ''blocked'', ''paused'']"

definition BLOCKING_STEP_STATUSES :: "string list" where
  "BLOCKING_STEP_STATUSES = [''awaiting_approval'', ''blocked'']"

definition active_run_entry :: "task_run \<Rightarrow> task_step list \<Rightarrow> active_run" where
  "active_run_entry run steps =
     (let n_steps = length steps;
          completed = length (filter (\<lambda>s. step_status s \<in> set TERMINAL_SUCCESS) steps);
          blocking = find (\<lambda>s. step_status_text (step_status s) \<in> set BLOCKING_STEP_STATUSES) steps
      in \<lparr>ar_run_id = run_id run, ar_plan_id = run_plan_id run, ar_status = run_status run, ar_total_steps = n_steps,
          ar_completed_steps = completed, ar_progress_pct = progress_pct completed n_steps,
          ar_blocking_step_id = map_option step_id blocking,
          ar_blocking_reason = map_option (\<lambda>s. step_status_text (step_status s)) blocking\<rparr>)"

text \<open>The runs of the workspace, newest first, with their steps.\<close>

definition get_active_runs :: "nat \<Rightarrow> (task_run \<times> task_step list) list \<Rightarrow> active_run list" where
  "get_active_runs limit runs =
     map (\<lambda>(r, ss). active_run_entry r ss)
       (take limit (filter (\<lambda>(r, _). run_status_text (run_status r) \<in> set ACTIVE_STATUSES) runs))"

definition get_blocked_runs ::
  "(task_run \<times> task_step list) list \<Rightarrow> (string \<times> run_status \<times> (string \<times> string) list) list" where
  "get_blocked_runs runs =
     map (\<lambda>(r, ss). (run_id r, run_status r,
           map (\<lambda>s. (step_id s, step_status_text (step_status s)))
             (filter (\<lambda>s. step_status_text (step_status s) \<in> set BLOCKING_STEP_STATUSES) ss)))
       (filter (\<lambda>(r, _). run_status_text (run_status r) \<in> set BLOCKED_STATUSES) runs)"

section \<open>Bringing the rows up to the log\<close>

definition RUN_TERMINAL_SUCCESS :: "run_status list" where
  "RUN_TERMINAL_SUCCESS = [RCompleted, RPartiallyCompleted]"

definition TERMINAL_STEP_STATUSES :: "step_status list" where
  "TERMINAL_STEP_STATUSES = [SCompleted, SCompletedUnverified, SPartiallyCompleted, SSkipped, SCancelled]"

definition reconcile_step :: "string list \<Rightarrow> task_step \<Rightarrow> bool \<times> task_step" where
  "reconcile_step log_completed s =
     (if step_id s \<in> set log_completed \<and> step_status s \<notin> set TERMINAL_SUCCESS
      then (case transition_step s SCompleted False of
              Inl _ \<Rightarrow> (False, s) | Inr (s', _) \<Rightarrow> (True, s'))
      else (False, s))"

definition reconcile_run_status :: "projection \<Rightarrow> task_step list \<Rightarrow> task_run \<Rightarrow> task_run" where
  "reconcile_run_status proj steps run =
     (case pj_status proj of
        None \<Rightarrow> run
      | Some t \<Rightarrow>
          if t \<in> run_status_text ` set RUN_TERMINAL_SUCCESS \<and> run_status run \<notin> set RUN_TERMINAL_SUCCESS
             \<and> pj_total_steps proj > 0 \<and> pj_completed_steps proj \<ge> pj_total_steps proj
             \<and> steps \<noteq> [] \<and> list_all (\<lambda>s. step_status s \<in> set TERMINAL_STEP_STATUSES) steps
          then (case transition_run run (run_status_of t) False of Inl _ \<Rightarrow> run | Inr (run', _) \<Rightarrow> run')
          else run)"

definition reconcile_run_from_events ::
  "runtime_event list \<Rightarrow> task_run \<Rightarrow> task_step list \<Rightarrow> nat \<times> task_run \<times> task_step list" where
  "reconcile_run_from_events evlog run steps =
     (let proj = rebuild_run_projection (run_id run) evlog;
          rs = map (reconcile_step (pj_completed_step_ids proj)) steps;
          steps' = map snd rs
      in (length (filter fst rs), reconcile_run_status proj steps' run, steps'))"

section \<open>What the fold collects\<close>

definition completion_of :: "string \<Rightarrow> string \<Rightarrow> runtime_event \<Rightarrow> bool" where
  "completion_of rid sid e \<longleftrightarrow>
     re_run_id e = Some rid \<and> re_event_type e = ''step_completed'' \<and> event_step e = sid \<and> sid \<noteq> []
     \<and> success_payload (re_payload e)"

lemma fold_completed:
  "set (fo_completed (fold fold_event es f)) =
     set (fo_completed f) \<union> {sid. \<exists>e \<in> set es. re_event_type e = ''step_completed'' \<and> event_step e = sid
        \<and> sid \<noteq> [] \<and> success_payload (re_payload e)}"
proof (induction es arbitrary: f)
  case Nil
  then show ?case by simp
next
  case (Cons e es)
  have "set (fo_completed (fold_event e f)) = set (fo_completed f) \<union>
      {sid. re_event_type e = ''step_completed'' \<and> event_step e = sid \<and> sid \<noteq> [] \<and> success_payload (re_payload e)}"
    by (auto simp: fold_event_def Let_def EVENT_TYPE_TO_RUN_STATUS_def split: option.split)
  then show ?case by (auto simp: Cons.IH)
qed

lemma projected_completed:
  "set (pj_completed_step_ids (rebuild_run_projection rid evlog)) = {sid. \<exists>e \<in> set evlog. completion_of rid sid e}"
  by (auto simp: rebuild_run_projection_def Let_def fold_completed completion_of_def)

lemma reconcile_step_eq:
  "reconcile_step ids s =
     (step_id s \<in> set ids \<and> step_status s = SRunning,
      if step_id s \<in> set ids \<and> step_status s = SRunning then s\<lparr>step_status := SCompleted\<rparr> else s)"
  by (cases "step_status s")
    (auto simp: reconcile_step_def transition_step_def status_tables TERMINAL_SUCCESS_def)

lemma reconcile_run_status_cases:
  "reconcile_run_status proj steps run = run
   \<or> run_status run = RRunning
     \<and> reconcile_run_status proj steps run = run\<lparr>run_status := run_status (reconcile_run_status proj steps run)\<rparr>
     \<and> run_status (reconcile_run_status proj steps run) \<in> set RUN_TERMINAL_SUCCESS
     \<and> list_all (\<lambda>s. step_status s \<in> set TERMINAL_STEP_STATUSES) steps"
  by (cases "run_status run")
    (auto simp: reconcile_run_status_def transition_run_def status_tables RUN_TERMINAL_SUCCESS_def
      run_status_of_def known_run_statuses_def split: option.split)

text \<open>Reconciling only moves forward: a step is changed only from running, only to completed and
  only if the log records a successful completion of it, so nothing already finished is touched and
  nothing that never started is forced; the run is changed only from running, only to a successful
  outcome and only when every step is finished. In particular a parked run keeps its status.\<close>

lemma reconcile_only_moves_forward:
  "(case reconcile_run_from_events evlog run steps of (n, run', steps') \<Rightarrow>
      list_all2 (\<lambda>s s'. s' = (if step_status s = SRunning \<and> list_ex (completion_of (run_id run) (step_id s)) evlog
                              then s\<lparr>step_status := SCompleted\<rparr> else s)) steps steps'
      \<and> n = length (filter (\<lambda>s. step_status s = SRunning \<and> list_ex (completion_of (run_id run) (step_id s)) evlog) steps)
      \<and> (run' = run
         \<or> run_status run = RRunning \<and> run' = run\<lparr>run_status := run_status run'\<rparr>
           \<and> run_status run' \<in> {RCompleted, RPartiallyCompleted}
           \<and> list_all (\<lambda>s. step_status s \<in> set TERMINAL_STEP_STATUSES) steps'))"
proof -
  let ?proj = "rebuild_run_projection (run_id run) evlog"
  let ?ids = "pj_completed_step_ids ?proj"
  have ids: "sid \<in> set ?ids \<longleftrightarrow> list_ex (completion_of (run_id run) sid) evlog" for sid
    by (auto simp: projected_completed list_ex_iff)
  have rows: "map snd (map (reconcile_step ?ids) steps) =
      map (\<lambda>s. if step_status s = SRunning \<and> list_ex (completion_of (run_id run) (step_id s)) evlog
               then s\<lparr>step_status := SCompleted\<rparr> else s) steps"
    by (auto simp: reconcile_step_eq ids)
  have n: "length (filter fst (map (reconcile_step ?ids) steps)) =
      length (filter (\<lambda>s. step_status s = SRunning \<and> list_ex (completion_of (run_id run) (step_id s)) evlog) steps)"
    by (simp add: filter_map comp_def reconcile_step_eq ids conj_commute)
  show ?thesis
    using reconcile_run_status_cases[of ?proj "map snd (map (reconcile_step ?ids) steps)" run]
    unfolding reconcile_run_from_events_def Let_def prod.case n rows
    by (auto simp: list_all2_conv_all_nth RUN_TERMINAL_SUCCESS_def)
qed

section \<open>The log is never behind the rows\<close>

definition succeeded :: "task_step \<Rightarrow> bool" where
  "succeeded s \<longleftrightarrow> step_status s \<in> set TERMINAL_SUCCESS"

definition evented :: "string \<Rightarrow> string \<Rightarrow> world \<Rightarrow> bool" where
  "evented rid sid w \<longleftrightarrow> (\<exists>e \<in> set (w_events w). completion_of rid sid (runtime_event_of e))"

text \<open>Every successful row has its completion in the log; \<open>pending_event\<close> excepts one step.\<close>

definition logged :: "string \<Rightarrow> world \<Rightarrow> bool" where
  "logged rid w \<longleftrightarrow> run_id (w_run w) = rid \<and> [] \<notin> step_id ` set (w_steps w)
     \<and> (\<forall>s \<in> set (w_steps w). succeeded s \<longrightarrow> evented rid (step_id s) w)"

definition pending_event :: "string \<Rightarrow> string \<Rightarrow> step_status \<Rightarrow> world \<Rightarrow> bool" where
  "pending_event rid sid st w \<longleftrightarrow> run_id (w_run w) = rid \<and> [] \<notin> step_id ` set (w_steps w)
     \<and> (\<forall>s \<in> set (w_steps w). succeeded s \<longrightarrow> evented rid (step_id s) w \<or> step_id s = sid \<and> step_status s = st)"

lemma rows_cong:
  assumes "w_run w' = g (w_run w)" "\<And>r. run_id (g r) = run_id r"
    and "w_steps w' = map f (w_steps w)" "\<And>s. step_id (f s) = step_id s" "\<And>s. succeeded (f s) \<Longrightarrow> step_status (f s) = step_status s"
    and "set (w_events w) \<subseteq> set (w_events w')"
  shows "logged rid w \<Longrightarrow> logged rid w'" "pending_event rid sid st w \<Longrightarrow> pending_event rid sid st w'"
  using assms by (fastforce simp: logged_def pending_event_def evented_def succeeded_def image_image)+

lemma logged_rows [stays_intros]:
  "stays (logged rid) (emit t p)" "stays (logged rid) (get_step i)" "stays (logged rid) (save_checkpoint sv j r)"
  "(\<And>r. run_id (g r) = run_id r) \<Longrightarrow> stays (logged rid) (set_run g)"
  "(\<And>s. step_id (h s) = step_id s) \<Longrightarrow> (\<And>s. step_status (h s) = step_status s) \<Longrightarrow> stays (logged rid) (set_step i h)"
  "stays (logged rid) (move_run rs)"
  "\<not> st \<in> set TERMINAL_SUCCESS \<Longrightarrow> stays (logged rid) (move_step i st)"
  by (auto simp: stays_def logged_def evented_def succeeded_def emit_def get_step_def set_step_def set_run_def
      move_step_def move_run_def save_checkpoint_def checkpoint_def modify_def andthen_def get_def raise_def row_update_def Let_def
      split: option.split sum.split)

lemma logged_world [stays_intros]:
  "stays (logged rid) (modify (\<lambda>w. w\<lparr>w_trust := h w\<rparr>))"
  "stays (logged rid) (modify (\<lambda>w. w\<lparr>w_actions := a w\<rparr>))"
  "stays (logged rid) (modify (\<lambda>w. w\<lparr>w_approvals := b w\<rparr>))"
  "stays (logged rid) (modify (\<lambda>w. w\<lparr>w_needs_reauth := n w\<rparr>))"
  by (auto simp: stays_def logged_def evented_def modify_def)

lemma stays_get_at: "(\<And>w. I w \<Longrightarrow> stays I (k w)) \<Longrightarrow> stays I (andthen get k)"
  by (simp add: stays_def)

text \<open>Finalising marks the row and then logs it: in between the row is ahead, at no point that an
  exception could leave.\<close>

lemma logged_finalize_step [stays_intros]: "stays (logged rid) (finalize_step sv sid output st)"
proof -
  have move: "triple (logged rid) (move_step sid st) (\<lambda>_. pending_event rid sid st) (\<lambda>_. logged rid)"
    by (auto simp: triple_def logged_def pending_event_def evented_def succeeded_def move_step_def get_step_def set_step_def
        modify_def andthen_def raise_def row_update_def split: option.split sum.split)
  have set: "triple (pending_event rid sid st) (set_step sid h) (\<lambda>_. pending_event rid sid st) E"
    if "\<And>s. step_id (h s) = step_id s" "\<And>s. step_status (h s) = step_status s" for h E
    unfolding set_step_def
    by (rule triple_modify)
      (use that in \<open>auto simp: pending_event_def evented_def succeeded_def row_update_def\<close>)
  have ck: "triple (pending_event rid sid st) (save_checkpoint sv j r) (\<lambda>_. pending_event rid sid st) E" for j r E
    unfolding save_checkpoint_def
    by (rule triple_modify) (auto simp: pending_event_def evented_def checkpoint_def Let_def)
  have logs: "logged rid (w\<lparr>w_events := w_events w @ [\<lparr>ev_type = ''step_completed'', ev_user_id = u, ev_payload = [(''run_id'', JStr rid),
      (''step_id'', JStr sid), (''task_id'', t), (''duration_ms'', d), (''status'', JStr (step_status_text st))]\<rparr>]\<rparr>)"
    if "pending_event rid sid st w" for u t d w
  proof -
    have "sid \<noteq> [] \<Longrightarrow> st \<in> set TERMINAL_SUCCESS \<Longrightarrow> completion_of rid sid (runtime_event_of \<lparr>ev_type = ''step_completed'', ev_user_id = u,
        ev_payload = [(''run_id'', JStr rid), (''step_id'', JStr sid), (''task_id'', t), (''duration_ms'', d), (''status'', JStr (step_status_text st))]\<rparr>)"
      by (simp add: completion_of_def runtime_event_of_def underscored_def event_step_def success_payload_def jor_def)
    then show ?thesis
      using that unfolding pending_event_def logged_def evented_def succeeded_def by (auto simp: image_iff) metis
  qed
  have ended: "triple (pending_event rid sid st)
      (emit ''step_completed'' [(''run_id'', JStr rid), (''step_id'', JStr sid), (''task_id'', t), (''duration_ms'', d),
         (''status'', JStr (step_status_text st))]) (\<lambda>_. logged rid) E" for t d E
    unfolding emit_def
    by (rule triple_modify, rule logs)
  have rest: "triple (logged rid) (if b then emit x y else ret ()) (\<lambda>_. logged rid) (\<lambda>_. logged rid)" for b x y
    using logged_rows(1)[of rid x y] by (auto simp: triple_def stays_def ret_def split: prod.split sum.split)
  show ?thesis
    unfolding finalize_step_def
  proof (rule stays_andthen, goal_cases step rows)
    case step
    show ?case by (intro stays_intros)
  next
    case (rows s)
    show ?case
    proof (rule stays_get_at)
      fix w assume "logged rid w"
      then have rid: "run_id (w_run w) = rid" by (simp add: logged_def)
      show "stays (logged rid) (let rid = JStr (run_id (w_run w))
         in andthen (emit ''tool_call_completed''
              [(''run_id'', rid), (''step_id'', JStr sid), (''tool_name'', JStr (step_capability ''unknown'' s)),
               (''duration_ms'', JNum (of_nat (sv_elapsed_ms sv)))]) (\<lambda>_.
            andthen (move_step sid st) (\<lambda>_.
            andthen (set_step sid (\<lambda>s. s\<lparr>step_output_data := Some output, step_completed_at := Some (sv_now sv)\<rparr>)) (\<lambda>_.
            andthen (save_checkpoint sv (Some sid) ''step_completed'') (\<lambda>_.
            andthen (emit ''step_completed''
              [(''run_id'', rid), (''step_id'', JStr sid), (''task_id'', JStr (step_task_id s)),
               (''duration_ms'', JNum (of_nat (sv_elapsed_ms sv))), (''status'', JStr (step_status_text st))]) (\<lambda>_.
            if list_ex (\<lambda>k. k \<in> fst ` set output) SURFACE_KEYS
            then emit ''surface_created''
              [(''run_id'', rid), (''step_id'', JStr sid), (''surface_type'', JStr ''step_output'')]
            else ret ()))))))"
        unfolding Let_def rid
        by (rule stays_andthen, intro stays_intros, rule triple_stays,
            rule triple_andthen[OF move], rule triple_andthen[OF set], simp, simp,
            rule triple_andthen[OF ck], rule triple_andthen[OF ended], rule rest)
    qed
  qed
qed

lemma stamped [simp]:
  "step_id (stamp_decision_type t s) = step_id s" "step_status (stamp_decision_type t s) = step_status s"
  by (simp_all add: stamp_decision_type_def split: option.split json.split)

lemma logged_helpers [stays_intros]:
  "stays (logged rid) (defer_for_reauth sv sid r)"
  "stays (logged rid) (handle_step_failure sv sid e)"
  "stays (logged rid) (finalize_with_verification sv sid out c rk)"
  "stays (logged rid) (handle_user_action_step sv sid)"
  "stays (logged rid) (contract_violation sv sid t)"
  "stays (logged rid) (start_step sv sid)"
  "stays (logged rid) (run_step_action sv sid pre)"
  "stays (logged rid) (reinforce_trust sv c pre risk d v)"
  "stays (logged rid) (credit_approval sv sid c ra v)"
  "stays (logged rid) (create_approval_and_pause sv sid c rk2 dn)"
  unfolding defer_for_reauth_def defer_run_def handle_step_failure_def finalize_with_verification_def
    escalate_divergence_def handle_user_action_step_def contract_violation_def start_step_def
    run_step_action_def reinforce_trust_def record_auto_execution_outcome_def credit_approval_def
    record_user_approval_outcome_def record_trust_outcome_def read_approval_decision_type_def
    create_approval_and_pause_def pause_for_approval_def
  by (intro stays_intros; simp add: TERMINAL_SUCCESS_def logged_def evented_def)+

lemma logged_execute_step [stays_intros]: "stays (logged rid) (execute_step sv sid)"
proof -
  have settle: "stays (logged rid) (settle_outcome sv sid oc)" for oc
    unfolding settle_outcome_def
    by (cases oc) (simp_all, (intro stays_intros; simp add: TERMINAL_SUCCESS_def logged_def evented_def)+)
  have gate: "stays (logged rid) (gate_step sv sid c)" for c
    unfolding gate_step_def by (intro stays_intros; simp)
  have cleared: "stays (logged rid) (run_cleared_step sv sid c g)" for c g
    unfolding run_cleared_step_def by (intro stays_intros settle; simp add: TERMINAL_SUCCESS_def logged_def evented_def)
  show ?thesis
    unfolding execute_step_def execute_fresh_step_def execute_approved_step_def
    by (intro stays_intros gate cleared settle; simp add: TERMINAL_SUCCESS_def logged_def evented_def)
qed

lemma logged_finish: "stays (logged rid) (finish_dag sv)"
proof (rule stays_finish_dag)
  fix w assume "logged rid w"
  then show "logged rid (w\<lparr>w_run := snd (park_if_blocked_on_founder (w_run w) (w_steps w))\<rparr>)"
    by (auto simp: logged_def evented_def park_if_blocked_on_founder_def transition_run_def split: sum.split)
qed (intro stays_intros; simp)+

text \<open>C5. The log is never behind the rows: if every successful step of the run has its completion in the
  log, then after the run's loop, however it ends, it still has, so the projection rebuilt from
  the log alone counts every step that the rows show as done, and a reconciliation finds no step
  that the log has not recorded.\<close>

theorem log_covers_rows:
  assumes "logged rid w" and "\<forall>r. sv_refresh sv r = r" and "execute_dag sv fuel w = Some (res, w')"
  shows "{step_id s | s. s \<in> set (w_steps w') \<and> step_status s \<in> {SCompleted, SCompletedUnverified}}
     \<subseteq> set (pj_completed_step_ids (rebuild_run_projection rid (map runtime_event_of (w_events w'))))"
proof -
  have "logged rid w'"
  proof (rule execute_dag_stays[OF logged_execute_step logged_finish _ assms(2,1,3)])
    fix v assume "logged rid v"
    then show "logged rid (snd (begin_batch v))"
      by (auto simp: logged_def evented_def succeeded_def begin_batch_def get_ready_steps_rows split_beta Let_def TERMINAL_SUCCESS_def
          split: if_splits)
  qed
  then show ?thesis
    unfolding projected_completed logged_def succeeded_def evented_def TERMINAL_SUCCESS_def by auto
qed

theorem log_covers_rows_witness:
  "\<exists>r w'. execute_dag (sample_services\<lparr>sv_action := (\<lambda>_ _ _ _. ActOutput [])\<rparr>) 16
        (dag_world [dag_step ''s1'' [] ''email.list'' SPending]) = Some (r, w')
     \<and> {step_id s | s. s \<in> set (w_steps w') \<and> step_status s \<in> {SCompleted, SCompletedUnverified}}
         \<subseteq> set (pj_completed_step_ids (rebuild_run_projection ''run_1'' (map runtime_event_of (w_events w'))))"
proof -
  let ?sv = "sample_services\<lparr>sv_action := (\<lambda>_ _ _ _. ActOutput [])\<rparr>"
  let ?w = "dag_world [dag_step ''s1'' [] ''email.list'' SPending]"
  obtain r w' where e: "execute_dag ?sv 16 ?w = Some (r, w')"
    using execute_dag_terminates[of ?w ?sv 16]
    by (auto simp: dag_world_def dag_run_def dag_step_def sample_services_def total_weight_def step_weight_def)
  have l: "logged ''run_1'' ?w"
    by (simp add: logged_def dag_world_def dag_run_def dag_step_def succeeded_def TERMINAL_SUCCESS_def)
  have "\<forall>r. sv_refresh ?sv r = r" by (simp add: sample_services_def)
  from log_covers_rows[OF l this e] e show ?thesis by blast
qed

section \<open>Findings\<close>

text \<open>Reconciling can raise a verdict: a step whose effect could not be read back is logged with the
  status completed_unverified, and a row found running is brought to completed by that log entry,
  so the step is no longer among those whose verification is still due.\<close>

lemma reconcile_loses_unverified:
  "(let e = \<lparr>ev_type = ''step_completed'', ev_user_id = ''u'', ev_payload =
              [(''run_id'', JStr ''run_1''), (''step_id'', JStr ''s1''), (''status'', JStr ''completed_unverified'')]\<rparr>;
        (n, run', steps') = reconcile_run_from_events [runtime_event_of e] (dag_run RPaused)
          [dag_step ''s1'' [] ''calendar.create'' SRunning]
    in n = 1 \<and> map step_status steps' = [SCompleted])"
  by code_simp

text \<open>A run that waits for an approval is listed without what it waits for: with the user present the
  gate leaves the step waiting_approval, the read models look for a step awaiting_approval, so the
  active run has no blocking step and the blocked run an empty list.\<close>

lemma waiting_step_not_listed:
  "(let sv = sample_services\<lparr>sv_presence := ''present''\<rparr>;
        (res, w) = the (execute_dag sv 16 (dag_world [dag_step ''s1'' [] ''email.send'' SPending]))
    in run_status (w_run w) = RAwaitingApproval \<and> map step_status (w_steps w) = [SWaitingApproval]
       \<and> map ar_blocking_step_id (get_active_runs 20 [(w_run w, w_steps w)]) = [None]
       \<and> get_blocked_runs [(w_run w, w_steps w)] = [(''run_1'', RAwaitingApproval, [])])"
  by code_simp

end
