(* ===== verification/Graph_Executor.thy ===== *)
theory Graph_Executor
  imports Run_Projection
begin

text \<open>
  The life of a run: \<open>backend/src/services/graph_executor.py\<close> (execute, resume, pause, cancel, the trace
  rollup and the mirroring of a run's outcome on its plan) and the stuck-run check of
  \<open>backend/src/services/scheduler/run_health_tick.py\<close>. The state holds the rows of one run, the plans,
  the traces in progress and the columns of the run the engine itself does not use. A timeout stops
  the loop at a point the code does not choose: the rows at that point are a parameter, as are the
  rows that are left when the database session has to be rolled back. The loop runs on fuel; out of
  fuel the result is \<open>None\<close>.
\<close>

section \<open>State and services\<close>

datatype exec_exn = ValueError string | Dag dag_exn

record exec_db =
  xd_world :: world
  xd_plans :: "plan list"
  xd_log :: "runtime_event list" \<comment> \<open>rows persisted before this session\<close>
  xd_trace_id :: "string option"
  xd_input_tokens :: nat
  xd_output_tokens :: nat
  xd_cost_usd :: pyfloat
  xd_timeout_seconds :: "nat option"
  xd_active_traces :: "(string \<times> string) list"
  xd_cancel_events :: "(string \<times> bool) list"

record exec_services =
  xs_services :: services
  xs_fuel :: nat
  xs_lease :: "bool option" \<comment> \<open>no Redis; lease acquired\<close>
  xs_trace_ulid :: string
  xs_totals :: "string \<Rightarrow> nat \<times> nat \<times> pyfloat"
  xs_timer :: "world option" \<comment> \<open>the timeout fires, with the rows as they are then\<close>
  xs_poisoned :: "world option" \<comment> \<open>the session is unusable, with the rows after the rollback\<close>
  xs_exn_text :: "dag_exn \<Rightarrow> string"

type_synonym 'a exec = "(exec_db, exec_exn, 'a) engine"

definition on_world :: "'a dag \<Rightarrow> 'a exec" where
  "on_world m = (\<lambda>db. case m (xd_world db) of
     (Inl e, w) \<Rightarrow> (Inl (Dag e), db\<lparr>xd_world := w\<rparr>)
   | (Inr x, w) \<Rightarrow> (Inr x, db\<lparr>xd_world := w\<rparr>))"

definition the_run :: "exec_db \<Rightarrow> task_run" where
  "the_run db = w_run (xd_world db)"

definition load_run :: "string \<Rightarrow> task_run exec" where
  "load_run rid =
     andthen get (\<lambda>db.
       if run_id (the_run db) = rid then ret (the_run db) else raise (ValueError (''Run not found: '' @ rid)))"

definition ensure_prefix :: "string \<Rightarrow> string \<Rightarrow> string" where
  "ensure_prefix prefix v =
     (if take (length prefix + 1) v = prefix @ ''_'' then v else prefix @ ''_'' @ v)"

section \<open>The trace rollup\<close>

fun jint :: "json \<Rightarrow> int" where
  "jint (JNum x) = (if 0 \<le> x then \<lfloor>x\<rfloor> else \<lceil>x\<rceil>)"
| "jint _ = 0"

fun jfloat :: "json \<Rightarrow> pyfloat" where
  "jfloat (JNum x) = x"
| "jfloat _ = 0"

definition rollup_of :: "task_run \<Rightarrow> jdict" where
  "rollup_of run = obj_items (jor (jget (dict_or_empty (run_checkpoint run)) ''trace_rollup'') (JObj []))"

definition rollup_entry :: "nat \<times> nat \<times> pyfloat \<Rightarrow> json" where
  "rollup_entry u = (case u of (input_t, output_t, cost) \<Rightarrow>
     JObj [(''input_tokens'', JNum (of_nat input_t)), (''output_tokens'', JNum (of_nat output_t)),
           (''cost_usd'', JNum (pyround cost 6))])"

definition rollup_sum :: "string \<Rightarrow> jdict \<Rightarrow> int" where
  "rollup_sum k rollup = (\<Sum>(t, e)\<leftarrow>rollup. jint (jget_default (obj_items e) k (JNum 0)))"

definition rollup_cost :: "jdict \<Rightarrow> pyfloat" where
  "rollup_cost rollup = (\<Sum>(t, e)\<leftarrow>rollup. jfloat (jget_default (obj_items e) ''cost_usd'' (JNum 0)))"

definition roll_trace_onto_run :: "exec_services \<Rightarrow> string \<Rightarrow> unit exec" where
  "roll_trace_onto_run xs trace =
     modify (\<lambda>db.
       let run = the_run db;
           rollup = AList.update trace (rollup_entry (xs_totals xs trace)) (rollup_of run);
           run' = run\<lparr>run_checkpoint := Some (dict_merge (dict_or_empty (run_checkpoint run))
                    [(''trace_rollup'', JObj rollup)])\<rparr>
       in db\<lparr>xd_world := (xd_world db)\<lparr>w_run := run'\<rparr>,
             xd_input_tokens := nat (rollup_sum ''input_tokens'' rollup),
             xd_output_tokens := nat (rollup_sum ''output_tokens'' rollup),
             xd_cost_usd := pyround (rollup_cost rollup) 6\<rparr>)"

definition checkpoint_trace :: "exec_services \<Rightarrow> unit exec" where
  "checkpoint_trace xs =
     andthen get (\<lambda>db.
       case map_of (xd_active_traces db) (run_id (the_run db)) of
         None \<Rightarrow> ret () | Some trace \<Rightarrow> roll_trace_onto_run xs trace)"

definition finalize_trace :: "exec_services \<Rightarrow> unit exec" where
  "finalize_trace xs =
     andthen get (\<lambda>db.
       case map_of (xd_active_traces db) (run_id (the_run db)) of
         None \<Rightarrow> ret ()
       | Some trace \<Rightarrow>
           andthen (modify (\<lambda>db. db\<lparr>xd_active_traces := AList.delete (run_id (the_run db)) (xd_active_traces db)\<rparr>))
             (\<lambda>_. roll_trace_onto_run xs trace))"

section \<open>The outcome on the plan\<close>

definition RUN_STATUS_TO_PLAN_STATUS :: "(run_status \<times> string) list" where
  "RUN_STATUS_TO_PLAN_STATUS =
     [(RCompleted, ''completed''), (RPartiallyCompleted, ''completed''), (RFailed, ''failed''),
      (RTimedOut, ''failed''), (RCancelled, ''cancelled'')]"

definition PLAN_TERMINAL :: "string list" where
  "PLAN_TERMINAL = [''completed'', ''failed'', ''cancelled'']"

definition mirrored_status :: "run_status \<Rightarrow> string \<Rightarrow> string" where
  "mirrored_status rs plan_status =
     (case map_of RUN_STATUS_TO_PLAN_STATUS rs of
        None \<Rightarrow> plan_status
      | Some target \<Rightarrow> if plan_status \<in> set PLAN_TERMINAL then plan_status else target)"

definition reconcile_plan_status :: "unit exec" where
  "reconcile_plan_status =
     modify (\<lambda>db.
       let run = the_run db; pid = opt_or (run_plan_id run) []
       in if map_of RUN_STATUS_TO_PLAN_STATUS (run_status run) = None \<or> pid = [] then db
          else db\<lparr>xd_plans := row_update pl_plan_id pid
                 (\<lambda>p. p\<lparr>pl_status := mirrored_status (run_status run) (pl_status p)\<rparr>) (xd_plans db)\<rparr>)"

section \<open>Driving the loop\<close>

datatype drive_end = Finished | TimerFired | Raised dag_exn

definition run_timeout :: "exec_db \<Rightarrow> nat option" where
  "run_timeout db =
     (case xd_timeout_seconds db of
        Some n \<Rightarrow> if n \<noteq> 0 then Some n else if run_source (the_run db) = ''background'' then Some 600 else None
      | None \<Rightarrow> if run_source (the_run db) = ''background'' then Some 600 else None)"

definition drive :: "exec_services \<Rightarrow> nat option \<Rightarrow> world \<Rightarrow> (drive_end \<times> world) option" where
  "drive xs timeout w =
     (case (timeout, xs_timer xs) of
        (Some _, Some w') \<Rightarrow> Some (TimerFired, w')
      | _ \<Rightarrow>
          (case execute_dag (xs_services xs) (xs_fuel xs) w of
             None \<Rightarrow> None
           | Some (Inl e, w') \<Rightarrow> Some (Raised e, w')
           | Some (Inr _, w') \<Rightarrow> Some (Finished, w')))"

definition PAUSED_STATUSES :: "run_status list" where
  "PAUSED_STATUSES = [RAwaitingApproval, RAwaitingInput, RPaused]"

definition run_failed :: "exec_services \<Rightarrow> jdict \<Rightarrow> unit exec" where
  "run_failed xs err =
     andthen (on_world (move_run RFailed)) (\<lambda>_.
     on_world (set_run (\<lambda>r. r\<lparr>run_completed_at := Some (sv_now (xs_services xs)), run_error := Some err\<rparr>)))"

text \<open>The \<open>except\<close> branch: mark failed, and once more on the rows a rollback leaves.\<close>

definition mark_run_failed :: "exec_services \<Rightarrow> string \<Rightarrow> dag_exn \<Rightarrow> unit exec" where
  "mark_run_failed xs kind e =
     (let err = (''type'', JStr kind) # safe_error_fields (xs_services xs) (xs_exn_text xs e)
      in andthen (run_failed xs err) (\<lambda>_.
         case xs_poisoned xs of
           None \<Rightarrow> ret ()
         | Some w \<Rightarrow>
             andthen (modify (\<lambda>db. db\<lparr>xd_world := w\<rparr>)) (\<lambda>_.
             andthen (if RFailed \<in> set (allowed RUN_TRANSITIONS (run_status (w_run w))) then ret ()
                      else on_world (move_run RRunning)) (\<lambda>_.
             run_failed xs err))))"

definition after_drive :: "exec_services \<Rightarrow> nat option \<Rightarrow> drive_end \<Rightarrow> unit exec" where
  "after_drive xs timeout ending =
     andthen get (\<lambda>db.
     let rid = JStr (run_id (the_run db)); sv = xs_services xs
     in case ending of
          Finished \<Rightarrow> if run_status (the_run db) \<in> set PAUSED_STATUSES then checkpoint_trace xs else ret ()
        | TimerFired \<Rightarrow>
            (let t = nat_text (opt_or timeout 0)
             in andthen (on_world (move_run RTimedOut)) (\<lambda>_.
                andthen (on_world (set_run (\<lambda>r. r\<lparr>run_completed_at := Some (sv_now sv),
                  run_error := Some [(''type'', JStr ''TimeoutError''),
                                     (''message'', JStr (''Run timed out after '' @ t @ ''s''))]\<rparr>))) (\<lambda>_.
                on_world (emit ''run.timed_out'' [(''run_id'', rid), (''timeout'', JNum (of_nat (opt_or timeout 0)))]))))
        | Raised e \<Rightarrow>
            andthen (mark_run_failed xs ''execution_error'' e) (\<lambda>_.
            on_world (emit ''run.failed''
              (let safe = safe_error_fields sv (xs_exn_text xs e)
               in [(''run_id'', rid), (''error'', jget safe ''message''), (''error_code'', jget safe ''error_code''),
                   (''correlation_id'', jget safe ''correlation_id'')]))))"

text \<open>\<open>try: ... finally: ...\<close>, where the second part raises nothing.\<close>

definition finally_do :: "'a exec \<Rightarrow> unit exec \<Rightarrow> 'a exec" where
  "finally_do m f = (\<lambda>db. let (r, db1) = m db in (r, snd (f db1)))"

definition close_segment :: "exec_services \<Rightarrow> unit exec" where
  "close_segment xs =
     andthen (modify (\<lambda>db. db\<lparr>xd_cancel_events := AList.delete (run_id (the_run db)) (xd_cancel_events db)\<rparr>))
       (\<lambda>_. finalize_trace xs)"

definition open_segment :: "exec_services \<Rightarrow> string \<Rightarrow> unit exec" where
  "open_segment xs trace =
     modify (\<lambda>db. db\<lparr>xd_active_traces := AList.update (run_id (the_run db)) trace (xd_active_traces db)\<rparr>)"

section \<open>Execute\<close>

definition begin_execute :: "exec_services \<Rightarrow> string \<Rightarrow> string option \<Rightarrow> string option \<Rightarrow> unit exec" where
  "begin_execute xs rid trace_id surface_id =
     andthen (load_run rid) (\<lambda>_.
     let trace = str_or trace_id (''trace_'' @ xs_trace_ulid xs);
         surface = str_or surface_id (ensure_prefix ''run'' rid)
     in andthen (modify (\<lambda>db. db\<lparr>xd_trace_id := Some trace\<rparr>)) (\<lambda>_.
        andthen (open_segment xs trace) (\<lambda>_.
        andthen (on_world (move_run RRunning)) (\<lambda>_.
        andthen (on_world (set_run (\<lambda>r. r\<lparr>run_started_at := Some (sv_now (xs_services xs)),
          run_checkpoint := Some (dict_merge (dict_or_empty (run_checkpoint r)) [(''surface_id'', JStr surface)])\<rparr>))) (\<lambda>_.
        andthen get (\<lambda>db.
        andthen (on_world (emit ''run.started''
          [(''run_id'', JStr rid), (''plan_id'', opt_json (run_plan_id (the_run db)))])) (\<lambda>_.
        modify (\<lambda>db. db\<lparr>xd_cancel_events := AList.update rid False (xd_cancel_events db)\<rparr>))))))))"

definition finish_execute :: "exec_services \<Rightarrow> nat option \<Rightarrow> drive_end \<Rightarrow> task_run exec" where
  "finish_execute xs timeout ending =
     andthen (finally_do (after_drive xs timeout ending) (close_segment xs)) (\<lambda>_.
     andthen reconcile_plan_status (\<lambda>_.
     andthen get (\<lambda>db. ret (the_run db))))"

definition execute_run_body ::
  "exec_services \<Rightarrow> string \<Rightarrow> string option \<Rightarrow> string option \<Rightarrow> exec_db \<Rightarrow> ((exec_exn + task_run) \<times> exec_db) option" where
  "execute_run_body xs rid trace_id surface_id db =
     (case begin_execute xs rid trace_id surface_id db of
        (Inl e, db1) \<Rightarrow> Some (Inl e, db1)
      | (Inr _, db1) \<Rightarrow>
          (case drive xs (run_timeout db1) (xd_world db1) of
             None \<Rightarrow> None
           | Some (ending, w) \<Rightarrow> Some (finish_execute xs (run_timeout db1) ending (db1\<lparr>xd_world := w\<rparr>))))"

definition execute_run ::
  "exec_services \<Rightarrow> string \<Rightarrow> string option \<Rightarrow> string option \<Rightarrow> exec_db \<Rightarrow> ((exec_exn + task_run) \<times> exec_db) option" where
  "execute_run xs rid trace_id surface_id db =
     (if xs_lease xs = Some False then Some (load_run rid db)
      else execute_run_body xs rid trace_id surface_id db)"

section \<open>Resume, pause, cancel\<close>

definition RESUMABLE :: "run_status list" where
  "RESUMABLE = [RPaused, RAwaitingApproval, RAwaitingInput]"

definition checkpoint_behind :: "world \<Rightarrow> bool" where
  "checkpoint_behind w =
     (let cp = dict_or_empty (run_checkpoint (w_run w))
      in cp \<noteq> [] \<and>
         fst ` set (obj_items (jget_default cp ''completed_steps'' (JObj []))) \<noteq>
         step_id ` {s \<in> set (w_steps w). step_status s \<in> set TERMINAL_SUCCESS})"

definition reconcile_rows :: "unit exec" where
  "reconcile_rows =
     modify (\<lambda>db.
       let w = xd_world db;
           (n, run', steps') = reconcile_run_from_events (xd_log db @ map runtime_event_of (w_events w)) (w_run w) (w_steps w)
       in if checkpoint_behind w then db\<lparr>xd_world := w\<lparr>w_run := run', w_steps := steps'\<rparr>\<rparr> else db)"

definition begin_resume :: "exec_services \<Rightarrow> string \<Rightarrow> unit exec" where
  "begin_resume xs rid =
     andthen (load_run rid) (\<lambda>run.
     if run_status run \<notin> set RESUMABLE
     then raise (ValueError (''Run '' @ rid @ '' is not resumable (status='' @ run_status_text (run_status run) @ '')''))
     else
       andthen reconcile_rows (\<lambda>_.
       andthen (on_world (move_run RRunning)) (\<lambda>_.
       let trace = ''trace_'' @ xs_trace_ulid xs
       in andthen (open_segment xs trace) (\<lambda>_.
          andthen (modify (\<lambda>db. db\<lparr>xd_trace_id := Some (str_or (xd_trace_id db) trace)\<rparr>)) (\<lambda>_.
          modify (\<lambda>db. db\<lparr>xd_cancel_events := AList.update rid False (xd_cancel_events db)\<rparr>))))))"

definition after_resume :: "exec_services \<Rightarrow> drive_end \<Rightarrow> unit exec" where
  "after_resume xs ending =
     (case ending of
        Raised e \<Rightarrow> mark_run_failed xs ''resume_error'' e
      | _ \<Rightarrow> andthen get (\<lambda>db.
              if run_status (the_run db) \<in> set PAUSED_STATUSES then checkpoint_trace xs else ret ()))"

definition finish_resume :: "exec_services \<Rightarrow> drive_end \<Rightarrow> task_run exec" where
  "finish_resume xs ending =
     andthen (finally_do (after_resume xs ending) (close_segment xs)) (\<lambda>_.
     andthen reconcile_plan_status (\<lambda>_.
     andthen get (\<lambda>db. ret (the_run db))))"

definition resume_run_body :: "exec_services \<Rightarrow> string \<Rightarrow> exec_db \<Rightarrow> ((exec_exn + task_run) \<times> exec_db) option" where
  "resume_run_body xs rid db =
     (case begin_resume xs rid db of
        (Inl e, db1) \<Rightarrow> Some (Inl e, db1)
      | (Inr _, db1) \<Rightarrow>
          (case drive xs None (xd_world db1) of
             None \<Rightarrow> None
           | Some (ending, w) \<Rightarrow> Some (finish_resume xs ending (db1\<lparr>xd_world := w\<rparr>))))"

definition resume_run :: "exec_services \<Rightarrow> string \<Rightarrow> exec_db \<Rightarrow> ((exec_exn + task_run) \<times> exec_db) option" where
  "resume_run xs rid db =
     (if xs_lease xs = Some False then Some (load_run rid db) else resume_run_body xs rid db)"

definition pause_run :: "exec_services \<Rightarrow> string \<Rightarrow> string \<Rightarrow> task_run exec" where
  "pause_run xs rid reason =
     andthen (load_run rid) (\<lambda>_.
     andthen (on_world (move_run RPaused)) (\<lambda>_.
     andthen (on_world (save_checkpoint (xs_services xs) None reason)) (\<lambda>_.
     andthen get (\<lambda>db. ret (the_run db)))))"

definition CANCELLABLE_STEPS :: "step_status list" where
  "CANCELLABLE_STEPS = [SPending, SReady, SRunning]"

text \<open>The steps the query finds, in row order; each is moved and announced.\<close>

fun cancel_steps :: "string list \<Rightarrow> unit dag" where
  "cancel_steps [] = ret ()"
| "cancel_steps (sid # sids) =
     andthen (get_step sid) (\<lambda>s.
     andthen (move_step sid (if step_status s = SRunning then SCancelled else SSkipped)) (\<lambda>_.
     andthen get (\<lambda>w.
     andthen (emit ''step.skipped'' [(''run_id'', JStr (run_id (w_run w))), (''step_id'', JStr sid)]) (\<lambda>_.
     cancel_steps sids))))"

definition cancel_run :: "exec_services \<Rightarrow> string \<Rightarrow> task_run exec" where
  "cancel_run xs rid =
     andthen (load_run rid) (\<lambda>_.
     andthen (modify (\<lambda>db. db\<lparr>xd_cancel_events :=
       map (\<lambda>(r, c). (r, if r = rid then True else c)) (xd_cancel_events db)\<rparr>)) (\<lambda>_.
     andthen (on_world (move_run RCancelled)) (\<lambda>_.
     andthen (on_world (set_run (\<lambda>r. r\<lparr>run_completed_at := Some (sv_now (xs_services xs))\<rparr>))) (\<lambda>_.
     andthen get (\<lambda>db.
     andthen (on_world (cancel_steps (map step_id
       (filter (\<lambda>s. step_status s \<in> set CANCELLABLE_STEPS) (w_steps (xd_world db)))))) (\<lambda>_.
     andthen reconcile_plan_status (\<lambda>_.
     andthen (on_world (emit ''run.cancelled'' [(''run_id'', JStr rid)])) (\<lambda>_.
     andthen get (\<lambda>db. ret (the_run db))))))))))"

section \<open>The stuck-run check\<close>

definition STUCK_AFTER_MINUTES :: int where
  "STUCK_AFTER_MINUTES = 15"

definition stuck_run :: "instant \<Rightarrow> instant \<Rightarrow> instant option \<Rightarrow> task_run \<Rightarrow> bool" where
  "stuck_run now updated_at latest_checkpoint r =
     (let cutoff = now - secs (60 * STUCK_AFTER_MINUTES)
      in run_status r = RRunning \<and> updated_at < cutoff
         \<and> (case latest_checkpoint of None \<Rightarrow> True | Some t \<Rightarrow> \<not> t > cutoff))"

text \<open>The run and whether it counts as remediated; the \<open>except\<close> branch sets the column itself.\<close>

definition remediate_stuck :: "instant \<Rightarrow> instant \<Rightarrow> instant option \<Rightarrow> task_run \<Rightarrow> bool \<times> task_run" where
  "remediate_stuck now updated_at latest_checkpoint r =
     (if \<not> stuck_run now updated_at latest_checkpoint r then (False, r)
      else (case transition_run r RTimedOut False of
              Inl _ \<Rightarrow> (False, r\<lparr>run_status := RTimedOut\<rparr>)
            | Inr (r', _) \<Rightarrow>
                (True, r'\<lparr>run_error := Some [(''message'', JStr (''Run stuck '' @ em_dash @ '' no progress for 15 minutes''))],
                          run_completed_at := Some now\<rparr>)))"

text \<open>\<open>scalar_one_or_none\<close>: more than one expired approval of a run raises.\<close>

definition cancel_expired :: "instant \<Rightarrow> approval list \<Rightarrow> task_run \<Rightarrow> string + (bool \<times> task_run)" where
  "cancel_expired now approvals r =
     (if run_status r = RAwaitingApproval \<and> run_source r \<noteq> ''approval_resume''
      then (case filter (\<lambda>a. ap_execution_id a = run_id r \<and> ap_status a = ''expired'') approvals of
              [] \<Rightarrow> Inr (False, r)
            | [_] \<Rightarrow>
                (case transition_run r RCancelled False of
                   Inl _ \<Rightarrow> Inr (False, r\<lparr>run_status := RCancelled\<rparr>)
                 | Inr (r', _) \<Rightarrow> Inr (True, r'\<lparr>run_completed_at := Some now\<rparr>))
            | _ \<Rightarrow> Inl ''MultipleResultsFound'')
      else Inr (False, r))"

text \<open>The check over all runs, each with its \<open>updated_at\<close> and latest checkpoint: the runs afterwards and
  the two counts; an exception leaves everything as it was.\<close>

definition run_health_check ::
  "instant \<Rightarrow> approval list \<Rightarrow> (task_run \<times> instant \<times> instant option) list \<Rightarrow> (nat \<times> nat) \<times> task_run list" where
  "run_health_check now approvals rows =
     (let stuck = map (\<lambda>(r, u, c). remediate_stuck now u c r) rows;
          expired = map (\<lambda>(_, r). cancel_expired now approvals r) stuck
      in if list_ex (\<lambda>x. case x of Inl _ \<Rightarrow> True | Inr _ \<Rightarrow> False) expired
         then ((0, 0), map fst rows)
         else ((length (filter fst stuck), length (filter (\<lambda>x. case x of Inr (b, _) \<Rightarrow> b | Inl _ \<Rightarrow> False) expired)),
               map (\<lambda>(x, r). case x of Inr (_, r') \<Rightarrow> r' | Inl _ \<Rightarrow> r) (zip expired (map fst rows))))"

end
