(* ===== verification/Run_Properties.thy ===== *)
theory Run_Properties
  imports Graph_Executor
begin

text \<open>
  Properties of \<open>Graph_Executor\<close>: a run always returns, its outcome reaches its plan, its token columns
  are the sums over its segments, a cancellation settles its steps, an exception leaves it failed;
  and what a timeout does instead of being recorded.
\<close>

section \<open>Samples\<close>

definition sample_exec :: exec_services where
  "sample_exec =
     \<lparr>xs_services = sample_services, xs_fuel = 32, xs_lease = Some True, xs_trace_ulid = ''T'',
      xs_totals = (\<lambda>_. (10, 5, 1/4)), xs_timer = None, xs_poisoned = None, xs_exn_text = (\<lambda>_. ''boom'')\<rparr>"

definition exec_plan :: "string \<Rightarrow> plan" where
  "exec_plan st =
     \<lparr>pl_plan_id = ''plan_1'', pl_goal = ''g'', pl_reasoning_summary = None, pl_risk_level = None,
      pl_execution_mode = ''plan'', pl_status = st, pl_tasks = []\<rparr>"

definition exec_state :: "run_status \<Rightarrow> task_step list \<Rightarrow> exec_db" where
  "exec_state st steps =
     \<lparr>xd_world = (dag_world steps)\<lparr>w_run := (dag_run st)\<lparr>run_plan_id := Some ''plan_1''\<rparr>\<rparr>,
      xd_plans = [exec_plan ''executing''], xd_log = [], xd_trace_id = None, xd_input_tokens = 0,
      xd_output_tokens = 0, xd_cost_usd = 0, xd_timeout_seconds = None, xd_active_traces = [], xd_cancel_events = []\<rparr>"

section \<open>Computations on the rows of the run\<close>

lemma on_world_run [engine_simps]:
  "on_world m db = ((case fst (m (xd_world db)) of Inl e \<Rightarrow> Inl (Dag e) | Inr x \<Rightarrow> Inr x),
     db\<lparr>xd_world := snd (m (xd_world db))\<rparr>)"
  by (auto simp: on_world_def split: prod.splits sum.splits)

lemma world_run [engine_simps]:
  "emit t p w = (Inr (), w\<lparr>w_events := w_events w @ [\<lparr>ev_type = t, ev_user_id = run_user_id (w_run w), ev_payload = p\<rparr>]\<rparr>)"
  "set_run g w = (Inr (), w\<lparr>w_run := g (w_run w)\<rparr>)"
  "move_run st w = (if st \<in> set (allowed RUN_TRANSITIONS (run_status (w_run w)))
     then (Inr (), w\<lparr>w_run := (w_run w)\<lparr>run_status := st\<rparr>\<rparr>)
     else (Inl (TransitionRefused (run_transition_error (w_run w) st)), w))"
  by (simp_all add: emit_def set_run_def move_run_def modify_def andthen_def get_def raise_def transition_run_def)

lemma load_run_eval [engine_simps]:
  "load_run rid db = (if run_id (the_run db) = rid then (Inr (the_run db), db)
     else (Inl (ValueError (''Run not found: '' @ rid)), db))"
  by (simp add: load_run_def ret_def raise_def)

text \<open>What \<open>execute_run\<close> does before the loop.\<close>

lemma begin_execute_eval:
  assumes "run_id (the_run db) = rid" and "RRunning \<in> set (allowed RUN_TRANSITIONS (run_status (the_run db)))"
  shows "\<exists>db1. begin_execute xs rid tid surf db = (Inr (), db1)
     \<and> w_steps (xd_world db1) = w_steps (xd_world db) \<and> run_status (the_run db1) = RRunning
     \<and> xd_plans db1 = xd_plans db \<and> run_plan_id (the_run db1) = run_plan_id (the_run db)"
  using assms by (simp add: begin_execute_def Let_def andthen_def engine_simps open_segment_def the_run_def)



section \<open>The outcome on the plan\<close>

lemma keeps_on_world [keeps_intros]: "(\<And>db w. f (db\<lparr>xd_world := w\<rparr>) = f db) \<Longrightarrow> keeps f (on_world m)"
  by (simp add: keeps_def on_world_run)

lemma keeps_finally: "keeps f m \<Longrightarrow> keeps f n \<Longrightarrow> keeps f (finally_do m n)"
  by (simp add: keeps_def finally_do_def split_beta)

lemma plans_roll: "keeps xd_plans (roll_trace_onto_run xs t)"
  unfolding roll_trace_onto_run_def by (rule keeps_modify) (simp add: Let_def)

lemma plans_failed: "keeps xd_plans (mark_run_failed xs k e)"
  unfolding mark_run_failed_def run_failed_def Let_def by (intro keeps_intros) simp_all

lemma plans_segment: "keeps xd_plans (close_segment xs)"
  unfolding close_segment_def finalize_trace_def by (intro keeps_intros plans_roll) simp_all

lemma plans_after: "keeps xd_plans (after_drive xs t fin)" "keeps xd_plans (after_resume xs fin)"
  unfolding after_drive_def after_resume_def checkpoint_trace_def Let_def
  by (cases fin; simp; intro keeps_intros plans_failed plans_roll; simp)+

lemma plans_begin: "keeps xd_plans (begin_execute xs rid tid surf)" "keeps xd_plans (begin_resume xs rid)"
  unfolding begin_execute_def begin_resume_def load_run_def open_segment_def reconcile_rows_def Let_def
  by (intro keeps_intros; simp add: split_beta Let_def)+

lemma mirror_eval:
  assumes "run_plan_id (the_run db) = Some pid" "pid \<noteq> []"
  shows "xd_plans (snd (reconcile_plan_status db)) =
      row_update pl_plan_id pid (\<lambda>p. p\<lparr>pl_status := mirrored_status (run_status (the_run db)) (pl_status p)\<rparr>) (xd_plans db)"
  using assms
  by (cases "map_of RUN_STATUS_TO_PLAN_STATUS (run_status (the_run db))")
    (auto simp: reconcile_plan_status_def modify_def Let_def mirrored_status_def row_update_def intro: map_idI[symmetric])

definition mirrored_plans :: "task_run \<Rightarrow> plan list \<Rightarrow> plan list" where
  "mirrored_plans run plans = xd_plans (snd (reconcile_plan_status
     \<lparr>xd_world = \<lparr>w_run = run, w_steps = [], w_checkpoints = [], w_approvals = [], w_trust = \<lparr>td_states = [], td_ceilings = []\<rparr>,
        w_events = [], w_actions = [], w_needs_reauth = []\<rparr>, xd_plans = plans, xd_log = [], xd_trace_id = None,
      xd_input_tokens = 0, xd_output_tokens = 0, xd_cost_usd = 0, xd_timeout_seconds = None, xd_active_traces = [],
      xd_cancel_events = []\<rparr>))"

lemma reconcile_plan_eval:
  "reconcile_plan_status db = (Inr (), db\<lparr>xd_plans := mirrored_plans (the_run db) (xd_plans db)\<rparr>)"
  by (simp add: mirrored_plans_def reconcile_plan_status_def modify_def Let_def the_run_def)

lemma reconcile_plan_run: "the_run (snd (reconcile_plan_status db)) = the_run db" "fst (reconcile_plan_status db) = Inr ()"
  by (simp_all add: reconcile_plan_status_def modify_def Let_def the_run_def)

text \<open>C20. A run's outcome reaches its plan, whether it was executed or resumed: afterwards the plan is
  completed for a completed or partially completed run, failed for a failed or timed out one,
  cancelled for a cancelled one, unless it already had one of these statuses, which it keeps; a run
  that has not ended leaves its plan as it is, and no other plan changes.\<close>

theorem outcome_reaches_plan:
  assumes "execute_run_body xs rid tid surf db = Some (Inr r, db') \<or> resume_run_body xs rid db = Some (Inr r, db')"
    and "run_plan_id r = Some pid" and "pid \<noteq> []"
  shows "xd_plans db' = map (\<lambda>p. if pl_plan_id p = pid
           then p\<lparr>pl_status := (if pl_status p \<in> {''completed'', ''failed'', ''cancelled''} then pl_status p
              else case run_status r of
                RCompleted \<Rightarrow> ''completed'' | RPartiallyCompleted \<Rightarrow> ''completed'' | RFailed \<Rightarrow> ''failed''
              | RTimedOut \<Rightarrow> ''failed'' | RCancelled \<Rightarrow> ''cancelled'' | _ \<Rightarrow> pl_status p)\<rparr>
           else p) (xd_plans db)"
proof -
  have fin: "xd_plans db' = row_update pl_plan_id pid (\<lambda>p. p\<lparr>pl_status := mirrored_status (run_status r) (pl_status p)\<rparr>) (xd_plans d)"
    if "andthen (finally_do m (close_segment xs)) (\<lambda>_. andthen reconcile_plan_status (\<lambda>_. andthen get (\<lambda>db. ret (the_run db)))) d
        = (Inr r, db')" "keeps xd_plans m" for m and d :: exec_db
  proof -
    note whole = that(1)
    obtain y d2 where y: "finally_do m (close_segment xs) d = (y, d2)" by (cases "finally_do m (close_segment xs) d")
    then obtain x where m: "finally_do m (close_segment xs) d = (Inr x, d2)"
      using whole by (cases y) (auto simp: andthen_def)
    have d2: "xd_plans d2 = xd_plans d"
      using keepsD[OF keeps_finally[OF that(2) plans_segment], of xs d] by (simp add: m)
    have "r = the_run d2" "db' = snd (reconcile_plan_status d2)"
      using whole reconcile_plan_run[of d2] by (auto simp: m andthen_def get_def ret_def split: prod.splits)
    with mirror_eval[of d2 pid] assms(2,3) d2 show ?thesis by simp
  qed
  have "xd_plans db' = row_update pl_plan_id pid (\<lambda>p. p\<lparr>pl_status := mirrored_status (run_status r) (pl_status p)\<rparr>) (xd_plans db)"
    using assms(1)
  proof
    assume "execute_run_body xs rid tid surf db = Some (Inr r, db')"
    then obtain d e w where "begin_execute xs rid tid surf db = (Inr (), d)"
      "finish_execute xs (run_timeout d) e (d\<lparr>xd_world := w\<rparr>) = (Inr r, db')"
      by (auto simp: execute_run_body_def split: prod.splits sum.splits option.splits)
    with fin[OF _ plans_after(1)] keepsD[OF plans_begin(1), of xs rid tid surf db] show ?thesis
      by (fastforce simp: finish_execute_def)
  next
    assume "resume_run_body xs rid db = Some (Inr r, db')"
    then obtain d e w where "begin_resume xs rid db = (Inr (), d)"
      "finish_resume xs e (d\<lparr>xd_world := w\<rparr>) = (Inr r, db')"
      by (auto simp: resume_run_body_def split: prod.splits sum.splits option.splits)
    with fin[OF _ plans_after(2)] keepsD[OF plans_begin(2), of xs rid db] show ?thesis
      by (fastforce simp: finish_resume_def)
  qed
  then show ?thesis
    by (cases "run_status r")
      (auto simp: row_update_def mirrored_status_def RUN_STATUS_TO_PLAN_STATUS_def PLAN_TERMINAL_def intro: map_idI[symmetric])
qed

theorem outcome_reaches_plan_witness:
  "\<exists>r db'. execute_run_body (sample_exec\<lparr>xs_services := sample_services\<lparr>sv_action := (\<lambda>_ _ _ _. ActOutput [])\<rparr>\<rparr>)
        ''run_1'' None None (exec_state RPending [dag_step ''s1'' [] ''email.list'' SPending]) = Some (Inr r, db')
     \<and> map pl_status (xd_plans db') = [''completed'']"
proof -
  let ?xs = "sample_exec\<lparr>xs_services := sample_services\<lparr>sv_action := (\<lambda>_ _ _ _. ActOutput [])\<rparr>\<rparr>"
  let ?db = "exec_state RPending [dag_step ''s1'' [] ''email.list'' SPending]"
  have "(case execute_run_body ?xs ''run_1'' None None ?db of
      Some (Inr r, _) \<Rightarrow> run_plan_id r = Some ''plan_1'' \<and> run_status r = RCompleted | _ \<Rightarrow> False)"
    by code_simp
  then obtain r db' where e: "execute_run_body ?xs ''run_1'' None None ?db = Some (Inr r, db')"
    "run_plan_id r = Some ''plan_1''" "run_status r = RCompleted"
    by (auto split: option.splits prod.splits sum.splits)
  have p: "(''plan_1'' :: string) \<noteq> []" by simp
  from outcome_reaches_plan[OF disjI1[OF e(1)] e(2) p] e show ?thesis
    by (auto simp: exec_state_def exec_plan_def)
qed

section \<open>The trace rollup\<close>

text \<open>Segments rolled one after the other, each with its trace and that trace's totals at the time.\<close>

definition roll_segments :: "exec_services \<Rightarrow> (string \<times> nat \<times> nat \<times> pyfloat) list \<Rightarrow> exec_db \<Rightarrow> exec_db" where
  "roll_segments xs segs db =
     fold (\<lambda>(t, u) db. snd (roll_trace_onto_run (xs\<lparr>xs_totals := (\<lambda>_. u)\<rparr>) t db)) segs db"

definition last_totals :: "(string \<times> nat \<times> nat \<times> pyfloat) list \<Rightarrow> string \<Rightarrow> nat \<times> nat \<times> pyfloat" where
  "last_totals segs t = the (map_of (rev segs) t)"

definition entries :: "(string \<times> nat \<times> nat \<times> pyfloat) list \<Rightarrow> jdict" where
  "entries segs = fold (\<lambda>(t, u). AList.update t (rollup_entry u)) segs []"

lemma entries_snoc: "entries (segs @ [(t, u)]) = AList.update t (rollup_entry u) (entries segs)"
  by (simp add: entries_def)

lemma entries_facts:
  "distinct (map fst (entries segs))" "fst ` set (entries segs) = fst ` set segs"
  "map_of (entries segs) t = map_option rollup_entry (map_of (rev segs) t)"
  by (induction segs rule: rev_induct)
    (auto simp: entries_def distinct_update dom_update update_conv' split_beta)

lemma rolled:
  assumes "rollup_of (the_run db) = []"
  shows "rollup_of (the_run (roll_segments xs segs db)) = entries segs
    \<and> (segs = [] \<or> (let e = entries segs; d = roll_segments xs segs db
         in xd_input_tokens d = nat (rollup_sum ''input_tokens'' e) \<and> xd_output_tokens d = nat (rollup_sum ''output_tokens'' e)
            \<and> xd_cost_usd d = pyround (rollup_cost e) 6))"
proof (induction segs rule: rev_induct)
  case Nil
  then show ?case using assms by (simp add: roll_segments_def entries_def)
next
  case (snoc x segs)
  obtain t u where x: "x = (t, u)" by (cases x)
  let ?d = "roll_segments xs segs db"
  have d: "roll_segments xs (segs @ [x]) db = snd (roll_trace_onto_run (xs\<lparr>xs_totals := (\<lambda>_. u)\<rparr>) t ?d)"
    by (simp add: roll_segments_def x)
  have "rollup_of (r\<lparr>run_checkpoint := Some (dict_merge c [(''trace_rollup'', JObj e)])\<rparr>) = e" for r c e
    by (simp add: rollup_of_def jget_dict_merge jor_def)
  then show ?case
    using snoc.IH unfolding x entries_snoc d[unfolded x]
    by (simp add: roll_trace_onto_run_def modify_def Let_def the_run_def)
qed

lemma sum_entries:
  "(\<Sum>(t, e)\<leftarrow>entries segs. f e) = (\<Sum>t\<in>fst ` set segs. f (rollup_entry (last_totals segs t)))"
proof -
  have "(\<Sum>(t, e)\<leftarrow>entries segs. f e) = (\<Sum>x\<in>set (entries segs). f (snd x))"
    using entries_facts(1)[of segs] by (simp add: sum_list_distinct_conv_sum_set distinct_map split_beta)
  also have "\<dots> = (\<Sum>t\<in>fst ` set (entries segs). f (the (map_of (entries segs) t)))"
    using entries_facts(1)[of segs] by (subst sum.reindex) (auto simp: distinct_map intro!: sum.cong)
  also have "\<dots> = (\<Sum>t\<in>fst ` set segs. f (rollup_entry (last_totals segs t)))"
  proof (intro sum.cong)
    fix t assume "t \<in> fst ` set segs"
    then have "map_of (rev segs) t \<noteq> None" by (simp add: map_of_eq_None_iff)
    then show "f (the (map_of (entries segs) t)) = f (rollup_entry (last_totals segs t))"
      by (auto simp: entries_facts(3) last_totals_def)
  qed (simp add: entries_facts(2))
  finally show ?thesis .
qed

lemma pyround_grid: "pyround (of_int k / 10 ^ n) n = of_int k / 10 ^ n"
  by (simp add: pyround_def round_half_even_def)

lemma sum_grid:
  assumes "finite A"
  shows "\<exists>k. (\<Sum>t\<in>A. pyround (g t) n) = of_int k / 10 ^ n"
  using assms
proof induction
  case empty
  show ?case by (intro exI[of _ 0]) simp
next
  case (insert a A)
  then obtain k where "(\<Sum>t\<in>A. pyround (g t) n) = of_int k / 10 ^ n" by blast
  then show ?case
    using insert.hyps
    by (intro exI[of _ "round_half_even (g a * 10 ^ n) + k"]) (simp add: pyround_def add_divide_distrib)
qed

text \<open>The token columns never count a segment twice: after any sequence of rollups, pauses and
  finalisations of the same trace in any number included, each column is the sum over the distinct
  traces of that trace's last totals, and the cost the sum of their costs rounded to six digits.\<close>

lemma rollup_counts_each_trace_once:
  assumes "rollup_of (the_run db) = []" and "segs \<noteq> []"
  shows "xd_input_tokens (roll_segments xs segs db) = (\<Sum>t\<in>fst ` set segs. fst (last_totals segs t))
    \<and> xd_output_tokens (roll_segments xs segs db) = (\<Sum>t\<in>fst ` set segs. fst (snd (last_totals segs t)))
    \<and> xd_cost_usd (roll_segments xs segs db) = (\<Sum>t\<in>fst ` set segs. pyround (snd (snd (last_totals segs t))) 6)"
proof -
  have tokens: "rollup_sum ''input_tokens'' (entries segs) = int (\<Sum>t\<in>fst ` set segs. fst (last_totals segs t))"
    "rollup_sum ''output_tokens'' (entries segs) = int (\<Sum>t\<in>fst ` set segs. fst (snd (last_totals segs t)))"
    unfolding rollup_sum_def sum_entries of_nat_sum
    by (auto simp: rollup_entry_def split_beta intro!: sum.cong)
  obtain k where k: "(\<Sum>t\<in>fst ` set segs. pyround (snd (snd (last_totals segs t))) 6) = of_int k / 10 ^ 6"
    using sum_grid[of "fst ` set segs" "\<lambda>t. snd (snd (last_totals segs t))" 6] by auto
  have "rollup_cost (entries segs) = (\<Sum>t\<in>fst ` set segs. pyround (snd (snd (last_totals segs t))) 6)"
    unfolding rollup_cost_def sum_entries by (auto simp: rollup_entry_def split_beta intro!: sum.cong)
  with rolled[OF assms(1), of xs segs] assms(2) show ?thesis
    by (simp add: Let_def tokens k pyround_grid[of k 6, simplified] del: of_nat_sum)
qed

section \<open>Cancelling\<close>

definition settled :: "task_step \<Rightarrow> task_step" where
  "settled s = s\<lparr>step_status := (if step_status s = SRunning then SCancelled else SSkipped)\<rparr>"

lemma move_step_eval:
  assumes "row_find step_id sid (w_steps w) = Some s" "st \<in> set (allowed STEP_TRANSITIONS (step_status s))"
  shows "move_step sid st w = (Inr (), w\<lparr>w_steps := row_update step_id sid (\<lambda>s. s\<lparr>step_status := st\<rparr>) (w_steps w)\<rparr>)"
  using assms by (simp add: move_step_def andthen_def get_step_def transition_step_def set_step_def modify_def)

lemma cancel_steps_eval:
  assumes "distinct sids" "distinct (map step_id (w_steps w))"
    and "\<And>i. i \<in> set sids \<Longrightarrow> \<exists>s \<in> set (w_steps w). step_id s = i \<and> step_status s \<in> set CANCELLABLE_STEPS"
  shows "\<exists>evs. cancel_steps sids w = (Inr (),
     w\<lparr>w_steps := map (\<lambda>s. if step_id s \<in> set sids then settled s else s) (w_steps w), w_events := evs\<rparr>)"
  using assms
proof (induction sids arbitrary: w)
  case Nil
  show ?case by (intro exI[of _ "w_events w"]) (simp add: ret_def)
next
  case (Cons i sids)
  then obtain s where s: "s \<in> set (w_steps w)" "step_id s = i" "step_status s \<in> set CANCELLABLE_STEPS" by auto
  then have f: "row_find step_id i (w_steps w) = Some s"
    using Cons.prems(2) by (simp add: row_find_Some_iff_distinct)
  let ?st = "if step_status s = SRunning then SCancelled else SSkipped"
  have ok: "?st \<in> set (allowed STEP_TRANSITIONS (step_status s))"
    using s(3) by (auto simp: CANCELLABLE_STEPS_def status_tables)
  let ?steps = "row_update step_id i (\<lambda>s. s\<lparr>step_status := ?st\<rparr>) (w_steps w)"
  have rows: "?steps = map (\<lambda>x. if step_id x = i then settled x else x) (w_steps w)"
    using Cons.prems(2) s(1,2) by (auto simp: row_update_def settled_def distinct_map dest: inj_onD)
  let ?w = "w\<lparr>w_steps := ?steps, w_events := w_events w @ [\<lparr>ev_type = ''step.skipped'', ev_user_id = run_user_id (w_run w),
      ev_payload = [(''run_id'', JStr (run_id (w_run w))), (''step_id'', JStr i)]\<rparr>]\<rparr>"
  have first: "cancel_steps (i # sids) w = cancel_steps sids ?w"
    by (simp add: andthen_def get_step_def f move_step_eval[OF f ok] world_run get_def)
  have "\<exists>s \<in> set (w_steps ?w). step_id s = j \<and> step_status s \<in> set CANCELLABLE_STEPS" if "j \<in> set sids" for j
    using Cons.prems(1) Cons.prems(3)[of j] that by (auto simp: rows)
  moreover have "distinct (map step_id (w_steps ?w))"
    using Cons.prems(2) by (simp add: rows settled_def comp_def if_distrib cong: if_cong)
  ultimately obtain evs where "cancel_steps sids ?w = (Inr (),
      ?w\<lparr>w_steps := map (\<lambda>s. if step_id s \<in> set sids then settled s else s) (w_steps ?w), w_events := evs\<rparr>)"
    using Cons.IH[of ?w] Cons.prems(1) by auto
  moreover have "map (\<lambda>s. if step_id s \<in> set sids then settled s else s) (w_steps ?w) =
      map (\<lambda>s. if step_id s \<in> set (i # sids) then settled s else s) (w_steps w)"
    using Cons.prems(1) by (auto simp: rows settled_def)
  ultimately show ?case unfolding first by (intro exI[of _ evs]) simp
qed

lemma cancel_run_allowed:
  assumes "distinct (map step_id (w_steps (xd_world db)))" and "run_id (the_run db) = rid"
    and "RCancelled \<in> set (allowed RUN_TRANSITIONS (run_status (the_run db)))"
  shows "\<exists>db'. cancel_run xs rid db = (Inr (the_run db'), db') \<and> run_status (the_run db') = RCancelled
     \<and> w_steps (xd_world db') = map (\<lambda>s. case step_status s of
               SPending \<Rightarrow> s\<lparr>step_status := SSkipped\<rparr> | SReady \<Rightarrow> s\<lparr>step_status := SSkipped\<rparr>
             | SRunning \<Rightarrow> s\<lparr>step_status := SCancelled\<rparr> | _ \<Rightarrow> s) (w_steps (xd_world db))
     \<and> w_trust (xd_world db') = w_trust (xd_world db) \<and> w_actions (xd_world db') = w_actions (xd_world db)
     \<and> w_approvals (xd_world db') = w_approvals (xd_world db)"
proof -
  let ?steps = "w_steps (xd_world db)"
  let ?ids = "map step_id (filter (\<lambda>s. step_status s \<in> set CANCELLABLE_STEPS) ?steps)"
  let ?w = "(xd_world db)\<lparr>w_run := (the_run db)\<lparr>run_status := RCancelled, run_completed_at := Some (sv_now (xs_services xs))\<rparr>\<rparr>"
  obtain evs where e: "cancel_steps ?ids ?w = (Inr (),
      ?w\<lparr>w_steps := map (\<lambda>s. if step_id s \<in> set ?ids then settled s else s) ?steps, w_events := evs\<rparr>)"
    using cancel_steps_eval[of ?ids ?w] assms(1) by (auto simp: distinct_map inj_on_def)
  have rows: "map (\<lambda>s. if step_id s \<in> set ?ids then settled s else s) ?steps = map (\<lambda>s. case step_status s of
       SPending \<Rightarrow> s\<lparr>step_status := SSkipped\<rparr> | SReady \<Rightarrow> s\<lparr>step_status := SSkipped\<rparr>
     | SRunning \<Rightarrow> s\<lparr>step_status := SCancelled\<rparr> | _ \<Rightarrow> s) ?steps"
  proof (intro map_cong refl)
    fix s assume "s \<in> set ?steps"
    then have "step_id s \<in> set ?ids \<longleftrightarrow> step_status s \<in> set CANCELLABLE_STEPS"
      using assms(1) by (auto simp: distinct_map inj_on_def image_iff)
    then show "(if step_id s \<in> set ?ids then settled s else s) = (case step_status s of
       SPending \<Rightarrow> s\<lparr>step_status := SSkipped\<rparr> | SReady \<Rightarrow> s\<lparr>step_status := SSkipped\<rparr>
     | SRunning \<Rightarrow> s\<lparr>step_status := SCancelled\<rparr> | _ \<Rightarrow> s)"
      by (auto simp: settled_def CANCELLABLE_STEPS_def split: step_status.split)
  qed
  show ?thesis
    using assms(2,3) e[unfolded rows]
    by (auto simp: cancel_run_def andthen_def engine_simps reconcile_plan_eval the_run_def)
qed

text \<open>A cancellation that the run's status allows settles the run and exactly its pending, ready and
  running steps: the first two are skipped, a running one is cancelled, every other step keeps its
  row. A run whose status does not allow it is refused and nothing changes.\<close>

lemma cancel_settles_steps:
  assumes "distinct (map step_id (w_steps (xd_world db)))" and "run_id (the_run db) = rid"
  shows "(case cancel_run xs rid db of (res, db') \<Rightarrow>
     if run_status (the_run db) \<notin> {RPending, RRunning, RPaused, RAwaitingApproval, RAwaitingInput, RAwaitingReauth,
          RBlocked, RPartiallyCompleted, RTimedOut}
     then res = Inl (Dag (TransitionRefused (run_transition_error (the_run db) RCancelled)))
          \<and> xd_world db' = xd_world db \<and> xd_plans db' = xd_plans db
     else res = Inr (the_run db') \<and> run_status (the_run db') = RCancelled
          \<and> w_steps (xd_world db') = map (\<lambda>s. case step_status s of
               SPending \<Rightarrow> s\<lparr>step_status := SSkipped\<rparr> | SReady \<Rightarrow> s\<lparr>step_status := SSkipped\<rparr>
             | SRunning \<Rightarrow> s\<lparr>step_status := SCancelled\<rparr> | _ \<Rightarrow> s) (w_steps (xd_world db)))"
proof (cases "RCancelled \<in> set (allowed RUN_TRANSITIONS (run_status (the_run db)))")
  case False
  then show ?thesis
    using assms(2)
    by (cases "run_status (the_run db)")
      (auto simp: cancel_run_def andthen_def engine_simps the_run_def status_tables)
next
  case True
  from cancel_run_allowed[OF assms True, of xs] True show ?thesis
    by (cases "run_status (the_run db)") (auto simp: status_tables)
qed

section \<open>Exceptions and timeouts\<close>

text \<open>An exception in the loop leaves the run failed, with a safe error and an announcement, also when
  the session is lost and the rows have to be read again: from every status of the lost session's
  row from which a run can fail or run.\<close>

lemma loop_exception_recorded:
  assumes "run_status (the_run db) \<in> {RRunning, RAwaitingApproval, RAwaitingInput, RAwaitingReauth, RPartiallyCompleted}"
    and "case xs_poisoned xs of None \<Rightarrow> True
         | Some w \<Rightarrow> run_status (w_run w) \<in> {RPending, RRunning, RPaused, RAwaitingApproval, RAwaitingInput, RAwaitingReauth, RPartiallyCompleted}"
  shows "(case after_drive xs t (Raised e) db of (res, db') \<Rightarrow>
     res = Inr () \<and> run_status (the_run db') = RFailed
     \<and> run_error (the_run db') = Some ((''type'', JStr ''execution_error'') # safe_error_fields (xs_services xs) (xs_exn_text xs e))
     \<and> run_completed_at (the_run db') = Some (sv_now (xs_services xs))
     \<and> ev_type (last (w_events (xd_world db'))) = ''run.failed'')"
  using assms
  by (cases "xs_poisoned xs")
    (auto simp: after_drive_def mark_run_failed_def run_failed_def andthen_def engine_simps the_run_def status_tables Let_def)

lemma segment_keeps:
  "keeps (\<lambda>d. (run_status (the_run d), run_error (the_run d), w_events (xd_world d))) (close_segment xs)"
  unfolding close_segment_def finalize_trace_def roll_trace_onto_run_def
  by (intro keeps_intros) (simp_all add: the_run_def Let_def)

text \<open>A timeout is not recorded: when the timer fires, whatever the rows are by then, the change to
  timed_out is refused and \<open>execute_run\<close> raises instead of returning the run; its status is what it
  was, no error is stored, nothing is announced and the plan is not touched.\<close>

lemma timeout_raises:
  assumes "xs_timer xs = Some w" and "run_timeout db1 = Some n"
    and "begin_execute xs rid tid surf db = (Inr (), db1)"
  shows "(case execute_run_body xs rid tid surf db of
       None \<Rightarrow> False
     | Some (res, db') \<Rightarrow>
         res = Inl (Dag (TransitionRefused (run_transition_error (w_run w) RTimedOut)))
         \<and> run_status (the_run db') = run_status (w_run w) \<and> run_error (the_run db') = run_error (w_run w)
         \<and> w_events (xd_world db') = w_events w \<and> xd_plans db' = xd_plans db)"
proof -
  have refused: "RTimedOut \<notin> set (allowed RUN_TRANSITIONS st)" for st
    by (cases st) (simp_all add: status_tables)
  have close: "run_status (the_run (snd (close_segment xs d))) = run_status (the_run d)
      \<and> run_error (the_run (snd (close_segment xs d))) = run_error (the_run d)
      \<and> w_events (xd_world (snd (close_segment xs d))) = w_events (xd_world d)" for d
    using keepsD[OF segment_keeps, of xs d] by simp
  have "xd_plans (snd (close_segment xs d)) = xd_plans d" for d by (rule keepsD[OF plans_segment])
  moreover have "xd_plans db1 = xd_plans db" using keepsD[OF plans_begin(1), of xs rid tid surf db] assms(3) by simp
  ultimately show ?thesis
    using close[of "db1\<lparr>xd_world := w\<rparr>"]
    by (simp add: execute_run_body_def assms drive_def finish_execute_def finally_do_def after_drive_def andthen_def
        engine_simps refused the_run_def)
qed

text \<open>A step that times out can strand its run: its dependents never become ready, a timed-out step
  is not among the failed ones, so the loop leaves without changing the run, which stays running;
  the stuck-run check then overwrites the status without an error, a completion time or a count.\<close>

lemma timed_out_step_strands_run:
  "(let xs = sample_exec\<lparr>xs_services := sample_services\<lparr>sv_action := (\<lambda>_ _ _ _. ActTimeout)\<rparr>\<rparr>;
        steps = [dag_step ''s1'' [] ''email.list'' SPending, dag_step ''s2'' [''s1''] ''email.list'' SPending]
    in case execute_run xs ''run_1'' None None (exec_state RPending steps) of
         Some (Inr r, db') \<Rightarrow>
           run_status r = RRunning \<and> map step_status (w_steps (xd_world db')) = [STimedOut, SPending]
           \<and> map pl_status (xd_plans db') = [''executing'']
           \<and> (case run_health_check (hours 1) [] [(r, 0, None)] of (counts, runs) \<Rightarrow>
                counts = (0, 0) \<and> map run_status runs = [RTimedOut] \<and> map run_error runs = [None]
                \<and> map run_completed_at runs = [None])
       | _ \<Rightarrow> False)"
  by code_simp

end
