(* ===== verification/Identity.thy ===== *)
theory Identity
  imports Json Capabilities Verification "HOL-Library.Multiset"
begin

text \<open>
  \<open>backend/src/services/idempotency/identity.py\<close>: the key that identifies a logical write. It is made of
  the place in the execution (run, step, capability) and of a native token, a digest of the
  normalised identity fields, or the position of the write in its step. The JSON encoder with sorted
  keys, the first 32 digits of its SHA-256 and the text of a token are parameters.
\<close>

section \<open>Strategies\<close>

record identity_spec =
  is_native_token_field :: "string option"
  is_identity_fields :: "string list"

definition IDENTITY_SPECS :: "(string \<times> identity_spec) list" where
  "IDENTITY_SPECS =
     [(''email.send'', \<lparr>is_native_token_field = None, is_identity_fields = [''to'', ''cc'', ''bcc'', ''subject'']\<rparr>),
      (''email.delete'', \<lparr>is_native_token_field = None, is_identity_fields = [''message_id'']\<rparr>),
      (''calendar.create'', \<lparr>is_native_token_field = None,
         is_identity_fields = [''calendar_id'', ''start'', ''end'', ''summary'', ''attendees'']\<rparr>)]"

definition POSITIONAL_KEY_ACCEPTED :: "string list" where
  "POSITIONAL_KEY_ACCEPTED =
    [''email.reply'', ''calendar.update'', ''calendar.delete'', ''repo.create_pr'', ''repo.merge_pr'',
     ''repo.update_pr'', ''repo.review_pr'', ''issue.create'', ''issue.update'', ''issue.comment'',
     ''issue.delete'', ''issue.transition'', ''issue.sub_issue'', ''doc.create'', ''doc.update'',
     ''doc.delete'', ''doc.comment'', ''doc.append'', ''doc.move'', ''doc.update_block'',
     ''doc.delete_block'', ''doc.create_datasource'', ''doc.update_datasource'', ''doc.drive_create'',
     ''doc.drive_delete'', ''workflow.create_issue'', ''workflow.update_issue'', ''workflow.transition'',
     ''workflow.comment'', ''workflow.delete'', ''workflow.create_issues'', ''workflow.bulk_update'',
     ''workflow.update_comment'', ''workflow.delete_comment'', ''workflow.resolve_comment'',
     ''workflow.unresolve_comment'', ''workflow.create_project'', ''workflow.create_milestone'',
     ''workflow.update_milestone'', ''workflow.delete_milestone'', ''workflow.create_customer_need'',
     ''messaging.send'', ''messaging.reply'', ''messaging.react'', ''messaging.update'',
     ''messaging.send_template'', ''messaging.post'', ''messaging.share'']"

definition identity_error :: "string \<Rightarrow> string" where
  "identity_error c = ''IRREVERSIBLE write capability '' @ [CHR 0x27] @ c @ [CHR 0x27] @
     '' has no identity strategy (add an IdentitySpec or list it in POSITIONAL_KEY_ACCEPTED)''"

definition validate_identity_coverage_strict :: "string list \<Rightarrow> string list" where
  "validate_identity_coverage_strict caps =
     map identity_error
       (filter (\<lambda>c. c \<notin> set (map fst IDENTITY_SPECS @ POSITIONAL_KEY_ACCEPTED)) (sort (remdups caps)))"

definition validate_identity_coverage :: "string list \<Rightarrow> string list" where
  "validate_identity_coverage caps = sort (remdups (filter (\<lambda>c. c \<notin> fst ` set IDENTITY_SPECS) caps))"

section \<open>The key\<close>

record encoders =
  en_dumps :: "json \<Rightarrow> string"
  en_digest :: "string \<Rightarrow> string"
  en_str :: "json \<Rightarrow> string"

definition strip :: "string \<Rightarrow> string" where
  "strip s = rev (dropWhile is_space (rev (dropWhile is_space s)))"

fun normalize :: "(json \<Rightarrow> string) \<Rightarrow> json \<Rightarrow> json" where
  "normalize dumps (JStr s) = JStr (map lower (strip s))"
| "normalize dumps (JObj d) = JObj (sort_key fst (map (\<lambda>(k, v). (k, normalize dumps v)) d))"
| "normalize dumps (JList xs) = JList (sort_key dumps (map (normalize dumps) xs))"
| "normalize dumps v = v"

text \<open>A missing field is an empty list, a scalar the list of itself.\<close>

definition field_values :: "jdict \<Rightarrow> string \<Rightarrow> json list" where
  "field_values args f =
     (case jget args f of JNull \<Rightarrow> [] | JList xs \<Rightarrow> xs | v \<Rightarrow> [v])"

definition identity_payload :: "encoders \<Rightarrow> string list \<Rightarrow> jdict \<Rightarrow> json" where
  "identity_payload en names args = JObj (map (\<lambda>f. (f, normalize (en_dumps en) (JList (field_values args f)))) names)"

definition key_scope :: "string \<Rightarrow> string \<Rightarrow> string \<Rightarrow> string" where
  "key_scope rid sid capability = rid @ '':'' @ sid @ '':'' @ capability"

definition derive_identity_key :: "encoders \<Rightarrow> string \<Rightarrow> jdict \<Rightarrow> string \<Rightarrow> string \<Rightarrow> nat \<Rightarrow> string" where
  "derive_identity_key en capability args rid sid ordinal =
     (let scope = key_scope rid sid capability;
          spec = map_of IDENTITY_SPECS capability;
          token = (case spec of None \<Rightarrow> JNull
                   | Some s \<Rightarrow> (case is_native_token_field s of None \<Rightarrow> JNull | Some f \<Rightarrow> jget args f))
      in if truthy token then scope @ '':tok:'' @ en_str en token
         else (case spec of
                 Some s \<Rightarrow>
                   if is_identity_fields s \<noteq> []
                   then scope @ '':sem:'' @ en_digest en (en_dumps en (identity_payload en (is_identity_fields s) args))
                   else scope @ '':pos:'' @ nat_text ordinal
               | None \<Rightarrow> scope @ '':pos:'' @ nat_text ordinal))"

section \<open>Coverage at startup\<close>

lemma catalog_rows_identified:
  "list_all (\<lambda>(c, m). cm_read_only m \<or> c \<in> set REVERSIBLE_INTERNAL_CAPABILITIES
     \<or> c \<in> set (map fst IDENTITY_SPECS @ POSITIONAL_KEY_ACCEPTED)) CAPABILITY_CATALOG"
  by code_simp

text \<open>The shipped catalog passes both startup gates: every irreversible write has an authored
  read-back or is an audited exception, and has an authored identity or is accepted as positional.\<close>

lemma shipped_catalog_covered:
  "validate_post_condition_coverage write_capabilities = []
   \<and> validate_identity_coverage_strict (filter is_irreversible_capability write_capabilities) = []"
proof
  show "validate_post_condition_coverage write_capabilities = []" by (rule read_backs_cover)
  have "c \<in> set (map fst IDENTITY_SPECS @ POSITIONAL_KEY_ACCEPTED)"
    if "c \<in> set write_capabilities" "is_irreversible_capability c" for c
    using irreversible_catalog_row[OF that] catalog_rows_identified by (fastforce simp: list_all_iff)
  then show "validate_identity_coverage_strict (filter is_irreversible_capability write_capabilities) = []"
    by (auto simp: validate_identity_coverage_strict_def filter_empty_conv)
qed

section \<open>Stability and separation of keys\<close>

lemma sort_key_mset:
  assumes "mset xs = mset ys" and "inj_on f (set xs)"
  shows "sort_key f xs = sort_key f ys"
  by (rule sort_key_inj_key_eq) (use assms in \<open>auto dest: mset_eq_setD\<close>)

lemma no_native_token: "map_of IDENTITY_SPECS c = Some s \<Longrightarrow> is_native_token_field s = None \<and> is_identity_fields s \<noteq> []"
  by (auto simp: IDENTITY_SPECS_def split: if_splits)

text \<open>Recomposing a write does not change its key: for a capability with authored identity fields, two
  argument sets whose fields hold the same values up to order, letter case, outer blanks and
  scalar-or-singleton form have the same key at the same place of the execution, whatever their other
  fields and whatever the position of the write in the step.\<close>

lemma recomposed_write_keeps_key:
  assumes "map_of IDENTITY_SPECS capability = Some s"
    and "\<forall>f \<in> set (is_identity_fields s).
           inj_on (en_dumps en) (set (map (normalize (en_dumps en)) (field_values args f)))
           \<and> mset (map (normalize (en_dumps en)) (field_values args f)) = mset (map (normalize (en_dumps en)) (field_values args' f))"
  shows "derive_identity_key en capability args rid sid n = derive_identity_key en capability args' rid sid m"
proof -
  have "normalize (en_dumps en) (JList (field_values args f)) = normalize (en_dumps en) (JList (field_values args' f))"
    if "f \<in> set (is_identity_fields s)" for f
    using bspec[OF assms(2) that] sort_key_mset by fastforce
  then have "identity_payload en (is_identity_fields s) args = identity_payload en (is_identity_fields s) args'"
    unfolding identity_payload_def json.inject by (intro map_cong) auto
  then show ?thesis
    using no_native_token[OF assms(1)] by (simp add: derive_identity_key_def assms(1) Let_def)
qed

lemma colon_free_prefix:
  assumes "CHR '':'' \<notin> set a" "CHR '':'' \<notin> set b" "a @ '':'' @ u = b @ '':'' @ v"
  shows "a = b \<and> u = v"
proof -
  have "takeWhile (\<lambda>c. c \<noteq> CHR '':'') (x @ '':'' @ y) = x" if "CHR '':'' \<notin> set x" for x y :: string
    using that by (induction x) auto
  from this[OF assms(1), of u] this[OF assms(2), of v] assms(3) show ?thesis by auto
qed

lemma key_form: "\<exists>rest. derive_identity_key en capability args rid sid n = rid @ '':'' @ sid @ '':'' @ capability @ '':'' @ rest"
  by (auto simp: derive_identity_key_def key_scope_def Let_def split: option.split)

text \<open>Keys never cross places: the key of a write determines its run, its step and its capability, so a
  write can only be taken for another one of the same step and capability.\<close>

lemma key_determines_place:
  assumes "derive_identity_key en capability args rid sid n = derive_identity_key en capability' args' rid' sid' n'"
    and "CHR '':'' \<notin> set rid \<union> set sid \<union> set capability \<union> set rid' \<union> set sid' \<union> set capability'"
  shows "rid = rid' \<and> sid = sid' \<and> capability = capability'"
proof -
  obtain u v where e: "rid @ '':'' @ sid @ '':'' @ capability @ '':'' @ u = rid' @ '':'' @ sid' @ '':'' @ capability' @ '':'' @ v"
    using key_form[of en capability args rid sid n] key_form[of en capability' args' rid' sid' n'] assms(1) by metis
  have "rid = rid'" and e2: "sid @ '':'' @ capability @ '':'' @ u = sid' @ '':'' @ capability' @ '':'' @ v"
    using colon_free_prefix[OF _ _ e] assms(2) by auto
  have "sid = sid'" and e3: "capability @ '':'' @ u = capability' @ '':'' @ v"
    using colon_free_prefix[OF _ _ e2] assms(2) by auto
  have "capability = capability'" using colon_free_prefix[OF _ _ e3] assms(2) by auto
  with \<open>rid = rid'\<close> \<open>sid = sid'\<close> show ?thesis by simp
qed

section \<open>Witnesses\<close>

text \<open>An encoder that tells strings apart, and an identity digest.\<close>

definition sample_encoders :: encoders where
  "sample_encoders = \<lparr>en_dumps = (\<lambda>j. case j of JObj d \<Rightarrow> concat (map fst d) | _ \<Rightarrow> jstr j), en_digest = (\<lambda>t. t), en_str = jstr\<rparr>"

definition sample_send :: jdict where
  "sample_send = [(''to'', JList [JStr ''Bob@x.io'', JStr ''ann@x.io'']), (''subject'', JStr ''Hi''), (''body'', JStr ''one'')]"

definition resumed_send :: jdict where
  "resumed_send = [(''body'', JStr ''two''), (''subject'', JStr '' hi ''), (''to'', JList [JStr ''ann@x.io'', JStr ''bob@x.io''])]"

end
