(* ===== verification/Ledger.thy ===== *)
theory Ledger
  imports Identity
begin

text \<open>
  Exactly-once writes: the ledger of \<open>backend/src/services/idempotency/ledger.py\<close> and the tool-call
  wrapper of \<open>idempotency/wrapper.py\<close>. The unique index on (workspace, key) is what makes an insert
  fail; a commit is one step. \<open>reserve\<close> is given first as the code's sequence of statements run alone,
  then as separate steps of any number of workers (\<open>ledger_step\<close>), because between the failed insert,
  the lookup and the conditional update other workers may run. The tool that the wrapper calls, the
  classification of tools and the identifiers are parameters.
\<close>

section \<open>The table\<close>

datatype ledger_status = InFlight | Completed | Failed

record ledger_entry =
  le_ledger_id :: string
  le_workspace_id :: string
  le_run_id :: "string option"
  le_step_id :: "string option"
  le_capability :: string
  le_identity_key :: string
  le_status :: ledger_status
  le_result_json :: json
  le_completed_at :: "instant option"

definition le_key :: "ledger_entry \<Rightarrow> string \<times> string" where
  "le_key r = (le_workspace_id r, le_identity_key r)"

definition ledger_lookup :: "string \<times> string \<Rightarrow> ledger_entry list \<Rightarrow> ledger_entry option" where
  "ledger_lookup k tbl = row_find le_key k tbl"

record reserve_outcome =
  ro_already_done :: bool
  ro_in_flight_conflict :: bool
  ro_result :: json
  ro_identity_key :: string
  ro_ledger_id :: "string option"

text \<open>\<open>db.add(entry); commit()\<close>: refused by the unique index or a duplicate primary key.\<close>

definition insert_entry :: "ledger_entry \<Rightarrow> ledger_entry list \<Rightarrow> ledger_entry list option" where
  "insert_entry e tbl =
     (if ledger_lookup (le_key e) tbl \<noteq> None \<or> le_ledger_id e \<in> le_ledger_id ` set tbl then None else Some (tbl @ [e]))"

text \<open>The conditional update from failed to in_flight, with the number of rows it changed.\<close>

definition reopen :: "string \<Rightarrow> ledger_entry list \<Rightarrow> nat \<times> ledger_entry list" where
  "reopen lid tbl =
     (let hit = (\<lambda>r. le_ledger_id r = lid \<and> le_status r = Failed)
      in (length (filter hit tbl),
          map (\<lambda>r. if hit r then r\<lparr>le_status := InFlight, le_result_json := JNull\<rparr> else r) tbl))"

definition granted :: "string \<Rightarrow> string option \<Rightarrow> reserve_outcome" where
  "granted key lid = \<lparr>ro_already_done = False, ro_in_flight_conflict = False, ro_result = JNull,
     ro_identity_key = key, ro_ledger_id = lid\<rparr>"

definition conflict :: "string \<Rightarrow> string \<Rightarrow> reserve_outcome" where
  "conflict key lid = \<lparr>ro_already_done = False, ro_in_flight_conflict = True, ro_result = JNull,
     ro_identity_key = key, ro_ledger_id = Some lid\<rparr>"

definition resolve_existing :: "string \<Rightarrow> string \<Rightarrow> ledger_entry list \<Rightarrow> reserve_outcome \<times> ledger_entry list" where
  "resolve_existing ws key tbl =
     (case ledger_lookup (ws, key) tbl of
        None \<Rightarrow> (granted key None, tbl)
      | Some row \<Rightarrow>
          (case le_status row of
             Completed \<Rightarrow> (\<lparr>ro_already_done = True, ro_in_flight_conflict = False, ro_result = le_result_json row,
                            ro_identity_key = key, ro_ledger_id = Some (le_ledger_id row)\<rparr>, tbl)
           | Failed \<Rightarrow>
               (let (n, tbl') = reopen (le_ledger_id row) tbl
                in if n = 0 then (conflict key (le_ledger_id row), tbl')
                   else (granted key (Some (le_ledger_id row)), tbl'))
           | InFlight \<Rightarrow> (conflict key (le_ledger_id row), tbl)))"

definition new_entry :: "string \<Rightarrow> string \<Rightarrow> string option \<Rightarrow> string option \<Rightarrow> string \<Rightarrow> string \<Rightarrow> ledger_entry" where
  "new_entry lid ws rid sid capability key =
     \<lparr>le_ledger_id = lid, le_workspace_id = ws, le_run_id = rid, le_step_id = sid, le_capability = capability,
      le_identity_key = key, le_status = InFlight, le_result_json = JNull, le_completed_at = None\<rparr>"

definition reserve ::
  "string \<Rightarrow> string \<Rightarrow> string option \<Rightarrow> string option \<Rightarrow> string \<Rightarrow> string \<Rightarrow> ledger_entry list \<Rightarrow> reserve_outcome \<times> ledger_entry list" where
  "reserve lid ws rid sid capability key tbl =
     (case insert_entry (new_entry lid ws rid sid capability key) tbl of
        Some tbl' \<Rightarrow> (granted key (Some lid), tbl')
      | None \<Rightarrow> resolve_existing ws key tbl)"

text \<open>\<open>db.get\<close> with no identifier finds nothing.\<close>

definition ledger_update :: "string option \<Rightarrow> (ledger_entry \<Rightarrow> ledger_entry) \<Rightarrow> ledger_entry list \<Rightarrow> ledger_entry list" where
  "ledger_update lid f tbl = (case lid of None \<Rightarrow> tbl | Some l \<Rightarrow> row_update le_ledger_id l f tbl)"

definition ledger_record_success :: "instant \<Rightarrow> string option \<Rightarrow> json \<Rightarrow> ledger_entry list \<Rightarrow> ledger_entry list" where
  "ledger_record_success now lid result tbl =
     ledger_update lid (\<lambda>r. r\<lparr>le_status := Completed, le_result_json := result, le_completed_at := Some now\<rparr>) tbl"

definition mark_failed :: "string option \<Rightarrow> ledger_entry list \<Rightarrow> ledger_entry list" where
  "mark_failed lid tbl = ledger_update lid (\<lambda>r. r\<lparr>le_status := Failed\<rparr>) tbl"

section \<open>The wrapper\<close>

text \<open>The context of one wrapper, and what it uses from outside: the capability of a tool and whether it
  writes, the tool itself (the n-th call; it may raise), identifiers and the clock.\<close>

record idem_ctx =
  ic_run_id :: string
  ic_step_id :: string
  ic_workspace_id :: string
  ic_encoders :: encoders
  ic_resolve :: "string \<Rightarrow> string option \<times> bool"
  ic_tool :: "nat \<Rightarrow> string \<Rightarrow> jdict \<Rightarrow> string + json"
  ic_ulid :: "nat \<Rightarrow> string"
  ic_now :: instant

record idem_state =
  st_ledger :: "ledger_entry list"
  st_ordinal :: nat
  st_reserved :: nat
  st_calls :: "(string \<times> jdict) list"

definition reports_error :: "json \<Rightarrow> bool" where
  "reports_error result = (is_obj result \<and>
     (truthy (jget (obj_items result) ''error'') \<or> truthy (jget (obj_items result) ''is_error'')))"

definition uncertain_result :: json where
  "uncertain_result = JObj [(''error'', JStr ''idempotency: prior attempt in-flight; not re-fired (awaiting verification)''),
     (''idempotent_uncertain'', JBool True)]"

definition call_tool :: "idem_ctx \<Rightarrow> string \<Rightarrow> jdict \<Rightarrow> (idem_state, string, json) engine" where
  "call_tool cx tool input = (\<lambda>s.
     (ic_tool cx (length (st_calls s)) tool input, s\<lparr>st_calls := st_calls s @ [(tool, input)]\<rparr>))"

definition settle_call :: "idem_ctx \<Rightarrow> string option \<Rightarrow> json \<Rightarrow> (idem_state, string, json) engine" where
  "settle_call cx lid result =
     andthen (modify (\<lambda>s. s\<lparr>st_ledger := (if reports_error result then mark_failed lid (st_ledger s)
                 else ledger_record_success (ic_now cx) lid result (st_ledger s))\<rparr>)) (\<lambda>_. ret result)"

definition reserve_call :: "idem_ctx \<Rightarrow> string \<Rightarrow> string \<Rightarrow> (idem_state, string, reserve_outcome) engine" where
  "reserve_call cx capability key = (\<lambda>s.
     let (oc, tbl) = reserve (ic_ulid cx (st_reserved s)) (ic_workspace_id cx) (Some (ic_run_id cx)) (Some (ic_step_id cx))
                       capability key (st_ledger s)
     in (Inr oc, s\<lparr>st_ledger := tbl, st_reserved := st_reserved s + 1\<rparr>))"

definition idempotent_execute :: "idem_ctx \<Rightarrow> string \<Rightarrow> jdict \<Rightarrow> (idem_state, string, json) engine" where
  "idempotent_execute cx tool input =
     (case ic_resolve cx tool of
        (Some capability, True) \<Rightarrow>
          andthen get (\<lambda>s0.
          andthen (modify (\<lambda>s. s\<lparr>st_ordinal := st_ordinal s + 1\<rparr>)) (\<lambda>_.
          let key = derive_identity_key (ic_encoders cx) capability input (ic_run_id cx) (ic_step_id cx) (st_ordinal s0)
          in andthen (reserve_call cx capability key) (\<lambda>oc.
             if ro_already_done oc then ret (ro_result oc)
             else if ro_in_flight_conflict oc then ret uncertain_result
             else andthen (call_tool cx tool input) (settle_call cx (ro_ledger_id oc)))))
      | _ \<Rightarrow> call_tool cx tool input)"

section \<open>The contract of the ledger\<close>

text \<open>What the wrapper relies on: a completed write is answered with its stored result and nothing
  changes; one who is granted a write holds its row; the holder's success is stored.\<close>

locale write_gate =
  fixes stored :: "'t \<Rightarrow> 'k \<Rightarrow> 'r option"
    and ask :: "'k \<Rightarrow> 't \<Rightarrow> 'o \<times> 't"
    and replay :: "'o \<Rightarrow> 'r option"
    and grant :: "'o \<Rightarrow> 'h option"
    and holds :: "'t \<Rightarrow> 'h \<Rightarrow> 'k \<Rightarrow> bool"
    and succeed :: "'h \<Rightarrow> 'r \<Rightarrow> 't \<Rightarrow> 't"
  assumes ask_stored: "stored t k = Some r \<Longrightarrow> replay (fst (ask k t)) = Some r \<and> snd (ask k t) = t"
    and ask_granted: "grant (fst (ask k t)) = Some h \<Longrightarrow> holds (snd (ask k t)) h k"
    and succeed_stored: "holds t h k \<Longrightarrow> stored (succeed h r t) k = Some r"
begin

lemma success_replayed:
  assumes "grant (fst (ask k t)) = Some h"
  shows "replay (fst (ask k (succeed h r (snd (ask k t))))) = Some r
    \<and> snd (ask k (succeed h r (snd (ask k t)))) = succeed h r (snd (ask k t))"
  by (rule ask_stored[OF succeed_stored[OF ask_granted[OF assms]]])

end

definition stored_result :: "ledger_entry list \<Rightarrow> string \<times> string \<Rightarrow> json option" where
  "stored_result tbl k =
     (case ledger_lookup k tbl of None \<Rightarrow> None
      | Some r \<Rightarrow> if le_status r = Completed then Some (le_result_json r) else None)"

definition row_held :: "ledger_entry list \<Rightarrow> string \<Rightarrow> string \<times> string \<Rightarrow> bool" where
  "row_held tbl lid k = (\<exists>r. ledger_lookup k tbl = Some r \<and> le_ledger_id r = lid)"

definition grant_of :: "reserve_outcome \<Rightarrow> string option" where
  "grant_of oc = (if ro_already_done oc \<or> ro_in_flight_conflict oc then None else ro_ledger_id oc)"

definition replay_of :: "reserve_outcome \<Rightarrow> json option" where
  "replay_of oc = (if ro_already_done oc then Some (ro_result oc) else None)"

lemma lookup_map:
  "(\<And>r. le_key (f r) = le_key r) \<Longrightarrow> ledger_lookup k (map f tbl) = map_option f (ledger_lookup k tbl)"
  unfolding ledger_lookup_def by (induction tbl) auto

lemma key_updates [simp]:
  "le_key (r\<lparr>le_status := s\<rparr>) = le_key r" "le_key (r\<lparr>le_result_json := j\<rparr>) = le_key r"
  "le_key (r\<lparr>le_completed_at := w\<rparr>) = le_key r"
  "le_key (new_entry lid ws rid sid c key) = (ws, key)" "le_ledger_id (new_entry lid ws rid sid c key) = lid"
  by (simp_all add: le_key_def new_entry_def)

lemma lookup_update:
  "(\<And>r. le_key (f r) = le_key r) \<Longrightarrow> ledger_lookup k (row_update le_ledger_id l f tbl) =
     map_option (\<lambda>r. if le_ledger_id r = l then f r else r) (ledger_lookup k tbl)"
  unfolding row_update_def by (rule lookup_map) simp

lemma lookup_reopen:
  "ledger_lookup k (snd (reopen l tbl)) = map_option (\<lambda>r. if le_ledger_id r = l \<and> le_status r = Failed
     then r\<lparr>le_status := InFlight, le_result_json := JNull\<rparr> else r) (ledger_lookup k tbl)"
  unfolding reopen_def Let_def snd_conv by (rule lookup_map) simp

lemma lookup_insert:
  "insert_entry e tbl = Some tbl' \<Longrightarrow>
     ledger_lookup k tbl' = (if k = le_key e then Some e else ledger_lookup k tbl) \<and> ledger_lookup (le_key e) tbl = None
     \<and> le_ledger_id e \<notin> le_ledger_id ` set tbl"
  by (cases "row_find le_key k tbl")
    (auto simp: insert_entry_def ledger_lookup_def row_find_append dest: row_find_SomeD split: if_splits)

lemma reserve_laws:
  "stored_result tbl k = Some r \<Longrightarrow>
     replay_of (fst (reserve lid (fst k) rid sid c (snd k) tbl)) = Some r \<and> snd (reserve lid (fst k) rid sid c (snd k) tbl) = tbl"
  "grant_of (fst (reserve lid (fst k) rid sid c (snd k) tbl)) = Some h \<Longrightarrow> row_held (snd (reserve lid (fst k) rid sid c (snd k) tbl)) h k"
  "row_held tbl h k \<Longrightarrow> stored_result (ledger_record_success now (Some h) r tbl) k = Some r"
proof -
  assume "stored_result tbl k = Some r"
  then obtain row where row: "ledger_lookup k tbl = Some row" "le_status row = Completed" "le_result_json row = r"
    by (auto simp: stored_result_def split: option.splits if_splits)
  then show "replay_of (fst (reserve lid (fst k) rid sid c (snd k) tbl)) = Some r
      \<and> snd (reserve lid (fst k) rid sid c (snd k) tbl) = tbl"
    by (simp add: reserve_def insert_entry_def resolve_existing_def replay_of_def)
next
  assume g: "grant_of (fst (reserve lid (fst k) rid sid c (snd k) tbl)) = Some h"
  let ?e = "new_entry lid (fst k) rid sid c (snd k)"
  show "row_held (snd (reserve lid (fst k) rid sid c (snd k) tbl)) h k"
  proof (cases "insert_entry ?e tbl")
    case None
    then show ?thesis
      using g by (auto simp: reserve_def resolve_existing_def grant_of_def granted_def conflict_def row_held_def lookup_reopen
          split_beta Let_def split: option.splits ledger_status.splits if_splits)
  next
    case (Some tbl')
    then show ?thesis
      using g lookup_insert[OF Some, of k]
      by (auto simp: reserve_def grant_of_def granted_def row_held_def)
  qed
next
  assume "row_held tbl h k"
  then show "stored_result (ledger_record_success now (Some h) r tbl) k = Some r"
    by (auto simp: row_held_def ledger_record_success_def ledger_update_def stored_result_def lookup_update)
qed

interpretation ledger_gate: write_gate stored_result
    "\<lambda>k tbl. reserve lid (fst k) rid sid c (snd k) tbl" replay_of grant_of row_held
    "\<lambda>h r tbl. ledger_record_success now (Some h) r tbl"
  for lid rid sid c now
  by unfold_locales (rule reserve_laws; assumption)+

section \<open>Workers\<close>

text \<open>An attempt of a worker: the write it is about and the fresh identifier of its row. Where a worker is
  in its attempt; \<open>Cleared\<close>: it may call the tool; \<open>Fired\<close>: it has, with this report. A lost worker
  crashed, or its tool raised; whether the effect took place is then unknown.\<close>

record attempt =
  at_key :: "string \<times> string"
  at_entry :: ledger_entry

datatype report = Succeeded | Reported_error | Lost

datatype worker = Idle | Resolving | Reopening string | Cleared "string option" | Fired "string option" report | Gone

record machine =
  ma_table :: "ledger_entry list"
  ma_at :: "nat \<Rightarrow> worker"
  ma_fires :: "(nat \<times> report) list"

definition at_worker :: "nat \<Rightarrow> worker \<Rightarrow> machine \<Rightarrow> machine" where
  "at_worker i p s = s\<lparr>ma_at := (ma_at s)(i := p)\<rparr>"

text \<open>What a worker does after its lookup.\<close>

fun after_lookup :: "ledger_entry option \<Rightarrow> worker" where
  "after_lookup None = Cleared None"
| "after_lookup (Some row) = (case le_status row of Failed \<Rightarrow> Reopening (le_ledger_id row) | _ \<Rightarrow> Gone)"

inductive ledger_step :: "(nat \<Rightarrow> attempt) \<Rightarrow> instant \<Rightarrow> json \<Rightarrow> machine \<Rightarrow> machine \<Rightarrow> bool"
  for att :: "nat \<Rightarrow> attempt" and now :: instant and result :: json where
  Insert: "ma_at s i = Idle \<Longrightarrow> insert_entry (at_entry (att i)) (ma_table s) = Some tbl \<Longrightarrow>
     ledger_step att now result s (at_worker i (Cleared (Some (le_ledger_id (at_entry (att i))))) (s\<lparr>ma_table := tbl\<rparr>))"
| Refused: "ma_at s i = Idle \<Longrightarrow> insert_entry (at_entry (att i)) (ma_table s) = None \<Longrightarrow>
     ledger_step att now result s (at_worker i Resolving s)"
| Lookup: "ma_at s i = Resolving \<Longrightarrow>
     ledger_step att now result s (at_worker i (after_lookup (ledger_lookup (at_key (att i)) (ma_table s))) s)"
| Reopen: "ma_at s i = Reopening l \<Longrightarrow> reopen l (ma_table s) = (n, tbl) \<Longrightarrow>
     ledger_step att now result s (at_worker i (if n = 0 then Gone else Cleared (Some l)) (s\<lparr>ma_table := tbl\<rparr>))"
| Fire: "ma_at s i = Cleared l \<Longrightarrow>
     ledger_step att now result s (at_worker i (if r = Lost then Gone else Fired l r) (s\<lparr>ma_fires := ma_fires s @ [(i, r)]\<rparr>))"
| Success: "ma_at s i = Fired l Succeeded \<Longrightarrow>
     ledger_step att now result s (at_worker i Gone (s\<lparr>ma_table := ledger_record_success now l result (ma_table s)\<rparr>))"
| Failure: "ma_at s i = Fired l Reported_error \<Longrightarrow>
     ledger_step att now result s (at_worker i Gone (s\<lparr>ma_table := mark_failed l (ma_table s)\<rparr>))"
| Crash: "ledger_step att now result s (at_worker i Gone s)"

inductive ledger_reach :: "(nat \<Rightarrow> attempt) \<Rightarrow> instant \<Rightarrow> json \<Rightarrow> machine \<Rightarrow> bool"
  for att now result where
  Start: "ledger_reach att now result \<lparr>ma_table = [], ma_at = (\<lambda>_. Idle), ma_fires = []\<rparr>"
| Step: "ledger_reach att now result s \<Longrightarrow> ledger_step att now result s s' \<Longrightarrow> ledger_reach att now result s'"

text \<open>The reports on a write, in the order in which the tool was called.\<close>

definition reports_on :: "(nat \<Rightarrow> attempt) \<Rightarrow> machine \<Rightarrow> string \<times> string \<Rightarrow> report list" where
  "reports_on att s k = map snd (filter (\<lambda>(i, r). at_key (att i) = k) (ma_fires s))"

definition well_attempted :: "(nat \<Rightarrow> attempt) \<Rightarrow> bool" where
  "well_attempted att \<longleftrightarrow> inj (\<lambda>i. le_ledger_id (at_entry (att i)))
     \<and> (\<forall>i. le_key (at_entry (att i)) = at_key (att i) \<and> le_status (at_entry (att i)) = InFlight)"

fun holder :: "worker \<Rightarrow> string option option" where
  "holder (Cleared l) = Some l"
| "holder (Fired l _) = Some l"
| "holder _ = None"

text \<open>The invariant: identifiers are unique and belong to workers that have started; a worker that resolves or reopens has a
  row; a holder's row is in flight and it is the only holder of its write; a reported call is the last
  one on its write; after a call not known to have failed nobody is cleared and the row is not failed;
  every earlier call reported an error.\<close>

definition started :: "machine \<Rightarrow> nat \<Rightarrow> bool" where
  "started s i \<longleftrightarrow> ma_at s i \<noteq> Idle"

definition row_of :: "(nat \<Rightarrow> attempt) \<Rightarrow> machine \<Rightarrow> nat \<Rightarrow> ledger_entry option" where
  "row_of att s i = ledger_lookup (at_key (att i)) (ma_table s)"

definition ids_owned :: "(nat \<Rightarrow> attempt) \<Rightarrow> machine \<Rightarrow> bool" where
  "ids_owned att s \<longleftrightarrow> distinct (map le_ledger_id (ma_table s))
     \<and> (\<forall>row \<in> set (ma_table s). \<exists>i. le_ledger_id row = le_ledger_id (at_entry (att i)) \<and> started s i)"

definition waiting_sees :: "(nat \<Rightarrow> attempt) \<Rightarrow> machine \<Rightarrow> bool" where
  "waiting_sees att s \<longleftrightarrow> (\<forall>i. (ma_at s i = Resolving \<longrightarrow> row_of att s i \<noteq> None)
     \<and> (\<forall>l. ma_at s i = Reopening l \<longrightarrow> map_option le_ledger_id (row_of att s i) = Some l))"

definition held_in_flight :: "(nat \<Rightarrow> attempt) \<Rightarrow> machine \<Rightarrow> bool" where
  "held_in_flight att s \<longleftrightarrow> (\<forall>i l. holder (ma_at s i) = Some l \<longrightarrow>
     (\<exists>row. row_of att s i = Some row \<and> l = Some (le_ledger_id row) \<and> le_status row = InFlight))"

definition one_holder :: "(nat \<Rightarrow> attempt) \<Rightarrow> machine \<Rightarrow> bool" where
  "one_holder att s \<longleftrightarrow> (\<forall>i j. holder (ma_at s i) \<noteq> None \<and> holder (ma_at s j) \<noteq> None
     \<and> at_key (att i) = at_key (att j) \<longrightarrow> i = j)"

definition fired_last :: "(nat \<Rightarrow> attempt) \<Rightarrow> machine \<Rightarrow> bool" where
  "fired_last att s \<longleftrightarrow> (\<forall>i l r. ma_at s i = Fired l r \<longrightarrow>
     (\<exists>rs. reports_on att s (at_key (att i)) = rs @ [r]))"

definition quiet_after :: "(nat \<Rightarrow> attempt) \<Rightarrow> machine \<Rightarrow> bool" where
  "quiet_after att s \<longleftrightarrow> (\<forall>k rs r. reports_on att s k = rs @ [r] \<and> r \<noteq> Reported_error \<longrightarrow>
     (\<exists>row. ledger_lookup k (ma_table s) = Some row \<and> le_status row \<noteq> Failed)
     \<and> (\<forall>i l. at_key (att i) = k \<longrightarrow> ma_at s i \<noteq> Cleared l))"

definition retried_only :: "(nat \<Rightarrow> attempt) \<Rightarrow> machine \<Rightarrow> bool" where
  "retried_only att s \<longleftrightarrow> (\<forall>k. set (butlast (reports_on att s k)) \<subseteq> {Reported_error})"

lemmas gate_parts = ids_owned_def waiting_sees_def held_in_flight_def one_holder_def fired_last_def
  quiet_after_def retried_only_def

definition gate_inv :: "(nat \<Rightarrow> attempt) \<Rightarrow> machine \<Rightarrow> bool" where
  "gate_inv att s \<longleftrightarrow> ids_owned att s \<and> waiting_sees att s \<and> held_in_flight att s
     \<and> one_holder att s \<and> fired_last att s \<and> quiet_after att s \<and> retried_only att s"

lemma gate_invD:
  assumes "gate_inv att s"
  shows gate_quiet: "reports_on att s k = rs @ [r] \<Longrightarrow> r \<noteq> Reported_error \<Longrightarrow>
      (\<exists>row. ledger_lookup k (ma_table s) = Some row \<and> le_status row \<noteq> Failed) \<and> (\<forall>i l. at_key (att i) = k \<longrightarrow> ma_at s i \<noteq> Cleared l)"
    and gate_retried: "set (butlast (reports_on att s k)) \<subseteq> {Reported_error}"
    and gate_held: "holder (ma_at s i) = Some l \<Longrightarrow>
      \<exists>row. row_of att s i = Some row \<and> l = Some (le_ledger_id row) \<and> le_status row = InFlight"
    and gate_single: "holder (ma_at s i) \<noteq> None \<Longrightarrow> at_key (att j) = at_key (att i) \<Longrightarrow> j \<noteq> i \<Longrightarrow> holder (ma_at s j) = None"
    and gate_fired: "ma_at s i = Fired l r \<Longrightarrow> \<exists>rs. reports_on att s (at_key (att i)) = rs @ [r]"
proof -
  have q: "quiet_after att s" "retried_only att s" "held_in_flight att s" "one_holder att s" "fired_last att s"
    using assms by (simp_all only: gate_inv_def)
  show "reports_on att s k = rs @ [r] \<Longrightarrow> r \<noteq> Reported_error \<Longrightarrow>
      (\<exists>row. ledger_lookup k (ma_table s) = Some row \<and> le_status row \<noteq> Failed) \<and> (\<forall>i l. at_key (att i) = k \<longrightarrow> ma_at s i \<noteq> Cleared l)"
    using q(1) unfolding quiet_after_def by blast
  show "set (butlast (reports_on att s k)) \<subseteq> {Reported_error}" using q(2) unfolding retried_only_def by (rule allE)
  show "holder (ma_at s i) = Some l \<Longrightarrow>
      \<exists>row. row_of att s i = Some row \<and> l = Some (le_ledger_id row) \<and> le_status row = InFlight"
    using q(3) unfolding held_in_flight_def by blast
  show "holder (ma_at s i) \<noteq> None \<Longrightarrow> at_key (att j) = at_key (att i) \<Longrightarrow> j \<noteq> i \<Longrightarrow> holder (ma_at s j) = None"
    using q(4) unfolding one_holder_def by metis
  show "ma_at s i = Fired l r \<Longrightarrow> \<exists>rs. reports_on att s (at_key (att i)) = rs @ [r]"
    using q(5) unfolding fired_last_def by blast
qed

lemma reports_step [simp]:
  "reports_on att (at_worker i p s) k = reports_on att s k"
  "reports_on att (s\<lparr>ma_table := tbl\<rparr>) k = reports_on att s k"
  "reports_on att (s\<lparr>ma_fires := ma_fires s @ [(i, r)]\<rparr>) k =
     (if at_key (att i) = k then reports_on att s k @ [r] else reports_on att s k)"
  by (simp_all add: reports_on_def at_worker_def)

lemma step_state [simp]:
  "ma_table (at_worker i p s) = ma_table s" "ma_at (at_worker i p s) = (ma_at s)(i := p)"
  "row_of att (at_worker i p s) j = row_of att s j"
  "row_of att (s\<lparr>ma_fires := fs\<rparr>) j = row_of att s j"
  "row_of att (s\<lparr>ma_table := tbl\<rparr>) j = ledger_lookup (at_key (att j)) tbl"
  by (simp_all add: at_worker_def row_of_def)

lemma started_step [simp]:
  "p \<noteq> Idle \<Longrightarrow> started (at_worker i p s) j \<longleftrightarrow> started s j \<or> j = i"
  "started (s\<lparr>ma_table := tbl\<rparr>) j = started s j" "started (s\<lparr>ma_fires := fs\<rparr>) j = started s j"
  by (auto simp: started_def)

text \<open>A worker that moves without the table and without becoming a holder.\<close>

lemma gate_inv_worker:
  assumes inv: "gate_inv att s" and p: "holder p = None" "p \<noteq> Idle"
    and sees: "p = Resolving \<longrightarrow> row_of att s i \<noteq> None" "\<forall>l. p = Reopening l \<longrightarrow> map_option le_ledger_id (row_of att s i) = Some l"
  shows "gate_inv att (at_worker i p s)"
proof -
  have "ids_owned att (at_worker i p s)" using inv p by (simp add: gate_inv_def ids_owned_def) blast
  moreover have "waiting_sees att (at_worker i p s)" using inv sees by (simp add: gate_inv_def waiting_sees_def)
  moreover have "held_in_flight att (at_worker i p s)" "one_holder att (at_worker i p s)"
    using inv p by (simp_all add: gate_inv_def held_in_flight_def one_holder_def)
  moreover have "fired_last att (at_worker i p s)" "quiet_after att (at_worker i p s)"
    using inv p by (auto simp: gate_inv_def fired_last_def quiet_after_def)
  moreover have "retried_only att (at_worker i p s)" using inv by (simp add: gate_inv_def retried_only_def)
  ultimately show ?thesis by (simp add: gate_inv_def)
qed

text \<open>A worker that moves and changes its own row, when no other worker holds that write.\<close>

lemma gate_inv_row:
  assumes inv: "gate_inv att s"
    and tbl: "\<And>k. ledger_lookup k tbl = (if k = at_key (att i) then Some row' else ledger_lookup k (ma_table s))"
    and ids: "distinct (map le_ledger_id tbl)"
      "\<forall>row \<in> set tbl. \<exists>j. le_ledger_id row = le_ledger_id (at_entry (att j)) \<and> (started s j \<or> j = i)"
    and same: "\<forall>r. row_of att s i = Some r \<longrightarrow> le_ledger_id r = le_ledger_id row'"
    and p: "p \<noteq> Idle" "p \<noteq> Resolving" "\<forall>l. p \<noteq> Reopening l" "\<forall>l r. p \<noteq> Fired l r"
    and alone: "\<forall>j. j \<noteq> i \<longrightarrow> at_key (att j) = at_key (att i) \<longrightarrow> holder (ma_at s j) = None"
    and held: "\<forall>l. holder p = Some l \<longrightarrow> l = Some (le_ledger_id row') \<and> le_status row' = InFlight"
    and quiet: "\<forall>rs r. reports_on att s (at_key (att i)) = rs @ [r] \<longrightarrow> r \<noteq> Reported_error \<longrightarrow>
      le_status row' \<noteq> Failed \<and> (\<forall>l. p \<noteq> Cleared l)"
  shows "gate_inv att (at_worker i p (s\<lparr>ma_table := tbl\<rparr>))"
proof -
  let ?s = "at_worker i p (s\<lparr>ma_table := tbl\<rparr>)"
  have "ids_owned att ?s" using ids p(1) by (simp add: ids_owned_def)
  moreover have "waiting_sees att ?s"
    using inv same p(2,3) unfolding gate_inv_def waiting_sees_def row_of_def by (auto simp: tbl row_of_def) metis
  moreover have "held_in_flight att ?s"
    using inv held alone unfolding gate_inv_def held_in_flight_def row_of_def by (auto simp: tbl row_of_def)
  moreover have "one_holder att ?s"
    using inv alone unfolding gate_inv_def one_holder_def by auto
  moreover have "fired_last att ?s" using inv p(4) by (simp add: gate_inv_def fired_last_def)
  moreover have "quiet_after att ?s"
    unfolding quiet_after_def
  proof (intro allI impI)
    fix k rs r assume r: "reports_on att ?s k = rs @ [r] \<and> r \<noteq> Reported_error"
    then have old: "(\<exists>row. ledger_lookup k (ma_table s) = Some row \<and> le_status row \<noteq> Failed)
        \<and> (\<forall>i l. at_key (att i) = k \<longrightarrow> ma_at s i \<noteq> Cleared l)"
      using gate_quiet[OF inv, of k rs r] by auto
    show "(\<exists>row. ledger_lookup k (ma_table ?s) = Some row \<and> le_status row \<noteq> Failed)
        \<and> (\<forall>i l. at_key (att i) = k \<longrightarrow> ma_at ?s i \<noteq> Cleared l)"
      using old r quiet by (auto simp: tbl)
  qed
  moreover have "retried_only att ?s" using inv by (simp add: gate_inv_def retried_only_def)
  ultimately show ?thesis by (simp add: gate_inv_def)
qed

lemma lookup_in: "ledger_lookup k tbl = Some r \<Longrightarrow> r \<in> set tbl \<and> le_key r = k"
  unfolding ledger_lookup_def by (rule row_find_SomeD)

lemma lookup_by_id:
  assumes "distinct (map le_ledger_id tbl)" "ledger_lookup k tbl = Some r" "r' \<in> set tbl" "le_ledger_id r' = le_ledger_id r"
  shows "r' = r"
  using assms lookup_in[OF assms(2)] by (auto simp: distinct_map dest: inj_onD)

lemma held_row_alone:
  assumes "gate_inv att s" "row_of att s i = None \<or> map_option le_status (row_of att s i) \<noteq> Some InFlight"
  shows "\<forall>j. j \<noteq> i \<longrightarrow> at_key (att j) = at_key (att i) \<longrightarrow> holder (ma_at s j) = None"
proof (intro allI impI)
  fix j assume "at_key (att j) = at_key (att i)"
  then have same: "row_of att s j = row_of att s i" by (simp add: row_of_def)
  show "holder (ma_at s j) = None"
  proof (cases "holder (ma_at s j)")
    case (Some l)
    then obtain row where "row_of att s j = Some row" "le_status row = InFlight"
      using assms(1) unfolding gate_inv_def held_in_flight_def by blast
    with same assms(2) show ?thesis by (cases "row_of att s i") auto
  qed
qed

lemma gate_inv_insert:
  assumes well: "well_attempted att" and inv: "gate_inv att s" and ins: "insert_entry (at_entry (att i)) (ma_table s) = Some tbl"
  shows "gate_inv att (at_worker i (Cleared (Some (le_ledger_id (at_entry (att i))))) (s\<lparr>ma_table := tbl\<rparr>))"
proof -
  let ?e = "at_entry (att i)"
  have e: "le_key ?e = at_key (att i)" "le_status ?e = InFlight" using well by (simp_all add: well_attempted_def)
  note l = lookup_insert[OF ins, unfolded e]
  have none: "row_of att s i = None" using l[of "at_key (att i)"] by (simp add: row_of_def)
  have t: "tbl = ma_table s @ [?e]" using ins by (simp add: insert_entry_def split: if_splits)
  show ?thesis
  proof (rule gate_inv_row[OF inv, where row' = ?e])
    show "distinct (map le_ledger_id tbl)" using inv l by (auto simp: t gate_inv_def ids_owned_def)
    show "\<forall>row \<in> set tbl. \<exists>j. le_ledger_id row = le_ledger_id (at_entry (att j)) \<and> (started s j \<or> j = i)"
      using inv unfolding t gate_inv_def ids_owned_def by auto
    show "\<forall>j. j \<noteq> i \<longrightarrow> at_key (att j) = at_key (att i) \<longrightarrow> holder (ma_at s j) = None"
      by (rule held_row_alone[OF inv]) (simp add: none)
    show "\<forall>rs r. reports_on att s (at_key (att i)) = rs @ [r] \<longrightarrow> r \<noteq> Reported_error \<longrightarrow>
      le_status ?e \<noteq> Failed \<and> (\<forall>la. Cleared (Some (le_ledger_id ?e)) \<noteq> Cleared la)"
      using gate_quiet[OF inv] none unfolding row_of_def by fastforce
  qed (use l e none in auto)
qed

text \<open>An update of the row of identifier \<open>l\<close>, where that is the row a worker has.\<close>

lemma own_row_update:
  assumes inv: "gate_inv att s" and row: "row_of att s i = Some row" and f: "\<And>r. le_key (f r) = le_key r"
  shows "ledger_lookup k (map (\<lambda>r. if le_ledger_id r = le_ledger_id row then f r else r) (ma_table s)) =
    (if k = at_key (att i) then Some (f row) else ledger_lookup k (ma_table s))"
proof -
  have d: "distinct (map le_ledger_id (ma_table s))" using inv by (simp add: gate_inv_def ids_owned_def)
  have at: "ledger_lookup (at_key (att i)) (ma_table s) = Some row" using row by (simp add: row_of_def)
  have "le_ledger_id r \<noteq> le_ledger_id row" if "ledger_lookup k (ma_table s) = Some r" "k \<noteq> at_key (att i)" for r
    using lookup_by_id[OF d at] lookup_in[OF that(1)] lookup_in[OF at] that(2) by auto
  then show ?thesis using at by (subst lookup_map) (auto simp: f intro!: option.map_ident_strong)
qed

lemma own_row_ids:
  assumes "\<And>r. le_ledger_id (f r) = le_ledger_id r" "gate_inv att s"
  shows "distinct (map le_ledger_id (map f (ma_table s)))"
    "\<forall>row \<in> set (map f (ma_table s)). \<exists>j. le_ledger_id row = le_ledger_id (at_entry (att j)) \<and> (started s j \<or> j = i)"
  using assms by (auto simp: gate_inv_def ids_owned_def comp_def)

lemma gate_inv_reopen:
  assumes inv: "gate_inv att s" and w: "ma_at s i = Reopening l" and r: "reopen l (ma_table s) = (n, tbl)" "n \<noteq> 0"
  shows "gate_inv att (at_worker i (Cleared (Some l)) (s\<lparr>ma_table := tbl\<rparr>))"
proof -
  obtain row where row: "row_of att s i = Some row" "le_ledger_id row = l"
    using inv w unfolding gate_inv_def waiting_sees_def by fastforce
  have d: "distinct (map le_ledger_id (ma_table s))" using inv by (simp add: gate_inv_def ids_owned_def)
  have at: "ledger_lookup (at_key (att i)) (ma_table s) = Some row" using row by (simp add: row_of_def)
  have "\<exists>r \<in> set (ma_table s). le_ledger_id r = l \<and> le_status r = Failed"
    using r by (auto simp: reopen_def Let_def filter_empty_conv)
  then have failed: "le_status row = Failed" using lookup_by_id[OF d at] row(2) by auto
  let ?f = "\<lambda>r. if le_status r = Failed then r\<lparr>le_status := InFlight, le_result_json := JNull\<rparr> else r"
  have t: "tbl = map (\<lambda>r. if le_ledger_id r = le_ledger_id row then ?f r else r) (ma_table s)"
    using r(1) row(2) by (auto simp: reopen_def Let_def)
  show ?thesis
  proof (rule gate_inv_row[OF inv, where row' = "?f row"])
    show "ledger_lookup k tbl = (if k = at_key (att i) then Some (?f row) else ledger_lookup k (ma_table s))" for k
      unfolding t by (rule own_row_update[OF inv row(1)]) simp
    show "distinct (map le_ledger_id tbl)"
      "\<forall>row \<in> set tbl. \<exists>j. le_ledger_id row = le_ledger_id (at_entry (att j)) \<and> (started s j \<or> j = i)"
      unfolding t by (rule own_row_ids[OF _ inv]; simp)+
    show "\<forall>j. j \<noteq> i \<longrightarrow> at_key (att j) = at_key (att i) \<longrightarrow> holder (ma_at s j) = None"
      by (rule held_row_alone[OF inv]) (simp add: row failed)
    show "\<forall>rs r. reports_on att s (at_key (att i)) = rs @ [r] \<longrightarrow> r \<noteq> Reported_error \<longrightarrow>
      le_status (?f row) \<noteq> Failed \<and> (\<forall>la. Cleared (Some l) \<noteq> Cleared la)"
      using gate_quiet[OF inv] at failed by fastforce
  qed (use row failed in auto)
qed

text \<open>A worker that has called the tool records the outcome and leaves.\<close>

lemma gate_inv_settle:
  assumes inv: "gate_inv att s" and w: "ma_at s i = Fired l r"
    and f: "\<And>x. le_key (f x) = le_key x" "\<And>x. le_ledger_id (f x) = le_ledger_id x"
    and st: "\<And>x. le_status (f x) = Failed \<Longrightarrow> r = Reported_error"
  shows "gate_inv att (at_worker i Gone (s\<lparr>ma_table := ledger_update l f (ma_table s)\<rparr>))"
proof -
  obtain row where row: "row_of att s i = Some row" "l = Some (le_ledger_id row)"
    using gate_held[OF inv, of i] w by auto
  have t: "ledger_update l f (ma_table s) = map (\<lambda>r. if le_ledger_id r = le_ledger_id row then f r else r) (ma_table s)"
    by (simp add: ledger_update_def row(2) row_update_def)
  show ?thesis
    unfolding t
  proof (rule gate_inv_row[OF inv, where row' = "f row"])
    show "ledger_lookup k (map (\<lambda>r. if le_ledger_id r = le_ledger_id row then f r else r) (ma_table s)) =
        (if k = at_key (att i) then Some (f row) else ledger_lookup k (ma_table s))" for k
      by (rule own_row_update[OF inv row(1) f(1)])
    show "distinct (map le_ledger_id (map (\<lambda>r. if le_ledger_id r = le_ledger_id row then f r else r) (ma_table s)))"
      "\<forall>x \<in> set (map (\<lambda>r. if le_ledger_id r = le_ledger_id row then f r else r) (ma_table s)).
         \<exists>j. le_ledger_id x = le_ledger_id (at_entry (att j)) \<and> (started s j \<or> j = i)"
      by (rule own_row_ids[OF _ inv]; simp add: f)+
    show "\<forall>j. j \<noteq> i \<longrightarrow> at_key (att j) = at_key (att i) \<longrightarrow> holder (ma_at s j) = None"
      using gate_single[OF inv, of i] w by simp
    show "\<forall>rs r. reports_on att s (at_key (att i)) = rs @ [r] \<longrightarrow> r \<noteq> Reported_error \<longrightarrow>
      le_status (f row) \<noteq> Failed \<and> (\<forall>la. Gone \<noteq> Cleared la)"
      using gate_fired[OF inv w] st by auto
  qed (use row f in auto)
qed

lemma gate_inv_fire:
  assumes inv: "gate_inv att s" and w: "ma_at s i = Cleared l"
  shows "gate_inv att (at_worker i (if r = Lost then Gone else Fired l r) (s\<lparr>ma_fires := ma_fires s @ [(i, r)]\<rparr>))"
proof -
  let ?p = "if r = Lost then Gone else Fired l r"
  let ?s = "at_worker i ?p (s\<lparr>ma_fires := ma_fires s @ [(i, r)]\<rparr>)"
  obtain row where row: "row_of att s i = Some row" "le_status row = InFlight"
    using gate_held[OF inv, of i] w by auto
  have alone: "holder (ma_at s j) = None" if "j \<noteq> i" "at_key (att j) = at_key (att i)" for j
    using gate_single[OF inv, of i j] w that by simp
  have "ids_owned att ?s" using inv unfolding gate_inv_def ids_owned_def by (auto; blast)
  moreover have "waiting_sees att ?s" using inv by (auto simp: gate_inv_def waiting_sees_def)
  moreover have "held_in_flight att ?s"
    using gate_held[OF inv] row gate_held[OF inv, of i] w unfolding held_in_flight_def by auto
  moreover have "one_holder att ?s"
    unfolding one_holder_def
  proof (intro allI impI, rule ccontr)
    fix a b assume h: "holder (ma_at ?s a) \<noteq> None \<and> holder (ma_at ?s b) \<noteq> None \<and> at_key (att a) = at_key (att b)" "a \<noteq> b"
    have "holder (ma_at s j) \<noteq> None" if "holder (ma_at ?s j) \<noteq> None" for j
      using that w by (cases "j = i") (auto split: if_splits)
    from this[of a] this[of b] h have "holder (ma_at s a) \<noteq> None" "holder (ma_at s b) \<noteq> None" by blast+
    then show False using h gate_single[OF inv, of a b] by auto
  qed
  moreover have "fired_last att ?s"
    unfolding fired_last_def
  proof (intro allI impI)
    fix j l' r' assume f: "ma_at ?s j = Fired l' r'"
    show "\<exists>rs. reports_on att ?s (at_key (att j)) = rs @ [r']"
    proof (cases "j = i")
      case True
      then show ?thesis using f by (auto split: if_splits)
    next
      case False
      then have "ma_at s j = Fired l' r'" using f by simp
      then show ?thesis using gate_fired[OF inv] alone[OF False] by fastforce
    qed
  qed
  moreover have "quiet_after att ?s"
    unfolding quiet_after_def
  proof (intro allI impI)
    fix k rs q assume q: "reports_on att ?s k = rs @ [q] \<and> q \<noteq> Reported_error"
    show "(\<exists>row. ledger_lookup k (ma_table ?s) = Some row \<and> le_status row \<noteq> Failed)
        \<and> (\<forall>j l. at_key (att j) = k \<longrightarrow> ma_at ?s j \<noteq> Cleared l)"
    proof (cases "k = at_key (att i)")
      case True
      have "ma_at ?s j \<noteq> Cleared l" if "at_key (att j) = k" for j l
        using alone[of j] that True by (cases "j = i") auto
      then show ?thesis using row True by (simp add: row_of_def)
    next
      case False
      then show ?thesis using gate_quiet[OF inv, of k rs q] q by auto
    qed
  qed
  moreover have "retried_only att ?s"
  proof -
    have "set (reports_on att s (at_key (att i))) \<subseteq> {Reported_error}"
    proof (cases "reports_on att s (at_key (att i))" rule: rev_cases)
      case (snoc rs q)
      have "q = Reported_error" using gate_quiet[OF inv snoc] w by blast
      moreover have "set rs \<subseteq> {Reported_error}"
        using gate_retried[OF inv, of "at_key (att i)"] snoc by simp
      ultimately show ?thesis using snoc by simp
    qed simp
    then show ?thesis unfolding retried_only_def using gate_retried[OF inv] by (intro allI) auto
  qed
  ultimately show ?thesis by (simp add: gate_inv_def)
qed

lemma gate_inv_step:
  assumes "well_attempted att" "gate_inv att s" "ledger_step att now result s s'"
  shows "gate_inv att s'"
  using assms(3)
proof cases
  case (Insert i tbl)
  then show ?thesis using gate_inv_insert[OF assms(1,2)] by simp
next
  case (Refused i)
  let ?e = "at_entry (att i)"
  have "le_ledger_id ?e \<notin> le_ledger_id ` set (ma_table s)"
  proof
    assume "le_ledger_id ?e \<in> le_ledger_id ` set (ma_table s)"
    then obtain j where "le_ledger_id ?e = le_ledger_id (at_entry (att j))" "started s j"
      using assms(2) unfolding gate_inv_def ids_owned_def by auto
    then show False using assms(1) Refused by (auto simp: well_attempted_def started_def dest: injD)
  qed
  then have "row_of att s i \<noteq> None"
    using Refused assms(1) by (auto simp: insert_entry_def row_of_def well_attempted_def split: if_splits)
  then show ?thesis using gate_inv_worker[OF assms(2), of Resolving i] Refused by simp
next
  case (Lookup i)
  then obtain row where row: "row_of att s i = Some row"
    using assms(2) unfolding gate_inv_def waiting_sees_def by blast
  have s': "s' = at_worker i (after_lookup (Some row)) s" using Lookup(1) row by (simp add: row_of_def)
  show ?thesis
    unfolding s'
  proof (rule gate_inv_worker[OF assms(2)])
    show "\<forall>l. after_lookup (Some row) = Reopening l \<longrightarrow> map_option le_ledger_id (row_of att s i) = Some l"
      by (simp add: row split: ledger_status.split)
  qed (simp_all add: row split: ledger_status.split)
next
  case (Reopen i l n tbl)
  show ?thesis
  proof (cases "n = 0")
    case True
    have "tbl = map (\<lambda>r. if le_ledger_id r = l \<and> le_status r = Failed then r\<lparr>le_status := InFlight, le_result_json := JNull\<rparr> else r) (ma_table s)"
      "filter (\<lambda>r. le_ledger_id r = l \<and> le_status r = Failed) (ma_table s) = []"
      using Reopen True by (auto simp: reopen_def Let_def)
    then have "tbl = ma_table s" by (auto simp: filter_empty_conv intro!: map_idI)
    then show ?thesis using gate_inv_worker[OF assms(2), of Gone i] Reopen True by simp
  next
    case False
    then show ?thesis using gate_inv_reopen[OF assms(2)] Reopen by simp
  qed
next
  case (Fire i l r)
  then show ?thesis using gate_inv_fire[OF assms(2)] by simp
next
  case (Success i l)
  then show ?thesis
    unfolding Success(1) ledger_record_success_def by (intro gate_inv_settle[OF assms(2)]) auto
next
  case (Failure i l)
  then show ?thesis
    unfolding Failure(1) mark_failed_def by (intro gate_inv_settle[OF assms(2)]) auto
next
  case (Crash i)
  then show ?thesis using gate_inv_worker[OF assms(2), of Gone i] by simp
qed

text \<open>C2. Exactly-once under any interleaving: however many workers attempt the same logical write, however
  their statements interleave, whoever crashes or loses its answer and whatever is retried, the tool is
  called again for a write only after the call before it reported an error.\<close>

theorem at_most_one_effect:
  assumes "ledger_reach att now result s" and "well_attempted att"
  shows "set (butlast (reports_on att s k)) \<subseteq> {Reported_error}"
proof -
  have "gate_inv att s"
    using assms(1)
  proof induction
    case Start
    show ?case by (simp add: gate_inv_def gate_parts row_of_def ledger_lookup_def reports_on_def)
  next
    case (Step s s')
    then show ?case using gate_inv_step[OF assms(2)] by blast
  qed
  then show ?thesis by (rule gate_retried)
qed

text \<open>Two workers on the same write: the second finds the row of the first, whose tool reported an error,
  reopens it and succeeds.\<close>

definition two_attempts :: "nat \<Rightarrow> attempt" where
  "two_attempts i =
     \<lparr>at_key = (''ws'', ''k''),
      at_entry = new_entry (replicate i CHR ''x'') ''ws'' (Some ''run_1'') (Some ''s1'') ''email.send'' ''k''\<rparr>"

definition retried_run :: machine where
  "retried_run = \<lparr>ma_table = [(new_entry [] ''ws'' (Some ''run_1'') (Some ''s1'') ''email.send'' ''k'')\<lparr>le_status := Completed, le_completed_at := Some 0\<rparr>],
     ma_at = (\<lambda>_. Idle)(0 := Gone, 1 := Gone), ma_fires = [(0, Reported_error), (1, Succeeded)]\<rparr>"

lemma two_attempts_well: "well_attempted two_attempts"
  by (auto simp: well_attempted_def two_attempts_def new_entry_def le_key_def inj_def dest: arg_cong[where f = length])

lemma retried_run_reach: "ledger_reach two_attempts 0 JNull retried_run"
proof -
  let ?e = "new_entry [] ''ws'' (Some ''run_1'') (Some ''s1'') ''email.send'' ''k''"
  let ?R = "ledger_reach two_attempts 0 JNull" and ?S = "ledger_step two_attempts 0 JNull"
  let ?m = "\<lambda>t p f. \<lparr>ma_table = t, ma_at = p, ma_fires = f\<rparr>"
  let ?p = "\<lambda>a b. (\<lambda>_. Idle)(0 := a, 1 := b)"
  have idle: "?p Idle Idle = (\<lambda>_. Idle)" by auto
  have "?R (?m [] (?p Idle Idle) [])" unfolding idle by (rule ledger_reach.Start)
  moreover have "?S (?m [] (?p Idle Idle) []) (?m [?e] (?p (Cleared (Some [])) Idle) [])"
    using ledger_step.Insert[of "?m [] (?p Idle Idle) []" 0 two_attempts "[?e]"]
    by (simp add: at_worker_def insert_entry_def ledger_lookup_def two_attempts_def fun_upd_twist)
  ultimately have "?R (?m [?e] (?p (Cleared (Some [])) Idle) [])" by (rule ledger_reach.Step)
  moreover have "?S (?m [?e] (?p (Cleared (Some [])) Idle) []) (?m [?e] (?p (Fired (Some []) Reported_error) Idle) [(0, Reported_error)])"
    using ledger_step.Fire[of "?m [?e] (?p (Cleared (Some [])) Idle) []" 0 "Some []" two_attempts 0 JNull Reported_error]
    by (simp add: at_worker_def fun_upd_twist)
  ultimately have "?R (?m [?e] (?p (Fired (Some []) Reported_error) Idle) [(0, Reported_error)])" by (rule ledger_reach.Step)
  moreover have "?S (?m [?e] (?p (Fired (Some []) Reported_error) Idle) [(0, Reported_error)])
      (?m [?e] (?p (Fired (Some []) Reported_error) Resolving) [(0, Reported_error)])"
    using ledger_step.Refused[of "?m [?e] (?p (Fired (Some []) Reported_error) Idle) [(0, Reported_error)]" 1 two_attempts]
    by (simp add: at_worker_def insert_entry_def ledger_lookup_def two_attempts_def)
  ultimately have "?R (?m [?e] (?p (Fired (Some []) Reported_error) Resolving) [(0, Reported_error)])" by (rule ledger_reach.Step)
  moreover have "?S (?m [?e] (?p (Fired (Some []) Reported_error) Resolving) [(0, Reported_error)])
      (?m [?e\<lparr>le_status := Failed\<rparr>] (?p Gone Resolving) [(0, Reported_error)])"
    using ledger_step.Failure[of "?m [?e] (?p (Fired (Some []) Reported_error) Resolving) [(0, Reported_error)]" 0 "Some []" two_attempts]
    by (simp add: at_worker_def mark_failed_def ledger_update_def fun_upd_twist)
  ultimately have "?R (?m [?e\<lparr>le_status := Failed\<rparr>] (?p Gone Resolving) [(0, Reported_error)])" by (rule ledger_reach.Step)
  moreover have "?S (?m [?e\<lparr>le_status := Failed\<rparr>] (?p Gone Resolving) [(0, Reported_error)])
      (?m [?e\<lparr>le_status := Failed\<rparr>] (?p Gone (Reopening [])) [(0, Reported_error)])"
    using ledger_step.Lookup[of "?m [?e\<lparr>le_status := Failed\<rparr>] (?p Gone Resolving) [(0, Reported_error)]" 1 two_attempts]
    by (simp add: at_worker_def ledger_lookup_def two_attempts_def)
  ultimately have "?R (?m [?e\<lparr>le_status := Failed\<rparr>] (?p Gone (Reopening [])) [(0, Reported_error)])" by (rule ledger_reach.Step)
  moreover have "?S (?m [?e\<lparr>le_status := Failed\<rparr>] (?p Gone (Reopening [])) [(0, Reported_error)])
      (?m [?e] (?p Gone (Cleared (Some []))) [(0, Reported_error)])"
    using ledger_step.Reopen[of "?m [?e\<lparr>le_status := Failed\<rparr>] (?p Gone (Reopening [])) [(0, Reported_error)]" 1 "[]" 1 "[?e]" two_attempts]
    by (simp add: at_worker_def reopen_def new_entry_def)
  ultimately have "?R (?m [?e] (?p Gone (Cleared (Some []))) [(0, Reported_error)])" by (rule ledger_reach.Step)
  moreover have "?S (?m [?e] (?p Gone (Cleared (Some []))) [(0, Reported_error)])
      (?m [?e] (?p Gone (Fired (Some []) Succeeded)) [(0, Reported_error), (1, Succeeded)])"
    using ledger_step.Fire[of "?m [?e] (?p Gone (Cleared (Some []))) [(0, Reported_error)]" 1 "Some []" two_attempts 0 JNull Succeeded]
    by (simp add: at_worker_def)
  ultimately have "?R (?m [?e] (?p Gone (Fired (Some []) Succeeded)) [(0, Reported_error), (1, Succeeded)])" by (rule ledger_reach.Step)
  moreover have "?S (?m [?e] (?p Gone (Fired (Some []) Succeeded)) [(0, Reported_error), (1, Succeeded)]) retried_run"
    using ledger_step.Success[of "?m [?e] (?p Gone (Fired (Some []) Succeeded)) [(0, Reported_error), (1, Succeeded)]" 1 "Some []" two_attempts 0 JNull]
    by (simp add: at_worker_def ledger_record_success_def ledger_update_def retried_run_def new_entry_def)
  ultimately show ?thesis by (rule ledger_reach.Step)
qed

theorem at_most_one_effect_witness:
  "reports_on two_attempts retried_run (''ws'', ''k'') = [Reported_error, Succeeded]
   \<and> set (butlast (reports_on two_attempts retried_run (''ws'', ''k''))) \<subseteq> {Reported_error}"
  using at_most_one_effect[OF retried_run_reach two_attempts_well, of "(''ws'', ''k'')"]
  by (simp add: reports_on_def retried_run_def two_attempts_def)

section \<open>The wrapper replays\<close>

lemma execute_write:
  assumes "ic_resolve cx tool = (Some c, True)"
    and "reserve (ic_ulid cx (st_reserved s)) (ic_workspace_id cx) (Some (ic_run_id cx)) (Some (ic_step_id cx)) c
       (derive_identity_key (ic_encoders cx) c input (ic_run_id cx) (ic_step_id cx) (st_ordinal s)) (st_ledger s) = (oc, tbl)"
  shows "idempotent_execute cx tool input s =
     (let s1 = s\<lparr>st_ordinal := st_ordinal s + 1, st_ledger := tbl, st_reserved := st_reserved s + 1\<rparr>
      in if ro_already_done oc then (Inr (ro_result oc), s1)
         else if ro_in_flight_conflict oc then (Inr uncertain_result, s1)
         else andthen (call_tool cx tool input) (settle_call cx (ro_ledger_id oc)) s1)"
  using assms by (simp add: idempotent_execute_def reserve_call_def andthen_def modify_def get_def ret_def Let_def)

text \<open>C22. A completed write is replayed: once a call of the wrapper has reached the tool and returned a
  result that is not an error, any later call of a write with the same key, from any wrapper for that
  workspace with other arguments, another position or another tool name, returns the same result
  without reaching the tool and leaves the ledger as it is.\<close>

theorem completed_write_is_replayed:
  assumes "idempotent_execute cx tool input s = (Inr r, s1)" and "length (st_calls s1) = length (st_calls s) + 1"
    and "ic_resolve cx tool = (Some c, True)" and "\<not> reports_error r"
    and "ic_ulid cx (st_reserved s) \<notin> le_ledger_id ` set (st_ledger s)"
    and "ic_resolve cx' tool' = (Some c', True)" and "ic_workspace_id cx' = ic_workspace_id cx"
    and "derive_identity_key (ic_encoders cx') c' input' (ic_run_id cx') (ic_step_id cx') (st_ordinal s2)
       = derive_identity_key (ic_encoders cx) c input (ic_run_id cx) (ic_step_id cx) (st_ordinal s)"
    and "st_ledger s2 = st_ledger s1"
  shows "\<exists>s3. idempotent_execute cx' tool' input' s2 = (Inr r, s3)
     \<and> st_calls s3 = st_calls s2 \<and> st_ledger s3 = st_ledger s2"
proof -
  let ?key = "derive_identity_key (ic_encoders cx) c input (ic_run_id cx) (ic_step_id cx) (st_ordinal s)"
  let ?k = "(ic_workspace_id cx, ?key)"
  obtain oc tbl where res: "reserve (ic_ulid cx (st_reserved s)) (fst ?k) (Some (ic_run_id cx)) (Some (ic_step_id cx)) c (snd ?k) (st_ledger s) = (oc, tbl)"
    by (metis prod.exhaust)
  note e = execute_write[OF assms(3) res[unfolded fst_conv snd_conv]]
  have go: "\<not> ro_already_done oc" "\<not> ro_in_flight_conflict oc"
    using assms(1,2) unfolding e by (auto simp: Let_def split: if_splits)
  have l1: "st_ledger s1 = ledger_record_success (ic_now cx) (ro_ledger_id oc) r tbl"
    using assms(1,4) go unfolding e
    by (auto simp: Let_def andthen_def call_tool_def settle_call_def modify_def ret_def split: sum.splits)
  have "ro_ledger_id oc \<noteq> None"
    using res assms(5) go
    by (auto simp: reserve_def insert_entry_def granted_def conflict_def resolve_existing_def split: if_splits option.splits ledger_status.splits prod.splits)
  then obtain h where h: "grant_of (fst (reserve (ic_ulid cx (st_reserved s)) (fst ?k) (Some (ic_run_id cx)) (Some (ic_step_id cx)) c (snd ?k) (st_ledger s))) = Some h"
    "ro_ledger_id oc = Some h" unfolding res by (auto simp: grant_of_def go)
  have "stored_result (st_ledger s1) ?k = Some r"
    using ledger_gate.succeed_stored[OF ledger_gate.ask_granted[OF h(1)]] unfolding res l1 h(2) by simp
  then have again: "replay_of (fst (reserve lid (fst ?k) rid sid c' (snd ?k) (st_ledger s2))) = Some r
      \<and> snd (reserve lid (fst ?k) rid sid c' (snd ?k) (st_ledger s2)) = st_ledger s2" for lid rid sid
    unfolding assms(9) by (rule ledger_gate.ask_stored)
  obtain oc' tbl' where res': "reserve (ic_ulid cx' (st_reserved s2)) (ic_workspace_id cx') (Some (ic_run_id cx')) (Some (ic_step_id cx')) c'
      (derive_identity_key (ic_encoders cx') c' input' (ic_run_id cx') (ic_step_id cx') (st_ordinal s2)) (st_ledger s2) = (oc', tbl')"
    by (metis prod.exhaust)
  have "replay_of oc' = Some r" "tbl' = st_ledger s2"
    using again[of "ic_ulid cx' (st_reserved s2)" "Some (ic_run_id cx')" "Some (ic_step_id cx')"] res'
    unfolding assms(7,8) by simp_all
  then show ?thesis
    unfolding execute_write[OF assms(6) res'] by (auto simp: Let_def replay_of_def split: if_splits)
qed

definition sample_ctx :: idem_ctx where
  "sample_ctx = \<lparr>ic_run_id = ''run_1'', ic_step_id = ''s1'', ic_workspace_id = ''ws'', ic_encoders = sample_encoders,
     ic_resolve = (\<lambda>_. (Some ''email.send'', True)), ic_tool = (\<lambda>_ _ _. Inr (JObj [(''id'', JStr ''m1'')])),
     ic_ulid = (\<lambda>n. replicate n CHR ''x''), ic_now = 0\<rparr>"

definition fresh_state :: "ledger_entry list \<Rightarrow> idem_state" where
  "fresh_state tbl = \<lparr>st_ledger = tbl, st_ordinal = 0, st_reserved = 0, st_calls = []\<rparr>"

theorem completed_write_is_replayed_witness:
  "\<exists>s3. idempotent_execute sample_ctx ''gmail_send'' resumed_send
        (fresh_state (st_ledger (snd (idempotent_execute sample_ctx ''send'' sample_send (fresh_state []))))) =
      (Inr (JObj [(''id'', JStr ''m1'')]), s3) \<and> st_calls s3 = []"
proof -
  let ?r = "JObj [(''id'', JStr ''m1'')]"
  let ?s1 = "snd (idempotent_execute sample_ctx ''send'' sample_send (fresh_state []))"
  have w: "ic_resolve sample_ctx t = (Some ''email.send'', True)" for t by (simp add: sample_ctx_def)
  have "fst (idempotent_execute sample_ctx ''send'' sample_send (fresh_state [])) = Inr ?r" by code_simp
  then have 1: "idempotent_execute sample_ctx ''send'' sample_send (fresh_state []) = (Inr ?r, ?s1)" by (metis prod.collapse)
  have 2: "length (st_calls ?s1) = length (st_calls (fresh_state [])) + 1" by code_simp
  have 3: "\<not> reports_error ?r" by code_simp
  have 4: "ic_ulid sample_ctx (st_reserved (fresh_state [])) \<notin> le_ledger_id ` set (st_ledger (fresh_state []))"
    by (simp add: fresh_state_def)
  have 5: "derive_identity_key (ic_encoders sample_ctx) ''email.send'' resumed_send (ic_run_id sample_ctx) (ic_step_id sample_ctx)
        (st_ordinal (fresh_state (st_ledger ?s1)))
      = derive_identity_key (ic_encoders sample_ctx) ''email.send'' sample_send (ic_run_id sample_ctx) (ic_step_id sample_ctx)
        (st_ordinal (fresh_state []))" by code_simp
  have "\<exists>s3. idempotent_execute sample_ctx ''gmail_send'' resumed_send (fresh_state (st_ledger ?s1)) = (Inr ?r, s3)
      \<and> st_calls s3 = st_calls (fresh_state (st_ledger ?s1)) \<and> st_ledger s3 = st_ledger (fresh_state (st_ledger ?s1))"
    by (rule completed_write_is_replayed[OF 1 2 w 3 4 w refl 5]) (simp add: fresh_state_def)
  then show ?thesis by (auto simp: fresh_state_def)
qed

end
