(* ===== verification/Locks.thy ===== *)
theory Locks
  imports Capabilities
begin

text \<open>
  Cross-process locks in Redis: \<open>services/write_lock.py\<close> (one writer per workspace and capability,
  bounded wait, then fail closed), \<open>services/autonomous_lease.py\<close> (one driver per run, try once) and
  the routing of \<open>deep_runtime/middleware/write_lock.py\<close>. A Redis string with an expiry is a token and
  the instant it disappears; \<open>SET NX\<close> and the compare-and-delete script are one step each, as they are
  on the server. Any number of users of a lock interleave in \<open>lock_step\<close>; the release is best effort,
  so a user may also leave without it. The locale \<open>exclusive_lease\<close> is the contract both locks promise.
\<close>

section \<open>Redis\<close>

record held =
  rk_token :: string
  rk_expires :: instant

type_synonym redis = "string \<Rightarrow> held option"

definition redis_get :: "instant \<Rightarrow> string \<Rightarrow> redis \<Rightarrow> string option" where
  "redis_get now k r =
     (case r k of None \<Rightarrow> None | Some h \<Rightarrow> if now < rk_expires h then Some (rk_token h) else None)"

text \<open>\<open>SET k token NX EX ttl\<close> and the script \<open>if get k = token then del k\<close>.\<close>

definition redis_set_nx :: "instant \<Rightarrow> string \<Rightarrow> string \<Rightarrow> int \<Rightarrow> redis \<Rightarrow> bool \<times> redis" where
  "redis_set_nx now k token ttl r =
     (if redis_get now k r = None then (True, r(k \<mapsto> \<lparr>rk_token = token, rk_expires = now + ttl\<rparr>)) else (False, r))"

definition redis_release :: "instant \<Rightarrow> string \<Rightarrow> string \<Rightarrow> redis \<Rightarrow> redis" where
  "redis_release now k token r = (if redis_get now k r = Some token then r(k := None) else r)"

section \<open>The two locks\<close>

definition WRITE_LOCK_TTL_SECONDS :: int where
  "WRITE_LOCK_TTL_SECONDS = 120"

text \<open>5.0 and 0.05 seconds, in microseconds.\<close>

definition WAIT_TIMEOUT_DEFAULT :: int where
  "WAIT_TIMEOUT_DEFAULT = secs 5"

definition POLL_INTERVAL :: int where
  "POLL_INTERVAL = 50000"

definition write_lock_key :: "string \<Rightarrow> string \<Rightarrow> string" where
  "write_lock_key workspace_id capability = ''write:'' @ workspace_id @ '':'' @ capability"

text \<open>The loop. At the n-th attempt the server is as the others left it (\<open>store n\<close>, at its time
  \<open>now n\<close>) and the check against the deadline reads the process's clock (\<open>clock n\<close>). The result is the
  number of the successful attempt with the store, or the contention error.\<close>

partial_function (option) acquire_loop ::
  "(nat \<Rightarrow> instant) \<Rightarrow> (nat \<Rightarrow> int) \<Rightarrow> (nat \<Rightarrow> redis) \<Rightarrow> string \<Rightarrow> string \<Rightarrow> int \<Rightarrow> nat \<Rightarrow> (string + nat \<times> redis) option" where
  "acquire_loop now clock store key token deadline n =
     (case redis_set_nx (now n) (''lock:'' @ key) token (secs WRITE_LOCK_TTL_SECONDS) (store n) of
        (ok, r) \<Rightarrow>
          if ok then Some (Inr (n, r))
          else if clock n \<ge> deadline then Some (Inl (''write lock contended: '' @ key))
          else acquire_loop now clock store key token deadline (n + 1))"

definition acquire_write_lock ::
  "(nat \<Rightarrow> instant) \<Rightarrow> (nat \<Rightarrow> int) \<Rightarrow> (nat \<Rightarrow> redis) \<Rightarrow> string \<Rightarrow> string \<Rightarrow> string \<Rightarrow> int \<Rightarrow> (string + nat \<times> redis) option" where
  "acquire_write_lock now clock store workspace_id capability token start =
     acquire_loop now clock store (write_lock_key workspace_id capability) token (start + WAIT_TIMEOUT_DEFAULT) 0"

definition RUN_LEASE_TTL_SECONDS :: int where
  "RUN_LEASE_TTL_SECONDS = 660"

definition run_lease_key :: "string \<Rightarrow> string" where
  "run_lease_key rid = ''lease:run:'' @ rid"

text \<open>Try once; \<open>PX ttl * 1000\<close> is the same number of seconds in milliseconds.\<close>

definition acquire_run_lease :: "instant \<Rightarrow> string \<Rightarrow> string \<Rightarrow> redis \<Rightarrow> bool \<times> redis" where
  "acquire_run_lease now rid token r =
     redis_set_nx now (run_lease_key rid) token (1000 * (RUN_LEASE_TTL_SECONDS * 1000)) r"

section \<open>Where the middleware takes the lock\<close>

definition CONTENDED_MESSAGE :: string where
  "CONTENDED_MESSAGE = ''resource busy '' @ em_dash @ '' another write is in progress, retry''"

definition WRITE_LOCK_UNAVAILABLE_MESSAGE :: string where
  "WRITE_LOCK_UNAVAILABLE_MESSAGE = ''write refused '' @ em_dash @ '' redis write-lock required but unavailable''"

definition DEEPAGENTS_BUILTIN_NAMES :: "string list" where
  "DEEPAGENTS_BUILTIN_NAMES =
     [''write_todos'', ''ls'', ''read_file'', ''write_file'', ''edit_file'', ''glob'', ''grep'', ''execute'', ''task'']"

text \<open>What happens to a tool call: the handler runs without the lock, is answered with an error, or
  runs under the lock of a key. \<open>resolve\<close> is the registry's capability of a tool name.\<close>

datatype lock_route = Unlocked | Refused string | Under string

definition write_lock_route ::
  "string \<Rightarrow> bool \<Rightarrow> bool \<Rightarrow> (string \<Rightarrow> string option) \<Rightarrow> string \<Rightarrow> lock_route" where
  "write_lock_route workspace_id redis_wired require_redis resolve tool =
     (if tool \<in> set DEEPAGENTS_BUILTIN_NAMES then Unlocked
      else if \<not> redis_wired \<and> \<not> require_redis then Unlocked
      else
        (let capability = resolve tool; c = opt_or capability []
         in if capability \<noteq> None \<and> c \<in> set SYSTEM_ACTION_CAPABILITIES then Unlocked
            else if \<not> redis_wired then
              (if \<not> (capability \<noteq> None \<and> is_read_only_capability c) then Refused WRITE_LOCK_UNAVAILABLE_MESSAGE else Unlocked)
            else if c = [] \<or> is_read_only_capability c then Unlocked
            else Under (write_lock_key workspace_id c)))"

section \<open>The contract of a lease\<close>

text \<open>\<open>holder t k s\<close> is who holds \<open>k\<close> at time \<open>t\<close>. Taking a free key makes one its holder until the time to
  live is over; a held key is refused; time only takes a lease away; a release removes one's own
  lease and no other's.\<close>

locale exclusive_lease =
  fixes holder :: "int \<Rightarrow> 'k \<Rightarrow> 's \<Rightarrow> 'o option"
    and take :: "int \<Rightarrow> 'k \<Rightarrow> 'o \<Rightarrow> 's \<Rightarrow> bool \<times> 's"
    and drop :: "int \<Rightarrow> 'k \<Rightarrow> 'o \<Rightarrow> 's \<Rightarrow> 's"
    and ttl :: int
  assumes take_free: "holder t k s = None \<Longrightarrow> fst (take t k w s)"
    and taken: "fst (take t k w s) \<Longrightarrow> holder u j (snd (take t k w s)) =
        (if j = k then if u < t + ttl then Some w else None else holder u j s)"
    and take_held: "holder t k s = Some v \<Longrightarrow> take t k w s = (False, s)"
    and ages: "t \<le> u \<Longrightarrow> holder u k s = Some w \<Longrightarrow> holder t k s = Some w"
    and drop_own: "holder t k s = Some w \<Longrightarrow> holder u j (drop t k w s) = (if j = k then None else holder u j s)"
    and drop_other: "holder t k s \<noteq> Some w \<Longrightarrow> drop t k w s = s"
begin

text \<open>A lease that has not run out survives whatever the others do.\<close>

lemma kept_by_take: "t \<le> u \<Longrightarrow> holder u k s = Some w \<Longrightarrow> holder u k (snd (take t j v s)) = Some w"
  using take_free[of t j s v] taken[of t j v s u k] take_held[of t j s _ v] ages[of t u k s w]
  by (cases "holder t j s") auto

lemma kept_by_drop: "t \<le> u \<Longrightarrow> v \<noteq> w \<Longrightarrow> holder u k s = Some w \<Longrightarrow> holder u k (drop t j v s) = Some w"
  using drop_own[of t j s v u k] drop_other[of t j s v] ages[of t u k s w] by (cases "holder t j s = Some v") auto

lemma refused_iff: "\<not> fst (take t k w s) \<longleftrightarrow> holder t k s \<noteq> None"
  using take_free[of t k s w] take_held[of t k s _ w] by (cases "holder t k s") auto

end

lemma redis_laws:
  "redis_get t k r = None \<Longrightarrow> fst (redis_set_nx t k w ttl r)"
  "fst (redis_set_nx t k w ttl r) \<Longrightarrow> redis_get u j (snd (redis_set_nx t k w ttl r)) =
     (if j = k then if u < t + ttl then Some w else None else redis_get u j r)"
  "redis_get t k r = Some v \<Longrightarrow> redis_set_nx t k w ttl r = (False, r)"
  "t \<le> u \<Longrightarrow> redis_get u k r = Some w \<Longrightarrow> redis_get t k r = Some w"
  "redis_get t k r = Some w \<Longrightarrow> redis_get u j (redis_release t k w r) = (if j = k then None else redis_get u j r)"
  "redis_get t k r \<noteq> Some w \<Longrightarrow> redis_release t k w r = r"
  by (auto simp: redis_get_def redis_set_nx_def redis_release_def split: option.splits if_splits)

lemma redis_set_nx_taken:
  "redis_set_nx t k w ttl r = (True, r') \<Longrightarrow> 0 < ttl \<Longrightarrow> redis_get t k r = None \<and> redis_get t k r' = Some w"
  using redis_laws(2)[of t k w ttl r t k] by (cases "redis_get t k r") (auto simp: redis_laws(3))

interpretation redis_lock: exclusive_lease redis_get "\<lambda>t k w r. redis_set_nx t k w ttl r" redis_release ttl for ttl
  by unfold_locales (rule redis_laws; assumption)+

section \<open>Many users\<close>

text \<open>User \<open>i\<close> asks for \<open>key i\<close> with its own \<open>token i\<close>. An owner knows when its lease runs out, though
  the code does not look: it goes on working.\<close>

datatype lock_user = Asking | Owner instant | Out

record lock_world =
  lw_now :: instant
  lw_redis :: redis
  lw_user :: "nat \<Rightarrow> lock_user"

definition user_becomes :: "nat \<Rightarrow> lock_user \<Rightarrow> lock_world \<Rightarrow> lock_world" where
  "user_becomes i u s = s\<lparr>lw_user := (lw_user s)(i := u)\<rparr>"

inductive lock_step :: "(nat \<Rightarrow> string) \<Rightarrow> (nat \<Rightarrow> string) \<Rightarrow> int \<Rightarrow> lock_world \<Rightarrow> lock_world \<Rightarrow> bool"
  for key token :: "nat \<Rightarrow> string" and ttl :: int where
  Elapse: "0 \<le> d \<Longrightarrow> lock_step key token ttl s (s\<lparr>lw_now := lw_now s + d\<rparr>)"
| Take: "lw_user s i = Asking \<Longrightarrow> redis_set_nx (lw_now s) (key i) (token i) ttl (lw_redis s) = (True, r) \<Longrightarrow>
    lock_step key token ttl s (user_becomes i (Owner (lw_now s + ttl)) (s\<lparr>lw_redis := r\<rparr>))"
| Refuse: "lw_user s i = Asking \<Longrightarrow> redis_set_nx (lw_now s) (key i) (token i) ttl (lw_redis s) = (False, r) \<Longrightarrow>
    u \<in> {Asking, Out} \<Longrightarrow> lock_step key token ttl s (user_becomes i u (s\<lparr>lw_redis := r\<rparr>))"
| Release: "lw_user s i = Owner e \<Longrightarrow>
    lock_step key token ttl s (user_becomes i Out (s\<lparr>lw_redis := redis_release (lw_now s) (key i) (token i) (lw_redis s)\<rparr>))"
| Leave: "lock_step key token ttl s (user_becomes i Out s)"

inductive lock_reach :: "(nat \<Rightarrow> string) \<Rightarrow> (nat \<Rightarrow> string) \<Rightarrow> int \<Rightarrow> lock_world \<Rightarrow> bool"
  for key token :: "nat \<Rightarrow> string" and ttl :: int where
  Initial: "lock_reach key token ttl \<lparr>lw_now = t, lw_redis = r, lw_user = (\<lambda>_. Asking)\<rparr>"
| Onward: "lock_reach key token ttl s \<Longrightarrow> lock_step key token ttl s s' \<Longrightarrow> lock_reach key token ttl s'"

text \<open>An owner within its lease is who the server says holds the key, until the lease runs out.\<close>

definition owners_hold :: "(nat \<Rightarrow> string) \<Rightarrow> (nat \<Rightarrow> string) \<Rightarrow> lock_world \<Rightarrow> bool" where
  "owners_hold key token s \<longleftrightarrow>
     (\<forall>i e u. lw_user s i = Owner e \<longrightarrow> lw_now s \<le> u \<longrightarrow> u < e \<longrightarrow> redis_get u (key i) (lw_redis s) = Some (token i))"

lemma owners_hold_step:
  assumes "lock_step key token ttl s s'" and "inj token" and "owners_hold key token s"
  shows "owners_hold key token s'"
  using assms(1)
proof cases
  case (Take i r)
  then have taken: "redis_get u j r = (if j = key i then if u < lw_now s + ttl then Some (token i) else None
      else redis_get u j (lw_redis s))" for u j
    using redis_lock.taken[of "lw_now s" "key i" "token i" ttl "lw_redis s" u j] by simp
  have kept: "redis_get u (key j) r = Some (token j)"
    if "lw_user s j = Owner e" "lw_now s \<le> u" "u < e" for j e u
    using redis_lock.kept_by_take[of "lw_now s" u "key j" "lw_redis s" "token j" "key i" "token i" ttl] that assms(3) Take(3)
    by (simp add: owners_hold_def)
  show ?thesis unfolding Take(1) owners_hold_def
    using kept by (auto simp: user_becomes_def taken)
next
  case (Release i e)
  have "redis_get u (key j) (redis_release (lw_now s) (key i) (token i) (lw_redis s)) = Some (token j)"
    if "lw_user s j = Owner f" "lw_now s \<le> u" "u < f" "j \<noteq> i" for j f u
    using redis_lock.kept_by_drop[of "lw_now s" u "token i" "token j" "key j" "lw_redis s" "key i"] that assms(2,3)
    by (auto simp: owners_hold_def inj_def)
  then show ?thesis unfolding Release(1) owners_hold_def by (auto simp: user_becomes_def)
qed (use assms(3) in \<open>auto simp: owners_hold_def user_becomes_def redis_set_nx_def split: if_splits\<close>)

lemma owners_hold_reach: "lock_reach key token ttl s \<Longrightarrow> inj token \<Longrightarrow> owners_hold key token s"
  by (induction rule: lock_reach.induct) (simp add: owners_hold_def, blast intro: owners_hold_step)

section \<open>Properties\<close>

text \<open>C23. One writer at a time: of any number of workers that take the write lock in any interleaving,
  crash, outlive their lease and release it late, two that are within their leases for the same
  workspace and capability are the same worker. Tokens are drawn once each (UUIDs).\<close>

theorem write_lock_excludes:
  assumes "lock_reach (\<lambda>i. ''lock:'' @ write_lock_key (ws i) (c i)) token (secs WRITE_LOCK_TTL_SECONDS) s" and "inj token"
    and "lw_user s i = Owner e" and "lw_now s < e" and "lw_user s j = Owner f" and "lw_now s < f"
    and "ws i = ws j" and "c i = c j"
  shows "i = j"
proof -
  have h: "owners_hold (\<lambda>i. ''lock:'' @ write_lock_key (ws i) (c i)) token s"
    by (rule owners_hold_reach[OF assms(1,2)])
  have "redis_get (lw_now s) (''lock:'' @ write_lock_key (ws i) (c i)) (lw_redis s) = Some (token i)"
    "redis_get (lw_now s) (''lock:'' @ write_lock_key (ws j) (c j)) (lw_redis s) = Some (token j)"
    using h assms(3-6) unfolding owners_hold_def by blast+
  then show ?thesis using assms(2,7,8) by (simp add: inj_def)
qed

definition one_writer :: lock_world where
  "one_writer = \<lparr>lw_now = 0,
     lw_redis = (\<lambda>_. None)(''lock:'' @ write_lock_key ''ws_1'' ''email.send'' \<mapsto> \<lparr>rk_token = [], rk_expires = secs WRITE_LOCK_TTL_SECONDS\<rparr>),
     lw_user = (\<lambda>_. Asking)(0 := Owner (secs WRITE_LOCK_TTL_SECONDS))\<rparr>"

theorem write_lock_excludes_witness:
  "lw_user one_writer 0 = Owner (secs WRITE_LOCK_TTL_SECONDS) \<and> (0::nat) = 0"
proof -
  let ?key = "\<lambda>i::nat. ''lock:'' @ write_lock_key ''ws_1'' ''email.send''" and ?token = "\<lambda>i. replicate i CHR ''x''"
  let ?s0 = "\<lparr>lw_now = 0, lw_redis = (\<lambda>_. None), lw_user = (\<lambda>_. Asking)\<rparr>"
  have "lock_step ?key ?token (secs WRITE_LOCK_TTL_SECONDS) ?s0
      (user_becomes 0 (Owner (lw_now ?s0 + secs WRITE_LOCK_TTL_SECONDS)) (?s0\<lparr>lw_redis := lw_redis one_writer\<rparr>))"
    by (rule lock_step.Take) (simp_all add: redis_set_nx_def redis_get_def one_writer_def)
  moreover have "user_becomes 0 (Owner (lw_now ?s0 + secs WRITE_LOCK_TTL_SECONDS)) (?s0\<lparr>lw_redis := lw_redis one_writer\<rparr>) = one_writer"
    by (simp add: user_becomes_def one_writer_def)
  ultimately have r: "lock_reach ?key ?token (secs WRITE_LOCK_TTL_SECONDS) one_writer"
    using lock_reach.Onward[OF lock_reach.Initial] by metis
  have t: "inj ?token" by (auto simp: inj_def dest: arg_cong[where f = length])
  have u: "lw_user one_writer 0 = Owner (secs WRITE_LOCK_TTL_SECONDS)" "lw_now one_writer < secs WRITE_LOCK_TTL_SECONDS"
    by (simp_all add: one_writer_def WRITE_LOCK_TTL_SECONDS_def)
  from write_lock_excludes[OF r t u u refl refl] u(1) show ?thesis by simp
qed

text \<open>Locks of different workspaces or capabilities do not block each other: a workspace identifier has
  no colon, so the keys differ.\<close>

lemma write_lock_key_inj:
  assumes "CHR '':'' \<notin> set ws" and "CHR '':'' \<notin> set ws'"
  shows "write_lock_key ws c = write_lock_key ws' c' \<longleftrightarrow> ws = ws' \<and> c = c'"
proof -
  have "takeWhile (\<lambda>x. x \<noteq> CHR '':'') (w @ '':'' @ d) = w" if "CHR '':'' \<notin> set w" for w d :: string
    using that by (simp add: takeWhile_append2) (induction w; auto)
  then have "ws @ '':'' @ c = ws' @ '':'' @ c' \<Longrightarrow> ws = ws'" using assms by metis
  then show ?thesis by (auto simp: write_lock_key_def)
qed

lemma acquire_loop_bounded:
  assumes "\<And>n. clock n + POLL_INTERVAL \<le> clock (n + 1)" and "deadline \<le> clock n + int k * POLL_INTERVAL"
  shows "\<exists>out. acquire_loop now clock store key token deadline n = Some out
    \<and> (case out of Inl e \<Rightarrow> e = ''write lock contended: '' @ key
       | Inr (m, r) \<Rightarrow> m \<le> n + k \<and> redis_set_nx (now m) (''lock:'' @ key) token (secs WRITE_LOCK_TTL_SECONDS) (store m) = (True, r))"
  using assms(2)
proof (induction k arbitrary: n)
  case 0
  then show ?case
    by (subst acquire_loop.simps) (auto split: prod.splits)
next
  case (Suc k)
  have "deadline \<le> clock (n + 1) + int k * POLL_INTERVAL"
    using Suc.prems assms(1)[of n] by (simp add: algebra_simps)
  from Suc.IH[OF this] show ?case
    by (subst acquire_loop.simps) (auto split: prod.splits sum.splits)
qed

text \<open>Waiting for the write lock ends: whatever other workers do to the lock meanwhile, the wait
  returns after at most 101 attempts, with the lock, taken on the server at the last attempt, or with
  the contention error.\<close>

lemma write_lock_wait_ends:
  assumes "start \<le> clock 0" and "\<And>n. clock n + POLL_INTERVAL \<le> clock (n + 1)"
  shows "\<exists>out. acquire_write_lock now clock store ws c token start = Some out
    \<and> (case out of Inl e \<Rightarrow> e = ''write lock contended: '' @ write_lock_key ws c
       | Inr (m, r) \<Rightarrow> m \<le> 100 \<and> redis_get (now m) (''lock:'' @ write_lock_key ws c) (store m) = None
           \<and> redis_get (now m) (''lock:'' @ write_lock_key ws c) r = Some token)"
proof -
  have "start + WAIT_TIMEOUT_DEFAULT \<le> clock 0 + int 100 * POLL_INTERVAL"
    using assms(1) by (simp add: WAIT_TIMEOUT_DEFAULT_def POLL_INTERVAL_def secs_def)
  from acquire_loop_bounded[OF assms(2) this, of now store "write_lock_key ws c" token] obtain out where
    out: "acquire_write_lock now clock store ws c token start = Some out"
      "case out of Inl e \<Rightarrow> e = ''write lock contended: '' @ write_lock_key ws c
       | Inr (m, r) \<Rightarrow> m \<le> 0 + 100
           \<and> redis_set_nx (now m) (''lock:'' @ write_lock_key ws c) token (secs WRITE_LOCK_TTL_SECONDS) (store m) = (True, r)"
    unfolding acquire_write_lock_def by blast
  have "0 < secs WRITE_LOCK_TTL_SECONDS" by (simp add: WRITE_LOCK_TTL_SECONDS_def)
  note taken_now = redis_set_nx_taken[OF _ this]
  show ?thesis
    using out(2) by (intro exI[of _ out] conjI out(1)) (auto split: sum.splits dest: taken_now)
qed

text \<open>With Redis required, what runs without the lock: the agent library's own tools, the user's own
  memory, reads, and, while Redis is there, a tool the registry gives no capability (which the scope
  guard has refused before).\<close>

lemma unlocked_route_iff:
  "write_lock_route ws wired True resolve tool = Unlocked \<longleftrightarrow>
     tool \<in> set DEEPAGENTS_BUILTIN_NAMES
     \<or> (\<exists>c. resolve tool = Some c \<and> (c \<in> set SYSTEM_ACTION_CAPABILITIES \<or> is_read_only_capability c))
     \<or> wired \<and> resolve tool \<in> {None, Some []}"
  by (cases "resolve tool") (auto simp: write_lock_route_def Let_def)

text \<open>A run's lease: the second worker backs off while the first is within it, and after 660 seconds
  anyone can take it.\<close>

lemma run_lease_single_flight:
  assumes "acquire_run_lease t rid token r = (True, r')"
  shows "acquire_run_lease u rid token' r' = (False, r') \<longleftrightarrow> u < t + secs RUN_LEASE_TTL_SECONDS"
  using assms by (auto simp: acquire_run_lease_def redis_set_nx_def redis_get_def secs_def split: option.splits if_splits)

end
