(* ===== verification/Prepared.thy ===== *)
theory Prepared
  imports Ledger Governor Locks
begin

text \<open>
  Prepared actions: a write that nobody is present to confirm is recorded on an approval row with its
  arguments redacted (\<open>deep_runtime/middleware/approval_persistence.py\<close>), and confirming it replays the
  recorded call without an agent (\<open>services/prepared_actions.py\<close>), once, through the idempotency
  ledger; the row keeps what is known of the outcome (\<open>api/routes_approvals_prepared.py\<close>).
  \<open>json.dumps\<close> and \<open>json.loads\<close>, the tool registry, the tools and the state of the write lock are
  parameters. A column that should hold a string and does not is read as empty.
\<close>

section \<open>What is persisted\<close>

definition MAX_PERSISTED_CONTEXT_CHARS :: nat where
  "MAX_PERSISTED_CONTEXT_CHARS = 8000"

definition REDACTED :: string where
  "REDACTED = ''[redacted]''"

definition REDACTED_KEY_SUBSTRINGS :: "string list" where
  "REDACTED_KEY_SUBSTRINGS = [''token'', ''secret'', ''password'', ''api_key'', ''authorization'', ''credential'']"

text \<open>\<open>p in s\<close> on strings.\<close>

definition contains :: "string \<Rightarrow> string \<Rightarrow> bool" where
  "contains p s = list_ex (\<lambda>n. take (length p) (drop n s) = p) [0..<Suc (length s)]"

definition is_secret_key :: "string \<Rightarrow> bool" where
  "is_secret_key key = list_ex (\<lambda>marker. contains marker (map lower key)) REDACTED_KEY_SUBSTRINGS"

fun redact :: "json \<Rightarrow> json" where
  "redact (JObj d) = JObj (map (\<lambda>(k, v). (k, if is_secret_key k then JStr REDACTED else redact v)) d)"
| "redact (JList vs) = JList (map redact vs)"
| "redact v = v"

definition redact_tool_input :: "(json \<Rightarrow> string) \<Rightarrow> jdict option \<Rightarrow> string \<times> bool" where
  "redact_tool_input dumps args =
     (let payload = dumps (redact (JObj (dict_or_empty args)))
      in if length payload > MAX_PERSISTED_CONTEXT_CHARS
         then (take MAX_PERSISTED_CONTEXT_CHARS payload, True) else (payload, False))"

text \<open>\<open>sorted(capability_scope)\<close> is given as a list.\<close>

definition build_legibility_refs :: "(json \<Rightarrow> string) \<Rightarrow> jdict option \<Rightarrow> string list \<Rightarrow> string \<Rightarrow> bool \<Rightarrow> jdict" where
  "build_legibility_refs dumps tool_input scope presence prepared =
     (let (persisted, truncated) = redact_tool_input dumps tool_input
      in [(''tool_input'', JStr persisted), (''tool_input_truncated'', JBool truncated),
          (''capability_scope'', JList (map JStr scope)), (''effective_presence'', JStr presence)]
         @ (if prepared then [(''prepared'', JBool True)] else []))"

definition prepared_approval_overrides :: "bool \<Rightarrow> string option \<times> instant option" where
  "prepared_approval_overrides prepared = (if prepared then Some PREPARED_APPROVAL_TYPE else None, None)"

section \<open>Replay\<close>

datatype prepared_outcome = Executed | Already_executed | Refused_action | Tool_failed | Transient

record prepared_result =
  pa_outcome :: prepared_outcome
  pa_result :: json
  pa_error :: "string option"

definition pa_executed :: "prepared_result \<Rightarrow> bool" where
  "pa_executed r = (pa_outcome r \<in> {Executed, Already_executed})"

definition prepared_identity_key :: "string \<Rightarrow> string" where
  "prepared_identity_key approval_id = ''prepared:'' @ approval_id"

text \<open>What a replay uses from outside. \<open>px_lock\<close>: no Redis client; the client raises; whether the lock
  was obtained. \<open>px_ledger\<close>: whether a ledger is wired (the route always wires one).\<close>

record prepared_ctx =
  px_registry :: "string \<Rightarrow> string option option"
  px_tool :: "nat \<Rightarrow> string \<Rightarrow> json \<Rightarrow> string \<Rightarrow> string \<Rightarrow> string + json"
  px_loads :: "string \<Rightarrow> json option"
  px_str :: "json \<Rightarrow> string"
  px_lock :: "(string + bool) option"
  px_ledger :: bool
  px_ulid :: "nat \<Rightarrow> string"
  px_now :: instant

record prepared_call =
  pc_tool_name :: string
  pc_tool_input :: json
  pc_user_id :: string
  pc_workspace_id :: string

record prepared_state =
  ps_ledger :: "ledger_entry list"
  ps_reserved :: nat
  ps_calls :: "prepared_call list"

datatype unreadable = Truncated | Invalid | Wrong_type

definition recorded_input :: "(string \<Rightarrow> json option) \<Rightarrow> jdict \<Rightarrow> unreadable + json" where
  "recorded_input loads refs =
     (if truthy (jget refs ''tool_input_truncated'') then Inl Truncated
      else case jget refs ''tool_input'' of
             JNull \<Rightarrow> Inr (JObj [])
           | JObj d \<Rightarrow> Inr (JObj d)
           | JStr s \<Rightarrow> if s = [] then Inr (JObj []) else (case loads s of None \<Rightarrow> Inl Invalid | Some v \<Rightarrow> Inr v)
           | _ \<Rightarrow> Inl Wrong_type)"

definition pa_refused :: "string \<Rightarrow> prepared_result" where
  "pa_refused e = \<lparr>pa_outcome = Refused_action, pa_result = JNull, pa_error = Some e\<rparr>"

definition call_prepared :: "prepared_ctx \<Rightarrow> approval \<Rightarrow> string \<Rightarrow> json \<Rightarrow> (prepared_state, string, json) engine" where
  "call_prepared cx ap tool input = (\<lambda>s.
     (px_tool cx (length (ps_calls s)) tool input (ap_user_id ap) (ap_workspace_id ap),
      s\<lparr>ps_calls := ps_calls s @ [\<lparr>pc_tool_name = tool, pc_tool_input = input, pc_user_id = ap_user_id ap,
                                 pc_workspace_id = ap_workspace_id ap\<rparr>]\<rparr>))"

definition reserve_prepared :: "prepared_ctx \<Rightarrow> approval \<Rightarrow> string \<Rightarrow> (prepared_state, string, reserve_outcome) engine" where
  "reserve_prepared cx ap capability = (\<lambda>s.
     let (oc, tbl) = reserve (px_ulid cx (ps_reserved s)) (ap_workspace_id ap) None None capability
                       (prepared_identity_key (ap_approval_id ap)) (ps_ledger s)
     in (Inr oc, s\<lparr>ps_ledger := tbl, ps_reserved := ps_reserved s + 1\<rparr>))"

definition settle_prepared :: "prepared_ctx \<Rightarrow> string option \<Rightarrow> json \<Rightarrow> (prepared_state, string, prepared_result) engine" where
  "settle_prepared cx lid result =
     (if reports_error result then
        andthen (modify (\<lambda>s. s\<lparr>ps_ledger := mark_failed lid (ps_ledger s)\<rparr>)) (\<lambda>_.
        ret \<lparr>pa_outcome = Tool_failed, pa_result = result, pa_error = Some (px_str cx (jget (obj_items result) ''error''))\<rparr>)
      else
        andthen (modify (\<lambda>s. s\<lparr>ps_ledger := ledger_record_success (px_now cx) lid result (ps_ledger s)\<rparr>)) (\<lambda>_.
        ret \<lparr>pa_outcome = Executed, pa_result = result, pa_error = None\<rparr>))"

definition execute_once :: "prepared_ctx \<Rightarrow> approval \<Rightarrow> string \<Rightarrow> string \<Rightarrow> json \<Rightarrow> (prepared_state, string, prepared_result) engine" where
  "execute_once cx ap tool capability input =
     (if \<not> px_ledger cx then
        andthen (call_prepared cx ap tool input) (\<lambda>result. ret \<lparr>pa_outcome = Executed, pa_result = result, pa_error = None\<rparr>)
      else
        andthen (reserve_prepared cx ap capability) (\<lambda>oc.
          if ro_already_done oc then ret \<lparr>pa_outcome = Already_executed, pa_result = ro_result oc, pa_error = None\<rparr>
          else if ro_in_flight_conflict oc then
            ret \<lparr>pa_outcome = Transient, pa_result = JNull,
                 pa_error = Some (''a prior attempt is still in flight '' @ em_dash @ '' not re-fired'')\<rparr>
          else andthen (call_prepared cx ap tool input) (settle_prepared cx (ro_ledger_id oc))))"

text \<open>The fail-closed checks, in the code's order: the refusal, or the tool, its capability and the input.\<close>

definition prepared_checks :: "prepared_ctx \<Rightarrow> approval \<Rightarrow> string + (prepared_result + string \<times> string \<times> json)" where
  "prepared_checks cx ap =
     (let refs = dict_or_empty (ap_artifact_refs ap); tool = jstr (jget refs ''tool_name'')
      in if tool = [] then Inr (Inl (pa_refused ''prepared action has no recorded tool name''))
         else case px_registry cx tool of
           None \<Rightarrow> Inr (Inl (pa_refused (''unknown tool '' @ quoted tool @ '' '' @ em_dash @ '' refusing'')))
         | Some mapped \<Rightarrow>
             (let capability = opt_or mapped []
              in if capability = [] then
                   Inr (Inl (pa_refused (''tool '' @ quoted tool @ '' has no capability '' @ em_dash @ '' refusing'')))
                 else if jget refs ''capability'' \<noteq> JStr capability then
                   Inr (Inl (pa_refused (''registry drift: '' @ quoted tool @ '' now maps to '' @ quoted capability
                     @ '' but was reviewed as '' @ quoted (px_str cx (jget refs ''capability'')) @ '' '' @ em_dash @ '' refusing'')))
                 else case jget refs ''capability_scope'' of
                     JList (c # cs) \<Rightarrow>
                       if JStr capability \<notin> set (c # cs) then
                         Inr (Inl (pa_refused (quoted capability @ '' is outside the authority this action was prepared under ''
                           @ em_dash @ '' refusing'')))
                       else (case recorded_input (px_loads cx) refs of
                               Inl Truncated \<Rightarrow> Inr (Inl (pa_refused
                                 (''the recorded payload was clipped when it was stored, so this action cannot be replayed exactly as reviewed ''
                                   @ em_dash @ '' refusing'')))
                             | Inl Invalid \<Rightarrow> Inr (Inl (pa_refused
                                 (''the recorded payload could not be read back '' @ em_dash @ '' refusing'')))
                             | Inl Wrong_type \<Rightarrow> Inl ''TypeError''
                             | Inr input \<Rightarrow> Inr (Inr (tool, capability, input)))
                   | _ \<Rightarrow> Inr (Inl (pa_refused (''no capability scope was recorded for this action '' @ em_dash @ '' refusing'')))))"

definition execute_prepared_action :: "prepared_ctx \<Rightarrow> approval \<Rightarrow> (prepared_state, string, prepared_result) engine" where
  "execute_prepared_action cx ap =
     (case prepared_checks cx ap of
        Inl e \<Rightarrow> raise e
      | Inr (Inl refusal) \<Rightarrow> ret refusal
      | Inr (Inr (tool, capability, input)) \<Rightarrow>
          (case px_lock cx of
             None \<Rightarrow> execute_once cx ap tool capability input
           | Some (Inl e) \<Rightarrow> raise e
           | Some (Inr False) \<Rightarrow>
               ret \<lparr>pa_outcome = Transient, pa_result = JNull,
                    pa_error = Some (''another write to this capability is in progress '' @ em_dash @ '' try again'')\<rparr>
           | Some (Inr True) \<Rightarrow> execute_once cx ap tool capability input))"

section \<open>What the row keeps\<close>

definition RETRY_DETAIL :: string where
  "RETRY_DETAIL = ''Could not run this action right now '' @ em_dash @ '' it is still waiting and can be confirmed again.''"

definition back_to_pending :: "approval \<Rightarrow> approval" where
  "back_to_pending ap = ap\<lparr>ap_status := ''pending'', ap_decided_at := None, ap_approved_by := None, ap_decision_reason := None\<rparr>"

definition with_prepared_error :: "string \<Rightarrow> approval \<Rightarrow> approval" where
  "with_prepared_error e ap =
     ap\<lparr>ap_artifact_refs := Some (dict_merge (dict_or_empty (ap_artifact_refs ap)) [(''prepared_error'', JStr e)])\<rparr>"

text \<open>\<open>run_prepared_action\<close>: the HTTP error raised, if any, the row and the state.\<close>

definition run_prepared_action ::
  "prepared_ctx \<Rightarrow> approval \<Rightarrow> prepared_state \<Rightarrow> ((nat \<times> string) + prepared_outcome) \<times> approval \<times> prepared_state" where
  "run_prepared_action cx ap s =
     (case execute_prepared_action cx ap s of
        (Inl e, s') \<Rightarrow>
          (Inl (503, RETRY_DETAIL),
           with_prepared_error (''could not run: '' @ e @ '' '' @ em_dash @ '' not yet executed'') (back_to_pending ap), s')
      | (Inr res, s') \<Rightarrow>
          (let noted = (case pa_error res of Some (c # e) \<Rightarrow> with_prepared_error (c # e) ap
                          | _ \<Rightarrow> ap\<lparr>ap_artifact_refs := Some (dict_or_empty (ap_artifact_refs ap))\<rparr>)
           in if pa_outcome res = Transient then (Inl (503, RETRY_DETAIL), back_to_pending noted, s')
              else (Inr (pa_outcome res), noted\<lparr>ap_status := (if pa_executed res then ''executed'' else ''failed'')\<rparr>, s')))"

section \<open>Redaction\<close>

text \<open>The values that stand under a secret key, at any depth.\<close>

fun secret_values :: "json \<Rightarrow> json list" where
  "secret_values (JObj d) = concat (map (\<lambda>(k, v). if is_secret_key k then [v] else secret_values v) d)"
| "secret_values (JList vs) = concat (map secret_values vs)"
| "secret_values v = []"


section \<open>What a replay may do\<close>

lemma prepared_checks_Inr:
  assumes "prepared_checks cx ap = Inr (Inr (tool, c, input))"
  shows "tool \<noteq> [] \<and> c \<noteq> [] \<and> px_registry cx tool = Some (Some c)
    \<and> (let refs = dict_or_empty (ap_artifact_refs ap)
       in jget refs ''tool_name'' = JStr tool \<and> jget refs ''capability'' = JStr c
          \<and> (\<exists>scope. jget refs ''capability_scope'' = JList scope \<and> JStr c \<in> set scope)
          \<and> recorded_input (px_loads cx) refs = Inr input)"
proof -
  have str: "jstr v \<noteq> [] \<Longrightarrow> v = JStr (jstr v)" for v by (cases v) auto
  have cap: "opt_or m [] \<noteq> [] \<Longrightarrow> m = Some (opt_or m [])" for m :: "string option" by (cases m) auto
  show ?thesis
    using assms unfolding prepared_checks_def Let_def
    by (auto dest: str cap split: if_splits option.splits json.splits list.splits sum.splits unreadable.splits)
qed

lemma execute_once_calls:
  "ps_calls (snd (execute_once cx ap tool c input s)) = ps_calls s \<or>
   ps_calls (snd (execute_once cx ap tool c input s)) = ps_calls s @
     [\<lparr>pc_tool_name = tool, pc_tool_input = input, pc_user_id = ap_user_id ap, pc_workspace_id = ap_workspace_id ap\<rparr>]"
  by (auto simp: execute_once_def reserve_prepared_def settle_prepared_def call_prepared_def andthen_def ret_def modify_def Let_def
      split: prod.splits sum.splits if_splits)

text \<open>C24. A replay runs only what was reviewed: if it reaches a tool at all, it is one call, of the recorded
  tool with the recorded input, as the user who prepared it; the registry still maps the tool to the
  capability that was reviewed, that capability is in the scope recorded at the time, the recorded
  input was not clipped, and the write lock was free.\<close>

theorem replay_runs_what_was_reviewed:
  assumes "ps_calls (snd (execute_prepared_action cx ap s)) \<noteq> ps_calls s"
  shows "\<exists>tool c input scope. (let refs = dict_or_empty (ap_artifact_refs ap)
      in jget refs ''tool_name'' = JStr tool \<and> jget refs ''capability'' = JStr c \<and> px_registry cx tool = Some (Some c)
         \<and> jget refs ''capability_scope'' = JList scope \<and> JStr c \<in> set scope
         \<and> truthy (jget refs ''tool_input_truncated'') = False \<and> recorded_input (px_loads cx) refs = Inr input)
      \<and> px_lock cx \<in> {None, Some (Inr True)}
      \<and> ps_calls (snd (execute_prepared_action cx ap s)) = ps_calls s @
          [\<lparr>pc_tool_name = tool, pc_tool_input = input, pc_user_id = ap_user_id ap, pc_workspace_id = ap_workspace_id ap\<rparr>]"
proof -
  obtain tool c input where ok: "prepared_checks cx ap = Inr (Inr (tool, c, input))" "px_lock cx \<in> {None, Some (Inr True)}"
    "execute_prepared_action cx ap = execute_once cx ap tool c input"
    using assms
    by (auto simp: execute_prepared_action_def raise_def ret_def split: sum.splits prod.splits option.splits bool.splits)
  from prepared_checks_Inr[OF ok(1)] obtain scope where
    c: "let refs = dict_or_empty (ap_artifact_refs ap)
      in jget refs ''tool_name'' = JStr tool \<and> jget refs ''capability'' = JStr c \<and> px_registry cx tool = Some (Some c)
         \<and> jget refs ''capability_scope'' = JList scope \<and> JStr c \<in> set scope \<and> recorded_input (px_loads cx) refs = Inr input"
    by (auto simp: Let_def)
  then have "truthy (jget (dict_or_empty (ap_artifact_refs ap)) ''tool_input_truncated'') = False"
    by (auto simp: Let_def recorded_input_def split: if_splits)
  with c ok(2) execute_once_calls[of cx ap tool c input s] assms show ?thesis
    unfolding ok(3) by (auto simp: Let_def)
qed

section \<open>Exactly once\<close>

abbreviation prepared_row :: "approval \<Rightarrow> string \<times> string" where
  "prepared_row ap \<equiv> (ap_workspace_id ap, prepared_identity_key (ap_approval_id ap))"

text \<open>A replay whose write is on record as completed, or as in flight, changes nothing.\<close>

lemma replay_settled:
  assumes "px_ledger cx"
    and "stored_result (ps_ledger s) (prepared_row ap) \<noteq> None
       \<or> map_option le_status (ledger_lookup (prepared_row ap) (ps_ledger s)) = Some InFlight"
  shows "ps_calls (snd (execute_prepared_action cx ap s)) = ps_calls s
    \<and> ps_ledger (snd (execute_prepared_action cx ap s)) = ps_ledger s"
proof -
  obtain row where row: "ledger_lookup (prepared_row ap) (ps_ledger s) = Some row" "le_status row \<noteq> Failed"
    using assms(2) by (auto simp: stored_result_def split: option.splits if_splits)
  have "insert_entry (new_entry lid (ap_workspace_id ap) None None c (prepared_identity_key (ap_approval_id ap))) (ps_ledger s) = None" for lid c
    using row(1) by (simp add: insert_entry_def)
  then have r: "\<exists>oc. reserve lid (ap_workspace_id ap) None None c (prepared_identity_key (ap_approval_id ap)) (ps_ledger s)
        = (oc, ps_ledger s) \<and> (ro_already_done oc \<or> ro_in_flight_conflict oc)" for lid c
    using row by (auto simp: reserve_def resolve_existing_def conflict_def split: ledger_status.splits)
  have "ps_calls (snd (execute_once cx ap tool c input s)) = ps_calls s
      \<and> ps_ledger (snd (execute_once cx ap tool c input s)) = ps_ledger s" for tool c input
    using assms(1) r[of "px_ulid cx (ps_reserved s)" c]
    by (auto simp: execute_once_def reserve_prepared_def andthen_def ret_def Let_def)
  then show ?thesis
    by (auto simp: execute_prepared_action_def ret_def raise_def split: sum.splits prod.splits option.splits bool.splits)
qed

lemma reserve_granted:
  assumes "reserve lid (fst k) None None c (snd k) tbl = (oc, tbl')" and "lid \<notin> le_ledger_id ` set tbl"
    and "\<not> ro_already_done oc" and "\<not> ro_in_flight_conflict oc"
  shows "ro_ledger_id oc \<noteq> None \<and> map_option le_status (ledger_lookup k tbl') = Some InFlight"
proof (cases "insert_entry (new_entry lid (fst k) None None c (snd k)) tbl")
  case (Some t)
  then show ?thesis
    using assms(1) lookup_insert[OF Some, of k] by (auto simp: reserve_def granted_def new_entry_def le_key_def)
next
  case None
  then obtain row where row: "ledger_lookup k tbl = Some row"
    using assms(2) by (auto simp: insert_entry_def split: if_splits)
  have "lid' = le_ledger_id row \<Longrightarrow> le_status row = Failed \<Longrightarrow>
      map_option le_status (ledger_lookup k (snd (reopen lid' tbl))) = Some InFlight" for lid'
    by (simp add: lookup_reopen row)
  then show ?thesis
    using assms(1,3,4) None row
    by (auto simp: reserve_def resolve_existing_def granted_def conflict_def split: ledger_status.splits if_splits prod.splits)
qed

lemma execute_once_ends:
  assumes "px_ledger cx" and "px_ulid cx (ps_reserved s) \<notin> le_ledger_id ` set (ps_ledger s)"
    and "execute_once cx ap tool c input s = (r, s')" and "ps_calls s' \<noteq> ps_calls s"
  shows "case r of
      Inl _ \<Rightarrow> map_option le_status (ledger_lookup (prepared_row ap) (ps_ledger s')) = Some InFlight
    | Inr res \<Rightarrow> if reports_error (pa_result res) then pa_outcome res = Tool_failed
        else pa_outcome res = Executed \<and> stored_result (ps_ledger s') (prepared_row ap) = Some (pa_result res)"
proof -
  let ?key = "prepared_identity_key (ap_approval_id ap)"
  obtain oc tbl where res: "reserve (px_ulid cx (ps_reserved s)) (fst (prepared_row ap)) None None c (snd (prepared_row ap)) (ps_ledger s) = (oc, tbl)"
    by (metis prod.exhaust)
  have go: "\<not> ro_already_done oc" "\<not> ro_in_flight_conflict oc"
    using assms(1,3,4) res
    by (auto simp: execute_once_def reserve_prepared_def andthen_def ret_def Let_def split: if_splits)
  from reserve_granted[OF res assms(2) go] have fly: "map_option le_status (ledger_lookup (prepared_row ap) tbl) = Some InFlight"
    and "ro_ledger_id oc \<noteq> None" by auto
  then obtain h where h: "grant_of (fst (reserve (px_ulid cx (ps_reserved s)) (fst (prepared_row ap)) None None c (snd (prepared_row ap)) (ps_ledger s))) = Some h"
    "ro_ledger_id oc = Some h" unfolding res by (auto simp: grant_of_def go)
  have "stored_result (ledger_record_success now (Some h) v tbl) (prepared_row ap) = Some v" for now v
    using ledger_gate.succeed_stored[OF ledger_gate.ask_granted[OF h(1)]] unfolding res by simp
  then show ?thesis
    using assms(1,3) go fly h(2) res
    by (auto simp: execute_once_def reserve_prepared_def settle_prepared_def call_prepared_def andthen_def ret_def modify_def Let_def
        split: sum.splits if_splits)
qed

lemma prepared_checks_refusal: "prepared_checks cx ap = Inr (Inl res) \<Longrightarrow> pa_outcome res = Refused_action"
  unfolding prepared_checks_def Let_def pa_refused_def
  by (auto split: if_splits option.splits json.splits list.splits sum.splits unreadable.splits)

lemma execute_prepared_cases:
  "(\<exists>tool c input. execute_prepared_action cx ap = execute_once cx ap tool c input)
   \<or> (\<exists>e. execute_prepared_action cx ap = raise e)
   \<or> (\<exists>res. execute_prepared_action cx ap = ret res \<and> pa_outcome res \<in> {Refused_action, Transient})"
  using prepared_checks_refusal[of cx ap]
  by (auto simp: execute_prepared_action_def split: sum.splits prod.splits option.splits bool.splits) blast+

lemma execute_prepared_once:
  assumes "ps_calls (snd (execute_prepared_action cx ap s)) \<noteq> ps_calls s
     \<or> (\<exists>res. fst (execute_prepared_action cx ap s) = Inr res \<and> pa_outcome res = Executed)"
  shows "\<exists>tool c input. execute_prepared_action cx ap = execute_once cx ap tool c input"
  using assms execute_prepared_cases[of cx ap] by (auto simp: raise_def ret_def)

lemma execute_once_executed:
  assumes "px_ledger cx" and "px_ulid cx (ps_reserved s) \<notin> le_ledger_id ` set (ps_ledger s)"
    and "execute_once cx ap tool c input s = (Inr res, s')" and "pa_outcome res = Executed"
  shows "stored_result (ps_ledger s') (prepared_row ap) = Some (pa_result res)"
proof -
  have "ps_calls s' \<noteq> ps_calls s"
    using assms(1,3,4)
    by (auto simp: execute_once_def reserve_prepared_def settle_prepared_def call_prepared_def andthen_def ret_def modify_def Let_def
        split: prod.splits sum.splits if_splits)
  from execute_once_ends[OF assms(1-3) this] assms(4) show ?thesis by (auto split: if_splits)
qed

lemma execute_once_replayed:
  assumes "px_ledger cx" and "stored_result (ps_ledger s) (prepared_row ap) = Some r"
  shows "fst (execute_once cx ap tool c input s) = Inr \<lparr>pa_outcome = Already_executed, pa_result = r, pa_error = None\<rparr>"
  using ledger_gate.ask_stored[OF assms(2), of "px_ulid cx (ps_reserved s)" None None c] assms(1)
  by (auto simp: execute_once_def reserve_prepared_def andthen_def ret_def replay_of_def Let_def split: prod.splits if_splits)

text \<open>C6. A confirmed action fires once: after a confirmation that executed it, no later confirmation of the
  same approval, whatever the registry, the lock or the row say by then, reaches a tool or changes the
  ledger; one that passes the checks returns the first result.\<close>

theorem prepared_action_fires_once:
  assumes "execute_prepared_action cx ap s = (Inr res, s1)" and "pa_outcome res = Executed" and "px_ledger cx"
    and "px_ulid cx (ps_reserved s) \<notin> le_ledger_id ` set (ps_ledger s)"
    and "px_ledger cx'" and "ap_approval_id ap' = ap_approval_id ap" and "ap_workspace_id ap' = ap_workspace_id ap"
    and "ps_ledger s2 = ps_ledger s1"
  shows "ps_calls (snd (execute_prepared_action cx' ap' s2)) = ps_calls s2
    \<and> ps_ledger (snd (execute_prepared_action cx' ap' s2)) = ps_ledger s2
    \<and> (if (\<exists>x. prepared_checks cx' ap' = Inr (Inr x)) \<and> px_lock cx' \<in> {None, Some (Inr True)}
       then fst (execute_prepared_action cx' ap' s2) = Inr \<lparr>pa_outcome = Already_executed, pa_result = pa_result res, pa_error = None\<rparr>
       else True)"
proof -
  obtain tool c input where "execute_prepared_action cx ap = execute_once cx ap tool c input"
    using execute_prepared_once[of cx ap s] assms(1,2) by auto
  then have "stored_result (ps_ledger s1) (prepared_row ap) = Some (pa_result res)"
    using execute_once_executed[OF assms(3,4)] assms(1,2) by simp
  then have st: "stored_result (ps_ledger s2) (prepared_row ap') = Some (pa_result res)"
    by (simp add: assms(6-8))
  show ?thesis
    using replay_settled[OF assms(5), of s2 ap'] execute_once_replayed[OF assms(5) st] st
    by (auto simp: execute_prepared_action_def split: prod.splits)
qed

text \<open>An action whose tool raised can never be confirmed: the row goes back to pending with the message
  that it can be confirmed again, but the ledger keeps the write in flight, so every later confirmation
  ends without a call, with the ledger as it is, and never as executed.\<close>

lemma raised_tool_blocks_action:
  assumes "execute_prepared_action cx ap s = (Inl e, s1)" and "ps_calls s1 \<noteq> ps_calls s" and "px_ledger cx"
    and "px_ulid cx (ps_reserved s) \<notin> le_ledger_id ` set (ps_ledger s)"
    and "px_ledger cx'" and "ap_approval_id ap' = ap_approval_id ap" and "ap_workspace_id ap' = ap_workspace_id ap"
    and "ps_ledger s2 = ps_ledger s1"
  shows "fst (run_prepared_action cx ap s) = Inl (503, RETRY_DETAIL)
    \<and> (case run_prepared_action cx' ap' s2 of (r, ap'', s3) \<Rightarrow>
         ps_calls s3 = ps_calls s2 \<and> ps_ledger s3 = ps_ledger s2 \<and> ap_status ap'' \<in> {''pending'', ''failed''})"
proof -
  obtain tool c input where "execute_prepared_action cx ap = execute_once cx ap tool c input"
    using execute_prepared_once[of cx ap s] assms(1,2) by auto
  then have "map_option le_status (ledger_lookup (prepared_row ap) (ps_ledger s1)) = Some InFlight"
    using execute_once_ends[OF assms(3,4), of ap tool c input "Inl e" s1] assms(1,2) by simp
  then have fly: "map_option le_status (ledger_lookup (prepared_row ap') (ps_ledger s2)) = Some InFlight"
    by (simp add: assms(6-8))
  have no: "ps_calls (snd (execute_prepared_action cx' ap' s2)) = ps_calls s2
      \<and> ps_ledger (snd (execute_prepared_action cx' ap' s2)) = ps_ledger s2"
    using replay_settled[OF assms(5), of s2 ap'] fly by simp
  obtain row where row: "ledger_lookup (prepared_row ap') (ps_ledger s2) = Some row" "le_status row = InFlight"
    using fly by auto
  have "\<not> pa_executed res" if "execute_once cx' ap' t d i s2 = (Inr res, s3)" for t d i res s3
    using that row assms(5)
    by (auto simp: execute_once_def reserve_prepared_def reserve_def insert_entry_def resolve_existing_def conflict_def
        andthen_def ret_def pa_executed_def Let_def)
  then have "\<not> pa_executed res" if "execute_prepared_action cx' ap' s2 = (Inr res, s3)" for res s3
    using that execute_prepared_cases[of cx' ap'] by (auto simp: pa_executed_def raise_def ret_def)
  then show ?thesis
    using no assms(1)
    by (auto simp: run_prepared_action_def back_to_pending_def with_prepared_error_def Let_def split: prod.splits sum.splits)
qed

text \<open>What is recorded is what is replayed: from the references the gate writes for a tool, its
  capability and a scope that has it, with the registry unchanged, the first confirmation calls that
  tool once with the recorded arguments, which are the redacted ones; a payload of more than 8000
  characters is marked as clipped and calls nothing.\<close>

lemma recorded_call_is_replayed:
  assumes "dict_or_empty (ap_artifact_refs ap) = [(''tool_name'', JStr tool), (''capability'', JStr c)]
        @ build_legibility_refs dumps (Some args) scope presence True"
    and "tool \<noteq> []" and "c \<noteq> []" and "c \<in> set scope" and "px_registry cx tool = Some (Some c)"
    and "dumps (redact (JObj args)) \<noteq> []" and "px_loads cx (dumps (redact (JObj args))) = Some (redact (JObj args))"
    and "px_lock cx \<in> {None, Some (Inr True)}" and "ps_ledger s = []"
  shows "ps_calls (snd (execute_prepared_action cx ap s)) = ps_calls s @
    (if length (dumps (redact (JObj args))) \<le> MAX_PERSISTED_CONTEXT_CHARS
     then [\<lparr>pc_tool_name = tool, pc_tool_input = redact (JObj args), pc_user_id = ap_user_id ap, pc_workspace_id = ap_workspace_id ap\<rparr>]
     else [])"
proof -
  obtain d ds where scope: "map JStr scope = d # ds" "JStr c \<in> set (d # ds)" using assms(4) by (cases scope) auto
  note refs = assms(1)[unfolded build_legibility_refs_def redact_tool_input_def dict_or_empty_simps scope(1) Let_def]
  show ?thesis
  proof (cases "length (dumps (redact (JObj args))) \<le> MAX_PERSISTED_CONTEXT_CHARS")
    case True
    then have "prepared_checks cx ap = Inr (Inr (tool, c, redact (JObj args)))"
      using scope(2) assms(2,3,5,6,7) refs by (auto simp: prepared_checks_def recorded_input_def Let_def)
    moreover have "ps_calls (snd (execute_once cx ap tool c v s)) = ps_calls s @
        [\<lparr>pc_tool_name = tool, pc_tool_input = v, pc_user_id = ap_user_id ap, pc_workspace_id = ap_workspace_id ap\<rparr>]" for v
      using assms(9)
      by (auto simp: execute_once_def reserve_prepared_def reserve_def insert_entry_def ledger_lookup_def granted_def settle_prepared_def
          call_prepared_def andthen_def ret_def modify_def Let_def split: sum.splits)
    ultimately show ?thesis using assms(8) True by (auto simp: execute_prepared_action_def)
  next
    case False
    then have "\<exists>r. prepared_checks cx ap = Inr (Inl r)"
      using scope(2) assms(2,3,5) refs by (auto simp: prepared_checks_def recorded_input_def Let_def)
    then show ?thesis using False by (auto simp: execute_prepared_action_def ret_def)
  qed
qed

section \<open>Samples\<close>

definition sample_args :: jdict where
  "sample_args = [(''to'', JStr ''a@b.c''), (''sync'', JObj [(''Page_Token'', JStr ''p7'')])]"

definition sample_prepared :: approval where
  "sample_prepared =
     \<lparr>ap_approval_id = ''apr_1'', ap_user_id = ''u'', ap_workspace_id = ''ws'', ap_execution_id = [],
      ap_approval_type = PREPARED_APPROVAL_TYPE, ap_title = [], ap_summary = None,
      ap_artifact_refs = Some ([(''tool_name'', JStr ''gmail_send''), (''capability'', JStr ''email.send'')]
        @ build_legibility_refs (\<lambda>_. ''{}'') (Some sample_args) [''email.send''] ''absent'' True),
      ap_thread_id = JNull, ap_tool_call_id = JNull, ap_risk_level = ''high'', ap_status = ''pending'', ap_decided_at = None,
      ap_decision_reason = None, ap_expires_at = None, ap_run_id = None, ap_step_id = None, ap_requested_by = ''u'',
      ap_approved_by = None\<rparr>"

definition sample_prepared_ctx :: "string + json \<Rightarrow> prepared_ctx" where
  "sample_prepared_ctx answer =
     \<lparr>px_registry = (\<lambda>_. Some (Some ''email.send'')), px_tool = (\<lambda>_ _ _ _ _. answer),
      px_loads = (\<lambda>_. Some (redact (JObj sample_args))), px_str = (\<lambda>_. []), px_lock = None, px_ledger = True,
      px_ulid = (\<lambda>n. replicate n CHR ''x''), px_now = 0\<rparr>"

definition no_calls :: prepared_state where
  "no_calls = \<lparr>ps_ledger = [], ps_reserved = 0, ps_calls = []\<rparr>"

theorem replay_runs_what_was_reviewed_witness:
  "\<exists>input. ps_calls (snd (execute_prepared_action (sample_prepared_ctx (Inr (JObj []))) sample_prepared no_calls))
     = [\<lparr>pc_tool_name = ''gmail_send'', pc_tool_input = input, pc_user_id = ''u'', pc_workspace_id = ''ws''\<rparr>]"
proof -
  have c: "ps_calls (snd (execute_prepared_action (sample_prepared_ctx (Inr (JObj []))) sample_prepared no_calls)) \<noteq> ps_calls no_calls"
    by code_simp
  have t: "jget (dict_or_empty (ap_artifact_refs sample_prepared)) ''tool_name'' = JStr ''gmail_send''"
    "ap_user_id sample_prepared = ''u''" "ap_workspace_id sample_prepared = ''ws''" "ps_calls no_calls = []"
    by (simp_all add: sample_prepared_def no_calls_def)
  from replay_runs_what_was_reviewed[OF c] show ?thesis unfolding t Let_def by auto
qed

theorem prepared_action_fires_once_witness:
  "ps_calls (snd (execute_prepared_action (sample_prepared_ctx (Inl ''down'')) sample_prepared
     (snd (execute_prepared_action (sample_prepared_ctx (Inr (JObj []))) sample_prepared no_calls))))
   = ps_calls (snd (execute_prepared_action (sample_prepared_ctx (Inr (JObj []))) sample_prepared no_calls))"
proof -
  let ?cx = "sample_prepared_ctx (Inr (JObj []))"
  have "fst (execute_prepared_action ?cx sample_prepared no_calls) = Inr \<lparr>pa_outcome = Executed, pa_result = JObj [], pa_error = None\<rparr>"
    by code_simp
  then have 1: "execute_prepared_action ?cx sample_prepared no_calls
      = (Inr \<lparr>pa_outcome = Executed, pa_result = JObj [], pa_error = None\<rparr>, snd (execute_prepared_action ?cx sample_prepared no_calls))"
    by (metis prod.collapse)
  from prepared_action_fires_once[OF 1, of "sample_prepared_ctx (Inl ''down'')" sample_prepared
      "snd (execute_prepared_action ?cx sample_prepared no_calls)"]
  show ?thesis by (simp add: sample_prepared_ctx_def no_calls_def)
qed

end
