(* ===== verification/Approvals.thy ===== *)
theory Approvals
  imports Run_Properties Prepared
begin

text \<open>
  Deciding approvals: the approve, reject and edit handlers of \<open>api/routes_approvals.py\<close>, and the expiry
  of unanswered approvals in \<open>services/heartbeat.py\<close>. A handler works on the approvals table, the rows of
  the run the approval belongs to (\<open>exec_db\<close>), the trust table, the event log, the prepared-action state
  and the runs it queues. The row of an approval is locked by \<open>FOR UPDATE\<close>, so two decisions do not
  overlap. An HTTP error rolls the request's session back to its last commit. The transaction that
  queues a run may fail (\<open>as_queue_error\<close>). Audit rows, embeddings and the SSE copies are left out;
  the rules made of a confirmed filter proposal (\<open>services/filter_rules.py\<close>) are left out and kept as the
  list of proposals handed over.
\<close>

section \<open>State\<close>

record api_db =
  ad_exec :: exec_db
  ad_prepared :: prepared_state
  ad_resolved :: "runtime_event list"
  ad_proposals :: "string list"
  ad_queued :: "(plan \<times> task_run \<times> task_step list) list"

record api_services =
  as_now :: instant
  as_exec :: exec_services
  as_prepared :: prepared_ctx
  as_queue_error :: "string option"
  as_ulid :: "nat \<Rightarrow> string"

type_synonym http_error = "nat \<times> string"

definition ad_approvals :: "api_db \<Rightarrow> approval list" where
  "ad_approvals db = w_approvals (xd_world (ad_exec db))"

definition put_approval :: "approval \<Rightarrow> api_db \<Rightarrow> api_db" where
  "put_approval ap db =
     (let e = ad_exec db; w = xd_world e
      in db\<lparr>ad_exec := e\<lparr>xd_world := w\<lparr>w_approvals := row_update ap_approval_id (ap_approval_id ap) (\<lambda>_. ap) (w_approvals w)\<rparr>\<rparr>\<rparr>)"

section \<open>Which approval, and whether it may still be decided\<close>

definition find_approval :: "string \<Rightarrow> string \<Rightarrow> string \<Rightarrow> approval list \<Rightarrow> approval option" where
  "find_approval aid user ws as =
     row_find (\<lambda>a. (ap_approval_id a, ap_user_id a, ap_workspace_id a)) (aid, user, ws) as"

definition satisfying :: "string \<Rightarrow> string list" where
  "satisfying intended = (if intended = ''approve'' then [''approved'', ''executed''] else [''rejected''])"

text \<open>The row marked expired by the 410 branch is lost: the error rolls the session back.\<close>

definition get_approval :: "instant \<Rightarrow> string \<Rightarrow> string \<Rightarrow> string \<Rightarrow> string \<Rightarrow> approval list \<Rightarrow> http_error + approval" where
  "get_approval now aid user ws intended as =
     (case find_approval aid user ws as of
        None \<Rightarrow> Inl (404, ''Approval '' @ aid @ '' not found'')
      | Some ap \<Rightarrow>
          if ap_status ap = ''pending'' \<and> (case ap_expires_at ap of None \<Rightarrow> False | Some t \<Rightarrow> t < now)
          then Inl (410, ''Approval has expired'')
          else if ap_status ap \<noteq> ''pending'' then
            (if ap_status ap \<in> set (satisfying intended) then Inr ap else Inl (400, ''Approval already '' @ ap_status ap))
          else Inr ap)"

definition is_chat_approval :: "approval \<Rightarrow> bool" where
  "is_chat_approval ap = (jget (dict_or_empty (ap_artifact_refs ap)) ''chat'' = JBool True)"

definition guard_not_chat_approval :: "approval \<Rightarrow> http_error + unit" where
  "guard_not_chat_approval ap =
     (if is_chat_approval ap
      then Inl (409, ''This approval belongs to a chat turn; resume it via POST /v1/muldro/chat/resume.'') else Inr ())"

definition decidable :: "api_services \<Rightarrow> string \<Rightarrow> string \<Rightarrow> string \<Rightarrow> string \<Rightarrow> api_db \<Rightarrow> http_error + approval" where
  "decidable sv aid user ws intended db =
     (case get_approval (as_now sv) aid user ws intended (ad_approvals db) of
        Inl e \<Rightarrow> Inl e
      | Inr ap \<Rightarrow> (case guard_not_chat_approval ap of Inl e \<Rightarrow> Inl e | Inr _ \<Rightarrow> Inr ap))"

definition is_prepared :: "approval \<Rightarrow> bool" where
  "is_prepared ap = (jget (dict_or_empty (ap_artifact_refs ap)) ''prepared'' = JBool True)"

definition resolved_event :: "string \<Rightarrow> string option \<Rightarrow> approval \<Rightarrow> runtime_event" where
  "resolved_event decision reason ap =
     \<lparr>re_run_id = ap_run_id ap, re_step_id = ap_step_id ap, re_event_type = ''approval_resolved'',
      re_payload = [(''approval_id'', JStr (ap_approval_id ap)), (''decision'', JStr decision), (''reason'', opt_json reason)]\<rparr>"

definition decided :: "api_services \<Rightarrow> string \<Rightarrow> string \<Rightarrow> string option \<Rightarrow> approval \<Rightarrow> approval" where
  "decided sv status user reason ap =
     ap\<lparr>ap_status := status, ap_decided_at := Some (as_now sv), ap_decision_reason := reason, ap_approved_by := Some user\<rparr>"

text \<open>\<open>approval.run_id or approval.execution_id\<close>.\<close>

definition effective_run_id :: "approval \<Rightarrow> string" where
  "effective_run_id ap = str_or (ap_run_id ap) (ap_execution_id ap)"

section \<open>Queueing a run for the scheduler\<close>

text \<open>\<open>_mark_run_failed_after_resume\<close>, on the rows the rollback left.\<close>

definition mark_run_failed_after_resume :: "api_services \<Rightarrow> string \<Rightarrow> string \<Rightarrow> exec_db \<Rightarrow> exec_db" where
  "mark_run_failed_after_resume sv rid e db =
     (let r = the_run db; s = xs_services (as_exec sv); (code, message) = sv_classify s e
      in if run_id r = rid \<and> run_status r \<notin> {RCompleted, RFailed, RCancelled}
         then (case transition_run r RFailed False of
                 Inl _ \<Rightarrow> db
               | Inr (r', _) \<Rightarrow> db\<lparr>xd_world := (xd_world db)\<lparr>w_run :=
                   r'\<lparr>run_error := Some [(''resume_failed'', JStr message), (''error_code'', JStr code),
                                       (''correlation_id'', JStr (sv_correlation s))],
                     run_completed_at := Some (as_now sv)\<rparr>\<rparr>\<rparr>)
         else db)"

definition tag_for_resume :: "string \<Rightarrow> exec_db \<Rightarrow> exec_db" where
  "tag_for_resume rid db =
     (if run_id (the_run db) = rid
      then db\<lparr>xd_world := (xd_world db)\<lparr>w_run := (the_run db)\<lparr>run_source := ''approval_resume''\<rparr>\<rparr>\<rparr> else db)"

text \<open>A step that waits for the approval, and only such a step, is moved; \<open>transition_step\<close> may raise.\<close>

definition move_waiting_step :: "step_status \<Rightarrow> string \<Rightarrow> string option \<Rightarrow> unit exec" where
  "move_waiting_step st rid sid = (\<lambda>db.
     case sid of
       None \<Rightarrow> (Inr (), db)
     | Some i \<Rightarrow>
         (case row_find (\<lambda>s. (step_id s, step_run_id s)) (i, rid) (w_steps (xd_world db)) of
            None \<Rightarrow> (Inr (), db)
          | Some s \<Rightarrow> if step_status s = SWaitingApproval then on_world (move_step i st) db else (Inr (), db)))"

definition exn_text :: "api_services \<Rightarrow> exec_exn \<Rightarrow> string" where
  "exn_text sv e = (case e of ValueError m \<Rightarrow> m | Dag d \<Rightarrow> xs_exn_text (as_exec sv) d)"

text \<open>The transaction that queues a run; an exception in it rolls it back and fails the run.\<close>

definition queue_run :: "api_services \<Rightarrow> string \<Rightarrow> unit exec \<Rightarrow> exec_db \<Rightarrow> exec_db" where
  "queue_run sv rid act db =
     (case as_queue_error sv of
        Some e \<Rightarrow> mark_run_failed_after_resume sv rid e db
      | None \<Rightarrow>
          (case act db of
             (Inl e, _) \<Rightarrow> mark_run_failed_after_resume sv rid (exn_text sv e) db
           | (Inr _, db1) \<Rightarrow> tag_for_resume rid db1))"

definition FILTER_PROPOSAL_TYPE :: string where
  "FILTER_PROPOSAL_TYPE = ''filter_proposal''"

text \<open>The background run of an approved tool.\<close>

definition tool_plan :: "api_services \<Rightarrow> approval \<Rightarrow> plan" where
  "tool_plan sv ap =
     (let refs = dict_or_empty (ap_artifact_refs ap); tool = jstr (jget refs ''tool_name'')
      in \<lparr>pl_plan_id = ''plan_'' @ as_ulid sv 0, pl_goal = ''Execute approved tool: '' @ tool, pl_reasoning_summary = None,
          pl_risk_level = None, pl_execution_mode = [], pl_status = ''created'',
          pl_tasks = [\<lparr>pt_task_id = ''ptask_'' @ as_ulid sv 1, pt_task_type = Some tool,
                       pt_input_data = Some (obj_items (jget_default refs ''tool_params'' (JObj []))), pt_depends_on = JNull\<rparr>]\<rparr>)"

definition tool_run :: "api_services \<Rightarrow> string \<Rightarrow> string \<Rightarrow> task_run" where
  "tool_run sv user ws =
     \<lparr>run_id = ''run_'' @ as_ulid sv 2, run_plan_id = Some (''plan_'' @ as_ulid sv 0), run_user_id = user, run_workspace_id = ws,
      run_status = RPending, run_source = ''approval_resume'', run_execution_mode = None, run_current_step_ids = None,
      run_checkpoint = None, run_started_at = None, run_completed_at = None, run_error = None\<rparr>"

definition queue_tool :: "api_services \<Rightarrow> string \<Rightarrow> string \<Rightarrow> approval \<Rightarrow> api_db \<Rightarrow> api_db" where
  "queue_tool sv user ws ap db =
     (if as_queue_error sv \<noteq> None then db
      else (let p = tool_plan sv ap; r = tool_run sv user ws
            in db\<lparr>ad_queued := ad_queued db @ [(p, r, populate_steps (\<lambda>i. as_ulid sv (3 + i)) r (pl_tasks p))]\<rparr>))"

definition queue_approved :: "api_services \<Rightarrow> string \<Rightarrow> string \<Rightarrow> approval \<Rightarrow> api_db \<Rightarrow> api_db" where
  "queue_approved sv user ws ap db =
     (let run = the_run (ad_exec db); there = (run_id run = effective_run_id ap)
      in if str_or (ap_run_id ap) [] \<noteq> [] then
           (let rid = str_or (ap_run_id ap) []
            in db\<lparr>ad_exec := queue_run sv rid (move_waiting_step SRunning rid (ap_step_id ap)) (ad_exec db)\<rparr>)
         else if there \<and> str_or (run_plan_id run) [] \<noteq> [] then
           db\<lparr>ad_exec := queue_run sv (run_id run) (ret ()) (ad_exec db)\<rparr>
         else if truthy (jget (dict_or_empty (ap_artifact_refs ap)) ''tool_name'') then queue_tool sv user ws ap db
         else db)"

section \<open>Approve\<close>

definition approve_action ::
  "api_services \<Rightarrow> string \<Rightarrow> string option \<Rightarrow> string \<Rightarrow> string \<Rightarrow> api_db \<Rightarrow> (http_error + approval) \<times> api_db" where
  "approve_action sv aid reason user ws db =
     (case decidable sv aid user ws ''approve'' db of
        Inl e \<Rightarrow> (Inl e, db)
      | Inr ap \<Rightarrow>
          if ap_status ap \<in> {''approved'', ''executed''} then (Inr ap, db)
          else
            (let decision_type = (if str_or reason [] \<noteq> [] then ''modified'' else ''approved'');
                 ap1 = (decided sv ''approved'' user reason ap)\<lparr>ap_artifact_refs :=
                   Some (dict_merge (dict_or_empty (ap_artifact_refs ap)) [(''decision_type'', JStr decision_type)])\<rparr>;
                 db1 = put_approval ap1 (db\<lparr>ad_resolved := ad_resolved db @ [resolved_event ''approved'' reason ap]\<rparr>);
                 db2 = (if ap_approval_type ap = FILTER_PROPOSAL_TYPE
                        then db1\<lparr>ad_proposals := ad_proposals db1 @ [aid]\<rparr> else db1)
             in if is_prepared ap1 then
                  (case run_prepared_action (as_prepared sv) ap1 (ad_prepared db2) of
                     (r, ap2, s) \<Rightarrow>
                       (let db3 = put_approval ap2 (db2\<lparr>ad_prepared := s\<rparr>)
                        in case r of Inl e \<Rightarrow> (Inl e, db3) | Inr _ \<Rightarrow> (Inr ap2, db3)))
                else (Inr ap1, queue_approved sv user ws ap1 db2)))"

section \<open>Reject\<close>

text \<open>The waiting step first, outside every \<open>try\<close>; then \<open>cancel_run\<close>, and should that raise, the run's column alone.\<close>

definition cancel_for_rejection :: "api_services \<Rightarrow> approval \<Rightarrow> unit exec" where
  "cancel_for_rejection sv ap = (\<lambda>db.
     let rid = effective_run_id ap
     in if run_id (the_run db) = rid \<and> run_status (the_run db) \<in> {RAwaitingApproval, RRunning, RPaused} then
          (case move_waiting_step SCancelled rid (ap_step_id ap) db of
             (Inl e, db1) \<Rightarrow> (Inl e, db1)
           | (Inr _, db1) \<Rightarrow>
               (case cancel_run (as_exec sv) rid db1 of
                  (Inr _, db2) \<Rightarrow> (Inr (), db2)
                | (Inl _, db2) \<Rightarrow> on_world (move_run RCancelled) db2))
        else (Inr (), db))"

text \<open>What the client sees of an unhandled exception.\<close>

definition INTERNAL_ERROR :: http_error where
  "INTERNAL_ERROR = (500, ''Something went wrong. Please try again.'')"

definition record_rejection :: "api_services \<Rightarrow> string \<Rightarrow> approval \<Rightarrow> exec_db \<Rightarrow> exec_db" where
  "record_rejection sv ws ap db =
     (case rejected_capability (Some (ap_approval_type ap)) of
        None \<Rightarrow> db
      | Some c \<Rightarrow>
          (let w = xd_world db; now = as_now sv; risk = (if ap_risk_level ap = [] then ''low'' else ap_risk_level ap)
           in db\<lparr>xd_world := w\<lparr>w_trust := (w_trust w)\<lparr>td_states :=
                record_approval_decision now now now ws c risk ''rejected'' (td_states (w_trust w))\<rparr>\<rparr>\<rparr>))"

definition reject_action ::
  "api_services \<Rightarrow> string \<Rightarrow> string option \<Rightarrow> string \<Rightarrow> string \<Rightarrow> api_db \<Rightarrow> (http_error + approval) \<times> api_db" where
  "reject_action sv aid reason user ws db =
     (case decidable sv aid user ws ''reject'' db of
        Inl e \<Rightarrow> (Inl e, db)
      | Inr ap \<Rightarrow>
          if ap_status ap = ''rejected'' then (Inr ap, db)
          else
            (let ap1 = decided sv ''rejected'' user reason ap;
                 db1 = put_approval ap1 (db\<lparr>ad_resolved := ad_resolved db @ [resolved_event ''rejected'' reason ap]\<rparr>)
             in if is_prepared ap1 then (Inr ap1, db1)
                else
                  (case cancel_for_rejection sv ap1 (ad_exec db1) of
                     (Inl _, _) \<Rightarrow> (Inl INTERNAL_ERROR, db)
                   | (Inr _, e) \<Rightarrow> (Inr ap1, db1\<lparr>ad_exec := record_rejection sv ws ap1 e\<rparr>))))"

section \<open>Edit and expiry\<close>

definition edit_approval ::
  "string \<Rightarrow> string option \<Rightarrow> string option \<Rightarrow> string option \<Rightarrow> string \<Rightarrow> string \<Rightarrow> api_db \<Rightarrow> (http_error + approval) \<times> api_db" where
  "edit_approval aid title summary risk user ws db =
     (case find_approval aid user ws (ad_approvals db) of
        None \<Rightarrow> (Inl (404, ''Approval '' @ aid @ '' not found''), db)
      | Some ap \<Rightarrow>
          if ap_status ap \<noteq> ''pending'' then
            (Inl (400, ''Cannot edit approval in '' @ quoted (ap_status ap) @ '' state''), db)
          else
            (let ap1 = ap\<lparr>ap_title := opt_or title (ap_title ap),
                         ap_summary := (if summary = None then ap_summary ap else summary),
                         ap_risk_level := opt_or risk (ap_risk_level ap)\<rparr>
             in (Inr ap1, put_approval ap1 db)))"

text \<open>\<open>_expire_approvals\<close>: each pending approval of the user that is past its deadline, with its run.\<close>

definition is_expired :: "instant \<Rightarrow> string \<Rightarrow> approval \<Rightarrow> bool" where
  "is_expired now user ap =
     (ap_user_id ap = user \<and> ap_status ap = ''pending'' \<and> (case ap_expires_at ap of None \<Rightarrow> False | Some t \<Rightarrow> t < now))"

definition expire_one :: "instant \<Rightarrow> (instant \<Rightarrow> string) \<Rightarrow> approval \<Rightarrow> api_db \<Rightarrow> api_db" where
  "expire_one now iso_text ap db =
     (let db1 = put_approval (ap\<lparr>ap_status := ''expired'', ap_decided_at := Some now\<rparr>) db; r = the_run (ad_exec db1)
      in if ap_execution_id ap \<noteq> [] \<and> run_id r = ap_execution_id ap \<and> run_status r = RAwaitingApproval then
           (case transition_run r RCancelled False of
              Inl _ \<Rightarrow> db1
            | Inr (r', _) \<Rightarrow>
                db1\<lparr>ad_exec := (ad_exec db1)\<lparr>xd_world := (xd_world (ad_exec db1))\<lparr>w_run :=
                  r'\<lparr>run_completed_at := Some now, run_error := Some [(''type'', JStr ''approval_expired''),
                    (''message'', JStr (''Cancelled '' @ em_dash @ '' the approval this run was waiting on expired unanswered at ''
                       @ iso_text (opt_or (ap_expires_at ap) 0))),
                    (''approval_id'', JStr (ap_approval_id ap))]\<rparr>\<rparr>\<rparr>\<rparr>)
         else db1)"

definition expire_approvals :: "instant \<Rightarrow> (instant \<Rightarrow> string) \<Rightarrow> string \<Rightarrow> api_db \<Rightarrow> api_db" where
  "expire_approvals now iso_text user db = fold (expire_one now iso_text) (filter (is_expired now user) (ad_approvals db)) db"

section \<open>Decisions are final\<close>

lemma decidable_of:
  assumes "find_approval aid user ws (ad_approvals db) = Some ap"
  shows "decidable sv aid user ws intended db =
    (if ap_status ap = ''pending'' \<and> (case ap_expires_at ap of None \<Rightarrow> False | Some t \<Rightarrow> t < as_now sv)
     then Inl (410, ''Approval has expired'')
     else if ap_status ap \<noteq> ''pending'' \<and> ap_status ap \<notin> set (satisfying intended)
     then Inl (400, ''Approval already '' @ ap_status ap)
     else case guard_not_chat_approval ap of Inl e \<Rightarrow> Inl e | Inr _ \<Rightarrow> Inr ap)"
  using assms by (simp add: decidable_def get_approval_def)

lemma decidable_found:
  assumes "decidable sv aid user ws intended db = Inr ap"
  shows "find_approval aid user ws (ad_approvals db) = Some ap \<and> \<not> is_chat_approval ap
    \<and> (ap_status ap = ''pending'' \<or> ap_status ap \<in> set (satisfying intended))
    \<and> ap_approval_id ap = aid"
  using assms
  by (auto simp: decidable_def get_approval_def guard_not_chat_approval_def find_approval_def
      split: option.splits if_splits sum.splits dest!: row_find_SomeD)

lemma refused_decision:
  "decidable sv aid user ws ''approve'' db = Inl e \<Longrightarrow> approve_action sv aid reason user ws db = (Inl e, db)"
  "decidable sv aid user ws ''reject'' db = Inl e \<Longrightarrow> reject_action sv aid reason user ws db = (Inl e, db)"
  "decidable sv aid user ws ''approve'' db = Inr ap \<Longrightarrow> ap_status ap \<in> {''approved'', ''executed''} \<Longrightarrow>
     approve_action sv aid reason user ws db = (Inr ap, db)"
  "decidable sv aid user ws ''reject'' db = Inr ap \<Longrightarrow> ap_status ap = ''rejected'' \<Longrightarrow>
     reject_action sv aid reason user ws db = (Inr ap, db)"
  by (simp_all add: approve_action_def reject_action_def)

text \<open>C30. A decision is final: once an approval is no longer pending, no approval, rejection or edit of it
  changes anything in the database. Approving what was approved or executed returns the row as it is;
  any other second decision is refused.\<close>

theorem decided_is_final:
  assumes "find_approval aid user ws (ad_approvals db) = Some ap" and "ap_status ap \<noteq> ''pending''"
  shows "snd (approve_action sv aid reason user ws db) = db \<and> snd (reject_action sv aid reason user ws db) = db
    \<and> snd (edit_approval aid title summary risk user ws db) = db
    \<and> fst (approve_action sv aid reason user ws db) =
        (if ap_status ap \<notin> {''approved'', ''executed''} then Inl (400, ''Approval already '' @ ap_status ap)
         else case guard_not_chat_approval ap of Inl e \<Rightarrow> Inl e | Inr _ \<Rightarrow> Inr ap)
    \<and> fst (reject_action sv aid reason user ws db) =
        (if ap_status ap \<noteq> ''rejected'' then Inl (400, ''Approval already '' @ ap_status ap)
         else case guard_not_chat_approval ap of Inl e \<Rightarrow> Inl e | Inr _ \<Rightarrow> Inr ap)"
proof -
  note d = decidable_of[OF assms(1), unfolded satisfying_def]
  have a: "approve_action sv aid reason user ws db = ((if ap_status ap \<notin> {''approved'', ''executed''} then Inl (400, ''Approval already '' @ ap_status ap)
         else case guard_not_chat_approval ap of Inl e \<Rightarrow> Inl e | Inr _ \<Rightarrow> Inr ap), db)"
  proof (cases "decidable sv aid user ws ''approve'' db")
    case (Inl e)
    from refused_decision(1)[OF Inl] Inl show ?thesis using d[of sv "''approve''"] assms(2) by auto
  next
    case (Inr ap')
    then have "ap' = ap" "ap_status ap \<in> {''approved'', ''executed''}" using d[of sv "''approve''"] assms(2) by (auto split: if_splits sum.splits)
    with refused_decision(3)[OF Inr] Inr show ?thesis using d[of sv "''approve''"] assms(2) by auto
  qed
  have r: "reject_action sv aid reason user ws db = ((if ap_status ap \<noteq> ''rejected'' then Inl (400, ''Approval already '' @ ap_status ap)
         else case guard_not_chat_approval ap of Inl e \<Rightarrow> Inl e | Inr _ \<Rightarrow> Inr ap), db)"
  proof (cases "decidable sv aid user ws ''reject'' db")
    case (Inl e)
    from refused_decision(2)[OF Inl] Inl show ?thesis using d[of sv "''reject''"] assms(2) by auto
  next
    case (Inr ap')
    then have "ap' = ap" "ap_status ap = ''rejected''" using d[of sv "''reject''"] assms(2) by (auto split: if_splits sum.splits)
    with refused_decision(4)[OF Inr] Inr show ?thesis using d[of sv "''reject''"] assms(2) by auto
  qed
  show ?thesis unfolding a r using assms by (simp add: edit_approval_def)
qed

text \<open>What cannot be decided here is refused without a trace: an approval that belongs to a chat turn, one
  past its deadline, and one of another user or workspace.\<close>

lemma undecidable_is_refused:
  assumes "case find_approval aid user ws (ad_approvals db) of None \<Rightarrow> True
     | Some ap \<Rightarrow> is_chat_approval ap \<or> ap_status ap = ''pending'' \<and> (case ap_expires_at ap of None \<Rightarrow> False | Some t \<Rightarrow> t < as_now sv)"
  shows "\<exists>e1 e2. approve_action sv aid reason user ws db = (Inl e1, db) \<and> reject_action sv aid reason user ws db = (Inl e2, db)
    \<and> fst e1 \<in> {400, 404, 409, 410} \<and> fst e2 \<in> {400, 404, 409, 410}"
proof -
  have "\<exists>e. decidable sv aid user ws d db = Inl e \<and> fst e \<in> {400, 404, 409, 410}" for d
    using assms by (auto simp: decidable_def get_approval_def guard_not_chat_approval_def split: option.splits)
  from this[of "''approve''"] this[of "''reject''"] show ?thesis
    using refused_decision(1,2) by blast
qed

section \<open>What a decision changes\<close>

lemma put_approval_frame [simp]:
  "the_run (ad_exec (put_approval ap db)) = the_run (ad_exec db)"
  "w_steps (xd_world (ad_exec (put_approval ap db))) = w_steps (xd_world (ad_exec db))"
  "w_trust (xd_world (ad_exec (put_approval ap db))) = w_trust (xd_world (ad_exec db))"
  "w_actions (xd_world (ad_exec (put_approval ap db))) = w_actions (xd_world (ad_exec db))"
  "ad_queued (put_approval ap db) = ad_queued db" "ad_prepared (put_approval ap db) = ad_prepared db"
  "ad_proposals (put_approval ap db) = ad_proposals db"
  by (simp_all add: put_approval_def the_run_def Let_def)

lemma put_approval_rows: "ad_approvals (put_approval ap db) = row_update ap_approval_id (ap_approval_id ap) (\<lambda>_. ap) (ad_approvals db)"
  by (simp add: put_approval_def ad_approvals_def Let_def)

lemma row_find_owned:
  "\<forall>s \<in> set rs. step_run_id s = rid \<Longrightarrow> row_find (\<lambda>s. (step_id s, step_run_id s)) (i, rid) rs = row_find step_id i rs"
  by (induction rs) auto

text \<open>The steps that wait for an approval.\<close>

abbreviation waits_for :: "string option \<Rightarrow> task_step \<Rightarrow> bool" where
  "waits_for sid s \<equiv> sid = Some (step_id s) \<and> step_status s = SWaitingApproval"

text \<open>Which transitions a waiting step has decides what a decision can do to it.\<close>

lemma move_waiting_step_run:
  assumes "distinct (map step_id (w_steps (xd_world db)))" and "\<forall>s \<in> set (w_steps (xd_world db)). step_run_id s = rid"
  shows "move_waiting_step st rid sid db =
    (let waits = (\<lambda>s. sid = Some (step_id s) \<and> step_status s = SWaitingApproval)
     in if (\<exists>s \<in> set (w_steps (xd_world db)). waits s)
        then if st \<in> {SRunning, SSkipped}
             then (Inr (), db\<lparr>xd_world := (xd_world db)\<lparr>w_steps := map (\<lambda>s. if waits s then s\<lparr>step_status := st\<rparr> else s) (w_steps (xd_world db))\<rparr>\<rparr>)
             else (fst (move_waiting_step st rid sid db), db)
        else (Inr (), db))
    \<and> ((\<exists>e. fst (move_waiting_step st rid sid db) = Inl e) =
        (st \<notin> {SRunning, SSkipped} \<and> (\<exists>s \<in> set (w_steps (xd_world db)). sid = Some (step_id s) \<and> step_status s = SWaitingApproval)))"
proof (cases sid)
  case (Some i)
  have find: "row_find (\<lambda>s. (step_id s, step_run_id s)) (j, rid) (w_steps (xd_world db)) = row_find step_id j (w_steps (xd_world db))" for j
    using assms(2) by (rule row_find_owned)
  show ?thesis
  proof (cases "row_find step_id i (w_steps (xd_world db))")
    case None
    moreover from None have "i \<notin> step_id ` set (w_steps (xd_world db))" by (simp add: row_find_None_iff)
    ultimately show ?thesis using Some find by (auto simp: move_waiting_step_def)
  next
    case (Some s)
    have only: "t = s" if "t \<in> set (w_steps (xd_world db))" "step_id t = i" for t
      using that Some assms(1) by (metis option.inject row_find_Some_iff_distinct)
    have s: "s \<in> set (w_steps (xd_world db))" "step_id s = i" using row_find_SomeD[OF Some] by auto
    have upd: "row_update step_id i (\<lambda>s. s\<lparr>step_status := st\<rparr>) (w_steps (xd_world db)) =
        map (\<lambda>t. if i = step_id t \<and> step_status t = SWaitingApproval then t\<lparr>step_status := st\<rparr> else t) (w_steps (xd_world db))"
      if "step_status s = SWaitingApproval"
      using that only by (auto simp: row_update_def)
    show ?thesis
    proof (cases "step_status s = SWaitingApproval")
      case True
      with s have w: "\<exists>t \<in> set (w_steps (xd_world db)). i = step_id t \<and> step_status t = SWaitingApproval" by auto
      show ?thesis
        using Some \<open>sid = Some i\<close> find True w upd[OF True]
        by (auto simp: move_waiting_step_def on_world_def move_step_def andthen_def get_step_def set_step_def modify_def raise_def
            transition_step_def status_tables)
    next
      case False
      then have "\<not> (\<exists>t \<in> set (w_steps (xd_world db)). i = step_id t \<and> step_status t = SWaitingApproval)"
        using only by auto
      then show ?thesis
        using Some \<open>sid = Some i\<close> find False by (auto simp: move_waiting_step_def)
    qed
  qed
qed (simp add: move_waiting_step_def)

lemma move_waiting_step_cases:
  assumes "distinct (map step_id (w_steps (xd_world db)))" and "\<forall>s \<in> set (w_steps (xd_world db)). step_run_id s = rid"
  shows "\<not> (\<exists>s \<in> set (w_steps (xd_world db)). waits_for sid s) \<Longrightarrow> move_waiting_step st rid sid db = (Inr (), db)"
    and "\<exists>s \<in> set (w_steps (xd_world db)). waits_for sid s \<Longrightarrow> st \<in> {SRunning, SSkipped} \<Longrightarrow> move_waiting_step st rid sid db =
      (Inr (), db\<lparr>xd_world := (xd_world db)\<lparr>w_steps := map (\<lambda>s. if waits_for sid s then s\<lparr>step_status := st\<rparr> else s) (w_steps (xd_world db))\<rparr>\<rparr>)"
    and "\<exists>s \<in> set (w_steps (xd_world db)). waits_for sid s \<Longrightarrow> st \<notin> {SRunning, SSkipped} \<Longrightarrow>
      \<exists>e. move_waiting_step st rid sid db = (Inl e, db)"
proof -
  note run = move_waiting_step_run[OF assms, of st sid, unfolded Let_def]
  show "move_waiting_step st rid sid db = (Inr (), db)" if "\<not> (\<exists>s \<in> set (w_steps (xd_world db)). waits_for sid s)"
    by (rule trans[OF conjunct1[OF run]]) (rule if_not_P[OF that])
  show "move_waiting_step st rid sid db =
      (Inr (), db\<lparr>xd_world := (xd_world db)\<lparr>w_steps := map (\<lambda>s. if waits_for sid s then s\<lparr>step_status := st\<rparr> else s) (w_steps (xd_world db))\<rparr>\<rparr>)"
    if w: "\<exists>s \<in> set (w_steps (xd_world db)). waits_for sid s" and st: "st \<in> {SRunning, SSkipped}"
    by (rule trans[OF conjunct1[OF run]], subst if_P[OF w], rule if_P[OF st])
  show "\<exists>e. move_waiting_step st rid sid db = (Inl e, db)"
    if w: "\<exists>s \<in> set (w_steps (xd_world db)). waits_for sid s" and st: "st \<notin> {SRunning, SSkipped}"
  proof -
    from w st run obtain e where e: "fst (move_waiting_step st rid sid db) = Inl e" by blast
    have "move_waiting_step st rid sid db = (fst (move_waiting_step st rid sid db), db)"
      by (rule trans[OF conjunct1[OF run]], subst if_P[OF w], rule if_not_P[OF st])
    with e show ?thesis by simp
  qed
qed

lemma move_waiting_step_frame:
  "w_trust (xd_world (snd (move_waiting_step st rid sid db))) = w_trust (xd_world db)"
  "w_actions (xd_world (snd (move_waiting_step st rid sid db))) = w_actions (xd_world db)"
  "the_run (snd (move_waiting_step st rid sid db)) = the_run db"
  by (auto simp: move_waiting_step_def on_world_def move_step_def andthen_def get_step_def set_step_def raise_def modify_def the_run_def
      split: option.splits sum.splits prod.splits)

lemma queue_frame:
  "w_trust (xd_world (queue_run sv rid (ret ()) db)) = w_trust (xd_world db)"
  "w_trust (xd_world (queue_run sv rid (move_waiting_step st rid' sid) db)) = w_trust (xd_world db)"
proof -
  have m: "w_trust (xd_world (mark_run_failed_after_resume sv rid e db)) = w_trust (xd_world db)" for e
    by (simp add: mark_run_failed_after_resume_def Let_def split: prod.splits sum.splits)
  have t: "w_trust (xd_world (tag_for_resume rid db)) = w_trust (xd_world db)" for db
    by (simp add: tag_for_resume_def)
  show "w_trust (xd_world (queue_run sv rid (ret ()) db)) = w_trust (xd_world db)"
    by (simp add: queue_run_def ret_def m t split: option.splits)
  show "w_trust (xd_world (queue_run sv rid (move_waiting_step st rid' sid) db)) = w_trust (xd_world db)"
    using move_waiting_step_frame(1)[of st rid' sid db] by (auto simp: queue_run_def m t split: option.splits prod.splits sum.splits)
qed

lemma queue_approved_trust: "w_trust (xd_world (ad_exec (queue_approved sv user ws ap db))) = w_trust (xd_world (ad_exec db))"
  by (simp add: queue_approved_def queue_tool_def queue_frame Let_def)

lemma decided_fields:
  "ap_run_id (decided sv st user reason ap) = ap_run_id ap" "ap_step_id (decided sv st user reason ap) = ap_step_id ap"
  "ap_approval_type (decided sv st user reason ap) = ap_approval_type ap"
  "ap_risk_level (decided sv st user reason ap) = ap_risk_level ap"
  "is_prepared (decided sv st user reason ap) = is_prepared ap"
  "effective_run_id (decided sv st user reason ap) = effective_run_id ap"
  by (simp_all add: decided_def is_prepared_def effective_run_id_def)

text \<open>The run of a rejected approval is cancelled: \<open>cancel_run\<close> succeeds, so the fallback is not taken.\<close>

lemma cancel_for_rejection_run:
  assumes "distinct (map step_id (w_steps (xd_world db)))"
    and "\<forall>s \<in> set (w_steps (xd_world db)). step_run_id s = effective_run_id ap"
    and "run_id (the_run db) = effective_run_id ap" and "run_status (the_run db) \<in> {RAwaitingApproval, RRunning, RPaused}"
  shows "\<exists>s \<in> set (w_steps (xd_world db)). waits_for (ap_step_id ap) s \<Longrightarrow> \<exists>e e'. cancel_for_rejection sv ap db = (Inl e, e')"
    and "\<not> (\<exists>s \<in> set (w_steps (xd_world db)). waits_for (ap_step_id ap) s) \<Longrightarrow>
      \<exists>db'. cancel_for_rejection sv ap db = (Inr (), db') \<and> run_status (the_run db') = RCancelled
      \<and> w_steps (xd_world db') = map (\<lambda>s. case step_status s of
               SPending \<Rightarrow> s\<lparr>step_status := SSkipped\<rparr> | SReady \<Rightarrow> s\<lparr>step_status := SSkipped\<rparr>
             | SRunning \<Rightarrow> s\<lparr>step_status := SCancelled\<rparr> | _ \<Rightarrow> s) (w_steps (xd_world db))
      \<and> w_trust (xd_world db') = w_trust (xd_world db) \<and> w_actions (xd_world db') = w_actions (xd_world db)"
proof -
  assume "\<exists>s \<in> set (w_steps (xd_world db)). waits_for (ap_step_id ap) s"
  then obtain e where "move_waiting_step SCancelled (effective_run_id ap) (ap_step_id ap) db = (Inl e, db)"
    using move_waiting_step_cases(3)[OF assms(1,2), of "ap_step_id ap" SCancelled] by auto
  then show "\<exists>e e'. cancel_for_rejection sv ap db = (Inl e, e')"
    using assms(3,4) by (simp add: cancel_for_rejection_def Let_def)
next
  assume "\<not> (\<exists>s \<in> set (w_steps (xd_world db)). waits_for (ap_step_id ap) s)"
  then have "move_waiting_step SCancelled (effective_run_id ap) (ap_step_id ap) db = (Inr (), db)"
    by (rule move_waiting_step_cases(1)[OF assms(1,2)])
  moreover have "RCancelled \<in> set (allowed RUN_TRANSITIONS (run_status (the_run db)))"
    using assms(4) by (auto simp: status_tables)
  note cancel_run_allowed[OF assms(1,3) this, of "as_exec sv"]
  ultimately show "\<exists>db'. cancel_for_rejection sv ap db = (Inr (), db') \<and> run_status (the_run db') = RCancelled
      \<and> w_steps (xd_world db') = map (\<lambda>s. case step_status s of
               SPending \<Rightarrow> s\<lparr>step_status := SSkipped\<rparr> | SReady \<Rightarrow> s\<lparr>step_status := SSkipped\<rparr>
             | SRunning \<Rightarrow> s\<lparr>step_status := SCancelled\<rparr> | _ \<Rightarrow> s) (w_steps (xd_world db))
      \<and> w_trust (xd_world db') = w_trust (xd_world db) \<and> w_actions (xd_world db') = w_actions (xd_world db)"
    using assms(3,4) by (auto simp: cancel_for_rejection_def Let_def)
qed

lemma cancel_for_rejection_trust:
  assumes "distinct (map step_id (w_steps (xd_world db)))"
    and "\<forall>s \<in> set (w_steps (xd_world db)). step_run_id s = run_id (the_run db)"
    and "cancel_for_rejection sv ap db = (Inr u, e)"
  shows "w_trust (xd_world e) = w_trust (xd_world db)"
proof (cases "run_id (the_run db) = effective_run_id ap \<and> run_status (the_run db) \<in> {RAwaitingApproval, RRunning, RPaused}")
  case True
  then have run: "run_id (the_run db) = effective_run_id ap" "run_status (the_run db) \<in> {RAwaitingApproval, RRunning, RPaused}"
    by blast+
  have own: "\<forall>s \<in> set (w_steps (xd_world db)). step_run_id s = effective_run_id ap"
    using assms(2) run(1) by simp
  show ?thesis
  proof (cases "\<exists>s \<in> set (w_steps (xd_world db)). waits_for (ap_step_id ap) s")
    case True
    from cancel_for_rejection_run(1)[OF assms(1) own run True, of sv] assms(3) show ?thesis by simp
  next
    case False
    from cancel_for_rejection_run(2)[OF assms(1) own run False, of sv] assms(3) show ?thesis by auto
  qed
next
  case False
  then have "cancel_for_rejection sv ap db = (Inr (), db)"
    unfolding cancel_for_rejection_def Let_def by (rule if_not_P)
  with assms(3) show ?thesis by simp
qed

text \<open>The database of a decision, with the decision recorded.\<close>

abbreviation with_decision :: "api_services \<Rightarrow> string \<Rightarrow> string \<Rightarrow> string option \<Rightarrow> approval \<Rightarrow> api_db \<Rightarrow> api_db" where
  "with_decision sv st user reason ap db \<equiv>
     put_approval (decided sv st user reason ap) (db\<lparr>ad_resolved := ad_resolved db @ [resolved_event st reason ap]\<rparr>)"

lemma reject_action_run:
  assumes "decidable sv aid user ws ''reject'' db = Inr ap" and "ap_status ap \<noteq> ''rejected''" and "\<not> is_prepared ap"
  shows "reject_action sv aid reason user ws db =
    (case cancel_for_rejection sv (decided sv ''rejected'' user reason ap) (ad_exec (with_decision sv ''rejected'' user reason ap db)) of
       (Inl _, _) \<Rightarrow> (Inl INTERNAL_ERROR, db)
     | (Inr _, e) \<Rightarrow> (Inr (decided sv ''rejected'' user reason ap),
         (with_decision sv ''rejected'' user reason ap db)\<lparr>ad_exec := record_rejection sv ws (decided sv ''rejected'' user reason ap) e\<rparr>))"
  using assms by (simp add: reject_action_def decided_fields Let_def split: prod.splits sum.splits)

lemma record_rejection_frame:
  "w_run (xd_world (record_rejection sv ws a e)) = w_run (xd_world e)"
  "w_steps (xd_world (record_rejection sv ws a e)) = w_steps (xd_world e)"
  "w_actions (xd_world (record_rejection sv ws a e)) = w_actions (xd_world e)"
  by (simp_all add: record_rejection_def Let_def split: option.splits)

text \<open>C9. A step that waits for an approval cannot be rejected: \<open>transition_step\<close> has no way from
  waiting_approval to cancelled, the exception is outside the handler's \<open>try\<close>, and the request ends in an
  internal error with everything rolled back, so that the approval is still pending and the run still
  waits for it.\<close>

theorem waiting_step_blocks_rejection:
  assumes "decidable sv aid user ws ''reject'' db = Inr ap" and "ap_status ap = ''pending''" and "\<not> is_prepared ap"
    and "run_id (the_run (ad_exec db)) = effective_run_id ap"
    and "run_status (the_run (ad_exec db)) \<in> {RAwaitingApproval, RRunning, RPaused}"
    and "distinct (map step_id (w_steps (xd_world (ad_exec db))))"
    and "\<forall>s \<in> set (w_steps (xd_world (ad_exec db))). step_run_id s = effective_run_id ap"
    and "s \<in> set (w_steps (xd_world (ad_exec db)))" and "ap_step_id ap = Some (step_id s)" and "step_status s = SWaitingApproval"
  shows "reject_action sv aid reason user ws db = (Inl INTERNAL_ERROR, db)"
proof -
  let ?ap = "decided sv ''rejected'' user reason ap"
  let ?e = "ad_exec (with_decision sv ''rejected'' user reason ap db)"
  have "\<exists>s \<in> set (w_steps (xd_world ?e)). waits_for (ap_step_id ?ap) s"
    using assms(8-10) by (auto simp: decided_fields)
  then obtain e e' where "cancel_for_rejection sv ?ap ?e = (Inl e, e')"
    using cancel_for_rejection_run(1)[of ?e ?ap sv] assms(4-7) by (auto simp: decided_fields)
  then show ?thesis using assms(1,2,3) by (simp add: reject_action_run)
qed

text \<open>Where no step waits for it, a rejection ends the work it was asked for: the run is cancelled with
  its running steps, every step that had not started is skipped, and no action is called.\<close>

lemma rejected_run_is_cancelled:
  assumes "decidable sv aid user ws ''reject'' db = Inr ap" and "ap_status ap = ''pending''" and "\<not> is_prepared ap"
    and "run_id (the_run (ad_exec db)) = effective_run_id ap"
    and "run_status (the_run (ad_exec db)) \<in> {RAwaitingApproval, RRunning, RPaused}"
    and "distinct (map step_id (w_steps (xd_world (ad_exec db))))"
    and "\<forall>s \<in> set (w_steps (xd_world (ad_exec db))). step_run_id s = effective_run_id ap"
    and "\<forall>s \<in> set (w_steps (xd_world (ad_exec db))). ap_step_id ap = Some (step_id s) \<longrightarrow> step_status s \<noteq> SWaitingApproval"
  shows "\<exists>db'. reject_action sv aid reason user ws db = (Inr (decided sv ''rejected'' user reason ap), db')
    \<and> run_status (w_run (xd_world (ad_exec db'))) = RCancelled
    \<and> w_steps (xd_world (ad_exec db')) = map (\<lambda>s. case step_status s of
               SPending \<Rightarrow> s\<lparr>step_status := SSkipped\<rparr> | SReady \<Rightarrow> s\<lparr>step_status := SSkipped\<rparr>
             | SRunning \<Rightarrow> s\<lparr>step_status := SCancelled\<rparr> | _ \<Rightarrow> s) (w_steps (xd_world (ad_exec db)))
    \<and> w_actions (xd_world (ad_exec db')) = w_actions (xd_world (ad_exec db))"
proof -
  let ?ap = "decided sv ''rejected'' user reason ap"
  let ?e = "ad_exec (with_decision sv ''rejected'' user reason ap db)"
  have "\<not> (\<exists>s \<in> set (w_steps (xd_world ?e)). waits_for (ap_step_id ?ap) s)"
    using assms(8) by (simp add: decided_fields)
  then obtain e where e: "cancel_for_rejection sv ?ap ?e = (Inr (), e)" "run_status (the_run e) = RCancelled"
      "w_actions (xd_world e) = w_actions (xd_world ?e)"
      "w_steps (xd_world e) = map (\<lambda>s. case step_status s of
               SPending \<Rightarrow> s\<lparr>step_status := SSkipped\<rparr> | SReady \<Rightarrow> s\<lparr>step_status := SSkipped\<rparr>
             | SRunning \<Rightarrow> s\<lparr>step_status := SCancelled\<rparr> | _ \<Rightarrow> s) (w_steps (xd_world ?e))"
    using cancel_for_rejection_run(2)[of ?e ?ap sv] assms(4-7) by (auto simp: decided_fields)
  then show ?thesis
    using assms(1,2,3) by (simp add: reject_action_run record_rejection_frame the_run_def)
qed

text \<open>Approving a step of a run lets exactly that step go on: the waiting step becomes running, the run
  is handed to the scheduler by its source, its status still awaiting approval, and no other step, no
  action and no trust row changes.\<close>

lemma approved_step_is_released:
  assumes "decidable sv aid user ws ''approve'' db = Inr ap" and "ap_status ap = ''pending''" and "\<not> is_prepared ap"
    and "ap_run_id ap = Some (run_id (the_run (ad_exec db)))" and "run_id (the_run (ad_exec db)) \<noteq> []"
    and "as_queue_error sv = None" and "distinct (map step_id (w_steps (xd_world (ad_exec db))))"
    and "\<forall>s \<in> set (w_steps (xd_world (ad_exec db))). step_run_id s = run_id (the_run (ad_exec db))"
  shows "(let w = xd_world (ad_exec db); w' = xd_world (ad_exec (snd (approve_action sv aid reason user ws db)))
      in w_run w' = (w_run w)\<lparr>run_source := ''approval_resume''\<rparr>
       \<and> w_steps w' = map (\<lambda>s. if waits_for (ap_step_id ap) s then s\<lparr>step_status := SRunning\<rparr> else s) (w_steps w)
       \<and> w_actions w' = w_actions w \<and> w_trust w' = w_trust w)"
proof -
  let ?rid = "run_id (the_run (ad_exec db))"
  let ?moved = "map (\<lambda>s. if waits_for (ap_step_id ap) s then s\<lparr>step_status := SRunning\<rparr> else s)"
  have same: "?moved xs = xs" if "\<not> (\<exists>s \<in> set xs. waits_for (ap_step_id ap) s)" for xs
    using that by (auto intro!: map_idI)
  have moved: "\<exists>e'. move_waiting_step SRunning ?rid (ap_step_id ap) e = (Inr (), e') \<and> the_run e' = the_run e
      \<and> xd_world e' = (xd_world e)\<lparr>w_steps := ?moved (w_steps (xd_world e))\<rparr>"
    if e: "w_steps (xd_world e) = w_steps (xd_world (ad_exec db))" for e
  proof (cases "\<exists>s \<in> set (w_steps (xd_world e)). waits_for (ap_step_id ap) s")
    case True
    with assms(7,8) e move_waiting_step_cases(2)[of e ?rid "ap_step_id ap" SRunning] show ?thesis by (simp add: the_run_def)
  next
    case False
    have "xd_world e = (xd_world e)\<lparr>w_steps := ?moved (w_steps (xd_world e))\<rparr>"
      unfolding same[OF False] by simp
    moreover have "move_waiting_step SRunning ?rid (ap_step_id ap) e = (Inr (), e)"
      using assms(7,8) e by (intro move_waiting_step_cases(1) False) simp_all
    ultimately show ?thesis by blast
  qed
  have queued: "xd_world (ad_exec (queue_approved sv user ws ap1 db1)) =
      (xd_world (ad_exec db1))\<lparr>w_run := (the_run (ad_exec db1))\<lparr>run_source := ''approval_resume''\<rparr>,
         w_steps := ?moved (w_steps (xd_world (ad_exec db1)))\<rparr>"
    if "ap_run_id ap1 = Some ?rid" "ap_step_id ap1 = ap_step_id ap" "the_run (ad_exec db1) = the_run (ad_exec db)"
      "w_steps (xd_world (ad_exec db1)) = w_steps (xd_world (ad_exec db))" for ap1 db1
    using moved[OF that(4)] that assms(5,6)
    by (auto simp: queue_approved_def queue_run_def tag_for_resume_def str_or_def Let_def)
  have prep: "is_prepared (a\<lparr>ap_artifact_refs := Some (dict_merge (dict_or_empty (ap_artifact_refs ap)) [(''decision_type'', v)])\<rparr>)
      = is_prepared ap" for a v
    by (simp add: is_prepared_def jget_dict_merge)
  have "w_run (xd_world (ad_exec db)) = the_run (ad_exec db)" by (simp add: the_run_def)
  then show ?thesis
    using assms(1-4)
    by (simp add: approve_action_def prep queued decided_fields Let_def)
qed

text \<open>What a decision does to trust: approving changes no trust row, whatever kind of approval it is; a
  rejection that is recorded counts once, against the rejected capability at the approval's risk, when
  there is one and the action was not a prepared one, and changes no other row; a decision that is
  refused or fails changes none.\<close>

lemma decision_changes_trust:
  assumes "distinct (map step_id (w_steps (xd_world (ad_exec db))))"
    and "\<forall>s \<in> set (w_steps (xd_world (ad_exec db))). step_run_id s = run_id (the_run (ad_exec db))"
  shows "w_trust (xd_world (ad_exec (snd (approve_action sv aid reason user ws db)))) = w_trust (xd_world (ad_exec db))
    \<and> td_states (w_trust (xd_world (ad_exec (snd (reject_action sv aid reason user ws db))))) =
        (case (fst (reject_action sv aid reason user ws db), decidable sv aid user ws ''reject'' db) of
           (Inr _, Inr ap) \<Rightarrow>
             (case rejected_capability (Some (ap_approval_type ap)) of
                None \<Rightarrow> td_states (w_trust (xd_world (ad_exec db)))
              | Some c \<Rightarrow>
                  if ap_status ap = ''rejected'' \<or> is_prepared ap then td_states (w_trust (xd_world (ad_exec db)))
                  else record_approval_decision (as_now sv) (as_now sv) (as_now sv) ws c
                         (if ap_risk_level ap = [] then ''low'' else ap_risk_level ap) ''rejected''
                         (td_states (w_trust (xd_world (ad_exec db)))))
         | _ \<Rightarrow> td_states (w_trust (xd_world (ad_exec db))))"
proof (rule conjI)
  show "w_trust (xd_world (ad_exec (snd (approve_action sv aid reason user ws db)))) = w_trust (xd_world (ad_exec db))"
    by (auto simp: approve_action_def queue_approved_trust Let_def split: sum.splits prod.splits)
next
  note trust = cancel_for_rejection_trust
  show "td_states (w_trust (xd_world (ad_exec (snd (reject_action sv aid reason user ws db))))) =
        (case (fst (reject_action sv aid reason user ws db), decidable sv aid user ws ''reject'' db) of
           (Inr _, Inr ap) \<Rightarrow>
             (case rejected_capability (Some (ap_approval_type ap)) of
                None \<Rightarrow> td_states (w_trust (xd_world (ad_exec db)))
              | Some c \<Rightarrow>
                  if ap_status ap = ''rejected'' \<or> is_prepared ap then td_states (w_trust (xd_world (ad_exec db)))
                  else record_approval_decision (as_now sv) (as_now sv) (as_now sv) ws c
                         (if ap_risk_level ap = [] then ''low'' else ap_risk_level ap) ''rejected''
                         (td_states (w_trust (xd_world (ad_exec db)))))
         | _ \<Rightarrow> td_states (w_trust (xd_world (ad_exec db))))"
  proof (cases "decidable sv aid user ws ''reject'' db")
    case (Inr ap)
    show ?thesis
    proof (cases "ap_status ap = ''rejected'' \<or> is_prepared ap")
      case True
      then show ?thesis using Inr by (auto simp: reject_action_def decided_fields Let_def split: option.splits)
    next
      case False
      let ?e = "ad_exec (with_decision sv ''rejected'' user reason ap db)"
      let ?ap = "decided sv ''rejected'' user reason ap"
      show ?thesis
      proof (cases "cancel_for_rejection sv ?ap ?e")
        case (Pair r e)
        show ?thesis
        proof (cases r)
          case Inl' : (Inl x)
          then show ?thesis using Inr False Pair by (simp add: reject_action_run)
        next
          case Inr' : (Inr x)
          have "w_trust (xd_world e) = w_trust (xd_world (ad_exec db))"
            using trust[of ?e sv ?ap] Pair Inr' assms by simp
          then show ?thesis
            using Inr False Pair Inr' by (simp add: reject_action_run record_rejection_def decided_fields Let_def split: option.splits)
        qed
      qed
    qed
  qed (simp add: reject_action_def)
qed

section \<open>Expiry\<close>

lemma fold_row_update:
  assumes "\<And>x. key (f x) = key x"
  shows "distinct (map key xs) \<Longrightarrow> fold (\<lambda>x. row_update key (key x) (\<lambda>_. f x)) xs rs
    = map (\<lambda>r. case row_find key (key r) xs of None \<Rightarrow> r | Some x \<Rightarrow> f x) rs"
proof (induction xs arbitrary: rs)
  case (Cons x xs)
  then have "row_find key (key x) xs = None" by (simp add: row_find_None_iff)
  with Cons show ?case by (auto simp: row_update_def assms)
qed simp

lemma row_find_filter_own:
  "distinct (map key rs) \<Longrightarrow> r \<in> set rs \<Longrightarrow> row_find key (key r) (filter p rs) = (if p r then Some r else None)"
  by (induction rs) (auto simp: row_find_None_iff)

lemma expire_one_frame:
  "ad_approvals (expire_one now t ap db) = row_update ap_approval_id (ap_approval_id ap)
     (\<lambda>_. ap\<lparr>ap_status := ''expired'', ap_decided_at := Some now\<rparr>) (ad_approvals db)"
  "w_steps (xd_world (ad_exec (expire_one now t ap db))) = w_steps (xd_world (ad_exec db))"
  "w_actions (xd_world (ad_exec (expire_one now t ap db))) = w_actions (xd_world (ad_exec db))"
  "w_trust (xd_world (ad_exec (expire_one now t ap db))) = w_trust (xd_world (ad_exec db))"
  using put_approval_rows[of "ap\<lparr>ap_status := ''expired'', ap_decided_at := Some now\<rparr>" db]
  by (auto simp: expire_one_def Let_def ad_approvals_def split: sum.splits prod.splits)

text \<open>The expiry pass closes exactly the pending approvals of the user that are past their deadline, each
  once and with the time of the pass; every other approval keeps its row, and no step is touched, no
  action called and no trust row changed: silence is not counted as a rejection.\<close>

lemma expiry_closes_overdue_approvals:
  assumes "distinct (map ap_approval_id (ad_approvals db))"
  shows "ad_approvals (expire_approvals now t user db) =
      map (\<lambda>a. if is_expired now user a then a\<lparr>ap_status := ''expired'', ap_decided_at := Some now\<rparr> else a) (ad_approvals db)
    \<and> w_steps (xd_world (ad_exec (expire_approvals now t user db))) = w_steps (xd_world (ad_exec db))
    \<and> w_actions (xd_world (ad_exec (expire_approvals now t user db))) = w_actions (xd_world (ad_exec db))
    \<and> w_trust (xd_world (ad_exec (expire_approvals now t user db))) = w_trust (xd_world (ad_exec db))"
proof -
  have rows: "ad_approvals (fold (expire_one now t) xs db) = fold (\<lambda>a. row_update ap_approval_id (ap_approval_id a)
      (\<lambda>_. a\<lparr>ap_status := ''expired'', ap_decided_at := Some now\<rparr>)) xs (ad_approvals db)"
    and frame: "w_steps (xd_world (ad_exec (fold (expire_one now t) xs db))) = w_steps (xd_world (ad_exec db))
      \<and> w_actions (xd_world (ad_exec (fold (expire_one now t) xs db))) = w_actions (xd_world (ad_exec db))
      \<and> w_trust (xd_world (ad_exec (fold (expire_one now t) xs db))) = w_trust (xd_world (ad_exec db))" for xs
    by (induction xs arbitrary: db) (simp_all add: expire_one_frame)
  have "distinct (map ap_approval_id (filter (is_expired now user) (ad_approvals db)))"
    using assms by (simp add: distinct_map_filter)
  from fold_row_update[of ap_approval_id "\<lambda>a. a\<lparr>ap_status := ''expired'', ap_decided_at := Some now\<rparr>", OF _ this]
  have "ad_approvals (expire_approvals now t user db) =
      map (\<lambda>a. if is_expired now user a then a\<lparr>ap_status := ''expired'', ap_decided_at := Some now\<rparr> else a) (ad_approvals db)"
    using assms by (auto simp: expire_approvals_def rows row_find_filter_own)
  then show ?thesis using frame by (simp add: expire_approvals_def)
qed

section \<open>Samples\<close>

definition sample_approval :: "string option \<Rightarrow> approval" where
  "sample_approval sid =
     sample_prepared\<lparr>ap_execution_id := ''run_1'', ap_approval_type := ''step_execution'', ap_artifact_refs := None,
       ap_run_id := Some ''run_1'', ap_step_id := sid\<rparr>"

definition sample_api :: api_services where
  "sample_api =
     \<lparr>as_now = 0, as_exec = sample_exec, as_prepared = sample_prepared_ctx (Inr (JObj [])), as_queue_error = None,
      as_ulid = (\<lambda>n. replicate n CHR ''x'')\<rparr>"

text \<open>A run stopped at its first step, with its approval.\<close>

definition sample_api_db :: "string option \<Rightarrow> api_db" where
  "sample_api_db sid =
     \<lparr>ad_exec = (exec_state RAwaitingApproval [dag_step ''s1'' [] ''email.send'' SWaitingApproval, dag_step ''s2'' [''s1''] ''email.list'' SPending])
        \<lparr>xd_world := ((dag_world [dag_step ''s1'' [] ''email.send'' SWaitingApproval, dag_step ''s2'' [''s1''] ''email.list'' SPending])
          \<lparr>w_run := (dag_run RAwaitingApproval)\<lparr>run_plan_id := Some ''plan_1''\<rparr>, w_approvals := [sample_approval sid]\<rparr>)\<rparr>,
      ad_prepared = no_calls, ad_resolved = [], ad_proposals = [], ad_queued = []\<rparr>"

lemma sample_decidable: "decidable sample_api ''apr_1'' ''u'' ''ws'' d (sample_api_db sid) = Inr (sample_approval sid)"
  by (simp add: decidable_def get_approval_def find_approval_def ad_approvals_def sample_api_db_def guard_not_chat_approval_def
      is_chat_approval_def sample_approval_def sample_prepared_def)

lemmas sample_api_simps = sample_api_db_def sample_approval_def sample_prepared_def sample_api_def is_prepared_def effective_run_id_def
  the_run_def dag_world_def dag_run_def dag_step_def exec_state_def str_or_def

theorem waiting_step_blocks_rejection_witness:
  "reject_action sample_api ''apr_1'' None ''u'' ''ws'' (sample_api_db (Some ''s1'')) = (Inl INTERNAL_ERROR, sample_api_db (Some ''s1''))"
  by (rule waiting_step_blocks_rejection[OF sample_decidable, of _ "dag_step ''s1'' [] ''email.send'' SWaitingApproval"])
    (simp_all add: sample_api_simps)

theorem decided_is_final_witness:
  "snd (approve_action sample_api ''apr_1'' None ''u'' ''ws'' (put_approval ((sample_approval None)\<lparr>ap_status := ''rejected''\<rparr>) (sample_api_db None)))
     = put_approval ((sample_approval None)\<lparr>ap_status := ''rejected''\<rparr>) (sample_api_db None)"
proof -
  let ?db = "put_approval ((sample_approval None)\<lparr>ap_status := ''rejected''\<rparr>) (sample_api_db None)"
  have "find_approval ''apr_1'' ''u'' ''ws'' (ad_approvals ?db) = Some ((sample_approval None)\<lparr>ap_status := ''rejected''\<rparr>)"
    by (simp add: find_approval_def put_approval_rows) (simp add: ad_approvals_def sample_api_simps row_update_def)
  from conjunct1[OF decided_is_final[OF this]] show ?thesis by simp
qed

end
