(* ===== verification/Run_Queue.thy ===== *)
theory Run_Queue
  imports Run_Properties
begin

text \<open>
  The scheduler's run queue: the background tick (\<open>services/scheduler/background_tasks_tick.py\<close>), the
  resume reaper of \<open>run_health_tick.py\<close>, the dead-letter queue (\<open>services/dead_letter.py\<close>) and its retry
  tick (\<open>dlq_tick.py\<close>). A database session is its working rows beside the rows of the last commit: a
  rollback returns to the latter, and expires every object loaded so far: reading an attribute of one
  then raises \<open>MissingGreenlet\<close>, as the comment in the tick says, and leaves the tick with nothing more
  committed. Driving one run is the graph executor's job and a parameter here: it raises, and then has
  committed nothing (\<open>execute_run\<close> and \<open>resume_run\<close> commit at their very end), or it returns with its rows
  committed, and tells whether it had to roll back on the way. Which rows another scheduler holds (\<open>SKIP LOCKED\<close>) is a parameter,
  as are re-dispatches outside the queue (perception, embeddings).
\<close>

section \<open>State\<close>

text \<open>The columns of \<open>task_runs\<close> that only the scheduler reads.\<close>

record queued_run = task_run +
  qr_retry_count :: int
  qr_max_retries :: int
  qr_created_at :: instant
  qr_updated_at :: instant

record dead_letter =
  dl_entry_id :: string
  dl_user_id :: string
  dl_workspace_id :: string
  dl_operation_type :: string
  dl_source_id :: "string option"
  dl_error_type :: string
  dl_error_message :: "string option"
  dl_payload :: "jdict option"
  dl_attempt_count :: int
  dl_max_attempts :: int
  dl_status :: string
  dl_created_at :: instant
  dl_last_attempted_at :: instant
  dl_resolved_at :: "instant option"

record queue_db =
  qd_runs :: "queued_run list"
  qd_letters :: "dead_letter list"

record session =
  se_work :: queue_db
  se_saved :: queue_db
  se_expired :: bool

definition open_session :: "queue_db \<Rightarrow> session" where
  "open_session db = \<lparr>se_work = db, se_saved = db, se_expired = False\<rparr>"

definition commit :: "session \<Rightarrow> session" where
  "commit s = s\<lparr>se_saved := se_work s\<rparr>"

definition rollback :: "session \<Rightarrow> session" where
  "rollback s = s\<lparr>se_work := se_saved s, se_expired := True\<rparr>"

text \<open>An exception: the name of its class, and its text.\<close>

type_synonym exn = "string \<times> string"

record scheduler =
  sc_now :: instant
  sc_locked :: "string \<Rightarrow> bool"
  sc_drive :: "string \<Rightarrow> bool \<Rightarrow> session \<Rightarrow> exn + queue_db \<times> bool" \<comment> \<open>run, resume or execute, session\<close>
  sc_classify :: "string \<Rightarrow> string \<times> string"
  sc_correlation :: string
  sc_ulid :: "queue_db \<Rightarrow> string"
  sc_elsewhere :: "dead_letter \<Rightarrow> bool"

definition on_work :: "(queue_db \<Rightarrow> queue_db) \<Rightarrow> session \<Rightarrow> session" where
  "on_work f s = s\<lparr>se_work := f (se_work s)\<rparr>"

definition set_queued :: "scheduler \<Rightarrow> string \<Rightarrow> (queued_run \<Rightarrow> queued_run) \<Rightarrow> queue_db \<Rightarrow> queue_db" where
  "set_queued sc rid f db = db\<lparr>qd_runs := row_update run_id rid (\<lambda>r. (f r)\<lparr>qr_updated_at := sc_now sc\<rparr>) (qd_runs db)\<rparr>"

section \<open>Dead letters\<close>

definition MAX_ERROR_MESSAGE :: nat where
  "MAX_ERROR_MESSAGE = 2000"

definition enqueue :: "scheduler \<Rightarrow> string \<Rightarrow> string \<Rightarrow> exn \<Rightarrow> string \<Rightarrow> jdict \<Rightarrow> string \<Rightarrow> queue_db \<Rightarrow> queue_db" where
  "enqueue sc user op err source payload ws db =
     db\<lparr>qd_letters := qd_letters db @
       [\<lparr>dl_entry_id = ''dlq_'' @ sc_ulid sc db, dl_user_id = user, dl_workspace_id = ws, dl_operation_type = op,
         dl_source_id = Some source, dl_error_type = (if fst err = [] then ''type'' else fst err),
         dl_error_message = (if snd err = [] then None else Some (take MAX_ERROR_MESSAGE (snd err))),
         dl_payload = Some payload, dl_attempt_count = 1, dl_max_attempts = 3, dl_status = ''pending'',
         dl_created_at = sc_now sc, dl_last_attempted_at = sc_now sc, dl_resolved_at = None\<rparr>]\<rparr>"

definition list_pending :: "string \<Rightarrow> string option \<Rightarrow> nat \<Rightarrow> string \<Rightarrow> queue_db \<Rightarrow> dead_letter list" where
  "list_pending user op limit ws db =
     take limit (rev (sort_key dl_created_at (filter (\<lambda>d. dl_user_id d = user \<and> dl_status d \<in> {''pending'', ''retrying''}
        \<and> (ws = [] \<or> dl_workspace_id d = ws) \<and> (op = None \<or> op = Some [] \<or> op = Some (dl_operation_type d))) (qd_letters db))))"

definition set_letter :: "string \<Rightarrow> (dead_letter \<Rightarrow> dead_letter) \<Rightarrow> queue_db \<Rightarrow> queue_db" where
  "set_letter eid f db = db\<lparr>qd_letters := row_update dl_entry_id eid f (qd_letters db)\<rparr>"

definition mark_retrying :: "instant \<Rightarrow> string \<Rightarrow> queue_db \<Rightarrow> bool \<times> queue_db" where
  "mark_retrying now eid db =
     (case row_find dl_entry_id eid (qd_letters db) of
        None \<Rightarrow> (False, db)
      | Some d \<Rightarrow>
          if dl_attempt_count d \<ge> dl_max_attempts d then (False, set_letter eid (\<lambda>d. d\<lparr>dl_status := ''exhausted''\<rparr>) db)
          else (True, set_letter eid (\<lambda>d. d\<lparr>dl_status := ''retrying'', dl_attempt_count := dl_attempt_count d + 1,
                  dl_last_attempted_at := now\<rparr>) db))"

definition mark_resolved :: "instant \<Rightarrow> string \<Rightarrow> queue_db \<Rightarrow> queue_db" where
  "mark_resolved now eid db = set_letter eid (\<lambda>d. d\<lparr>dl_status := ''resolved'', dl_resolved_at := Some now\<rparr>) db"

definition dlq_stats :: "string \<Rightarrow> string \<Rightarrow> queue_db \<Rightarrow> nat \<times> (string \<Rightarrow> nat) \<times> (string \<Rightarrow> nat)" where
  "dlq_stats user ws db =
     (let rows = filter (\<lambda>d. dl_user_id d = user \<and> (ws = [] \<or> dl_workspace_id d = ws)) (qd_letters db)
      in (length rows, \<lambda>s. length (filter (\<lambda>d. dl_status d = s) rows), \<lambda>t. length (filter (\<lambda>d. dl_operation_type d = t) rows)))"

section \<open>The background tick\<close>

definition BACKGROUND_BATCH :: nat where
  "BACKGROUND_BATCH = 3"

definition due_run :: "queued_run \<Rightarrow> bool" where
  "due_run r = (run_status r = RPending \<and> run_source r \<in> {''background'', ''approval_resume''}
     \<or> run_status r = RAwaitingApproval \<and> run_source r = ''approval_resume'')"

definition pick :: "scheduler \<Rightarrow> (queued_run \<Rightarrow> bool) \<Rightarrow> nat \<Rightarrow> queue_db \<Rightarrow> queued_run list" where
  "pick sc p limit db = take limit (filter (\<lambda>r. \<not> sc_locked sc (run_id r)) (sort_key qr_created_at (filter p (qd_runs db))))"

text \<open>\<open>transition_run\<close>, and the column alone where it raises.\<close>

definition move_or_force :: "run_status \<Rightarrow> queued_run \<Rightarrow> queued_run" where
  "move_or_force new r = r\<lparr>run_status := new\<rparr>"

definition bump :: "queued_run \<Rightarrow> queued_run" where
  "bump r = r\<lparr>qr_retry_count := qr_retry_count r + 1\<rparr>"

definition retries_allowed :: "queued_run \<Rightarrow> int" where
  "retries_allowed r = (if qr_max_retries r = 0 then 3 else qr_max_retries r)"

definition failed_for_good :: "scheduler \<Rightarrow> exn \<Rightarrow> queued_run \<Rightarrow> queued_run" where
  "failed_for_good sc e r =
     (let (code, message) = sc_classify sc (snd e)
      in (move_or_force RFailed r)\<lparr>run_error := Some [(''type'', JStr ''execution_error''), (''message'', JStr message),
           (''error_code'', JStr code), (''correlation_id'', JStr (sc_correlation sc))],
         run_completed_at := Some (sc_now sc)\<rparr>)"

definition back_to_queue :: "queued_run \<Rightarrow> queued_run" where
  "back_to_queue r =
     move_or_force RPending (if run_status r \<in> {RPending, RFailed} then r else move_or_force RFailed r)"

text \<open>After the rollback: the row as the last commit has it is charged one attempt.\<close>

definition charge :: "scheduler \<Rightarrow> queued_run \<Rightarrow> exn \<Rightarrow> queue_db \<Rightarrow> queue_db" where
  "charge sc r e db =
     (case row_find run_id (run_id r) (qd_runs db) of
        None \<Rightarrow> db
      | Some row \<Rightarrow>
          if qr_retry_count row + 1 \<ge> retries_allowed row then
            enqueue sc (run_user_id r) ''background_task'' e (run_id r)
              [(''plan_id'', opt_json (run_plan_id r)), (''run_id'', JStr (run_id r))] (run_workspace_id r)
              (set_queued sc (run_id r) (failed_for_good sc e \<circ> bump) db)
          else set_queued sc (run_id r) (back_to_queue \<circ> bump) db)"

definition run_one :: "scheduler \<Rightarrow> queued_run \<Rightarrow> session \<Rightarrow> session" where
  "run_one sc r s =
     (let resume = (run_status r = RAwaitingApproval);
          s1 = (if resume then on_work (set_queued sc (run_id r) (\<lambda>r. r\<lparr>run_source := ''background''\<rparr>)) s else s)
      in case sc_drive sc (run_id r) resume s1 of
           Inr (db, rolled_back) \<Rightarrow> \<lparr>se_work = db, se_saved = db, se_expired = rolled_back\<rparr>
         | Inl e \<Rightarrow> on_work (charge sc r e) (rollback s1))"

text \<open>The loop over the runs picked reads each run's columns outside the inner \<open>try\<close>.\<close>

fun tick_batch :: "scheduler \<Rightarrow> queued_run list \<Rightarrow> session \<Rightarrow> session" where
  "tick_batch sc [] s = commit s"
| "tick_batch sc (r # rs) s = (if se_expired s then s else tick_batch sc rs (run_one sc r s))"

definition background_tick :: "scheduler \<Rightarrow> queue_db \<Rightarrow> queue_db" where
  "background_tick sc db = se_saved (tick_batch sc (pick sc due_run BACKGROUND_BATCH db) (open_session db))"

section \<open>The resume reaper\<close>

definition RESUME_REAPER_STALE_AFTER_S :: int where
  "RESUME_REAPER_STALE_AFTER_S = 300"

definition RESUME_REAPER_MAX_ATTEMPTS :: int where
  "RESUME_REAPER_MAX_ATTEMPTS = 5"

definition RESUME_REAPER_BATCH_LIMIT :: nat where
  "RESUME_REAPER_BATCH_LIMIT = 5"

definition stale_resume :: "instant \<Rightarrow> queued_run \<Rightarrow> bool" where
  "stale_resume now r =
     (run_status r = RAwaitingApproval \<and> run_source r = ''approval_resume''
      \<and> qr_updated_at r < now - secs RESUME_REAPER_STALE_AFTER_S)"

definition unresumable :: "string" where
  "unresumable = ''Approved run could not be resumed after 5 reaper attempts''"

definition give_up :: "scheduler \<Rightarrow> queued_run \<Rightarrow> queue_db \<Rightarrow> queue_db" where
  "give_up sc r db =
     enqueue sc (run_user_id r) ''resume_reaper''
       (''resume_reaper_exhausted'', ''Approved run '' @ run_id r @ '' unresumable after reaper attempts'')
       (run_id r) [(''run_id'', JStr (run_id r))] (run_workspace_id r)
       (set_queued sc (run_id r) (\<lambda>r. (move_or_force RFailed r)\<lparr>run_error := Some [(''type'', JStr ''resume_reaper_exhausted''),
          (''message'', JStr unresumable)], run_completed_at := Some (sc_now sc)\<rparr>) db)"

text \<open>Each run's outcome is committed before the next one.\<close>

definition reap_one :: "scheduler \<Rightarrow> queued_run \<Rightarrow> session \<Rightarrow> session" where
  "reap_one sc r s =
     (let attempts = qr_retry_count r + 1
      in if attempts > RESUME_REAPER_MAX_ATTEMPTS then commit (on_work (give_up sc r) s)
         else
           (let s1 = on_work (set_queued sc (run_id r) (\<lambda>r. r\<lparr>qr_retry_count := attempts, run_source := ''background''\<rparr>)) s
            in case sc_drive sc (run_id r) True s1 of
                 Inr (db, rolled_back) \<Rightarrow> \<lparr>se_work = db, se_saved = db, se_expired = rolled_back\<rparr>
               | Inl _ \<Rightarrow> commit (on_work (set_queued sc (run_id r) (\<lambda>r. r\<lparr>qr_retry_count := attempts,
                   run_source := ''approval_resume''\<rparr>)) (rollback s1))))"

fun reap_batch :: "scheduler \<Rightarrow> queued_run list \<Rightarrow> session \<Rightarrow> session" where
  "reap_batch sc [] s = s"
| "reap_batch sc (r # rs) s = (if se_expired s then s else reap_batch sc rs (reap_one sc r s))"

definition reap_stale_resume_runs :: "scheduler \<Rightarrow> queue_db \<Rightarrow> queue_db" where
  "reap_stale_resume_runs sc db =
     se_saved (reap_batch sc (pick sc (stale_resume (sc_now sc)) RESUME_REAPER_BATCH_LIMIT db) (open_session db))"

section \<open>The retry of dead letters\<close>

definition dispatch_dlq_entry :: "scheduler \<Rightarrow> dead_letter \<Rightarrow> queue_db \<Rightarrow> bool \<times> queue_db" where
  "dispatch_dlq_entry sc d db =
     (if dl_operation_type d = ''background_task'' then
        (case jget (dict_or_empty (dl_payload d)) ''run_id'' of
           JStr rid \<Rightarrow>
             if rid = [] then (False, db)
             else
               (case row_find run_id rid (qd_runs db) of
                  None \<Rightarrow> (False, db)
                | Some r \<Rightarrow> (True, if run_status r = RFailed then set_queued sc rid (\<lambda>r. r\<lparr>run_status := RPending\<rparr>) db else db))
         | _ \<Rightarrow> (False, db))
      else if dl_operation_type d \<in> {''failed_embedding'', ''perception_cycle''} then (sc_elsewhere sc d, db)
      else (False, db))"

definition retry_letter :: "scheduler \<Rightarrow> dead_letter \<Rightarrow> queue_db \<Rightarrow> queue_db" where
  "retry_letter sc d db =
     (case mark_retrying (sc_now sc) (dl_entry_id d) db of
        (False, db1) \<Rightarrow> db1
      | (True, db1) \<Rightarrow>
          (case dispatch_dlq_entry sc d db1 of
             (True, db2) \<Rightarrow> mark_resolved (sc_now sc) (dl_entry_id d) db2
           | (False, db2) \<Rightarrow> db2))"

definition DLQ_BATCH :: nat where
  "DLQ_BATCH = 10"

definition dlq_tick :: "scheduler \<Rightarrow> string list \<Rightarrow> queue_db \<Rightarrow> queue_db" where
  "dlq_tick sc users db =
     fold (\<lambda>user db. fold (retry_letter sc) (list_pending user None DLQ_BATCH [] db) db) users db"

section \<open>Retries\<close>

lemma charge_only:
  assumes "qd_runs db = [row]" and "run_id row = run_id r"
  shows "charge sc r e db =
    (if qr_retry_count row + 1 \<ge> retries_allowed row
     then enqueue sc (run_user_id r) ''background_task'' e (run_id r) [(''plan_id'', opt_json (run_plan_id r)), (''run_id'', JStr (run_id r))]
            (run_workspace_id r) (db\<lparr>qd_runs := [(failed_for_good sc e (bump row))\<lparr>qr_updated_at := sc_now sc\<rparr>]\<rparr>)
     else db\<lparr>qd_runs := [(back_to_queue (bump row))\<lparr>qr_updated_at := sc_now sc\<rparr>]\<rparr>)"
  using assms by (simp add: charge_def set_queued_def)

lemma back_to_queue_run: "back_to_queue r = r\<lparr>run_status := RPending\<rparr>"
  by (simp add: back_to_queue_def move_or_force_def)

text \<open>Driving this run raises, resumed or executed, whatever the session.\<close>

definition always_raises :: "scheduler \<Rightarrow> string \<Rightarrow> bool" where
  "always_raises sc rid = (\<forall>resume s. \<exists>e. sc_drive sc rid resume s = Inl e)"

lemma run_one_raises:
  assumes "always_raises sc (run_id r)"
  shows "\<exists>e. run_one sc r s = \<lparr>se_work = charge sc r e (se_saved s), se_saved = se_saved s, se_expired = True\<rparr>"
proof -
  let ?s1 = "if run_status r = RAwaitingApproval
    then on_work (set_queued sc (run_id r) (\<lambda>r. r\<lparr>run_source := ''background''\<rparr>)) s else s"
  obtain e where "sc_drive sc (run_id r) (run_status r = RAwaitingApproval) ?s1 = Inl e"
    using assms unfolding always_raises_def by blast
  then have "run_one sc r s = on_work (charge sc r e) (rollback ?s1)"
    unfolding run_one_def Let_def by simp
  moreover have "on_work (charge sc r e) (rollback s1) = \<lparr>se_work = charge sc r e (se_saved s1), se_saved = se_saved s1, se_expired = True\<rparr>" for s1
    by (simp add: on_work_def rollback_def)
  moreover have "se_saved ?s1 = se_saved s" by (simp add: on_work_def)
  ultimately show ?thesis by (intro exI[of _ e]) simp
qed

text \<open>C10. A run that raises before the end of the batch blocks the queue: its rollback expires the runs
  still to come, reading the next one raises outside the inner \<open>try\<close>, and the tick ends without a commit.
  The failed run is not charged an attempt and not dead-lettered, the runs behind it are not driven, and
  so it goes on for any number of ticks.\<close>

theorem failing_run_blocks_the_queue:
  assumes "pick sc due_run BACKGROUND_BATCH db = r # r2 # rest" and "always_raises sc (run_id r)"
  shows "(background_tick sc ^^ n) db = db"
proof (induction n)
  case (Suc n)
  from run_one_raises[OF assms(2), of "open_session db"] have "background_tick sc db = db"
    by (auto simp: background_tick_def assms(1) open_session_def)
  with Suc show ?case by simp
qed simp

text \<open>One run alone in the queue.\<close>

lemma tick_alone:
  assumes "qd_runs db = [r]" and "due_run r" and "\<not> sc_locked sc (run_id r)" and "always_raises sc (run_id r)"
  shows "\<exists>e. background_tick sc db = charge sc r e db"
proof -
  have "pick sc due_run BACKGROUND_BATCH db = [r]" using assms(1-3) by (simp add: pick_def BACKGROUND_BATCH_def)
  moreover obtain e where "run_one sc r (open_session db) = \<lparr>se_work = charge sc r e db, se_saved = db, se_expired = True\<rparr>"
    using run_one_raises[OF assms(4), of "open_session db"] by (auto simp: open_session_def)
  ultimately have "background_tick sc db = charge sc r e db"
    by (simp add: background_tick_def commit_def) (simp add: open_session_def)
  then show ?thesis by blast
qed

lemma tick_idle:
  assumes "qd_runs db = [r]" and "\<not> due_run r"
  shows "background_tick sc db = db"
  using assms by (simp add: background_tick_def pick_def open_session_def commit_def)

definition waiting_with :: "queued_run \<Rightarrow> int \<Rightarrow> dead_letter list \<Rightarrow> queue_db \<Rightarrow> bool" where
  "waiting_with r n letters db =
     (\<exists>r'. qd_runs db = [r'] \<and> due_run r' \<and> run_id r' = run_id r \<and> qr_retry_count r' = n \<and> qr_max_retries r' = qr_max_retries r
        \<and> qd_letters db = letters)"

definition dead_with :: "queued_run \<Rightarrow> int \<Rightarrow> dead_letter list \<Rightarrow> queue_db \<Rightarrow> bool" where
  "dead_with r n letters db =
     (\<exists>r' d. qd_runs db = [r'] \<and> run_status r' = RFailed \<and> run_id r' = run_id r \<and> qr_retry_count r' = n
        \<and> qd_letters db = letters @ [d] \<and> dl_operation_type d = ''background_task'' \<and> dl_source_id d = Some (run_id r)
        \<and> dl_status d = ''pending'')"

lemma waiting_step:
  assumes "waiting_with r n letters db" and "\<not> sc_locked sc (run_id r)" and "always_raises sc (run_id r)"
  shows "if n + 1 \<ge> retries_allowed r then dead_with r (n + 1) letters (background_tick sc db)
    else waiting_with r (n + 1) letters (background_tick sc db)"
proof -
  from assms(1) obtain r' where r': "qd_runs db = [r']" "due_run r'" "run_id r' = run_id r" "qr_retry_count r' = n"
      "qr_max_retries r' = qr_max_retries r" "qd_letters db = letters"
    by (auto simp: waiting_with_def)
  with tick_alone[of db r' sc] assms(2,3) obtain e where t: "background_tick sc db = charge sc r' e db" by auto
  have m: "retries_allowed r' = retries_allowed r" using r'(5) by (simp add: retries_allowed_def)
  have src: "run_source r' \<in> {''background'', ''approval_resume''}" using r'(2) by (auto simp: due_run_def)
  show ?thesis
  proof (cases "n + 1 \<ge> retries_allowed r")
    case True
    then show ?thesis
      using r' m unfolding t charge_only[OF r'(1) refl]
      by (simp add: dead_with_def enqueue_def failed_for_good_def move_or_force_def bump_def split: prod.splits)
  next
    case False
    then show ?thesis
      using r' m src unfolding t charge_only[OF r'(1) refl]
      by (simp add: waiting_with_def back_to_queue_run bump_def due_run_def)
  qed
qed

lemma dead_stays: "dead_with r n letters db \<Longrightarrow> dead_with r n letters (background_tick sc db)"
  by (auto simp: dead_with_def tick_idle due_run_def)

text \<open>Alone in the queue, a run that always raises is retried and then given up: it is charged one attempt
  at each tick, is pending again until its retries are spent, is failed and dead-lettered exactly once at
  the last of them, and is left alone from then on.\<close>

lemma retries_are_bounded:
  assumes "qd_runs db = [r]" and "due_run r" and "\<not> sc_locked sc (run_id r)" and "always_raises sc (run_id r)"
    and "qr_retry_count r < retries_allowed r"
  shows "if qr_retry_count r + int n < retries_allowed r
    then waiting_with r (qr_retry_count r + int n) (qd_letters db) ((background_tick sc ^^ n) db)
    else dead_with r (retries_allowed r) (qd_letters db) ((background_tick sc ^^ n) db)"
proof (induction n)
  case 0
  then show ?case using assms by (simp add: waiting_with_def)
next
  case (Suc n)
  show ?case
  proof (cases "qr_retry_count r + int n < retries_allowed r")
    case True
    with Suc have "waiting_with r (qr_retry_count r + int n) (qd_letters db) ((background_tick sc ^^ n) db)" by simp
    note step = waiting_step[OF this assms(3,4)]
    have next_count: "qr_retry_count r + int (Suc n) = qr_retry_count r + int n + 1" by simp
    show ?thesis
    proof (cases "qr_retry_count r + int n + 1 \<ge> retries_allowed r")
      case True
      then have "retries_allowed r = qr_retry_count r + int n + 1" using \<open>qr_retry_count r + int n < retries_allowed r\<close> by linarith
      then show ?thesis using step unfolding next_count by simp
    next
      case False
      then show ?thesis using step unfolding next_count by simp
    qed
  next
    case False
    with Suc dead_stays show ?thesis by auto
  qed
qed

section \<open>Dead letters come back\<close>

text \<open>A run given up for good: failed, its retries spent, its last letter pending and the others resolved.\<close>

definition given_up :: "string \<Rightarrow> string \<Rightarrow> int \<Rightarrow> nat \<Rightarrow> queue_db \<Rightarrow> bool" where
  "given_up user rid n k db =
     (\<exists>r old d. qd_runs db = [r] \<and> run_id r = rid \<and> run_user_id r = user \<and> run_status r = RFailed
        \<and> run_source r = ''background'' \<and> qr_retry_count r = n \<and> retries_allowed r \<le> n
        \<and> qd_letters db = old @ [d] \<and> distinct (map dl_entry_id (qd_letters db)) \<and> length (qd_letters db) = k
        \<and> (\<forall>x \<in> set old. dl_status x = ''resolved'')
        \<and> dl_user_id d = user \<and> dl_operation_type d = ''background_task'' \<and> dl_status d = ''pending''
        \<and> dl_attempt_count d = 1 \<and> dl_max_attempts d = 3 \<and> jget (dict_or_empty (dl_payload d)) ''run_id'' = JStr rid)"

lemma row_update_last:
  assumes "distinct (map key (xs @ [x]))"
  shows "row_update key (key x) f (xs @ [x]) = xs @ [f x]"
  using assms by (auto simp: row_update_def intro!: map_idI) (metis image_eqI)

lemma row_find_last:
  assumes "distinct (map key (xs @ [x]))"
  shows "row_find key (key x) (xs @ [x]) = Some x"
  using assms row_find_Some_iff_distinct[OF assms, of "key x" x] by simp

text \<open>The retry tick resolves the letter and puts the run back in the queue, with its count as it was.\<close>

lemma dlq_tick_requeues:
  assumes "given_up user rid n k db" and "rid \<noteq> []"
  shows "\<exists>r d old. dlq_tick sc [user] db = \<lparr>qd_runs = [r], qd_letters = old @ [d]\<rparr>
    \<and> run_id r = rid \<and> run_user_id r = user \<and> run_status r = RPending \<and> run_source r = ''background'' \<and> qr_retry_count r = n
    \<and> retries_allowed r \<le> n \<and> distinct (map dl_entry_id (old @ [d])) \<and> length (old @ [d]) = k
    \<and> (\<forall>x \<in> set (old @ [d]). dl_status x = ''resolved'')"
proof -
  from assms(1) obtain r old d where g: "qd_runs db = [r]" "run_id r = rid" "run_user_id r = user" "run_status r = RFailed"
      "run_source r = ''background''" "qr_retry_count r = n" "retries_allowed r \<le> n" "qd_letters db = old @ [d]"
      "distinct (map dl_entry_id (old @ [d]))" "length (old @ [d]) = k" "\<forall>x \<in> set old. dl_status x = ''resolved''"
      "dl_user_id d = user" "dl_operation_type d = ''background_task''" "dl_status d = ''pending''"
      "dl_attempt_count d = 1" "dl_max_attempts d = 3" "jget (dict_or_empty (dl_payload d)) ''run_id'' = JStr rid"
    unfolding given_up_def by metis
  let ?d1 = "d\<lparr>dl_status := ''retrying'', dl_attempt_count := 2, dl_last_attempted_at := sc_now sc\<rparr>"
  let ?d2 = "?d1\<lparr>dl_status := ''resolved'', dl_resolved_at := Some (sc_now sc)\<rparr>"
  let ?r1 = "r\<lparr>run_status := RPending, qr_updated_at := sc_now sc\<rparr>"
  have pending: "list_pending user None DLQ_BATCH [] db = [d]"
    using g(8,11,12,14) by (simp add: list_pending_def DLQ_BATCH_def filter_empty_conv)
  have ids: "distinct (map dl_entry_id (old @ [?d1]))" using g(9) by simp
  have mark: "mark_retrying (sc_now sc) (dl_entry_id d) db = (True, db\<lparr>qd_letters := old @ [?d1]\<rparr>)"
    using row_find_last[OF g(9)] row_update_last[OF g(9), of "\<lambda>d. d\<lparr>dl_status := ''retrying'', dl_attempt_count := dl_attempt_count d + 1,
        dl_last_attempted_at := sc_now sc\<rparr>"] g(8,15,16)
    by (simp add: mark_retrying_def set_letter_def)
  have dispatch: "dispatch_dlq_entry sc d (db\<lparr>qd_letters := old @ [?d1]\<rparr>) = (True, db\<lparr>qd_runs := [?r1], qd_letters := old @ [?d1]\<rparr>)"
    using g assms(2) by (simp add: dispatch_dlq_entry_def set_queued_def)
  have "mark_resolved (sc_now sc) (dl_entry_id d) (db\<lparr>qd_runs := [?r1], qd_letters := old @ [?d1]\<rparr>)
      = db\<lparr>qd_runs := [?r1], qd_letters := old @ [?d2]\<rparr>"
    using row_update_last[OF ids, of "\<lambda>d. d\<lparr>dl_status := ''resolved'', dl_resolved_at := Some (sc_now sc)\<rparr>"]
    by (simp add: mark_resolved_def set_letter_def)
  then have "dlq_tick sc [user] db = \<lparr>qd_runs = [?r1], qd_letters = old @ [?d2]\<rparr>"
    by (simp add: dlq_tick_def pending retry_letter_def mark dispatch)
  moreover have "retries_allowed ?r1 \<le> n" using g(7) by (simp add: retries_allowed_def split: if_splits)
  ultimately show ?thesis
    using g ids by (intro exI[of _ ?r1] exI[of _ ?d2] exI[of _ old]) simp
qed

text \<open>C29. The dead-letter queue is no end for a run that always raises. Each round of the retry tick and
  the background tick puts it back in the queue, drives it once more and gives it up once more with a
  new letter whose attempts start afresh, while the old one counts as resolved: after any number of
  rounds the run has been charged as many further attempts, as many letters are resolved, and none is
  ever exhausted.\<close>

theorem dead_letters_never_exhaust:
  assumes "given_up user rid c k db" and "rid \<noteq> []" and "\<not> sc_locked sc rid" and "always_raises sc rid"
    and "\<And>db. ''dlq_'' @ sc_ulid sc db \<notin> dl_entry_id ` set (qd_letters db)"
  shows "given_up user rid (c + int n) (k + n) (((\<lambda>db. background_tick sc (dlq_tick sc [user] db)) ^^ n) db)"
proof (induction n)
  case 0
  then show ?case using assms(1) by simp
next
  case (Suc n)
  let ?db = "((\<lambda>db. background_tick sc (dlq_tick sc [user] db)) ^^ n) db"
  obtain r d old where q: "dlq_tick sc [user] ?db = \<lparr>qd_runs = [r], qd_letters = old @ [d]\<rparr>"
    and r: "run_id r = rid" "run_user_id r = user" "run_status r = RPending" "run_source r = ''background''" "qr_retry_count r = c + int n"
      "retries_allowed r \<le> c + int n"
    and l: "distinct (map dl_entry_id (old @ [d]))" "length (old @ [d]) = k + n" "\<forall>x \<in> set (old @ [d]). dl_status x = ''resolved''"
    using dlq_tick_requeues[OF Suc assms(2), of sc] by blast
  have "due_run r" using r by (simp add: due_run_def)
  with tick_alone[of "dlq_tick sc [user] ?db" r sc] assms(3,4) r(1)
  obtain e where t: "background_tick sc (dlq_tick sc [user] ?db) = charge sc r e (dlq_tick sc [user] ?db)" by (auto simp: q)
  let ?r = "(failed_for_good sc e (bump r))\<lparr>qr_updated_at := sc_now sc\<rparr>"
  have row: "run_id ?r = rid \<and> run_user_id ?r = user \<and> run_status ?r = RFailed \<and> run_source ?r = ''background''
      \<and> qr_retry_count ?r = c + int n + 1 \<and> retries_allowed ?r \<le> c + int n + 1"
    using r by (auto simp: failed_for_good_def move_or_force_def bump_def retries_allowed_def split: prod.splits if_splits)
  have "retries_allowed r \<le> qr_retry_count r + 1" using r by simp
  then have "charge sc r e (dlq_tick sc [user] ?db) = enqueue sc user ''background_task'' e rid
      [(''plan_id'', opt_json (run_plan_id r)), (''run_id'', JStr rid)] (run_workspace_id r) \<lparr>qd_runs = [?r], qd_letters = old @ [d]\<rparr>"
    using charge_only[of "dlq_tick sc [user] ?db" r r sc e] r by (simp add: q)
  then show ?case
    using row l assms(5)[of "\<lparr>qd_runs = [?r], qd_letters = old @ [d]\<rparr>"]
    unfolding given_up_def
    by (auto simp: t enqueue_def dict_or_empty_def jget_def)
qed

section \<open>The reaper gives up\<close>

text \<open>The clock of each pass: a second past the threshold after the one before.\<close>

definition pass :: "scheduler \<Rightarrow> nat \<Rightarrow> scheduler" where
  "pass sc k = sc\<lparr>sc_now := sc_now sc + int k * secs (RESUME_REAPER_STALE_AFTER_S + 1)\<rparr>"

fun passes :: "scheduler \<Rightarrow> nat \<Rightarrow> queue_db \<Rightarrow> queue_db" where
  "passes sc 0 db = db"
| "passes sc (Suc k) db = reap_stale_resume_runs (pass sc k) (passes sc k db)"

definition approved_with :: "scheduler \<Rightarrow> queued_run \<Rightarrow> int \<Rightarrow> dead_letter list \<Rightarrow> nat \<Rightarrow> queue_db \<Rightarrow> bool" where
  "approved_with sc r n letters k db =
     (\<exists>r'. qd_runs db = [r'] \<and> run_id r' = run_id r \<and> stale_resume (sc_now (pass sc k)) r' \<and> qr_retry_count r' = n \<and> qd_letters db = letters)"

definition abandoned :: "queued_run \<Rightarrow> dead_letter list \<Rightarrow> queue_db \<Rightarrow> bool" where
  "abandoned r letters db =
     (\<exists>r' d. qd_runs db = [r'] \<and> run_id r' = run_id r \<and> run_status r' = RFailed \<and> qd_letters db = letters @ [d]
        \<and> dl_operation_type d = ''resume_reaper'' \<and> dl_source_id d = Some (run_id r) \<and> dl_status d = ''pending'')"

lemma reap_alone:
  assumes "qd_runs db = [r]" and "stale_resume (sc_now sc) r" and "\<not> sc_locked sc (run_id r)" and "always_raises sc (run_id r)"
  shows "reap_stale_resume_runs sc db =
    (if qr_retry_count r + 1 > RESUME_REAPER_MAX_ATTEMPTS then give_up sc r db
     else db\<lparr>qd_runs := [r\<lparr>qr_retry_count := qr_retry_count r + 1, run_source := ''approval_resume'', qr_updated_at := sc_now sc\<rparr>]\<rparr>)"
proof -
  have p: "pick sc (stale_resume (sc_now sc)) RESUME_REAPER_BATCH_LIMIT db = [r]"
    using assms(1-3) by (simp add: pick_def RESUME_REAPER_BATCH_LIMIT_def)
  obtain e where "sc_drive sc (run_id r) True (on_work (set_queued sc (run_id r) (\<lambda>r'. r'\<lparr>qr_retry_count := qr_retry_count r + 1,
      run_source := ''background''\<rparr>)) (open_session db)) = Inl e"
    using assms(4) unfolding always_raises_def by blast
  then show ?thesis
    using assms(1)
    by (simp add: reap_stale_resume_runs_def p reap_one_def commit_def Let_def)
      (simp add: on_work_def rollback_def open_session_def set_queued_def)
qed

text \<open>An approved run that cannot be resumed is not driven for ever: each pass of the reaper charges it
  one attempt and keeps it eligible, at most five in all, and the pass after that fails it and writes one
  dead letter, which no retry of the queue can dispatch.\<close>

lemma resume_attempts_are_bounded:
  assumes "qd_runs db = [r]" and "stale_resume (sc_now sc) r" and "\<not> sc_locked sc (run_id r)" and "always_raises sc (run_id r)"
    and "qr_retry_count r \<le> RESUME_REAPER_MAX_ATTEMPTS"
  shows "(if qr_retry_count r + int n \<le> RESUME_REAPER_MAX_ATTEMPTS
     then approved_with sc r (qr_retry_count r + int n) (qd_letters db) n (passes sc n db)
     else abandoned r (qd_letters db) (passes sc n db))
    \<and> (dl_operation_type d = ''resume_reaper'' \<longrightarrow> dispatch_dlq_entry sc d db = (False, db))"
proof -
  have "if qr_retry_count r + int n \<le> RESUME_REAPER_MAX_ATTEMPTS
     then approved_with sc r (qr_retry_count r + int n) (qd_letters db) n (passes sc n db)
     else abandoned r (qd_letters db) (passes sc n db)"
  proof (induction n)
    case 0
    then show ?case using assms by (simp add: approved_with_def pass_def)
  next
    case (Suc n)
    have raises: "always_raises (pass sc n) (run_id r)" and free: "\<not> sc_locked (pass sc n) (run_id r)"
      using assms(3,4) by (simp_all add: always_raises_def pass_def)
    have gap: "sc_now (pass sc n) < sc_now (pass sc (Suc n)) - secs RESUME_REAPER_STALE_AFTER_S"
      by (simp add: pass_def secs_def RESUME_REAPER_STALE_AFTER_S_def algebra_simps)
    show ?case
    proof (cases "qr_retry_count r + int n \<le> RESUME_REAPER_MAX_ATTEMPTS")
      case True
      with Suc obtain r' where r': "qd_runs (passes sc n db) = [r']" "run_id r' = run_id r" "stale_resume (sc_now (pass sc n)) r'"
          "qr_retry_count r' = qr_retry_count r + int n" "qd_letters (passes sc n db) = qd_letters db"
        by (auto simp: approved_with_def)
      with reap_alone[of "passes sc n db" r' "pass sc n"] raises free
      have "passes sc (Suc n) db = (if qr_retry_count r' + 1 > RESUME_REAPER_MAX_ATTEMPTS then give_up (pass sc n) r' (passes sc n db)
        else (passes sc n db)\<lparr>qd_runs := [r'\<lparr>qr_retry_count := qr_retry_count r' + 1, run_source := ''approval_resume'',
          qr_updated_at := sc_now (pass sc n)\<rparr>]\<rparr>)" by simp
      then show ?thesis
        using r' gap
        by (auto simp: approved_with_def abandoned_def stale_resume_def give_up_def enqueue_def set_queued_def move_or_force_def)
    next
      case False
      with Suc obtain r' d where r': "qd_runs (passes sc n db) = [r']" "run_id r' = run_id r" "run_status r' = RFailed"
          "qd_letters (passes sc n db) = qd_letters db @ [d]"
        by (auto simp: abandoned_def)
      then have "passes sc (Suc n) db = passes sc n db"
        by (simp add: reap_stale_resume_runs_def pick_def stale_resume_def open_session_def)
      with False Suc show ?thesis by simp
    qed
  qed
  then show ?thesis by (simp add: dispatch_dlq_entry_def)
qed

section \<open>Samples\<close>

definition sample_queued :: "string \<Rightarrow> string \<Rightarrow> queued_run" where
  "sample_queued rid source =
     task_run.extend ((dag_run RPending)\<lparr>run_id := rid, run_source := source\<rparr>)
       (queued_run.fields 0 3 0 0)"

definition next_letter :: "queue_db \<Rightarrow> string" where
  "next_letter db = replicate (Suc (sum_list (map (length \<circ> dl_entry_id) (qd_letters db)))) CHR ''d''"

definition sample_scheduler :: "(string \<Rightarrow> bool) \<Rightarrow> scheduler" where
  "sample_scheduler broken =
     \<lparr>sc_now = secs 1000, sc_locked = (\<lambda>_. False),
      sc_drive = (\<lambda>rid resume s. if broken rid then Inl (''ValueError'', ''Plan not found'') else Inr (se_work s, False)),
      sc_classify = (\<lambda>_. (''internal_error'', ''Something went wrong'')), sc_correlation = ''c'', sc_ulid = next_letter, sc_elsewhere = (\<lambda>_. True)\<rparr>"

definition sample_queue :: "queued_run list \<Rightarrow> queue_db" where
  "sample_queue rs = \<lparr>qd_runs = rs, qd_letters = []\<rparr>"

lemma sample_raises: "broken rid \<Longrightarrow> always_raises (sample_scheduler broken) rid"
  by (simp add: always_raises_def sample_scheduler_def)

lemmas sample_queue_simps = sample_queued_def sample_scheduler_def sample_queue_def task_run.defs queued_run.defs dag_run_def

theorem failing_run_blocks_the_queue_witness:
  "(background_tick (sample_scheduler (\<lambda>rid. rid = ''run_1'')) ^^ 7)
     (sample_queue [sample_queued ''run_1'' ''background'', sample_queued ''run_2'' ''background''])
   = sample_queue [sample_queued ''run_1'' ''background'', sample_queued ''run_2'' ''background'']"
  by (rule failing_run_blocks_the_queue[of _ _ "sample_queued ''run_1'' ''background''" "sample_queued ''run_2'' ''background''" "[]"])
    (simp_all add: pick_def due_run_def BACKGROUND_BATCH_def always_raises_def sample_queue_simps)

definition given_up_db :: queue_db where
  "given_up_db = enqueue (sample_scheduler (\<lambda>_. True)) ''u'' ''background_task'' (''ValueError'', ''Plan not found'') ''run_1''
     [(''run_id'', JStr ''run_1'')] ''ws''
     (sample_queue [(sample_queued ''run_1'' ''background'')\<lparr>run_status := RFailed, qr_retry_count := 3\<rparr>])"

lemma next_letter_fresh: "''dlq_'' @ next_letter db \<notin> dl_entry_id ` set (qd_letters db)"
proof
  assume "''dlq_'' @ next_letter db \<in> dl_entry_id ` set (qd_letters db)"
  then obtain d where d: "d \<in> set (qd_letters db)" "dl_entry_id d = ''dlq_'' @ next_letter db" by auto
  have "length (dl_entry_id d) \<le> sum_list (map (length \<circ> dl_entry_id) (qd_letters db))"
    using member_le_sum_list[of "length (dl_entry_id d)" "map (length \<circ> dl_entry_id) (qd_letters db)"] d(1) by force
  with d(2) show False by (simp add: next_letter_def)
qed

theorem dead_letters_never_exhaust_witness:
  "given_up ''u'' ''run_1'' 103 101 (((\<lambda>db. background_tick (sample_scheduler (\<lambda>_. True)) (dlq_tick (sample_scheduler (\<lambda>_. True)) [''u''] db)) ^^ 100) given_up_db)"
proof -
  have "given_up ''u'' ''run_1'' 3 1 given_up_db"
    by (simp add: given_up_def given_up_db_def enqueue_def retries_allowed_def dict_or_empty_def jget_def sample_queue_simps)
  from dead_letters_never_exhaust[OF this, of "sample_scheduler (\<lambda>_. True)" 100] show ?thesis
    using sample_raises[of "\<lambda>_. True" "''run_1''"] next_letter_fresh by (simp add: sample_scheduler_def)
qed

end
