(* ===== verification/Entity_Facts.thy ===== *)
theory Entity_Facts
  imports Json Verification
begin

text \<open>
  The world model's beliefs: \<open>services/entity_facts/confidence.py\<close>, \<open>store.py\<close> and
  \<open>reconciliation.py\<close>. A belief is a row of \<open>entity_facts\<close>, valid from an instant to an instant or still
  current; the partial unique index allows one current row per entity and attribute. Another writer may
  commit between the read and the insert of \<open>record_fact\<close>: what it commits is a parameter, one per
  attempt. Confidences are reals here, because age decays them by \<open>exp\<close>; identifiers (\<open>ULID\<close>) and the
  rendering of instants are parameters.
\<close>

section \<open>Confidence\<close>

definition SOURCE_RELIABILITY :: "(string \<times> pyfloat) list" where
  "SOURCE_RELIABILITY =
     [(''user_message'', 95/100), (''tool_output'', 90/100), (''connector'', 90/100), (''perception'', 70/100),
      (''retrieved_memory'', 60/100), (''llm_inference'', 50/100), (''unknown'', 50/100)]"

definition CONFIDENCE_HALF_LIFE_DAYS :: real where
  "CONFIDENCE_HALF_LIFE_DAYS = 30"

definition DECAY_LAMBDA :: real where
  "DECAY_LAMBDA = ln 2 / CONFIDENCE_HALF_LIFE_DAYS"

definition reliability_for :: "string \<Rightarrow> pyfloat" where
  "reliability_for origin =
     (case map_of SOURCE_RELIABILITY origin of None \<Rightarrow> the (map_of SOURCE_RELIABILITY ''unknown'') | Some r \<Rightarrow> r)"

definition clamp :: "real \<Rightarrow> real" where
  "clamp x = max 0 (min 1 x)"

definition age_factor :: "real \<Rightarrow> real" where
  "age_factor age_days = exp (- DECAY_LAMBDA * max 0 age_days)"

definition days_since :: "instant \<Rightarrow> instant option \<Rightarrow> real" where
  "days_since now ts = (case ts of None \<Rightarrow> 0 | Some t \<Rightarrow> max 0 (real_of_int (now - t) / 1000000 / 86400))"

definition compute_confidence :: "string \<Rightarrow> int \<Rightarrow> real \<Rightarrow> real" where
  "compute_confidence origin corroboration_count age_days =
     (let r = real_of_rat (reliability_for origin); n = max 1 corroboration_count
      in clamp ((1 - (1 - r) ^ nat n) * age_factor age_days))"

definition current_confidence :: "real \<Rightarrow> real \<Rightarrow> real" where
  "current_confidence base age_days = clamp (base * age_factor age_days)"

section \<open>The store\<close>

record entity_fact =
  ef_fact_id :: string
  ef_entity_id :: string
  ef_workspace_id :: string
  ef_user_id :: string
  ef_attr_key :: string
  ef_attr_value :: json
  ef_confidence :: real
  ef_corroboration_count :: int
  ef_provenance :: "jdict option"
  ef_valid_from :: instant
  ef_valid_to :: "instant option"
  ef_superseded_by :: "string option"

type_synonym facts = "entity_fact list"

datatype fact_error = MultipleResultsFound | IntegrityError

text \<open>Python's \<open>==\<close> on decoded JSON: a bool is a number, a dict has no order.\<close>

fun as_number :: "json \<Rightarrow> pyfloat option" where
  "as_number (JNum q) = Some q"
| "as_number (JBool b) = Some (if b then 1 else 0)"
| "as_number _ = None"

function (sequential) values_equal :: "json \<Rightarrow> json \<Rightarrow> bool" where
  "values_equal (JList xs) w =
     (case w of JList ys \<Rightarrow> length xs = length ys \<and> (\<forall>(x, y) \<in> set (zip xs ys). values_equal x y) | _ \<Rightarrow> False)"
| "values_equal (JObj a) w =
     (case w of JObj b \<Rightarrow> length a = length b
        \<and> (\<forall>(k, v) \<in> set a. case map_of b k of None \<Rightarrow> False | Some u \<Rightarrow> values_equal v u) | _ \<Rightarrow> False)"
| "values_equal JNull w = (w = JNull)"
| "values_equal (JStr s) w = (w = JStr s)"
| "values_equal v w = (as_number v = as_number w)"
  by pat_completeness auto

termination
proof (relation "measure (\<lambda>p. size (fst p))")
  show "((x, y), JList xs, w) \<in> measure (\<lambda>p. size (fst p))" if "w = JList ys" "p \<in> set (zip xs ys)" "(x, y) = p" for xs w ys p x y
    using that set_zip_leftD[of x y xs ys] size_list_estimation'[of x xs "size x" size] by auto
  show "((v, u), JObj a, w) \<in> measure (\<lambda>p. size (fst p))" if "p \<in> set a" "(k, v) = p" for a w p k v u
    using that size_list_estimation'[of p a "Suc (size v)" "size_prod (\<lambda>_. 0) size"] by auto
qed auto


definition is_current :: "entity_fact \<Rightarrow> bool" where
  "is_current f = (ef_valid_to f = None)"

definition slot :: "entity_fact \<Rightarrow> string \<times> string" where
  "slot f = (ef_entity_id f, ef_attr_key f)"

text \<open>\<open>scalar_one_or_none\<close>.\<close>

definition current_fact :: "string \<Rightarrow> string \<Rightarrow> string \<Rightarrow> facts \<Rightarrow> fact_error + entity_fact option" where
  "current_fact entity key ws fs =
     (case filter (\<lambda>f. slot f = (entity, key) \<and> ef_workspace_id f = ws \<and> is_current f) fs of
        [] \<Rightarrow> Inr None
      | [f] \<Rightarrow> Inr (Some f)
      | _ \<Rightarrow> Inl MultipleResultsFound)"

definition current_facts :: "string \<Rightarrow> string \<Rightarrow> facts \<Rightarrow> facts" where
  "current_facts entity ws fs = filter (\<lambda>f. ef_entity_id f = entity \<and> ef_workspace_id f = ws \<and> is_current f) fs"

definition valid_at :: "instant \<Rightarrow> entity_fact \<Rightarrow> bool" where
  "valid_at t f = (ef_valid_from f \<le> t \<and> (case ef_valid_to f of None \<Rightarrow> True | Some u \<Rightarrow> u > t))"

definition facts_as_of :: "string \<Rightarrow> string \<Rightarrow> instant \<Rightarrow> facts \<Rightarrow> facts" where
  "facts_as_of entity ws as_of fs = filter (\<lambda>f. ef_entity_id f = entity \<and> ef_workspace_id f = ws \<and> valid_at as_of f) fs"

definition provenance_for :: "string \<Rightarrow> string \<Rightarrow> string option \<Rightarrow> facts \<Rightarrow> (string \<times> json \<times> real \<times> int \<times> instant \<times> jdict option) list" where
  "provenance_for entity ws key fs =
     map (\<lambda>f. (ef_attr_key f, ef_attr_value f, ef_confidence f, ef_corroboration_count f, ef_valid_from f, ef_provenance f))
       (filter (\<lambda>f. key = None \<or> key = Some (ef_attr_key f)) (current_facts entity ws fs))"

definition get_fact :: "string \<Rightarrow> facts \<Rightarrow> entity_fact option" where
  "get_fact fid fs = row_find ef_fact_id fid fs"

text \<open>What the table refuses: its primary key and the index \<open>uq_entity_facts_current\<close>.\<close>

definition table_ok :: "facts \<Rightarrow> bool" where
  "table_ok fs = (distinct (map ef_fact_id fs) \<and> distinct (map slot (filter is_current fs)))"

section \<open>Recording an observation\<close>

record fact_observation =
  ob_entity_id :: string
  ob_workspace_id :: string
  ob_user_id :: string
  ob_attr_key :: string
  ob_attr_value :: json
  ob_origin :: string
  ob_source_ref :: json
  ob_now :: instant

text \<open>A new identifier, the text of an instant, and what others commit before the insert of an attempt.\<close>

record fact_env =
  fe_ulid :: "facts \<Rightarrow> string"
  fe_iso :: "instant \<Rightarrow> string"
  fe_race :: "bool \<Rightarrow> facts \<Rightarrow> facts"

definition new_fact :: "fact_env \<Rightarrow> fact_observation \<Rightarrow> string \<Rightarrow> entity_fact" where
  "new_fact env ob fid =
     \<lparr>ef_fact_id = fid, ef_entity_id = ob_entity_id ob, ef_workspace_id = ob_workspace_id ob, ef_user_id = ob_user_id ob,
      ef_attr_key = ob_attr_key ob, ef_attr_value = ob_attr_value ob,
      ef_confidence = compute_confidence (ob_origin ob) 1 0, ef_corroboration_count = 1,
      ef_provenance = Some [(''origin'', JStr (ob_origin ob)), (''source_ref'', ob_source_ref ob),
        (''observed_at'', JStr (fe_iso env (ob_now ob))), (''reliability'', JNum (reliability_for (ob_origin ob)))],
      ef_valid_from = ob_now ob, ef_valid_to = None, ef_superseded_by = None\<rparr>"

definition corroborated :: "string \<Rightarrow> entity_fact \<Rightarrow> entity_fact" where
  "corroborated origin f =
     f\<lparr>ef_corroboration_count := ef_corroboration_count f + 1,
       ef_confidence := max (ef_confidence f) (compute_confidence origin (ef_corroboration_count f + 1) 0)\<rparr>"

definition close_fact :: "string \<Rightarrow> string \<Rightarrow> instant \<Rightarrow> facts \<Rightarrow> facts" where
  "close_fact fid successor now fs =
     row_update ef_fact_id fid (\<lambda>f. f\<lparr>ef_valid_to := Some now, ef_superseded_by := Some successor\<rparr>) fs"

definition observe_once :: "fact_env \<Rightarrow> fact_observation \<Rightarrow> bool \<Rightarrow> facts \<Rightarrow> (fact_error + string \<times> bool) \<times> facts" where
  "observe_once env ob retry fs =
     (case current_fact (ob_entity_id ob) (ob_attr_key ob) (ob_workspace_id ob) fs of
        Inl e \<Rightarrow> (Inl e, fs)
      | Inr current \<Rightarrow>
          (let fs1 = fe_race env retry fs; fid = fe_ulid env fs1;
               insert = (\<lambda>rows. if table_ok (rows @ [new_fact env ob fid])
                 then (Inr (fid, current \<noteq> None), rows @ [new_fact env ob fid]) else (Inl IntegrityError, fs1))
           in case current of
                None \<Rightarrow> insert fs1
              | Some f \<Rightarrow>
                  if values_equal (ef_attr_value f) (ob_attr_value ob)
                  then (Inr (ef_fact_id f, False), row_update ef_fact_id (ef_fact_id f) (corroborated (ob_origin ob)) fs)
                  else insert (close_fact (ef_fact_id f) fid (ob_now ob) fs1)))"

text \<open>An insert that loses the race is decided once more, against the winner.\<close>

definition record_fact :: "fact_env \<Rightarrow> fact_observation \<Rightarrow> facts \<Rightarrow> (fact_error + string \<times> bool) \<times> facts" where
  "record_fact env ob fs =
     (case observe_once env ob True fs of
        (Inl IntegrityError, fs1) \<Rightarrow> observe_once env ob False fs1
      | r \<Rightarrow> r)"

text \<open>\<open>WorldModel._record_facts\<close>: one attribute's failure does not stop the others.\<close>

definition record_attributes :: "fact_env \<Rightarrow> fact_observation \<Rightarrow> jdict \<Rightarrow> facts \<Rightarrow> facts" where
  "record_attributes env ob attributes fs =
     fold (\<lambda>(k, v) fs. snd (record_fact env (ob\<lparr>ob_attr_key := k, ob_attr_value := v\<rparr>) fs)) attributes fs"

section \<open>Reconciliation with a verdict\<close>

definition fact_origin :: "entity_fact \<Rightarrow> string" where
  "fact_origin f = (case jget_default (dict_or_empty (ef_provenance f)) ''origin'' (JStr ''unknown'') of JStr s \<Rightarrow> s | _ \<Rightarrow> [])"

definition raised :: "entity_fact \<Rightarrow> entity_fact" where
  "raised f = f\<lparr>ef_corroboration_count := ef_corroboration_count f + 1,
     ef_confidence := compute_confidence (fact_origin f) (ef_corroboration_count f + 1) 0\<rparr>"

definition corroborate :: "string \<Rightarrow> facts \<Rightarrow> facts" where
  "corroborate fid fs = row_update ef_fact_id fid raised fs"

definition weakened :: "entity_fact \<Rightarrow> entity_fact" where
  "weakened f = f\<lparr>ef_confidence := max 0 (ef_confidence f * (1 / 2))\<rparr>"

definition weaken :: "string \<Rightarrow> facts \<Rightarrow> facts" where
  "weaken fid fs = row_update ef_fact_id fid weakened fs"

definition resolve_entity_id :: "jdict \<Rightarrow> jdict \<Rightarrow> string option" where
  "resolve_entity_id write_input write_output =
     (let pick = (\<lambda>d. case jget d ''entity_id'' of JStr s \<Rightarrow> if s = [] then None else Some s | _ \<Rightarrow> None)
      in case pick write_output of None \<Rightarrow> pick write_input | Some e \<Rightarrow> Some e)"

definition reconcile_verdict :: "string \<Rightarrow> verify_verdict \<Rightarrow> jdict option \<Rightarrow> jdict option \<Rightarrow> facts \<Rightarrow> facts" where
  "reconcile_verdict ws verdict write_input write_output fs =
     (if verdict = Unverified \<or> ws = [] then fs
      else
        (case resolve_entity_id (dict_or_empty write_input) (dict_or_empty write_output) of
           None \<Rightarrow> fs
         | Some entity \<Rightarrow>
             fold (\<lambda>f. (if verdict = Confirmed then corroborate else weaken) (ef_fact_id f)) (current_facts entity ws fs) fs))"

section \<open>One current fact for each attribute\<close>

lemma at_most_one:
  assumes "distinct (map h xs)" and "\<forall>x \<in> set xs. h x = c"
  shows "xs = [] \<or> (\<exists>x. xs = [x])"
  using assms by (cases xs rule: remdups_adj.cases) auto

lemma find_filter: "find p xs = (case filter p xs of [] \<Rightarrow> None | x # _ \<Rightarrow> Some x)"
  by (induction xs) auto

text \<open>With the index in place the query finds the current row, or none.\<close>

lemma current_fact_ok:
  assumes "table_ok fs"
  shows "current_fact e k ws fs = Inr (find (\<lambda>f. slot f = (e, k) \<and> ef_workspace_id f = ws \<and> is_current f) fs)"
proof -
  let ?p = "\<lambda>f. slot f = (e, k) \<and> ef_workspace_id f = ws \<and> is_current f"
  have rows: "filter ?p fs = filter (\<lambda>f. slot f = (e, k) \<and> ef_workspace_id f = ws) (filter is_current fs)"
    unfolding filter_filter by (rule filter_cong) auto
  have "distinct (map slot (filter ?p fs))"
    unfolding rows by (rule distinct_map_filter) (use assms in \<open>simp add: table_ok_def\<close>)
  from at_most_one[OF this, of "(e, k)"] have "filter ?p fs = [] \<or> (\<exists>f. filter ?p fs = [f])"
    by simp
  then show ?thesis unfolding current_fact_def find_filter by (elim disjE exE) simp_all
qed

text \<open>Closing the current row of a slot makes room for one new row in it.\<close>

lemma table_ok_close:
  assumes "table_ok fs" and "f \<in> set fs" and "is_current f" and "slot n = slot f" and "ef_fact_id n \<notin> ef_fact_id ` set fs"
  shows "table_ok (close_fact (ef_fact_id f) s now fs @ [n])"
proof -
  let ?fs = "close_fact (ef_fact_id f) s now fs"
  have ids: "map ef_fact_id ?fs = map ef_fact_id fs"
    by (auto simp: close_fact_def row_update_def)
  have rest: "filter is_current ?fs = filter (\<lambda>g. is_current g \<and> ef_fact_id g \<noteq> ef_fact_id f) fs"
    by (induction fs) (auto simp: close_fact_def is_current_def row_update_def)
  have d: "distinct (map slot (filter is_current fs))" using assms(1) by (simp add: table_ok_def)
  have "distinct (map slot (filter is_current ?fs))"
    unfolding rest using distinct_map_filter[OF d, of "\<lambda>g. ef_fact_id g \<noteq> ef_fact_id f"] by (simp add: conj_commute)
  moreover have "slot f \<notin> slot ` set (filter is_current ?fs)"
  proof
    assume "slot f \<in> slot ` set (filter is_current ?fs)"
    then obtain g where g: "g \<in> set (filter is_current fs)" "ef_fact_id g \<noteq> ef_fact_id f" "slot g = slot f"
      unfolding rest by auto
    moreover have "f \<in> set (filter is_current fs)" using assms(2,3) by simp
    ultimately have "g = f" using d by (auto simp: distinct_map dest: inj_onD)
    with g(2) show False by simp
  qed
  moreover have "ef_fact_id n \<notin> set (map ef_fact_id ?fs)" "distinct (map ef_fact_id ?fs)"
    using assms(1,5) unfolding ids by (simp_all add: table_ok_def)
  ultimately show ?thesis using assms(4) by (auto simp: table_ok_def)
qed

lemma table_ok_insert:
  assumes "table_ok fs" and "\<forall>f \<in> set fs. is_current f \<longrightarrow> slot f \<noteq> slot n" and "ef_fact_id n \<notin> ef_fact_id ` set fs"
  shows "table_ok (fs @ [n])"
  using assms by (auto simp: table_ok_def)

lemma table_ok_update:
  assumes "\<And>f. ef_fact_id (g f) = ef_fact_id f \<and> slot (g f) = slot f \<and> ef_valid_to (g f) = ef_valid_to f"
  shows "table_ok (row_update ef_fact_id i g fs) = table_ok fs"
proof -
  have "map ef_fact_id (row_update ef_fact_id i g fs) = map ef_fact_id fs"
    using assms by (auto simp: row_update_def)
  moreover have "map slot (filter is_current (row_update ef_fact_id i g fs)) = map slot (filter is_current fs)"
    unfolding row_update_def filter_map map_map
    using assms by (auto simp: is_current_def comp_def intro!: arg_cong2[where f=map] filter_cong)
  ultimately show ?thesis by (simp add: table_ok_def)
qed

abbreviation in_slot :: "fact_observation \<Rightarrow> entity_fact \<Rightarrow> bool" where
  "in_slot ob f \<equiv> slot f = (ob_entity_id ob, ob_attr_key ob) \<and> ef_workspace_id f = ob_workspace_id ob \<and> is_current f"

lemma find_row: "find p fs = Some f \<Longrightarrow> f \<in> set fs \<and> p f"
  by (induction fs) (auto split: if_splits)

lemma find_none: "find p fs = None \<longleftrightarrow> (\<forall>f \<in> set fs. \<not> p f)"
  by (induction fs) auto

lemma updates_keep_slot:
  "ef_fact_id (corroborated c f) = ef_fact_id f \<and> slot (corroborated c f) = slot f \<and> ef_valid_to (corroborated c f) = ef_valid_to f"
  "ef_fact_id (raised f) = ef_fact_id f \<and> slot (raised f) = slot f \<and> ef_valid_to (raised f) = ef_valid_to f"
  "ef_fact_id (weakened f) = ef_fact_id f \<and> slot (weakened f) = slot f \<and> ef_valid_to (weakened f) = ef_valid_to f"
  by (simp_all add: corroborated_def raised_def weakened_def slot_def)

text \<open>An attempt either leaves a good table or raises with the rows of the others.\<close>

lemma observe_once_ok:
  assumes "table_ok fs" and "table_ok (fe_race env retry fs)"
  shows "table_ok (snd (observe_once env ob retry fs))"
  using assms
  by (auto simp: observe_once_def current_fact_ok Let_def table_ok_update updates_keep_slot split: option.splits)

text \<open>An attempt that nobody disturbs succeeds: the observed value, or one equal to it, is current.\<close>

lemma observe_once_undisturbed:
  assumes ok: "table_ok fs" and calm: "fe_race env retry fs = fs"
    and fresh: "fe_ulid env fs \<notin> ef_fact_id ` set fs"
    and ws: "\<forall>f \<in> set fs. ef_entity_id f = ob_entity_id ob \<longrightarrow> ef_workspace_id f = ob_workspace_id ob"
  shows "case find (in_slot ob) fs of
      None \<Rightarrow> observe_once env ob retry fs = (Inr (fe_ulid env fs, False), fs @ [new_fact env ob (fe_ulid env fs)])
        \<and> table_ok (fs @ [new_fact env ob (fe_ulid env fs)])
    | Some f \<Rightarrow>
        if values_equal (ef_attr_value f) (ob_attr_value ob)
        then observe_once env ob retry fs = (Inr (ef_fact_id f, False), row_update ef_fact_id (ef_fact_id f) (corroborated (ob_origin ob)) fs)
        else observe_once env ob retry fs = (Inr (fe_ulid env fs, True),
            close_fact (ef_fact_id f) (fe_ulid env fs) (ob_now ob) fs @ [new_fact env ob (fe_ulid env fs)])
          \<and> table_ok (close_fact (ef_fact_id f) (fe_ulid env fs) (ob_now ob) fs @ [new_fact env ob (fe_ulid env fs)])"
proof -
  let ?n = "new_fact env ob (fe_ulid env fs)"
  have n: "slot ?n = (ob_entity_id ob, ob_attr_key ob)" "ef_fact_id ?n = fe_ulid env fs" by (simp_all add: new_fact_def slot_def)
  have cur: "current_fact (ob_entity_id ob) (ob_attr_key ob) (ob_workspace_id ob) fs = Inr (find (in_slot ob) fs)"
    by (rule current_fact_ok[OF ok])
  show ?thesis
  proof (cases "find (in_slot ob) fs")
    case None
    have "\<forall>f \<in> set fs. is_current f \<longrightarrow> slot f \<noteq> slot ?n"
      using None[unfolded find_none] ws unfolding n by (auto simp: slot_def)
    from table_ok_insert[OF ok this] fresh have "table_ok (fs @ [?n])" by (simp add: n)
    then show ?thesis using None by (simp add: observe_once_def cur calm Let_def)
  next
    case (Some f)
    from find_row[OF Some] have f: "f \<in> set fs" "in_slot ob f" by auto
    have "table_ok (close_fact (ef_fact_id f) (fe_ulid env fs) (ob_now ob) fs @ [?n])"
      using f fresh by (intro table_ok_close[OF ok]) (simp_all add: n)
    then show ?thesis using Some by (simp add: observe_once_def cur calm Let_def)
  qed
qed


lemma current_fact_is:
  assumes "table_ok fs" and "f \<in> set fs" and "slot f = (e, k)" and "ef_workspace_id f = ws" and "is_current f"
  shows "current_fact e k ws fs = Inr (Some f)"
proof -
  let ?p = "\<lambda>f. slot f = (e, k) \<and> ef_workspace_id f = ws \<and> is_current f"
  obtain g where g: "find ?p fs = Some g"
    using assms(2-5) find_none[of ?p fs] by (cases "find ?p fs") auto
  with find_row[OF g] assms(2-5) have "f \<in> set (filter is_current fs)" "g \<in> set (filter is_current fs)" "slot f = slot g"
    by auto
  moreover have "inj_on slot (set (filter is_current fs))"
    using assms(1) by (simp add: table_ok_def distinct_map del: set_filter)
  ultimately have "g = f" by (simp add: inj_onD del: set_filter)
  then show ?thesis using g by (simp add: current_fact_ok[OF assms(1)])
qed

text \<open>A current row of the slot that holds the observed value, under the identifier returned.\<close>

definition recorded :: "fact_observation \<Rightarrow> string \<Rightarrow> facts \<Rightarrow> bool" where
  "recorded ob fid fs =
     (case current_fact (ob_entity_id ob) (ob_attr_key ob) (ob_workspace_id ob) fs of
        Inr (Some f) \<Rightarrow> ef_fact_id f = fid \<and> (ef_attr_value f = ob_attr_value ob \<or> values_equal (ef_attr_value f) (ob_attr_value ob))
      | _ \<Rightarrow> False)"

lemma recorded_row:
  assumes "table_ok fs" and "f \<in> set fs" and "in_slot ob f" and "ef_attr_value f = ob_attr_value ob \<or> values_equal (ef_attr_value f) (ob_attr_value ob)"
  shows "recorded ob (ef_fact_id f) fs"
  using current_fact_is[OF assms(1,2)] assms(3,4) by (simp add: recorded_def)

lemma recorded_insert:
  "table_ok (rows @ [new_fact env ob fid]) \<Longrightarrow> recorded ob fid (rows @ [new_fact env ob fid])"
  using recorded_row[of "rows @ [new_fact env ob fid]" "new_fact env ob fid" ob]
  by (simp add: new_fact_def slot_def is_current_def)

lemma observe_once_result:
  assumes ok: "table_ok fs"
  shows "observe_once env ob retry fs = (Inl IntegrityError, fe_race env retry fs)
    \<or> (\<exists>fid b fs'. observe_once env ob retry fs = (Inr (fid, b), fs') \<and> recorded ob fid fs')"
proof (cases "find (in_slot ob) fs")
  case None
  then show ?thesis
    using recorded_insert[of "fe_race env retry fs" env ob "fe_ulid env (fe_race env retry fs)"]
    by (auto simp: observe_once_def current_fact_ok[OF ok] Let_def)
next
  case (Some f)
  let ?fid = "fe_ulid env (fe_race env retry fs)"
  let ?upd = "row_update ef_fact_id (ef_fact_id f) (corroborated (ob_origin ob)) fs"
  from find_row[OF Some] have f: "f \<in> set fs" "in_slot ob f" by auto
  show ?thesis
  proof (cases "values_equal (ef_attr_value f) (ob_attr_value ob)")
    case True
    have "table_ok ?upd" using ok by (simp add: table_ok_update updates_keep_slot)
    moreover have "corroborated (ob_origin ob) f \<in> set ?upd" using f(1) by (force simp: row_update_def)
    moreover have "in_slot ob (corroborated (ob_origin ob) f)" using f(2) by (simp add: corroborated_def slot_def is_current_def)
    ultimately have "recorded ob (ef_fact_id (corroborated (ob_origin ob) f)) ?upd"
      using True by (intro recorded_row) (simp_all add: corroborated_def)
    then show ?thesis using Some True by (auto simp: observe_once_def current_fact_ok[OF ok] Let_def updates_keep_slot)
  next
    case False
    then show ?thesis
      using Some recorded_insert[of "close_fact (ef_fact_id f) ?fid (ob_now ob) (fe_race env retry fs)" env ob ?fid]
      by (auto simp: observe_once_def current_fact_ok[OF ok] Let_def)
  qed
qed

text \<open>Losing the race once is harmless: if another writer takes the slot between the read and the
  insert, and nobody interferes with the second decision, the call succeeds, and then the slot's one
  current row holds the observed value.\<close>

lemma lost_race_is_decided_again:
  assumes "table_ok fs" and "table_ok (fe_race env True fs)"
    and "\<And>rows. fe_race env False rows = rows" and "\<And>rows. fe_ulid env rows \<notin> ef_fact_id ` set rows"
    and "\<forall>f \<in> set (fe_race env True fs). ef_entity_id f = ob_entity_id ob \<longrightarrow> ef_workspace_id f = ob_workspace_id ob"
  shows "\<exists>fid b fs'. record_fact env ob fs = (Inr (fid, b), fs') \<and> recorded ob fid fs'"
proof (cases "fst (observe_once env ob True fs) = Inl IntegrityError")
  case False
  with observe_once_result[OF assms(1), of env ob True] show ?thesis
    by (auto simp: record_fact_def)
next
  case True
  with observe_once_result[OF assms(1), of env ob True]
  have r: "record_fact env ob fs = observe_once env ob False (fe_race env True fs)"
    by (auto simp: record_fact_def)
  have "\<exists>x. fst (observe_once env ob False (fe_race env True fs)) = Inr x"
    using observe_once_undisturbed[OF assms(2) assms(3) assms(4) assms(5)]
    by (auto split: option.splits if_splits)
  with observe_once_result[OF assms(2), of env ob False] show ?thesis unfolding r by auto
qed

section \<open>The past is kept\<close>

text \<open>Rows written up to an instant: intervals are in order, and two rows of one slot never overlap.\<close>

definition written_until :: "instant \<Rightarrow> facts \<Rightarrow> bool" where
  "written_until n fs =
     (table_ok fs
      \<and> (\<forall>f \<in> set fs. ef_valid_from f \<le> n \<and> (case ef_valid_to f of None \<Rightarrow> True | Some u \<Rightarrow> u \<le> n))
      \<and> (\<forall>f \<in> set fs. \<forall>g \<in> set fs. \<forall>t. slot f = slot g \<and> valid_at t f \<and> valid_at t g \<longrightarrow> f = g))"

definition value_as_of :: "string \<Rightarrow> string \<Rightarrow> facts \<Rightarrow> string \<Rightarrow> instant \<Rightarrow> json option" where
  "value_as_of entity ws fs key t =
     map_option ef_attr_value (find (\<lambda>f. ef_attr_key f = key) (facts_as_of entity ws t fs))"

lemma value_as_of_iff:
  assumes "written_until n fs"
  shows "value_as_of e ws fs k t = Some v \<longleftrightarrow>
    (\<exists>f \<in> set fs. slot f = (e, k) \<and> ef_workspace_id f = ws \<and> valid_at t f \<and> ef_attr_value f = v)"
proof
  assume "value_as_of e ws fs k t = Some v"
  then show "\<exists>f \<in> set fs. slot f = (e, k) \<and> ef_workspace_id f = ws \<and> valid_at t f \<and> ef_attr_value f = v"
    by (auto simp: value_as_of_def facts_as_of_def slot_def dest!: find_row)
next
  assume "\<exists>f \<in> set fs. slot f = (e, k) \<and> ef_workspace_id f = ws \<and> valid_at t f \<and> ef_attr_value f = v"
  then obtain f where f: "f \<in> set fs" "slot f = (e, k)" "ef_workspace_id f = ws" "valid_at t f" "ef_attr_value f = v" by blast
  then obtain g where g: "find (\<lambda>f. ef_attr_key f = k) (facts_as_of e ws t fs) = Some g"
    using find_none[of "\<lambda>f. ef_attr_key f = k" "facts_as_of e ws t fs"]
    by (cases "find (\<lambda>f. ef_attr_key f = k) (facts_as_of e ws t fs)") (auto simp: facts_as_of_def slot_def)
  from find_row[OF this] have "g \<in> set fs" "slot g = (e, k)" "valid_at t g" by (auto simp: facts_as_of_def slot_def)
  with f assms have "g = f" by (metis written_until_def)
  with f(5) g show "value_as_of e ws fs k t = Some v" by (simp add: value_as_of_def)
qed

text \<open>Two stores with the same rows valid at an instant give the same answer there.\<close>

lemma value_as_of_cong:
  assumes "written_until n fs" and "written_until m gs"
    and "\<And>v. (\<exists>f \<in> set fs. slot f = (e, k) \<and> ef_workspace_id f = ws \<and> valid_at t f \<and> ef_attr_value f = v)
      = (\<exists>f \<in> set gs. slot f = (e, k) \<and> ef_workspace_id f = ws \<and> valid_at t f \<and> ef_attr_value f = v)"
  shows "value_as_of e ws fs k t = value_as_of e ws gs k t"
proof (cases "value_as_of e ws fs k t")
  case None
  then show ?thesis
    using value_as_of_iff[OF assms(1), of e ws k t] value_as_of_iff[OF assms(2), of e ws k t] assms(3)
    by (metis option.exhaust)
next
  case (Some v)
  then have "value_as_of e ws gs k t = Some v"
    using value_as_of_iff[OF assms(1), of e ws k t] value_as_of_iff[OF assms(2), of e ws k t] assms(3) by blast
  with Some show ?thesis by simp
qed

lemma written_until_mono: "written_until n fs \<Longrightarrow> n \<le> m \<Longrightarrow> written_until m fs"
  by (fastforce simp: written_until_def split: option.splits)

text \<open>Changing confidences and counters leaves the timeline alone.\<close>

lemma written_until_update:
  assumes "\<And>f. ef_fact_id (g f) = ef_fact_id f \<and> slot (g f) = slot f \<and> ef_valid_to (g f) = ef_valid_to f \<and> ef_valid_from (g f) = ef_valid_from f"
    and "written_until n fs"
  shows "written_until n (row_update ef_fact_id i g fs)"
proof -
  have v: "valid_at t (g f) = valid_at t f" for t f using assms(1) by (simp add: valid_at_def)
  have "table_ok (row_update ef_fact_id i g fs)"
    using assms by (subst table_ok_update) (auto simp: written_until_def)
  then show ?thesis
    using assms unfolding written_until_def
    by (auto simp: row_update_def v split: option.splits) (metis | blast)+
qed

lemma written_until_insert:
  assumes "written_until m fs" and "table_ok (fs @ [x])" and "ef_valid_from x = m" and "ef_valid_to x = None"
    and "\<forall>f \<in> set fs. slot f = slot x \<longrightarrow> \<not> is_current f"
  shows "written_until m (fs @ [x])"
proof -
  have "\<not> (valid_at t f \<and> valid_at t x)" if "f \<in> set fs" "slot f = slot x" for f t
    using that assms(1,3,5) by (force simp: written_until_def valid_at_def is_current_def split: option.splits)
  with assms show ?thesis unfolding written_until_def by (auto split: option.splits)
qed

lemma written_until_close:
  assumes "written_until n fs" and "n \<le> m" and "table_ok (close_fact i s m fs)"
    and "\<And>f. f \<in> set fs \<Longrightarrow> ef_fact_id f = i \<Longrightarrow> is_current f"
  shows "written_until m (close_fact i s m fs)"
proof -
  let ?c = "\<lambda>f. if ef_fact_id f = i then f\<lparr>ef_valid_to := Some m, ef_superseded_by := Some s\<rparr> else f"
  have c: "set (close_fact i s m fs) = ?c ` set fs" by (simp add: close_fact_def row_update_def)
  have v: "valid_at t (?c f) \<Longrightarrow> valid_at t f" "slot (?c f) = slot f" if "f \<in> set fs" for t f
    using that assms(4)[of f] by (cases "ef_fact_id f = i"; simp add: valid_at_def is_current_def slot_def)+
  have "ef_valid_from (?c f) \<le> m \<and> (case ef_valid_to (?c f) of None \<Rightarrow> True | Some u \<Rightarrow> u \<le> m)" if "f \<in> set fs" for f
    using that assms(1,2) by (fastforce simp: written_until_def split: option.splits)
  moreover have "?c f = ?c g" if "f \<in> set fs" "g \<in> set fs" "slot (?c f) = slot (?c g)" "valid_at t (?c f)" "valid_at t (?c g)" for f g t
    using that v assms(1) unfolding written_until_def by metis
  ultimately show ?thesis using assms(3) unfolding written_until_def c by blast
qed

text \<open>What the slot holds after an observation: the value already there when it is equal.\<close>

definition kept_value :: "fact_observation \<Rightarrow> facts \<Rightarrow> json" where
  "kept_value ob fs =
     (case find (in_slot ob) fs of
        Some f \<Rightarrow> if values_equal (ef_attr_value f) (ob_attr_value ob) then ef_attr_value f else ob_attr_value ob
      | None \<Rightarrow> ob_attr_value ob)"

definition one_workspace :: "fact_observation \<Rightarrow> facts \<Rightarrow> bool" where
  "one_workspace ob fs = (\<forall>f \<in> set fs. ef_entity_id f = ob_entity_id ob \<longrightarrow> ef_workspace_id f = ob_workspace_id ob)"

text \<open>No other writer, and identifiers that are new.\<close>

definition undisturbed :: "fact_env \<Rightarrow> bool" where
  "undisturbed env = ((\<forall>retry rows. fe_race env retry rows = rows) \<and> (\<forall>rows. fe_ulid env rows \<notin> ef_fact_id ` set rows))"

abbreviation asserts :: "string \<Rightarrow> string \<Rightarrow> string \<Rightarrow> instant \<Rightarrow> json \<Rightarrow> facts \<Rightarrow> bool" where
  "asserts e k ws t v fs \<equiv> \<exists>f \<in> set fs. slot f = (e, k) \<and> ef_workspace_id f = ws \<and> valid_at t f \<and> ef_attr_value f = v"

lemma value_as_of_step:
  assumes "written_until n fs" and "written_until m gs"
    and "\<And>v. asserts e k ws t v gs = (if here then v = u else asserts e k ws t v fs)"
  shows "value_as_of e ws gs k t = (if here then Some u else value_as_of e ws fs k t)"
proof (cases here)
  case True
  then show ?thesis using value_as_of_iff[OF assms(2), of e ws k t u] assms(3) by simp
next
  case False
  then show ?thesis using value_as_of_cong[OF assms(2,1), of e k ws t] assms(3) by simp
qed

text \<open>The three outcomes of an observation nobody disturbs.\<close>

lemma record_fact_cases:
  assumes "written_until n fs" and "undisturbed env" and "one_workspace ob fs"
  obtains (fresh) "find (in_slot ob) fs = None"
      "snd (record_fact env ob fs) = fs @ [new_fact env ob (fe_ulid env fs)]" "table_ok (fs @ [new_fact env ob (fe_ulid env fs)])"
  | (same) f where "find (in_slot ob) fs = Some f" "values_equal (ef_attr_value f) (ob_attr_value ob)"
      "snd (record_fact env ob fs) = row_update ef_fact_id (ef_fact_id f) (corroborated (ob_origin ob)) fs"
  | (changed) f where "find (in_slot ob) fs = Some f" "\<not> values_equal (ef_attr_value f) (ob_attr_value ob)"
      "snd (record_fact env ob fs) = close_fact (ef_fact_id f) (fe_ulid env fs) (ob_now ob) fs @ [new_fact env ob (fe_ulid env fs)]"
      "table_ok (close_fact (ef_fact_id f) (fe_ulid env fs) (ob_now ob) fs @ [new_fact env ob (fe_ulid env fs)])"
proof -
  have ok: "table_ok fs" using assms(1) by (simp add: written_until_def)
  have "fe_race env True fs = fs" "fe_ulid env fs \<notin> ef_fact_id ` set fs" using assms(2) by (auto simp: undisturbed_def)
  note r = observe_once_undisturbed[OF ok this assms(3)[unfolded one_workspace_def]]
  show ?thesis
  proof (cases "find (in_slot ob) fs")
    case None
    with r show ?thesis by (intro fresh) (simp_all add: record_fact_def)
  next
    case (Some f)
    with r show ?thesis
      by (cases "values_equal (ef_attr_value f) (ob_attr_value ob)")
        (auto simp: record_fact_def intro: same[OF Some] changed[OF Some])
  qed
qed

lemma new_fact_row:
  "slot (new_fact env ob i) = (ob_entity_id ob, ob_attr_key ob)" "ef_workspace_id (new_fact env ob i) = ob_workspace_id ob"
  "valid_at t (new_fact env ob i) = (ob_now ob \<le> t)" "ef_attr_value (new_fact env ob i) = ob_attr_value ob"
  "ef_valid_from (new_fact env ob i) = ob_now ob" "ef_valid_to (new_fact env ob i) = None" "ef_fact_id (new_fact env ob i) = i"
  by (simp_all add: new_fact_def slot_def valid_at_def)

lemma none_late:
  assumes "written_until m fs" and "m \<le> t" and "\<forall>g \<in> set fs. slot g = (e, k) \<longrightarrow> \<not> is_current g"
  shows "\<not> asserts e k ws t v fs"
proof
  assume "asserts e k ws t v fs"
  then obtain g where "g \<in> set fs" "slot g = (e, k)" "valid_at t g" by blast
  with assms show False by (force simp: written_until_def valid_at_def is_current_def split: option.splits)
qed

lemma table_ok_appendD: "table_ok (fs @ [x]) \<Longrightarrow> table_ok fs"
  by (auto simp: table_ok_def)

lemma insert_answers:
  assumes "written_until (ob_now ob) fs" and "\<forall>g \<in> set fs. slot g = (ob_entity_id ob, ob_attr_key ob) \<longrightarrow> \<not> is_current g"
  shows "asserts e k ws t v (fs @ [new_fact env ob i]) =
    (if (e, k, ws) = (ob_entity_id ob, ob_attr_key ob, ob_workspace_id ob) \<and> ob_now ob \<le> t then v = ob_attr_value ob else asserts e k ws t v fs)"
  using none_late[OF assms(1) _ assms(2), of t ws v] by (auto simp: new_fact_row)

lemma same_row:
  assumes "table_ok fs" and "f \<in> set fs" and "g \<in> set fs" and "ef_fact_id g = ef_fact_id f"
  shows "g = f"
  using assms by (auto simp: table_ok_def distinct_map dest: inj_onD)

lemma slot_free_after_close:
  assumes "table_ok fs" and "f \<in> set fs" and "is_current f" and "g \<in> set (close_fact (ef_fact_id f) s m fs)" and "slot g = slot f"
  shows "\<not> is_current g"
proof
  assume g: "is_current g"
  with assms(4) have "g \<in> set fs" "ef_fact_id g \<noteq> ef_fact_id f"
    by (auto simp: close_fact_def row_update_def is_current_def split: if_splits)
  moreover have "inj_on slot (set (filter is_current fs))"
    using assms(1) by (simp add: table_ok_def distinct_map del: set_filter)
  ultimately show False using assms(2,3,5) g by (auto dest: inj_onD)
qed

lemma ex_row_update: "(\<exists>r \<in> set (row_update key k f rs). p r) = (\<exists>r \<in> set rs. p (if key r = k then f r else r))"
  unfolding row_update_def set_map by blast

lemma close_answers:
  assumes "table_ok fs" and "f \<in> set fs" and "is_current f" and "\<not> (slot f = (e, k) \<and> ef_workspace_id f = ws \<and> m \<le> t)"
  shows "asserts e k ws t v (close_fact (ef_fact_id f) s m fs) = asserts e k ws t v fs"
proof -
  let ?c = "\<lambda>g. if ef_fact_id g = ef_fact_id f then g\<lparr>ef_valid_to := Some m, ef_superseded_by := Some s\<rparr> else g"
  let ?p = "\<lambda>g. slot g = (e, k) \<and> ef_workspace_id g = ws \<and> valid_at t g \<and> ef_attr_value g = v"
  have "?p (?c g) = ?p g" if "g \<in> set fs" for g
  proof (cases "ef_fact_id g = ef_fact_id f")
    case True
    with same_row[OF assms(1,2) that] have "g = f" by simp
    then show ?thesis using assms(3,4) by (auto simp: slot_def valid_at_def is_current_def)
  qed simp
  then show ?thesis unfolding close_fact_def ex_row_update by blast
qed

lemma corroborated_row:
  "ef_workspace_id (corroborated c f) = ef_workspace_id f" "slot (corroborated c f) = slot f"
  "ef_attr_value (corroborated c f) = ef_attr_value f" "valid_at t (corroborated c f) = valid_at t f"
  "ef_valid_from (corroborated c f) = ef_valid_from f" "ef_entity_id (corroborated c f) = ef_entity_id f"
  by (simp_all add: corroborated_def slot_def valid_at_def)

lemma record_fact_timeline:
  assumes "written_until n fs" and "n \<le> ob_now ob" and "undisturbed env" and "one_workspace ob fs"
  shows "written_until (ob_now ob) (snd (record_fact env ob fs)) \<and> one_workspace ob (snd (record_fact env ob fs))
    \<and> value_as_of e ws (snd (record_fact env ob fs)) k t =
        (if (e, k, ws) = (ob_entity_id ob, ob_attr_key ob, ob_workspace_id ob) \<and> ob_now ob \<le> t then Some (kept_value ob fs)
         else value_as_of e ws fs k t)"
proof -
  let ?n = "new_fact env ob (fe_ulid env fs)"
  let ?slot = "(ob_entity_id ob, ob_attr_key ob)"
  note w = written_until_mono[OF assms(1,2)]
  have ok: "table_ok fs" using assms(1) by (simp add: written_until_def)
  from assms(1,3,4) show ?thesis
  proof (cases rule: record_fact_cases)
    case fresh
    have free: "\<forall>g \<in> set fs. slot g = ?slot \<longrightarrow> \<not> is_current g"
      using fresh(1)[unfolded find_none] assms(4) by (auto simp: slot_def one_workspace_def)
    have "written_until (ob_now ob) (fs @ [?n])"
      using w fresh(3) free by (intro written_until_insert) (simp_all add: new_fact_row)
    moreover from insert_answers[OF w free]
    have "value_as_of e ws (fs @ [?n]) k t = (if (e, k, ws) = (ob_entity_id ob, ob_attr_key ob, ob_workspace_id ob) \<and> ob_now ob \<le> t
        then Some (ob_attr_value ob) else value_as_of e ws fs k t)"
      by (intro value_as_of_step[OF w calculation])
    ultimately show ?thesis
      using assms(4) fresh(1) by (simp add: fresh(2) kept_value_def one_workspace_def new_fact_row)
  next
    case (same f)
    let ?fs = "row_update ef_fact_id (ef_fact_id f) (corroborated (ob_origin ob)) fs"
    from find_row[OF same(1)] have f: "f \<in> set fs" "in_slot ob f" by auto
    have u: "written_until (ob_now ob) ?fs"
      using w by (intro written_until_update) (simp_all add: updates_keep_slot corroborated_row)
    have "asserts e k ws t v ?fs = asserts e k ws t v fs" for v
      unfolding ex_row_update by (intro bex_cong) (auto simp: corroborated_row)
    from value_as_of_cong[OF u w this] have v: "value_as_of e ws ?fs k t = value_as_of e ws fs k t" .
    have "valid_at t f" if "ob_now ob \<le> t"
      using that f w by (force simp: written_until_def valid_at_def is_current_def)
    then have "value_as_of e ws fs k t = Some (ef_attr_value f)"
      if "(e, k, ws) = (ob_entity_id ob, ob_attr_key ob, ob_workspace_id ob)" "ob_now ob \<le> t"
      using that f value_as_of_iff[OF w, of e ws k t "ef_attr_value f"] by auto
    moreover have "one_workspace ob ?fs"
      using assms(4) by (auto simp: one_workspace_def row_update_def corroborated_row)
    ultimately show ?thesis using u v same(1,2) by (simp add: same(3) kept_value_def)
  next
    case (changed f)
    let ?cl = "close_fact (ef_fact_id f) (fe_ulid env fs) (ob_now ob) fs"
    from find_row[OF changed(1)] have f: "f \<in> set fs" "slot f = ?slot" "ef_workspace_id f = ob_workspace_id ob" "is_current f" by auto
    have cl: "written_until (ob_now ob) ?cl"
      using same_row[OF ok f(1)] f(4) by (intro written_until_close[OF assms(1,2)] table_ok_appendD[OF changed(4)]) auto
    have free: "\<forall>g \<in> set ?cl. slot g = ?slot \<longrightarrow> \<not> is_current g"
      using slot_free_after_close[OF ok f(1,4)] f(2) by auto
    have all: "written_until (ob_now ob) (?cl @ [?n])"
      using cl changed(4) free by (intro written_until_insert) (simp_all add: new_fact_row)
    have "asserts e k ws t v (?cl @ [?n]) = (if (e, k, ws) = (ob_entity_id ob, ob_attr_key ob, ob_workspace_id ob) \<and> ob_now ob \<le> t
        then v = ob_attr_value ob else asserts e k ws t v fs)" for v
      using insert_answers[OF cl free, where e=e and k=k and ws=ws and t=t and v=v and env=env and i="fe_ulid env fs"]
        close_answers[OF ok f(1,4), where e=e and k=k and ws=ws and m="ob_now ob" and t=t and v=v and s="fe_ulid env fs"] f(2,3)
      by auto
    from value_as_of_step[OF w all this]
    have "value_as_of e ws (?cl @ [?n]) k t = (if (e, k, ws) = (ob_entity_id ob, ob_attr_key ob, ob_workspace_id ob) \<and> ob_now ob \<le> t
        then Some (ob_attr_value ob) else value_as_of e ws fs k t)" .
    moreover have "one_workspace ob (?cl @ [?n])"
      using assms(4) by (auto simp: one_workspace_def close_fact_def row_update_def new_fact_row)
    ultimately show ?thesis using all changed(1,2) by (simp add: changed(3) kept_value_def)
  qed
qed

section \<open>The store as a history\<close>

text \<open>
  What a reader of the past relies on. A store written up to an instant may be written at a later one;
  a write at \<open>m\<close> answers for its key from \<open>m\<close> on with a value that is the same as the one written, and
  changes no earlier answer and no other key.
\<close>

locale history =
  fixes good :: "instant \<Rightarrow> 's \<Rightarrow> bool"
    and answer :: "'s \<Rightarrow> 'k \<Rightarrow> instant \<Rightarrow> 'v option"
    and put :: "instant \<Rightarrow> 'k \<Rightarrow> 'v \<Rightarrow> 's \<Rightarrow> 's"
    and same :: "'v \<Rightarrow> 'v \<Rightarrow> bool"
  assumes good_put: "good n s \<Longrightarrow> n \<le> m \<Longrightarrow> good m (put m k v s)"
    and present: "good n s \<Longrightarrow> n \<le> m \<Longrightarrow> m \<le> t \<Longrightarrow> \<exists>u. answer (put m k v s) k t = Some u \<and> same u v"
    and elsewhere: "good n s \<Longrightarrow> n \<le> m \<Longrightarrow> t < m \<or> j \<noteq> k \<Longrightarrow> answer (put m k v s) j t = answer s j t"
begin

abbreviation writes :: "(instant \<times> 'k \<times> 'v) list \<Rightarrow> 's \<Rightarrow> 's" where
  "writes obs s \<equiv> fold (\<lambda>(m, k, v). put m k v) obs s"

abbreviation before :: "instant \<Rightarrow> 'k \<Rightarrow> instant \<times> 'k \<times> 'v \<Rightarrow> bool" where
  "before t k ob \<equiv> fst ob \<le> t \<and> fst (snd ob) = k"

lemma good_writes:
  assumes "good n s" and "sorted (n # map fst obs)"
  shows "good (last (n # map fst obs)) (writes obs s)"
  using assms
proof (induction obs arbitrary: n s)
  case (Cons ob obs)
  obtain m k v where ob: "ob = (m, k, v)" by (cases ob)
  from Cons.prems have "good m (put m k v s)" "sorted (m # map fst obs)" by (auto simp: ob intro: good_put)
  from Cons.IH[OF this] show ?case by (simp add: ob)
qed simp

lemma answer_is_last_write:
  assumes "good n s" and "sorted (n # map fst obs)"
  shows "if filter (before t k) obs = [] then answer (writes obs s) k t = answer s k t
    else \<exists>u. answer (writes obs s) k t = Some u \<and> same u (snd (snd (last (filter (before t k) obs))))"
  using assms(2)
proof (induction obs rule: rev_induct)
  case (snoc ob obs)
  obtain m j v where ob: "ob = (m, j, v)" by (cases ob)
  let ?n = "last (n # map fst obs)"
  have s: "sorted (n # map fst obs)" "\<forall>x \<in> set (n # map fst obs). x \<le> m"
    using snoc.prems by (auto simp: sorted_append ob)
  then have le: "?n \<le> m" by (metis last_in_set list.distinct(1))
  note g = good_writes[OF assms(1) s(1)]
  show ?case
  proof (cases "before t k ob")
    case True
    with present[OF g le, of t k v] show ?thesis by (simp add: ob)
  next
    case False
    then have "t < m \<or> k \<noteq> j" by (auto simp: ob)
    from elsewhere[OF g le this, of v] snoc.IH[OF s(1)] False show ?thesis
      by (auto simp: ob split: if_splits)
  qed
qed simp

end

text \<open>The store of one entity, written by observations alone.\<close>

definition observe_attr :: "fact_env \<Rightarrow> fact_observation \<Rightarrow> instant \<Rightarrow> string \<Rightarrow> json \<Rightarrow> facts \<Rightarrow> facts" where
  "observe_attr env ob m k v fs = snd (record_fact env (ob\<lparr>ob_attr_key := k, ob_attr_value := v, ob_now := m\<rparr>) fs)"

definition beliefs_until :: "fact_observation \<Rightarrow> instant \<Rightarrow> facts \<Rightarrow> bool" where
  "beliefs_until ob n fs = (written_until n fs \<and> one_workspace ob fs)"

definition same_value :: "json \<Rightarrow> json \<Rightarrow> bool" where
  "same_value u v = (u = v \<or> values_equal u v)"

lemma kept_value_same: "same_value (kept_value ob fs) (ob_attr_value ob)"
  by (simp add: same_value_def kept_value_def split: option.splits)

lemma store_is_history:
  assumes "undisturbed env"
  shows "history (beliefs_until ob) (value_as_of (ob_entity_id ob) (ob_workspace_id ob)) (observe_attr env ob) same_value"
proof -
  have obs: "written_until m (observe_attr env ob m k v fs) \<and> one_workspace ob (observe_attr env ob m k v fs)
      \<and> value_as_of (ob_entity_id ob) (ob_workspace_id ob) (observe_attr env ob m k v fs) j t =
        (if j = k \<and> m \<le> t then Some (kept_value (ob\<lparr>ob_attr_key := k, ob_attr_value := v, ob_now := m\<rparr>) fs)
         else value_as_of (ob_entity_id ob) (ob_workspace_id ob) fs j t)"
    if "beliefs_until ob n fs" "n \<le> m" for n m k v fs j t
    using record_fact_timeline[of n fs "ob\<lparr>ob_attr_key := k, ob_attr_value := v, ob_now := m\<rparr>" env "ob_entity_id ob" "ob_workspace_id ob" j t]
      assms that
    by (simp add: beliefs_until_def observe_attr_def one_workspace_def)
  show ?thesis
  proof (unfold_locales, goal_cases)
    case (1 n s m k v)
    then show ?case unfolding beliefs_until_def using obs[OF 1] by blast
  next
    case (2 n s m t k v)
    then show ?case using obs[OF 2(1,2), of k v k t] kept_value_same[of "ob\<lparr>ob_attr_key := k, ob_attr_value := v, ob_now := m\<rparr>" s] by simp
  next
    case (3 n s m t j k v)
    then show ?case using obs[OF 3(1,2), of k v j t] by auto
  qed
qed

text \<open>C18. The store is bi-temporal: however many observations of an entity are recorded, in order of time,
  the facts as of an instant are what was last observed up to it, and an attribute not observed by then
  has the answer it had before. Recording never rewrites what was believed at an earlier instant.\<close>

theorem as_of_answers_last_observation:
  assumes "undisturbed env" and "written_until n fs" and "one_workspace ob fs" and "sorted (n # map fst obs)"
  shows "(let fs' = fold (\<lambda>(m, k, v). observe_attr env ob m k v) obs fs; e = ob_entity_id ob; ws = ob_workspace_id ob;
          hits = filter (\<lambda>x. fst x \<le> t \<and> fst (snd x) = k) obs
      in if hits = [] then value_as_of e ws fs' k t = value_as_of e ws fs k t
         else \<exists>u. value_as_of e ws fs' k t = Some u \<and> same_value u (snd (snd (last hits))))"
  using history.answer_is_last_write[OF store_is_history[OF assms(1)], of ob n fs obs t k] assms(2-4)
  by (simp add: beliefs_until_def Let_def)

section \<open>Confidence and verdicts\<close>

lemma fold_update_rows:
  assumes "\<And>r. key (g r) = key r"
  shows "distinct (map key xs) \<Longrightarrow> fold (\<lambda>x. row_update key (key x) g) xs rs = map (\<lambda>r. if key r \<in> key ` set xs then g r else r) rs"
  by (induction xs arbitrary: rs) (auto simp: row_update_def assms)

text \<open>What a verdict does to beliefs: a confirmation raises and a contradiction weakens exactly the current
  facts of the entity that the write names, within the workspace; an unverified write, one without a
  workspace and one that names no entity change nothing; and whatever the verdict, every answer about
  values, present or past, stays the same.\<close>

lemma verdict_touches_current_beliefs:
  assumes "written_until n fs"
  shows "reconcile_verdict ws verdict wi wo fs =
      map (\<lambda>f. if verdict \<noteq> Unverified \<and> ws \<noteq> [] \<and> resolve_entity_id (dict_or_empty wi) (dict_or_empty wo) = Some (ef_entity_id f)
                   \<and> ef_workspace_id f = ws \<and> is_current f
                 then (if verdict = Confirmed then raised f else weakened f) else f) fs
    \<and> value_as_of e ws' (reconcile_verdict ws verdict wi wo fs) k t = value_as_of e ws' fs k t"
proof -
  have ok: "table_ok fs" using assms by (simp add: written_until_def)
  let ?g = "if verdict = Confirmed then raised else weakened"
  let ?touch = "\<lambda>f. verdict \<noteq> Unverified \<and> ws \<noteq> [] \<and> resolve_entity_id (dict_or_empty wi) (dict_or_empty wo) = Some (ef_entity_id f)
    \<and> ef_workspace_id f = ws \<and> is_current f"
  have upd: "fold (\<lambda>f. (if verdict = Confirmed then corroborate else weaken) (ef_fact_id f)) xs fs
      = fold (\<lambda>f. row_update ef_fact_id (ef_fact_id f) ?g) xs fs" for xs
    by (simp add: corroborate_def[abs_def] weaken_def[abs_def])
  have rows: "reconcile_verdict ws verdict wi wo fs = map (\<lambda>f. if ?touch f then ?g f else f) fs"
  proof (cases "verdict = Unverified \<or> ws = [] \<or> resolve_entity_id (dict_or_empty wi) (dict_or_empty wo) = None")
    case True
    then show ?thesis by (auto simp: reconcile_verdict_def)
  next
    case False
    then obtain e where e: "resolve_entity_id (dict_or_empty wi) (dict_or_empty wo) = Some e" by auto
    have "distinct (map ef_fact_id (current_facts e ws fs))"
      using ok by (auto simp: current_facts_def table_ok_def intro: distinct_map_filter)
    from fold_update_rows[OF _ this, of ?g fs]
    have "reconcile_verdict ws verdict wi wo fs =
        map (\<lambda>f. if ef_fact_id f \<in> ef_fact_id ` set (current_facts e ws fs) then ?g f else f) fs"
      using False e by (simp add: reconcile_verdict_def upd updates_keep_slot)
    also have "\<dots> = map (\<lambda>f. if ?touch f then ?g f else f) fs"
      using False e same_row[OF ok] by (auto simp: current_facts_def)
    finally show ?thesis .
  qed
  have keep: "ef_fact_id (?g f) = ef_fact_id f" "slot (?g f) = slot f" "ef_workspace_id (?g f) = ef_workspace_id f"
    "ef_attr_value (?g f) = ef_attr_value f" "valid_at t (?g f) = valid_at t f" "ef_valid_from (?g f) = ef_valid_from f"
    "ef_valid_to (?g f) = ef_valid_to f" for f t
    by (simp_all add: raised_def weakened_def slot_def valid_at_def)
  have "facts_as_of e ws' t (map (\<lambda>f. if ?touch f then ?g f else f) fs) = map (\<lambda>f. if ?touch f then ?g f else f) (facts_as_of e ws' t fs)"
    unfolding facts_as_of_def filter_map using keep by (auto simp: slot_def comp_def intro!: arg_cong2[where f=map] filter_cong)
  moreover have "map_option ef_attr_value (find (\<lambda>f. ef_attr_key f = k) (map (\<lambda>f. if ?touch f then ?g f else f) xs))
      = map_option ef_attr_value (find (\<lambda>f. ef_attr_key f = k) xs)" for xs
    using keep by (induction xs) (auto simp: slot_def)
  ultimately show ?thesis using rows by (auto simp: value_as_of_def)
qed

lemma reliability_range: "0 < reliability_for origin" "reliability_for origin < 1"
  by (auto simp: reliability_for_def SOURCE_RELIABILITY_def)

lemma fresh_confidence: "compute_confidence origin n 0 = 1 - (1 - real_of_rat (reliability_for origin)) ^ nat (max 1 n)"
proof -
  have "0 \<le> 1 - real_of_rat (reliability_for origin)" "1 - real_of_rat (reliability_for origin) \<le> 1"
    using reliability_range[of origin] by (simp_all add: less_imp_le)
  then have "0 \<le> (1 - real_of_rat (reliability_for origin)) ^ nat (max 1 n)" "(1 - real_of_rat (reliability_for origin)) ^ nat (max 1 n) \<le> 1"
    by (simp_all add: power_le_one)
  then show ?thesis by (simp add: compute_confidence_def age_factor_def clamp_def Let_def)
qed

lemma clamp_range: "0 \<le> clamp x" "clamp x \<le> 1"
  by (simp_all add: clamp_def)

lemma compute_confidence_range: "0 \<le> compute_confidence origin n d" "compute_confidence origin n d \<le> 1"
  by (simp_all add: compute_confidence_def clamp_range Let_def)

lemma row_update_all: "\<forall>r \<in> set rs. p r \<Longrightarrow> (\<And>r. p r \<Longrightarrow> p (h r)) \<Longrightarrow> \<forall>r \<in> set (row_update key k h rs). p r"
  by (auto simp: row_update_def)

lemma update_keeps_confidence:
  assumes "\<And>f. ef_fact_id (h f) = ef_fact_id f \<and> ef_confidence f \<le> ef_confidence (h f)"
  shows "\<forall>f \<in> set fs. \<exists>g \<in> set (row_update ef_fact_id i h fs). ef_fact_id g = ef_fact_id f \<and> ef_confidence f \<le> ef_confidence g"
proof
  fix f assume "f \<in> set fs"
  then have "(if ef_fact_id f = i then h f else f) \<in> set (row_update ef_fact_id i h fs)" by (auto simp: row_update_def)
  then show "\<exists>g \<in> set (row_update ef_fact_id i h fs). ef_fact_id g = ef_fact_id f \<and> ef_confidence f \<le> ef_confidence g"
    using assms[of f] by (rule_tac bexI) auto
qed

text \<open>A belief's confidence is a probability, and recording evidence never lowers it: every row that is
  there before an observation is there after it with at least its confidence, and if all confidences lie
  in the unit interval, so do all after the observation and after a verdict.\<close>

lemma evidence_never_lowers_confidence:
  assumes "written_until n fs" and "undisturbed env" and "one_workspace ob fs"
    and "\<forall>f \<in> set fs. 0 \<le> ef_confidence f \<and> ef_confidence f \<le> 1"
  shows "(\<forall>f \<in> set fs. \<exists>g \<in> set (snd (record_fact env ob fs)). ef_fact_id g = ef_fact_id f \<and> ef_confidence f \<le> ef_confidence g)
    \<and> (\<forall>f \<in> set (snd (record_fact env ob fs)). 0 \<le> ef_confidence f \<and> ef_confidence f \<le> 1)
    \<and> (\<forall>f \<in> set (reconcile_verdict ws verdict wi wo fs). 0 \<le> ef_confidence f \<and> ef_confidence f \<le> 1)"
proof -
  have h: "0 \<le> ef_confidence (raised f) \<and> ef_confidence (raised f) \<le> 1"
    "0 \<le> ef_confidence f \<and> ef_confidence f \<le> 1 \<Longrightarrow> 0 \<le> ef_confidence (weakened f) \<and> ef_confidence (weakened f) \<le> 1" for f
    by (simp_all add: raised_def weakened_def compute_confidence_range)
  have "\<forall>f \<in> set (fold (\<lambda>f. (if verdict = Confirmed then corroborate else weaken) (ef_fact_id f)) xs fs). 0 \<le> ef_confidence f \<and> ef_confidence f \<le> 1" for xs
    using assms(4)
  proof (induction xs arbitrary: fs)
    case (Cons x xs)
    have "\<forall>f \<in> set ((if verdict = Confirmed then corroborate else weaken) (ef_fact_id x) fs). 0 \<le> ef_confidence f \<and> ef_confidence f \<le> 1"
    proof (cases "verdict = Confirmed")
      case True
      show ?thesis unfolding if_P[OF True] corroborate_def by (rule row_update_all[OF Cons.prems]) (rule h(1))
    next
      case False
      show ?thesis unfolding if_not_P[OF False] weaken_def by (rule row_update_all[OF Cons.prems]) (rule h(2))
    qed
    from Cons.IH[OF this] show ?case by simp
  qed simp
  then have "\<forall>f \<in> set (reconcile_verdict ws verdict wi wo fs). 0 \<le> ef_confidence f \<and> ef_confidence f \<le> 1"
    using assms(4) unfolding reconcile_verdict_def
    by (cases "resolve_entity_id (dict_or_empty wi) (dict_or_empty wo)"; cases "verdict = Unverified \<or> ws = []")
      (simp_all only: option.case if_True if_False)
  moreover have n: "0 \<le> ef_confidence (new_fact env ob i) \<and> ef_confidence (new_fact env ob i) \<le> 1" for i
    by (simp add: new_fact_def compute_confidence_range)
  moreover from assms(1,2,3) have "(\<forall>f \<in> set fs. \<exists>g \<in> set (snd (record_fact env ob fs)). ef_fact_id g = ef_fact_id f \<and> ef_confidence f \<le> ef_confidence g)
    \<and> (\<forall>f \<in> set (snd (record_fact env ob fs)). 0 \<le> ef_confidence f \<and> ef_confidence f \<le> 1)"
  proof (cases rule: record_fact_cases)
    case fresh
    then show ?thesis using assms(4) n by auto
  next
    case (same f)
    have "0 \<le> ef_confidence (corroborated c g) \<and> ef_confidence (corroborated c g) \<le> 1" if "g \<in> set fs" for c g
      using that assms(4) compute_confidence_range[of c "ef_corroboration_count g + 1" 0] by (auto simp: corroborated_def)
    then have "\<forall>g \<in> set (row_update ef_fact_id (ef_fact_id f) (corroborated (ob_origin ob)) fs). 0 \<le> ef_confidence g \<and> ef_confidence g \<le> 1"
      using assms(4) by (auto simp: row_update_def)
    moreover have "\<forall>g \<in> set fs. \<exists>h \<in> set (row_update ef_fact_id (ef_fact_id f) (corroborated (ob_origin ob)) fs).
        ef_fact_id h = ef_fact_id g \<and> ef_confidence g \<le> ef_confidence h"
      by (rule update_keeps_confidence) (simp add: corroborated_def)
    ultimately show ?thesis unfolding same(3) by blast
  next
    case (changed f)
    let ?h = "\<lambda>g. g\<lparr>ef_valid_to := Some (ob_now ob), ef_superseded_by := Some (fe_ulid env fs)\<rparr>"
    have "\<forall>g \<in> set fs. \<exists>h \<in> set (row_update ef_fact_id (ef_fact_id f) ?h fs). ef_fact_id h = ef_fact_id g \<and> ef_confidence g \<le> ef_confidence h"
      by (rule update_keeps_confidence) simp
    moreover have "\<forall>g \<in> set (row_update ef_fact_id (ef_fact_id f) ?h fs). 0 \<le> ef_confidence g \<and> ef_confidence g \<le> 1"
      using assms(4) by (auto simp: row_update_def)
    ultimately show ?thesis using n unfolding changed(3) close_fact_def by auto
  qed
  ultimately show ?thesis by blast
qed

text \<open>A confirmation can lower a belief: \<open>corroborate\<close> recomputes the confidence from the origin of the
  first observation, without the maximum that \<open>record_fact\<close> takes. A fact first seen from one origin and
  then stated again from a better one loses confidence when a write about its entity is confirmed,
  exactly when three observations of the first origin weigh less than two of the second.\<close>

lemma confirmation_can_lower_belief:
  assumes "undisturbed env" and "ob_entity_id ob \<noteq> []" and "ob_workspace_id ob \<noteq> []" and "values_equal (ob_attr_value ob) (ob_attr_value ob)"
  shows "(let r = real_of_rat (reliability_for a); q = real_of_rat (reliability_for b);
          observed = snd (record_fact env (ob\<lparr>ob_origin := b\<rparr>) (snd (record_fact env (ob\<lparr>ob_origin := a\<rparr>) [])));
          confirmed = reconcile_verdict (ob_workspace_id ob) Confirmed (Some [(''entity_id'', JStr (ob_entity_id ob))]) None observed
      in map ef_confidence observed = [max r (1 - (1 - q) ^ 2)]
       \<and> map ef_confidence confirmed = [1 - (1 - r) ^ 3]
       \<and> ((\<exists>x y. map ef_confidence observed = [x] \<and> map ef_confidence confirmed = [y] \<and> y < x) = ((1 - q) ^ 2 < (1 - r) ^ 3)))"
proof -
  let ?r = "real_of_rat (reliability_for a)" and ?q = "real_of_rat (reliability_for b)"
  let ?f = "new_fact env (ob\<lparr>ob_origin := a\<rparr>) (fe_ulid env [])"
  have calm: "fe_race env retry rows = rows" for retry rows using assms(1) by (simp add: undisturbed_def)
  have 1: "snd (record_fact env (ob\<lparr>ob_origin := a\<rparr>) []) = [?f]"
    by (simp add: record_fact_def observe_once_def current_fact_def calm table_ok_def Let_def)
  have 2: "snd (record_fact env (ob\<lparr>ob_origin := b\<rparr>) [?f]) = [corroborated b ?f]"
    using assms(4) by (simp add: record_fact_def observe_once_def current_fact_def calm Let_def new_fact_def slot_def is_current_def)
  have 3: "reconcile_verdict (ob_workspace_id ob) Confirmed (Some [(''entity_id'', JStr (ob_entity_id ob))]) None [corroborated b ?f]
      = [raised (corroborated b ?f)]"
    using assms(2,3)
    by (simp add: reconcile_verdict_def resolve_entity_id_def jget_def dict_or_empty_def current_facts_def new_fact_def corroborated_def
        is_current_def corroborate_def)
  have c: "ef_confidence (corroborated b ?f) = max ?r (1 - (1 - ?q) ^ 2)"
    by (simp add: corroborated_def new_fact_def fresh_confidence eval_nat_numeral)
  have d: "ef_confidence (raised (corroborated b ?f)) = 1 - (1 - ?r) ^ 3"
    by (simp add: raised_def corroborated_def new_fact_def fact_origin_def jget_default_def dict_or_empty_def fresh_confidence eval_nat_numeral)
  have "(1 - ?r) ^ 3 \<le> 1 - ?r"
    using reliability_range[of a] power_decreasing[of 1 3 "1 - ?r"] by (simp add: less_imp_le)
  then have "1 - (1 - ?r) ^ 3 < max ?r (1 - (1 - ?q) ^ 2) \<longleftrightarrow> (1 - ?q) ^ 2 < (1 - ?r) ^ 3" by linarith
  then show ?thesis by (simp add: 1 2 3 c d Let_def)
qed

section \<open>Samples\<close>

text \<open>A generator of identifiers: longer than any in the table.\<close>

definition next_id :: "facts \<Rightarrow> string" where
  "next_id fs = replicate (Suc (sum_list (map (length \<circ> ef_fact_id) fs))) CHR ''f''"

definition quiet_env :: fact_env where
  "quiet_env = \<lparr>fe_ulid = next_id, fe_iso = (\<lambda>_. []), fe_race = (\<lambda>_ rows. rows)\<rparr>"

lemma quiet_env_undisturbed: "undisturbed quiet_env"
proof -
  have "length (ef_fact_id f) < length (next_id rows)" if "f \<in> set rows" for f rows
    using that member_le_sum_list[of "length (ef_fact_id f)" "map (length \<circ> ef_fact_id) rows"] by (force simp: next_id_def)
  then show ?thesis by (force simp: undisturbed_def quiet_env_def)
qed

interpretation beliefs: history "beliefs_until ob" "value_as_of (ob_entity_id ob) (ob_workspace_id ob)" "observe_attr quiet_env ob" same_value
  for ob
  by (rule store_is_history[OF quiet_env_undisturbed])

definition sample_ob :: fact_observation where
  "sample_ob =
     \<lparr>ob_entity_id = ''ent_1'', ob_workspace_id = ''ws'', ob_user_id = ''u'', ob_attr_key = ''title'', ob_attr_value = JStr ''CEO'',
      ob_origin = ''perception'', ob_source_ref = JNull, ob_now = 10\<rparr>"

lemma written_until_Nil: "written_until n []"
  by (simp add: written_until_def table_ok_def)


text \<open>Another writer records the same attribute between the read and the insert.\<close>

definition racing_env :: fact_env where
  "racing_env = quiet_env\<lparr>fe_race := (\<lambda>retry rows. if retry then snd (record_fact quiet_env (sample_ob\<lparr>ob_attr_value := JStr ''CTO''\<rparr>) rows) else rows)\<rparr>"

theorem as_of_answers_last_observation_witness:
  "\<exists>u. value_as_of ''ent_1'' ''ws'' (fold (\<lambda>(m, k, v). observe_attr quiet_env sample_ob m k v)
      [(10, ''title'', JStr ''CTO''), (20, ''title'', JStr ''CEO''), (30, ''title'', JStr ''chair'')] []) ''title'' 25 = Some u
    \<and> same_value u (JStr ''CEO'')"
  using as_of_answers_last_observation[OF quiet_env_undisturbed written_until_Nil[of 0], of sample_ob
      "[(10, ''title'', JStr ''CTO''), (20, ''title'', JStr ''CEO''), (30, ''title'', JStr ''chair'')]" 25 "''title''"]
  by (simp add: one_workspace_def sample_ob_def Let_def)

end
