(* ===== verification/Text_Patterns.thy ===== *)
theory Text_Patterns
  imports Prelude
begin

text \<open>
  The text operations of Python the view layer and triage use: \<open>str.lower\<close>, \<open>str.strip\<close>,
  \<open>str.split\<close>, and the part of the \<open>re\<close> module their patterns need. Text is a list of 8-bit code
  points, so the character classes are Python's restricted to Latin-1. A pattern is data; \<open>match_states\<close>
  lists every way it can match at a position in the order a backtracking matcher tries them, so the
  first of the list is what \<open>re\<close> returns.
\<close>

section \<open>Characters\<close>

definition code :: "char \<Rightarrow> nat" where
  "code c = of_char c"

definition is_white :: "char \<Rightarrow> bool" where
  "is_white c \<longleftrightarrow> (9 \<le> code c \<and> code c \<le> 13) \<or> (28 \<le> code c \<and> code c \<le> 32) \<or> code c = 133 \<or> code c = 160"

definition is_digit_char :: "char \<Rightarrow> bool" where
  "is_digit_char c \<longleftrightarrow> 48 \<le> code c \<and> code c \<le> 57"

definition is_word_char :: "char \<Rightarrow> bool" where
  "is_word_char c \<longleftrightarrow> is_digit_char c \<or> (65 \<le> code c \<and> code c \<le> 90) \<or> (97 \<le> code c \<and> code c \<le> 122)
     \<or> code c = 95 \<or> code c \<in> {170, 178, 179, 181, 185, 186, 188, 189, 190}
     \<or> (192 \<le> code c \<and> code c \<noteq> 215 \<and> code c \<noteq> 247)"

definition lower_char :: "char \<Rightarrow> char" where
  "lower_char c =
     (if (65 \<le> code c \<and> code c \<le> 90) \<or> (192 \<le> code c \<and> code c \<le> 222 \<and> code c \<noteq> 215)
      then char_of (code c + 32) else c)"

definition py_lower :: "string \<Rightarrow> string" where
  "py_lower s = map lower_char s"

section \<open>Stripping and splitting\<close>

definition strip_chars :: "(char \<Rightarrow> bool) \<Rightarrow> string \<Rightarrow> string" where
  "strip_chars P s = rev (dropWhile P (rev (dropWhile P s)))"

definition py_strip :: "string \<Rightarrow> string" where
  "py_strip s = strip_chars is_white s"

text \<open>\<open>s.split(c)\<close> for a one-character separator, and \<open>sep.join(parts)\<close>.\<close>

fun split_on :: "(char \<Rightarrow> bool) \<Rightarrow> string \<Rightarrow> string list" where
  "split_on P [] = [[]]"
| "split_on P (c # s) =
     (if P c then [] # split_on P s
      else case split_on P s of [] \<Rightarrow> [[c]] | w # ws \<Rightarrow> (c # w) # ws)"

fun join_with :: "string \<Rightarrow> string list \<Rightarrow> string" where
  "join_with sep [] = []"
| "join_with sep [w] = w"
| "join_with sep (w # ws) = w @ sep @ join_with sep ws"

text \<open>\<open>s.split()\<close>: the non-empty pieces between runs of white space.\<close>

definition words_of :: "string \<Rightarrow> string list" where
  "words_of s = filter (\<lambda>w. w \<noteq> []) (split_on is_white s)"

text \<open>\<open>s.partition(c)\<close>, as the pieces around the first separator, when there is one.\<close>

fun partition_at :: "char \<Rightarrow> string \<Rightarrow> (string \<times> string) option" where
  "partition_at c [] = None"
| "partition_at c (x # s) =
     (if x = c then Some ([], s) else map_option (\<lambda>(a, b). (x # a, b)) (partition_at c s))"

lemma strip_chars_id:
  "\<forall>c\<in>set s. \<not> P c \<Longrightarrow> strip_chars P s = s"
proof -
  assume a: "\<forall>c\<in>set s. \<not> P c"
  have d: "dropWhile P t = t" if "set t = set s" for t
    using a that by (cases t) auto
  show ?thesis using d[of s] d[of "rev s"] by (simp add: strip_chars_def)
qed

lemma partition_at_append: "c \<notin> set a \<Longrightarrow> partition_at c (a @ c # b) = Some (a, b)"
  by (induction a) auto

lemma partition_at_Some: "partition_at c s = Some (a, b) \<Longrightarrow> s = a @ c # b \<and> c \<notin> set a"
  by (induction s arbitrary: a) (auto split: if_splits)

lemma split_on_nonempty: "split_on P s \<noteq> []"
  by (induction s) (auto split: list.splits)

lemma split_on_pieces: "w \<in> set (split_on P s) \<Longrightarrow> \<forall>c\<in>set w. \<not> P c \<and> c \<in> set s"
proof (induction s arbitrary: w)
  case (Cons a s)
  show ?case
  proof (cases "P a")
    case True
    then show ?thesis using Cons by auto
  next
    case False
    obtain v vs where v: "split_on P s = v # vs" using split_on_nonempty[of P s] by (cases "split_on P s") auto
    then have "w = a # v \<or> w \<in> set vs" using Cons.prems False by simp
    then show ?thesis using Cons.IH[of v] Cons.IH[of w] v False by auto
  qed
qed simp

section \<open>Patterns\<close>

text \<open>\<open>Sat\<close> one character of a class; \<open>Rep m n\<close> between \<open>m\<close> and \<open>n\<close> times, greedy; \<open>Many m\<close> at least \<open>m\<close>
  times, greedy; \<open>Grp i\<close> capture group \<open>i\<close>; \<open>Bound\<close> a word boundary; \<open>LineStart\<close> the start of the text or of a
  line; \<open>NotAfterWord\<close> the look-behind that refuses a word character.\<close>

datatype pattern =
    Eps
  | Sat "char \<Rightarrow> bool"
  | Seq pattern pattern
  | Alt pattern pattern
  | Rep nat nat pattern
  | Many nat pattern
  | Grp nat pattern
  | Bound
  | LineStart
  | NotAfterWord

type_synonym capture = "(nat \<times> string) list"
type_synonym match_state = "nat \<times> capture"

definition word_char_at :: "string \<Rightarrow> nat \<Rightarrow> bool" where
  "word_char_at s i \<longleftrightarrow> i < length s \<and> is_word_char (s ! i)"

definition word_before :: "string \<Rightarrow> nat \<Rightarrow> bool" where
  "word_before s i \<longleftrightarrow> 0 < i \<and> word_char_at s (i - 1)"

fun repeat_match :: "nat \<Rightarrow> nat \<Rightarrow> (match_state \<Rightarrow> match_state list) \<Rightarrow> match_state \<Rightarrow> match_state list" where
  "repeat_match m 0 f st = (if m = 0 then [st] else [])"
| "repeat_match m (Suc n) f st =
     concat (map (repeat_match (m - 1) n f) (f st)) @ (if m = 0 then [st] else [])"

fun match_states :: "string \<Rightarrow> pattern \<Rightarrow> match_state \<Rightarrow> match_state list" where
  "match_states s Eps st = [st]"
| "match_states s (Sat P) (i, cs) = (if i < length s \<and> P (s ! i) then [(Suc i, cs)] else [])"
| "match_states s (Seq p q) st = concat (map (match_states s q) (match_states s p st))"
| "match_states s (Alt p q) st = match_states s p st @ match_states s q st"
| "match_states s (Rep m n p) st = repeat_match m n (match_states s p) st"
| "match_states s (Many m p) st = repeat_match m (m + (length s - fst st)) (match_states s p) st"
| "match_states s (Grp g p) st = map (\<lambda>(j, cs). (j, (g, take (j - fst st) (drop (fst st) s)) # cs)) (match_states s p st)"
| "match_states s Bound st = (if word_before s (fst st) \<noteq> word_char_at s (fst st) then [st] else [])"
| "match_states s LineStart st = (if fst st = 0 \<or> s ! (fst st - 1) = CHR 0x0A then [st] else [])"
| "match_states s NotAfterWord st = (if word_before s (fst st) then [] else [st])"

fun lits :: "string \<Rightarrow> pattern" where
  "lits [] = Eps"
| "lits (c # s) = Seq (Sat (\<lambda>x. x = c)) (lits s)"

fun alts :: "string list \<Rightarrow> pattern" where
  "alts [] = Sat (\<lambda>_. False)"
| "alts [w] = lits w"
| "alts (w # ws) = Alt (lits w) (alts ws)"

fun seqs :: "pattern list \<Rightarrow> pattern" where
  "seqs [] = Eps"
| "seqs (p # ps) = Seq p (seqs ps)"

definition opt_pat :: "pattern \<Rightarrow> pattern" where
  "opt_pat p = Rep 0 1 p"

text \<open>\<open>match.group(i)\<close>: the text the group last captured.\<close>

definition group :: "capture \<Rightarrow> nat \<Rightarrow> string option" where
  "group cs g = map_of cs g"

definition match_at :: "pattern \<Rightarrow> string \<Rightarrow> nat \<Rightarrow> match_state option" where
  "match_at p s i = (case match_states s p (i, []) of [] \<Rightarrow> None | st # _ \<Rightarrow> Some st)"

text \<open>\<open>pattern.finditer(s)\<close>: leftmost matches from left to right, the next one sought where the last one ended;
  every match as its start, its end and its groups. \<open>pattern.search(s)\<close> is the first of them.\<close>

function find_from :: "pattern \<Rightarrow> string \<Rightarrow> nat \<Rightarrow> (nat \<times> nat \<times> capture) list" where
  "find_from p s i =
     (if length s < i then []
      else case match_at p s i of
        None \<Rightarrow> find_from p s (Suc i)
      | Some (j, cs) \<Rightarrow> (i, j, cs) # find_from p s (if i < j then j else Suc i))"
  by pat_completeness auto

termination
  by (relation "measure (\<lambda>(p, s, i). Suc (length s) - i)") auto

declare find_from.simps [simp del]

definition finditer :: "pattern \<Rightarrow> string \<Rightarrow> capture list" where
  "finditer p s = map (\<lambda>(i, j, cs). cs) (find_from p s 0)"

definition search :: "pattern \<Rightarrow> string \<Rightarrow> bool" where
  "search p s \<longleftrightarrow> find_from p s 0 \<noteq> []"

text \<open>\<open>pattern.sub(f, s)\<close>: every match replaced, the text between them kept.\<close>

fun splice :: "(string \<Rightarrow> capture \<Rightarrow> string) \<Rightarrow> string \<Rightarrow> nat \<Rightarrow> (nat \<times> nat \<times> capture) list \<Rightarrow> string" where
  "splice f s k [] = drop k s"
| "splice f s k ((i, j, cs) # ms) =
     take (i - k) (drop k s) @ f (take (j - i) (drop i s)) cs @ splice f s j ms"

definition subst_all :: "pattern \<Rightarrow> (string \<Rightarrow> capture \<Rightarrow> string) \<Rightarrow> string \<Rightarrow> string" where
  "subst_all p f s = splice f s 0 (find_from p s 0)"

lemma subst_all_no_match: "\<not> search p s \<Longrightarrow> subst_all p f s = s"
  by (simp add: subst_all_def search_def)

section \<open>Patterns that cannot match\<close>

text \<open>\<open>dead S p\<close>: every match of \<open>p\<close> takes some character outside \<open>S\<close>.\<close>

fun dead :: "char list \<Rightarrow> pattern \<Rightarrow> bool" where
  "dead S (Sat P) = list_all (\<lambda>c. \<not> P c) S"
| "dead S (Seq p q) = (dead S p \<or> dead S q)"
| "dead S (Alt p q) = (dead S p \<and> dead S q)"
| "dead S (Rep m n p) = (0 < m \<and> dead S p)"
| "dead S (Many m p) = (0 < m \<and> dead S p)"
| "dead S (Grp g p) = dead S p"
| "dead S _ = False"

lemma repeat_match_dead: "0 < m \<Longrightarrow> (\<And>st. f st = []) \<Longrightarrow> repeat_match m n f st = []"
  by (cases n) simp_all

lemma dead_no_match: "set s \<subseteq> set S \<Longrightarrow> dead S p \<Longrightarrow> match_states s p st = []"
proof (induction S p arbitrary: st rule: dead.induct)
  case (1 S P)
  then show ?case by (cases st) (auto simp: list_all_iff dest: nth_mem)
qed (auto simp: repeat_match_dead)

lemma find_from_none: "(\<And>j. match_at p s j = None) \<Longrightarrow> find_from p s i = []"
proof (induction p s i rule: find_from.induct)
  case (1 p s i)
  then show ?case by (simp add: find_from.simps[of p s i])
qed

lemma dead_no_search: "set s \<subseteq> set S \<Longrightarrow> dead S p \<Longrightarrow> \<not> search p s"
  by (simp add: search_def find_from_none match_at_def dead_no_match)

end
