(* ===== verification/Perceived.thy ===== *)
theory Perceived
  imports Json Text_Patterns "HOL-Library.Multiset"
begin

text \<open>
  Perceived events and the things they are about: the two event shapes (\<open>services/event_processor.py\<close>
  RawEvent, \<open>models/events.py\<close> NormalizedEvent), the handle of a thing and its parser
  (\<open>view/frame.py::frame_key\<close>, \<open>api/routes_units.py::parse_frame_key\<close>), and the grouping of events by
  thing (\<open>view/perception.py\<close>). One record stands for both shapes, since the readers accept either:
  a raw event has \<open>actor\<close> and \<open>raw_payload\<close>, a stored one \<open>actor_entities\<close>, an id and signals; what
  a shape lacks is null.
\<close>

section \<open>Timestamps\<close>

text \<open>What a timestamp attribute can hold: a datetime with an offset, one without, or something else.\<close>

datatype timestamp = Aware instant | Naive instant | NotADatetime

fun ensure_aware_utc :: "timestamp \<Rightarrow> instant option" where
  "ensure_aware_utc (Aware t) = Some t"
| "ensure_aware_utc (Naive t) = Some t"
| "ensure_aware_utc NotADatetime = None"

text \<open>\<open>datetime.min\<close> in UTC.\<close>

definition NO_TIMESTAMP :: instant where
  "NO_TIMESTAMP = secs (- 62135596800)"

section \<open>Events\<close>

record event =
  ne_event_id :: string
  ne_workspace_id :: string
  ne_user_id :: string
  ne_source :: string
  ne_event_type :: string
  ne_entity_type :: string
  ne_entity_id :: string
  ne_occurred_at :: timestamp
  ne_created_at :: timestamp
  ne_title :: "string option"
  ne_summary :: json
  ne_actor :: json
  ne_actor_entities :: json
  ne_raw_payload :: json
  ne_importance_signals :: "jdict option"
  ne_idempotency_key :: string

definition signals_of :: "event \<Rightarrow> jdict" where
  "signals_of e = dict_or_empty (ne_importance_signals e)"

definition occurred :: "event \<Rightarrow> instant" where
  "occurred e = opt_or (ensure_aware_utc (ne_occurred_at e)) NO_TIMESTAMP"

section \<open>The handle of a thing\<close>

definition frame_key :: "string \<Rightarrow> string \<Rightarrow> string \<Rightarrow> string" where
  "frame_key source entity_type entity_id = source @ '':'' @ entity_type @ '':'' @ entity_id"

definition event_key :: "event \<Rightarrow> string" where
  "event_key e = frame_key (ne_source e) (ne_entity_type e) (ne_entity_id e)"

definition parse_frame_key :: "string \<Rightarrow> (string \<times> string \<times> string) option" where
  "parse_frame_key key =
     (case partition_at CHR '':'' key of None \<Rightarrow> None
      | Some (source, rest) \<Rightarrow>
          (case partition_at CHR '':'' rest of None \<Rightarrow> None
           | Some (entity_type, entity_id) \<Rightarrow>
               if source \<noteq> [] \<and> entity_type \<noteq> [] \<and> entity_id \<noteq> []
               then Some (source, entity_type, entity_id) else None))"

section \<open>Grouping\<close>

record event_group =
  eg_key :: string
  eg_events :: "event list"

definition latest :: "event_group \<Rightarrow> event" where
  "latest g = last (eg_events g)"

definition event_count :: "event_group \<Rightarrow> nat" where
  "event_count g = length (eg_events g)"

text \<open>\<open>buckets.setdefault(key, []).append(event)\<close>: a dictionary keeps its keys in the order they came.\<close>

fun bucket_append :: "'k \<Rightarrow> 'v \<Rightarrow> ('k \<times> 'v list) list \<Rightarrow> ('k \<times> 'v list) list" where
  "bucket_append k e [] = [(k, [e])]"
| "bucket_append k e ((j, es) # bs) = (if j = k then (j, es @ [e]) # bs else (j, es) # bucket_append k e bs)"

definition buckets_of :: "event list \<Rightarrow> (string \<times> event list) list" where
  "buckets_of es = fold (\<lambda>e bs. bucket_append (event_key e) e bs) es []"

definition group_of_bucket :: "string \<times> event list \<Rightarrow> event_group" where
  "group_of_bucket b = \<lparr>eg_key = fst b, eg_events = sort_key occurred (snd b)\<rparr>"

definition group_events_by_key :: "event list \<Rightarrow> event_group list" where
  "group_events_by_key es =
     sort_key (\<lambda>g. - occurred (latest g)) (map group_of_bucket (buckets_of es))"

section \<open>Lemmas on grouping\<close>

lemma map_filter_keys:
  assumes "distinct (map k xs)" "\<forall>x\<in>set xs. \<forall>y. f x = Some y \<longrightarrow> h y = k x"
  shows "distinct (map h (List.map_filter f xs))" "h ` set (List.map_filter f xs) \<subseteq> k ` set xs"
  using assms
proof (induction xs)
  case (Cons x xs)
  {
    case 1
    then have ih: "distinct (map h (List.map_filter f xs))" "h ` set (List.map_filter f xs) \<subseteq> k ` set xs"
      using Cons.IH by simp_all
    have n: "k x \<notin> k ` set xs" and f: "\<forall>y. f x = Some y \<longrightarrow> h y = k x" using 1 by simp_all
    show ?case
    proof (cases "f x")
      case None
      then show ?thesis using ih(1) by (simp add: map_filter_simps)
    next
      case (Some y)
      have "h y \<notin> h ` set (List.map_filter f xs)" using f Some ih(2) n by auto
      then show ?thesis using ih(1) Some by (simp add: map_filter_simps)
    qed
  next
    case 2
    then have "h ` set (List.map_filter f xs) \<subseteq> k ` set xs" "\<forall>y. f x = Some y \<longrightarrow> h y = k x"
      using Cons.IH by simp_all
    then show ?case by (cases "f x") (auto simp: map_filter_simps)
  }
qed (simp_all add: map_filter_simps)

lemma bucket_append_keys:
  "map fst (bucket_append k e bs) = (if k \<in> fst ` set bs then map fst bs else map fst bs @ [k])"
  by (induction bs) force+

lemma bucket_append_distinct: "distinct (map fst bs) \<Longrightarrow> distinct (map fst (bucket_append k e bs))"
  by (simp add: bucket_append_keys)

lemma bucket_append_lookup:
  "map_of (bucket_append k e bs) j =
     (if j = k then Some ((case map_of bs k of None \<Rightarrow> [] | Some es \<Rightarrow> es) @ [e]) else map_of bs j)"
  by (induction bs) auto

lemma fold_buckets:
  assumes "distinct (map fst bs)"
  shows "distinct (map fst (fold (\<lambda>e bs. bucket_append (key e) e bs) es bs))"
    and "map_of (fold (\<lambda>e bs. bucket_append (key e) e bs) es bs) k =
      (let news = filter (\<lambda>e. key e = k) es
       in case map_of bs k of None \<Rightarrow> if news = [] then None else Some news | Some olds \<Rightarrow> Some (olds @ news))"
  using assms
proof (induction es arbitrary: bs)
  case (Cons e es)
  {
    case 1 then show ?case using Cons.IH(1) by (simp add: bucket_append_distinct)
  next
    case 2
    have d: "distinct (map fst (bucket_append (key e) e bs))" using 2 by (rule bucket_append_distinct)
    show ?case using Cons.IH(2)[OF d]
      by (cases "map_of bs k") (auto simp: Let_def bucket_append_lookup split: option.split)
  }
qed (simp_all add: Let_def split: option.split)

lemma buckets_distinct: "distinct (map fst (buckets_of es))"
  unfolding buckets_of_def by (rule fold_buckets(1)) simp

lemma buckets_lookup:
  "map_of (buckets_of es) k = (if k \<in> event_key ` set es then Some (filter (\<lambda>e. event_key e = k) es) else None)"
  unfolding buckets_of_def by (subst fold_buckets(2)) (auto simp: Let_def filter_empty_conv)

lemma bucket_eq: "(k, xs) \<in> set (buckets_of es) \<longleftrightarrow> k \<in> event_key ` set es \<and> xs = filter (\<lambda>e. event_key e = k) es"
  using map_of_eq_Some_iff[OF buckets_distinct, of es k xs] by (auto simp: buckets_lookup split: if_splits)

lemma group_eq:
  "g \<in> set (group_events_by_key es) \<longleftrightarrow>
     eg_key g \<in> event_key ` set es \<and> eg_events g = sort_key occurred (filter (\<lambda>e. event_key e = eg_key g) es)"
proof -
  have "g \<in> set (group_events_by_key es) \<longleftrightarrow> (\<exists>k xs. (k, xs) \<in> set (buckets_of es) \<and> g = group_of_bucket (k, xs))"
    by (auto simp: group_events_by_key_def)
  also have "\<dots> \<longleftrightarrow> eg_key g \<in> event_key ` set es \<and> eg_events g = sort_key occurred (filter (\<lambda>e. event_key e = eg_key g) es)"
    by (cases g) (auto simp: bucket_eq group_of_bucket_def)
  finally show ?thesis .
qed

lemma group_keys_distinct: "distinct (map eg_key (group_events_by_key es))"
proof -
  have "mset (map eg_key (group_events_by_key es)) = mset (map fst (buckets_of es))"
    by (simp add: group_events_by_key_def multiset.map_comp o_def group_of_bucket_def)
  then show ?thesis using buckets_distinct mset_eq_imp_distinct_iff by blast
qed

lemma group_nonempty: "g \<in> set (group_events_by_key es) \<Longrightarrow> eg_events g \<noteq> []"
  by (auto simp: group_eq filter_empty_conv simp flip: set_empty)

text \<open>Grouping loses and invents nothing: there is one group per thing, newest thing first; each holds exactly the
  events of its thing, oldest first, so its last event is a latest one.\<close>

lemma grouping_is_faithful:
  "distinct (map eg_key (group_events_by_key es)) \<and>
   eg_key ` set (group_events_by_key es) = event_key ` set es \<and>
   sorted (map (\<lambda>g. - occurred (latest g)) (group_events_by_key es)) \<and>
   (\<forall>g\<in>set (group_events_by_key es).
      mset (eg_events g) = mset (filter (\<lambda>e. event_key e = eg_key g) es) \<and>
      (\<forall>e\<in>set (eg_events g). occurred e \<le> occurred (latest g)))"
proof (intro conjI ballI)
  show "distinct (map eg_key (group_events_by_key es))" by (rule group_keys_distinct)
  show "eg_key ` set (group_events_by_key es) = event_key ` set es"
  proof (rule set_eqI)
    fix k
    let ?g = "\<lparr>eg_key = k, eg_events = sort_key occurred (filter (\<lambda>e. event_key e = k) es)\<rparr>"
    show "k \<in> eg_key ` set (group_events_by_key es) \<longleftrightarrow> k \<in> event_key ` set es"
      using group_eq[of ?g es] by (auto simp: group_eq image_iff intro!: bexI[of _ ?g])
  qed
  show "sorted (map (\<lambda>g. - occurred (latest g)) (group_events_by_key es))"
    unfolding group_events_by_key_def by (rule sorted_sort_key)
next
  fix g assume g: "g \<in> set (group_events_by_key es)"
  then have ev: "eg_events g = sort_key occurred (filter (\<lambda>e. event_key e = eg_key g) es)" by (simp add: group_eq)
  then show "mset (eg_events g) = mset (filter (\<lambda>e. event_key e = eg_key g) es)" by simp
  fix e assume e: "e \<in> set (eg_events g)"
  have "sorted (map occurred (eg_events g))" unfolding ev by (rule sorted_sort_key)
  moreover obtain ys y where "eg_events g = ys @ [y]" using e by (cases "eg_events g" rule: rev_cases) auto
  ultimately show "occurred e \<le> occurred (latest g)" using e by (auto simp: latest_def sorted_append)
qed

text \<open>The handle of a thing parses back to its parts: the source and the entity type hold no colon, the
  connector's own id may.\<close>

lemma frame_key_roundtrip:
  assumes "CHR '':'' \<notin> set source" "CHR '':'' \<notin> set entity_type"
    and "source \<noteq> []" "entity_type \<noteq> []" "entity_id \<noteq> []"
  shows "parse_frame_key (frame_key source entity_type entity_id) = Some (source, entity_type, entity_id)"
  using assms by (simp add: parse_frame_key_def frame_key_def partition_at_append)

lemma parse_frame_key_Some:
  "parse_frame_key key = Some (s, t, i) \<Longrightarrow> key = frame_key s t i \<and> s \<noteq> [] \<and> t \<noteq> [] \<and> i \<noteq> []"
  by (auto simp: parse_frame_key_def frame_key_def dest!: partition_at_Some split: option.splits prod.splits if_splits)

section \<open>A sample event\<close>

definition sample_event :: event where
  "sample_event = \<lparr>ne_event_id = ''evt_1'', ne_workspace_id = ''ws'', ne_user_id = ''u'', ne_source = ''gmail'',
     ne_event_type = ''email_received'', ne_entity_type = ''email'', ne_entity_id = ''t1'', ne_occurred_at = Aware 0,
     ne_created_at = Aware 0, ne_title = Some ''Hi'', ne_summary = JStr ''See you'',
     ne_actor = JObj [(''name'', JStr ''Ana''), (''email'', JStr ''a@b'')], ne_actor_entities = JNull, ne_raw_payload = JNull,
     ne_importance_signals = Some [(''actionable'', JBool False)], ne_idempotency_key = ''k1''\<rparr>"

end
