(* ===== verification/Mail_Filters.thy ===== *)
theory Mail_Filters
  imports Perceived Governor "HOL-Library.Product_Lexorder" "HOL-Library.List_Lexorder" "HOL-Library.Char_ord"
begin

text \<open>
  The founder's mail filters: the rules (\<open>models/filter_rule.py\<close>, \<open>services/filter_rules.py\<close>) and the
  proposals they come from (\<open>services/filter_proposals.py\<close>). A proposal names the senders whose mail never
  needed the founder; the confirmed proposal becomes one rule per sender, and revoking a rule releases the mail
  it kept quiet. \<open>parseaddr\<close> is the address parser of the \<open>email\<close> package; \<open>down\<close> says that a database
  read fails; new identifiers come from a generator.
\<close>

section \<open>Rules\<close>

datatype py_exn = IntegrityErr | AttributeErr | TypeErr | ValueErr | ReadErr

record filter_rule =
  fr_rule_id :: string
  fr_workspace_id :: string
  fr_user_id :: string
  fr_source :: string
  fr_match_kind :: string
  fr_match_value :: string
  fr_created_from_approval_id :: string
  fr_enabled :: bool
  fr_revoked_at :: "instant option"

definition fr_unique_key :: "filter_rule \<Rightarrow> string \<times> string \<times> string \<times> string" where
  "fr_unique_key r = (fr_workspace_id r, fr_source r, fr_match_kind r, fr_match_value r)"

definition fr_target :: "filter_rule \<Rightarrow> string \<times> string" where
  "fr_target r = (fr_source r, fr_match_value r)"

type_synonym sender_rules = "((string \<times> string) \<times> string) list"

definition normalize_sender :: "(string \<Rightarrow> string) \<Rightarrow> json \<Rightarrow> string" where
  "normalize_sender parseaddr v =
     (case v of
        JStr value \<Rightarrow>
          (let address = parseaddr value;
               address = (if CHR ''@'' \<notin> set address then value else address)
           in py_lower (strip_chars (\<lambda>c. c \<in> {CHR ''<'', CHR ''>''}) (py_strip address)))
      | _ \<Rightarrow> [])"

definition sender_of :: "(string \<Rightarrow> string) \<Rightarrow> event \<Rightarrow> string" where
  "sender_of parseaddr e =
     (let actor = (if ne_actor e = JNull then ne_actor_entities e else ne_actor e);
          actor = (case actor of JList [] \<Rightarrow> JNull | JList (x # _) \<Rightarrow> x | _ \<Rightarrow> actor)
      in case actor of JObj d \<Rightarrow> normalize_sender parseaddr (jget d ''email'') | _ \<Rightarrow> [])"

definition matching_rule_id :: "(string \<Rightarrow> string) \<Rightarrow> event \<Rightarrow> sender_rules \<Rightarrow> string option" where
  "matching_rule_id parseaddr e rules =
     (if rules = [] then None
      else let sender = sender_of parseaddr e
           in if sender = [] \<or> ne_source e = [] then None else map_of rules (ne_source e, sender))"

definition live_rule :: "string \<Rightarrow> filter_rule \<Rightarrow> bool" where
  "live_rule ws r \<longleftrightarrow> fr_workspace_id r = ws \<and> fr_match_kind r = ''sender'' \<and> fr_enabled r \<and> fr_revoked_at r = None"

definition load_sender_rules :: "bool \<Rightarrow> string \<Rightarrow> filter_rule list \<Rightarrow> sender_rules" where
  "load_sender_rules down ws rules =
     (if ws = [] \<or> down then []
      else fold (\<lambda>r d. AList.update (fr_target r) (fr_rule_id r) d) (filter (live_rule ws) rules) [])"

definition load_all_sender_rules :: "bool \<Rightarrow> string \<Rightarrow> filter_rule list \<Rightarrow> (string \<times> string) list" where
  "load_all_sender_rules down ws rules =
     (if down then []
      else map fr_target (filter (\<lambda>r. fr_workspace_id r = ws \<and> fr_match_kind r = ''sender'') rules))"

section \<open>A confirmed proposal becomes rules\<close>

text \<open>Iterating over a JSON value: the keys of an object, the characters of a string; other scalars raise.\<close>

fun py_iter :: "json \<Rightarrow> py_exn + json list" where
  "py_iter (JList xs) = Inr xs"
| "py_iter (JObj d) = Inr (map (\<lambda>(k, v). JStr k) d)"
| "py_iter (JStr s) = Inr (map (\<lambda>c. JStr [c]) s)"
| "py_iter _ = Inl TypeErr"

definition new_rule :: "approval \<Rightarrow> string \<Rightarrow> string \<Rightarrow> string \<Rightarrow> filter_rule" where
  "new_rule ap rid source address =
     \<lparr>fr_rule_id = rid, fr_workspace_id = ap_workspace_id ap, fr_user_id = ap_user_id ap, fr_source = source,
      fr_match_kind = ''sender'', fr_match_value = address, fr_created_from_approval_id = ap_approval_id ap,
      fr_enabled = True, fr_revoked_at = None\<rparr>"

text \<open>The text \<open>str(entry.get('source') or '')\<close> of a source that is not a string is left out.\<close>

fun entry_target :: "(string \<Rightarrow> string) \<Rightarrow> json \<Rightarrow> (string \<times> string) option" where
  "entry_target parseaddr (JObj d) =
     (let source = jstr (jget d ''source''); address = normalize_sender parseaddr (jget d ''address'')
      in if source = [] \<or> address = [] then None else Some (source, address))"
| "entry_target parseaddr _ = None"

text \<open>The loop: \<open>existing\<close> is read once before it; the insert is refused by the unique constraint.\<close>

fun write_rules ::
  "(string \<Rightarrow> string) \<Rightarrow> (nat \<Rightarrow> string) \<Rightarrow> approval \<Rightarrow> (string \<times> string) list \<Rightarrow> json list
   \<Rightarrow> string list \<Rightarrow> filter_rule list \<Rightarrow> py_exn + string list \<times> filter_rule list" where
  "write_rules parseaddr gen ap existing [] created rules = Inr (created, rules)"
| "write_rules parseaddr gen ap existing (entry # entries) created rules =
     (case entry_target parseaddr entry of
        None \<Rightarrow> write_rules parseaddr gen ap existing entries created rules
      | Some (source, address) \<Rightarrow>
          if (source, address) \<in> set existing then write_rules parseaddr gen ap existing entries created rules
          else let rule = new_rule ap (gen (length created)) source address
               in if fr_unique_key rule \<in> fr_unique_key ` set rules then Inl IntegrityErr
                  else write_rules parseaddr gen ap existing entries (created @ [fr_rule_id rule]) (rules @ [rule]))"

definition apply_approved_proposal ::
  "(string \<Rightarrow> string) \<Rightarrow> (nat \<Rightarrow> string) \<Rightarrow> bool \<Rightarrow> approval \<Rightarrow> filter_rule list
   \<Rightarrow> py_exn + string list \<times> filter_rule list" where
  "apply_approved_proposal parseaddr gen down ap rules =
     (let senders = jget (dict_or_empty (ap_artifact_refs ap)) ''senders''
      in if \<not> truthy senders then Inr ([], rules)
         else case py_iter senders of
             Inl e \<Rightarrow> Inl e
           | Inr entries \<Rightarrow>
               write_rules parseaddr gen ap (load_all_sender_rules down (ap_workspace_id ap) rules) entries [] rules)"

section \<open>Revoking a rule\<close>

definition carries_rule :: "string \<Rightarrow> string \<Rightarrow> event \<Rightarrow> bool" where
  "carries_rule ws rid e \<longleftrightarrow> ne_workspace_id e = ws \<and> as_str (jget (signals_of e) ''filtered_by'') = Some rid"

definition release_event :: "event \<Rightarrow> event" where
  "release_event e =
     e\<lparr>ne_importance_signals := Some
         (AList.update ''triage_origin'' (JStr ''default'')
           (AList.update ''actionable'' JNull (AList.delete ''filtered_by'' (signals_of e))))\<rparr>"

definition disable_rule :: "instant \<Rightarrow> filter_rule \<Rightarrow> filter_rule" where
  "disable_rule now r = r\<lparr>fr_enabled := False, fr_revoked_at := Some now\<rparr>"

definition revoke_rule ::
  "string \<Rightarrow> string \<Rightarrow> instant \<Rightarrow> filter_rule list \<Rightarrow> event list \<Rightarrow> nat \<times> filter_rule list \<times> event list" where
  "revoke_rule ws rid now rules events =
     (case row_find (\<lambda>r. (fr_workspace_id r, fr_rule_id r)) (ws, rid) rules of
        None \<Rightarrow> (0, rules, events)
      | Some rule \<Rightarrow>
          (length (filter (carries_rule ws rid) events),
           row_update fr_rule_id rid (disable_rule now) rules,
           map (\<lambda>e. if carries_rule ws rid e then release_event e else e) events))"

section \<open>Proposals\<close>

definition FILTER_PROPOSAL_ACTION :: string where "FILTER_PROPOSAL_ACTION = ''filter_proposal''"
definition MIN_EVENTS_TO_PROPOSE :: nat where "MIN_EVENTS_TO_PROPOSE = 5"
definition PROPOSAL_WINDOW_DAYS :: int where "PROPOSAL_WINDOW_DAYS = 14"
definition MAX_SENDERS_PER_PROPOSAL :: nat where "MAX_SENDERS_PER_PROPOSAL = 8"
definition PROPOSAL_COOLDOWN_DAYS :: int where "PROPOSAL_COOLDOWN_DAYS = 7"

definition days :: "int \<Rightarrow> int" where
  "days n = hours (24 * n)"

record sender_candidate =
  sc_source :: string
  sc_address :: string
  sc_event_count :: nat
  sc_sample_subject :: string

text \<open>Approvals with the instant they were created.\<close>

definition open_or_recent_proposal :: "bool \<Rightarrow> string \<Rightarrow> instant \<Rightarrow> (instant \<times> approval) list \<Rightarrow> bool" where
  "open_or_recent_proposal down ws now approvals =
     (down \<or> (\<exists>(created_at, ap)\<in>set approvals. ap_workspace_id ap = ws \<and> ap_approval_type ap = FILTER_PROPOSAL_ACTION
                 \<and> now - days PROPOSAL_COOLDOWN_DAYS \<le> created_at))"

text \<open>\<open>max(events, key=...)\<close>: the first of the greatest.\<close>

fun newest_of :: "event \<Rightarrow> event list \<Rightarrow> event" where
  "newest_of best [] = best"
| "newest_of best (e # es) = newest_of (if occurred best < occurred e then e else best) es"

definition tally_of :: "(string \<Rightarrow> string) \<Rightarrow> event list \<Rightarrow> ((string \<times> string) \<times> event list) list" where
  "tally_of parseaddr rows =
     fold (\<lambda>e t. bucket_append (ne_source e, sender_of parseaddr e) e t)
       (filter (\<lambda>e. sender_of parseaddr e \<noteq> []) rows) []"

definition candidate_of :: "(string \<times> string) list \<Rightarrow> (string \<times> string) \<times> event list \<Rightarrow> sender_candidate option" where
  "candidate_of ruled t =
     (case t of ((source, address), events) \<Rightarrow>
        if (source, address) \<in> set ruled then None
        else if length events < MIN_EVENTS_TO_PROPOSE then None
        else if \<not> list_all (\<lambda>e. jget (signals_of e) ''actionable'' = JBool False) events then None
        else Some \<lparr>sc_source = source, sc_address = address, sc_event_count = length events,
               sc_sample_subject = py_strip (opt_or (ne_title (newest_of (hd events) (tl events))) [])\<rparr>)"

definition find_sender_candidates ::
  "(string \<Rightarrow> string) \<Rightarrow> bool \<Rightarrow> string \<Rightarrow> string \<Rightarrow> instant \<Rightarrow> filter_rule list \<Rightarrow> event list \<Rightarrow> sender_candidate list" where
  "find_sender_candidates parseaddr down ws uid now rules events =
     (if down then []
      else let rows = filter (\<lambda>e. ne_workspace_id e = ws \<and> ne_user_id e = uid
                                 \<and> now - days PROPOSAL_WINDOW_DAYS \<le> occurred e) events;
               ruled = map fr_target (filter (\<lambda>r. fr_workspace_id r = ws) rules);
               candidates = List.map_filter (candidate_of ruled) (tally_of parseaddr rows)
           in take MAX_SENDERS_PER_PROPOSAL
                (sort_key (\<lambda>c. (- int (sc_event_count c), sc_address c)) candidates))"

definition candidate_ref :: "sender_candidate \<Rightarrow> json" where
  "candidate_ref c = JObj [(''source'', JStr (sc_source c)), (''address'', JStr (sc_address c)),
     (''event_count'', JNum (of_nat (sc_event_count c)))]"

text \<open>The title and the summary are code-written prose (there is no requester): \<open>title\<close> and \<open>summary\<close> render them.\<close>

definition create_filter_proposal ::
  "(sender_candidate list \<Rightarrow> string) \<Rightarrow> (sender_candidate list \<Rightarrow> string) \<Rightarrow> string \<Rightarrow> string \<Rightarrow> string
   \<Rightarrow> sender_candidate list \<Rightarrow> approval option" where
  "create_filter_proposal title summary ulid ws uid candidates =
     (if candidates = [] then None
      else Some \<lparr>ap_approval_id = ''apr_'' @ ulid, ap_user_id = uid, ap_workspace_id = ws, ap_execution_id = '''',
        ap_approval_type = FILTER_PROPOSAL_ACTION, ap_title = title candidates, ap_summary = Some (summary candidates),
        ap_artifact_refs = Some [(''senders'', JList (map candidate_ref candidates))],
        ap_thread_id = JNull, ap_tool_call_id = JNull, ap_risk_level = ''low'', ap_status = ''pending'',
        ap_decided_at = None, ap_decision_reason = None, ap_expires_at = None, ap_run_id = None, ap_step_id = None,
        ap_requested_by = '''', ap_approved_by = None\<rparr>)"

text \<open>The scheduler's hourly tick, member by member: \<open>check_down\<close> and \<open>read_down\<close> tell for which
  workspaces the two reads fail, \<open>ulid\<close> numbers the approvals of the tick.\<close>

record proposal_env =
  pe_parseaddr :: "string \<Rightarrow> string"
  pe_title :: "sender_candidate list \<Rightarrow> string"
  pe_summary :: "sender_candidate list \<Rightarrow> string"
  pe_ulid :: "nat \<Rightarrow> string"
  pe_check_down :: "string \<Rightarrow> bool"
  pe_read_down :: "string \<Rightarrow> bool"

definition propose_for_member ::
  "proposal_env \<Rightarrow> instant \<Rightarrow> filter_rule list \<Rightarrow> event list \<Rightarrow> string \<times> string
   \<Rightarrow> (instant \<times> approval) list \<Rightarrow> (instant \<times> approval) list" where
  "propose_for_member env now rules events member approvals =
     (case member of (ws, uid) \<Rightarrow>
        if ws = [] \<or> uid = [] then approvals
        else if open_or_recent_proposal (pe_check_down env ws) ws now approvals then approvals
        else let candidates = find_sender_candidates (pe_parseaddr env) (pe_read_down env ws) ws uid now rules events
             in case create_filter_proposal (pe_title env) (pe_summary env) (pe_ulid env (length approvals)) ws uid candidates of
                  None \<Rightarrow> approvals
                | Some ap \<Rightarrow> approvals @ [(now, ap)])"

definition tick_filter_proposals ::
  "proposal_env \<Rightarrow> instant \<Rightarrow> filter_rule list \<Rightarrow> event list \<Rightarrow> (string \<times> string) list
   \<Rightarrow> (instant \<times> approval) list \<Rightarrow> (instant \<times> approval) list" where
  "tick_filter_proposals env now rules events members approvals =
     fold (propose_for_member env now rules events) members approvals"

section \<open>What the rules say\<close>

lemma fold_update_lookup:
  "map_of (fold (\<lambda>r d. AList.update (k r) (v r) d) rs d) x = Some y \<Longrightarrow>
     (\<exists>r\<in>set rs. k r = x \<and> v r = y) \<or> map_of d x = Some y"
  by (induction rs arbitrary: d) (fastforce simp: map_of_update_alist split: if_splits)+

lemma loaded_rule_is_live:
  assumes "map_of (load_sender_rules down ws rules) t = Some rid"
  shows "\<exists>r\<in>set rules. live_rule ws r \<and> fr_target r = t \<and> fr_rule_id r = rid"
  using assms fold_update_lookup[where k = fr_target and v = fr_rule_id and d = "[]" and x = t and y = rid and rs = "filter (live_rule ws) rules"]
  by (auto simp: load_sender_rules_def split: if_splits)

section \<open>Writing rules\<close>

definition entry_targets :: "(string \<Rightarrow> string) \<Rightarrow> json list \<Rightarrow> (string \<times> string) list" where
  "entry_targets parseaddr entries = List.map_filter (entry_target parseaddr) entries"

lemma entry_targets_simps [simp]:
  "entry_targets p [] = []"
  "entry_targets p (e # es) = (case entry_target p e of None \<Rightarrow> entry_targets p es | Some t \<Rightarrow> t # entry_targets p es)"
  by (simp_all add: entry_targets_def map_filter_simps split: option.split)

definition known :: "string \<Rightarrow> filter_rule list \<Rightarrow> (string \<times> string) list" where
  "known ws rules = load_all_sender_rules False ws rules"

lemma known_append [simp]: "known ws (xs @ ys) = known ws xs @ known ws ys"
  by (simp add: known_def load_all_sender_rules_def)

lemma known_new_rule [simp]: "known (ap_workspace_id ap) [new_rule ap rid s a] = [(s, a)]"
  by (simp add: known_def load_all_sender_rules_def new_rule_def fr_target_def)

lemma new_rule_fields [simp]:
  "fr_target (new_rule ap rid s a) = (s, a)" "fr_rule_id (new_rule ap rid s a) = rid"
  "live_rule ws (new_rule ap rid s a) \<longleftrightarrow> ap_workspace_id ap = ws"
  "fr_created_from_approval_id (new_rule ap rid s a) = ap_approval_id ap"
  by (simp_all add: new_rule_def fr_target_def live_rule_def)

lemma new_rule_collides:
  "fr_unique_key (new_rule ap rid s a) \<in> fr_unique_key ` set rules \<longleftrightarrow> (s, a) \<in> set (known (ap_workspace_id ap) rules)"
  by (auto simp: fr_unique_key_def new_rule_def known_def load_all_sender_rules_def fr_target_def image_iff eq_commute)

lemma write_rules_ok:
  assumes "distinct (entry_targets p entries)"
    and "set (known (ap_workspace_id ap) rules) \<subseteq> set existing \<union> done"
    and "done \<inter> set (entry_targets p entries) = {}"
  shows "\<exists>new. write_rules p gen ap existing entries created rules = Inr (created @ map fr_rule_id new, rules @ new) \<and>
    map fr_target new = filter (\<lambda>t. t \<notin> set existing) (entry_targets p entries) \<and>
    (\<forall>r\<in>set new. live_rule (ap_workspace_id ap) r \<and> fr_created_from_approval_id r = ap_approval_id ap)"
  using assms
proof (induction entries arbitrary: created rules "done")
  case (Cons e es)
  show ?case
  proof (cases "entry_target p e")
    case None
    then show ?thesis using Cons.IH[of rules "done" created] Cons.prems by simp
  next
    case (Some t)
    obtain s a where t: "t = (s, a)" by (cases t)
    have d: "distinct (entry_targets p es)" "t \<notin> set (entry_targets p es)" "done \<inter> set (entry_targets p es) = {}" "t \<notin> done"
      using Cons.prems Some by auto
    show ?thesis
    proof (cases "t \<in> set existing")
      case True
      then show ?thesis using Cons.IH[OF d(1) Cons.prems(2) d(3), of created] Some t by simp
    next
      case False
      let ?r = "new_rule ap (gen (length created)) s a"
      have "t \<notin> set (known (ap_workspace_id ap) rules)" using False d(4) Cons.prems(2) by blast
      then have c: "\<not> fr_unique_key ?r \<in> fr_unique_key ` set rules" by (simp only: new_rule_collides t not_False_eq_True)
      have k: "set (known (ap_workspace_id ap) (rules @ [?r])) \<subseteq> set existing \<union> insert t done"
        using Cons.prems(2) t by auto
      have n: "insert t done \<inter> set (entry_targets p es) = {}" using d by simp
      obtain new where new: "write_rules p gen ap existing es (created @ [fr_rule_id ?r]) (rules @ [?r]) =
          Inr ((created @ [fr_rule_id ?r]) @ map fr_rule_id new, (rules @ [?r]) @ new)"
        "map fr_target new = filter (\<lambda>t. t \<notin> set existing) (entry_targets p es)"
        "\<forall>r\<in>set new. live_rule (ap_workspace_id ap) r \<and> fr_created_from_approval_id r = ap_approval_id ap"
        using Cons.IH[OF d(1) k n, of "created @ [fr_rule_id ?r]"] by blast
      have "write_rules p gen ap existing (e # es) created rules =
          write_rules p gen ap existing es (created @ [fr_rule_id ?r]) (rules @ [?r])"
        using Some t False c by (simp add: Let_def del: new_rule_fields)
      then show ?thesis using new t False Some by (intro exI[of _ "?r # new"]) simp
    qed
  qed
qed simp

lemma write_rules_all_known:
  "set (entry_targets p entries) \<subseteq> set existing \<Longrightarrow> write_rules p gen ap existing entries created rules = Inr (created, rules)"
  by (induction entries) (auto split: option.splits)

lemma write_rules_covers:
  "write_rules p gen ap existing entries created rules = Inr (c, rules') \<Longrightarrow>
     set (entry_targets p entries) \<subseteq> set existing \<union> set (known (ap_workspace_id ap) rules') \<and>
     set (known (ap_workspace_id ap) rules) \<subseteq> set (known (ap_workspace_id ap) rules')"
proof (induction entries arbitrary: created rules)
  case (Cons e es)
  show ?case
  proof (cases "entry_target p e")
    case (Some t)
    obtain s a where t: "t = (s, a)" by (cases t)
    let ?r = "new_rule ap (gen (length created)) s a"
    show ?thesis
    proof (cases "t \<in> set existing")
      case True
      then show ?thesis using Cons Some t by auto
    next
      case False
      have "write_rules p gen ap existing es (created @ [fr_rule_id ?r]) (rules @ [?r]) = Inr (c, rules')"
        using Cons.prems Some t False by (simp add: Let_def split: if_splits)
      from Cons.IH[OF this] show ?thesis using Some t by simp
    qed
  qed (use Cons in simp)
qed simp

section \<open>Candidates\<close>

definition sc_target :: "sender_candidate \<Rightarrow> string \<times> string" where
  "sc_target c = (sc_source c, sc_address c)"

lemma candidate_of_target: "candidate_of ruled t = Some c \<Longrightarrow> sc_target c = fst t \<and> fst t \<notin> set ruled"
  by (auto simp: candidate_of_def sc_target_def split: prod.splits if_splits)

lemma map_filter_targets:
  "distinct (map fst ts) \<Longrightarrow> distinct (map sc_target (List.map_filter (candidate_of ruled) ts))"
  by (rule map_filter_keys(1)[where k = fst]) (auto dest: candidate_of_target)

lemma tally_distinct: "distinct (map fst (tally_of p rows))"
  unfolding tally_of_def by (rule fold_buckets(1)) simp

lemma tally_entry:
  assumes "(k, es) \<in> set (tally_of p rows)"
  shows "es = filter (\<lambda>e. (ne_source e, sender_of p e) = k) rows \<and> es \<noteq> [] \<and> snd k \<noteq> []"
proof -
  let ?rows = "filter (\<lambda>e. sender_of p e \<noteq> []) rows"
  have "map_of (tally_of p rows) k = Some es" using assms tally_distinct by (simp add: map_of_eq_Some_iff)
  moreover have "map_of (tally_of p rows) k =
      (let news = filter (\<lambda>e. (ne_source e, sender_of p e) = k) ?rows in if news = [] then None else Some news)"
    unfolding tally_of_def by (subst fold_buckets(2)) (simp_all add: Let_def)
  ultimately have es: "es = filter (\<lambda>e. (ne_source e, sender_of p e) = k) ?rows" "es \<noteq> []"
    by (auto simp: Let_def split: if_splits)
  then have "snd k \<noteq> []" by (auto simp: filter_empty_conv)
  moreover have "es = filter (\<lambda>e. (ne_source e, sender_of p e) = k) rows"
    using es(1) \<open>snd k \<noteq> []\<close> by (auto intro!: filter_cong)
  ultimately show ?thesis using es(2) by simp
qed

lemma candidates_distinct: "distinct (map sc_target (find_sender_candidates p down ws uid now rules events))"
proof -
  have "distinct (map sc_target (sort_key h (List.map_filter (candidate_of ruled) (tally_of p rows))))"
    for h :: "sender_candidate \<Rightarrow> int \<times> string" and ruled rows
    using map_filter_targets[OF tally_distinct] by (metis distinct_map distinct_sort set_sort)
  then show ?thesis by (simp add: find_sender_candidates_def Let_def distinct_take take_map[symmetric])
qed

lemma candidate_evidence:
  assumes "c \<in> set (find_sender_candidates p down ws uid now rules events)"
  shows "\<exists>es. es = filter (\<lambda>e. ne_workspace_id e = ws \<and> ne_user_id e = uid \<and> now - days PROPOSAL_WINDOW_DAYS \<le> occurred e
            \<and> ne_source e = sc_source c \<and> sender_of p e = sc_address c) events
      \<and> MIN_EVENTS_TO_PROPOSE \<le> length es \<and> sc_event_count c = length es
      \<and> (\<forall>e\<in>set es. jget (signals_of e) ''actionable'' = JBool False)
      \<and> sc_source c = fst (sc_target c) \<and> sc_address c \<noteq> []
      \<and> sc_target c \<notin> fr_target ` {r \<in> set rules. fr_workspace_id r = ws}"
proof -
  define rows where "rows = filter (\<lambda>e. ne_workspace_id e = ws \<and> ne_user_id e = uid \<and> now - days PROPOSAL_WINDOW_DAYS \<le> occurred e) events"
  define ruled where "ruled = map fr_target (filter (\<lambda>r. fr_workspace_id r = ws) rules)"
  have "c \<in> set (List.map_filter (candidate_of ruled) (tally_of p rows))"
    using assms by (auto simp: find_sender_candidates_def Let_def rows_def ruled_def dest!: in_set_takeD split: if_splits)
  then obtain k es where t: "(k, es) \<in> set (tally_of p rows)" "candidate_of ruled (k, es) = Some c"
    by (auto simp: map_filter_def split: prod.splits)
  have es: "es = filter (\<lambda>e. (ne_source e, sender_of p e) = k) rows" "snd k \<noteq> []"
    using tally_entry[OF t(1)] by auto
  have k: "sc_target c = k" "k \<notin> set ruled" using candidate_of_target[OF t(2)] by auto
  have "es = filter (\<lambda>e. ne_workspace_id e = ws \<and> ne_user_id e = uid \<and> now - days PROPOSAL_WINDOW_DAYS \<le> occurred e
            \<and> ne_source e = sc_source c \<and> sender_of p e = sc_address c) events"
    unfolding es(1) rows_def using k(1) by (auto simp: sc_target_def intro!: filter_cong)
  moreover have "MIN_EVENTS_TO_PROPOSE \<le> length es" "sc_event_count c = length es"
    "\<forall>e\<in>set es. jget (signals_of e) ''actionable'' = JBool False"
    using t(2) by (auto simp: candidate_of_def list_all_iff split: prod.splits if_splits)
  ultimately show ?thesis using k es(2) by (auto simp: sc_target_def ruled_def)
qed

lemma candidate_entries:
  assumes "\<forall>c\<in>set cs. sc_source c \<noteq> [] \<and> sc_address c \<noteq> [] \<and> normalize_sender p (JStr (sc_address c)) = sc_address c"
  shows "entry_targets p (map candidate_ref cs) = map sc_target cs"
  using assms by (induction cs) (auto simp: candidate_ref_def sc_target_def)

section \<open>Revocation\<close>

lemma jget_delete: "jget (AList.delete k d) j = (if j = k then JNull else jget d j)"
  by (simp add: jget_def delete_conv')

lemma released_signals:
  "jget (signals_of (release_event e)) k =
     (if k = ''triage_origin'' then JStr ''default'' else if k = ''actionable'' then JNull
      else if k = ''filtered_by'' then JNull else jget (signals_of e) k)"
  by (simp add: signals_of_def release_event_def jget_update jget_delete)

lemma release_event_fields [simp]:
  "ne_workspace_id (release_event e) = ne_workspace_id e" "event_key (release_event e) = event_key e"
  "ne_idempotency_key (release_event e) = ne_idempotency_key e" "ne_source (release_event e) = ne_source e"
  by (simp_all add: release_event_def event_key_def)

lemma released_not_carrying: "\<not> carries_rule ws rid (release_event e)"
  by (simp add: carries_rule_def released_signals)

lemma disable_rule_fields [simp]:
  "fr_rule_id (disable_rule now r) = fr_rule_id r" "\<not> live_rule ws (disable_rule now r)"
  "fr_unique_key (disable_rule now r) = fr_unique_key r"
  by (simp_all add: disable_rule_def live_rule_def fr_unique_key_def)

lemma disabled_not_live:
  "q \<in> set (row_update fr_rule_id rid (disable_rule now) rules) \<Longrightarrow> fr_rule_id q = rid \<Longrightarrow> \<not> live_rule ws q"
proof (induction rules)
  case (Cons r rules)
  have "q = (if fr_rule_id r = rid then disable_rule now r else r) \<or> q \<in> set (row_update fr_rule_id rid (disable_rule now) rules)"
    using Cons.prems(1) by simp
  then show ?case
  proof
    assume q: "q = (if fr_rule_id r = rid then disable_rule now r else r)"
    then have "fr_rule_id r = rid" using Cons.prems(2) by (cases "fr_rule_id r = rid") simp_all
    then show ?thesis using q by simp
  qed (rule Cons.IH[OF _ Cons.prems(2)])
qed simp

section \<open>Properties\<close>

text \<open>From what was triaged to what is filtered: a proposal built from the candidates of any store, confirmed over
  any later rules, never fails; it adds one live rule, with the approval as its origin, for each sender on the card that
  has no rule yet, in the order of the card, and nothing else.\<close>

lemma confirmed_proposal_becomes_its_rules:
  assumes "candidates = find_sender_candidates parseaddr down ws uid now rules events"
    and "create_filter_proposal title summary ulid ws uid candidates = Some ap"
    and "\<forall>c\<in>set candidates. sc_source c \<noteq> [] \<and> normalize_sender parseaddr (JStr (sc_address c)) = sc_address c"
  shows "\<exists>new. apply_approved_proposal parseaddr gen False ap rules2 = Inr (map fr_rule_id new, rules2 @ new) \<and>
    map fr_target new = filter (\<lambda>t. t \<notin> set (load_all_sender_rules False ws rules2)) (map sc_target candidates) \<and>
    (\<forall>r\<in>set new. live_rule ws r \<and> fr_created_from_approval_id r = ap_approval_id ap)"
proof -
  have ap: "ap_workspace_id ap = ws" "ap_artifact_refs ap = Some [(''senders'', JList (map candidate_ref candidates))]"
    "candidates \<noteq> []"
    using assms(2) by (auto simp: create_filter_proposal_def split: if_splits)
  have t: "entry_targets parseaddr (map candidate_ref candidates) = map sc_target candidates"
    using assms(3) candidate_evidence assms(1) by (intro candidate_entries) blast
  have d: "distinct (entry_targets parseaddr (map candidate_ref candidates))"
    using t candidates_distinct assms(1) by simp
  let ?existing = "load_all_sender_rules False ws rules2"
  have k: "set (known (ap_workspace_id ap) rules2) \<subseteq> set ?existing \<union> {}" by (simp add: known_def ap(1))
  obtain new where "write_rules parseaddr gen ap ?existing (map candidate_ref candidates) [] rules2 =
      Inr ([] @ map fr_rule_id new, rules2 @ new)"
    "map fr_target new = filter (\<lambda>t. t \<notin> set ?existing) (map sc_target candidates)"
    "\<forall>r\<in>set new. live_rule ws r \<and> fr_created_from_approval_id r = ap_approval_id ap"
    using write_rules_ok[OF d k, of gen "[]"] ap(1) t by auto
  moreover have "apply_approved_proposal parseaddr gen False ap rules2 =
      write_rules parseaddr gen ap ?existing (map candidate_ref candidates) [] rules2"
    using ap by (simp add: apply_approved_proposal_def Let_def)
  ultimately show ?thesis by auto
qed

text \<open>Confirming twice adds nothing: once a confirmation has succeeded, confirming the same approval again changes
  no rule, whichever of them were revoked in between.\<close>

lemma second_confirmation_adds_nothing:
  assumes "apply_approved_proposal parseaddr gen False ap rules = Inr (created, rules')"
    and "map fr_unique_key rules'' = map fr_unique_key rules'"
  shows "apply_approved_proposal parseaddr gen2 False ap rules'' = Inr ([], rules'')"
proof -
  have tgt: "load_all_sender_rules False ws rs = map (\<lambda>(w, s, k, v). (s, v))
      (filter (\<lambda>(w, s, k, v). w = ws \<and> k = ''sender'') (map fr_unique_key rs))" for ws rs
    by (induction rs) (auto simp: load_all_sender_rules_def fr_unique_key_def fr_target_def)
  let ?senders = "jget (dict_or_empty (ap_artifact_refs ap)) ''senders''"
  show ?thesis
  proof (cases "truthy ?senders")
    case True
    then obtain entries where e: "py_iter ?senders = Inr entries"
      "write_rules parseaddr gen ap (load_all_sender_rules False (ap_workspace_id ap) rules) entries [] rules = Inr (created, rules')"
      using assms(1) by (auto simp: apply_approved_proposal_def Let_def split: sum.splits)
    have "set (entry_targets parseaddr entries) \<subseteq> set (load_all_sender_rules False (ap_workspace_id ap) rules')"
      using write_rules_covers[OF e(2)] by (auto simp: known_def)
    then have "set (entry_targets parseaddr entries) \<subseteq> set (load_all_sender_rules False (ap_workspace_id ap) rules'')"
      using assms(2) by (simp add: tgt)
    then show ?thesis
      using True e(1) by (simp add: apply_approved_proposal_def Let_def write_rules_all_known)
  qed (simp add: apply_approved_proposal_def Let_def)
qed

text \<open>Revoking releases exactly what the rule hid: no event carries the rule afterwards, the events that did have
  no verdict any more, every other event is untouched, and the rule is never loaded again.\<close>

lemma revoke_releases_what_it_hid:
  assumes "row_find (\<lambda>r. (fr_workspace_id r, fr_rule_id r)) (ws, rid) rules \<noteq> None"
    and "revoke_rule ws rid now rules events = (released, rules', events')"
  shows "length events' = length events \<and> released = length (filter (carries_rule ws rid) events) \<and>
    (\<forall>i<length events.
       \<not> carries_rule ws rid (events' ! i) \<and>
       (if carries_rule ws rid (events ! i) then jget (signals_of (events' ! i)) ''actionable'' = JNull
        else events' ! i = events ! i)) \<and>
    (\<forall>t. map_of (load_sender_rules down ws rules') t \<noteq> Some rid)"
proof -
  obtain q where "row_find (\<lambda>r. (fr_workspace_id r, fr_rule_id r)) (ws, rid) rules = Some q" using assms(1) by blast
  then have r: "released = length (filter (carries_rule ws rid) events)"
    "rules' = row_update fr_rule_id rid (disable_rule now) rules"
    "events' = map (\<lambda>e. if carries_rule ws rid e then release_event e else e) events"
    using assms(2) by (simp_all add: revoke_rule_def)
  have "map_of (load_sender_rules down ws rules') t \<noteq> Some rid" for t
  proof
    assume "map_of (load_sender_rules down ws rules') t = Some rid"
    then obtain q where "q \<in> set rules'" "live_rule ws q" "fr_rule_id q = rid" using loaded_rule_is_live by blast
    then show False using disabled_not_live[of q rid now rules ws] r(2) by simp
  qed
  moreover have "\<forall>i<length events. \<not> carries_rule ws rid (events' ! i) \<and>
       (if carries_rule ws rid (events ! i) then jget (signals_of (events' ! i)) ''actionable'' = JNull
        else events' ! i = events ! i)"
    by (simp add: r(3) released_not_carrying released_signals)
  ultimately show ?thesis unfolding r(1) by (simp add: r(3) released_signals)
qed

text \<open>What a release leaves behind: the released event is back to no verdict but keeps the category and the tier the
  rule gave it.\<close>

lemma released_event_keeps_its_tier:
  assumes "k \<notin> {''triage_origin'', ''actionable'', ''filtered_by''}"
  shows "jget (signals_of (release_event e)) k = jget (signals_of e) k"
  using assms by (simp add: released_signals)

definition proposal_times :: "string \<Rightarrow> (instant \<times> approval) list \<Rightarrow> instant list" where
  "proposal_times ws approvals =
     map fst (filter (\<lambda>(t, ap). ap_workspace_id ap = ws \<and> ap_approval_type ap = FILTER_PROPOSAL_ACTION) approvals)"

lemma proposal_times_append [simp]: "proposal_times ws (xs @ ys) = proposal_times ws xs @ proposal_times ws ys"
  by (simp add: proposal_times_def)

lemma recent_times:
  "open_or_recent_proposal False ws now approvals \<longleftrightarrow>
     (\<exists>t\<in>set (proposal_times ws approvals). now - days PROPOSAL_COOLDOWN_DAYS \<le> t)"
  by (force simp: open_or_recent_proposal_def proposal_times_def image_iff)

definition spaced :: "instant list \<Rightarrow> bool" where
  "spaced ts \<longleftrightarrow> sorted_wrt (\<lambda>a b. a + days PROPOSAL_COOLDOWN_DAYS < b) ts"

lemma propose_keeps_spacing:
  assumes "spaced (proposal_times ws approvals)"
  shows "spaced (proposal_times ws (propose_for_member env now rules events member approvals))"
proof (cases "propose_for_member env now rules events member approvals = approvals")
  case False
  obtain w u where m: "member = (w, u)" by (cases member)
  from False obtain ap cs where p: "\<not> open_or_recent_proposal False w now approvals"
    "propose_for_member env now rules events member approvals = approvals @ [(now, ap)]"
    "ap_workspace_id ap = w"
    by (auto simp: m propose_for_member_def Let_def create_filter_proposal_def open_or_recent_proposal_def split: if_splits)
  have "\<forall>t\<in>set (proposal_times w approvals). t + days PROPOSAL_COOLDOWN_DAYS < now"
    using p(1) by (force simp: recent_times)
  moreover have "proposal_times ws [(now, ap)] = [] \<or> ws = w \<and> proposal_times ws [(now, ap)] = [now]"
    using p(3) by (simp add: proposal_times_def)
  ultimately show ?thesis using assms p(2) by (auto simp: spaced_def sorted_wrt_append)
qed (use assms in simp)

text \<open>A workspace is asked at most once per cooldown: whatever the members, the rules, the events and the reads that
  fail, a tick keeps any two proposals of a workspace more than seven days apart.\<close>

lemma proposals_are_spaced:
  assumes "spaced (proposal_times ws approvals)"
  shows "spaced (proposal_times ws (tick_filter_proposals env now rules events members approvals))"
  unfolding tick_filter_proposals_def using assms
  by (induction members arbitrary: approvals) (simp_all add: propose_keeps_spacing)

text \<open>A proposal still waiting for its answer does not hold back the next one once it is older than the cooldown.\<close>

lemma unanswered_proposal_is_asked_again:
  assumes "\<forall>(t, ap)\<in>set approvals. t < now - days PROPOSAL_COOLDOWN_DAYS"
    and "find_sender_candidates (pe_parseaddr env) False ws uid now rules events \<noteq> []" "ws \<noteq> []" "uid \<noteq> []"
    and "\<not> pe_check_down env ws" "\<not> pe_read_down env ws"
  shows "\<exists>ap. tick_filter_proposals env now rules events [(ws, uid)] approvals = approvals @ [(now, ap)] \<and>
     ap_status ap = ''pending''"
proof -
  have "\<not> open_or_recent_proposal False ws now approvals"
    using assms(1) by (force simp: open_or_recent_proposal_def)
  then show ?thesis using assms
    by (simp add: tick_filter_proposals_def propose_for_member_def create_filter_proposal_def Let_def)
qed

section \<open>Applied\<close>

lemma sample_candidates:
  "find_sender_candidates id False ''ws'' ''u'' 0 [] (replicate 5 sample_event) =
     [\<lparr>sc_source = ''gmail'', sc_address = ''a@b'', sc_event_count = 5, sc_sample_subject = ''Hi''\<rparr>]"
  by code_simp

end
