(* ===== verification/Engagement.thy ===== *)
theory Engagement
  imports Mail_Filters
begin

text \<open>
  What a dismissal means: \<open>services/engagement_service.py\<close> (less of this kind),
  \<open>services/unit_dismissals.py\<close> (not this one), and the route of \<open>api/routes_units.py\<close> that writes
  both in one transaction. A session has its committed tables and its working copy; \<open>rival\<close> is what another
  session commits between a read and the flush that collides with it. The time-stamp columns are set as the
  database sets them on the flush of a changed row.
\<close>

section \<open>Tables\<close>

record engagement_row =
  er_workspace_id :: string
  er_signal_source :: string
  er_signal_category :: string
  er_engaged_count :: int
  er_dismissed_count :: int
  er_ignored_count :: int
  er_consecutive_dismissals :: int
  er_engagement_rate :: pyfloat
  er_last_engaged_at :: "instant option"
  er_last_dismissed_at :: "instant option"
  er_suppressed :: bool
  er_updated_at :: "instant option"

record dismissal =
  ud_workspace_id :: string
  ud_user_id :: string
  ud_frame_key :: string
  ud_dismissed_at :: instant

record view_db =
  vd_engagement :: "engagement_row list"
  vd_dismissals :: "dismissal list"

record view_session =
  vs_committed :: view_db
  vs_working :: view_db

definition er_key :: "engagement_row \<Rightarrow> string \<times> string \<times> string" where
  "er_key r = (er_workspace_id r, er_signal_source r, er_signal_category r)"

definition PENALTY_THRESHOLD :: int where "PENALTY_THRESHOLD = 3"
definition SUPPRESS_THRESHOLD :: int where "SUPPRESS_THRESHOLD = 5"
definition RELEVANCE_PENALTY :: pyfloat where "RELEVANCE_PENALTY = 2/10"
definition SUPPRESSION_TTL_DAYS :: int where "SUPPRESSION_TTL_DAYS = 7"

section \<open>Engagement\<close>

definition new_engagement_row :: "string \<times> string \<times> string \<Rightarrow> instant \<Rightarrow> engagement_row" where
  "new_engagement_row k now = (case k of (ws, src, cat) \<Rightarrow>
     \<lparr>er_workspace_id = ws, er_signal_source = src, er_signal_category = cat, er_engaged_count = 0, er_dismissed_count = 0,
      er_ignored_count = 0, er_consecutive_dismissals = 0, er_engagement_rate = 0, er_last_engaged_at = None,
      er_last_dismissed_at = None, er_suppressed = False, er_updated_at = Some now\<rparr>)"

text \<open>\<open>_get_or_create\<close>. The row is added and flushed; when the flush collides with a row of \<open>rival\<close>, the session rolls back
  to what is committed and reads that row.\<close>

definition get_or_create :: "string \<times> string \<times> string \<Rightarrow> instant \<Rightarrow> engagement_row list \<Rightarrow> view_session \<Rightarrow> view_session" where
  "get_or_create k now rival ses =
     (if row_find er_key k (vd_engagement (vs_working ses)) \<noteq> None then ses
      else let committed = (vs_committed ses)\<lparr>vd_engagement := vd_engagement (vs_committed ses) @ rival\<rparr>
           in if k \<in> er_key ` set rival then \<lparr>vs_committed = committed, vs_working = committed\<rparr>
              else \<lparr>vs_committed = committed,
                    vs_working = (vs_working ses)\<lparr>vd_engagement := vd_engagement (vs_working ses) @ rival @ [new_engagement_row k now]\<rparr>\<rparr>)"

definition rate_of :: "engagement_row \<Rightarrow> pyfloat" where
  "rate_of r = of_int (er_engaged_count r)
     / of_int (max (er_engaged_count r + er_dismissed_count r + er_ignored_count r) 1)"

definition count_action :: "string \<Rightarrow> instant \<Rightarrow> engagement_row \<Rightarrow> engagement_row" where
  "count_action action now r =
     (if action = ''engaged'' then
        r\<lparr>er_engaged_count := er_engaged_count r + 1, er_consecutive_dismissals := 0, er_last_engaged_at := Some now,
          er_suppressed := False\<rparr>
      else if action = ''dismissed'' then
        r\<lparr>er_dismissed_count := er_dismissed_count r + 1, er_consecutive_dismissals := er_consecutive_dismissals r + 1,
          er_last_dismissed_at := Some now,
          er_suppressed := (er_suppressed r \<or> SUPPRESS_THRESHOLD \<le> er_consecutive_dismissals r + 1)\<rparr>
      else if action = ''ignored'' then r\<lparr>er_ignored_count := er_ignored_count r + 1\<rparr>
      else r)"

definition apply_action :: "string \<Rightarrow> instant \<Rightarrow> engagement_row \<Rightarrow> engagement_row" where
  "apply_action action now r =
     (let r' = count_action action now r in r'\<lparr>er_engagement_rate := rate_of r', er_updated_at := Some now\<rparr>)"

definition on_engagement :: "(engagement_row list \<Rightarrow> engagement_row list) \<Rightarrow> view_session \<Rightarrow> view_session" where
  "on_engagement f ses =
     ses\<lparr>vs_working := (vs_working ses)\<lparr>vd_engagement := f (vd_engagement (vs_working ses))\<rparr>\<rparr>"

definition record_engagement ::
  "string \<times> string \<times> string \<Rightarrow> string \<Rightarrow> instant \<Rightarrow> engagement_row list \<Rightarrow> view_session \<Rightarrow> view_session" where
  "record_engagement k action now rival ses =
     on_engagement (row_update er_key k (apply_action action now)) (get_or_create k now rival ses)"

text \<open>The two readers share the lapse of a suppression that has not been touched for a week.\<close>

definition lapsed :: "instant \<Rightarrow> engagement_row \<Rightarrow> bool" where
  "lapsed now r \<longleftrightarrow> er_suppressed r \<and>
     (case er_updated_at r of None \<Rightarrow> False | Some t \<Rightarrow> t < now - days SUPPRESSION_TTL_DAYS)"

definition lift_suppression :: "instant \<Rightarrow> engagement_row \<Rightarrow> engagement_row" where
  "lift_suppression now r =
     r\<lparr>er_suppressed := False, er_consecutive_dismissals := 0, er_updated_at := Some now\<rparr>"

definition get_relevance_penalty ::
  "string \<times> string \<times> string \<Rightarrow> instant \<Rightarrow> engagement_row list \<Rightarrow> pyfloat \<times> engagement_row list" where
  "get_relevance_penalty k now rows =
     (case row_find er_key k rows of
        None \<Rightarrow> (0, rows)
      | Some r \<Rightarrow>
          if er_suppressed r then
            (if lapsed now r then (0, row_update er_key k (lift_suppression now) rows) else (1, rows))
          else if PENALTY_THRESHOLD \<le> er_consecutive_dismissals r then (RELEVANCE_PENALTY, rows)
          else (0, rows))"

definition is_suppressed ::
  "string \<times> string \<times> string \<Rightarrow> instant \<Rightarrow> engagement_row list \<Rightarrow> bool \<times> engagement_row list" where
  "is_suppressed k now rows =
     (case row_find er_key k rows of
        None \<Rightarrow> (False, rows)
      | Some r \<Rightarrow>
          if \<not> er_suppressed r then (False, rows)
          else if lapsed now r then (False, row_update er_key k (lift_suppression now) rows)
          else (True, rows))"

section \<open>Dismissals\<close>

definition ud_key :: "dismissal \<Rightarrow> string \<times> string \<times> string" where
  "ud_key d = (ud_workspace_id d, ud_user_id d, ud_frame_key d)"

text \<open>The upsert: one row per person and thing.\<close>

definition dismiss :: "string \<Rightarrow> string \<Rightarrow> string \<Rightarrow> instant \<Rightarrow> dismissal list \<Rightarrow> dismissal list" where
  "dismiss ws uid key now ds =
     (if (ws, uid, key) \<in> ud_key ` set ds
      then row_update ud_key (ws, uid, key) (\<lambda>d. d\<lparr>ud_dismissed_at := now\<rparr>) ds
      else ds @ [\<lparr>ud_workspace_id = ws, ud_user_id = uid, ud_frame_key = key, ud_dismissed_at = now\<rparr>])"

definition load_dismissals :: "string \<Rightarrow> string \<Rightarrow> dismissal list \<Rightarrow> string \<Rightarrow> instant option" where
  "load_dismissals ws uid ds key = map_option ud_dismissed_at (row_find ud_key (ws, uid, key) ds)"

definition last_observed :: "event list \<Rightarrow> instant option" where
  "last_observed events =
     (let stamps = List.map_filter (\<lambda>e. ensure_aware_utc (ne_created_at e)) events
      in if stamps = [] then None else Some (Max (set stamps)))"

definition is_hidden :: "string \<Rightarrow> (string \<Rightarrow> instant option) \<Rightarrow> (string \<Rightarrow> event list) \<Rightarrow> bool" where
  "is_hidden key dismissals events_by_key =
     (if key = [] then False
      else case dismissals key of
             None \<Rightarrow> False
           | Some dismissed_at \<Rightarrow>
               (case last_observed (events_by_key key) of
                  None \<Rightarrow> False
                | Some observed_at \<Rightarrow> observed_at \<le> dismissed_at))"

section \<open>The route\<close>

datatype units_error = BadRequest | NotFound

definition OWN_SOURCE :: string where "OWN_SOURCE = ''muldro''"

definition dismiss_unit ::
  "string \<Rightarrow> string \<Rightarrow> string \<Rightarrow> instant \<Rightarrow> event list \<Rightarrow> engagement_row list \<Rightarrow> view_session
   \<Rightarrow> (units_error + unit) \<times> view_session" where
  "dismiss_unit ws uid key now events rival ses =
     (case parse_frame_key key of
        None \<Rightarrow> (Inl BadRequest, ses)
      | Some (source, entity_type, entity_id) \<Rightarrow>
          if source = OWN_SOURCE then (Inl BadRequest, ses)
          else (case filter (\<lambda>e. ne_workspace_id e = ws \<and> ne_user_id e = uid \<and> ne_source e = source
                               \<and> ne_entity_type e = entity_type \<and> ne_entity_id e = entity_id) events of
                  [] \<Rightarrow> (Inl NotFound, ses)
                | e # es \<Rightarrow>
                    (let event = newest_of e es;
                         ses1 = ses\<lparr>vs_working := (vs_working ses)
                                  \<lparr>vd_dismissals := dismiss ws uid key now (vd_dismissals (vs_working ses))\<rparr>\<rparr>;
                         ses2 = record_engagement (ws, source, ne_event_type event) ''dismissed'' now rival ses1
                     in (Inr (), ses2\<lparr>vs_committed := vs_working ses2\<rparr>))))"

section \<open>What a log of actions means\<close>

definition dismissed_since_engaged :: "string list \<Rightarrow> nat" where
  "dismissed_since_engaged acts = length (filter (\<lambda>a. a = ''dismissed'') (takeWhile (\<lambda>a. a \<noteq> ''engaged'') (rev acts)))"

definition count_of :: "string \<Rightarrow> string list \<Rightarrow> nat" where
  "count_of a acts = length (filter (\<lambda>b. b = a) acts)"

lemma since_engaged_snoc:
  "dismissed_since_engaged (acts @ [a]) =
     (if a = ''engaged'' then 0 else if a = ''dismissed'' then Suc (dismissed_since_engaged acts) else dismissed_since_engaged acts)"
  by (simp add: dismissed_since_engaged_def)

lemma count_of_snoc: "count_of b (acts @ [a]) = (if a = b then Suc (count_of b acts) else count_of b acts)"
  by (simp add: count_of_def)

text \<open>A log of actions with their instants, replayed on a row.\<close>

definition replay :: "(string \<times> instant) list \<Rightarrow> engagement_row \<Rightarrow> engagement_row" where
  "replay acts r = fold (\<lambda>(a, t). apply_action a t) acts r"

lemma replay_snoc: "replay (acts @ [(a, t)]) r = apply_action a t (replay acts r)"
  by (simp add: replay_def)

text \<open>The engagement row is what the log of actions says: its counts are the counts of the actions, its streak the
  dismissals since the last engagement, it is suppressed exactly when that streak has reached five, and its rate is the
  share of engagements, between 0 and 1.\<close>

lemma engagement_row_reads_the_log:
  "let r = replay acts (new_engagement_row k t0); as = map fst acts
   in er_engaged_count r = int (count_of ''engaged'' as) \<and> er_dismissed_count r = int (count_of ''dismissed'' as) \<and>
      er_ignored_count r = int (count_of ''ignored'' as) \<and>
      er_consecutive_dismissals r = int (dismissed_since_engaged as) \<and>
      (er_suppressed r \<longleftrightarrow> 5 \<le> dismissed_since_engaged as) \<and>
      0 \<le> er_engagement_rate r \<and> er_engagement_rate r \<le> 1 \<and> er_key r = k"
proof (induction acts rule: rev_induct)
  case Nil
  then show ?case
    by (simp add: replay_def new_engagement_row_def count_of_def dismissed_since_engaged_def er_key_def split: prod.splits)
next
  case (snoc x acts)
  obtain a t where x: "x = (a, t)" by (cases x)
  let ?r = "replay acts (new_engagement_row k t0)" and ?as = "map fst acts"
  have rate: "0 \<le> rate_of q \<and> rate_of q \<le> 1"
    if "0 \<le> er_engaged_count q" "0 \<le> er_dismissed_count q" "0 \<le> er_ignored_count q" for q
  proof -
    have "of_int (er_engaged_count q) \<le> (of_int (max (er_engaged_count q + er_dismissed_count q + er_ignored_count q) 1) :: rat)"
      using that by (simp only: of_int_le_iff)
    moreover have "(0 :: rat) < of_int (max (er_engaged_count q + er_dismissed_count q + er_ignored_count q) 1)"
      by (simp only: of_int_0_less_iff)
    ultimately show ?thesis using that by (simp add: rate_of_def divide_le_eq_1 zero_le_divide_iff)
  qed
  have ih: "er_engaged_count ?r = int (count_of ''engaged'' ?as)" "er_dismissed_count ?r = int (count_of ''dismissed'' ?as)"
    "er_ignored_count ?r = int (count_of ''ignored'' ?as)" "er_consecutive_dismissals ?r = int (dismissed_since_engaged ?as)"
    "er_suppressed ?r \<longleftrightarrow> 5 \<le> dismissed_since_engaged ?as" "er_key ?r = k"
    using snoc.IH by (simp_all add: Let_def)
  let ?q = "count_action a t ?r"
  have c: "er_engaged_count ?q = int (count_of ''engaged'' (?as @ [a]))" "er_dismissed_count ?q = int (count_of ''dismissed'' (?as @ [a]))"
    "er_ignored_count ?q = int (count_of ''ignored'' (?as @ [a]))"
    "er_consecutive_dismissals ?q = int (dismissed_since_engaged (?as @ [a]))"
    using ih by (simp_all add: count_action_def count_of_snoc since_engaged_snoc)
  have s: "er_suppressed ?q \<longleftrightarrow> 5 \<le> dismissed_since_engaged (?as @ [a])"
    using ih by (auto simp: count_action_def since_engaged_snoc SUPPRESS_THRESHOLD_def)
  have k: "er_key ?q = k" using ih(6) by (simp add: count_action_def er_key_def)
  have f: "er_engaged_count (apply_action a t ?r) = er_engaged_count ?q" "er_dismissed_count (apply_action a t ?r) = er_dismissed_count ?q"
    "er_ignored_count (apply_action a t ?r) = er_ignored_count ?q"
    "er_consecutive_dismissals (apply_action a t ?r) = er_consecutive_dismissals ?q"
    "er_suppressed (apply_action a t ?r) = er_suppressed ?q" "er_key (apply_action a t ?r) = er_key ?q"
    "er_engagement_rate (apply_action a t ?r) = rate_of ?q"
    by (simp_all add: apply_action_def Let_def er_key_def)
  show ?case using rate[of ?q] c s k by (simp add: x replay_snoc Let_def f)
qed

text \<open>The two readers agree: a source is reported suppressed exactly when its penalty is 1; the penalty is one of 0, 0.2
  and 1; and reading changes a row only by lifting a suppression older than a week.\<close>

lemma suppression_readers_agree:
  "(fst (is_suppressed k now rows) \<longleftrightarrow> fst (get_relevance_penalty k now rows) = 1) \<and>
   fst (get_relevance_penalty k now rows) \<in> {0, 2/10, 1} \<and>
   snd (is_suppressed k now rows) = snd (get_relevance_penalty k now rows) \<and>
   (snd (is_suppressed k now rows) = rows \<or>
    (\<exists>r. row_find er_key k rows = Some r \<and> lapsed now r \<and>
         snd (is_suppressed k now rows) = row_update er_key k (lift_suppression now) rows))"
  by (auto simp: is_suppressed_def get_relevance_penalty_def RELEVANCE_PENALTY_def lapsed_def split: option.split)

section \<open>The dismissal that is lost and the one that holds\<close>

lemma load_after_dismiss: "load_dismissals ws uid (dismiss ws uid key now ds) key = Some now"
proof (cases "(ws, uid, key) \<in> ud_key ` set ds")
  case True
  then obtain d where "row_find ud_key (ws, uid, key) ds = Some d"
    using row_find_None_iff[of ud_key "(ws, uid, key)" ds] by (cases "row_find ud_key (ws, uid, key) ds") auto
  then show ?thesis using True
    by (simp add: load_dismissals_def dismiss_def row_find_update ud_key_def)
next
  case False
  then have "row_find ud_key (ws, uid, key) ds = None" by (simp add: row_find_None_iff)
  then show ?thesis using False by (simp add: load_dismissals_def dismiss_def row_find_append ud_key_def)
qed

lemma dismiss_others:
  "(w, u, k) \<noteq> (ws, uid, key) \<Longrightarrow> load_dismissals w u (dismiss ws uid key now ds) k = load_dismissals w u ds k"
  by (auto simp: load_dismissals_def dismiss_def row_find_update row_find_append ud_key_def split: option.split)

lemma on_engagement_dismissals [simp]: "vd_dismissals (vs_working (on_engagement f ses)) = vd_dismissals (vs_working ses)"
  by (simp add: on_engagement_def)

lemma dismiss_unit_ok:
  assumes "dismiss_unit ws uid key now events rival ses = (Inr (), ses')"
  shows "\<exists>source event.
    vs_committed ses' = vs_working ses' \<and>
    vs_working ses' = vs_working (record_engagement (ws, source, ne_event_type event) ''dismissed'' now rival
      (ses\<lparr>vs_working := (vs_working ses)\<lparr>vd_dismissals := dismiss ws uid key now (vd_dismissals (vs_working ses))\<rparr>\<rparr>))
    \<and> source \<noteq> OWN_SOURCE \<and> source = fst (the (parse_frame_key key)) \<and> event \<in> set events \<and> ne_source event = source"
proof -
  have newest: "newest_of e es = e \<or> newest_of e es \<in> set es" for e es
    by (induction es arbitrary: e) (auto split: if_splits)
  obtain source entity_type entity_id where k: "parse_frame_key key = Some (source, entity_type, entity_id)" "source \<noteq> OWN_SOURCE"
    using assms by (auto simp: dismiss_unit_def split: option.splits if_splits)
  obtain e es where f: "filter (\<lambda>e. ne_workspace_id e = ws \<and> ne_user_id e = uid \<and> ne_source e = source
      \<and> ne_entity_type e = entity_type \<and> ne_entity_id e = entity_id) events = e # es"
    using assms k by (auto simp: dismiss_unit_def split: list.splits)
  have "newest_of e es \<in> set (e # es)" using newest[of e es] by auto
  then have n: "newest_of e es \<in> set events" "ne_source (newest_of e es) = source" unfolding f[symmetric] by auto
  have "ses' = (let ses2 = record_engagement (ws, source, ne_event_type (newest_of e es)) ''dismissed'' now rival
      (ses\<lparr>vs_working := (vs_working ses)\<lparr>vd_dismissals := dismiss ws uid key now (vd_dismissals (vs_working ses))\<rparr>\<rparr>)
      in ses2\<lparr>vs_committed := vs_working ses2\<rparr>)"
    using assms k f by (simp add: dismiss_unit_def Let_def)
  then show ?thesis using k n by (intro exI[of _ source] exI[of _ "newest_of e es"]) (simp add: Let_def)
qed

text \<open>A dismissal holds and hides only what was seen: when the route answers and nothing collided with it, the thing is
  hidden as long as nothing newer is observed about it, shown again as soon as something is, and nobody else's view of
  anything changes.\<close>

lemma dismissal_hides_what_was_seen:
  assumes "dismiss_unit ws uid key now events [] ses = (Inr (), ses')"
    and "last_observed (events_by_key key) = Some seen" "seen \<le> now" "key \<noteq> []"
  shows "let hides = (\<lambda>w u k ebk. is_hidden k (load_dismissals w u (vd_dismissals (vs_committed ses'))) ebk)
   in hides ws uid key events_by_key \<and>
      (\<forall>ebk t. last_observed (ebk key) = Some t \<longrightarrow> now < t \<longrightarrow> \<not> hides ws uid key ebk) \<and>
      (\<forall>w u k ebk. (w, u, k) \<noteq> (ws, uid, key) \<longrightarrow>
         hides w u k ebk = is_hidden k (load_dismissals w u (vd_dismissals (vs_working ses))) ebk)"
proof -
  have "vd_dismissals (vs_committed ses') = dismiss ws uid key now (vd_dismissals (vs_working ses))"
    using dismiss_unit_ok[OF assms(1)] by (auto simp: record_engagement_def get_or_create_def)
  moreover have "is_hidden k (load_dismissals w u (dismiss ws uid key now (vd_dismissals (vs_working ses)))) ebk =
      is_hidden k (load_dismissals w u (vd_dismissals (vs_working ses))) ebk" if "(w, u, k) \<noteq> (ws, uid, key)" for w u k ebk
    using dismiss_others[OF that] by (simp add: is_hidden_def)
  ultimately show ?thesis using assms(2-4) by (auto simp: Let_def is_hidden_def load_after_dismiss)
qed

text \<open>A dismissal can be lost: when the first engagement row of a kind is created by another session at the same moment,
  the route still answers that the card is dismissed, but its rollback has taken the dismissal with it.\<close>

lemma raced_dismissal_is_lost:
  assumes "dismiss_unit ws uid key now events rival ses = (Inr (), ses')"
    and "vs_working ses = vs_committed ses"
    and "\<forall>e\<in>set events. (ws, ne_source e, ne_event_type e) \<notin> er_key ` set (vd_engagement (vs_working ses))"
    and "\<forall>e\<in>set events. (ws, ne_source e, ne_event_type e) \<in> er_key ` set rival"
  shows "vd_dismissals (vs_committed ses') = vd_dismissals (vs_committed ses)"
proof -
  obtain source event where r: "vs_committed ses' = vs_working ses'"
    "vs_working ses' = vs_working (record_engagement (ws, source, ne_event_type event) ''dismissed'' now rival
      (ses\<lparr>vs_working := (vs_working ses)\<lparr>vd_dismissals := dismiss ws uid key now (vd_dismissals (vs_working ses))\<rparr>\<rparr>))"
    "event \<in> set events" "ne_source event = source"
    using dismiss_unit_ok[OF assms(1)] by blast
  have "row_find er_key (ws, source, ne_event_type event) (vd_engagement (vs_working ses)) = None"
    using assms(3) r(3,4) by (metis row_find_None_iff)
  moreover have "(ws, source, ne_event_type event) \<in> er_key ` set rival" using assms(4) r(3,4) by blast
  ultimately show ?thesis using r(1,2) by (simp add: record_engagement_def get_or_create_def Let_def)
qed

end
