(* ===== verification/Rank.thy ===== *)
theory Rank
  imports Json "HOL-Library.Multiset" "HOL-Library.Product_Lexorder" "HOL-Library.List_Lexorder" "HOL-Library.Char_ord"
begin

text \<open>
  The order of the feed: \<open>view/ranking/features.py\<close> and \<open>view/ranking/rank.py\<close>. A feature record
  holds only what the system computed itself; \<open>rank\<close> turns a list of records into a list of handles,
  and \<open>validate_permutation\<close> is the contract under which anything else may reorder them. Floats are
  rationals, so two scores that only rounding separates are equal here.
\<close>

section \<open>Feature records\<close>

datatype frame_kind = Proposal | Finding | RunKind | Record | BriefingKind

record counterparty =
  cp_known :: bool
  cp_relationship :: "string option"
  cp_prior_threads :: "int option"
  cp_interaction_count :: int
  cp_days_since_last_seen :: "int option"

record thread_state =
  th_message_count :: int
  th_you_replied :: "bool option"
  th_hours_since_last :: pyfloat

record rank_features =
  rf_key :: string
  rf_kind :: frame_kind
  rf_source :: string
  rf_counterparty :: counterparty
  rf_thread :: thread_state
  rf_has_unresolved_affordance :: bool
  rf_bulk_mail :: bool
  rf_engagement_penalty :: pyfloat
  rf_suppressed :: bool
  rf_age_hours :: pyfloat
  rf_deadline_in_days :: "int option"
  rf_matched_goal_ids :: "string list"

definition unknown_counterparty :: counterparty where
  "unknown_counterparty = \<lparr>cp_known = False, cp_relationship = None, cp_prior_threads = None,
     cp_interaction_count = 0, cp_days_since_last_seen = None\<rparr>"

definition new_thread_state :: thread_state where
  "new_thread_state = \<lparr>th_message_count = 1, th_you_replied = None, th_hours_since_last = 0\<rparr>"

text \<open>The validation each record runs when it is constructed (\<open>ge\<close>, \<open>le\<close>, \<open>min_length\<close>).\<close>

definition opt_ge0 :: "int option \<Rightarrow> bool" where
  "opt_ge0 x = (case x of None \<Rightarrow> True | Some n \<Rightarrow> 0 \<le> n)"

definition counterparty_ok :: "counterparty \<Rightarrow> bool" where
  "counterparty_ok c \<longleftrightarrow> opt_ge0 (cp_prior_threads c) \<and> 0 \<le> cp_interaction_count c
     \<and> opt_ge0 (cp_days_since_last_seen c)"

definition thread_ok :: "thread_state \<Rightarrow> bool" where
  "thread_ok t \<longleftrightarrow> 1 \<le> th_message_count t \<and> 0 \<le> th_hours_since_last t"

definition features_ok :: "rank_features \<Rightarrow> bool" where
  "features_ok f \<longleftrightarrow> rf_key f \<noteq> [] \<and> rf_source f \<noteq> [] \<and> counterparty_ok (rf_counterparty f)
     \<and> thread_ok (rf_thread f) \<and> 0 \<le> rf_engagement_penalty f \<and> rf_engagement_penalty f \<le> 1
     \<and> 0 \<le> rf_age_hours f \<and> opt_ge0 (rf_deadline_in_days f)"

section \<open>Scores\<close>

definition W_DEADLINE :: pyfloat where "W_DEADLINE = 3"
definition W_GOAL :: pyfloat where "W_GOAL = 2"
definition W_RECENCY :: pyfloat where "W_RECENCY = 2"
definition W_AFFORDANCE :: pyfloat where "W_AFFORDANCE = 3/2"
definition W_COUNTERPARTY :: pyfloat where "W_COUNTERPARTY = 3/2"
definition W_YOU_REPLIED :: pyfloat where "W_YOU_REPLIED = 3/2"
definition W_THREAD :: pyfloat where "W_THREAD = 3/4"
definition W_BULK_MAIL :: pyfloat where "W_BULK_MAIL = 5/2"
definition W_ENGAGEMENT :: pyfloat where "W_ENGAGEMENT = 2"
definition DEADLINE_URGENCY_DAYS :: int where "DEADLINE_URGENCY_DAYS = 14"
definition RECENCY_WINDOW_HOURS :: pyfloat where "RECENCY_WINDOW_HOURS = 72"
definition INTERACTION_SATURATION :: int where "INTERACTION_SATURATION = 20"
definition THREAD_SATURATION :: int where "THREAD_SATURATION = 10"
definition RECENT_CONTACT_DAYS :: int where "RECENT_CONTACT_DAYS = 7"

lemmas rank_weights = W_DEADLINE_def W_GOAL_def W_RECENCY_def W_AFFORDANCE_def W_COUNTERPARTY_def
  W_YOU_REPLIED_def W_THREAD_def W_BULK_MAIL_def W_ENGAGEMENT_def

definition ramp :: "pyfloat \<Rightarrow> pyfloat \<Rightarrow> pyfloat" where
  "ramp value window = (if window \<le> 0 then 0 else max 0 (min 1 (1 - value / window)))"

definition deadline_term :: "rank_features \<Rightarrow> pyfloat" where
  "deadline_term f = (case rf_deadline_in_days f of None \<Rightarrow> 0
     | Some days \<Rightarrow> ramp (of_int days) (of_int DEADLINE_URGENCY_DAYS))"

definition counterparty_term :: "rank_features \<Rightarrow> pyfloat" where
  "counterparty_term f =
     (let party = rf_counterparty f
      in if \<not> cp_known party then 0
         else min 1
           (35/100
            + (case cp_relationship party of None \<Rightarrow> 0 | Some r \<Rightarrow> if r = [] then 0 else 20/100)
            + 30/100 * of_int (min (cp_interaction_count party) INTERACTION_SATURATION) / of_int INTERACTION_SATURATION
            + (case cp_days_since_last_seen party of None \<Rightarrow> 0
               | Some d \<Rightarrow> if d \<le> RECENT_CONTACT_DAYS then 15/100 else 0)))"

definition thread_term :: "rank_features \<Rightarrow> pyfloat" where
  "thread_term f =
     (let sat = of_int THREAD_SATURATION;
          depth = of_int (min (th_message_count (rf_thread f)) THREAD_SATURATION) / sat
      in max 0 ((depth - 1 / sat) / (1 - 1 / sat)))"

definition indicator :: "bool \<Rightarrow> pyfloat" where
  "indicator b = (if b then 1 else 0)"

definition positive_score :: "rank_features \<Rightarrow> pyfloat" where
  "positive_score f =
     W_DEADLINE * deadline_term f
     + W_GOAL * indicator (rf_matched_goal_ids f \<noteq> [])
     + W_RECENCY * ramp (rf_age_hours f) RECENCY_WINDOW_HOURS
     + W_AFFORDANCE * indicator (rf_has_unresolved_affordance f)
     + W_COUNTERPARTY * counterparty_term f
     + W_YOU_REPLIED * indicator (th_you_replied (rf_thread f) = Some True)
     + W_THREAD * thread_term f"

definition demotion :: "rank_features \<Rightarrow> pyfloat" where
  "demotion f = W_BULK_MAIL * indicator (rf_bulk_mail f) + W_ENGAGEMENT * rf_engagement_penalty f"

definition score :: "rank_features \<Rightarrow> pyfloat" where
  "score f = positive_score f - demotion f"

section \<open>Ranking\<close>

definition rank_key :: "rank_features \<Rightarrow> pyfloat \<times> pyfloat \<times> string" where
  "rank_key f = (- score f, rf_age_hours f, rf_key f)"

text \<open>The loop that fills \<open>live\<close>; \<open>seen\<close> is the set of handles met so far.\<close>

fun live_of :: "string list \<Rightarrow> rank_features list \<Rightarrow> rank_features list" where
  "live_of seen [] = []"
| "live_of seen (f # fs) =
     (if rf_key f \<in> set seen then live_of seen fs
      else if rf_suppressed f then live_of (rf_key f # seen) fs
      else f # live_of (rf_key f # seen) fs)"

definition rank :: "rank_features list \<Rightarrow> string list" where
  "rank fs = map rf_key (sort_key rank_key (live_of [] fs))"

section \<open>The reordering contract\<close>

datatype value_error = NegativeDisplacement | NonUniqueBaseline

fun key_index :: "string list \<Rightarrow> string \<Rightarrow> nat option" where
  "key_index [] k = None"
| "key_index (x # xs) k = (if x = k then Some 0 else map_option Suc (key_index xs k))"

definition in_reach :: "int \<Rightarrow> string list \<Rightarrow> nat \<Rightarrow> string \<Rightarrow> bool" where
  "in_reach d expected i k = (case key_index expected k of None \<Rightarrow> False | Some b \<Rightarrow> \<bar>int i - int b\<bar> \<le> d)"

definition validate_permutation ::
  "json list \<Rightarrow> string list \<Rightarrow> int \<Rightarrow> value_error + string list option" where
  "validate_permutation proposed expected max_displacement =
     (if max_displacement < 0 then Inl NegativeDisplacement
      else if \<not> distinct expected then Inl NonUniqueBaseline
      else if length proposed \<noteq> length expected then Inr None
      else if \<exists>v\<in>set proposed. as_str v = None then Inr None
      else let candidate = map jstr proposed
           in if \<not> distinct candidate then Inr None
              else if list_all (\<lambda>(i, k). in_reach max_displacement expected i k)
                        (zip [0..<length candidate] candidate)
              then Inr (Some candidate) else Inr None)"

section \<open>Bounds of the terms\<close>

lemma ramp_bounds: "0 \<le> ramp v w" "ramp v w \<le> 1"
  by (simp_all add: ramp_def)

lemma ramp_antimono: "v \<le> v' \<Longrightarrow> ramp v' w \<le> ramp v w"
proof -
  assume le: "v \<le> v'"
  show ?thesis
  proof (cases "w \<le> 0")
    case False
    then have "v / w \<le> v' / w" using le by (simp add: divide_right_mono)
    then show ?thesis using False by (simp add: ramp_def)
  qed (simp add: ramp_def)
qed

lemma deadline_term_bounds: "0 \<le> deadline_term f" "deadline_term f \<le> 1"
  by (simp_all add: deadline_term_def ramp_bounds split: option.split)

lemma counterparty_term_bounds:
  assumes "counterparty_ok (rf_counterparty f)"
  shows "0 \<le> counterparty_term f" "counterparty_term f \<le> 1"
proof -
  have "0 \<le> cp_interaction_count (rf_counterparty f)" using assms by (simp add: counterparty_ok_def)
  then show "0 \<le> counterparty_term f"
    by (auto simp: counterparty_term_def Let_def INTERACTION_SATURATION_def min_def intro!: add_nonneg_nonneg split: option.split)
  show "counterparty_term f \<le> 1" by (simp add: counterparty_term_def Let_def)
qed

lemma thread_term_bounds: "0 \<le> thread_term f" "thread_term f \<le> 1"
proof -
  show "0 \<le> thread_term f" by (simp add: thread_term_def Let_def)
  have "(of_int (min (th_message_count (rf_thread f)) THREAD_SATURATION) :: pyfloat) \<le> of_int 10"
    by (simp only: of_int_le_iff THREAD_SATURATION_def min.cobounded2)
  then show "thread_term f \<le> 1" by (simp add: thread_term_def Let_def THREAD_SATURATION_def)
qed

lemma indicator_bounds: "0 \<le> indicator b" "indicator b \<le> 1"
  by (simp_all add: indicator_def)

lemma positive_score_bounds:
  assumes "counterparty_ok (rf_counterparty f)"
  shows "0 \<le> positive_score f" "positive_score f \<le> 49/4"
proof -
  note b = deadline_term_bounds[of f] counterparty_term_bounds[OF assms] thread_term_bounds[of f] ramp_bounds
    indicator_bounds
  show "0 \<le> positive_score f"
    unfolding positive_score_def rank_weights by (intro add_nonneg_nonneg mult_nonneg_nonneg b) simp_all
  show "positive_score f \<le> 49/4"
    unfolding positive_score_def rank_weights
    using b(2) b(4) b(6) ramp_bounds(2)[of "rf_age_hours f" RECENCY_WINDOW_HOURS]
      indicator_bounds(2)[of "rf_matched_goal_ids f \<noteq> []"] indicator_bounds(2)[of "rf_has_unresolved_affordance f"]
      indicator_bounds(2)[of "th_you_replied (rf_thread f) = Some True"]
    by (simp add: field_simps)
qed

lemma demotion_bounds:
  assumes "features_ok f" shows "0 \<le> demotion f" "demotion f \<le> 9/2"
  using assms indicator_bounds[of "rf_bulk_mail f"] by (simp_all add: demotion_def rank_weights features_ok_def)

section \<open>What is live\<close>

lemma live_of_keys:
  "rf_key ` set (live_of seen fs) =
     {k. k \<notin> set seen \<and> (\<exists>f. row_find rf_key k fs = Some f \<and> \<not> rf_suppressed f)}"
  by (induction fs arbitrary: seen) auto

lemma live_of_distinct: "distinct (map rf_key (live_of seen fs))"
  by (induction fs arbitrary: seen) (auto simp: live_of_keys)

lemma live_of_unseen: "f \<in> set (live_of seen fs) \<Longrightarrow> rf_key f \<notin> set seen"
proof (induction fs arbitrary: seen)
  case (Cons a fs)
  then show ?case using Cons.IH[of seen] Cons.IH[of "rf_key a # seen"] by (auto split: if_splits)
qed simp

lemma live_of_found: "f \<in> set (live_of seen fs) \<Longrightarrow> row_find rf_key (rf_key f) fs = Some f"
proof (induction fs arbitrary: seen)
  case (Cons g gs)
  then show ?case
    using live_of_unseen[of f "rf_key g # seen" gs] live_of_unseen[of f seen gs] by (auto split: if_splits)
qed simp

lemma live_of_unseen_distinct:
  "distinct (map rf_key fs) \<Longrightarrow> rf_key ` set fs \<inter> set seen = {} \<Longrightarrow>
     live_of seen fs = filter (\<lambda>f. \<not> rf_suppressed f) fs"
  by (induction fs arbitrary: seen) auto

lemma inj_rank_key_on: "distinct (map rf_key fs) \<Longrightarrow> inj_on rank_key (set fs)"
  by (rule inj_onI) (auto simp: rank_key_def distinct_map dest: inj_onD)

lemma filter_unique:
  "distinct xs \<Longrightarrow> inj_on h (set xs) \<Longrightarrow> x \<in> set xs \<Longrightarrow> filter (\<lambda>y. h x = h y) xs = [x]"
proof (induction xs)
  case (Cons a xs)
  show ?case
  proof (cases "x = a")
    case True
    have "filter (\<lambda>y. h a = h y) xs = []"
      using Cons.prems by (auto simp: filter_empty_conv inj_on_def)
    then show ?thesis using True by simp
  next
    case False
    then have "x \<in> set xs" "h x \<noteq> h a" using Cons.prems by (auto simp: inj_on_def)
    then show ?thesis using Cons by simp
  qed
qed simp

lemma sort_key_unique:
  assumes "mset xs = mset ys" "distinct xs" "inj_on h (set xs)"
  shows "sort_key h xs = sort_key h ys"
proof (rule properties_for_sort_key)
  have d: "distinct ys" using assms(1,2) by (rule mset_eq_imp_distinct_iff[THEN iffD1])
  have s: "set (sort_key h ys) = set xs" "distinct (sort_key h ys)"
    using mset_eq_setD[OF assms(1)] d by simp_all
  show "mset (sort_key h ys) = mset xs" using assms(1) by simp
  show "filter (\<lambda>x. h k = h x) (sort_key h ys) = filter (\<lambda>x. h k = h x) xs" if "k \<in> set (sort_key h ys)" for k
  proof -
    have "k \<in> set xs" using that s(1) by blast
    then have "filter (\<lambda>y. h k = h y) xs = [k]" by (rule filter_unique[OF assms(2,3)])
    moreover have "filter (\<lambda>y. h k = h y) (sort_key h ys) = [k]"
      using filter_unique[OF s(2) _ that] assms(3) unfolding s(1) .
    ultimately show ?thesis by (rule trans[OF _ sym, rotated])
  qed
  show "sorted (map h (sort_key h ys))" by (rule sorted_sort_key)
qed

lemma set_rank: "set (rank fs) = {k. \<exists>f. row_find rf_key k fs = Some f \<and> \<not> rf_suppressed f}"
  by (simp add: rank_def live_of_keys)

lemma distinct_rank: "distinct (rank fs)"
proof -
  have "mset (rank fs) = mset (map rf_key (live_of [] fs))" by (simp add: rank_def)
  then show ?thesis using live_of_distinct by (metis mset_eq_imp_distinct_iff)
qed

section \<open>Key positions\<close>

lemma key_index_Some: "key_index xs k = Some i \<Longrightarrow> i < length xs \<and> xs ! i = k"
  by (induction xs arbitrary: i) (auto split: if_splits)

lemma key_index_None: "key_index xs k = None \<longleftrightarrow> k \<notin> set xs"
  by (induction xs) auto

lemma key_index_nth: "distinct xs \<Longrightarrow> i < length xs \<Longrightarrow> key_index xs (xs ! i) = Some i"
  by (induction xs arbitrary: i) (auto simp: nth_Cons' split: if_splits)

lemma as_str_Some: "as_str v = Some s \<longleftrightarrow> v = JStr s"
  by (cases v) auto

lemma as_str_jstr: "\<forall>v\<in>set vs. as_str v \<noteq> None \<Longrightarrow> map JStr (map jstr vs) = vs"
  by (induction vs) (auto simp: as_str_Some)

section \<open>What precedes a handle\<close>

lemma takeWhile_sorted_strict:
  assumes "sorted (map h zs)" "distinct (map g zs)" "inj_on h (set zs)" "z \<in> set zs"
  shows "set (takeWhile (\<lambda>x. x \<noteq> g z) (map g zs)) = g ` {y \<in> set zs. h y < h z}"
  using assms
proof (induction zs)
  case (Cons a zs)
  have inj: "inj_on h (set zs)" using Cons.prems(3) by (simp add: inj_on_def)
  show ?case
  proof (cases "z = a")
    case True
    then have "{y \<in> set (a # zs). h y < h z} = {}" using Cons.prems(1) by auto
    then show ?thesis using True by simp
  next
    case False
    then have z: "z \<in> set zs" using Cons.prems(4) by simp
    have "g a \<noteq> g z" using Cons.prems(2) z by auto
    moreover have "h a < h z"
      using Cons.prems(1,3) z False by (fastforce simp: inj_on_def order_less_le)
    moreover have "set (takeWhile (\<lambda>x. x \<noteq> g z) (map g zs)) = g ` {y \<in> set zs. h y < h z}"
      using Cons.IH[OF _ _ inj z] Cons.prems(1,2) by simp
    ultimately show ?thesis by auto
  qed
qed simp

definition ahead_of :: "string \<Rightarrow> rank_features list \<Rightarrow> string set" where
  "ahead_of k fs = set (takeWhile (\<lambda>x. x \<noteq> k) (rank fs))"

lemma ahead_of_live:
  assumes "distinct (map rf_key fs)" "f \<in> set fs" "\<not> rf_suppressed f"
  shows "ahead_of (rf_key f) fs = rf_key ` {g \<in> set fs. \<not> rf_suppressed g \<and> rank_key g < rank_key f}"
proof -
  let ?live = "filter (\<lambda>f. \<not> rf_suppressed f) fs"
  have l: "live_of [] fs = ?live" using assms(1) by (simp add: live_of_unseen_distinct)
  have d: "distinct (map rf_key (sort_key rank_key ?live))"
    using live_of_distinct[of "[]" fs] unfolding l by (simp add: distinct_map)
  have "set (takeWhile (\<lambda>x. x \<noteq> rf_key f) (map rf_key (sort_key rank_key ?live)))
      = rf_key ` {y \<in> set (sort_key rank_key ?live). rank_key y < rank_key f}"
    using takeWhile_sorted_strict[of rank_key "sort_key rank_key ?live" rf_key f] d inj_rank_key_on[OF d] assms(2,3)
    by simp
  also have "{y \<in> set (sort_key rank_key ?live). rank_key y < rank_key f} =
      {g \<in> set fs. \<not> rf_suppressed g \<and> rank_key g < rank_key f}"
    by auto
  finally show ?thesis by (simp add: ahead_of_def rank_def l)
qed

lemma rank_first:
  assumes "distinct (map rf_key (f # fs))" "\<not> rf_suppressed f" "\<forall>g\<in>set fs. \<not> rank_key g < rank_key f"
  shows "\<exists>ks. rank (f # fs) = rf_key f # ks"
proof -
  have "ahead_of (rf_key f) (f # fs) = {}"
    using ahead_of_live[OF assms(1), of f] assms(2,3) by auto
  moreover have "rf_key f \<in> set (rank (f # fs))" using assms(2) by (simp add: set_rank)
  ultimately show ?thesis by (cases "rank (f # fs)") (auto simp: ahead_of_def split: if_splits)
qed

section \<open>Properties\<close>

text \<open>The feed order: \<open>rank\<close> returns every handle whose first record is not suppressed, exactly once and nothing
  else, ordered by descending score, then age, then handle.\<close>

lemma rank_orders_live_handles:
  "distinct (rank fs) \<and> set (rank fs) = {k. \<exists>f. row_find rf_key k fs = Some f \<and> \<not> rf_suppressed f} \<and>
   sorted (map (\<lambda>k. rank_key (the (row_find rf_key k fs))) (rank fs))"
proof -
  have "map (\<lambda>k. rank_key (the (row_find rf_key k fs))) (rank fs)
      = map rank_key (sort_key rank_key (live_of [] fs))"
    by (auto simp: rank_def live_of_found)
  then have "sorted (map (\<lambda>k. rank_key (the (row_find rf_key k fs))) (rank fs))"
    by (simp only: sorted_sort_key)
  then show ?thesis by (simp add: distinct_rank set_rank)
qed

text \<open>The order depends on the records alone: two inputs with the same records in different orders, no handle
  repeated, give the same feed.\<close>

lemma rank_ignores_input_order:
  assumes "mset fs = mset gs" "distinct (map rf_key fs)"
  shows "rank fs = rank gs"
proof -
  let ?live = "filter (\<lambda>f. \<not> rf_suppressed f)"
  have d: "distinct (map rf_key gs)"
    using assms by (metis mset_eq_imp_distinct_iff mset_map)
  have lf: "live_of [] fs = ?live fs" and lg: "live_of [] gs = ?live gs"
    using assms(2) d by (simp_all add: live_of_unseen_distinct)
  have k: "distinct (map rf_key (?live fs))" using live_of_distinct[of "[]" fs] unfolding lf .
  have "mset (?live fs) = mset (?live gs)" using assms(1) by (simp add: mset_filter)
  then have "sort_key rank_key (?live fs) = sort_key rank_key (?live gs)"
    using distinct_map[THEN iffD1, OF k, THEN conjunct1] inj_rank_key_on[OF k] by (rule sort_key_unique)
  then show ?thesis by (simp add: rank_def lf lg)
qed

text \<open>Demotion only demotes: marking an item as bulk mail or raising its engagement penalty never lets it pass
  anything that was ahead of it.\<close>

lemma demotion_never_promotes:
  assumes "distinct (map rf_key (xs @ f # ys))" "\<not> rf_suppressed f" "rf_engagement_penalty f \<le> p"
  shows "ahead_of (rf_key f) (xs @ f # ys) \<subseteq>
         ahead_of (rf_key f) (xs @ f\<lparr>rf_bulk_mail := True, rf_engagement_penalty := p\<rparr> # ys)"
proof -
  let ?f' = "f\<lparr>rf_bulk_mail := True, rf_engagement_penalty := p\<rparr>"
  have "positive_score ?f' = positive_score f"
    by (simp add: positive_score_def deadline_term_def counterparty_term_def thread_term_def)
  moreover have "demotion f \<le> demotion ?f'"
    using assms(3) by (simp add: demotion_def rank_weights indicator_def)
  ultimately have s: "rank_key f \<le> rank_key ?f'"
    by (simp add: rank_key_def score_def less_eq_prod_def)
  have d: "distinct (map rf_key (xs @ ?f' # ys))" using assms(1) by simp
  have "ahead_of (rf_key f) (xs @ f # ys) =
      rf_key ` {g \<in> set (xs @ f # ys). \<not> rf_suppressed g \<and> rank_key g < rank_key f}"
    by (rule ahead_of_live[OF assms(1)]) (simp_all add: assms(2))
  also have "\<dots> \<subseteq> rf_key ` {g \<in> set (xs @ ?f' # ys). \<not> rf_suppressed g \<and> rank_key g < rank_key ?f'}"
    using s by (auto simp: image_iff dest: order.strict_trans2)
  also have "\<dots> = ahead_of (rf_key ?f') (xs @ ?f' # ys)"
    by (rule ahead_of_live[OF d, symmetric]) (simp_all add: assms(2))
  finally show ?thesis by simp
qed

text \<open>What a claimed date can do: an item within three points of the best of the feed goes to the very top when
  its text names today as the deadline.\<close>

lemma deadline_claim_reaches_the_top:
  assumes "distinct (map rf_key (f # fs))" "\<not> rf_suppressed f" "rf_deadline_in_days f = None"
    and "\<forall>g\<in>set fs. score g < score f + W_DEADLINE"
  shows "\<exists>ks. rank (f\<lparr>rf_deadline_in_days := Some 0\<rparr> # fs) = rf_key f # ks"
proof -
  let ?f' = "f\<lparr>rf_deadline_in_days := Some 0\<rparr>"
  have "score ?f' = score f + W_DEADLINE"
    using assms(3) by (simp add: score_def positive_score_def demotion_def deadline_term_def counterparty_term_def
        thread_term_def ramp_def DEADLINE_URGENCY_DAYS_def)
  then have "\<forall>g\<in>set fs. \<not> rank_key g < rank_key ?f'"
    using assms(4) by (auto simp: rank_key_def less_prod_def)
  then show ?thesis using rank_first[of ?f' fs] assms(1,2) by simp
qed

text \<open>The reordering contract: with a legal call, a response is accepted exactly when it is a reordering of the
  baseline in which nothing moves further than the bound, and then it is returned as it is.\<close>

lemma validate_accepts_bounded_reorderings:
  assumes "0 \<le> d" "distinct expected"
  shows "validate_permutation proposed expected d = Inr (Some ks) \<longleftrightarrow>
    proposed = map JStr ks \<and> mset ks = mset expected \<and>
    (\<forall>i<length ks. \<forall>j<length expected. expected ! j = ks ! i \<longrightarrow> \<bar>int i - int j\<bar> \<le> d)"
    (is "?lhs \<longleftrightarrow> ?strs \<and> ?perm \<and> ?near")
proof
  assume ?lhs
  then have len: "length proposed = length expected" and strs: "\<forall>v\<in>set proposed. as_str v \<noteq> None"
    and ks: "ks = map jstr proposed" and dk: "distinct ks"
    and all: "list_all (\<lambda>(i, k). in_reach d expected i k) (zip [0..<length ks] ks)"
    using assms by (auto simp: validate_permutation_def Let_def split: if_splits)
  have reach: "in_reach d expected i (ks ! i)" if "i < length ks" for i
    using all that by (auto simp: list_all_length)
  have "ks ! i \<in> set expected" if "i < length ks" for i
    using reach[OF that] key_index_None[of expected "ks ! i"] by (auto simp: in_reach_def split: option.splits)
  then have "set ks \<subseteq> set expected" by (auto simp: in_set_conv_nth)
  moreover have "card (set ks) = card (set expected)"
    using distinct_card[OF dk] distinct_card[OF assms(2)] len ks by (simp del: set_map)
  ultimately have "set ks = set expected" by (simp add: card_subset_eq)
  then have ?perm using dk assms(2) by (simp add: set_eq_iff_mset_eq_distinct)
  moreover have ?near
  proof (intro allI impI)
    fix i j assume i: "i < length ks" and j: "j < length expected" "expected ! j = ks ! i"
    have "key_index expected (ks ! i) = Some j" using key_index_nth[OF assms(2) j(1)] j(2) by simp
    then show "\<bar>int i - int j\<bar> \<le> d" using reach[OF i] by (simp add: in_reach_def)
  qed
  moreover have ?strs using as_str_jstr[OF strs] ks by simp
  ultimately show "?strs \<and> ?perm \<and> ?near" by simp
next
  assume r: "?strs \<and> ?perm \<and> ?near"
  then have dk: "distinct ks" and len: "length ks = length expected"
    using assms(2) mset_eq_imp_distinct_iff mset_eq_length by blast+
  have "in_reach d expected i (ks ! i)" if i: "i < length ks" for i
  proof -
    have "ks ! i \<in> set expected" using r i mset_eq_setD nth_mem by metis
    then obtain j where j: "j < length expected" "expected ! j = ks ! i" by (auto simp: in_set_conv_nth)
    then have "key_index expected (ks ! i) = Some j" using key_index_nth[OF assms(2) j(1)] by simp
    then show ?thesis using r i j by (simp add: in_reach_def)
  qed
  then have "list_all (\<lambda>(i, k). in_reach d expected i k) (zip [0..<length ks] ks)"
    by (simp add: list_all_length)
  moreover have "map jstr proposed = ks" "\<forall>v\<in>set proposed. as_str v \<noteq> None"
    using r by (auto simp: o_def)
  ultimately show ?lhs
    using r assms dk len by (simp add: validate_permutation_def Let_def)
qed

text \<open>Scores stay between the sum of the demotions and the sum of the positive weights.\<close>

lemma score_bounds:
  assumes "features_ok f" shows "-9/2 \<le> score f \<and> score f \<le> 49/4"
  using assms demotion_bounds[OF assms] positive_score_bounds[of f] by (simp add: features_ok_def score_def)

end
