(* ===== verification/View_Units.thy ===== *)
theory View_Units
  imports Engagement Rank
begin

text \<open>
  Frames and units: \<open>view/contracts.py\<close>, \<open>view/frame.py\<close>, \<open>view/perception.py\<close>
  and \<open>view/stored_units.py\<close>. A frame is built by code from a row, its headline
  neutralised by the validator's own pattern; a unit is a frame with quotes and a body. A constructor that the
  validating model refuses is \<open>None\<close>. \<open>now\<close> is the clock, \<open>down\<close> tells which family's read
  fails.
\<close>

section \<open>The contracts\<close>

datatype frame_status = NeedsYou | Scheduled | FRunning | FDone | FFailed | FNew | FSeen

record affordance =
  af_capability :: string
  af_label :: string
  af_variant :: string

record frame =
  fm_key :: string
  fm_kind :: frame_kind
  fm_status :: frame_status
  fm_headline :: string
  fm_source :: string
  fm_entity_type :: string
  fm_occurred_at :: instant
  fm_updated_at :: instant
  fm_importance :: pyfloat
  fm_event_count :: int
  fm_affordances :: "affordance list"

record quote =
  qt_text :: string
  qt_who :: string
  qt_when :: instant

record view_unit =
  vu_frame :: frame
  vu_body :: string
  vu_quotes :: "quote list"

definition MAX_HEADLINE_CHARS :: nat where "MAX_HEADLINE_CHARS = 200"

definition is_control :: "char \<Rightarrow> bool" where
  "is_control c \<longleftrightarrow> code c \<le> 31 \<or> (127 \<le> code c \<and> code c \<le> 159)"

definition is_letter :: "char \<Rightarrow> bool" where
  "is_letter c \<longleftrightarrow> (65 \<le> code c \<and> code c \<le> 90) \<or> (97 \<le> code c \<and> code c \<le> 122)"

definition chr :: "char \<Rightarrow> pattern" where
  "chr c = Sat (\<lambda>x. x = c)"

definition not_chr :: "char \<Rightarrow> pattern" where
  "not_chr c = Sat (\<lambda>x. x \<noteq> c)"

definition visible :: pattern where
  "visible = Sat (\<lambda>x. \<not> is_white x)"

definition email_link :: pattern where
  "email_link = seqs [Many 1 visible, chr CHR ''@'', Many 1 visible, chr CHR ''.'', Many 1 visible]"

definition web_scheme :: pattern where
  "web_scheme = seqs [lits ''http'', opt_pat (chr CHR ''s''), lits ''://'']"

fun any_of :: "pattern list \<Rightarrow> pattern" where
  "any_of [] = Sat (\<lambda>_. False)"
| "any_of [p] = p"
| "any_of (p # ps) = Alt p (any_of ps)"

text \<open>What a headline must not contain. The bidirectional controls of the last alternative lie outside Latin-1.\<close>

definition MARKDOWN_IN_HEADLINE :: pattern where
  "MARKDOWN_IN_HEADLINE = any_of
     [lits ''**'',
      seqs [NotAfterWord, chr CHR ''*'', Many 1 (not_chr CHR ''*''), chr CHR ''*''],
      seqs [NotAfterWord, chr CHR ''_'', Many 1 (not_chr CHR ''_''), chr CHR ''_''],
      lits ''~~'',
      seqs [chr CHR ''['', Many 0 (not_chr CHR '']''), lits ''](''],
      seqs [LineStart, Many 0 (Sat is_white), chr CHR ''#''],
      chr CHR 0x60,
      web_scheme,
      lits ''www.'',
      seqs [chr CHR ''<'', Sat is_letter,
        Many 0 (Sat (\<lambda>x. is_letter x \<or> is_digit_char x \<or> x \<in> {CHR ''+'', CHR ''.'', CHR ''-''})), chr CHR '':''],
      email_link,
      Sat is_control]"

definition STRIP_CONTROL :: pattern where "STRIP_CONTROL = Sat is_control"

definition STRIP_LINK :: pattern where
  "STRIP_LINK = seqs [chr CHR ''['', Grp 1 (Many 0 (not_chr CHR '']'')), lits ''](''  , Many 0 (not_chr CHR '')''), chr CHR '')'']"

definition STRIP_MARKS :: pattern where
  "STRIP_MARKS = Sat (\<lambda>x. x \<in> set ''*_#[]()~<>'' \<or> x = CHR 0x60)"

definition STRIP_AUTOLINK :: pattern where
  "STRIP_AUTOLINK = any_of [Seq web_scheme (Many 0 visible), Seq (lits ''www.'') (Many 0 visible), email_link]"

definition NEUTRALIZE_PASSES :: nat where "NEUTRALIZE_PASSES = 4"

text \<open>The validation of a frame; the stored headline is the stripped one.\<close>

definition headline_ok :: "string \<Rightarrow> bool" where
  "headline_ok v \<longleftrightarrow> v \<noteq> [] \<and> length v \<le> MAX_HEADLINE_CHARS \<and> py_strip v \<noteq> [] \<and> \<not> search MARKDOWN_IN_HEADLINE (py_strip v)"

definition frame_ok :: "frame \<Rightarrow> bool" where
  "frame_ok f \<longleftrightarrow> fm_key f \<noteq> [] \<and> headline_ok (fm_headline f) \<and> fm_source f \<noteq> [] \<and> 0 \<le> fm_importance f
     \<and> fm_importance f \<le> 1 \<and> 1 \<le> fm_event_count f"

definition make_frame :: "frame \<Rightarrow> frame option" where
  "make_frame f = (if frame_ok f then Some (f\<lparr>fm_headline := py_strip (fm_headline f)\<rparr>) else None)"

section \<open>Neutralising external text\<close>

definition neutralize_one :: "string \<Rightarrow> capture \<Rightarrow> string" where
  "neutralize_one text cs =
     (if 1 < length text \<and> hd text \<in> {CHR ''*'', CHR ''_''} \<and> last text = hd text
      then butlast (tl text) else '' '')"

fun neutralize :: "nat \<Rightarrow> string \<Rightarrow> string" where
  "neutralize 0 out = subst_all STRIP_AUTOLINK (\<lambda>_ _. '' '') (subst_all STRIP_MARKS (\<lambda>_ _. []) out)"
| "neutralize (Suc n) out =
     (if \<not> search MARKDOWN_IN_HEADLINE out then out
      else neutralize n (subst_all MARKDOWN_IN_HEADLINE neutralize_one out))"

definition plain :: "string \<Rightarrow> string" where
  "plain text =
     (let out = subst_all STRIP_CONTROL (\<lambda>_ _. '' '') text;
          out = subst_all STRIP_LINK (\<lambda>_ cs. opt_or (group cs 1) []) out;
          out = subst_all STRIP_AUTOLINK (\<lambda>_ _. '' '') out
      in join_with '' '' (words_of (neutralize NEUTRALIZE_PASSES out)))"

definition WORD_BOUNDARY_WINDOW :: nat where "WORD_BOUNDARY_WINDOW = 40"

text \<open>\<open>cut.rfind(' ', start)\<close>: the last blank at or after \<open>start\<close>.\<close>

definition last_blank :: "nat \<Rightarrow> string \<Rightarrow> nat option" where
  "last_blank start s =
     (let ps = filter (\<lambda>i. s ! i = CHR '' '') [start..<length s] in if ps = [] then None else Some (last ps))"

definition rstrip :: "string \<Rightarrow> string" where
  "rstrip s = rev (dropWhile is_white (rev s))"

definition clamp_headline :: "string \<Rightarrow> string" where
  "clamp_headline text =
     (if length text \<le> MAX_HEADLINE_CHARS then text
      else let cut = take MAX_HEADLINE_CHARS text
           in rstrip (case last_blank (MAX_HEADLINE_CHARS - WORD_BOUNDARY_WINDOW) cut of
                        None \<Rightarrow> cut | Some b \<Rightarrow> if 0 < b then take b cut else cut))"

section \<open>Who an event is from\<close>

definition name_of_entry :: "jdict \<Rightarrow> string option" where
  "name_of_entry d = as_str (jor (jget d ''name'') (jget d ''canonical_name''))"

definition raw_names :: "json \<Rightarrow> string list" where
  "raw_names actors =
     (let candidates = (case actors of JObj d \<Rightarrow> [JObj d] | JList xs \<Rightarrow> xs | _ \<Rightarrow> [])
      in List.map_filter (\<lambda>v. case v of JObj d \<Rightarrow> name_of_entry d | _ \<Rightarrow> None) candidates)"

definition local_part :: "string \<Rightarrow> string" where
  "local_part name = (case partition_at CHR ''@'' name of None \<Rightarrow> [] | Some (a, _) \<Rightarrow> plain a)"

definition first_nonempty :: "string list \<Rightarrow> string" where
  "first_nonempty xs = (case filter (\<lambda>x. x \<noteq> []) xs of [] \<Rightarrow> [] | x # _ \<Rightarrow> x)"

definition actor_name :: "json \<Rightarrow> string" where
  "actor_name actors =
     (let names = raw_names actors; named = first_nonempty (map plain names)
      in if named \<noteq> [] then named else first_nonempty (map local_part names))"

definition event_actor_name :: "event \<Rightarrow> string" where
  "event_actor_name e = actor_name (jor (ne_actor_entities e) (ne_actor e))"

section \<open>Frames\<close>

definition headline_of :: "string \<Rightarrow> string \<Rightarrow> string \<Rightarrow> string \<Rightarrow> string" where
  "headline_of actor subject source entity_type =
     clamp_headline
       (if actor \<noteq> [] \<and> subject \<noteq> [] then actor @ '' - '' @ subject
        else if subject \<noteq> [] then subject
        else if actor \<noteq> [] then actor
        else py_strip (source @ '' '' @ entity_type))"

definition clamp_importance :: "pyfloat \<Rightarrow> pyfloat" where
  "clamp_importance v = min 1 (max 0 v)"

definition frame_for_event ::
  "instant \<Rightarrow> event \<Rightarrow> frame_kind \<Rightarrow> frame_status \<Rightarrow> int \<Rightarrow> timestamp \<Rightarrow> pyfloat \<Rightarrow> affordance list \<Rightarrow> frame option" where
  "frame_for_event now e kind status evcount updated_at importance affordances =
     (let occurred_at = opt_or (ensure_aware_utc (ne_occurred_at e)) now
      in make_frame
        \<lparr>fm_key = event_key e, fm_kind = kind, fm_status = status,
         fm_headline = headline_of (event_actor_name e) (plain (opt_or (ne_title e) [])) (ne_source e) (ne_entity_type e),
         fm_source = ne_source e, fm_entity_type = ne_entity_type e, fm_occurred_at = occurred_at,
         fm_updated_at = opt_or (ensure_aware_utc updated_at) occurred_at, fm_importance = clamp_importance importance,
         fm_event_count = evcount, fm_affordances = affordances\<rparr>)"

definition frame_for_row ::
  "instant \<Rightarrow> string \<Rightarrow> string \<Rightarrow> string \<Rightarrow> frame_kind \<Rightarrow> frame_status \<Rightarrow> string \<Rightarrow> instant option \<Rightarrow> instant option
   \<Rightarrow> int \<Rightarrow> affordance list \<Rightarrow> frame option" where
  "frame_for_row now source entity_type entity_id kind status headline occurred_at updated_at evcount affordances =
     (let text = plain headline;
          text = (if text = [] then py_strip (source @ '' '' @ entity_type) else text);
          occurred_at = opt_or occurred_at now
      in make_frame
        \<lparr>fm_key = frame_key source entity_type entity_id, fm_kind = kind, fm_status = status,
         fm_headline = clamp_headline text, fm_source = source, fm_entity_type = entity_type,
         fm_occurred_at = occurred_at, fm_updated_at = opt_or updated_at occurred_at, fm_importance = 0,
         fm_event_count = evcount, fm_affordances = affordances\<rparr>)"

section \<open>Quotes and perceived units\<close>

definition MAX_QUOTES :: nat where "MAX_QUOTES = 3"

definition verbatim_source :: "string \<Rightarrow> bool" where
  "verbatim_source source \<longleftrightarrow> source \<in> {''gmail'', ''slack''}"

definition stripped_text :: "json \<Rightarrow> string" where
  "stripped_text v = (case as_str v of None \<Rightarrow> [] | Some s \<Rightarrow> py_strip s)"

definition quote_text :: "event \<Rightarrow> string" where
  "quote_text e =
     (if \<not> verbatim_source (ne_source e) then []
      else first_nonempty
        (stripped_text (ne_summary e)
         # (case ne_raw_payload e of JObj d \<Rightarrow> map (\<lambda>k. stripped_text (jget d k)) [''snippet'', ''body''] | _ \<Rightarrow> [])))"

definition quote_of :: "event \<Rightarrow> quote option" where
  "quote_of e =
     (case ensure_aware_utc (ne_occurred_at e) of
        None \<Rightarrow> None
      | Some t \<Rightarrow>
          if quote_text e = [] \<or> event_actor_name e = [] then None
          else Some \<lparr>qt_text = quote_text e, qt_who = event_actor_name e, qt_when = t\<rparr>)"

definition quotes_from_events :: "event list \<Rightarrow> quote list" where
  "quotes_from_events es =
     (let quotes = List.map_filter quote_of (sort_key occurred es) in drop (length quotes - MAX_QUOTES) quotes)"

definition perception_kind :: "string \<Rightarrow> frame_kind" where
  "perception_kind source = (if source = ''calendar'' then Record else Finding)"

definition unit_of_group :: "instant \<Rightarrow> event_group \<Rightarrow> view_unit option" where
  "unit_of_group now g =
     (case frame_for_event now (latest g) (perception_kind (ne_source (latest g))) FNew (int (event_count g))
             (Aware (occurred (latest g))) 0 [] of
        None \<Rightarrow> None
      | Some f \<Rightarrow> Some \<lparr>vu_frame = f, vu_body = [], vu_quotes = quotes_from_events (eg_events g)\<rparr>)"

definition units_from_events :: "instant \<Rightarrow> event list \<Rightarrow> view_unit list" where
  "units_from_events now es = List.map_filter (unit_of_group now) (group_events_by_key es)"

definition event_identity :: "(instant \<Rightarrow> string) \<Rightarrow> event \<Rightarrow> string" where
  "event_identity isoformat e =
     (if ne_event_id e \<noteq> [] then ne_event_id e
      else if ne_idempotency_key e \<noteq> [] then ne_idempotency_key e
      else join_with '':'' [ne_source e, ne_entity_id e, ne_event_type e,
             (case ensure_aware_utc (ne_occurred_at e) of None \<Rightarrow> [] | Some t \<Rightarrow> isoformat t)])"

definition event_ids_by_key :: "(instant \<Rightarrow> string) \<Rightarrow> event list \<Rightarrow> (string \<times> string list) list" where
  "event_ids_by_key isoformat es =
     map (\<lambda>g. (eg_key g, map (event_identity isoformat) (eg_events g))) (group_events_by_key es)"

definition FEED_WINDOW_DAYS :: int where "FEED_WINDOW_DAYS = 14"
definition FEED_HORIZON_DAYS :: int where "FEED_HORIZON_DAYS = 7"
definition MAX_FEED_EVENTS :: nat where "MAX_FEED_EVENTS = 500"

definition stored_perception_units ::
  "bool \<Rightarrow> string \<Rightarrow> string \<Rightarrow> instant \<Rightarrow> event list \<Rightarrow> view_unit list \<times> (string \<times> event list) list" where
  "stored_perception_units down ws uid now store =
     (if down then ([], [])
      else let rows = take MAX_FEED_EVENTS (sort_key (\<lambda>e. - occurred e)
                 (filter (\<lambda>e. ne_workspace_id e = ws \<and> ne_user_id e = uid
                            \<and> now - days FEED_WINDOW_DAYS \<le> occurred e \<and> occurred e \<le> now + days FEED_HORIZON_DAYS) store))
           in (units_from_events now rows, map (\<lambda>g. (eg_key g, eg_events g)) (group_events_by_key rows)))"

section \<open>Bounds and well-formedness\<close>

lemma length_dropWhile_le: "length (dropWhile P xs) \<le> length xs"
  by (induction xs) auto

lemma length_py_strip: "length (py_strip s) \<le> length s"
proof -
  have "length (py_strip s) \<le> length (dropWhile is_white s)"
    using length_dropWhile_le[of is_white "rev (dropWhile is_white s)"] by (simp add: py_strip_def strip_chars_def)
  also have "\<dots> \<le> length s" by (rule length_dropWhile_le)
  finally show ?thesis .
qed

lemma strip_ends:
  "strip_chars P s \<noteq> [] \<Longrightarrow> \<not> P (hd (strip_chars P s)) \<and> \<not> P (last (strip_chars P s))"
proof -
  assume n: "strip_chars P s \<noteq> []"
  let ?t = "dropWhile P s"
  have d: "dropWhile P (rev ?t) \<noteq> []" using n by (simp add: strip_chars_def)
  then have "\<not> P (hd (dropWhile P (rev ?t)))" by (rule hd_dropWhile)
  then have l: "\<not> P (last (strip_chars P s))" using d by (simp add: strip_chars_def last_rev)
  obtain us where us: "rev ?t = us @ dropWhile P (rev ?t)" using takeWhile_dropWhile_id by metis
  then have "?t = rev (dropWhile P (rev ?t)) @ rev us" by (metis rev_append rev_rev_ident)
  then have "hd ?t = hd (strip_chars P s)" using n by (metis hd_append strip_chars_def)
  moreover have "?t \<noteq> []" using d by (cases "?t = []") simp_all
  then have "\<not> P (hd ?t)" by (rule hd_dropWhile)
  ultimately show ?thesis using l by simp
qed

lemma strip_idem: "strip_chars P (strip_chars P s) = strip_chars P s"
proof (cases "strip_chars P s = []")
  case False
  then have "dropWhile P (strip_chars P s) = strip_chars P s"
    using strip_ends[OF False] by (cases "strip_chars P s") auto
  moreover have "dropWhile P (rev (strip_chars P s)) = rev (strip_chars P s)"
    using strip_ends[OF False] False by (cases "rev (strip_chars P s)") (auto simp: hd_rev[symmetric])
  ultimately show ?thesis unfolding strip_chars_def[of P "strip_chars P s"] by simp
next
  case True
  show ?thesis unfolding True by (simp add: strip_chars_def)
qed

lemma make_frame_ok: "make_frame f = Some g \<Longrightarrow> frame_ok g \<and> fm_key g = fm_key f \<and> fm_status g = fm_status f \<and> fm_source g = fm_source f"
  using length_py_strip[of "fm_headline f"]
  by (auto simp: make_frame_def frame_ok_def headline_ok_def py_strip_def strip_idem split: if_splits)

lemma frame_for_event_ok:
  "frame_for_event now e kind status n up imp affs = Some f \<Longrightarrow>
     frame_ok f \<and> fm_key f = event_key e \<and> fm_status f = status \<and> fm_source f = ne_source e"
  by (auto simp: frame_for_event_def Let_def dest: make_frame_ok)

lemma frame_for_row_ok:
  "frame_for_row now source entity_type entity_id kind status headline oc up n affs = Some f \<Longrightarrow>
     frame_ok f \<and> fm_key f = frame_key source entity_type entity_id \<and> fm_status f = status \<and> fm_source f = source"
  by (auto simp: frame_for_row_def Let_def dest: make_frame_ok)

lemma length_rstrip: "length (rstrip s) \<le> length s"
  using length_dropWhile_le[of is_white "rev s"] by (simp add: rstrip_def)

lemma clamp_headline_length: "length (clamp_headline text) \<le> MAX_HEADLINE_CHARS"
proof (cases "length text \<le> MAX_HEADLINE_CHARS")
  case False
  let ?cut = "take MAX_HEADLINE_CHARS text"
  let ?c = "case last_blank (MAX_HEADLINE_CHARS - WORD_BOUNDARY_WINDOW) ?cut of
      None \<Rightarrow> ?cut | Some b \<Rightarrow> if 0 < b then take b ?cut else ?cut"
  have "length ?c \<le> MAX_HEADLINE_CHARS" by (auto split: option.split)
  moreover have "clamp_headline text = rstrip ?c" using False by (simp add: clamp_headline_def Let_def)
  ultimately show ?thesis using le_trans[OF length_rstrip] by simp
qed (simp add: clamp_headline_def)

lemma map_filter_mem: "y \<in> set (List.map_filter f xs) \<longleftrightarrow> (\<exists>x\<in>set xs. f x = Some y)"
  by (induction xs) (auto simp: map_filter_simps split: option.splits)

lemma perceived_unit:
  assumes "u \<in> set (units_from_events now es)"
  shows "\<exists>g\<in>set (group_events_by_key es). unit_of_group now g = Some u \<and> frame_ok (vu_frame u) \<and>
    fm_key (vu_frame u) = eg_key g \<and> fm_status (vu_frame u) = FNew \<and> fm_source (vu_frame u) = ne_source (latest g)"
proof -
  obtain g where g: "g \<in> set (group_events_by_key es)" "unit_of_group now g = Some u"
    using assms by (auto simp: units_from_events_def map_filter_mem)
  then obtain f where f: "frame_for_event now (latest g) (perception_kind (ne_source (latest g))) FNew (int (event_count g))
      (Aware (occurred (latest g))) 0 [] = Some f" "vu_frame u = f"
    by (auto simp: unit_of_group_def split: option.splits)
  have "latest g \<in> set (eg_events g)" using group_nonempty[OF g(1)] by (simp add: latest_def)
  then have "event_key (latest g) = eg_key g" using g(1) by (auto simp: group_eq)
  then show ?thesis using g frame_for_event_ok[OF f(1)] f(2) by (intro bexI[of _ g]) simp_all
qed

lemma units_keys_distinct: "distinct (map (\<lambda>u. fm_key (vu_frame u)) (units_from_events now es))"
proof -
  have "\<forall>g\<in>set (group_events_by_key es). \<forall>u. unit_of_group now g = Some u \<longrightarrow> fm_key (vu_frame u) = eg_key g"
  proof (intro ballI allI impI)
    fix g u assume g: "g \<in> set (group_events_by_key es)" "unit_of_group now g = Some u"
    have "latest g \<in> set (eg_events g)" using group_nonempty[OF g(1)] by (simp add: latest_def)
    then have "event_key (latest g) = eg_key g" using g(1) by (auto simp: group_eq)
    then show "fm_key (vu_frame u) = eg_key g"
      using g(2) by (auto simp: unit_of_group_def dest!: frame_for_event_ok split: option.splits)
  qed
  then show ?thesis unfolding units_from_events_def by (rule map_filter_keys(1)[OF group_keys_distinct])
qed

lemma quotes_bounded: "length (quotes_from_events es) \<le> MAX_QUOTES"
  by (simp add: quotes_from_events_def Let_def)

lemma quote_of_attributed:
  "quote_of e = Some q \<Longrightarrow> verbatim_source (ne_source e) \<and> qt_text q = quote_text e \<and> qt_text q \<noteq> [] \<and>
     qt_who q = event_actor_name e \<and> qt_who q \<noteq> [] \<and> ensure_aware_utc (ne_occurred_at e) = Some (qt_when q)"
  by (auto simp: quote_of_def quote_text_def split: option.splits if_splits)

section \<open>Properties\<close>

text \<open>C37. Every perceived unit honours the contract: its frame passes the validation, it is a thing of the poll and only
  once, it never claims to need the founder, and it quotes at most three messages, each of a source whose text a person
  wrote, with that person's name and a real date.\<close>

theorem perceived_units_are_well_formed:
  "distinct (map (\<lambda>u. fm_key (vu_frame u)) (units_from_events now es)) \<and>
   (\<forall>u\<in>set (units_from_events now es).
      frame_ok (vu_frame u) \<and> fm_key (vu_frame u) \<in> event_key ` set es \<and> fm_status (vu_frame u) = FNew \<and>
      length (vu_quotes u) \<le> 3 \<and>
      (\<forall>q\<in>set (vu_quotes u). \<exists>e\<in>set es. event_key e = fm_key (vu_frame u) \<and> verbatim_source (ne_source e) \<and>
         qt_text q = quote_text e \<and> qt_text q \<noteq> [] \<and> qt_who q = event_actor_name e \<and> qt_who q \<noteq> [] \<and>
         ensure_aware_utc (ne_occurred_at e) = Some (qt_when q)))"
proof (intro conjI ballI)
  show "distinct (map (\<lambda>u. fm_key (vu_frame u)) (units_from_events now es))" by (rule units_keys_distinct)
  fix u assume "u \<in> set (units_from_events now es)"
  then obtain g where g: "g \<in> set (group_events_by_key es)" "unit_of_group now g = Some u" "frame_ok (vu_frame u)"
    "fm_key (vu_frame u) = eg_key g" "fm_status (vu_frame u) = FNew"
    using perceived_unit by blast
  then have q: "vu_quotes u = quotes_from_events (eg_events g)" by (auto simp: unit_of_group_def split: option.splits)
  show "frame_ok (vu_frame u)" "fm_status (vu_frame u) = FNew" by (fact g)+
  show "fm_key (vu_frame u) \<in> event_key ` set es" using g(1,4) by (simp add: group_eq)
  show "length (vu_quotes u) \<le> 3" using quotes_bounded[of "eg_events g"] by (simp add: q MAX_QUOTES_def)
  fix x assume "x \<in> set (vu_quotes u)"
  then obtain e where "e \<in> set (eg_events g)" "quote_of e = Some x"
    unfolding q quotes_from_events_def Let_def by (auto simp: map_filter_mem dest!: in_set_dropD)
  moreover then have "e \<in> set es" "event_key e = eg_key g" using g(1) by (auto simp: group_eq)
  ultimately show "\<exists>e\<in>set es. event_key e = fm_key (vu_frame u) \<and> verbatim_source (ne_source e) \<and>
         qt_text x = quote_text e \<and> qt_text x \<noteq> [] \<and> qt_who x = event_actor_name e \<and> qt_who x \<noteq> [] \<and>
         ensure_aware_utc (ne_occurred_at e) = Some (qt_when x)"
    using quote_of_attributed[of e x] g(4) by auto
qed

lemma marks_survive: "plain ''_ops'' = ''_ops''" "plain ''parse_url fails'' = ''parse_url fails''"
  by code_simp+

lemma composed_marks: "headline_ok ''_ops - parse_url fails'' = False"
  by code_simp

lemma sample_units:
  "map (\<lambda>u. (fm_headline (vu_frame u), map qt_text (vu_quotes u))) (units_from_events 0 [sample_event]) = [(''Ana - Hi'', [''See you''])]"
  by code_simp

theorem perceived_units_are_well_formed_witness:
  "frame_ok (vu_frame (hd (units_from_events 0 [sample_event]))) \<and>
   fm_key (vu_frame (hd (units_from_events 0 [sample_event]))) = event_key sample_event"
proof -
  obtain u where "units_from_events 0 [sample_event] = [u]" using sample_units by (auto simp: map_eq_Cons_conv)
  then show ?thesis using perceived_units_are_well_formed[of 0 "[sample_event]"] by simp
qed

text \<open>Two harmless halves, no card: the sender's name and the subject each pass the validation as they are, their
  composition does not, and the thing has no unit at all.\<close>

lemma composed_headline_loses_the_card:
  assumes "jor (ne_actor_entities e) (ne_actor e) = JList [JObj [(''name'', JStr ''_ops'')]]"
    and "ne_title e = Some ''parse_url fails''"
  shows "headline_ok ''_ops'' \<and> headline_ok ''parse_url fails'' \<and> units_from_events now [e] = []"
proof -
  have a: "event_actor_name e = ''_ops''"
    using assms(1) by (simp add: event_actor_name_def actor_name_def raw_names_def Let_def map_filter_simps
        name_of_entry_def jor_def first_nonempty_def marks_survive)
  have h: "headline_of ''_ops'' ''parse_url fails'' s t = ''_ops - parse_url fails''" for s t
    by (simp add: headline_of_def clamp_headline_def MAX_HEADLINE_CHARS_def)
  have "frame_for_event now e k st n up imp affs = None" for k st n up imp affs
    using assms(2) by (simp add: frame_for_event_def Let_def a marks_survive h make_frame_def frame_ok_def composed_marks)
  moreover have "group_events_by_key [e] = [\<lparr>eg_key = event_key e, eg_events = [e]\<rparr>]"
    by (simp add: group_events_by_key_def buckets_of_def group_of_bucket_def)
  moreover have "headline_ok ''_ops'' \<and> headline_ok ''parse_url fails''" by code_simp
  ultimately show ?thesis by (simp add: units_from_events_def map_filter_simps unit_of_group_def latest_def)
qed

end
