(* ===== verification/Domain_Units.thy ===== *)
theory Domain_Units
  imports View_Units Perception_Policy
begin

text \<open>
  The units for the system's own rows: \<open>view/domain_units.py\<close>. Runs, conclusions, the latest briefing, the
  review queue and the health of the sources. Each family reads its rows (\<open>down\<close>: the read fails) and gives
  nothing rather than an error. A run row is joined with its plan's goal; the steps come in step order.
\<close>

section \<open>Rows\<close>

record run_row =
  rw_run :: task_run
  rw_created_at :: "instant option"
  rw_updated_at :: instant
  rw_goal :: "string option"

record memory_row =
  mm_memory_id :: string
  mm_workspace_id :: string
  mm_user_id :: string
  mm_memory_type :: string
  mm_status :: string
  mm_fact_text :: string
  mm_created_at :: instant
  mm_entity_ids :: "string list"

record briefing_row =
  bf_briefing_id :: string
  bf_workspace_id :: string
  bf_user_id :: string
  bf_date :: int
  bf_created_at :: instant
  bf_headline :: "string option"
  bf_full_text :: "string option"

section \<open>Runs\<close>

definition FAILED_RUN_WINDOW_HOURS :: int where "FAILED_RUN_WINDOW_HOURS = 24"
definition COMPLETED_RUN_WINDOW_HOURS :: int where "COMPLETED_RUN_WINDOW_HOURS = 12"
definition MAX_RUN_UNITS :: nat where "MAX_RUN_UNITS = 20"

definition RUN_FRAME_STATUS :: "(run_status \<times> frame_status) list" where
  "RUN_FRAME_STATUS =
     [(RRunning, FRunning), (RPaused, NeedsYou), (RAwaitingApproval, NeedsYou), (RAwaitingInput, NeedsYou),
      (RBlocked, NeedsYou), (RFailed, FFailed), (RTimedOut, FFailed), (RCompleted, FDone),
      (RPartiallyCompleted, NeedsYou)]"

definition ACTIVE_RUNS :: "run_status list" where
  "ACTIVE_RUNS = [RRunning, RPaused, RAwaitingApproval, RAwaitingInput, RBlocked]"

definition RECENT_FAILED :: "run_status list" where
  "RECENT_FAILED = [RFailed, RTimedOut, RPartiallyCompleted]"

definition RECENT_DONE :: "run_status list" where
  "RECENT_DONE = [RCompleted]"

definition run_headline :: "string option \<Rightarrow> string option \<Rightarrow> string" where
  "run_headline plan_goal step_nm =
     first_nonempty (map (\<lambda>c. py_strip (opt_or c [])) [plan_goal, step_nm])"

definition opt_else :: "'a option \<Rightarrow> 'a option \<Rightarrow> 'a option" where
  "opt_else a b = (case a of None \<Rightarrow> b | Some x \<Rightarrow> Some x)"

definition run_unit :: "instant \<Rightarrow> run_row \<Rightarrow> string \<Rightarrow> view_unit option" where
  "run_unit now row headline =
     (let run = rw_run row
      in case frame_for_row now ''muldro'' ''run'' (run_id run) RunKind
             (opt_or (map_of RUN_FRAME_STATUS (run_status run)) FRunning) headline
             (opt_else (run_started_at run) (rw_created_at row))
             (opt_else (run_completed_at run) (Some (rw_updated_at row))) 1 [] of
           None \<Rightarrow> None
         | Some f \<Rightarrow> Some \<lparr>vu_frame = f, vu_body = [], vu_quotes = []\<rparr>)"

text \<open>\<open>names.setdefault(step.run_id, step.name)\<close> over the named steps of the runs asked for.\<close>

definition first_step_names :: "bool \<Rightarrow> string list \<Rightarrow> task_step list \<Rightarrow> string \<Rightarrow> string option" where
  "first_step_names down run_ids steps rid =
     (if run_ids = [] \<or> down then None
      else case filter (\<lambda>s. step_run_id s = rid \<and> step_run_id s \<in> set run_ids \<and> step_name s \<noteq> None) steps of
             [] \<Rightarrow> None | s # _ \<Rightarrow> step_name s)"

definition shown_run :: "string \<Rightarrow> instant \<Rightarrow> run_row \<Rightarrow> bool" where
  "shown_run ws now row \<longleftrightarrow>
     run_workspace_id (rw_run row) = ws \<and> run_source (rw_run row) \<noteq> ''user_message'' \<and>
     (run_status (rw_run row) \<in> set ACTIVE_RUNS
      \<or> run_status (rw_run row) \<in> set RECENT_FAILED \<and> now - hours FAILED_RUN_WINDOW_HOURS \<le> rw_updated_at row
      \<or> run_status (rw_run row) \<in> set RECENT_DONE \<and> now - hours COMPLETED_RUN_WINDOW_HOURS \<le> rw_updated_at row)"

definition run_units :: "bool \<Rightarrow> bool \<Rightarrow> string \<Rightarrow> instant \<Rightarrow> run_row list \<Rightarrow> task_step list \<Rightarrow> view_unit list" where
  "run_units down steps_down ws now runs steps =
     (if down then []
      else let rows = take MAX_RUN_UNITS (sort_key (\<lambda>r. - rw_updated_at r) (filter (shown_run ws now) runs));
               needs_fallback = map (\<lambda>r. run_id (rw_run r)) (filter (\<lambda>r. py_strip (opt_or (rw_goal r) []) = []) rows);
               names = first_step_names steps_down needs_fallback steps
           in List.map_filter (\<lambda>r. run_unit now r (run_headline (rw_goal r) (names (run_id (rw_run r))))) rows)"

section \<open>Conclusions\<close>

definition INSIGHT_WINDOW_HOURS :: int where "INSIGHT_WINDOW_HOURS = 24"
definition MAX_INSIGHT_UNITS :: nat where "MAX_INSIGHT_UNITS = 10"

text \<open>\<open>s.partition(stop)\<close> for a separator of two characters, when it occurs.\<close>

fun before_stop :: "char \<Rightarrow> string \<Rightarrow> string option" where
  "before_stop c (a # b # s) = (if a = c \<and> b = CHR '' '' then Some [] else map_option (\<lambda>h. a # h) (before_stop c (b # s)))"
| "before_stop c _ = None"

definition insight_headline :: "string \<Rightarrow> string" where
  "insight_headline text =
     (let first = py_strip (hd (split_on (\<lambda>c. c = CHR 0x0A) (py_strip text)));
          cut = (\<lambda>c. case before_stop c first of
                   None \<Rightarrow> None | Some h \<Rightarrow> if 20 \<le> length h then Some (h @ [c]) else None)
      in case List.map_filter cut [CHR ''.'', CHR ''?'', CHR ''!''] of [] \<Rightarrow> first | h # _ \<Rightarrow> h)"

definition insight_unit :: "instant \<Rightarrow> memory_row \<Rightarrow> view_unit option" where
  "insight_unit now m =
     (let text = py_strip (mm_fact_text m)
      in if text = [] then None
         else case frame_for_row now ''muldro'' ''insight'' (mm_memory_id m) Finding FNew (insight_headline text)
                (Some (mm_created_at m)) None 1 [] of
             None \<Rightarrow> None
           | Some f \<Rightarrow> Some \<lparr>vu_frame = f, vu_body = text, vu_quotes = []\<rparr>)"

definition insight_units :: "bool \<Rightarrow> string \<Rightarrow> string \<Rightarrow> instant \<Rightarrow> memory_row list \<Rightarrow> view_unit list" where
  "insight_units down ws uid now memories =
     (if down then []
      else List.map_filter (insight_unit now)
        (take MAX_INSIGHT_UNITS (sort_key (\<lambda>m. - mm_created_at m)
          (filter (\<lambda>m. mm_workspace_id m = ws \<and> mm_user_id m = uid \<and> mm_memory_type m = ''briefing_item''
                     \<and> mm_status m = ''active'' \<and> now - hours INSIGHT_WINDOW_HOURS \<le> mm_created_at m) memories))))"

section \<open>Briefing, review queue, health\<close>

definition briefing_units :: "bool \<Rightarrow> string \<Rightarrow> string \<Rightarrow> instant \<Rightarrow> briefing_row list \<Rightarrow> view_unit list" where
  "briefing_units down ws uid now briefings =
     (if down then []
      else case sort_key (\<lambda>b. (- bf_date b, - bf_created_at b))
                  (filter (\<lambda>b. bf_workspace_id b = ws \<and> bf_user_id b = uid) briefings) of
             [] \<Rightarrow> []
           | b # _ \<Rightarrow>
               (case frame_for_row now ''muldro'' ''briefing'' (bf_briefing_id b) BriefingKind FNew
                       (opt_or (bf_headline b) []) (Some (bf_created_at b)) None 1 [] of
                  None \<Rightarrow> []
                | Some f \<Rightarrow> [\<lparr>vu_frame = f, vu_body = opt_or (bf_full_text b) [], vu_quotes = []\<rparr>]))"

definition PREPARED_QUEUE_LIMIT :: nat where "PREPARED_QUEUE_LIMIT = 25"

definition queued_approval :: "string \<Rightarrow> string \<Rightarrow> approval \<Rightarrow> bool" where
  "queued_approval ws uid ap \<longleftrightarrow>
     ap_workspace_id ap = ws \<and> ap_user_id ap = uid \<and> ap_status ap = ''pending'' \<and>
     jget (dict_or_empty (ap_artifact_refs ap)) ''chat'' \<notin> {JBool True, JStr ''true''}"

definition queue_headline :: "nat \<Rightarrow> string" where
  "queue_headline num =
     nat_text num @ (if PREPARED_QUEUE_LIMIT \<le> num then ''+'' else []) @ '' ''
     @ (if num = 1 then ''decision'' else ''decisions'') @ '' waiting for you''"

definition review_affordance :: affordance where
  "review_affordance = \<lparr>af_capability = ''internal.approve_action'', af_label = ''Review'', af_variant = ''primary''\<rparr>"

definition prepared_work_unit ::
  "bool \<Rightarrow> string \<Rightarrow> string \<Rightarrow> instant \<Rightarrow> (instant \<times> approval) list \<Rightarrow> view_unit option" where
  "prepared_work_unit down ws uid now approvals =
     (if down then None
      else case take PREPARED_QUEUE_LIMIT (sort_key (\<lambda>(t, _). - t) (filter (\<lambda>(_, ap). queued_approval ws uid ap) approvals)) of
             [] \<Rightarrow> None
           | r # rs \<Rightarrow>
               (let num = length (r # rs)
                in case frame_for_row now ''muldro'' ''prepared_work'' ws Proposal NeedsYou (queue_headline num)
                          (Some (fst r)) None (int num) [review_affordance] of
                     None \<Rightarrow> None
                   | Some f \<Rightarrow> Some \<lparr>vu_frame = f, vu_body = [], vu_quotes = []\<rparr>))"

definition health_headline :: "string list \<Rightarrow> string" where
  "health_headline sources =
     nat_text (length sources) @ '' data '' @ (if length sources = 1 then ''source'' else ''sources'')
     @ '' not responding: '' @ join_with '', '' sources"

definition connector_health_unit :: "bool \<Rightarrow> string \<Rightarrow> instant \<Rightarrow> perception_state list \<Rightarrow> view_unit option" where
  "connector_health_unit down ws now states =
     (if down then None
      else case take 10 (filter (\<lambda>s. ps_workspace_id s = ws \<and> ps_circuit_state s = POpen) states) of
             [] \<Rightarrow> None
           | rows \<Rightarrow>
               (let sources = sort (remdups (filter (\<lambda>s. s \<noteq> []) (map ps_source rows)))
                in case frame_for_row now ''muldro'' ''connector_health'' ws Record FFailed (health_headline sources)
                          None None (int (max 1 (length sources))) [] of
                     None \<Rightarrow> None
                   | Some f \<Rightarrow> Some \<lparr>vu_frame = f, vu_body = [], vu_quotes = []\<rparr>))"

section \<open>Lemmas\<close>

definition own_unit :: "view_unit \<Rightarrow> bool" where
  "own_unit u \<longleftrightarrow> frame_ok (vu_frame u) \<and> fm_source (vu_frame u) = ''muldro'' \<and> vu_quotes u = []
     \<and> (\<exists>et eid. fm_key (vu_frame u) = frame_key ''muldro'' et eid)"

lemma own_unitI:
  "frame_for_row now ''muldro'' et eid kind st h oc up n affs = Some f \<Longrightarrow>
     own_unit \<lparr>vu_frame = f, vu_body = b, vu_quotes = []\<rparr>"
  using frame_for_row_ok unfolding own_unit_def view_unit.select_convs by blast

lemma row_unit_own:
  assumes "(case frame_for_row now ''muldro'' et eid kind st h oc up n affs of
      None \<Rightarrow> None | Some f \<Rightarrow> Some \<lparr>vu_frame = f, vu_body = b, vu_quotes = []\<rparr>) = Some u"
  shows "own_unit u"
  using assms by (auto split: option.splits intro: own_unitI)

lemma run_unit_own: "run_unit now row h = Some u \<Longrightarrow> own_unit u"
  unfolding run_unit_def Let_def by (rule row_unit_own)

lemma insight_unit_own: "insight_unit now m = Some u \<Longrightarrow> own_unit u"
  unfolding insight_unit_def Let_def by (auto split: if_splits intro: row_unit_own)

lemma run_units_own: "u \<in> set (run_units d sd ws now runs steps) \<Longrightarrow> own_unit u"
  by (auto simp: run_units_def Let_def map_filter_mem dest: run_unit_own split: if_splits)

lemma insight_units_own: "u \<in> set (insight_units d ws uid now memories) \<Longrightarrow> own_unit u"
  by (auto simp: insight_units_def map_filter_mem dest: insight_unit_own split: if_splits)

lemma briefing_units_own: "u \<in> set (briefing_units d ws uid now briefings) \<Longrightarrow> own_unit u"
  unfolding briefing_units_def
  by (split if_splits list.splits option.splits)+
    (auto intro: own_unitI)

lemma prepared_work_unit_own: "prepared_work_unit d ws uid now approvals = Some u \<Longrightarrow> own_unit u"
  unfolding prepared_work_unit_def Let_def by (simp split: if_splits list.splits) (blast intro: row_unit_own)

lemma connector_health_unit_own: "connector_health_unit d ws now states = Some u \<Longrightarrow> own_unit u"
  unfolding connector_health_unit_def Let_def by (auto dest!: row_unit_own split: if_splits list.splits)

lemmas own_units = run_units_own insight_units_own briefing_units_own prepared_work_unit_own connector_health_unit_own

definition plain_chars :: string where
  "plain_chars = ''0123456789abcdefghijklmnopqrstuvwxyz+ ''"

lemma plain_chars_dead:
  "dead plain_chars MARKDOWN_IN_HEADLINE" "dead plain_chars STRIP_CONTROL" "dead plain_chars STRIP_LINK"
  "dead plain_chars STRIP_AUTOLINK"
  by code_simp+

lemma plain_of_plain_chars:
  assumes "set s \<subseteq> set plain_chars" "join_with '' '' (words_of s) = s"
  shows "plain s = s"
proof -
  have "\<not> search p s" if "dead plain_chars p" for p using dead_no_search[OF assms(1) that] .
  then have "subst_all STRIP_CONTROL f s = s" "subst_all STRIP_LINK f s = s" "subst_all STRIP_AUTOLINK f s = s"
    "\<not> search MARKDOWN_IN_HEADLINE s" for f
    using plain_chars_dead subst_all_no_match by blast+
  then show ?thesis using assms(2) by (simp add: plain_def Let_def NEUTRALIZE_PASSES_def numeral_eq_Suc)
qed

definition plain_headline :: "nat \<Rightarrow> bool" where
  "plain_headline n \<longleftrightarrow> list_all (\<lambda>c. c \<in> set plain_chars) (queue_headline n) \<and> length (queue_headline n) \<le> 40 \<and>
     join_with '' '' (words_of (queue_headline n)) = queue_headline n \<and> py_strip (queue_headline n) = queue_headline n"

lemma queue_headlines:
  "list_all plain_headline [1..<7]" "list_all plain_headline [7..<13]" "list_all plain_headline [13..<19]"
  "list_all plain_headline [19..<26]"
  by code_simp+

lemma queue_headline_ok:
  assumes "1 \<le> n" "n \<le> 25"
  shows "plain (queue_headline n) = queue_headline n" "headline_ok (clamp_headline (queue_headline n))"
proof -
  have "n \<in> set [1..<7] \<or> n \<in> set [7..<13] \<or> n \<in> set [13..<19] \<or> n \<in> set [19..<26]"
    unfolding set_upt atLeastLessThan_iff using assms by linarith
  then have "plain_headline n" using queue_headlines unfolding list_all_iff by blast
  then have h: "set (queue_headline n) \<subseteq> set plain_chars" "length (queue_headline n) \<le> 40"
    "join_with '' '' (words_of (queue_headline n)) = queue_headline n" "py_strip (queue_headline n) = queue_headline n"
    unfolding plain_headline_def list_all_iff by blast+
  show "plain (queue_headline n) = queue_headline n" by (rule plain_of_plain_chars[OF h(1,3)])
  have "\<not> search MARKDOWN_IN_HEADLINE (queue_headline n)" by (rule dead_no_search[OF h(1) plain_chars_dead(1)])
  moreover have "queue_headline n \<noteq> []" by (simp add: queue_headline_def)
  ultimately show "headline_ok (clamp_headline (queue_headline n))"
    using h(2,4) by (simp add: clamp_headline_def headline_ok_def MAX_HEADLINE_CHARS_def)
qed

lemma frame_for_row_some:
  assumes "plain h = h" "h \<noteq> []" "headline_ok (clamp_headline h)" "source \<noteq> []" "1 \<le> n"
  shows "\<exists>f. frame_for_row now source et eid kind st h oc up n affs = Some f \<and> fm_affordances f = affs"
proof -
  have "frame_key source et eid \<noteq> []" by (simp add: frame_key_def)
  then show ?thesis using assms by (simp add: frame_for_row_def Let_def make_frame_def frame_ok_def)
qed

lemma sort_key_empty: "sort_key f xs = [] \<longleftrightarrow> xs = []"
  using length_sort[of f xs] by (metis length_0_conv)

text \<open>The review queue is on the workspace exactly when a decision waits: unless its own read fails, the card exists
  whenever some pending approval is not answered in a conversation, it asks for the founder, and it carries the review
  affordance.\<close>

lemma waiting_decision_has_its_card:
  "(prepared_work_unit False ws uid now approvals \<noteq> None \<longleftrightarrow> (\<exists>(t, ap)\<in>set approvals. queued_approval ws uid ap)) \<and>
   (\<forall>u. prepared_work_unit False ws uid now approvals = Some u \<longrightarrow>
      own_unit u \<and> fm_key (vu_frame u) = frame_key ''muldro'' ''prepared_work'' ws \<and>
      fm_status (vu_frame u) = NeedsYou \<and> fm_affordances (vu_frame u) = [review_affordance])"
proof -
  let ?rows = "take PREPARED_QUEUE_LIMIT (sort_key (\<lambda>(t, _). - t) (filter (\<lambda>(_, ap). queued_approval ws uid ap) approvals))"
  have len: "length ?rows \<le> 25" by (simp add: PREPARED_QUEUE_LIMIT_def)
  have empty: "?rows = [] \<longleftrightarrow> \<not> (\<exists>(t, ap)\<in>set approvals. queued_approval ws uid ap)"
    unfolding take_eq_Nil sort_key_empty by (auto simp: PREPARED_QUEUE_LIMIT_def filter_empty_conv)
  have unit: "\<exists>u. prepared_work_unit False ws uid now approvals = Some u \<and>
      own_unit u \<and> fm_key (vu_frame u) = frame_key ''muldro'' ''prepared_work'' ws \<and>
      fm_status (vu_frame u) = NeedsYou \<and> fm_affordances (vu_frame u) = [review_affordance]"
    if r: "?rows = r # rs" for r rs
  proof -
    let ?n = "length (r # rs)"
    have n: "1 \<le> ?n" "?n \<le> 25" using len unfolding r by simp_all
    have q: "queue_headline ?n \<noteq> []" by (simp add: queue_headline_def)
    have "\<exists>f. frame_for_row now ''muldro'' ''prepared_work'' ws Proposal NeedsYou (queue_headline ?n)
        (Some (fst r)) None (int ?n) [review_affordance] = Some f \<and> fm_affordances f = [review_affordance]"
      by (rule frame_for_row_some[OF queue_headline_ok(1)[OF n] q queue_headline_ok(2)[OF n]]) (use n(1) in simp_all)
    then obtain f where f: "frame_for_row now ''muldro'' ''prepared_work'' ws Proposal NeedsYou (queue_headline ?n)
        (Some (fst r)) None (int ?n) [review_affordance] = Some f" "fm_affordances f = [review_affordance]" by blast
    then have "prepared_work_unit False ws uid now approvals = Some \<lparr>vu_frame = f, vu_body = [], vu_quotes = []\<rparr>"
      by (simp add: prepared_work_unit_def r Let_def del: length_Cons)
    then show ?thesis using frame_for_row_ok[OF f(1)] own_unitI[OF f(1)] f(2) by simp
  qed
  show ?thesis
  proof (cases ?rows)
    case Nil
    then have "prepared_work_unit False ws uid now approvals = None" unfolding prepared_work_unit_def Nil by simp
    then show ?thesis using empty Nil by simp
  next
    case (Cons r rs)
    then show ?thesis using unit[OF Cons] empty by auto
  qed
qed

end
