(* ===== verification/Deadline.thy ===== *)
theory Deadline
  imports Text_Patterns
begin

text \<open>
  Deadline extraction: \<open>view/ranking/deadline.py\<close>. A date is its proleptic Gregorian ordinal, as
  \<open>date.toordinal\<close> gives it. \<open>dateutil\<close> is not part of the program: what its parser makes of a month name,
  a day and a year, and what \<open>relativedelta\<close> makes of adding months, are parameters that may fail. The patterns
  are the module's own, as data for the matcher of Text_Patterns.
\<close>

section \<open>The calendar\<close>

definition MAXORDINAL :: int where "MAXORDINAL = 3652059"

definition is_leap :: "int \<Rightarrow> bool" where
  "is_leap y \<longleftrightarrow> y mod 4 = 0 \<and> (y mod 100 \<noteq> 0 \<or> y mod 400 = 0)"

definition days_before_year :: "int \<Rightarrow> int" where
  "days_before_year y = (let p = y - 1 in p * 365 + p div 4 - p div 100 + p div 400)"

definition days_in_month :: "int \<Rightarrow> int \<Rightarrow> int" where
  "days_in_month y m =
     (if m = 2 then if is_leap y then 29 else 28 else if m \<in> {4, 6, 9, 11} then 30 else 31)"

definition days_before_month :: "int \<Rightarrow> int \<Rightarrow> int" where
  "days_before_month y m = sum_list (map (days_in_month y) [1..m - 1])"

text \<open>\<open>date(y, m, d).toordinal()\<close>, nothing where the constructor raises.\<close>

definition date_ordinal :: "int \<Rightarrow> int \<Rightarrow> int \<Rightarrow> int option" where
  "date_ordinal y m d =
     (if 1 \<le> y \<and> y \<le> 9999 \<and> 1 \<le> m \<and> m \<le> 12 \<and> 1 \<le> d \<and> d \<le> days_in_month y m
      then Some (days_before_year y + days_before_month y m + d) else None)"

text \<open>\<open>date.fromordinal(n).year\<close>.\<close>

definition year_of_ordinal :: "int \<Rightarrow> int" where
  "year_of_ordinal ordinal =
     (let n = ordinal - 1; n400 = n div 146097; n = n mod 146097; n100 = n div 36524; n = n mod 36524;
          n4 = n div 1461; n = n mod 1461; n1 = n div 365;
          year = n400 * 400 + 1 + n100 * 100 + n4 * 4 + n1
      in if n1 = 4 \<or> n100 = 4 then year - 1 else year)"

definition weekday :: "int \<Rightarrow> int" where
  "weekday ordinal = (ordinal + 6) mod 7"

text \<open>\<open>date + timedelta(days=n)\<close>.\<close>

definition add_days :: "int \<Rightarrow> int \<Rightarrow> int option" where
  "add_days d n = (if 1 \<le> d + n \<and> d + n \<le> MAXORDINAL then Some (d + n) else None)"

section \<open>Constants and patterns\<close>

definition HORIZON_DAYS :: int where "HORIZON_DAYS = 365"
definition MAX_SCAN_CHARS :: nat where "MAX_SCAN_CHARS = 20000"

definition MONTH_WORDS :: "string list" where
  "MONTH_WORDS = [''september'', ''february'', ''november'', ''december'', ''january'', ''october'', ''august'',
     ''march'', ''april'', ''june'', ''july'', ''sept'', ''may'', ''jan'', ''feb'', ''mar'', ''apr'', ''jun'',
     ''jul'', ''aug'', ''sep'', ''oct'', ''nov'', ''dec'']"

definition WEEKDAY_INDEX :: "(string \<times> int) list" where
  "WEEKDAY_INDEX = [(''monday'', 0), (''tuesday'', 1), (''wednesday'', 2), (''thursday'', 3), (''friday'', 4),
     (''saturday'', 5), (''sunday'', 6)]"

definition digits :: "nat \<Rightarrow> nat \<Rightarrow> pattern" where
  "digits m n = Rep m n (Sat is_digit_char)"

definition gap :: pattern where
  "gap = Rep 1 3 (Sat is_white)"

definition month_alt :: pattern where
  "month_alt = alts MONTH_WORDS"

definition ordinal_suffix :: pattern where
  "ordinal_suffix = opt_pat (alts [''st'', ''nd'', ''rd'', ''th''])"

definition year_tail :: pattern where
  "year_tail = opt_pat (seqs [opt_pat (lits '',''), gap, Grp 3 (digits 4 4)])"

definition ISO_DATE :: pattern where
  "ISO_DATE = seqs [Bound, Grp 1 (digits 4 4), lits ''-'', Grp 2 (digits 1 2), lits ''-'', Grp 3 (digits 1 2), Bound]"

definition SLASH_DATE :: pattern where
  "SLASH_DATE = seqs [Bound, Grp 1 (digits 1 2), lits ''/'', Grp 2 (digits 1 2), lits ''/'', Grp 3 (digits 4 4), Bound]"

definition MONTH_FIRST :: pattern where
  "MONTH_FIRST = seqs [Bound, Grp 1 month_alt, opt_pat (lits ''.''), gap, Grp 2 (digits 1 2), ordinal_suffix, year_tail, Bound]"

definition DAY_FIRST :: pattern where
  "DAY_FIRST = seqs [Bound, Grp 1 (digits 1 2), ordinal_suffix, gap, opt_pat (seqs [lits ''of'', gap]), Grp 2 month_alt,
     opt_pat (lits ''.''), year_tail, Bound]"

definition TODAY :: pattern where "TODAY = seqs [Bound, lits ''today'', Bound]"
definition TOMORROW :: pattern where "TOMORROW = seqs [Bound, lits ''tomorrow'', Bound]"

definition END_OF_DAY :: pattern where
  "END_OF_DAY = seqs [Bound, Alt (lits ''eod'') (Alt (lits ''cob'')
     (Alt (seqs [lits ''end'', gap, lits ''of'', gap, lits ''day'']) (seqs [lits ''close'', gap, lits ''of'', gap, lits ''business'']))), Bound]"

definition WEEKDAY :: pattern where
  "WEEKDAY = seqs [Bound, opt_pat (seqs [Grp 1 (lits ''next''), gap]), Grp 2 (alts (map fst WEEKDAY_INDEX)), Bound]"

definition IN_N :: pattern where
  "IN_N = seqs [Bound, lits ''in'', gap, Grp 1 (digits 1 3), gap,
     Grp 2 (alts [''days'', ''day'', ''weeks'', ''week'', ''months'', ''month'']), Bound]"

definition NEXT_PERIOD :: pattern where
  "NEXT_PERIOD = seqs [Bound, lits ''next'', gap, Grp 1 (alts [''week'', ''month'']), Bound]"

section \<open>Converters\<close>

record date_lib =
  dl_parse :: "string \<Rightarrow> string \<Rightarrow> int \<Rightarrow> int option"
  dl_add_months :: "int \<Rightarrow> int \<Rightarrow> int option"

definition int_of_digits :: "string \<Rightarrow> int" where
  "int_of_digits s = fold (\<lambda>c n. 10 * n + (int (code c) - 48)) s 0"

definition grp :: "capture \<Rightarrow> nat \<Rightarrow> string" where
  "grp cs g = opt_or (group cs g) []"

definition from_month_name :: "date_lib \<Rightarrow> string \<Rightarrow> string \<Rightarrow> string option \<Rightarrow> int \<Rightarrow> int option" where
  "from_month_name lib month day year today =
     (case year of
        Some y \<Rightarrow> if int_of_digits y = 0 then None else dl_parse lib month day (int_of_digits y)
      | None \<Rightarrow>
          (let this = year_of_ordinal today;
               parse = (\<lambda>y. if y > 9999 then None else dl_parse lib month day y);
               try = (\<lambda>y. case parse y of None \<Rightarrow> None | Some d \<Rightarrow> if today \<le> d then Some d else None)
           in case try this of Some d \<Rightarrow> Some d | None \<Rightarrow> try (this + 1)))"

definition iso :: "capture \<Rightarrow> int \<Rightarrow> int option" where
  "iso m today = date_ordinal (int_of_digits (grp m 1)) (int_of_digits (grp m 2)) (int_of_digits (grp m 3))"

definition slash :: "capture \<Rightarrow> int \<Rightarrow> int option" where
  "slash m today =
     (let first = int_of_digits (grp m 1); second = int_of_digits (grp m 2); year = int_of_digits (grp m 3);
          (month, day) = (if first > 12 \<and> 12 \<ge> second then (second, first) else (first, second))
      in date_ordinal year month day)"

definition month_first :: "date_lib \<Rightarrow> capture \<Rightarrow> int \<Rightarrow> int option" where
  "month_first lib m today = from_month_name lib (grp m 1) (grp m 2) (group m 3) today"

definition day_first :: "date_lib \<Rightarrow> capture \<Rightarrow> int \<Rightarrow> int option" where
  "day_first lib m today = from_month_name lib (grp m 2) (grp m 1) (group m 3) today"

definition days_ahead :: "int \<Rightarrow> bool \<Rightarrow> int \<Rightarrow> int" where
  "days_ahead index is_next today =
     (let n = (index - weekday today) mod 7 in if is_next \<and> n = 0 then 7 else n)"

definition weekday_match :: "capture \<Rightarrow> int \<Rightarrow> int option" where
  "weekday_match m today =
     (case map_of WEEKDAY_INDEX (grp m 2) of
        None \<Rightarrow> None
      | Some index \<Rightarrow> add_days today (days_ahead index (group m 1 \<noteq> None) today))"

definition starts :: "string \<Rightarrow> string \<Rightarrow> bool" where
  "starts p s \<longleftrightarrow> take (length p) s = p"

definition in_n :: "date_lib \<Rightarrow> capture \<Rightarrow> int \<Rightarrow> int option" where
  "in_n lib m today =
     (let amount = int_of_digits (grp m 1); unit = grp m 2
      in if starts ''day'' unit then add_days today amount
         else if starts ''week'' unit then add_days today (7 * amount)
         else dl_add_months lib today amount)"

definition next_period :: "date_lib \<Rightarrow> capture \<Rightarrow> int \<Rightarrow> int option" where
  "next_period lib m today =
     (if grp m 1 = ''week'' then add_days today 7 else dl_add_months lib today 1)"

definition MATCHERS :: "date_lib \<Rightarrow> (pattern \<times> (capture \<Rightarrow> int \<Rightarrow> int option)) list" where
  "MATCHERS lib =
     [(ISO_DATE, iso), (SLASH_DATE, slash), (MONTH_FIRST, month_first lib), (DAY_FIRST, day_first lib),
      (WEEKDAY, weekday_match), (IN_N, in_n lib), (NEXT_PERIOD, next_period lib)]"

section \<open>Extraction\<close>

definition candidates :: "date_lib \<Rightarrow> string \<Rightarrow> int \<Rightarrow> int list" where
  "candidates lib text today =
     (if search TODAY text then [today] else []) @ (if search TOMORROW text then [today + 1] else []) @
     concat (map (\<lambda>(pattern, convert). List.map_filter (\<lambda>m. convert m today) (finditer pattern text)) (MATCHERS lib))"

definition earlier :: "int \<Rightarrow> int \<Rightarrow> int \<Rightarrow> int option \<Rightarrow> int option" where
  "earlier today horizon candidate earliest =
     (if candidate < today \<or> candidate > horizon then earliest
      else case earliest of None \<Rightarrow> Some candidate | Some e \<Rightarrow> if candidate < e then Some candidate else earliest)"

text \<open>The horizon of a date less than a year from the end of the calendar raises, and the caller reads None.\<close>

definition extract_deadline :: "date_lib \<Rightarrow> string \<Rightarrow> int \<Rightarrow> int option" where
  "extract_deadline lib text today =
     (if text = [] then None
      else let window = py_lower (take MAX_SCAN_CHARS text)
           in case add_days today HORIZON_DAYS of
                None \<Rightarrow> None
              | Some horizon \<Rightarrow>
                  (case fold (earlier today horizon) (candidates lib window today) None of
                     None \<Rightarrow> if search END_OF_DAY window then Some today else None
                   | Some d \<Rightarrow> Some d))"

section \<open>Properties\<close>

lemma Min_insert_min:
  fixes c x :: int
  assumes "finite D" shows "Min (insert (min c x) D) = Min (insert c (insert x D))"
  using assms by (cases "D = {}") (simp_all add: min.assoc)

lemma fold_earlier:
  "fold (earlier today horizon) cs e =
     (let C = {c \<in> set cs. today \<le> c \<and> c \<le> horizon} \<union> set_option e
      in if C = {} then None else Some (Min C))"
proof (induction cs arbitrary: e)
  case Nil
  then show ?case by (cases e) simp_all
next
  case (Cons c cs)
  let ?in = "today \<le> c \<and> c \<le> horizon"
  have fin: "finite ({c \<in> set cs. today \<le> c \<and> c \<le> horizon} \<union> set_option e)" for e :: "int option"
    by (cases e) simp_all
  show ?case
  proof (cases ?in)
    case False
    then have "{x \<in> set (c # cs). today \<le> x \<and> x \<le> horizon} = {x \<in> set cs. today \<le> x \<and> x \<le> horizon}" by auto
    moreover have "earlier today horizon c e = e" using False by (auto simp: earlier_def)
    ultimately show ?thesis using Cons.IH[of e] by simp
  next
    case True
    let ?D = "{x \<in> set cs. today \<le> x \<and> x \<le> horizon}"
    have s: "{x \<in> set (c # cs). today \<le> x \<and> x \<le> horizon} = insert c ?D" using True by auto
    obtain k where k: "earlier today horizon c e = Some k" "k = (case e of None \<Rightarrow> c | Some x \<Rightarrow> min c x)"
      using True by (cases e) (auto simp: earlier_def min_def)
    have "Min (?D \<union> {k}) = Min (insert c ?D \<union> set_option e)"
    proof (cases e)
      case (Some x)
      have "Min (insert (min c x) ?D) = Min (insert c (insert x ?D))"
        by (rule Min_insert_min) simp
      then show ?thesis using k(2) Some by (simp add: insert_commute)
    qed (use k(2) in simp)
    then show ?thesis using Cons.IH[of "Some k"] k(1) s by (simp add: Let_def)
  qed
qed

text \<open>C36. The deadline is the earliest plausible date the text names: among all the dates its first 20000 characters name, the
  least one from today to a year from today; the end of the day only when there is none; nothing else.\<close>

theorem deadline_is_earliest_plausible:
  assumes "1 \<le> today" "today + HORIZON_DAYS \<le> MAXORDINAL"
  shows "extract_deadline lib text today =
    (let window = py_lower (take MAX_SCAN_CHARS text);
         C = {c \<in> set (candidates lib window today). today \<le> c \<and> c \<le> today + HORIZON_DAYS}
     in if C \<noteq> {} then Some (Min C) else if search END_OF_DAY window then Some today else None)"
proof (cases "text = []")
  case True
  have m: "match_states [] p (0, []) = []" if "p = seqs (Bound # ps)" for p ps
    using that by (simp add: word_before_def word_char_at_def)
  have n: "find_from (seqs (Bound # ps)) [] 0 = []" for ps
    using m by (simp add: find_from.simps match_at_def)
  have s: "\<not> search (seqs (Bound # ps)) []" "finditer (seqs (Bound # ps)) [] = []" for ps
    by (simp_all only: search_def finditer_def n list.map not_not refl)
  have "candidates lib [] today = []"
    by (simp add: candidates_def MATCHERS_def TODAY_def TOMORROW_def ISO_DATE_def SLASH_DATE_def MONTH_FIRST_def
        DAY_FIRST_def WEEKDAY_def IN_N_def NEXT_PERIOD_def s map_filter_simps del: seqs.simps)
  then show ?thesis using True by (simp add: extract_deadline_def py_lower_def END_OF_DAY_def s Let_def del: seqs.simps)
next
  case False
  have "add_days today HORIZON_DAYS = Some (today + HORIZON_DAYS)"
    using assms by (simp add: add_days_def HORIZON_DAYS_def)
  moreover define C where "C = {c \<in> set (candidates lib (py_lower (take MAX_SCAN_CHARS text)) today).
      today \<le> c \<and> c \<le> today + HORIZON_DAYS}"
  ultimately have "extract_deadline lib text today =
      (case if C = {} then None else Some (Min C) of
         None \<Rightarrow> if search END_OF_DAY (py_lower (take MAX_SCAN_CHARS text)) then Some today else None
       | Some d \<Rightarrow> Some d)"
    using False by (simp only: extract_deadline_def Let_def fold_earlier option.case if_False option.set Un_empty_right)
  then show ?thesis unfolding Let_def C_def[symmetric] by (cases "C = {}") simp_all
qed

definition sample_date_lib :: date_lib where
  "sample_date_lib = \<lparr>dl_parse = (\<lambda>m d y. None), dl_add_months = (\<lambda>d n. Some (d + 30 * n))\<rparr>"

lemma sample_deadline: "extract_deadline sample_date_lib ''by tomorrow'' 739000 = Some 739001"
  by code_simp

theorem deadline_is_earliest_plausible_witness:
  "\<exists>C. C = {c \<in> set (candidates sample_date_lib (py_lower (take MAX_SCAN_CHARS ''by tomorrow'')) 739000). 739000 \<le> c \<and> c \<le> 739365} \<and>
     (if C \<noteq> {} then Some (Min C) else if search END_OF_DAY (py_lower (take MAX_SCAN_CHARS ''by tomorrow'')) then Some 739000 else None)
       = Some (739001 :: int)"
  using deadline_is_earliest_plausible[of 739000 sample_date_lib "''by tomorrow''"] sample_deadline
  by (simp add: Let_def HORIZON_DAYS_def MAXORDINAL_def)

lemma deadline_bounds:
  assumes "extract_deadline lib text today = Some d"
  shows "today \<le> d \<and> d \<le> today + HORIZON_DAYS"
proof -
  let ?w = "py_lower (take MAX_SCAN_CHARS text)"
  let ?C = "{c \<in> set (candidates lib ?w today). today \<le> c \<and> c \<le> today + HORIZON_DAYS}"
  have h: "add_days today HORIZON_DAYS = Some (today + HORIZON_DAYS)"
    using assms by (auto simp: extract_deadline_def add_days_def Let_def split: if_splits option.splits)
  have "?C \<noteq> {} \<and> d = Min ?C \<or> d = today"
    using assms h by (auto simp: extract_deadline_def Let_def fold_earlier split: if_splits)
  then show ?thesis
  proof
    assume "?C \<noteq> {} \<and> d = Min ?C"
    then have "d \<in> ?C" using Min_in[of ?C] by simp
    then show ?thesis by simp
  qed (simp add: HORIZON_DAYS_def)
qed

text \<open>A weekday names its next occurrence: within the week, today included for a bare name and excluded for \<open>next\<close>.\<close>

lemma weekday_is_next_occurrence:
  assumes "0 \<le> index" "index < 7"
  shows "weekday (today + days_ahead index is_next today) = index \<and>
    (if is_next then 1 else 0) \<le> days_ahead index is_next today \<and>
    days_ahead index is_next today \<le> (if is_next then 7 else 6)"
proof -
  let ?n = "(index - weekday today) mod 7"
  have n: "0 \<le> ?n" "?n < 7" by simp_all
  have "(today + ?n + 6) mod 7 = (?n + (today + 6)) mod 7" by (simp add: ac_simps)
  also have "\<dots> = (index - weekday today + (today + 6)) mod 7" by (rule mod_add_left_eq)
  also have "\<dots> = (index - weekday today + (today + 6) mod 7) mod 7" by (rule mod_add_right_eq[symmetric])
  also have "\<dots> = index mod 7" by (simp add: weekday_def)
  finally have w: "weekday (today + ?n) = index" using assms by (simp add: weekday_def)
  moreover have "weekday (today + 7) = weekday today" unfolding weekday_def by presburger
  moreover have "?n = 0 \<longrightarrow> weekday today = index" using w by auto
  ultimately show ?thesis using n by (auto simp: days_ahead_def Let_def)
qed

end
