(* ===== verification/Triage.thy ===== *)
theory Triage
  imports Mail_Filters
begin

text \<open>
  Triage of incoming events and their ingestion: \<open>services/triage.py\<close> and the batch path of
  \<open>services/event_processor.py\<close> with the gate of \<open>orchestrator/perception_triage_gate.py\<close>. The rules pass
  decides what it can; the rest goes to one model call, whose answer is a parameter of the model
  (\<open>te_complete\<close>: what \<open>complete_text_with_usage\<close> and \<open>parse_llm_json\<close> give, or an exception), as are the
  text of a non-string JSON value, \<open>float\<close> of a string, the clock and the rendering of an instant. Metrics,
  embeddings and the event bus are I/O and left out.
\<close>

section \<open>Categories and tiers\<close>

datatype tier = SkipTier | LightTier | FullTier

fun tier_text :: "tier \<Rightarrow> string" where
  "tier_text SkipTier = ''skip''"
| "tier_text LightTier = ''light''"
| "tier_text FullTier = ''full''"

datatype origin = RulesOrigin | LlmOrigin | DefaultOrigin

fun origin_text :: "origin \<Rightarrow> string" where
  "origin_text RulesOrigin = ''rules''"
| "origin_text LlmOrigin = ''llm''"
| "origin_text DefaultOrigin = ''default''"

definition FILTERED_CATEGORY :: string where "FILTERED_CATEGORY = ''filtered''"
definition DEFAULT_CATEGORY :: string where "DEFAULT_CATEGORY = ''personal''"
definition ACTIONABLE_URGENCY_THRESHOLD :: pyfloat where "ACTIONABLE_URGENCY_THRESHOLD = 4/10"

definition CATEGORY_TIER :: "(string \<times> tier) list" where
  "CATEGORY_TIER =
     [(FILTERED_CATEGORY, SkipTier), (''marketing'', SkipTier), (''newsletter'', SkipTier),
      (''social_notification'', SkipTier), (''delivery_ping'', SkipTier), (''otp'', SkipTier),
      (''financial'', LightTier), (''transactional'', LightTier), (''personal'', FullTier),
      (''work_thread'', FullTier), (''security_alert'', FullTier), (''calendar_invite'', FullTier),
      (''direct_request'', FullTier)]"

definition ACTIONABLE_CATEGORIES :: "string list" where
  "ACTIONABLE_CATEGORIES = [''security_alert'', ''calendar_invite'', ''direct_request'', ''work_thread'']"

definition derive_tier :: "string \<Rightarrow> tier" where
  "derive_tier category = opt_or (map_of CATEGORY_TIER category) FullTier"

definition is_actionable :: "string \<Rightarrow> pyfloat \<Rightarrow> bool" where
  "is_actionable category urgency \<longleftrightarrow> category \<in> set ACTIONABLE_CATEGORIES \<and> ACTIONABLE_URGENCY_THRESHOLD \<le> urgency"

section \<open>Rules\<close>

text \<open>\<open>x or {}\<close> followed by a dictionary method: a truthy value that is no dictionary raises.\<close>

fun as_dict_or_empty :: "json \<Rightarrow> py_exn + jdict" where
  "as_dict_or_empty (JObj d) = Inr d"
| "as_dict_or_empty v = (if truthy v then Inl AttributeErr else Inr [])"

text \<open>The headers with lower-case names. The value read is only compared with three words, which the text of a
  value that is not a string never is.\<close>

definition lower_headers :: "jdict \<Rightarrow> (string \<times> string) list" where
  "lower_headers hs = fold (\<lambda>(k, v) d. AList.update (py_lower k) (jstr v) d) hs []"

definition classify_by_rules :: "event \<Rightarrow> py_exn + string option" where
  "classify_by_rules raw =
     (case as_dict_or_empty (ne_raw_payload raw) of
        Inl e \<Rightarrow> Inl e
      | Inr payload \<Rightarrow>
          (case as_dict_or_empty (jget payload ''headers'') of
             Inl e \<Rightarrow> Inl e
           | Inr hs \<Rightarrow>
               (let headers = lower_headers hs
                in if ''list-unsubscribe'' \<in> fst ` set headers \<or> ''list-id'' \<in> fst ` set headers
                   then Inr (Some ''marketing'')
                   else if py_lower (opt_or (map_of headers ''precedence'') []) \<in> {''bulk'', ''list'', ''junk''}
                   then Inr (Some ''marketing'')
                   else Inr None)))"

section \<open>Results\<close>

record triage_result =
  tr_category :: string
  tr_tier :: tier
  tr_actionable :: bool
  tr_importance_score :: pyfloat
  tr_urgency_score :: pyfloat
  tr_confidence_score :: pyfloat
  tr_origin :: origin
  tr_filtered_by :: "string option"

definition to_signals :: "triage_result \<Rightarrow> jdict" where
  "to_signals r =
     [(''category'', JStr (tr_category r)), (''tier'', JStr (tier_text (tr_tier r))),
      (''actionable'', JBool (tr_actionable r)), (''triage_origin'', JStr (origin_text (tr_origin r)))]
     @ (case tr_filtered_by r of None \<Rightarrow> [] | Some rid \<Rightarrow> if rid = [] then [] else [(''filtered_by'', JStr rid)])"

definition rules_result :: "string \<Rightarrow> string option \<Rightarrow> triage_result" where
  "rules_result cat rule_id =
     \<lparr>tr_category = cat, tr_tier = derive_tier cat, tr_actionable = False, tr_importance_score = 5/100,
      tr_urgency_score = 5/100, tr_confidence_score = 9/10, tr_origin = RulesOrigin, tr_filtered_by = rule_id\<rparr>"

definition default_result :: triage_result where
  "default_result =
     \<lparr>tr_category = DEFAULT_CATEGORY, tr_tier = derive_tier DEFAULT_CATEGORY, tr_actionable = False,
      tr_importance_score = 1/2, tr_urgency_score = 3/10, tr_confidence_score = 3/10, tr_origin = DefaultOrigin,
      tr_filtered_by = None\<rparr>"

record triage_env =
  te_parseaddr :: "string \<Rightarrow> string"
  te_complete :: "event list \<Rightarrow> py_exn + json"
  te_json_text :: "json \<Rightarrow> string"
  te_parse_float :: "string \<Rightarrow> pyfloat option"

text \<open>\<open>float(v)\<close>.\<close>

fun py_float :: "triage_env \<Rightarrow> json \<Rightarrow> py_exn + pyfloat" where
  "py_float env (JNum n) = Inr n"
| "py_float env (JBool b) = Inr (if b then 1 else 0)"
| "py_float env (JStr s) = (case te_parse_float env s of None \<Rightarrow> Inl ValueErr | Some x \<Rightarrow> Inr x)"
| "py_float env _ = Inl TypeErr"

text \<open>\<open>float(obj.get(k, d) or d)\<close>.\<close>

definition score_field :: "triage_env \<Rightarrow> jdict \<Rightarrow> string \<Rightarrow> pyfloat \<Rightarrow> py_exn + pyfloat" where
  "score_field env d k dflt = py_float env (jor (jget_default d k (JNum dflt)) (JNum dflt))"

fun py_str :: "triage_env \<Rightarrow> json \<Rightarrow> string" where
  "py_str env (JStr s) = s"
| "py_str env v = te_json_text env v"

fun from_llm_obj :: "triage_env \<Rightarrow> json \<Rightarrow> py_exn + triage_result" where
  "from_llm_obj env (JObj d) =
     (let category = py_str env (jor (jget d ''category'') (JStr DEFAULT_CATEGORY))
      in case score_field env d ''urgency_score'' (3/10) of
           Inl e \<Rightarrow> Inl e
         | Inr urgency \<Rightarrow>
             (case score_field env d ''importance_score'' (1/2) of
                Inl e \<Rightarrow> Inl e
              | Inr importance \<Rightarrow>
                  (case score_field env d ''confidence_score'' (3/10) of
                     Inl e \<Rightarrow> Inl e
                   | Inr confidence \<Rightarrow>
                       Inr \<lparr>tr_category = category, tr_tier = derive_tier category,
                            tr_actionable = is_actionable category urgency, tr_importance_score = importance,
                            tr_urgency_score = urgency, tr_confidence_score = confidence, tr_origin = LlmOrigin,
                            tr_filtered_by = None\<rparr>)))"
| "from_llm_obj env _ = Inl AttributeErr"

fun all_from_llm :: "triage_env \<Rightarrow> json list \<Rightarrow> py_exn + triage_result list" where
  "all_from_llm env [] = Inr []"
| "all_from_llm env (j # js) =
     (case from_llm_obj env j of
        Inl e \<Rightarrow> Inl e
      | Inr r \<Rightarrow> (case all_from_llm env js of Inl e \<Rightarrow> Inl e | Inr rs \<Rightarrow> Inr (r # rs)))"

text \<open>The array a model may have wrapped under a key.\<close>

fun unwrap_answer :: "json \<Rightarrow> json" where
  "unwrap_answer (JObj d) = jor (jor (jget d ''events'') (jget d ''results'')) (JList [])"
| "unwrap_answer v = v"

text \<open>Building the prompt reads the sender of each event, outside the \<open>try\<close>.\<close>

fun prompt_error :: "event list \<Rightarrow> py_exn option" where
  "prompt_error [] = None"
| "prompt_error (e # es) =
     (case as_dict_or_empty (ne_actor e) of Inl x \<Rightarrow> Some x | Inr _ \<Rightarrow> prompt_error es)"

definition classify_llm :: "triage_env \<Rightarrow> event list \<Rightarrow> py_exn + triage_result list" where
  "classify_llm env events =
     (case prompt_error events of
        Some x \<Rightarrow> Inl x
      | None \<Rightarrow>
          Inr (case te_complete env events of
                 Inl _ \<Rightarrow> map (\<lambda>_. default_result) events
               | Inr parsed \<Rightarrow>
                   (case unwrap_answer parsed of
                      JList answers \<Rightarrow>
                        if length answers = length events then
                          (case all_from_llm env answers of
                             Inl _ \<Rightarrow> map (\<lambda>_. default_result) events
                           | Inr rs \<Rightarrow> rs)
                        else map (\<lambda>_. default_result) events
                    | _ \<Rightarrow> map (\<lambda>_. default_result) events)))"

section \<open>A batch\<close>

definition classify_one :: "triage_env \<Rightarrow> sender_rules \<Rightarrow> event \<Rightarrow> py_exn + triage_result option" where
  "classify_one env sender_rules raw =
     (let rule_id = matching_rule_id (te_parseaddr env) raw sender_rules
      in case (if rule_id \<noteq> None \<and> rule_id \<noteq> Some [] then Inr (Some FILTERED_CATEGORY) else classify_by_rules raw) of
           Inl e \<Rightarrow> Inl e
         | Inr None \<Rightarrow> Inr None
         | Inr (Some cat) \<Rightarrow> Inr (Some (rules_result cat rule_id)))"

fun rules_pass :: "triage_env \<Rightarrow> sender_rules \<Rightarrow> event list \<Rightarrow> py_exn + triage_result option list" where
  "rules_pass env sr [] = Inr []"
| "rules_pass env sr (e # es) =
     (case classify_one env sr e of
        Inl x \<Rightarrow> Inl x
      | Inr r \<Rightarrow> (case rules_pass env sr es of Inl x \<Rightarrow> Inl x | Inr rs \<Rightarrow> Inr (r # rs)))"

definition remainder_of :: "event list \<Rightarrow> triage_result option list \<Rightarrow> event list" where
  "remainder_of events results = map fst (filter (\<lambda>(e, r). r = None) (zip events results))"

fun fill_in :: "triage_result option list \<Rightarrow> triage_result list \<Rightarrow> triage_result list" where
  "fill_in [] others = []"
| "fill_in (Some r # rs) others = r # fill_in rs others"
| "fill_in (None # rs) [] = default_result # fill_in rs []"
| "fill_in (None # rs) (m # others) = m # fill_in rs others"

definition triage_batch ::
  "triage_env \<Rightarrow> filter_rule list option \<Rightarrow> bool \<Rightarrow> string \<Rightarrow> event list \<Rightarrow> py_exn + triage_result list" where
  "triage_batch env db down ws events =
     (let sender_rules = (case db of None \<Rightarrow> [] | Some rules \<Rightarrow> if ws = [] then [] else load_sender_rules down ws rules)
      in case rules_pass env sender_rules events of
           Inl x \<Rightarrow> Inl x
         | Inr results \<Rightarrow>
             (let remainder = remainder_of events results
              in if remainder = [] then Inr (fill_in results [])
                 else case classify_llm env remainder of
                     Inl x \<Rightarrow> Inl x
                   | Inr others \<Rightarrow> Inr (fill_in results others)))"

section \<open>Ingestion\<close>

record ingest_env =
  ie_triage :: triage_env
  ie_isoformat :: "instant \<Rightarrow> string"
  ie_now :: instant
  ie_new_id :: "nat \<Rightarrow> string"
  ie_json_text :: "json \<Rightarrow> string"

definition payload_of :: "event \<Rightarrow> jdict" where
  "payload_of raw = obj_items (ne_raw_payload raw)"

definition make_idempotency_key :: "ingest_env \<Rightarrow> event \<Rightarrow> string" where
  "make_idempotency_key env raw =
     (let message_id = jget (payload_of raw) ''message_id'';
          text = (\<lambda>v. case v of JStr s \<Rightarrow> s | _ \<Rightarrow> ie_json_text env v);
          edited = jget (payload_of raw) ''last_edited_time''
      in if truthy message_id then
           join_with '':'' [ne_source raw, ne_entity_id raw, text message_id, ne_event_type raw]
         else if ne_source raw = ''notion'' \<and> truthy edited then
           join_with '':'' [ne_source raw, ne_entity_id raw, text edited, ne_event_type raw]
         else case (if ne_source raw = ''github'' then ensure_aware_utc (ne_occurred_at raw) else None) of
             Some t \<Rightarrow> join_with '':'' [ne_source raw, ne_entity_id raw, ie_isoformat env t, ne_event_type raw]
           | None \<Rightarrow> join_with '':'' [ne_source raw, ne_entity_id raw, ne_event_type raw])"

definition stored_event :: "ingest_env \<Rightarrow> string \<Rightarrow> string \<Rightarrow> string \<Rightarrow> event \<Rightarrow> string \<Rightarrow> triage_result \<Rightarrow> event" where
  "stored_event env ws uid event_id raw key r =
     \<lparr>ne_event_id = event_id, ne_workspace_id = ws, ne_user_id = uid, ne_source = ne_source raw,
      ne_event_type = ne_event_type raw, ne_entity_type = ne_entity_type raw, ne_entity_id = ne_entity_id raw,
      ne_occurred_at = Aware (opt_or (ensure_aware_utc (ne_occurred_at raw)) (ie_now env)),
      ne_created_at = Aware (ie_now env), ne_title = ne_title raw, ne_summary = ne_summary raw, ne_actor = JNull,
      ne_actor_entities = (if truthy (ne_actor raw) then JList [ne_actor raw] else JNull), ne_raw_payload = JNull,
      ne_importance_signals = Some (to_signals r), ne_idempotency_key = key\<rparr>"

definition stored_keys :: "string \<Rightarrow> event list \<Rightarrow> string list" where
  "stored_keys ws store = map ne_idempotency_key (filter (\<lambda>e. ne_workspace_id e = ws) store)"

definition ne_unique_key :: "event \<Rightarrow> string \<times> string" where
  "ne_unique_key e = (ne_workspace_id e, ne_idempotency_key e)"

text \<open>One chunk: the keys already stored, one triage call for the rest, one commit for all of it. \<open>race\<close> is what
  another session commits between the read and the commit; a refused commit rolls the chunk back.\<close>

definition fresh_of :: "ingest_env \<Rightarrow> string \<Rightarrow> event list \<Rightarrow> event list \<Rightarrow> (event \<times> string) list" where
  "fresh_of env ws store chunk =
     filter (\<lambda>(r, k). k \<notin> set (stored_keys ws store)) (map (\<lambda>r. (r, make_idempotency_key env r)) chunk)"

definition chunk_rows ::
  "ingest_env \<Rightarrow> string \<Rightarrow> string \<Rightarrow> string list \<Rightarrow> (event \<times> string) list \<Rightarrow> triage_result list \<Rightarrow> event list" where
  "chunk_rows env ws uid ids fresh results =
     map (\<lambda>(i, (r, k), t). stored_event env ws uid i r k t) (zip ids (zip fresh results))"

definition process_chunk ::
  "ingest_env \<Rightarrow> filter_rule list \<Rightarrow> bool \<Rightarrow> string \<Rightarrow> string \<Rightarrow> event list \<Rightarrow> event list \<Rightarrow> event list
   \<Rightarrow> (py_exn + string option list) \<times> event list" where
  "process_chunk env rules down ws uid race chunk store =
     (let fresh = fresh_of env ws store chunk
      in if fresh = [] then (Inr (map (\<lambda>_. None) chunk), store @ race)
         else case triage_batch (ie_triage env) (Some rules) down ws (map fst fresh) of
             Inl x \<Rightarrow> (Inl x, store @ race)
           | Inr results \<Rightarrow>
               (let ids = map (\<lambda>i. ''evt_'' @ ie_new_id env (length store + i)) [0..<length fresh];
                    rows = chunk_rows env ws uid ids fresh results;
                    committed = store @ race @ rows
                in if distinct (map ne_unique_key committed)
                   then (Inr (map (\<lambda>r. map_option ne_event_id (row_find ne_idempotency_key (make_idempotency_key env r) rows)) chunk),
                         committed)
                   else (Inr (map (\<lambda>_. None) chunk), store @ race)))"

definition BATCH_SIZE :: nat where "BATCH_SIZE = 10"

text \<open>The chunks of ten of a batch, one after the other; what earlier chunks committed stays when a later one raises.\<close>

function chunks_of :: "nat \<Rightarrow> 'a list \<Rightarrow> 'a list list" where
  "chunks_of n xs = (if xs = [] \<or> n = 0 then [] else take n xs # chunks_of n (drop n xs))"
  by pat_completeness auto

termination
  by (relation "measure (\<lambda>(n, xs). length xs)") auto

declare chunks_of.simps [simp del]

fun process_chunks ::
  "ingest_env \<Rightarrow> filter_rule list \<Rightarrow> bool \<Rightarrow> string \<Rightarrow> string \<Rightarrow> event list list \<Rightarrow> event list
   \<Rightarrow> (py_exn + string option list) \<times> event list" where
  "process_chunks env rules down ws uid [] store = (Inr [], store)"
| "process_chunks env rules down ws uid (chunk # chunks) store =
     (case process_chunk env rules down ws uid [] chunk store of
        (Inl x, store') \<Rightarrow> (Inl x, store')
      | (Inr ids, store') \<Rightarrow>
          (case process_chunks env rules down ws uid chunks store' of
             (Inl x, store'') \<Rightarrow> (Inl x, store'')
           | (Inr others, store'') \<Rightarrow> (Inr (ids @ others), store'')))"

definition process_batch ::
  "ingest_env \<Rightarrow> filter_rule list \<Rightarrow> bool \<Rightarrow> string \<Rightarrow> string \<Rightarrow> event list \<Rightarrow> event list
   \<Rightarrow> (py_exn + string option list) \<times> event list" where
  "process_batch env rules down ws uid events store =
     process_chunks env rules down ws uid (chunks_of BATCH_SIZE events) store"

section \<open>Whether a poll is worth the planner\<close>

definition event_actionable :: "event \<Rightarrow> bool" where
  "event_actionable e = truthy (jget (signals_of e) ''actionable'')"

definition has_actionable_events :: "ingest_env \<Rightarrow> string \<Rightarrow> event list \<Rightarrow> event list \<Rightarrow> bool" where
  "has_actionable_events env ws store raws =
     (let keys = map (make_idempotency_key env) raws
      in keys \<noteq> [] \<and> (\<exists>e\<in>set store. ne_workspace_id e = ws \<and> ne_idempotency_key e \<in> set keys \<and> event_actionable e))"

section \<open>The rules pass\<close>

lemma rules_pass_nth:
  "rules_pass env sr es = Inr rs \<Longrightarrow> length rs = length es \<and> (\<forall>i<length es. classify_one env sr (es ! i) = Inr (rs ! i))"
proof (induction es arbitrary: rs)
  case (Cons e es)
  then obtain r rs' where r: "rs = r # rs'" "classify_one env sr e = Inr r" "rules_pass env sr es = Inr rs'"
    by (auto split: sum.splits)
  then show ?case using Cons.IH[OF r(3)] by (auto simp: nth_Cons')
qed simp

lemma all_from_llm_length: "all_from_llm env js = Inr rs \<Longrightarrow> length rs = length js \<and> (\<forall>r\<in>set rs. tr_origin r = LlmOrigin)"
proof (induction js arbitrary: rs)
  case (Cons j js)
  then obtain r rs' where r: "rs = r # rs'" "from_llm_obj env j = Inr r" "all_from_llm env js = Inr rs'"
    by (auto split: sum.splits)
  have "tr_origin r = LlmOrigin" using r(2) by (cases j) (auto simp: Let_def split: sum.splits)
  then show ?case using Cons.IH[OF r(3)] r(1) by simp
qed simp

definition undecided_ok :: "triage_result \<Rightarrow> bool" where
  "undecided_ok r \<longleftrightarrow> r = default_result \<or> tr_origin r = LlmOrigin"

lemma classify_llm_ok:
  assumes "classify_llm env es = Inr rs"
  shows "length rs = length es \<and> (\<forall>r\<in>set rs. undecided_ok r)"
proof -
  have m: "\<forall>r\<in>set (map (\<lambda>_. default_result) es). undecided_ok r" by (auto simp: undecided_ok_def)
  show ?thesis
  proof (cases "rs = map (\<lambda>_. default_result) es")
    case False
    then obtain answers where "length answers = length es" "all_from_llm env answers = Inr rs"
      using assms by (auto simp: classify_llm_def split: option.splits sum.splits json.splits if_splits)
    then show ?thesis using all_from_llm_length[of env answers rs] by (auto simp: undecided_ok_def)
  qed (use m in simp)
qed

lemma fill_in_all:
  "length others = length (filter (\<lambda>r. r = None) rs) \<Longrightarrow> (\<forall>m\<in>set others. undecided_ok m) \<Longrightarrow>
     list_all2 (\<lambda>q r. case q of Some x \<Rightarrow> r = x | None \<Rightarrow> undecided_ok r) rs (fill_in rs others)"
  by (induction rs others rule: fill_in.induct) auto

lemma fill_in_nth:
  "length others = length (filter (\<lambda>r. r = None) rs) \<Longrightarrow> (\<forall>m\<in>set others. undecided_ok m) \<Longrightarrow>
     length (fill_in rs others) = length rs \<and>
     (\<forall>i<length rs. case rs ! i of Some r \<Rightarrow> fill_in rs others ! i = r | None \<Rightarrow> undecided_ok (fill_in rs others ! i))"
  using fill_in_all[of others rs] by (simp add: list_all2_conv_all_nth)

lemma remainder_length:
  "length es = length rs \<Longrightarrow> length (remainder_of es rs) = length (filter (\<lambda>r. r = None) rs)"
  by (induction es rs rule: list_induct2) (auto simp: remainder_of_def)

text \<open>The verdict of one event, given what the rules pass said.\<close>

definition verdict_ok :: "triage_env \<Rightarrow> sender_rules \<Rightarrow> event \<Rightarrow> triage_result \<Rightarrow> bool" where
  "verdict_ok env sr e r \<longleftrightarrow>
     (case classify_one env sr e of Inl _ \<Rightarrow> False | Inr (Some q) \<Rightarrow> r = q | Inr None \<Rightarrow> undecided_ok r)"

definition batch_rules :: "filter_rule list option \<Rightarrow> bool \<Rightarrow> string \<Rightarrow> sender_rules" where
  "batch_rules db down ws = (case db of None \<Rightarrow> [] | Some rules \<Rightarrow> if ws = [] then [] else load_sender_rules down ws rules)"

lemma triage_batch_verdicts:
  assumes "triage_batch env db down ws events = Inr rs"
  shows "length rs = length events \<and> (\<forall>i<length events. verdict_ok env (batch_rules db down ws) (events ! i) (rs ! i))"
proof -
  let ?sr = "batch_rules db down ws"
  obtain qs where q: "rules_pass env ?sr events = Inr qs"
    using assms by (auto simp: triage_batch_def Let_def batch_rules_def split: sum.splits)
  note qn = rules_pass_nth[OF q]
  obtain others where others: "rs = fill_in qs others" "length others = length (filter (\<lambda>r. r = None) qs)" "\<forall>m\<in>set others. undecided_ok m"
  proof (cases "remainder_of events qs = []")
    case True
    then have "rs = fill_in qs []" using assms q by (simp add: triage_batch_def Let_def batch_rules_def)
    moreover have "length (filter (\<lambda>r. r = None) qs) = 0" using remainder_length[of events qs] True qn by simp
    ultimately show ?thesis using that[of "[]"] by simp
  next
    case False
    then obtain ms where "classify_llm env (remainder_of events qs) = Inr ms" "rs = fill_in qs ms"
      using assms q by (auto simp: triage_batch_def Let_def batch_rules_def split: sum.splits)
    then show ?thesis using that[of ms] classify_llm_ok[of env "remainder_of events qs" ms] remainder_length[of events qs] qn by simp
  qed
  have "length (fill_in qs others) = length qs \<and>
     (\<forall>i<length qs. case qs ! i of Some r \<Rightarrow> fill_in qs others ! i = r | None \<Rightarrow> undecided_ok (fill_in qs others ! i))"
    using fill_in_nth[OF others(2,3)] .
  then show ?thesis using qn others(1) by (auto simp: verdict_ok_def split: option.splits)
qed

section \<open>Properties of triage\<close>

text \<open>Each event gets its own verdict: with the confirmed rules first, then the bulk headers, and what neither
  decides is the model's or the default, whatever the model answers. Nothing is skipped by a failure: a skipped event was
  put there by a rule, a header or the model itself.\<close>

lemma triage_gives_each_event_its_verdict:
  assumes "triage_batch env (Some rules) False ws events = Inr rs" "ws \<noteq> []"
  shows "length rs = length events \<and>
    (\<forall>i<length events.
       let mine = matching_rule_id (te_parseaddr env) (events ! i) (load_sender_rules False ws rules)
       in (if mine \<noteq> None \<and> mine \<noteq> Some [] then rs ! i = rules_result FILTERED_CATEGORY mine
           else if classify_by_rules (events ! i) = Inr None then rs ! i = default_result \<or> tr_origin (rs ! i) = LlmOrigin
           else rs ! i = rules_result ''marketing'' mine) \<and>
          (tr_tier (rs ! i) = SkipTier \<longrightarrow> tr_origin (rs ! i) \<noteq> DefaultOrigin))"
proof -
  let ?sr = "load_sender_rules False ws rules"
  have sr: "batch_rules (Some rules) False ws = ?sr" using assms(2) by (simp add: batch_rules_def)
  note v = triage_batch_verdicts[OF assms(1), unfolded sr]
  have marketing: "classify_by_rules e = Inr None \<or> classify_by_rules e = Inr (Some ''marketing'') \<or> (\<exists>x. classify_by_rules e = Inl x)" for e
    by (auto simp: classify_by_rules_def Let_def split: sum.splits)
  have d: "tr_tier default_result = FullTier" "tr_origin default_result = DefaultOrigin"
    by (simp_all add: default_result_def derive_tier_def CATEGORY_TIER_def DEFAULT_CATEGORY_def FILTERED_CATEGORY_def)
  have o': "tr_origin (rules_result c m) = RulesOrigin" for c m by (simp add: rules_result_def)
  show ?thesis
  proof (intro conjI allI impI)
    show "length rs = length events" using v by simp
    fix i assume i: "i < length events"
    let ?mine = "matching_rule_id (te_parseaddr env) (events ! i) ?sr"
    have vi: "verdict_ok env ?sr (events ! i) (rs ! i)" using v i by blast
    show "let mine = ?mine
       in (if mine \<noteq> None \<and> mine \<noteq> Some [] then rs ! i = rules_result FILTERED_CATEGORY mine
           else if classify_by_rules (events ! i) = Inr None then rs ! i = default_result \<or> tr_origin (rs ! i) = LlmOrigin
           else rs ! i = rules_result ''marketing'' mine) \<and>
          (tr_tier (rs ! i) = SkipTier \<longrightarrow> tr_origin (rs ! i) \<noteq> DefaultOrigin)"
    proof (cases "?mine \<noteq> None \<and> ?mine \<noteq> Some []")
      case True
      then have "rs ! i = rules_result FILTERED_CATEGORY ?mine"
        using vi by (simp add: verdict_ok_def classify_one_def Let_def)
      then show ?thesis using True o' by (simp add: Let_def)
    next
      case False
      then have c: "classify_one env ?sr (events ! i) =
          (case classify_by_rules (events ! i) of Inl e \<Rightarrow> Inl e | Inr None \<Rightarrow> Inr None
           | Inr (Some cat) \<Rightarrow> Inr (Some (rules_result cat ?mine)))"
        unfolding classify_one_def Let_def by (simp only: if_not_P[OF False] if_False)
      consider (n) "classify_by_rules (events ! i) = Inr None" | (m) "classify_by_rules (events ! i) = Inr (Some ''marketing'')"
        using marketing[of "events ! i"] vi c by (auto simp: verdict_ok_def)
      then show ?thesis
      proof cases
        case n
        then have "undecided_ok (rs ! i)" using vi c by (simp add: verdict_ok_def)
        then show ?thesis using n d False by (simp only: Let_def if_not_P[OF False] if_P undecided_ok_def) auto
      next
        case m
        then have "rs ! i = rules_result ''marketing'' ?mine" using vi c by (simp add: verdict_ok_def)
        then show ?thesis using m o' by (simp only: Let_def if_not_P[OF False]) simp
      qed
    qed
  qed
qed

text \<open>A score of zero is not a score: an answer that rates an event 0.0 is read as the middling default.\<close>

lemma zero_score_reads_as_default:
  assumes "map_of d ''importance_score'' = Some (JNum 0)" "from_llm_obj env (JObj d) = Inr r"
  shows "tr_importance_score r = 1/2"
  using assms by (auto simp: Let_def score_field_def jget_default_def jor_def split: sum.splits)

section \<open>Properties of ingestion\<close>

lemma stored_event_fields [simp]:
  "ne_workspace_id (stored_event env ws uid i raw k t) = ws"
  "ne_idempotency_key (stored_event env ws uid i raw k t) = k"
  "ne_event_id (stored_event env ws uid i raw k t) = i"
  "event_key (stored_event env ws uid i raw k t) = event_key raw"
  "ne_importance_signals (stored_event env ws uid i raw k t) = Some (to_signals t)"
  by (simp_all add: stored_event_def event_key_def)

lemma fresh_none: "set (map (make_idempotency_key env) chunk) \<subseteq> set (stored_keys ws store) \<Longrightarrow>
    process_chunk env rules down ws uid race chunk store = (Inr (map (\<lambda>_. None) chunk), store @ race)"
proof -
  assume a: "set (map (make_idempotency_key env) chunk) \<subseteq> set (stored_keys ws store)"
  then have "fresh_of env ws store chunk = []"
    by (auto simp: fresh_of_def filter_empty_conv)
  then show ?thesis by (simp add: process_chunk_def Let_def)
qed

lemma chunks_of_set: "c \<in> set (chunks_of n xs) \<Longrightarrow> set c \<subseteq> set xs"
proof (induction n xs rule: chunks_of.induct)
  case (1 n xs)
  show ?case
  proof (cases "xs = [] \<or> n = 0")
    case False
    then have "c = take n xs \<or> c \<in> set (chunks_of n (drop n xs))"
      using 1(2) by (simp add: chunks_of.simps[of n xs])
    then show ?thesis using 1(1)[OF False] set_take_subset[of n xs] set_drop_subset[of n xs] by blast
  qed (use 1(2) in \<open>auto simp: chunks_of.simps\<close>)
qed

lemma chunks_of_concat: "n \<noteq> 0 \<Longrightarrow> concat (chunks_of n xs) = xs"
proof (induction n xs rule: chunks_of.induct)
  case (1 n xs)
  then show ?case by (cases "xs = []") (simp_all add: chunks_of.simps[of n xs] chunks_of.simps[of n "[]"])
qed

lemma process_chunks_known:
  "\<forall>c\<in>set chunks. set (map (make_idempotency_key env) c) \<subseteq> set (stored_keys ws store) \<Longrightarrow>
     process_chunks env rules down ws uid chunks store = (Inr (map (\<lambda>_. None) (concat chunks)), store)"
  by (induction chunks) (simp_all add: fresh_none)

text \<open>Polling again changes nothing: a batch whose events are all stored writes nothing, asks no model and keeps
  every verdict as it is, so an event once stored is never triaged a second time.\<close>

lemma stored_event_is_never_retriaged:
  assumes "\<forall>raw\<in>set events. make_idempotency_key env raw \<in> set (stored_keys ws store)"
  shows "process_batch env rules down ws uid events store = (Inr (map (\<lambda>_. None) events), store)"
proof -
  have "\<forall>c\<in>set (chunks_of BATCH_SIZE events). set (map (make_idempotency_key env) c) \<subseteq> set (stored_keys ws store)"
    using assms chunks_of_set by fastforce
  then show ?thesis
    by (simp add: process_batch_def process_chunks_known chunks_of_concat BATCH_SIZE_def)
qed

lemma chunk_rows_nth:
  assumes "length ids = length fresh" "length results = length fresh"
  shows "length (chunk_rows env ws uid ids fresh results) = length fresh"
    and "n < length fresh \<Longrightarrow> chunk_rows env ws uid ids fresh results ! n =
      stored_event env ws uid (ids ! n) (fst (fresh ! n)) (snd (fresh ! n)) (results ! n)"
  using assms by (simp_all add: chunk_rows_def split: prod.splits)

lemma fresh_of_mem: "(r, k) \<in> set (fresh_of env ws store chunk) \<longleftrightarrow>
    r \<in> set chunk \<and> k = make_idempotency_key env r \<and> k \<notin> set (stored_keys ws store)"
  by (auto simp: fresh_of_def)

text \<open>The parts of a chunk that was committed.\<close>

definition committed_chunk ::
  "ingest_env \<Rightarrow> filter_rule list \<Rightarrow> bool \<Rightarrow> string \<Rightarrow> string \<Rightarrow> event list \<Rightarrow> event list
   \<Rightarrow> string list \<Rightarrow> triage_result list \<Rightarrow> bool" where
  "committed_chunk env rules down ws uid store chunk ids results \<longleftrightarrow>
     triage_batch (ie_triage env) (Some rules) down ws (map fst (fresh_of env ws store chunk)) = Inr results \<and>
     length ids = length (fresh_of env ws store chunk)"

lemma process_chunk_cases:
  assumes "process_chunk env rules down ws uid race chunk store = (res, store')"
  shows "store' = store @ race \<or> (\<exists>ids results. committed_chunk env rules down ws uid store chunk ids results \<and>
     store' = store @ race @ chunk_rows env ws uid ids (fresh_of env ws store chunk) results \<and>
     distinct (map ne_unique_key store'))"
proof (cases "store' = store @ race")
  case False
  let ?fresh = "fresh_of env ws store chunk"
  have f: "?fresh \<noteq> []" using False assms by (auto simp: process_chunk_def Let_def)
  then obtain results where t: "triage_batch (ie_triage env) (Some rules) down ws (map fst ?fresh) = Inr results"
    using False assms by (auto simp: process_chunk_def Let_def split: sum.splits)
  let ?ids = "map (\<lambda>i. ''evt_'' @ ie_new_id env (length store + i)) [0..<length ?fresh]"
  have "store' = store @ race @ chunk_rows env ws uid ?ids ?fresh results \<and> distinct (map ne_unique_key store')"
    using False assms f t unfolding process_chunk_def Let_def by (simp del: map_append split: if_splits)
  moreover have "committed_chunk env rules down ws uid store chunk ?ids results" using t by (simp add: committed_chunk_def)
  ultimately show ?thesis by blast
qed simp

lemma committed_row:
  assumes "committed_chunk env rules down ws uid store chunk ids results"
    and "e \<in> set (chunk_rows env ws uid ids (fresh_of env ws store chunk) results)"
  shows "\<exists>raw\<in>set chunk. \<exists>r. verdict_ok (ie_triage env) (batch_rules (Some rules) down ws) raw r \<and>
       ne_workspace_id e = ws \<and> ne_idempotency_key e = make_idempotency_key env raw \<and> event_key e = event_key raw \<and>
       ne_importance_signals e = Some (to_signals r)"
proof -
  let ?fresh = "fresh_of env ws store chunk"
  have v: "length results = length ?fresh"
    "\<forall>i<length ?fresh. verdict_ok (ie_triage env) (batch_rules (Some rules) down ws) (fst (?fresh ! i)) (results ! i)"
    using triage_batch_verdicts[of "ie_triage env" "Some rules" down ws "map fst ?fresh" results] assms(1)
    by (simp_all add: committed_chunk_def)
  have l: "length ids = length ?fresh" using assms(1) by (simp add: committed_chunk_def)
  obtain n where n: "n < length ?fresh" "e = stored_event env ws uid (ids ! n) (fst (?fresh ! n)) (snd (?fresh ! n)) (results ! n)"
    using assms(2) chunk_rows_nth[OF l v(1)] by (auto simp: in_set_conv_nth)
  obtain raw k where rk: "?fresh ! n = (raw, k)" by fastforce
  then have "(raw, k) \<in> set ?fresh" using n(1) nth_mem by metis
  then have "raw \<in> set chunk" "k = make_idempotency_key env raw" by (simp_all add: fresh_of_mem)
  then show ?thesis using n rk v(2) by (intro bexI[of _ raw] exI[of _ "results ! n"]) auto
qed


text \<open>Two replies in one thread: the events of a source whose payload has no message id get the same key, and a chunk
  that holds both of them as new stores none of its events, whatever else is in it and however often it is polled.\<close>

lemma thread_replies_sink_their_chunk:
  assumes "a \<noteq> b" "ne_source a = ''slack''" "ne_source b = ''slack''" "ne_entity_id a = ne_entity_id b"
    and "ne_event_type a = ne_event_type b"
    and "\<not> truthy (jget (payload_of a) ''message_id'')" "\<not> truthy (jget (payload_of b) ''message_id'')"
    and "a \<in> set chunk" "b \<in> set chunk" "make_idempotency_key env a \<notin> set (stored_keys ws store)"
  shows "snd (process_chunk env rules down ws uid race chunk store) = store @ race"
proof (rule ccontr)
  assume n: "snd (process_chunk env rules down ws uid race chunk store) \<noteq> store @ race"
  obtain res store' where p: "process_chunk env rules down ws uid race chunk store = (res, store')" by fastforce
  let ?fresh = "fresh_of env ws store chunk"
  obtain ids results where c: "committed_chunk env rules down ws uid store chunk ids results"
    and s: "store' = store @ race @ chunk_rows env ws uid ids ?fresh results" "distinct (map ne_unique_key store')"
    using process_chunk_cases[OF p] n p by (simp del: map_append) blast
  let ?k = "make_idempotency_key env a" and ?rows = "chunk_rows env ws uid ids ?fresh results"
  have kb: "make_idempotency_key env b = ?k" using assms by (simp add: make_idempotency_key_def Let_def)
  have len: "length ids = length ?fresh" "length results = length ?fresh"
    using c triage_batch_verdicts[of "ie_triage env" "Some rules" down ws "map fst ?fresh" results]
    by (simp_all add: committed_chunk_def)
  have "(a, ?k) \<in> set ?fresh" "(b, ?k) \<in> set ?fresh" using assms(8-10) kb by (simp_all add: fresh_of_mem)
  then obtain i j where ij: "i < length ?fresh" "j < length ?fresh" "?fresh ! i = (a, ?k)" "?fresh ! j = (b, ?k)"
    unfolding in_set_conv_nth by blast
  have "i \<noteq> j" using ij assms(1) by auto
  moreover have "ne_unique_key (?rows ! i) = ne_unique_key (?rows ! j)"
    using chunk_rows_nth(2)[OF len] ij by (simp add: ne_unique_key_def)
  ultimately have "\<not> distinct (map ne_unique_key ?rows)"
    using ij(1,2) chunk_rows_nth(1)[OF len, of env ws uid] by (auto simp: distinct_conv_nth)
  then show False using s by simp
qed

section \<open>Applied\<close>

definition sample_ingest :: ingest_env where
  "sample_ingest = \<lparr>ie_triage = \<lparr>te_parseaddr = id, te_complete = (\<lambda>es. Inl ReadErr), te_json_text = (\<lambda>v. ''?''),
     te_parse_float = (\<lambda>s. None)\<rparr>, ie_isoformat = (\<lambda>t. ''t''), ie_now = 0, ie_new_id = (\<lambda>n. ''1''), ie_json_text = (\<lambda>v. ''?'')\<rparr>"


end
