(* ===== verification/Feed_Features.thy ===== *)
theory Feed_Features
  imports Domain_Units View_Bodies Deadline Triage
begin

text \<open>
  What the ranker is told: \<open>view/ranking/build.py\<close>. A feature record is assembled from the unit's frame and
  quotes, the events of its thing and reads of the system's own tables; a read may fail (\<open>down\<close>, told the handle it
  is made for), and then the unit is described by its frame alone. The reads of the engagement history lift what has
  lapsed, so its rows are part of the state, next to the memo of counterparties already resolved.
\<close>

section \<open>Tables and state\<close>

record entity_row =
  en_entity_id :: string
  en_workspace_id :: string
  en_last_seen_at :: timestamp
  en_interaction_count :: "int option"

record alias_row =
  al_workspace_id :: string
  al_alias :: string
  al_alias_type :: string
  al_entity_id :: string

record relation_row =
  rl_relation_id :: string
  rl_workspace_id :: string
  rl_from_entity_id :: string
  rl_to_entity_id :: string
  rl_relation_type :: string
  rl_strength :: "pyfloat option"
  rl_active :: bool

datatype db_read = GoalRead | AliasRead | EntityRead | RelationRead | MessageCountRead | SuppressionRead | PenaltyRead

record build_env =
  bd_down :: "string \<Rightarrow> db_read \<Rightarrow> bool"
  bd_date_lib :: date_lib
  bd_workspace_id :: string
  bd_user_id :: string
  bd_now :: instant
  bd_entities :: "entity_row list"
  bd_aliases :: "alias_row list"
  bd_relations :: "relation_row list"
  bd_memories :: "memory_row list"
  bd_events :: "event list"

record build_state =
  bs_resolved :: "((string \<times> string) \<times> counterparty \<times> string option) list"
  bs_engagement :: "engagement_row list"

type_synonym 'a build = "(build_state, py_exn, 'a) engine"

datatype deadline_source = Structured | VerbatimText

definition DEADLINE_SOURCE :: "(string \<times> deadline_source) list" where
  "DEADLINE_SOURCE = [(''calendar'', Structured), (''gmail'', VerbatimText), (''slack'', VerbatimText)]"

definition RULES_CATEGORIES :: "string list" where
  "RULES_CATEGORIES = [''marketing'']"

definition STRONG_IDENTIFIERS :: "(string \<times> string) list" where
  "STRONG_IDENTIFIERS = [(''email'', ''email''), (''slack_id'', ''handle''), (''handle'', ''handle'')]"

section \<open>Readers that never raise\<close>

definition actor_dicts :: "event \<Rightarrow> jdict list" where
  "actor_dicts e =
     (case jor (ne_actor_entities e) (ne_actor e) of
        JObj d \<Rightarrow> [d]
      | JList xs \<Rightarrow> List.map_filter (\<lambda>v. case v of JObj d \<Rightarrow> Some d | _ \<Rightarrow> None) xs
      | _ \<Rightarrow> [])"

definition strong_identifier :: "event \<Rightarrow> (string \<times> string) option" where
  "strong_identifier e =
     (case List.map_filter
             (\<lambda>(d, payload_key, alias_type).
                if stripped_text (jget d payload_key) \<noteq> [] then Some (stripped_text (jget d payload_key), alias_type) else None)
             (concat (map (\<lambda>d. map (\<lambda>p. (d, p)) STRONG_IDENTIFIERS) (actor_dicts e))) of
        [] \<Rightarrow> None | x # _ \<Rightarrow> Some x)"

text \<open>A category that is not hashable raises outside the guarded part.\<close>

definition is_bulk_mail :: "event \<Rightarrow> py_exn + bool" where
  "is_bulk_mail e =
     (let by_headers = (case classify_by_rules e of Inr (Some c) \<Rightarrow> Inr (c \<in> set RULES_CATEGORIES) | _ \<Rightarrow> Inr False);
          signals = dict_or_empty (ne_importance_signals e)
      in if jget signals ''triage_origin'' \<noteq> JStr ''rules'' then by_headers
         else case jget signals ''category'' of
                JList _ \<Rightarrow> Inl TypeErr
              | JObj _ \<Rightarrow> Inl TypeErr
              | JStr c \<Rightarrow> if c \<in> set RULES_CATEGORIES then Inr True else by_headers
              | _ \<Rightarrow> by_headers)"

definition hours_between :: "instant \<Rightarrow> timestamp \<Rightarrow> pyfloat" where
  "hours_between later earlier_at =
     (case ensure_aware_utc earlier_at of None \<Rightarrow> 0 | Some t \<Rightarrow> max 0 (of_int (later - t) / of_int (hours 1)))"

definition entity_id_of :: "frame \<Rightarrow> string option" where
  "entity_id_of f =
     (let prefix = fm_source f @ '':'' @ fm_entity_type f @ '':''
      in if take (length prefix) (fm_key f) \<noteq> prefix then None
         else let rest = drop (length prefix) (fm_key f) in if rest = [] then None else Some rest)"

definition verbatim_text :: "view_unit \<Rightarrow> string" where
  "verbatim_text u = join_with [NL] (map qt_text (vu_quotes u))"

text \<open>\<open>t.date()\<close> as an ordinal, for instants counted from 1970-01-01.\<close>

definition date_of :: "instant \<Rightarrow> int" where
  "date_of t = t div hours 24 + 719163"

definition bounded_days :: "int option \<Rightarrow> instant \<Rightarrow> int option" where
  "bounded_days deadline now =
     (case deadline of
        None \<Rightarrow> None
      | Some d \<Rightarrow> let n = d - date_of now in if n < 0 \<or> HORIZON_DAYS < n then None else Some n)"

definition deadline_in_days :: "date_lib \<Rightarrow> view_unit \<Rightarrow> instant \<Rightarrow> int option" where
  "deadline_in_days lib u now =
     (case map_of DEADLINE_SOURCE (fm_source (vu_frame u)) of
        None \<Rightarrow> None
      | Some Structured \<Rightarrow> bounded_days (Some (date_of (fm_occurred_at (vu_frame u)))) now
      | Some VerbatimText \<Rightarrow>
          if verbatim_text u = [] then None
          else bounded_days (extract_deadline lib (verbatim_text u) (date_of now)) now)"

section \<open>Database reads\<close>

definition goal_index :: "build_env \<Rightarrow> (string \<times> string list) list" where
  "goal_index env =
     (let rows = filter (\<lambda>m. mm_workspace_id m = bd_workspace_id env \<and> mm_memory_type m = ''goal'' \<and> mm_status m = ''active'')
                   (bd_memories env);
          pairs = concat (map (\<lambda>m. map (\<lambda>eid. (eid, mm_memory_id m)) (mm_entity_ids m)) rows)
      in map (\<lambda>(eid, ids). (eid, sort (remdups ids))) (fold (\<lambda>(eid, mid) bs. bucket_append eid mid bs) pairs []))"

definition message_count :: "build_env \<Rightarrow> string \<Rightarrow> string \<Rightarrow> int" where
  "message_count env source entity_id =
     max 1 (int (length (filter (\<lambda>e. ne_user_id e = bd_user_id env \<and> ne_source e = source \<and> ne_entity_id e = entity_id)
       (bd_events env))))"

definition alias_entity_id :: "build_env \<Rightarrow> string \<Rightarrow> string \<Rightarrow> string option" where
  "alias_entity_id env value alias_type =
     (let cands = (if value = py_lower value then [value] else [value, py_lower value]);
          found = concat (map (\<lambda>c. filter (\<lambda>a. al_workspace_id a = bd_workspace_id env \<and> al_alias a = c
                                            \<and> al_alias_type a = alias_type) (bd_aliases env)) cands)
      in case found of [] \<Rightarrow> None | a # _ \<Rightarrow> Some (al_entity_id a))"

definition relationship_type :: "build_env \<Rightarrow> string \<Rightarrow> string option" where
  "relationship_type env eid =
     (let rows = filter (\<lambda>r. rl_workspace_id r = bd_workspace_id env \<and> rl_to_entity_id r = eid) (bd_relations env)
                 @ filter (\<lambda>r. rl_workspace_id r = bd_workspace_id env \<and> rl_from_entity_id r = eid) (bd_relations env)
      in case sort_key (\<lambda>r. (- opt_or (rl_strength r) 0, rl_relation_type r, rl_relation_id r)) (filter rl_active rows) of
           [] \<Rightarrow> None
         | best # _ \<Rightarrow> if rl_relation_type best \<noteq> [] then Some (rl_relation_type best) else None)"

definition reading :: "build_env \<Rightarrow> string \<Rightarrow> db_read \<Rightarrow> 'a \<Rightarrow> 'a build" where
  "reading env key r value = (if bd_down env key r then raise ReadErr else ret value)"

definition resolve_counterparty :: "build_env \<Rightarrow> string \<Rightarrow> string \<times> string \<Rightarrow> (counterparty \<times> string option) build" where
  "resolve_counterparty env key identifier =
     andthen (reading env key AliasRead (alias_entity_id env (fst identifier) (snd identifier))) (\<lambda>found.
       case found of
         None \<Rightarrow> ret (unknown_counterparty, None)
       | Some eid \<Rightarrow>
           andthen (reading env key EntityRead
                (row_find (\<lambda>e. (en_entity_id e, en_workspace_id e)) (eid, bd_workspace_id env) (bd_entities env))) (\<lambda>entity.
             let last_seen = (case entity of None \<Rightarrow> None | Some e \<Rightarrow> ensure_aware_utc (en_last_seen_at e))
             in andthen (reading env key RelationRead (relationship_type env eid)) (\<lambda>relation.
                  ret (\<lparr>cp_known = True, cp_relationship = relation, cp_prior_threads = None,
                        cp_interaction_count =
                          max 0 (case entity of None \<Rightarrow> 0 | Some e \<Rightarrow> opt_or (en_interaction_count e) 0),
                        cp_days_since_last_seen =
                          (case last_seen of None \<Rightarrow> None | Some t \<Rightarrow> Some (max 0 ((bd_now env - t) div hours 24)))\<rparr>,
                       Some eid))))"

definition resolve_memo :: "build_env \<Rightarrow> string \<Rightarrow> string \<times> string \<Rightarrow> (counterparty \<times> string option) build" where
  "resolve_memo env key identifier =
     andthen get (\<lambda>s. case map_of (bs_resolved s) identifier of
         Some r \<Rightarrow> ret r
       | None \<Rightarrow> andthen (resolve_counterparty env key identifier) (\<lambda>r.
           andthen (modify (\<lambda>s. s\<lparr>bs_resolved := (identifier, r) # bs_resolved s\<rparr>)) (\<lambda>_. ret r)))"

definition ask_engagement ::
  "build_env \<Rightarrow> string \<Rightarrow> db_read \<Rightarrow> (engagement_row list \<Rightarrow> 'a \<times> engagement_row list) \<Rightarrow> 'a build" where
  "ask_engagement env key r f =
     (if bd_down env key r then raise ReadErr
      else andthen get (\<lambda>s. let (v, rows) = f (bs_engagement s)
                            in andthen (modify (\<lambda>s. s\<lparr>bs_engagement := rows\<rparr>)) (\<lambda>_. ret v)))"

section \<open>Assembly\<close>

definition make_features :: "rank_features \<Rightarrow> rank_features build" where
  "make_features f = (if features_ok f then ret f else raise ValueErr)"

definition minimal_features :: "frame \<Rightarrow> rank_features build" where
  "minimal_features f = make_features
     \<lparr>rf_key = fm_key f, rf_kind = fm_kind f, rf_source = fm_source f, rf_counterparty = unknown_counterparty,
      rf_thread = new_thread_state, rf_has_unresolved_affordance = (fm_affordances f \<noteq> []), rf_bulk_mail = False,
      rf_engagement_penalty = 0, rf_suppressed = False, rf_age_hours = 0, rf_deadline_in_days = None,
      rf_matched_goal_ids = []\<rparr>"

definition latest_event :: "event list \<Rightarrow> event option" where
  "latest_event es = (if es = [] then None else Some (last es))"

definition party_of :: "build_env \<Rightarrow> string \<Rightarrow> event option \<Rightarrow> (counterparty \<times> string option) build" where
  "party_of env key newest =
     (case newest of
        None \<Rightarrow> ret (unknown_counterparty, None)
      | Some e \<Rightarrow> (case strong_identifier e of
                     None \<Rightarrow> ret (unknown_counterparty, None)
                   | Some identifier \<Rightarrow> resolve_memo env key identifier))"

definition engagement_of :: "build_env \<Rightarrow> string \<Rightarrow> string \<Rightarrow> event option \<Rightarrow> (bool \<times> pyfloat) build" where
  "engagement_of env key source newest =
     (case newest of
        None \<Rightarrow> ret (False, 0)
      | Some e \<Rightarrow>
          if ne_event_type e = [] then ret (False, 0)
          else let k = (bd_workspace_id env, source, ne_event_type e)
               in andthen (ask_engagement env key SuppressionRead (is_suppressed k (bd_now env))) (\<lambda>suppressed.
                    andthen (ask_engagement env key PenaltyRead (get_relevance_penalty k (bd_now env))) (\<lambda>penalty.
                      ret (suppressed, min 1 (max 0 penalty)))))"

definition features_for ::
  "build_env \<Rightarrow> (string \<times> string list) list \<Rightarrow> view_unit \<Rightarrow> event list \<Rightarrow> rank_features build" where
  "features_for env goals u events =
     (let f = vu_frame u; key = fm_key f; newest = latest_event events
      in andthen (party_of env key newest) (\<lambda>(party, eid).
         andthen (case entity_id_of f of
                    None \<Rightarrow> ret 1
                  | Some external_id \<Rightarrow> reading env key MessageCountRead (message_count env (fm_source f) external_id)) (\<lambda>messages.
         andthen (engagement_of env key (fm_source f) newest) (\<lambda>(suppressed, penalty).
         andthen (case newest of None \<Rightarrow> ret False | Some e \<Rightarrow> lift_sum (is_bulk_mail e)) (\<lambda>bulk.
           make_features
             \<lparr>rf_key = key, rf_kind = fm_kind f, rf_source = fm_source f, rf_counterparty = party,
              rf_thread = \<lparr>th_message_count = messages, th_you_replied = None,
                           th_hours_since_last = hours_between (bd_now env) (Aware (fm_updated_at f))\<rparr>,
              rf_has_unresolved_affordance = (fm_affordances f \<noteq> []), rf_bulk_mail = bulk,
              rf_engagement_penalty = penalty, rf_suppressed = suppressed,
              rf_age_hours = hours_between (bd_now env) (Aware (fm_occurred_at f)),
              rf_deadline_in_days = deadline_in_days (bd_date_lib env) u (bd_now env),
              rf_matched_goal_ids = (case eid of None \<Rightarrow> [] | Some i \<Rightarrow> if i = [] then [] else opt_or (map_of goals i) [])\<rparr>)))))"

text \<open>One unit: the whole record, else the frame's own, else nothing.\<close>

definition unit_features ::
  "build_env \<Rightarrow> (string \<times> string list) list \<Rightarrow> (string \<times> event list) list \<Rightarrow> view_unit \<Rightarrow> build_state
   \<Rightarrow> rank_features option \<times> build_state" where
  "unit_features env goals events_by_key u s =
     (if fm_key (vu_frame u) = [] then (None, s)
      else case features_for env goals u (opt_or (map_of events_by_key (fm_key (vu_frame u))) []) s of
             (Inr f, s') \<Rightarrow> (Some f, s')
           | (Inl _, s') \<Rightarrow>
               (case minimal_features (vu_frame u) s' of (Inr f, s'') \<Rightarrow> (Some f, s'') | (Inl _, s'') \<Rightarrow> (None, s'')))"

fun build_loop ::
  "build_env \<Rightarrow> (string \<times> string list) list \<Rightarrow> (string \<times> event list) list \<Rightarrow> view_unit list \<Rightarrow> build_state
   \<Rightarrow> rank_features list \<times> build_state" where
  "build_loop env goals ev [] s = ([], s)"
| "build_loop env goals ev (u # us) s =
     (let (f, s1) = unit_features env goals ev u s; (fs, s2) = build_loop env goals ev us s1
      in (case f of None \<Rightarrow> fs | Some f \<Rightarrow> f # fs, s2))"

definition build_features ::
  "build_env \<Rightarrow> (string \<times> event list) list \<Rightarrow> view_unit list \<Rightarrow> engagement_row list \<Rightarrow> rank_features list \<times> engagement_row list" where
  "build_features env events_by_key units engagement =
     (let goals = (if bd_down env [] GoalRead then [] else goal_index env);
          (fs, s) = build_loop env goals events_by_key units \<lparr>bs_resolved = [], bs_engagement = engagement\<rparr>
      in (fs, bs_engagement s))"

section \<open>What comes out\<close>

definition yields :: "('a \<Rightarrow> bool) \<Rightarrow> 'a build \<Rightarrow> bool" where
  "yields P m \<longleftrightarrow> (\<forall>s y s'. m s = (Inr y, s') \<longrightarrow> P y)"

lemma yields_andthen: "(\<And>x. yields P (k x)) \<Longrightarrow> yields P (andthen m k)"
  by (auto simp: yields_def andthen_def split: prod.splits sum.splits)

lemma yields_prod: "(\<And>a b. yields P (f a b)) \<Longrightarrow> yields P (case p of (a, b) \<Rightarrow> f a b)"
  by (cases p) simp

lemma yields_make: "(features_ok f \<Longrightarrow> P f) \<Longrightarrow> yields P (make_features f)"
  by (simp add: yields_def make_features_def engine_unfold)

definition describes :: "view_unit \<Rightarrow> instant \<Rightarrow> rank_features \<Rightarrow> bool" where
  "describes u now f \<longleftrightarrow> features_ok f \<and> rf_key f = fm_key (vu_frame u) \<and> rf_kind f = fm_kind (vu_frame u) \<and>
     rf_source f = fm_source (vu_frame u) \<and>
     (\<forall>d. rf_deadline_in_days f = Some d \<longrightarrow> 0 \<le> d \<and> d \<le> HORIZON_DAYS \<and>
        (rf_source f = ''calendar'' \<or> rf_source f \<in> {''gmail'', ''slack''} \<and> vu_quotes u \<noteq> []))"

lemma deadline_in_days_admissible:
  assumes "deadline_in_days lib u now = Some d"
  shows "0 \<le> d \<and> d \<le> HORIZON_DAYS \<and>
    (fm_source (vu_frame u) = ''calendar'' \<or> fm_source (vu_frame u) \<in> {''gmail'', ''slack''} \<and> vu_quotes u \<noteq> [])"
  using assms
  by (cases "vu_quotes u")
    (auto simp: deadline_in_days_def bounded_days_def DEADLINE_SOURCE_def Let_def verbatim_text_def split: option.splits if_splits)

lemma features_for_describes: "yields (describes u (bd_now env)) (features_for env goals u es)"
  unfolding features_for_def Let_def
  by (intro yields_andthen yields_prod yields_make) (use deadline_in_days_admissible in \<open>auto simp: describes_def\<close>)

lemma minimal_features_ok:
  "fm_key f \<noteq> [] \<Longrightarrow> fm_source f \<noteq> [] \<Longrightarrow> \<exists>g. minimal_features f s = (Inr g, s) \<and> features_ok g \<and>
     rf_key g = fm_key f \<and> rf_kind g = fm_kind f \<and> rf_source g = fm_source f \<and> rf_deadline_in_days g = None \<and>
     \<not> rf_suppressed g \<and> \<not> rf_bulk_mail g"
  by (simp add: minimal_features_def make_features_def features_ok_def counterparty_ok_def thread_ok_def opt_ge0_def
      unknown_counterparty_def new_thread_state_def engine_unfold)

lemma unit_features_describes:
  assumes "frame_ok (vu_frame u)"
  shows "\<exists>f s'. unit_features env goals ev u s = (Some f, s') \<and> describes u (bd_now env) f"
proof -
  have ne: "fm_key (vu_frame u) \<noteq> []" "fm_source (vu_frame u) \<noteq> []" using assms by (simp_all add: frame_ok_def)
  obtain r s1 where r: "features_for env goals u (opt_or (map_of ev (fm_key (vu_frame u))) []) s = (r, s1)" by force
  show ?thesis
  proof (cases r)
    case (Inl x)
    then show ?thesis using r ne minimal_features_ok[OF ne, of s1] by (auto simp: unit_features_def describes_def)
  next
    case (Inr f)
    then show ?thesis using r ne features_for_describes[of u env goals] by (auto simp: unit_features_def yields_def)
  qed
qed

lemma build_loop_describes:
  "\<forall>u\<in>set us. frame_ok (vu_frame u) \<Longrightarrow>
     list_all2 (\<lambda>u. describes u (bd_now env)) us (fst (build_loop env goals ev us s))"
proof (induction us arbitrary: s)
  case (Cons u us)
  obtain f s1 where f: "unit_features env goals ev u s = (Some f, s1)" "describes u (bd_now env) f"
    using unit_features_describes Cons.prems by (metis list.set_intros(1))
  then show ?case using Cons by (auto simp: split_beta)
qed simp

lemma build_features_describes:
  "\<forall>u\<in>set us. frame_ok (vu_frame u) \<Longrightarrow> list_all2 (\<lambda>u. describes u (bd_now env)) us (fst (build_features env ev us eng))"
  using build_loop_describes[of us env] by (simp add: build_features_def split_beta Let_def)

text \<open>What has no events has no evidence against it.\<close>

lemma features_for_no_events: "yields (\<lambda>f. \<not> rf_suppressed f \<and> \<not> rf_bulk_mail f) (features_for env goals u [])"
  unfolding features_for_def Let_def latest_event_def engagement_of_def party_of_def if_P[OF refl] option.case andthen_ret prod.case
  by (intro yields_andthen yields_make) simp

lemma unit_features_no_events:
  assumes "map_of ev (unit_key u) = None" "unit_features env goals ev u s = (Some f, s')"
  shows "rf_key f = unit_key u \<longrightarrow> \<not> rf_suppressed f \<and> \<not> rf_bulk_mail f"
proof -
  have "yields (\<lambda>f. \<not> rf_suppressed f \<and> \<not> rf_bulk_mail f) (minimal_features (vu_frame u))"
    unfolding minimal_features_def by (rule yields_make) simp
  then show ?thesis
    using assms features_for_no_events[of env goals u]
    by (auto simp: unit_features_def unit_key_def yields_def split: if_splits prod.splits sum.splits) blast+
qed

lemma build_loop_no_events:
  "\<forall>u\<in>set us. frame_ok (vu_frame u) \<Longrightarrow> f \<in> set (fst (build_loop env goals ev us s)) \<Longrightarrow> map_of ev (rf_key f) = None \<Longrightarrow>
     \<not> rf_suppressed f \<and> \<not> rf_bulk_mail f"
proof (induction us arbitrary: s)
  case (Cons u us)
  obtain g s1 where g: "unit_features env goals ev u s = (Some g, s1)" "describes u (bd_now env) g"
    using unit_features_describes Cons.prems(1) by (metis list.set_intros(1))
  then have k: "rf_key g = unit_key u" by (simp add: describes_def unit_key_def)
  show ?case
  proof (cases "f = g")
    case True
    then show ?thesis using unit_features_no_events[OF _ g(1)] Cons.prems(3) k by simp
  next
    case False
    then have "f \<in> set (fst (build_loop env goals ev us s1))" using Cons.prems(2) g(1) by (auto simp: split_beta)
    then show ?thesis using Cons by simp
  qed
qed simp

lemma build_features_no_events:
  "\<forall>u\<in>set us. frame_ok (vu_frame u) \<Longrightarrow> f \<in> set (fst (build_features env ev us eng)) \<Longrightarrow> map_of ev (rf_key f) = None \<Longrightarrow>
     \<not> rf_suppressed f \<and> \<not> rf_bulk_mail f"
  using build_loop_no_events[of us f env] by (simp add: build_features_def split_beta Let_def)

definition restate :: "event \<Rightarrow> event" where
  "restate e = (if jget (signals_of e) ''triage_origin'' = JStr ''rules'' then e else e\<lparr>ne_importance_signals := None\<rparr>)"

lemma restate_simps [simp]:
  "ne_actor_entities (restate e) = ne_actor_entities e" "ne_actor (restate e) = ne_actor e"
  "ne_event_type (restate e) = ne_event_type e" "ne_raw_payload (restate e) = ne_raw_payload e"
  by (simp_all add: restate_def)

lemma restate_bulk: "is_bulk_mail (restate e) = is_bulk_mail e"
proof -
  have "classify_by_rules (restate e) = classify_by_rules e" by (simp add: classify_by_rules_def)
  then show ?thesis by (simp add: is_bulk_mail_def restate_def signals_of_def Let_def)
qed

lemma restate_party: "strong_identifier (restate e) = strong_identifier e"
  by (simp add: strong_identifier_def actor_dicts_def)

lemma latest_event_map: "latest_event (map h es) = map_option h (latest_event es)"
  by (simp add: latest_event_def last_map)

lemma features_for_restate: "features_for env goals u (map restate es) = features_for env goals u es"
proof (cases "latest_event es")
  case None
  then show ?thesis by (simp add: features_for_def latest_event_map)
next
  case (Some e)
  have "party_of env k (Some (restate e)) = party_of env k (Some e)" for k by (simp add: party_of_def restate_party)
  moreover have "engagement_of env k src (Some (restate e)) = engagement_of env k src (Some e)" for k src
    by (simp add: engagement_of_def)
  ultimately show ?thesis by (simp add: features_for_def Let_def latest_event_map Some restate_bulk)
qed

lemma map_of_map_events: "map_of (map (\<lambda>(k, es). (k, h es)) ev) k = map_option h (map_of ev k)"
  by (induction ev) auto

lemma unit_features_restate:
  "unit_features env goals (map (\<lambda>(k, es). (k, map restate es)) ev) u s = unit_features env goals ev u s"
proof -
  have "opt_or (map_of (map (\<lambda>(k, es). (k, map restate es)) ev) k) [] = map restate (opt_or (map_of ev k) [])" for k
    by (cases "map_of ev k") (simp_all add: map_of_map_events)
  then show ?thesis by (simp add: unit_features_def features_for_restate)
qed

section \<open>Properties\<close>

text \<open>C34. The ranker's input is total and well typed: whatever reads fail, every unit with a valid frame gets one
  feature record, in the order given, that the record's own validation accepts, that names the unit's handle, kind and
  source, and whose deadline lies within the horizon and comes from a calendar entry or from text the unit quotes from a
  source a person writes in.\<close>

theorem build_features_total:
  assumes "\<forall>u\<in>set units. frame_ok (vu_frame u)"
  shows "list_all2 (\<lambda>u f. features_ok f \<and> rf_key f = fm_key (vu_frame u) \<and> rf_kind f = fm_kind (vu_frame u) \<and>
     rf_source f = fm_source (vu_frame u) \<and>
     (\<forall>d. rf_deadline_in_days f = Some d \<longrightarrow> 0 \<le> d \<and> d \<le> 365 \<and>
        (rf_source f = ''calendar'' \<or> rf_source f \<in> {''gmail'', ''slack''} \<and> vu_quotes u \<noteq> [])))
     units (fst (build_features env events_by_key units engagement))"
  using build_features_describes[OF assms] by (rule list.rel_mono_strong) (auto simp: describes_def HORIZON_DAYS_def)

definition sample_build_env :: build_env where
  "sample_build_env = \<lparr>bd_down = (\<lambda>k r. r = MessageCountRead), bd_date_lib = sample_date_lib, bd_workspace_id = ''ws'',
     bd_user_id = ''u'', bd_now = 0, bd_entities = [], bd_aliases = [], bd_relations = [], bd_memories = [], bd_events = []\<rparr>"

lemma sample_frame_ok: "frame_ok (vu_frame sample_unit)"
  by code_simp

theorem build_features_total_witness:
  "map rf_key (fst (build_features sample_build_env [] [sample_unit] [])) = [''gmail:email:m1'']"
  using build_features_total[of "[sample_unit]" sample_build_env "[]" "[]"] sample_frame_ok
  by (auto simp: list_all2_Cons1 sample_unit_def sample_frame_def)


end
