(* ===== verification/Feed.thy ===== *)
theory Feed
  imports Feed_Features
begin

text \<open>
  The feed: \<open>view/feed.py\<close> with the read of \<open>services/unit_dismissals.py\<close>, the composition of every family of
  units, and where attention stops. \<open>fe_down\<close> tells which family's read fails; \<open>fe_rank_down\<close> stands for anything
  else that the guard around the ranking catches. The endpoint returns the feed with its length.
\<close>

section \<open>The operations\<close>

definition drop_dismissed ::
  "bool \<Rightarrow> string \<Rightarrow> string \<Rightarrow> dismissal list \<Rightarrow> (string \<times> event list) list \<Rightarrow> view_unit list \<Rightarrow> view_unit list" where
  "drop_dismissed down ws uid dismissals events_by_key units =
     (if down then units
      else if filter (\<lambda>d. ud_workspace_id d = ws \<and> ud_user_id d = uid) dismissals = [] then units
      else filter (\<lambda>u. fm_source (vu_frame u) = OWN_SOURCE
                    \<or> \<not> is_hidden (unit_key u) (load_dismissals ws uid dismissals)
                          (\<lambda>k. opt_or (map_of events_by_key k) [])) units)"

fun first_by_key :: "view_unit list \<Rightarrow> string \<Rightarrow> view_unit option" where
  "first_by_key [] k = None"
| "first_by_key (u # us) k = (if unit_key u \<noteq> [] \<and> unit_key u = k then Some u else first_by_key us k)"

fun order_loop :: "(string \<Rightarrow> view_unit option) \<Rightarrow> string list \<Rightarrow> string list \<Rightarrow> view_unit list" where
  "order_loop by_key [] seen = []"
| "order_loop by_key (k # ks) seen =
     (if k \<in> set seen then order_loop by_key ks seen
      else case by_key k of
             None \<Rightarrow> order_loop by_key ks seen
           | Some u \<Rightarrow> u # order_loop by_key ks (k # seen))"

definition order_by_rank :: "view_unit list \<Rightarrow> string list \<Rightarrow> view_unit list" where
  "order_by_rank units ranked_keys = order_loop (first_by_key units) ranked_keys []"

definition quiet_verdicts :: "event list \<Rightarrow> bool" where
  "quiet_verdicts events \<longleftrightarrow>
     events \<noteq> [] \<and> list_all (\<lambda>e. jget (signals_of e) ''actionable'' = JBool False) events"

definition quiet_units :: "rank_features list \<Rightarrow> (string \<times> event list) list \<Rightarrow> (string \<times> bool) list" where
  "quiet_units features events_by_key =
     fold (\<lambda>(k, events) quiet.
            if map_of quiet k = Some True then quiet
            else if quiet_verdicts events then AList.update k True quiet else quiet)
       events_by_key (fold (\<lambda>f quiet. AList.update (rf_key f) (rf_bulk_mail f) quiet) features [])"

definition partition_for_fold :: "view_unit list \<Rightarrow> (string \<times> bool) list \<Rightarrow> view_unit list \<times> nat" where
  "partition_for_fold units quiet =
     (let signal = filter (\<lambda>u. \<not> opt_or (map_of quiet (unit_key u)) False) units;
          quiets = filter (\<lambda>u. opt_or (map_of quiet (unit_key u)) False) units
      in (signal @ quiets, length signal))"

section \<open>The feed\<close>

datatype family = PerceptionFamily | PreparedFamily | BriefingFamily | RunFamily | StepNames | InsightFamily
  | HealthFamily | DismissalRead | BodyRead

record feed_env =
  fe_build :: build_env
  fe_down :: "family \<Rightarrow> bool"
  fe_rank_down :: bool
  fe_approvals :: "(instant \<times> approval) list"
  fe_briefings :: "briefing_row list"
  fe_runs :: "run_row list"
  fe_steps :: "task_step list"
  fe_states :: "perception_state list"
  fe_dismissals :: "dismissal list"
  fe_bodies :: "unit_body list"

record feed =
  fd_units :: "view_unit list"
  fd_fold_after :: nat

definition own_family_units :: "feed_env \<Rightarrow> view_unit list" where
  "own_family_units env =
     (let b = fe_build env; ws = bd_workspace_id b; uid = bd_user_id b; now = bd_now b; down = fe_down env
      in (case prepared_work_unit (down PreparedFamily) ws uid now (fe_approvals env) of None \<Rightarrow> [] | Some u \<Rightarrow> [u])
         @ briefing_units (down BriefingFamily) ws uid now (fe_briefings env)
         @ run_units (down RunFamily) (down StepNames) ws now (fe_runs env) (fe_steps env)
         @ insight_units (down InsightFamily) ws uid now (bd_memories b)
         @ (case connector_health_unit (down HealthFamily) ws now (fe_states env) of None \<Rightarrow> [] | Some u \<Rightarrow> [u]))"

definition perceived_family :: "feed_env \<Rightarrow> view_unit list \<times> (string \<times> event list) list" where
  "perceived_family env =
     (let b = fe_build env
      in stored_perception_units (fe_down env PerceptionFamily) (bd_workspace_id b) (bd_user_id b) (bd_now b) (bd_events b))"

definition shown_units :: "feed_env \<Rightarrow> view_unit list" where
  "shown_units env =
     (let b = fe_build env; (perception, events_by_key) = perceived_family env
      in attach_stored_bodies (fe_down env BodyRead) (bd_workspace_id b) (fe_bodies env)
           (drop_dismissed (fe_down env DismissalRead) (bd_workspace_id b) (bd_user_id b) (fe_dismissals env) events_by_key
             (own_family_units env @ perception)))"

definition assemble_feed :: "feed_env \<Rightarrow> engagement_row list \<Rightarrow> feed \<times> engagement_row list" where
  "assemble_feed env engagement =
     (let units = shown_units env; events_by_key = snd (perceived_family env)
      in if fe_rank_down env then (\<lparr>fd_units = units, fd_fold_after = length units\<rparr>, engagement)
         else let (features, engagement') = build_features (fe_build env) events_by_key units engagement;
                  ordered = order_by_rank units (rank features)
              in if ordered = [] \<and> units \<noteq> [] then (\<lparr>fd_units = units, fd_fold_after = length units\<rparr>, engagement')
                 else let (shown, fold_after) = partition_for_fold ordered (quiet_units features events_by_key)
                      in (\<lparr>fd_units = shown, fd_fold_after = fold_after\<rparr>, engagement'))"

section \<open>Ordering\<close>

lemma first_by_key_Some: "first_by_key us k = Some u \<Longrightarrow> u \<in> set us \<and> unit_key u = k"
  by (induction us) (auto split: if_splits)

lemma first_by_key_None: "k \<noteq> [] \<Longrightarrow> first_by_key us k = None \<longleftrightarrow> k \<notin> unit_key ` set us"
  by (induction us) auto

lemma first_by_key_eq:
  "\<forall>u\<in>set us. unit_key u \<noteq> [] \<Longrightarrow> first_by_key us k = row_find unit_key k us"
  by (induction us) auto

lemma order_loop_eq:
  "distinct ks \<Longrightarrow> set ks \<inter> set seen = {} \<Longrightarrow> order_loop by_key ks seen = List.map_filter by_key ks"
proof (induction ks arbitrary: seen)
  case (Cons k ks)
  then have "order_loop by_key ks seen = List.map_filter by_key ks" "order_loop by_key ks (k # seen) = List.map_filter by_key ks"
    by auto
  then show ?case using Cons.prems by (auto simp: map_filter_simps split: option.splits)
qed (simp add: map_filter_simps)

text \<open>With the features of the very same units the order keeps every first unit that is not suppressed.\<close>

lemma order_by_rank_features:
  assumes "list_all2 (\<lambda>u f. rf_key f = unit_key u \<and> unit_key u \<noteq> []) us fs"
  shows "order_by_rank us (rank fs) = map (\<lambda>k. the (row_find unit_key k us)) (rank fs)"
proof -
  have keys: "map rf_key fs = map unit_key us" and ne: "\<forall>u\<in>set us. unit_key u \<noteq> []"
    using assms by (induction us fs rule: list_all2_induct) auto
  have "row_find unit_key k us \<noteq> None" if "k \<in> set (rank fs)" for k
  proof -
    have "k \<in> rf_key ` set fs" using that row_find_SomeD[of rf_key k fs] by (auto simp: set_rank)
    then show ?thesis using arg_cong[OF keys, of set] by (simp add: row_find_None_iff)
  qed
  then have "List.map_filter (first_by_key us) (rank fs) = map (\<lambda>k. the (row_find unit_key k us)) (rank fs)"
    by (simp add: List.map_filter_def first_by_key_eq[OF ne] comp_def)
  then show ?thesis by (simp add: order_by_rank_def order_loop_eq distinct_rank)
qed

lemma row_find_same_keys:
  assumes "list_all2 (\<lambda>u f. rf_key f = unit_key u \<and> P u f) us fs"
  shows "(row_find rf_key k fs = None \<and> row_find unit_key k us = None) \<or>
    (\<exists>u f. row_find rf_key k fs = Some f \<and> row_find unit_key k us = Some u \<and> P u f)"
  using assms by (induction us fs rule: list_all2_induct) auto

section \<open>What is quiet\<close>

lemma fold_bulk_true:
  "map_of (fold (\<lambda>f q. AList.update (rf_key f) (rf_bulk_mail f) q) fs q) k = Some True \<Longrightarrow>
     map_of q k = Some True \<or> (\<exists>f\<in>set fs. rf_key f = k \<and> rf_bulk_mail f)"
  by (induction fs arbitrary: q) (fastforce simp: map_of_update_alist split: if_splits)+

lemma fold_verdicts_true:
  "map_of (fold (\<lambda>(k, events) quiet. if map_of quiet k = Some True then quiet
            else if quiet_verdicts events then AList.update k True quiet else quiet) ev q) k = Some True \<Longrightarrow>
     map_of q k = Some True \<or> (\<exists>es. (k, es) \<in> set ev \<and> quiet_verdicts es)"
proof (induction ev arbitrary: q)
  case (Cons e ev)
  obtain j es where e: "e = (j, es)" by force
  show ?case using Cons.prems
    by (auto simp: e map_of_update_alist dest!: Cons.IH split: if_splits)
qed simp

lemma quiet_evidence:
  assumes "opt_or (map_of (quiet_units fs ev) k) False"
  shows "(\<exists>f\<in>set fs. rf_key f = k \<and> rf_bulk_mail f) \<or> (\<exists>es. (k, es) \<in> set ev \<and> quiet_verdicts es)"
proof -
  have "map_of (quiet_units fs ev) k = Some True"
    using assms by (cases "map_of (quiet_units fs ev) k") simp_all
  then show ?thesis
    unfolding quiet_units_def using fold_bulk_true[of fs "[]" k] by (auto dest!: fold_verdicts_true)
qed

section \<open>The units that are shown\<close>

lemma attach_frames:
  "list_all2 (\<lambda>u v. vu_frame v = vu_frame u \<and> unit_key v = unit_key u) units (attach_stored_bodies down ws rows units)"
  by (auto simp: attach_stored_bodies_def Let_def list_all2_conv_all_nth split: option.splits)

lemma drop_dismissed_subset: "set (drop_dismissed down ws uid ds ev us) \<subseteq> set us"
  by (auto simp: drop_dismissed_def)

lemma own_family_own: "u \<in> set (own_family_units env) \<Longrightarrow> own_unit u"
  by (auto simp: own_family_units_def Let_def split: option.splits intro: own_units)

lemma perceived_frame_ok: "u \<in> set (fst (perceived_family env)) \<Longrightarrow> frame_ok (vu_frame u)"
  using perceived_unit by (fastforce simp: perceived_family_def stored_perception_units_def Let_def split: if_splits)

lemma list_all2_mem: "list_all2 P xs ys \<Longrightarrow> y \<in> set ys \<Longrightarrow> \<exists>x\<in>set xs. P x y"
  by (induction rule: list_all2_induct) auto

lemma shown_frame_ok: "\<forall>u\<in>set (shown_units env). frame_ok (vu_frame u)"
proof
  fix v assume v: "v \<in> set (shown_units env)"
  let ?b = "fe_build env"
  let ?kept = "drop_dismissed (fe_down env DismissalRead) (bd_workspace_id ?b) (bd_user_id ?b) (fe_dismissals env)
      (snd (perceived_family env)) (own_family_units env @ fst (perceived_family env))"
  have "v \<in> set (attach_stored_bodies (fe_down env BodyRead) (bd_workspace_id ?b) (fe_bodies env) ?kept)"
    using v by (simp add: shown_units_def split_beta Let_def)
  then obtain u where u: "u \<in> set ?kept" "vu_frame v = vu_frame u"
    using list_all2_mem[OF attach_frames] by blast
  then have "u \<in> set (own_family_units env) \<union> set (fst (perceived_family env))"
    using subsetD[OF drop_dismissed_subset u(1)] by simp
  then show "frame_ok (vu_frame v)" using u(2) own_family_own perceived_frame_ok by (auto simp: own_unit_def)
qed

text \<open>The units of the system itself come first and none of them is dropped.\<close>

lemma own_units_shown:
  obtains own rest where "shown_units env = own @ rest" "map vu_frame own = map vu_frame (own_family_units env)"
proof -
  let ?b = "fe_build env"
  let ?per = "perceived_family env"
  let ?drop = "drop_dismissed (fe_down env DismissalRead) (bd_workspace_id ?b) (bd_user_id ?b) (fe_dismissals env) (snd ?per)"
  have "\<forall>u\<in>set (own_family_units env). fm_source (vu_frame u) = OWN_SOURCE"
    using own_family_own by (auto simp: own_unit_def OWN_SOURCE_def)
  then have kept: "?drop (own_family_units env @ fst ?per) = own_family_units env @ ?drop (fst ?per)"
    by (auto simp: drop_dismissed_def filter_id_conv)
  let ?att = "attach_stored_bodies (fe_down env BodyRead) (bd_workspace_id ?b) (fe_bodies env)"
  have s: "shown_units env = ?att (own_family_units env @ ?drop (fst ?per))"
    by (simp add: shown_units_def split_beta Let_def kept)
  obtain own rest where o: "shown_units env = own @ rest"
      "list_all2 (\<lambda>u v. vu_frame v = vu_frame u \<and> unit_key v = unit_key u) (own_family_units env) own"
    using attach_frames[of "own_family_units env @ ?drop (fst ?per)"] unfolding s list_all2_append1 by blast
  from o(2) have "map vu_frame own = map vu_frame (own_family_units env)"
    by (induction rule: list_all2_induct) simp_all
  with o(1) show ?thesis by (rule that)
qed

definition feed_features :: "feed_env \<Rightarrow> engagement_row list \<Rightarrow> rank_features list" where
  "feed_features env engagement =
     fst (build_features (fe_build env) (snd (perceived_family env)) (shown_units env) engagement)"

definition feed_order :: "feed_env \<Rightarrow> engagement_row list \<Rightarrow> view_unit list" where
  "feed_order env engagement = order_by_rank (shown_units env) (rank (feed_features env engagement))"

definition unranked :: "feed_env \<Rightarrow> engagement_row list \<Rightarrow> bool" where
  "unranked env engagement \<longleftrightarrow> fe_rank_down env \<or> feed_order env engagement = [] \<and> shown_units env \<noteq> []"

lemma assemble_feed_cases:
  "fst (assemble_feed env engagement) =
     (if unranked env engagement then \<lparr>fd_units = shown_units env, fd_fold_after = length (shown_units env)\<rparr>
      else let q = quiet_units (feed_features env engagement) (snd (perceived_family env));
               r = partition_for_fold (feed_order env engagement) q
           in \<lparr>fd_units = fst r, fd_fold_after = snd r\<rparr>)"
  by (auto simp: assemble_feed_def unranked_def feed_order_def feed_features_def Let_def split_beta)

lemma feed_features_match:
  "list_all2 (\<lambda>u f. rf_key f = unit_key u \<and> unit_key u \<noteq> []) (shown_units env) (feed_features env engagement)"
  unfolding feed_features_def
  by (rule list.rel_mono_strong[OF build_features_describes[OF shown_frame_ok]])
    (use shown_frame_ok in \<open>auto simp: describes_def unit_key_def frame_ok_def\<close>)

lemma feed_order_eq:
  "feed_order env engagement =
     map (\<lambda>k. the (row_find unit_key k (shown_units env))) (rank (feed_features env engagement))"
  unfolding feed_order_def by (rule order_by_rank_features[OF feed_features_match])

lemma ranked_key:
  assumes "row_find rf_key k (feed_features env engagement) = Some f" "\<not> rf_suppressed f"
  shows "\<exists>v. row_find unit_key k (shown_units env) = Some v \<and> v \<in> set (feed_order env engagement)"
proof -
  have "k \<in> set (rank (feed_features env engagement))" using assms by (simp add: set_rank)
  moreover obtain v where "row_find unit_key k (shown_units env) = Some v"
    using row_find_same_keys[OF feed_features_match, of k env engagement] assms(1) by auto
  ultimately show ?thesis by (force simp: feed_order_eq)
qed

lemma feed_order_subset: "set (feed_order env engagement) \<subseteq> set (shown_units env)"
proof
  fix v assume "v \<in> set (feed_order env engagement)"
  then obtain k where k: "k \<in> set (rank (feed_features env engagement))" "v = the (row_find unit_key k (shown_units env))"
    by (auto simp: feed_order_eq)
  then obtain f where "row_find rf_key k (feed_features env engagement) = Some f" "\<not> rf_suppressed f" by (auto simp: set_rank)
  then show "v \<in> set (shown_units env)" using ranked_key k(2) by (metis option.sel row_find_SomeD)
qed

lemma feature_of_unit:
  assumes "u \<in> set (shown_units env)"
  obtains f where "row_find rf_key (unit_key u) (feed_features env engagement) = Some f"
    "f \<in> set (feed_features env engagement)" "rf_key f = unit_key u"
proof -
  have "row_find unit_key (unit_key u) (shown_units env) \<noteq> None" using assms by (simp add: row_find_None_iff)
  then obtain f where "row_find rf_key (unit_key u) (feed_features env engagement) = Some f"
    using row_find_same_keys[OF feed_features_match, of "unit_key u" env engagement] by auto
  then show ?thesis using that row_find_SomeD by metis
qed

section \<open>Properties\<close>

text \<open>C32. The feed folds, it does not drop: whatever fails, it shows units that were composed and nothing else; every
  unit that was not dismissed is in it by its handle, unless its kind is suppressed by the engagement history; and what
  lies after the fold is there on evidence, bulk mail by its headers or a thing none of whose events triage found
  actionable.\<close>

theorem feed_folds_but_never_drops:
  "let fd = fst (assemble_feed env engagement); us = shown_units env; fs = feed_features env engagement
   in set (fd_units fd) \<subseteq> set us \<and> fd_fold_after fd \<le> length (fd_units fd) \<and>
      (\<forall>u\<in>set us. unit_key u \<in> unit_key ` set (fd_units fd) \<or> (\<exists>f\<in>set fs. rf_key f = unit_key u \<and> rf_suppressed f)) \<and>
      (\<forall>v\<in>set (drop (fd_fold_after fd) (fd_units fd)).
         (\<exists>f\<in>set fs. rf_key f = unit_key v \<and> rf_bulk_mail f) \<or>
         (\<exists>es. (unit_key v, es) \<in> set (snd (perceived_family env)) \<and> quiet_verdicts es))"
proof (cases "unranked env engagement")
  case True
  then show ?thesis by (simp add: assemble_feed_cases Let_def)
next
  case False
  let ?q = "quiet_units (feed_features env engagement) (snd (perceived_family env))"
  let ?quiet = "\<lambda>u. opt_or (map_of ?q (unit_key u)) False"
  have fd: "fst (assemble_feed env engagement) =
      \<lparr>fd_units = filter (\<lambda>u. \<not> ?quiet u) (feed_order env engagement) @ filter ?quiet (feed_order env engagement),
       fd_fold_after = length (filter (\<lambda>u. \<not> ?quiet u) (feed_order env engagement))\<rparr>"
    using False by (simp add: assemble_feed_cases Let_def partition_for_fold_def)
  have shown: "unit_key u \<in> unit_key ` set (feed_order env engagement) \<or>
      (\<exists>f\<in>set (feed_features env engagement). rf_key f = unit_key u \<and> rf_suppressed f)" if u: "u \<in> set (shown_units env)" for u
  proof -
    obtain f where f: "row_find rf_key (unit_key u) (feed_features env engagement) = Some f"
      "f \<in> set (feed_features env engagement)" "rf_key f = unit_key u" by (rule feature_of_unit[OF u])
    show ?thesis
    proof (cases "rf_suppressed f")
      case False
      then obtain v where "row_find unit_key (unit_key u) (shown_units env) = Some v" "v \<in> set (feed_order env engagement)"
        using ranked_key[OF f(1)] by blast
      then show ?thesis using row_find_SomeD[of unit_key "unit_key u"] by (metis imageI)
    qed (use f in blast)
  qed
  have all: "set (filter (\<lambda>u. \<not> ?quiet u) (feed_order env engagement) @ filter ?quiet (feed_order env engagement))
      = set (feed_order env engagement)" by auto
  have tail: "drop (length xs) (xs @ ys) = ys" for xs ys :: "view_unit list" by simp
  have evidence: "(\<exists>f\<in>set (feed_features env engagement). rf_key f = unit_key v \<and> rf_bulk_mail f) \<or>
      (\<exists>es. (unit_key v, es) \<in> set (snd (perceived_family env)) \<and> quiet_verdicts es)"
    if "v \<in> set (filter ?quiet (feed_order env engagement))" for v
    using that quiet_evidence by simp
  show ?thesis
    unfolding Let_def fd feed.select_convs all tail
    using feed_order_subset[of env engagement] shown evidence by (intro conjI ballI) (simp_all del: set_filter)
qed

lemma key_of_source:
  assumes "frame_key ''muldro'' et eid = frame_key source et' eid'" "CHR '':'' \<notin> set source"
  shows "source = ''muldro''"
proof -
  have "partition_at CHR '':'' (frame_key source et' eid') = Some (source, et' @ '':'' @ eid')"
    unfolding frame_key_def using partition_at_append[OF assms(2)] by simp
  moreover have "partition_at CHR '':'' (frame_key ''muldro'' et eid) = Some (''muldro'', et @ '':'' @ eid)"
    unfolding frame_key_def using partition_at_append[of "CHR '':''" "''muldro''"] by simp
  ultimately show ?thesis using assms(1) by simp
qed

definition foreign :: "event \<Rightarrow> bool" where
  "foreign e \<longleftrightarrow> ne_source e \<noteq> ''muldro'' \<and> CHR '':'' \<notin> set (ne_source e)"

lemma group_key_from_rows:
  assumes "k \<in> fst ` set (map (\<lambda>g. (eg_key g, eg_events g)) (group_events_by_key rows))"
  shows "k \<in> event_key ` set rows"
  using assms by (auto simp: group_eq)

lemma take_sort_filter_subset: "set (take n (sort_key h (filter P xs))) \<subseteq> set xs"
  using set_take_subset[of n "sort_key h (filter P xs)"] by auto

lemma stored_rows:
  "\<exists>rows. snd (stored_perception_units down ws uid now store) = map (\<lambda>g. (eg_key g, eg_events g)) (group_events_by_key rows) \<and>
     set rows \<subseteq> set store"
proof (cases down)
  case True
  then show ?thesis
    by (intro exI[of _ "[]"]) (simp add: stored_perception_units_def group_events_by_key_def buckets_of_def)
next
  case False
  show ?thesis
    unfolding stored_perception_units_def Let_def if_not_P[OF False] snd_conv
    by (intro exI conjI, rule refl, rule take_sort_filter_subset)
qed

lemma perceived_key_from_store:
  assumes "k \<in> fst ` set (snd (perceived_family env))"
  shows "k \<in> event_key ` set (bd_events (fe_build env))"
proof -
  obtain rows where "snd (perceived_family env) = map (\<lambda>g. (eg_key g, eg_events g)) (group_events_by_key rows)"
    "set rows \<subseteq> set (bd_events (fe_build env))"
    unfolding perceived_family_def Let_def
    by (rule exE[OF stored_rows[of "fe_down env PerceptionFamily" "bd_workspace_id (fe_build env)" "bd_user_id (fe_build env)"
            "bd_now (fe_build env)" "bd_events (fe_build env)"]]) blast
  moreover then have "k \<in> event_key ` set rows" using assms group_key_from_rows[of k rows] by (simp only:)
  ultimately show ?thesis by blast
qed

lemma own_key_has_no_events:
  assumes "u \<in> set (own_family_units env)" "list_all foreign (bd_events (fe_build env))"
  shows "unit_key u \<notin> fst ` set (snd (perceived_family env))"
proof
  assume "unit_key u \<in> fst ` set (snd (perceived_family env))"
  then obtain e where e: "e \<in> set (bd_events (fe_build env))" "unit_key u = event_key e"
    using perceived_key_from_store by blast
  moreover obtain et eid where "unit_key u = frame_key ''muldro'' et eid"
    using own_family_own[OF assms(1)] by (auto simp: own_unit_def unit_key_def)
  moreover have "foreign e" using assms(2) e(1) by (simp add: list_all_iff)
  ultimately show False using key_of_source[of et eid "ne_source e" "ne_entity_type e" "ne_entity_id e"] by (simp add: foreign_def event_key_def)
qed

text \<open>C33. The system's own work is never buried: while no stored event claims to come from the system itself, every unit
  of its runs, conclusions, briefing, review queue and source health is above the fold by its handle, whatever the
  founder dismissed, the ranking says or fails. In particular, when a decision waits and its queue can be read, the card
  that carries the review affordance and asks for the founder is shown above the fold.\<close>

theorem own_work_is_above_the_fold:
  assumes "list_all foreign (bd_events (fe_build env))"
  shows "let fd = fst (assemble_feed env engagement); above = set (take (fd_fold_after fd) (fd_units fd))
   in unit_key ` set (own_family_units env) \<subseteq> unit_key ` above \<and>
      (\<not> fe_down env PreparedFamily \<longrightarrow>
       (\<exists>(t, ap)\<in>set (fe_approvals env). queued_approval (bd_workspace_id (fe_build env)) (bd_user_id (fe_build env)) ap) \<longrightarrow>
       (\<exists>v\<in>above. unit_key v = frame_key ''muldro'' ''prepared_work'' (bd_workspace_id (fe_build env)) \<and>
          fm_status (vu_frame v) = NeedsYou \<and> fm_affordances (vu_frame v) = [review_affordance]))"
proof -
  let ?fd = "fst (assemble_feed env engagement)"
  let ?above = "set (take (fd_fold_after ?fd) (fd_units ?fd))"
  obtain own rest where o: "shown_units env = own @ rest" "map vu_frame own = map vu_frame (own_family_units env)"
    by (rule own_units_shown)
  have "map unit_key us = map fm_key (map vu_frame us)" for us by (induction us) (simp_all add: unit_key_def)
  then have keys: "map unit_key own = map unit_key (own_family_units env)" by (simp only: o(2))
  have above: "\<exists>v. row_find unit_key (unit_key u) (shown_units env) = Some v \<and> v \<in> ?above"
    if u: "u \<in> set (own_family_units env)" for u
  proof -
    obtain w where w: "w \<in> set own" "unit_key w = unit_key u"
      using u arg_cong[OF keys, of set] by (metis (no_types, lifting) image_iff list.set_map)
    then have shown: "w \<in> set (shown_units env)" using o(1) by simp
    obtain f where f: "row_find rf_key (unit_key w) (feed_features env engagement) = Some f"
      "f \<in> set (feed_features env engagement)" "rf_key f = unit_key w" by (rule feature_of_unit[OF shown])
    have none: "unit_key w \<notin> fst ` set (snd (perceived_family env))" using own_key_has_no_events[OF u assms] w(2) by simp
    have clean: "\<not> rf_suppressed g \<and> \<not> rf_bulk_mail g" if "g \<in> set (feed_features env engagement)" "rf_key g = unit_key w" for g
      using build_features_no_events[OF shown_frame_ok that(1)[unfolded feed_features_def]] that(2) none
      by (simp add: map_of_eq_None_iff)
    obtain v where v: "row_find unit_key (unit_key w) (shown_units env) = Some v" "v \<in> set (feed_order env engagement)"
      using ranked_key[OF f(1)] clean[OF f(2,3)] by blast
    have vk: "unit_key v = unit_key w" "v \<in> set (shown_units env)" using row_find_SomeD[OF v(1)] by simp_all
    have "\<not> opt_or (map_of (quiet_units (feed_features env engagement) (snd (perceived_family env))) (unit_key v)) False"
      using quiet_evidence clean none unfolding vk(1) by force
    then have "v \<in> ?above" using v(2) vk(2) by (simp add: assemble_feed_cases Let_def partition_for_fold_def)
    then show ?thesis using v(1) w(2) by auto
  qed
  have "unit_key ` set (own_family_units env) \<subseteq> unit_key ` ?above"
  proof
    fix k assume "k \<in> unit_key ` set (own_family_units env)"
    then obtain u where u: "u \<in> set (own_family_units env)" "k = unit_key u" by blast
    obtain v where "row_find unit_key (unit_key u) (shown_units env) = Some v" "v \<in> ?above" using above[OF u(1)] by blast
    then show "k \<in> unit_key ` ?above" using u(2) row_find_SomeD[of unit_key "unit_key u"] by (metis imageI)
  qed
  moreover have "\<exists>v\<in>?above. unit_key v = frame_key ''muldro'' ''prepared_work'' (bd_workspace_id (fe_build env)) \<and>
          fm_status (vu_frame v) = NeedsYou \<and> fm_affordances (vu_frame v) = [review_affordance]"
    if up: "\<not> fe_down env PreparedFamily"
      "\<exists>(t, ap)\<in>set (fe_approvals env). queued_approval (bd_workspace_id (fe_build env)) (bd_user_id (fe_build env)) ap"
  proof -
    let ?b = "fe_build env"
    obtain u where u: "prepared_work_unit False (bd_workspace_id ?b) (bd_user_id ?b) (bd_now ?b) (fe_approvals env) = Some u"
      "unit_key u = frame_key ''muldro'' ''prepared_work'' (bd_workspace_id ?b)" "fm_status (vu_frame u) = NeedsYou"
      "fm_affordances (vu_frame u) = [review_affordance]"
      using waiting_decision_has_its_card[of "bd_workspace_id ?b" "bd_user_id ?b" "bd_now ?b" "fe_approvals env"] up(2)
      by (auto simp: unit_key_def)
    then obtain us where us: "own_family_units env = u # us" using up(1) by (simp add: own_family_units_def Let_def)
    then obtain v vs where v: "own = v # vs" "vu_frame v = vu_frame u" using o(2) by (cases own) auto
    then have "row_find unit_key (unit_key u) (shown_units env) = Some v" using o(1) by (simp add: unit_key_def)
    then have "v \<in> ?above" using above[of u] us by auto
    then show ?thesis using u v(2) by (intro bexI[of _ v]) (simp_all add: unit_key_def)
  qed
  ultimately show ?thesis unfolding Let_def by blast
qed

section \<open>Applied\<close>

text \<open>One decision waits, one message was perceived, and the run table cannot be read.\<close>

definition waiting_approval :: approval where
  "waiting_approval = the (create_filter_proposal (\<lambda>_. ''t'') (\<lambda>_. ''s'') ''1'' ''ws'' ''u''
     [\<lparr>sc_source = ''gmail'', sc_address = ''a@b'', sc_event_count = 5, sc_sample_subject = ''Hi''\<rparr>])"

definition sample_feed_env :: feed_env where
  "sample_feed_env = \<lparr>fe_build = sample_build_env\<lparr>bd_events := [sample_event]\<rparr>, fe_down = (\<lambda>f. f = RunFamily), fe_rank_down = False,
     fe_approvals = [(0, waiting_approval)], fe_briefings = [], fe_runs = [], fe_steps = [], fe_states = [],
     fe_dismissals = [], fe_bodies = []\<rparr>"

lemma waiting_is_queued: "queued_approval ''ws'' ''u'' waiting_approval"
  by (simp add: queued_approval_def waiting_approval_def create_filter_proposal_def dict_or_empty_def)

theorem own_work_is_above_the_fold_witness:
  "\<exists>v\<in>set (fd_units (fst (assemble_feed sample_feed_env []))). fm_affordances (vu_frame v) = [review_affordance]"
proof -
  have "list_all foreign (bd_events (fe_build sample_feed_env))"
    by (simp add: sample_feed_env_def foreign_def sample_event_def)
  from own_work_is_above_the_fold[OF this, of "[]"] show ?thesis
    using waiting_is_queued
    by (auto simp: Let_def sample_feed_env_def sample_build_env_def dest: in_set_takeD)
qed

theorem feed_folds_but_never_drops_witness:
  "fd_fold_after (fst (assemble_feed sample_feed_env [])) \<le> length (fd_units (fst (assemble_feed sample_feed_env []))) \<and>
   set (fd_units (fst (assemble_feed sample_feed_env []))) \<subseteq> set (shown_units sample_feed_env)"
  using feed_folds_but_never_drops[of sample_feed_env "[]"] by (simp add: Let_def)

end
