(* ===== verification/Tool_Gates.thy ===== *)
theory Tool_Gates
  imports Prepared Run_World Text_Patterns
begin

text \<open>
  The interceptors around a tool call of a deep-runtime turn: \<open>deep_runtime/confirmation.py\<close>,
  \<open>deep_runtime/authorization.py\<close> and \<open>deep_runtime/middleware/\<close> (\<open>capability_scope\<close>, \<open>governor_audit\<close>,
  \<open>unavailable_server\<close>, \<open>trust_gate\<close>, \<open>permission_gate\<close>, \<open>write_lock\<close>, \<open>readback\<close>, \<open>repair_cap\<close>,
  \<open>muldro_tool_dispatcher\<close>), with the persistence of an approval (\<open>approval_persistence\<close>). An interceptor
  takes the next handler and a call, as \<open>wrap_tool_call\<close> has it.

  The registry, the risk assessment, the tools, Redis and the clock are parameters that may answer differently each
  time they are asked: they get the number of questions asked so far. \<open>interrupt\<close> takes the next resume value of the
  turn if there is one and suspends otherwise, as LangGraph documents it. A message's text is kept with its origin:
  \<open>json.loads\<close> gives back what \<open>json.dumps\<close> wrote, and refuses such a text with a sentence behind it.
\<close>

section \<open>Messages\<close>

datatype content = Dumped json | Verbatim string | Followed json string

fun append_text :: "content \<Rightarrow> string \<Rightarrow> content" where
  "append_text (Dumped v) s = Followed v s"
| "append_text (Verbatim a) s = Verbatim (a @ s)"
| "append_text (Followed v a) s = Followed v (a @ s)"

fun loads_content :: "(string \<Rightarrow> json option) \<Rightarrow> content \<Rightarrow> json option" where
  "loads_content loads (Dumped v) = Some v"
| "loads_content loads (Verbatim s) = loads s"
| "loads_content loads (Followed v s) = (if list_all is_white s then Some v else None)"

fun content_text :: "(json \<Rightarrow> string) \<Rightarrow> content \<Rightarrow> string" where
  "content_text dumps (Dumped v) = dumps v"
| "content_text dumps (Verbatim s) = s"
| "content_text dumps (Followed v s) = dumps v @ s"

record tool_message =
  tm_content :: content
  tm_tool_call_id :: string
  tm_name :: "string option"
  tm_status :: string

definition is_blocked_result :: "tool_message \<Rightarrow> bool" where
  "is_blocked_result m \<longleftrightarrow> tm_status m = ''error''"

record tool_def =
  tf_capability :: "string option"
  tf_enabled :: bool
  tf_risk_level :: string
  tf_server :: "string option"

record tool_call =
  cl_name :: string
  cl_id :: string
  cl_args :: jdict

section \<open>The turn\<close>

text \<open>What the factories close over, for one turn of one agent; the scope is given sorted.\<close>

record deep_turn =
  dt_agent_name :: string
  dt_scope :: "string list"
  dt_source :: string
  dt_workspace_id :: string
  dt_user_id :: string
  dt_thread_id :: string
  dt_permission_mode :: "string option"
  dt_presence :: string
  dt_pre_approved :: "string list"
  dt_context_block :: string
  dt_user_message :: string
  dt_require_redis :: bool
  dt_readback :: bool

text \<open>An exception: a suspension with its payload, the contended write lock, anything else.\<close>

datatype tool_exn = Interrupted jdict | Contended | Raised string

text \<open>\<open>tv_lock\<close>: whether the lock of a key is obtained. \<open>tv_rival\<close>: the row another request commits for a tool call
  between our SELECT and our commit. \<open>tv_read\<close> is the tool executor asked for a read.\<close>

record turn_env =
  tv_registry :: "nat \<Rightarrow> string \<Rightarrow> unit + tool_def option"
  tv_risk :: "nat \<Rightarrow> string \<Rightarrow> jdict \<Rightarrow> unit + risk_assessment"
  tv_execute :: "nat \<Rightarrow> string \<Rightarrow> jdict \<Rightarrow> tool_exn + json"
  tv_builtin :: "nat \<Rightarrow> tool_call \<Rightarrow> tool_exn + tool_message"
  tv_redis :: bool
  tv_lock :: "nat \<Rightarrow> string \<Rightarrow> tool_exn + bool"
  tv_tools :: "nat \<Rightarrow> unit + (string \<times> string option) list"
  tv_read :: "nat \<Rightarrow> string \<Rightarrow> jdict \<Rightarrow> unit + json"
  tv_rival :: "string \<Rightarrow> approval option"
  tv_dumps :: "json \<Rightarrow> string"
  tv_loads :: "string \<Rightarrow> json option"
  tv_str :: "json \<Rightarrow> string"
  tv_now :: instant
  tv_ulid :: "nat \<Rightarrow> string"
  tv_trust_write_down :: bool

text \<open>The tables, the dictionaries and sets the closures hold for the turn, and what reached the tools.\<close>

record chain_state =
  kn_asked :: nat
  kn_cache :: "(string \<times> bool \<times> tool_def option) list"
  kn_down_servers :: "string list"
  kn_down_providers :: "string list"
  kn_failures :: "(string \<times> nat) list"
  kn_metrics :: "(string \<times> string) list"
  kn_audit :: "(string \<times> string) list"
  kn_approvals :: "approval list"
  kn_trust :: trust_db
  kn_resume :: "json list"
  kn_calls :: "(string \<times> jdict) list"

type_synonym 'a chain = "(chain_state, tool_exn, 'a) engine"
type_synonym handler = "tool_call \<Rightarrow> tool_message chain"
type_synonym interceptor = "handler \<Rightarrow> handler"

definition ask :: "(nat \<Rightarrow> 'a) \<Rightarrow> 'a chain" where
  "ask f = (\<lambda>s. (Inr (f (kn_asked s)), s\<lparr>kn_asked := Suc (kn_asked s)\<rparr>))"

definition interrupt :: "jdict \<Rightarrow> json chain" where
  "interrupt payload =
     andthen get (\<lambda>s. case kn_resume s of
       [] \<Rightarrow> raise (Interrupted payload)
     | v # vs \<Rightarrow> andthen (modify (\<lambda>s. s\<lparr>kn_resume := vs\<rparr>)) (\<lambda>_. ret v))"

definition is_builtin :: "tool_call \<Rightarrow> bool" where
  "is_builtin c \<longleftrightarrow> cl_name c \<in> set DEEPAGENTS_BUILTIN_NAMES"

definition error_message :: "tool_call \<Rightarrow> jdict \<Rightarrow> tool_message" where
  "error_message c body =
     \<lparr>tm_content = Dumped (JObj body), tm_tool_call_id = cl_id c, tm_name = Some (cl_name c), tm_status = ''error''\<rparr>"

section \<open>Presence and permission\<close>

definition KNOWN_MODES :: "string list" where
  "KNOWN_MODES = [''bypass'', ''ask'', ''auto'']"

definition resolve_effective_permission_mode :: "string option \<Rightarrow> string \<Rightarrow> bool \<Rightarrow> string" where
  "resolve_effective_permission_mode permission_mode presence bypass_entitled =
     (case permission_mode of
        None \<Rightarrow> ''ask''
      | Some m \<Rightarrow>
          if m \<notin> set KNOWN_MODES then ''ask''
          else if m \<noteq> ''bypass'' then m
          else if presence \<noteq> ''present'' then ''auto''
          else if \<not> bypass_entitled then ''auto''
          else ''bypass'')"

definition resolve_effective_presence :: "string \<Rightarrow> bool \<Rightarrow> string" where
  "resolve_effective_presence presence durable_checkpointer =
     (if presence = ''present'' \<and> durable_checkpointer then ''present'' else ''absent'')"

definition prepared_tool_message :: "string \<Rightarrow> string \<Rightarrow> string \<Rightarrow> string \<Rightarrow> tool_message" where
  "prepared_tool_message name tool_call_id approval_id capability =
     \<lparr>tm_content = Dumped (JObj
        [(''prepared'', JBool True), (''approval_id'', JStr approval_id), (''capability'', JStr capability),
         (''detail'', JStr (''Prepared for review and NOT executed. It is waiting in the founder's '' @
            ''prepared-work queue; approving it there runs exactly this action.''))]),
      tm_tool_call_id = tool_call_id, tm_name = Some name, tm_status = ''success''\<rparr>"

definition is_gated_source :: "string \<Rightarrow> bool" where
  "is_gated_source source \<longleftrightarrow> source \<noteq> ''direct_user_request''"

definition EXTERNAL_BLAST_RADII :: "string list" where
  "EXTERNAL_BLAST_RADII = [''external_single'', ''external_multiple'', ''public'']"

definition permission_should_interrupt :: "string \<Rightarrow> risk_assessment option \<Rightarrow> bool" where
  "permission_should_interrupt mode assessment =
     (if mode = ''bypass'' then False
      else if mode = ''ask'' then True
      else if mode = ''auto'' then
        (case assessment of
           None \<Rightarrow> True
         | Some a \<Rightarrow> \<not> ra_reversible a \<or> ra_blast_radius a \<in> set EXTERNAL_BLAST_RADII \<or> ra_risk_level a = ''high'')
      else True)"

fun is_approved :: "json \<Rightarrow> bool" where
  "is_approved (JStr s) = (s = ''approve'')"
| "is_approved (JObj d) = (jget d ''decision'' = JStr ''approve'')"
| "is_approved _ = False"

section \<open>The registry lookups of a turn\<close>

definition resolve_tool_def :: "turn_env \<Rightarrow> string \<Rightarrow> (bool \<times> tool_def option) chain" where
  "resolve_tool_def e name =
     andthen (ask (\<lambda>n. tv_registry e n name)) (\<lambda>r. ret (case r of Inl _ \<Rightarrow> (False, None) | Inr t \<Rightarrow> (True, t)))"

text \<open>The memoised lookup shared by three of the interceptors; an error is memoised too.\<close>

definition resolve_shared :: "turn_env \<Rightarrow> string \<Rightarrow> (bool \<times> tool_def option) chain" where
  "resolve_shared e name =
     andthen get (\<lambda>s. case map_of (kn_cache s) name of
       Some r \<Rightarrow> ret r
     | None \<Rightarrow>
         andthen (resolve_tool_def e name) (\<lambda>r.
         andthen (modify (\<lambda>s. s\<lparr>kn_cache := (name, r) # kn_cache s\<rparr>)) (\<lambda>_. ret r)))"

definition capability_of :: "tool_def option \<Rightarrow> string option" where
  "capability_of t = (case t of None \<Rightarrow> None | Some d \<Rightarrow> tf_capability d)"

definition gate_cap :: "turn_env \<Rightarrow> string \<Rightarrow> (bool \<times> string option) chain" where
  "gate_cap e name = andthen (resolve_shared e name) (\<lambda>(ok, t). ret (ok, capability_of t))"

definition resolve_cap :: "turn_env \<Rightarrow> string \<Rightarrow> string option chain" where
  "resolve_cap e name = andthen (resolve_shared e name) (\<lambda>(ok, t). ret (if ok then capability_of t else None))"

definition assess_call_risk :: "turn_env \<Rightarrow> string \<Rightarrow> jdict \<Rightarrow> risk_assessment chain" where
  "assess_call_risk e capability args =
     andthen (ask (\<lambda>n. tv_risk e n capability args)) (\<lambda>r. ret (case r of
       Inr a \<Rightarrow> a
     | Inl _ \<Rightarrow> \<lparr>ra_risk_level = ''high'',
                 ra_reasoning = ''risk assessment unavailable '' @ em_dash @ '' failing closed to high'',
                 ra_reversible = False, ra_blast_radius = ''self''\<rparr>))"

text \<open>The writes neither gate asks about: the internal system actions; and what is not a write.\<close>

definition never_gated :: "string option \<Rightarrow> bool" where
  "never_gated capability \<longleftrightarrow>
     opt_or capability [] \<in> set SYSTEM_ACTION_CAPABILITIES \<or> opt_or capability [] = []
     \<or> is_read_only_capability (opt_or capability [])"

section \<open>Scope, audit and the breaker of servers that are down\<close>

definition is_in_scope :: "turn_env \<Rightarrow> deep_turn \<Rightarrow> string \<Rightarrow> bool chain" where
  "is_in_scope e t tool_name =
     (if dt_scope t = [] then ret False
      else andthen (resolve_tool_def e tool_name) (\<lambda>(ok, tool).
        ret (if \<not> ok then False
             else case tool of
               None \<Rightarrow> False
             | Some d \<Rightarrow> opt_or (tf_capability d) [] \<noteq> [] \<and> opt_or (tf_capability d) [] \<in> set (dt_scope t))))"

definition capability_scope :: "turn_env \<Rightarrow> deep_turn \<Rightarrow> interceptor" where
  "capability_scope e t h c =
     (if is_builtin c then h c
      else andthen (is_in_scope e t (cl_name c)) (\<lambda>ok.
        if ok then h c
        else ret \<lparr>tm_content = Dumped (JObj [(''error'', JStr
                    (''Agent '' @ quoted (dt_agent_name t) @ '' is not permitted to call '' @ quoted (cl_name c) @
                     '' '' @ em_dash @ '' capability is outside its scope.''))]),
                  tm_tool_call_id = cl_id c, tm_name = None, tm_status = ''error''\<rparr>))"

definition governor_audit :: "turn_env \<Rightarrow> interceptor" where
  "governor_audit e h c =
     (if is_builtin c then h c
      else andthen (resolve_shared e (cl_name c)) (\<lambda>(_, tool).
        if (case tool of None \<Rightarrow> False | Some d \<Rightarrow> \<not> tf_enabled d) then
          ret (error_message c [(''error'', JStr (''Tool '' @ quoted (cl_name c) @ '' is blocked by policy'')), (''blocked'', JBool True)])
        else
          andthen (modify (\<lambda>s. s\<lparr>kn_audit := kn_audit s @
            [(cl_name c, case tool of None \<Rightarrow> ''low'' | Some d \<Rightarrow> tf_risk_level d)]\<rparr>)) (\<lambda>_.
          h c)))"

definition SERVER_NAME_FRAGMENTS :: "(string list \<times> string) list" where
  "SERVER_NAME_FRAGMENTS =
     [([''google'', ''gmail'', ''calendar''], ''google''), ([''github''], ''github''), ([''slack''], ''slack''),
      ([''notion''], ''notion''), ([''jira'', ''atlassian'', ''confluence''], ''atlassian'')]"

definition provider_for_server :: "string \<Rightarrow> string" where
  "provider_for_server server_name =
     (let name = map (\<lambda>ch. if ch = CHR ''-'' then CHR ''_'' else ch) (map lower server_name)
      in case filter (\<lambda>(fragments, _). list_ex (\<lambda>f. contains f name) fragments) SERVER_NAME_FRAGMENTS of
           [] \<Rightarrow> server_name
         | (_, provider) # _ \<Rightarrow> provider)"

definition UNAVAILABLE_STEER :: string where
  "UNAVAILABLE_STEER = '' This integration needs re-authorization and cannot be used in this session. ''
     @ ''Do not retry its tools; tell the user to reconnect it.''"

definition BRIDGE_NOT_INIT_STEER :: string where
  "BRIDGE_NOT_INIT_STEER = '' This integration is unavailable in this session. ''
     @ ''Do not retry its tools; tell the user to reconnect it.''"

text \<open>\<open>_payload\<close>: the texts a chain produces are strings, never a dictionary or a list of blocks.\<close>

definition message_payload :: "turn_env \<Rightarrow> tool_message \<Rightarrow> jdict option" where
  "message_payload e m = (case loads_content (tv_loads e) (tm_content m) of Some (JObj d) \<Rightarrow> Some d | _ \<Rightarrow> None)"

definition str_of :: "turn_env \<Rightarrow> json \<Rightarrow> string" where
  "str_of e v = (case v of JStr s \<Rightarrow> s | _ \<Rightarrow> tv_str e v)"

definition auth_required :: "jdict \<Rightarrow> bool" where
  "auth_required d \<longleftrightarrow> jget d ''error_code'' = JStr ''auth_required''"

definition unavailable_provider :: "turn_env \<Rightarrow> jdict option \<Rightarrow> string option" where
  "unavailable_provider e payload =
     (case payload of
        None \<Rightarrow> None
      | Some d \<Rightarrow>
          if \<not> auth_required d then None
          else if truthy (jget d ''provider'') then Some (str_of e (jget d ''provider''))
          else if truthy (jget d ''server'') then Some (provider_for_server (str_of e (jget d ''server'')))
          else None)"

definition unavailable_server_of :: "turn_env \<Rightarrow> jdict option \<Rightarrow> string option" where
  "unavailable_server_of e payload =
     (case payload of
        None \<Rightarrow> None
      | Some d \<Rightarrow> if auth_required d \<and> truthy (jget d ''server'') then Some (str_of e (jget d ''server'')) else None)"

text \<open>The breaker's own lookup is not guarded: what the registry raises ends the call.\<close>

definition server_for :: "turn_env \<Rightarrow> string \<Rightarrow> string option chain" where
  "server_for e tool_name =
     andthen (ask (\<lambda>n. tv_registry e n tool_name)) (\<lambda>r. case r of
       Inl _ \<Rightarrow> raise (Raised ''registry'')
     | Inr None \<Rightarrow> ret None
     | Inr (Some d) \<Rightarrow> ret (tf_server d))"

definition mark_down :: "string option \<Rightarrow> string option \<Rightarrow> chain_state \<Rightarrow> chain_state" where
  "mark_down server provider s =
     s\<lparr>kn_down_servers := (case server of None \<Rightarrow> kn_down_servers s | Some x \<Rightarrow> List.insert x (kn_down_servers s)),
       kn_down_providers := (case provider of None \<Rightarrow> kn_down_providers s | Some x \<Rightarrow> List.insert x (kn_down_providers s))\<rparr>"

definition cached_unavailable :: "tool_call \<Rightarrow> string \<Rightarrow> tool_message" where
  "cached_unavailable c down_label =
     \<lparr>tm_content = Dumped (JObj
        [(''status'', JStr ''error''), (''error_code'', JStr ''auth_required''),
         (''error'', JStr (''Integration '' @ quoted down_label @ '' is unavailable this session (needs re-authorization).''
            @ UNAVAILABLE_STEER))]),
      tm_tool_call_id = cl_id c, tm_name = None, tm_status = ''error''\<rparr>"

definition steered :: "tool_message \<Rightarrow> string \<Rightarrow> tool_message" where
  "steered m suffix = m\<lparr>tm_content := append_text (tm_content m) suffix\<rparr>"

definition after_call :: "turn_env \<Rightarrow> tool_message \<Rightarrow> tool_message chain" where
  "after_call e result =
     (let payload = message_payload e result; provider = unavailable_provider e payload; server = unavailable_server_of e payload
      in if provider \<noteq> None \<or> server \<noteq> None then
           andthen (modify (mark_down server provider)) (\<lambda>_. ret (steered result UNAVAILABLE_STEER))
         else if (case payload of None \<Rightarrow> False | Some d \<Rightarrow> jget d ''error'' = JStr ''MCP bridge not initialized'') then
           ret (steered result BRIDGE_NOT_INIT_STEER)
         else ret result)"

definition unavailable_server :: "turn_env \<Rightarrow> interceptor" where
  "unavailable_server e h c =
     (if is_builtin c then h c
      else
        andthen (server_for e (cl_name c)) (\<lambda>tool_server.
        andthen get (\<lambda>s.
          let tool_provider = provider_for_server (cl_name c);
              server_down = (case tool_server of None \<Rightarrow> False | Some x \<Rightarrow> x \<in> set (kn_down_servers s));
              provider_down = tool_provider \<in> set (kn_down_providers s)
          in if server_down \<or> provider_down then
               ret (cached_unavailable c (if server_down then opt_or tool_server [] else tool_provider))
             else andthen (h c) (after_call e))))"

section \<open>What a gate persists\<close>

type_synonym approval_key = "string \<times> json \<times> json"

definition gate_key :: "approval \<Rightarrow> approval_key" where
  "gate_key ap = (ap_workspace_id ap, ap_thread_id ap, ap_tool_call_id ap)"

definition call_key :: "deep_turn \<Rightarrow> tool_call \<Rightarrow> approval_key" where
  "call_key t c = (dt_workspace_id t, JStr (dt_thread_id t), JStr (cl_id c))"

definition find_existing_approval :: "deep_turn \<Rightarrow> tool_call \<Rightarrow> approval list \<Rightarrow> approval option" where
  "find_existing_approval t c rows = row_find gate_key (call_key t c) rows"

text \<open>What is asked of \<open>create_approval\<close> for one call.\<close>

record approval_draft =
  dr_capability :: string
  dr_summary :: string
  dr_risk_level :: string
  dr_refs :: jdict
  dr_type :: "string option"
  dr_expires_at :: "instant option"

text \<open>The commit. \<open>trust\<close> is what the transaction has changed so far; a lost race (the unique index) rolls it back with
  the insert, and the winner's row is read again.\<close>

definition get_or_create_approval ::
  "turn_env \<Rightarrow> deep_turn \<Rightarrow> tool_call \<Rightarrow> approval_draft \<Rightarrow> trust_db \<Rightarrow> string chain" where
  "get_or_create_approval e t c draft trust =
     andthen get (\<lambda>s. case find_existing_approval t c (kn_approvals s) of
       Some ap \<Rightarrow> ret (ap_approval_id ap)
     | None \<Rightarrow>
         (case create_approval (tv_now e) (tv_ulid e (length (kn_approvals s))) (dt_user_id t) (dt_workspace_id t)
                 (opt_or (dr_type draft) (''tool:'' @ cl_name c)) (''Approve: '' @ dr_capability draft) (Some (dr_summary draft))
                 (dr_risk_level draft) [] None None (dt_user_id t) (Some (dr_refs draft)) (dr_expires_at draft) (kn_approvals s) of
            Inl err \<Rightarrow> raise (Raised err)
          | Inr (ap, rows) \<Rightarrow>
              (case find_existing_approval t c (case tv_rival e (cl_id c) of None \<Rightarrow> [] | Some r \<Rightarrow> [r]) of
                 Some winner \<Rightarrow>
                   andthen (modify (\<lambda>s. s\<lparr>kn_approvals := kn_approvals s @ [winner]\<rparr>)) (\<lambda>_. ret (ap_approval_id winner))
               | None \<Rightarrow>
                   andthen (modify (\<lambda>s. s\<lparr>kn_approvals := rows, kn_trust := trust\<rparr>)) (\<lambda>_. ret (ap_approval_id ap)))))"

definition approval_needed_payload :: "deep_turn \<Rightarrow> string \<Rightarrow> json \<Rightarrow> string \<Rightarrow> jdict" where
  "approval_needed_payload t approval_id capability risk_level =
     [(''approval_id'', JStr approval_id), (''thread_id'', JStr (dt_thread_id t)), (''capability'', capability),
      (''risk_level'', JStr risk_level)]"

definition lookup_failed_message :: "tool_call \<Rightarrow> tool_message" where
  "lookup_failed_message c = error_message c
     [(''error'', JStr (''capability lookup failed '' @ em_dash @ '' blocked (fail-closed)'')), (''blocked'', JBool True)]"

definition rejected_message :: "tool_call \<Rightarrow> string \<Rightarrow> tool_message" where
  "rejected_message c reason = error_message c [(''error'', JStr reason), (''rejected'', JBool True)]"

section \<open>The trust gate\<close>

definition trust_refs :: "turn_env \<Rightarrow> deep_turn \<Rightarrow> tool_call \<Rightarrow> string \<Rightarrow> risk_assessment \<Rightarrow> bool \<Rightarrow> jdict" where
  "trust_refs e t c capability risk prepared =
     [(''thread_id'', JStr (dt_thread_id t)), (''tool_call_id'', JStr (cl_id c)), (''capability'', JStr capability),
      (''reversible'', JBool (ra_reversible risk)), (''blast_radius'', JStr (ra_blast_radius risk)),
      (''tool_name'', JStr (cl_name c)), (''agent_name'', JStr (dt_agent_name t)),
      (''context_block'', JStr (take MAX_PERSISTED_CONTEXT_CHARS (dt_context_block t)))]
     @ build_legibility_refs (tv_dumps e) (Some (cl_args c)) (dt_scope t) (dt_presence t) prepared"

definition AUTO_DECISIONS :: "string list" where
  "AUTO_DECISIONS = [''auto_execute_notify'', ''auto_execute_silent'']"

definition trust_requires :: "policy_decision \<Rightarrow> string \<Rightarrow> risk_assessment \<Rightarrow> bool" where
  "trust_requires d capability risk \<longleftrightarrow>
     pd_decision d \<notin> set AUTO_DECISIONS \<or> is_write_verification_required capability (Some risk)"

definition decide_and_maybe_persist ::
  "turn_env \<Rightarrow> deep_turn \<Rightarrow> tool_call \<Rightarrow> string \<Rightarrow> risk_assessment \<Rightarrow> string option chain" where
  "decide_and_maybe_persist e t c capability risk =
     andthen get (\<lambda>s.
       let (d, trust) = evaluate (dt_workspace_id t) capability risk (Some (dt_workspace_id t)) (kn_trust s)
       in if \<not> trust_requires d capability risk then ret None
          else
            (let prepared = (resolve_confirmation (dt_presence t) = ''prepare'');
                 (approval_type, expires_at) = prepared_approval_overrides prepared
             in andthen (get_or_create_approval e t c
                  \<lparr>dr_capability = capability,
                   dr_summary = (if pd_justification d \<noteq> [] then pd_justification d else ra_reasoning risk),
                   dr_risk_level = ra_risk_level risk, dr_refs = trust_refs e t c capability risk prepared,
                   dr_type = approval_type, dr_expires_at = expires_at\<rparr> trust) (\<lambda>i. ret (Some i))))"

definition trust_gate :: "turn_env \<Rightarrow> deep_turn \<Rightarrow> interceptor" where
  "trust_gate e t h c =
     (if is_builtin c then h c
      else if \<not> is_gated_source (dt_source t) then h c
      else andthen (gate_cap e (cl_name c)) (\<lambda>(lookup_ok, capability).
        if \<not> lookup_ok then ret (lookup_failed_message c)
        else if never_gated capability then h c
        else if opt_or capability [] \<in> set (dt_pre_approved t) then h c
        else andthen get (\<lambda>s. case find_existing_approval t c (kn_approvals s) of
            Some ap \<Rightarrow>
              if resolve_confirmation (dt_presence t) = ''prepare'' then
                ret (prepared_tool_message (cl_name c) (cl_id c) (ap_approval_id ap) (opt_or capability []))
              else andthen (interrupt (approval_needed_payload t (ap_approval_id ap)
                       (jget_default (dict_or_empty (ap_artifact_refs ap)) ''capability'' (JStr (opt_or capability [])))
                       (ap_risk_level ap))) (\<lambda>verdict.
                if is_approved verdict then h c else ret (rejected_message c ''rejected by approver''))
          | None \<Rightarrow>
              andthen (assess_call_risk e (opt_or capability []) (cl_args c)) (\<lambda>risk.
              andthen (decide_and_maybe_persist e t c (opt_or capability []) risk) (\<lambda>required. case required of
                None \<Rightarrow> h c
              | Some i \<Rightarrow>
                  if resolve_confirmation (dt_presence t) = ''prepare'' then
                    ret (prepared_tool_message (cl_name c) (cl_id c) i (opt_or capability []))
                  else andthen (interrupt (approval_needed_payload t i (JStr (opt_or capability [])) (ra_risk_level risk)))
                    (\<lambda>verdict. if is_approved verdict then h c else ret (rejected_message c ''rejected by approver'')))))))"

section \<open>The permission gate\<close>

definition RISK_NOT_ASSESSED :: string where
  "RISK_NOT_ASSESSED = ''n/a''"

definition DEFAULT_REJECT_REASON :: string where
  "DEFAULT_REJECT_REASON = ''the user declined this action''"

definition reject_reason :: "string option \<Rightarrow> string" where
  "reject_reason reason = (if opt_or reason [] = [] then DEFAULT_REJECT_REASON else opt_or reason [])"

definition permission_refs ::
  "turn_env \<Rightarrow> deep_turn \<Rightarrow> tool_call \<Rightarrow> string \<Rightarrow> string \<Rightarrow> risk_assessment option \<Rightarrow> bool \<Rightarrow> jdict" where
  "permission_refs e t c mode capability assessment prepared =
     [(''thread_id'', JStr (dt_thread_id t)), (''tool_call_id'', JStr (cl_id c)), (''capability'', JStr capability),
      (''reversible'', JBool (case assessment of None \<Rightarrow> True | Some a \<Rightarrow> ra_reversible a)),
      (''blast_radius'', JStr (case assessment of None \<Rightarrow> ''self'' | Some a \<Rightarrow> ra_blast_radius a)),
      (''tool_name'', JStr (cl_name c)), (''agent_name'', JStr (dt_agent_name t)),
      (''context_block'', JStr (take MAX_PERSISTED_CONTEXT_CHARS (dt_context_block t))),
      (''permission_mode'', JStr mode), (''lead_scope'', JList (map JStr (dt_scope t))),
      (''user_message'', JStr (take MAX_PERSISTED_CONTEXT_CHARS (dt_user_message t)))]
     @ build_legibility_refs (tv_dumps e) (Some (cl_args c)) (dt_scope t) (dt_presence t) prepared
     @ (if prepared then [] else [(''chat'', JBool True)])"

definition persist_permission_approval ::
  "turn_env \<Rightarrow> deep_turn \<Rightarrow> tool_call \<Rightarrow> string \<Rightarrow> string \<Rightarrow> risk_assessment option \<Rightarrow> string \<Rightarrow> string chain" where
  "persist_permission_approval e t c mode capability assessment risk_level =
     (let prepared = (resolve_confirmation (dt_presence t) = ''prepare'');
          (approval_type, expires_at) = prepared_approval_overrides prepared
      in andthen get (\<lambda>s. get_or_create_approval e t c
           \<lparr>dr_capability = capability,
            dr_summary = (case assessment of None \<Rightarrow> ''User confirmation required (ask mode).'' | Some a \<Rightarrow> ra_reasoning a),
            dr_risk_level = risk_level, dr_refs = permission_refs e t c mode capability assessment prepared,
            dr_type = approval_type, dr_expires_at = expires_at\<rparr> (kn_trust s)))"

text \<open>\<open>None\<close>: the write goes on; otherwise the assessment made, if any, and the level shown.\<close>

definition permission_assessment ::
  "turn_env \<Rightarrow> string \<Rightarrow> string \<Rightarrow> jdict \<Rightarrow> (risk_assessment option \<times> string) option chain" where
  "permission_assessment e mode capability args =
     (if mode = ''ask'' then ret (Some (None, RISK_NOT_ASSESSED))
      else andthen (assess_call_risk e capability args) (\<lambda>a.
        ret (if \<not> permission_should_interrupt mode (Some a) then None else Some (Some a, ra_risk_level a))))"

definition permission_gate :: "turn_env \<Rightarrow> deep_turn \<Rightarrow> string \<Rightarrow> interceptor" where
  "permission_gate e t mode h c =
     (if is_builtin c then h c
      else if mode = ''bypass'' then h c
      else andthen (gate_cap e (cl_name c)) (\<lambda>(lookup_ok, capability).
        if \<not> lookup_ok then ret (lookup_failed_message c)
        else if never_gated capability then h c
        else andthen get (\<lambda>s. case find_existing_approval t c (kn_approvals s) of
            Some ap \<Rightarrow>
              if resolve_confirmation (dt_presence t) = ''prepare'' then
                ret (prepared_tool_message (cl_name c) (cl_id c) (ap_approval_id ap) (opt_or capability []))
              else andthen (interrupt (approval_needed_payload t (ap_approval_id ap)
                       (jget_default (dict_or_empty (ap_artifact_refs ap)) ''capability'' (JStr (opt_or capability [])))
                       (ap_risk_level ap))) (\<lambda>verdict.
                if is_approved verdict then h c else ret (rejected_message c (reject_reason (ap_decision_reason ap))))
          | None \<Rightarrow>
              andthen (permission_assessment e mode (opt_or capability []) (cl_args c)) (\<lambda>asked. case asked of
                None \<Rightarrow> h c
              | Some (assessment, risk_level) \<Rightarrow>
                  andthen (persist_permission_approval e t c mode (opt_or capability []) assessment risk_level) (\<lambda>i.
                  if resolve_confirmation (dt_presence t) = ''prepare'' then
                    ret (prepared_tool_message (cl_name c) (cl_id c) i (opt_or capability []))
                  else andthen (interrupt (approval_needed_payload t i (JStr (opt_or capability [])) risk_level)) (\<lambda>verdict.
                    if is_approved verdict then h c
                    else andthen get (\<lambda>s. ret (rejected_message c (reject_reason
                      (case find_existing_approval t c (kn_approvals s) of None \<Rightarrow> None | Some d \<Rightarrow> ap_decision_reason d))))))))))"

section \<open>The write lock\<close>

definition write_refused_message :: "tool_call \<Rightarrow> string \<Rightarrow> tool_message" where
  "write_refused_message c reason = error_message c [(''error'', JStr reason), (''blocked'', JBool True)]"

text \<open>The block under the lock: its exit releases the lock whatever happens, and a contention raised by the lock, or
  inside, is answered.\<close>

definition under_write_lock :: "turn_env \<Rightarrow> string \<Rightarrow> handler \<Rightarrow> handler" where
  "under_write_lock e key h c = (\<lambda>s.
     case andthen (andthen (ask (\<lambda>n. tv_lock e n key)) lift_sum) (\<lambda>obtained. if obtained then h c else raise Contended) s of
       (Inl Contended, s') \<Rightarrow> (Inr (write_refused_message c CONTENDED_MESSAGE), s')
     | r \<Rightarrow> r)"

definition write_lock :: "turn_env \<Rightarrow> deep_turn \<Rightarrow> interceptor" where
  "write_lock e t h c =
     (if is_builtin c then h c
      else if \<not> tv_redis e \<and> \<not> dt_require_redis t then h c
      else andthen (resolve_cap e (cl_name c)) (\<lambda>capability.
        case write_lock_route (dt_workspace_id t) (tv_redis e) (dt_require_redis t) (\<lambda>_. capability) (cl_name c) of
          Unlocked \<Rightarrow> h c
        | Refused reason \<Rightarrow> ret (write_refused_message c reason)
        | Under key \<Rightarrow> under_write_lock e key h c))"

section \<open>Reading a write back\<close>

definition READBACK_UNSERVABLE_CAPABILITIES :: "string list" where
  "READBACK_UNSERVABLE_CAPABILITIES = [''calendar.get'']"

definition readback_read_fn :: "turn_env \<Rightarrow> nat \<Rightarrow> read_fn" where
  "readback_read_fn e n read_capability read_args =
     (if read_capability \<in> set READBACK_UNSERVABLE_CAPABILITIES then Inl ()
      else case tv_tools e n of
          Inl _ \<Rightarrow> Inl ()
        | Inr tools \<Rightarrow>
            (case filter (\<lambda>(_, capability). capability = Some read_capability) tools of
               [] \<Rightarrow> Inl ()
             | (name, _) # _ \<Rightarrow>
                 (case tv_read e n name read_args of
                    Inl _ \<Rightarrow> Inl ()
                  | Inr result \<Rightarrow>
                      (let d = obj_items result
                       in if jget d ''error'' \<noteq> JNull \<or> jget d ''status'' = JStr ''error'' \<or> truthy (jget d ''blocked'')
                          then Inl () else Inr result))))"

definition annotate :: "turn_env \<Rightarrow> content \<Rightarrow> jdict \<Rightarrow> content" where
  "annotate e cont verification =
     (let obj = (case loads_content (tv_loads e) cont of
                   None \<Rightarrow> [(''result'', JStr (content_text (tv_dumps e) cont))]
                 | Some (JObj d) \<Rightarrow> d
                 | Some v \<Rightarrow> [(''result'', v)])
      in Dumped (JObj (AList.update ''verification'' (JObj verification) obj)))"

text \<open>\<open>record_deep_confirmed_outcome\<close>: best effort, so a failure changes nothing and is not seen.\<close>

definition record_deep_confirmed_outcome :: "turn_env \<Rightarrow> deep_turn \<Rightarrow> string \<Rightarrow> string \<Rightarrow> unit chain" where
  "record_deep_confirmed_outcome e t capability risk_level =
     modify (\<lambda>s. if tv_trust_write_down e then s
       else s\<lparr>kn_trust := (kn_trust s)\<lparr>td_states := record_approval_decision (tv_now e) (tv_now e) (tv_now e)
         (dt_workspace_id t) capability risk_level ''approved'' (td_states (kn_trust s))\<rparr>\<rparr>)"

definition after_write :: "turn_env \<Rightarrow> deep_turn \<Rightarrow> tool_call \<Rightarrow> tool_message \<Rightarrow> tool_message chain" where
  "after_write e t c result =
     (if tm_status result = ''error'' then ret result
      else andthen (resolve_cap e (cl_name c)) (\<lambda>cap. let capability = opt_or cap [] in
        if capability = [] \<or> is_read_only_capability capability then ret result
        else
          andthen (assess_call_risk e capability (cl_args c)) (\<lambda>risk.
          let write_output = (case loads_content (tv_loads e) (tm_content result) of Some (JObj d) \<Rightarrow> d | _ \<Rightarrow> [])
          in andthen (ask (\<lambda>n. verify_step (Some (readback_read_fn e n)) capability (cl_args c) write_output (Some risk))) (\<lambda>verdict.
             let verification = (''verdict'', JStr (verdict_text verdict)) #
                   (if verdict = Contradicted then [(''escalation'', JObj (build_divergence_escalation capability write_output
                        ''read-back could not confirm the effect''))] else [])
             in andthen (if verdict = Confirmed \<and> is_gated_source (dt_source t)
                         then record_deep_confirmed_outcome e t capability (ra_risk_level risk) else ret ()) (\<lambda>_.
                ret (result\<lparr>tm_content := annotate e (tm_content result) verification\<rparr>))))))"

definition readback :: "turn_env \<Rightarrow> deep_turn \<Rightarrow> interceptor" where
  "readback e t h c = (if is_builtin c then h c else andthen (h c) (after_write e t c))"

section \<open>The repair cap and the dispatcher\<close>

definition INVALID_ARGS_CODE :: string where
  "INVALID_ARGS_CODE = ''invalid_tool_args''"

definition REPAIR_CAP_CODE :: string where
  "REPAIR_CAP_CODE = ''repair_cap_exceeded''"

definition MAX_ATTEMPTS :: nat where
  "MAX_ATTEMPTS = 3"

definition CAP_STEER :: string where
  "CAP_STEER = ''Stop calling this tool and answer the user in chat text instead.''"

definition error_code :: "turn_env \<Rightarrow> tool_message \<Rightarrow> string option" where
  "error_code e m =
     (case message_payload e m of
        None \<Rightarrow> None
      | Some d \<Rightarrow> if jget d ''error_code'' = JNull then None else Some (str_of e (jget d ''error_code'')))"

definition failures_of :: "string \<Rightarrow> chain_state \<Rightarrow> nat" where
  "failures_of name s = opt_or (map_of (kn_failures s) name) 0"

definition count_repair :: "string \<Rightarrow> string \<Rightarrow> chain_state \<Rightarrow> chain_state" where
  "count_repair name outcome s = s\<lparr>kn_metrics := kn_metrics s @ [(name, outcome)]\<rparr>"

definition note_failure :: "string \<Rightarrow> chain_state \<Rightarrow> chain_state" where
  "note_failure name s =
     count_repair name ''rejected'' (s\<lparr>kn_failures := AList.update name (failures_of name s + 1) (kn_failures s)\<rparr>)"

definition forgive :: "string \<Rightarrow> chain_state \<Rightarrow> chain_state" where
  "forgive name s =
     (let s' = s\<lparr>kn_failures := AList.delete name (kn_failures s)\<rparr>
      in if failures_of name s \<noteq> 0 then count_repair name ''repaired'' s' else s')"

definition capped_message :: "tool_call \<Rightarrow> tool_message" where
  "capped_message c = error_message c
     [(''error'', JStr (''Tool '' @ quoted (cl_name c) @ '' has failed argument validation '' @ nat_text MAX_ATTEMPTS
         @ '' times this turn. '' @ CAP_STEER)), (''error_code'', JStr REPAIR_CAP_CODE)]"

definition repair_cap :: "turn_env \<Rightarrow> interceptor" where
  "repair_cap e h c =
     (if is_builtin c then h c
      else andthen get (\<lambda>s.
        if MAX_ATTEMPTS \<le> failures_of (cl_name c) s then
          andthen (modify (count_repair (cl_name c) ''exhausted'')) (\<lambda>_. ret (capped_message c))
        else andthen (h c) (\<lambda>result.
          if error_code e result = Some INVALID_ARGS_CODE then
            andthen (modify (note_failure (cl_name c))) (\<lambda>_. ret result)
          else if tm_status result \<noteq> ''error'' then
            andthen (modify (forgive (cl_name c))) (\<lambda>_. ret result)
          else ret result)))"

definition tool_blocked :: "json \<Rightarrow> bool" where
  "tool_blocked result \<longleftrightarrow> truthy (jget (obj_items result) ''error'') \<or> truthy (jget (obj_items result) ''blocked'')"

definition result_message :: "turn_env \<Rightarrow> tool_call \<Rightarrow> json \<Rightarrow> tool_message" where
  "result_message e c result =
     \<lparr>tm_content = (case result of JObj _ \<Rightarrow> Dumped result | JList _ \<Rightarrow> Dumped result | _ \<Rightarrow> Verbatim (str_of e result)),
      tm_tool_call_id = cl_id c, tm_name = Some (cl_name c),
      tm_status = (if tool_blocked result then ''error'' else ''success'')\<rparr>"

definition execute_tool :: "turn_env \<Rightarrow> tool_call \<Rightarrow> json chain" where
  "execute_tool e c =
     andthen (modify (\<lambda>s. s\<lparr>kn_calls := kn_calls s @ [(cl_name c, cl_args c)]\<rparr>)) (\<lambda>_.
     andthen (ask (\<lambda>n. tv_execute e n (cl_name c) (cl_args c))) lift_sum)"

definition muldro_tool_dispatcher :: "turn_env \<Rightarrow> interceptor" where
  "muldro_tool_dispatcher e h c =
     (if is_builtin c then h c else andthen (execute_tool e c) (\<lambda>result. ret (result_message e c result)))"

text \<open>The innermost handler runs the body of a framework tool; the shell of one of Muldro's is never reached.\<close>

definition builtin_body :: "turn_env \<Rightarrow> handler" where
  "builtin_body e c = andthen (ask (\<lambda>n. tv_builtin e n c)) lift_sum"

section \<open>The chain\<close>

definition permission_chain :: "turn_env \<Rightarrow> deep_turn \<Rightarrow> interceptor list" where
  "permission_chain e t =
     (case dt_permission_mode t of
        None \<Rightarrow> []
      | Some m \<Rightarrow> if m \<in> {''ask'', ''auto''} then [permission_gate e t m] else [])"

definition interceptors :: "turn_env \<Rightarrow> deep_turn \<Rightarrow> interceptor list" where
  "interceptors e t =
     [capability_scope e t, governor_audit e, unavailable_server e, trust_gate e t]
     @ permission_chain e t @ [write_lock e t]
     @ (if dt_readback t then [readback e t] else [])
     @ [repair_cap e, muldro_tool_dispatcher e]"

definition tool_chain :: "turn_env \<Rightarrow> deep_turn \<Rightarrow> handler" where
  "tool_chain e t = foldr (\<lambda>mw h. mw h) (interceptors e t) (builtin_body e)"

end
