(* ===== verification/Gate_Laws.thy ===== *)
theory Gate_Laws
  imports Tool_Gates
begin

text \<open>
  What the chain of interceptors guarantees of a call that reaches a tool. The locale \<open>interceptor_law\<close> is the contract
  of one interceptor: either nothing is executed, or the call is handed on, once and unchanged, from a state related by
  \<open>R\<close> to the one it came in. Two interceptors in a row satisfy the contract of the composed relation, so the chain's
  guarantee is the composition of what each of its members checked.
\<close>

section \<open>The contract of an interceptor\<close>

locale interceptor_law =
  fixes mw :: interceptor
    and R :: "tool_call \<Rightarrow> chain_state \<Rightarrow> chain_state \<Rightarrow> bool"
  assumes hands_on: "kn_calls (snd (mw h c s)) = kn_calls s \<or>
    (\<exists>s1. R c s s1 \<and> kn_calls s1 = kn_calls s \<and> kn_calls (snd (mw h c s)) = kn_calls (snd (h c s1)))"

locale two_interceptors = outer: interceptor_law f R + inner: interceptor_law g Q
  for f :: interceptor and R :: "tool_call \<Rightarrow> chain_state \<Rightarrow> chain_state \<Rightarrow> bool"
    and g :: interceptor and Q :: "tool_call \<Rightarrow> chain_state \<Rightarrow> chain_state \<Rightarrow> bool"

sublocale two_interceptors \<subseteq> composed: interceptor_law "\<lambda>h. f (g h)" "\<lambda>c. R c OO Q c"
proof
  fix h c s
  consider "kn_calls (snd (f (g h) c s)) = kn_calls s"
    | s1 where "R c s s1" "kn_calls s1 = kn_calls s" "kn_calls (snd (f (g h) c s)) = kn_calls (snd (g h c s1))"
    using outer.hands_on[of "g h" c s] by blast
  then show "kn_calls (snd (f (g h) c s)) = kn_calls s \<or>
      (\<exists>s2. (R c OO Q c) s s2 \<and> kn_calls s2 = kn_calls s \<and> kn_calls (snd (f (g h) c s)) = kn_calls (snd (h c s2)))"
  proof cases
    case (2 s1)
    then show ?thesis using inner.hands_on[of h c s1] by (fastforce intro: relcomppI)
  qed simp
qed

section \<open>What the questions leave alone\<close>

definition tables :: "chain_state \<Rightarrow> approval list \<times> trust_db \<times> json list" where
  "tables s = (kn_approvals s, kn_trust s, kn_resume s)"

text \<open>The second case of the contract.\<close>

lemma passed_on:
  "R c s s1 \<Longrightarrow> kn_calls s1 = kn_calls s \<Longrightarrow> x = kn_calls (snd (h c s1)) \<Longrightarrow>
     x = kn_calls s \<or> (\<exists>s1. R c s s1 \<and> kn_calls s1 = kn_calls s \<and> x = kn_calls (snd (h c s1)))"
  by blast

text \<open>A lookup's answer, and the ways the cached one can have come about.\<close>

definition registry_gives :: "turn_env \<Rightarrow> string \<Rightarrow> bool \<times> tool_def option \<Rightarrow> bool" where
  "registry_gives e name r \<longleftrightarrow> (\<exists>n. r = (case tv_registry e n name of Inl _ \<Rightarrow> (False, None) | Inr t \<Rightarrow> (True, t)))"

definition knows :: "turn_env \<Rightarrow> string \<Rightarrow> chain_state \<Rightarrow> bool \<times> tool_def option \<Rightarrow> bool" where
  "knows e name s r \<longleftrightarrow> map_of (kn_cache s) name = Some r \<or> map_of (kn_cache s) name = None \<and> registry_gives e name r"

definition call_intact :: "turn_env \<Rightarrow> tool_call \<Rightarrow> chain_state \<Rightarrow> chain_state \<Rightarrow> bool" where
  "call_intact e c s s1 \<longleftrightarrow>
     kn_calls s1 = kn_calls s \<and> tables s1 = tables s \<and> (\<forall>r. knows e (cl_name c) s1 r \<longrightarrow> knows e (cl_name c) s r)"

lemma call_intact_refl [simp]: "call_intact e c s s"
  by (simp add: call_intact_def)

lemma call_intact_trans: "call_intact e c s s1 \<Longrightarrow> call_intact e c s1 s2 \<Longrightarrow> call_intact e c s s2"
  by (simp add: call_intact_def)

lemma ask_run [engine_simps]: "ask f s = (Inr (f (kn_asked s)), s\<lparr>kn_asked := Suc (kn_asked s)\<rparr>)"
  by (simp add: ask_def)

lemma call_intact_asked [simp]: "call_intact e c s (s\<lparr>kn_asked := n\<rparr>)"
  by (simp add: call_intact_def tables_def knows_def)

lemma call_intact_audit [simp]: "call_intact e c s (s\<lparr>kn_audit := a\<rparr>)"
  by (simp add: call_intact_def tables_def knows_def)

lemma resolve_tool_def_run:
  obtains r s1 where "resolve_tool_def e name s = (Inr r, s1)" "registry_gives e name r" "s1 = s\<lparr>kn_asked := Suc (kn_asked s)\<rparr>"
proof -
  let ?r = "case tv_registry e (kn_asked s) name of Inl _ \<Rightarrow> (False, None) | Inr t \<Rightarrow> (True, t)"
  show thesis
    by (rule that[of ?r]) (auto simp: resolve_tool_def_def registry_gives_def andthen_def engine_simps)
qed

lemma resolve_shared_run:
  obtains r s1 where "resolve_shared e (cl_name c) s = (Inr r, s1)" "call_intact e c s s1"
    "knows e (cl_name c) s r" "map_of (kn_cache s1) (cl_name c) = Some r"
proof (cases "map_of (kn_cache s) (cl_name c)")
  case (Some r)
  then show thesis by (intro that[of r s]) (simp_all add: resolve_shared_def engine_simps knows_def)
next
  case None
  obtain r s1 where r: "resolve_tool_def e (cl_name c) s = (Inr r, s1)" "registry_gives e (cl_name c) r"
    "s1 = s\<lparr>kn_asked := Suc (kn_asked s)\<rparr>" by (rule resolve_tool_def_run)
  show thesis
    by (rule that[of r "s1\<lparr>kn_cache := (cl_name c, r) # kn_cache s1\<rparr>"])
      (use r None in \<open>simp_all add: resolve_shared_def andthen_def engine_simps call_intact_def tables_def knows_def\<close>)
qed

lemma gate_cap_run:
  obtains ok tool s1 where "gate_cap e (cl_name c) s = (Inr (ok, capability_of tool), s1)" "call_intact e c s s1"
    "knows e (cl_name c) s (ok, tool)"
proof -
  obtain r s1 where r: "resolve_shared e (cl_name c) s = (Inr r, s1)" "call_intact e c s s1" "knows e (cl_name c) s r"
    by (rule resolve_shared_run)
  obtain ok tool where "r = (ok, tool)" by (cases r)
  then show thesis using r by (intro that[of ok tool s1]) (simp_all add: gate_cap_def andthen_def engine_simps)
qed

lemma resolve_cap_run:
  obtains r s1 where "resolve_cap e (cl_name c) s = (Inr r, s1)" "call_intact e c s s1"
proof -
  obtain r s1 where r: "resolve_shared e (cl_name c) s = (Inr r, s1)" "call_intact e c s s1"
    by (rule resolve_shared_run)
  obtain ok tool where "r = (ok, tool)" by (cases r)
  then show thesis using r by (intro that) (simp_all add: resolve_cap_def andthen_def engine_simps)
qed

lemma assess_call_risk_run:
  obtains a s1 where "assess_call_risk e x args s = (Inr a, s1)" "s1 = s\<lparr>kn_asked := Suc (kn_asked s)\<rparr>"
  by (auto simp: assess_call_risk_def andthen_def engine_simps)

section \<open>Scope, audit, breaker\<close>

definition in_scope :: "turn_env \<Rightarrow> deep_turn \<Rightarrow> tool_call \<Rightarrow> chain_state \<Rightarrow> chain_state \<Rightarrow> bool" where
  "in_scope e t c s s1 \<longleftrightarrow> call_intact e c s s1 \<and>
     (is_builtin c \<or> (\<exists>d cap. registry_gives e (cl_name c) (True, Some d) \<and> tf_capability d = Some cap \<and> cap \<noteq> [] \<and> cap \<in> set (dt_scope t)))"

lemma is_in_scope_run:
  obtains ok s1 where "is_in_scope e t (cl_name c) s = (Inr ok, s1)" "call_intact e c s s1"
    "ok \<longrightarrow> (\<exists>d cap. registry_gives e (cl_name c) (True, Some d) \<and> tf_capability d = Some cap \<and> cap \<noteq> [] \<and> cap \<in> set (dt_scope t))"
proof (cases "dt_scope t = []")
  case True
  then show thesis by (intro that[of False s]) (simp_all add: is_in_scope_def engine_simps)
next
  case False
  obtain r s1 where r: "resolve_tool_def e (cl_name c) s = (Inr r, s1)" "registry_gives e (cl_name c) r"
    "s1 = s\<lparr>kn_asked := Suc (kn_asked s)\<rparr>" by (rule resolve_tool_def_run)
  obtain ok tool where ok: "r = (ok, tool)" by (cases r)
  let ?v = "if \<not> ok then False else case tool of None \<Rightarrow> False
    | Some d \<Rightarrow> opt_or (tf_capability d) [] \<noteq> [] \<and> opt_or (tf_capability d) [] \<in> set (dt_scope t)"
  show thesis
  proof (rule that[of ?v s1])
    show "is_in_scope e t (cl_name c) s = (Inr ?v, s1)"
      using False r(1) ok by (simp add: is_in_scope_def andthen_def engine_simps)
    show "call_intact e c s s1" using r(3) by simp
    show "?v \<longrightarrow> (\<exists>d cap. registry_gives e (cl_name c) (True, Some d) \<and> tf_capability d = Some cap \<and> cap \<noteq> [] \<and> cap \<in> set (dt_scope t))"
      using r(2) ok by (auto simp: opt_or_def split: if_splits option.splits)
  qed
qed

interpretation scope_law: interceptor_law "capability_scope e t" "in_scope e t" for e t
proof
  fix h c s
  obtain ok s1 where run: "is_in_scope e t (cl_name c) s = (Inr ok, s1)" "call_intact e c s s1"
    "ok \<longrightarrow> (\<exists>d cap. registry_gives e (cl_name c) (True, Some d) \<and> tf_capability d = Some cap \<and> cap \<noteq> [] \<and> cap \<in> set (dt_scope t))"
    by (rule is_in_scope_run)
  show "kn_calls (snd (capability_scope e t h c s)) = kn_calls s \<or>
    (\<exists>s1. in_scope e t c s s1 \<and> kn_calls s1 = kn_calls s \<and> kn_calls (snd (capability_scope e t h c s)) = kn_calls (snd (h c s1)))"
  proof (cases "is_builtin c")
    case True
    then show ?thesis by (intro passed_on[of _ c s s]) (simp_all add: capability_scope_def in_scope_def)
  next
    case False
    show ?thesis
    proof (cases ok)
      case True
      then have "in_scope e t c s s1" using run by (simp add: in_scope_def)
      moreover have "kn_calls s1 = kn_calls s" using run(2) by (simp add: call_intact_def)
      ultimately show ?thesis using False True run(1) by (auto simp: capability_scope_def andthen_def)
    next
      case denied: False
      then show ?thesis using False run by (simp add: capability_scope_def andthen_def engine_simps call_intact_def)
    qed
  qed
qed

definition audited :: "turn_env \<Rightarrow> tool_call \<Rightarrow> chain_state \<Rightarrow> chain_state \<Rightarrow> bool" where
  "audited e c s s1 \<longleftrightarrow> call_intact e c s s1 \<and>
     (is_builtin c \<or> (\<exists>ok tool. knows e (cl_name c) s (ok, tool) \<and> map_of (kn_cache s1) (cl_name c) = Some (ok, tool)
        \<and> (\<forall>d. tool = Some d \<longrightarrow> tf_enabled d)))"

interpretation audit_law: interceptor_law "governor_audit e" "audited e" for e
proof
  fix h c s
  obtain r s1 where r: "resolve_shared e (cl_name c) s = (Inr r, s1)" "call_intact e c s s1"
    "knows e (cl_name c) s r" "map_of (kn_cache s1) (cl_name c) = Some r" by (rule resolve_shared_run)
  obtain ok tool where ok: "r = (ok, tool)" by (cases r)
  define s2 where "s2 = s1\<lparr>kn_audit := kn_audit s1 @ [(cl_name c, case tool of None \<Rightarrow> ''low'' | Some d \<Rightarrow> tf_risk_level d)]\<rparr>"
  have s2: "call_intact e c s s2" "map_of (kn_cache s2) (cl_name c) = Some (ok, tool)"
    using call_intact_trans[OF r(2), of s2] r(4) ok by (simp_all add: s2_def)
  show "kn_calls (snd (governor_audit e h c s)) = kn_calls s \<or>
    (\<exists>s1. audited e c s s1 \<and> kn_calls s1 = kn_calls s \<and> kn_calls (snd (governor_audit e h c s)) = kn_calls (snd (h c s1)))"
  proof (cases "is_builtin c")
    case True
    then show ?thesis by (intro passed_on[of _ c s s]) (simp_all add: governor_audit_def audited_def)
  next
    case False
    show ?thesis
    proof (cases "case tool of None \<Rightarrow> False | Some d \<Rightarrow> \<not> tf_enabled d")
      case True
      then show ?thesis using False r ok by (simp add: governor_audit_def andthen_def engine_simps call_intact_def)
    next
      case enabled: False
      have "audited e c s s2" using s2 r(3) ok enabled by (auto simp: audited_def split: option.splits)
      moreover have "governor_audit e h c s = h c s2"
        using False enabled r ok by (simp add: governor_audit_def andthen_def engine_simps s2_def)
      ultimately show ?thesis using s2(1) by (auto simp: call_intact_def)
    qed
  qed
qed

text \<open>The breaker: what follows the call touches neither the tools nor the tables.\<close>

lemma server_for_run:
  fixes s :: chain_state
  shows "snd (server_for e name s) = s\<lparr>kn_asked := Suc (kn_asked s)\<rparr>"
  by (simp add: server_for_def andthen_def engine_simps split: sum.splits option.splits)

lemma after_call_calls [simp]: "kn_calls (snd (after_call e m s)) = kn_calls s"
  by (simp add: after_call_def Let_def engine_simps mark_down_def)

lemma andthen_calls:
  assumes "\<And>x s. kn_calls (snd (k x s)) = kn_calls s"
  shows "kn_calls (snd (andthen m k s)) = kn_calls (snd (m s))"
  by (cases "m s"; cases "fst (m s)") (auto simp: andthen_def assms split: sum.splits)

definition untouched :: "turn_env \<Rightarrow> tool_call \<Rightarrow> chain_state \<Rightarrow> chain_state \<Rightarrow> bool" where
  "untouched e c s s1 \<longleftrightarrow> call_intact e c s s1 \<and> kn_cache s1 = kn_cache s"

interpretation breaker_law: interceptor_law "unavailable_server e" "untouched e" for e
proof
  fix h c and s :: chain_state
  let ?s1 = "s\<lparr>kn_asked := Suc (kn_asked s)\<rparr>"
  have u: "untouched e c s ?s1" by (simp add: untouched_def)
  show "kn_calls (snd (unavailable_server e h c s)) = kn_calls s \<or>
    (\<exists>s1. untouched e c s s1 \<and> kn_calls s1 = kn_calls s \<and> kn_calls (snd (unavailable_server e h c s)) = kn_calls (snd (h c s1)))"
  proof (cases "is_builtin c")
    case True
    then show ?thesis by (intro passed_on[of _ c s s]) (simp_all add: unavailable_server_def untouched_def)
  next
    case False
    have tail: "kn_calls (snd (andthen (h c) (after_call e) ?s1)) = kn_calls (snd (h c ?s1))"
      by (rule andthen_calls) simp
    consider err s' where "server_for e (cl_name c) s = (Inl err, s')" | server where "server_for e (cl_name c) s = (Inr server, ?s1)"
      using server_for_run[of e "cl_name c" s] by (cases "server_for e (cl_name c) s"; cases "fst (server_for e (cl_name c) s)") auto
    then show ?thesis
    proof cases
      case (1 err s')
      then show ?thesis using False server_for_run[of e "cl_name c" s] by (simp add: unavailable_server_def andthen_def)
    next
      case (2 server)
      have "kn_calls (snd (unavailable_server e h c s)) = kn_calls s \<or>
          kn_calls (snd (unavailable_server e h c s)) = kn_calls (snd (h c ?s1))"
        using False tail by (simp add: unavailable_server_def andthen_Inr[where m="server_for e (cl_name c)", OF 2] Let_def engine_simps)
      then show ?thesis using u by auto
    qed
  qed
qed

section \<open>The gates\<close>

text \<open>What a confirmation is worth: somebody is present, the resume value consumed is an approval, and the row of this
  very call is in the table.\<close>

definition confirmed :: "deep_turn \<Rightarrow> tool_call \<Rightarrow> chain_state \<Rightarrow> chain_state \<Rightarrow> bool" where
  "confirmed t c s s1 \<longleftrightarrow> dt_presence t = ''present'' \<and> (\<exists>v\<in>set (kn_resume s). is_approved v) \<and>
     call_key t c \<in> gate_key ` set (kn_approvals s1)"

definition possible_risk :: "turn_env \<Rightarrow> string \<Rightarrow> jdict \<Rightarrow> risk_assessment \<Rightarrow> bool" where
  "possible_risk e capability args a \<longleftrightarrow> (\<exists>s s1. assess_call_risk e capability args s = (Inr a, s1))"

definition trust_executes :: "turn_env \<Rightarrow> deep_turn \<Rightarrow> string \<Rightarrow> jdict \<Rightarrow> trust_db \<Rightarrow> bool" where
  "trust_executes e t capability args trust \<longleftrightarrow>
     (\<exists>a. possible_risk e capability args a \<and>
        \<not> trust_requires (fst (evaluate (dt_workspace_id t) capability a (Some (dt_workspace_id t)) trust)) capability a)"

definition permission_executes :: "turn_env \<Rightarrow> string \<Rightarrow> string \<Rightarrow> jdict \<Rightarrow> bool" where
  "permission_executes e mode capability args \<longleftrightarrow>
     mode \<noteq> ''ask'' \<and> (\<exists>a. possible_risk e capability args a \<and> \<not> permission_should_interrupt mode (Some a))"

text \<open>What a gate carries from the state it starts in, until it suspends and after.\<close>

definition carried :: "turn_env \<Rightarrow> tool_call \<Rightarrow> chain_state \<Rightarrow> chain_state \<Rightarrow> bool" where
  "carried e c s s1 \<longleftrightarrow> kn_calls s1 = kn_calls s \<and> kn_resume s1 = kn_resume s \<and>
     (\<forall>r. knows e (cl_name c) s1 r \<longrightarrow> knows e (cl_name c) s r)"

definition passed :: "turn_env \<Rightarrow> tool_call \<Rightarrow> chain_state \<Rightarrow> chain_state \<Rightarrow> bool" where
  "passed e c s s1 \<longleftrightarrow> kn_calls s1 = kn_calls s \<and> set (kn_resume s1) \<subseteq> set (kn_resume s) \<and>
     (\<forall>r. knows e (cl_name c) s1 r \<longrightarrow> knows e (cl_name c) s r)"

definition trusted :: "turn_env \<Rightarrow> deep_turn \<Rightarrow> tool_call \<Rightarrow> chain_state \<Rightarrow> chain_state \<Rightarrow> bool" where
  "trusted e t c s s1 \<longleftrightarrow> passed e c s s1 \<and>
     (is_builtin c \<or> \<not> is_gated_source (dt_source t) \<or>
      (\<exists>tool. knows e (cl_name c) s (True, tool) \<and>
        (never_gated (capability_of tool) \<or> opt_or (capability_of tool) [] \<in> set (dt_pre_approved t)
         \<or> trust_executes e t (opt_or (capability_of tool) []) (cl_args c) (kn_trust s) \<or> confirmed t c s s1)))"

definition permitted :: "turn_env \<Rightarrow> deep_turn \<Rightarrow> string \<Rightarrow> tool_call \<Rightarrow> chain_state \<Rightarrow> chain_state \<Rightarrow> bool" where
  "permitted e t mode c s s1 \<longleftrightarrow> passed e c s s1 \<and>
     (is_builtin c \<or> mode = ''bypass'' \<or>
      (\<exists>tool. knows e (cl_name c) s (True, tool) \<and>
        (never_gated (capability_of tool) \<or> permission_executes e mode (opt_or (capability_of tool) []) (cl_args c)
         \<or> confirmed t c s s1)))"

lemma carried_simps [simp]: "carried e c s s" "passed e c s s"
  by (simp_all add: carried_def passed_def)

lemma carried_passed: "carried e c s s1 \<Longrightarrow> passed e c s s1"
  by (simp add: carried_def passed_def)

lemma carried_undisturbed: "call_intact e c s s1 \<Longrightarrow> carried e c s s1"
  by (simp add: carried_def call_intact_def tables_def)

lemma carried_asked: "carried e c s s1 \<Longrightarrow> carried e c s (s1\<lparr>kn_asked := n\<rparr>)"
  by (simp add: carried_def knows_def)

lemma find_existing_in:
  "find_existing_approval t c rows = Some ap \<Longrightarrow> ap \<in> set rows \<and> gate_key ap = call_key t c"
  "find_existing_approval t c rows = Some ap \<Longrightarrow> call_key t c \<in> gate_key ` set rows"
  unfolding find_existing_approval_def by (drule row_find_SomeD, force)+

lemma created_row:
  "create_approval now i u ws ty ti su rl ex rid sid rq refs expi rows = Inr (ap, rows') \<Longrightarrow>
     rows' = rows @ [ap] \<and> gate_key ap = (ws, jget (dict_or_empty refs) ''thread_id'', jget (dict_or_empty refs) ''tool_call_id'')
     \<and> ap_approval_id ap = ''apr_'' @ i \<and> ap_status ap = ''pending''"
  by (auto simp: create_approval_def gate_key_def Let_def split: if_splits)

text \<open>Persisting changes nothing but the tables, and on success the row of the call is there.\<close>

definition keyed :: "deep_turn \<Rightarrow> tool_call \<Rightarrow> approval_draft \<Rightarrow> bool" where
  "keyed t c draft \<longleftrightarrow> jget (dr_refs draft) ''thread_id'' = JStr (dt_thread_id t) \<and> jget (dr_refs draft) ''tool_call_id'' = JStr (cl_id c)"

lemma persist_run:
  assumes "keyed t c draft"
  obtains x s1 where "get_or_create_approval e t c draft trust s = (Inl x, s1)" "kn_calls s1 = kn_calls s"
  | i s1 where "get_or_create_approval e t c draft trust s = (Inr i, s1)" "carried e c s s1"
      "call_key t c \<in> gate_key ` set (kn_approvals s1)"
proof (cases "find_existing_approval t c (kn_approvals s)")
  case (Some ap)
  show thesis
    by (rule that(2)[of "ap_approval_id ap" s])
      (use Some find_existing_in(2)[OF Some] in \<open>simp_all add: get_or_create_approval_def engine_simps\<close>)
next
  case None
  obtain cr where cr: "create_approval (tv_now e) (tv_ulid e (length (kn_approvals s))) (dt_user_id t) (dt_workspace_id t)
      (opt_or (dr_type draft) (''tool:'' @ cl_name c)) (''Approve: '' @ dr_capability draft) (Some (dr_summary draft))
      (dr_risk_level draft) [] None None (dt_user_id t) (Some (dr_refs draft)) (dr_expires_at draft) (kn_approvals s) = cr" by simp
  show thesis
  proof (cases cr)
    case (Inl err)
    then show thesis using None cr by (intro that(1)[of "Raised err" s]) (simp_all add: get_or_create_approval_def engine_simps)
  next
    case (Inr ar)
    obtain ap rows where ar: "ar = (ap, rows)" by (cases ar)
    have key: "gate_key ap = call_key t c" "rows = kn_approvals s @ [ap]"
      using created_row[OF cr[unfolded Inr ar]] assms by (simp_all add: keyed_def call_key_def dict_or_empty_def)
    obtain w where w: "find_existing_approval t c (case tv_rival e (cl_id c) of None \<Rightarrow> [] | Some r \<Rightarrow> [r]) = w" by simp
    show thesis
    proof (cases w)
      case None
      with \<open>find_existing_approval t c (kn_approvals s) = None\<close> show thesis
        using cr Inr ar w key by (intro that(2)[of "ap_approval_id ap" "s\<lparr>kn_approvals := rows, kn_trust := trust\<rparr>"])
          (simp_all add: get_or_create_approval_def engine_simps carried_def knows_def)
    next
      case (Some winner)
      have "gate_key winner = call_key t c" using find_existing_in(1)[OF w[unfolded Some]] by blast
      with Some \<open>find_existing_approval t c (kn_approvals s) = None\<close> show thesis
        using cr Inr ar w by (intro that(2)[of "ap_approval_id winner" "s\<lparr>kn_approvals := kn_approvals s @ [winner]\<rparr>"])
          (simp_all add: get_or_create_approval_def engine_simps carried_def knows_def)
    qed
  qed
qed

lemma gate_refs [simp]:
  "jget (trust_refs e t c x a p) ''thread_id'' = JStr (dt_thread_id t)" "jget (trust_refs e t c x a p) ''tool_call_id'' = JStr (cl_id c)"
  "jget (permission_refs e t c m x asm p) ''thread_id'' = JStr (dt_thread_id t)"
  "jget (permission_refs e t c m x asm p) ''tool_call_id'' = JStr (cl_id c)"
  by (simp_all add: trust_refs_def permission_refs_def)

lemma interrupt_run:
  "interrupt p s = (case kn_resume s of [] \<Rightarrow> (Inl (Interrupted p), s) | v # vs \<Rightarrow> (Inr v, s\<lparr>kn_resume := vs\<rparr>))"
  by (simp add: interrupt_def engine_simps split: list.splits)

text \<open>\<open>handed\<close>: how a gate's computation can end, seen from the state \<open>s\<close> the gate started in.\<close>

definition handed :: "(chain_state \<Rightarrow> bool) \<Rightarrow> handler \<Rightarrow> tool_call \<Rightarrow> chain_state \<Rightarrow> tool_message chain \<Rightarrow> chain_state \<Rightarrow> bool" where
  "handed Q h c s m s1 \<longleftrightarrow> kn_calls (snd (m s1)) = kn_calls s \<or>
     (\<exists>s2. Q s2 \<and> kn_calls s2 = kn_calls s \<and> kn_calls (snd (m s1)) = kn_calls (snd (h c s2)))"

lemma handed_ret: "kn_calls s1 = kn_calls s \<Longrightarrow> handed Q h c s (ret m) s1"
  by (simp add: handed_def engine_simps)

lemma handed_next: "Q s1 \<Longrightarrow> kn_calls s1 = kn_calls s \<Longrightarrow> handed Q h c s (h c) s1"
  by (auto simp: handed_def)

lemma handed_bind: "m s1 = (Inr x, s2) \<Longrightarrow> handed Q h c s (k x) s2 \<Longrightarrow> handed Q h c s (andthen m k) s1"
  by (simp add: handed_def andthen_def)

lemma handed_stop: "m s1 = (Inl x, s2) \<Longrightarrow> kn_calls s2 = kn_calls s \<Longrightarrow> handed Q h c s (andthen m k) s1"
  by (simp add: handed_def andthen_def)

lemma handed_get: "handed Q h c s (k s1) s1 \<Longrightarrow> handed Q h c s (andthen get k) s1"
  by (simp add: handed_def)

text \<open>The tail both gates share: staged if nobody is there; otherwise suspended, and handed on only on approval.\<close>

lemma handed_confirm:
  assumes k: "carried e c s s1" and row: "call_key t c \<in> gate_key ` set (kn_approvals s1)"
    and Q: "\<And>s2. passed e c s s2 \<Longrightarrow> confirmed t c s s2 \<Longrightarrow> Q s2"
    and quiet: "\<And>v s. kn_calls (snd (no v s)) = kn_calls s"
  shows "handed Q h c s (if resolve_confirmation (dt_presence t) = ''prepare'' then ret staged
    else andthen (interrupt p) (\<lambda>v. if is_approved v then h c else no v)) s1"
proof (cases "dt_presence t = ''present''")
  case False
  then show ?thesis using k by (simp add: resolve_confirmation_def handed_ret carried_def)
next
  case here: True
  show ?thesis
  proof (cases "kn_resume s1")
    case Nil
    then show ?thesis using k here by (simp add: resolve_confirmation_def handed_stop interrupt_run carried_def)
  next
    case (Cons v vs)
    let ?s2 = "s1\<lparr>kn_resume := vs\<rparr>"
    have m: "interrupt p s1 = (Inr v, ?s2)" using Cons by (simp add: interrupt_run)
    have "v \<in> set (kn_resume s)" "set vs \<subseteq> set (kn_resume s)" using k Cons by (auto simp: carried_def) (metis list.set_intros)+
    then have p: "passed e c s ?s2" "is_approved v \<Longrightarrow> confirmed t c s ?s2"
      using k row here by (auto simp: carried_def passed_def confirmed_def knows_def)
    have "handed Q h c s (if is_approved v then h c else no v) ?s2"
      using p Q quiet[of v ?s2] by (simp add: handed_next passed_def) (simp add: handed_def)
    then show ?thesis using here handed_bind[where m="interrupt p", OF m] by (simp add: resolve_confirmation_def)
  qed
qed

text \<open>The trust gate, from the state its lookup left, for a capability it asks about.\<close>

lemma trust_decision:
  assumes k: "carried e c s s1" and trust: "kn_trust s1 = kn_trust s"
    and auto: "trust_executes e t x (cl_args c) (kn_trust s) \<Longrightarrow> (\<And>s2. carried e c s s2 \<Longrightarrow> Q s2)"
    and conf: "\<And>s2. passed e c s s2 \<Longrightarrow> confirmed t c s s2 \<Longrightarrow> Q s2"
  shows "handed Q h c s
    (andthen (assess_call_risk e x (cl_args c)) (\<lambda>risk.
     andthen (decide_and_maybe_persist e t c x risk) (\<lambda>required. case required of
       None \<Rightarrow> h c
     | Some i \<Rightarrow>
         if resolve_confirmation (dt_presence t) = ''prepare'' then ret (prepared_tool_message (cl_name c) (cl_id c) i x)
         else andthen (interrupt (approval_needed_payload t i (JStr x) (ra_risk_level risk)))
           (\<lambda>verdict. if is_approved verdict then h c else ret (rejected_message c ''rejected by approver''))))) s1"
proof -
  obtain a s2 where a: "assess_call_risk e x (cl_args c) s1 = (Inr a, s2)" "s2 = s1\<lparr>kn_asked := Suc (kn_asked s1)\<rparr>"
    by (rule assess_call_risk_run)
  have s2: "carried e c s s2" "kn_trust s2 = kn_trust s" using k trust by (simp_all add: a(2) carried_asked)
  obtain d tdb where d: "evaluate (dt_workspace_id t) x a (Some (dt_workspace_id t)) (kn_trust s2) = (d, tdb)" by fastforce
  let ?draft = "\<lambda>p. \<lparr>dr_capability = x, dr_summary = (if pd_justification d \<noteq> [] then pd_justification d else ra_reasoning a),
     dr_risk_level = ra_risk_level a, dr_refs = trust_refs e t c x a p, dr_type = fst (prepared_approval_overrides p),
     dr_expires_at = snd (prepared_approval_overrides p)\<rparr>"
  let ?p = "resolve_confirmation (dt_presence t) = ''prepare''"
  show ?thesis
  proof (rule handed_bind[where m="assess_call_risk e x (cl_args c)", OF a(1)], cases "trust_requires d x a")
    case False
    then have "trust_executes e t x (cl_args c) (kn_trust s)"
      using a(1) d s2(2) by (auto simp: trust_executes_def possible_risk_def intro!: exI[of _ a])
    then have "Q s2" using auto s2(1) by blast
    moreover have "decide_and_maybe_persist e t c x a s2 = (Inr None, s2)"
      using False d by (simp add: decide_and_maybe_persist_def engine_simps)
    ultimately show "handed Q h c s (andthen (decide_and_maybe_persist e t c x a) (\<lambda>required. case required of
       None \<Rightarrow> h c
     | Some i \<Rightarrow>
         if resolve_confirmation (dt_presence t) = ''prepare'' then ret (prepared_tool_message (cl_name c) (cl_id c) i x)
         else andthen (interrupt (approval_needed_payload t i (JStr x) (ra_risk_level a)))
           (\<lambda>verdict. if is_approved verdict then h c else ret (rejected_message c ''rejected by approver'')))) s2"
      using s2(1) by (intro handed_bind[where m="decide_and_maybe_persist e t c x a"]) (auto intro: handed_next simp: carried_def)
  next
    case True
    have dec: "decide_and_maybe_persist e t c x a s2 = andthen (get_or_create_approval e t c (?draft ?p) tdb) (\<lambda>i. ret (Some i)) s2"
      using True d by (simp add: decide_and_maybe_persist_def engine_simps split_def Let_def)
    have "keyed t c (?draft ?p)" by (simp add: keyed_def)
    then show "handed Q h c s (andthen (decide_and_maybe_persist e t c x a) (\<lambda>required. case required of
       None \<Rightarrow> h c
     | Some i \<Rightarrow>
         if resolve_confirmation (dt_presence t) = ''prepare'' then ret (prepared_tool_message (cl_name c) (cl_id c) i x)
         else andthen (interrupt (approval_needed_payload t i (JStr x) (ra_risk_level a)))
           (\<lambda>verdict. if is_approved verdict then h c else ret (rejected_message c ''rejected by approver'')))) s2"
    proof (rule persist_run[of t c "?draft ?p" e tdb s2])
      fix y s3 assume "get_or_create_approval e t c (?draft ?p) tdb s2 = (Inl y, s3)" "kn_calls s3 = kn_calls s2"
      then show ?thesis using s2(1)
        by (intro handed_stop[where m="decide_and_maybe_persist e t c x a" and x=y and ?s2.0=s3]) (simp_all add: dec andthen_def carried_def)
    next
      fix i s3 assume i: "get_or_create_approval e t c (?draft ?p) tdb s2 = (Inr i, s3)" "carried e c s2 s3"
        "call_key t c \<in> gate_key ` set (kn_approvals s3)"
      have "carried e c s s3" using s2(1) i(2) by (simp add: carried_def)
      then have "handed Q h c s
          (if resolve_confirmation (dt_presence t) = ''prepare'' then ret staged
           else andthen (interrupt p) (\<lambda>v. if is_approved v then h c else ret m)) s3" for staged p m
        by (rule handed_confirm[OF _ i(3) conf]) (simp_all add: engine_simps)
      moreover have "decide_and_maybe_persist e t c x a s2 = (Inr (Some i), s3)" using i(1) by (simp add: dec andthen_def engine_simps)
      ultimately show ?thesis
        by (intro handed_bind[where m="decide_and_maybe_persist e t c x a" and x="Some i" and ?s2.0=s3]) simp_all
    qed
  qed
qed

interpretation trust_law: interceptor_law "trust_gate e t" "trusted e t" for e t
proof
  fix h c and s :: chain_state
  let ?Q = "trusted e t c s"
  have "handed ?Q h c s (trust_gate e t h c) s"
  proof (cases "is_builtin c \<or> \<not> is_gated_source (dt_source t)")
    case True
    then have "trust_gate e t h c = h c" by (auto simp: trust_gate_def)
    then show ?thesis using True by (auto simp: trusted_def intro!: handed_next)
  next
    case False
    obtain ok tool s1 where g: "gate_cap e (cl_name c) s = (Inr (ok, capability_of tool), s1)" "call_intact e c s s1"
      "knows e (cl_name c) s (ok, tool)" by (rule gate_cap_run)
    let ?x = "opt_or (capability_of tool) []"
    have k: "carried e c s s1" "kn_trust s1 = kn_trust s" using g(2) by (simp_all add: carried_undisturbed) (simp add: call_intact_def tables_def)
    have calls: "kn_calls s1 = kn_calls s" using k(1) by (simp add: carried_def)
    have Q: "?Q s2" if "ok" "passed e c s s2" "never_gated (capability_of tool) \<or> ?x \<in> set (dt_pre_approved t)
        \<or> trust_executes e t ?x (cl_args c) (kn_trust s) \<or> confirmed t c s s2" for s2
      using that g(3) by (auto simp: trusted_def)
    note start = handed_bind[where m="gate_cap e (cl_name c)", OF g(1)]
    show ?thesis
    proof (cases "ok \<and> \<not> never_gated (capability_of tool) \<and> ?x \<notin> set (dt_pre_approved t)")
      case easy: False
      then show ?thesis using False calls Q k
        by (auto simp: trust_gate_def carried_passed intro!: start handed_ret handed_next)
    next
      case gated: True
      show ?thesis
      proof (cases "find_existing_approval t c (kn_approvals s1)")
        case None
        have "handed ?Q h c s (andthen get (\<lambda>s. case find_existing_approval t c (kn_approvals s) of
            Some ap \<Rightarrow> m ap
          | None \<Rightarrow> n)) s1" if "handed ?Q h c s n s1" for m n
          using that None by (intro handed_get) simp
        then show ?thesis using False gated Q k(1)
          by (simp add: trust_gate_def) (intro start, simp, blast intro: trust_decision[OF k] carried_passed)
      next
        case (Some ap)
        have "handed ?Q h c s
          (if resolve_confirmation (dt_presence t) = ''prepare'' then ret staged
           else andthen (interrupt p) (\<lambda>v. if is_approved v then h c else ret m)) s1" for staged p m
          by (rule handed_confirm[OF k(1) find_existing_in(2)[OF Some]]) (use gated Q in \<open>auto simp: engine_simps\<close>)
        then show ?thesis using False gated
          by (simp add: trust_gate_def) (intro start, simp add: handed_get Some)
      qed
    qed
  qed
  then show "kn_calls (snd (trust_gate e t h c s)) = kn_calls s \<or>
      (\<exists>s1. ?Q s1 \<and> kn_calls s1 = kn_calls s \<and> kn_calls (snd (trust_gate e t h c s)) = kn_calls (snd (h c s1)))"
    by (simp add: handed_def)
qed

text \<open>The permission gate, likewise.\<close>

lemma permission_decision:
  assumes k: "carried e c s s1"
    and auto: "permission_executes e mode x (cl_args c) \<Longrightarrow> (\<And>s2. carried e c s s2 \<Longrightarrow> Q s2)"
    and conf: "\<And>s2. passed e c s s2 \<Longrightarrow> confirmed t c s s2 \<Longrightarrow> Q s2"
  shows "handed Q h c s
    (andthen (permission_assessment e mode x (cl_args c)) (\<lambda>asked. case asked of
       None \<Rightarrow> h c
     | Some (assessment, risk_level) \<Rightarrow>
         andthen (persist_permission_approval e t c mode x assessment risk_level) (\<lambda>i.
         if resolve_confirmation (dt_presence t) = ''prepare'' then ret (prepared_tool_message (cl_name c) (cl_id c) i x)
         else andthen (interrupt (approval_needed_payload t i (JStr x) risk_level)) (\<lambda>verdict.
           if is_approved verdict then h c
           else andthen get (\<lambda>s. ret (rejected_message c (reject_reason
             (case find_existing_approval t c (kn_approvals s) of None \<Rightarrow> None | Some d \<Rightarrow> ap_decision_reason d))))))))  s1"
proof -
  obtain a s2 where a: "assess_call_risk e x (cl_args c) s1 = (Inr a, s2)" "s2 = s1\<lparr>kn_asked := Suc (kn_asked s1)\<rparr>"
    by (rule assess_call_risk_run)
  consider (go) "permission_assessment e mode x (cl_args c) s1 = (Inr None, s2)" "permission_executes e mode x (cl_args c)"
    | (stop) as lv s3 where "permission_assessment e mode x (cl_args c) s1 = (Inr (Some (as, lv)), s3)" "carried e c s s3"
  proof (cases "mode = ''ask''")
    case True
    then show thesis using k by (intro stop[of None RISK_NOT_ASSESSED s1]) (simp_all add: permission_assessment_def engine_simps)
  next
    case other: False
    show thesis
    proof (cases "permission_should_interrupt mode (Some a)")
      case True
      then show thesis using other a k
        by (intro stop[of "Some a" "ra_risk_level a" s2]) (simp_all add: permission_assessment_def andthen_def engine_simps carried_asked)
    next
      case False
      then show thesis using other a(1)
        by (intro go) (auto simp: permission_assessment_def andthen_def engine_simps permission_executes_def possible_risk_def)
    qed
  qed
  then show ?thesis
  proof cases
    case go
    have k2: "carried e c s s2" using k by (simp add: a(2) carried_asked)
    then show ?thesis using auto[OF go(2)]
      by (intro handed_bind[where m="permission_assessment e mode x (cl_args c)", OF go(1)])
        (auto simp: carried_def intro!: handed_next)
  next
    case (stop as lv s3)
    let ?p = "resolve_confirmation (dt_presence t) = ''prepare''"
    define draft where "draft = \<lparr>dr_capability = x,
      dr_summary = (case as of None \<Rightarrow> ''User confirmation required (ask mode).'' | Some a \<Rightarrow> ra_reasoning a), dr_risk_level = lv,
      dr_refs = permission_refs e t c mode x as ?p, dr_type = fst (prepared_approval_overrides ?p),
      dr_expires_at = snd (prepared_approval_overrides ?p)\<rparr>"
    have pers: "persist_permission_approval e t c mode x as lv s3 = get_or_create_approval e t c draft (kn_trust s3) s3"
      by (simp add: persist_permission_approval_def draft_def split_def Let_def)
    have "keyed t c draft" by (simp add: keyed_def draft_def)
    then show ?thesis
    proof (rule persist_run[of t c draft e "kn_trust s3" s3])
      fix y s4 assume "get_or_create_approval e t c draft (kn_trust s3) s3 = (Inl y, s4)" "kn_calls s4 = kn_calls s3"
      then show ?thesis using stop(2)
        by (intro handed_bind[where m="permission_assessment e mode x (cl_args c)", OF stop(1)])
          (simp, intro handed_stop[where m="persist_permission_approval e t c mode x as lv" and x=y and ?s2.0=s4],
            simp_all add: pers carried_def)
    next
      fix i s4 assume i: "get_or_create_approval e t c draft (kn_trust s3) s3 = (Inr i, s4)" "carried e c s3 s4"
        "call_key t c \<in> gate_key ` set (kn_approvals s4)"
      have k4: "carried e c s s4" using stop(2) i(2) by (simp add: carried_def)
      have "handed Q h c s
          (if resolve_confirmation (dt_presence t) = ''prepare'' then ret staged
           else andthen (interrupt p) (\<lambda>v. if is_approved v then h c else andthen get (\<lambda>s. ret (m s)))) s4" for staged p m
        by (rule handed_confirm[OF k4 i(3) conf]) (simp_all add: engine_simps)
      then show ?thesis
        by (intro handed_bind[where m="permission_assessment e mode x (cl_args c)", OF stop(1)])
          (simp, intro handed_bind[where m="persist_permission_approval e t c mode x as lv" and x=i and ?s2.0=s4],
            simp_all add: pers i(1))
    qed
  qed
qed

interpretation permission_law: interceptor_law "permission_gate e t mode" "permitted e t mode" for e t mode
proof
  fix h c and s :: chain_state
  let ?Q = "permitted e t mode c s"
  have "handed ?Q h c s (permission_gate e t mode h c) s"
  proof (cases "is_builtin c \<or> mode = ''bypass''")
    case True
    then have "permission_gate e t mode h c = h c" by (auto simp: permission_gate_def)
    then show ?thesis using True by (auto simp: permitted_def intro!: handed_next)
  next
    case False
    obtain ok tool s1 where g: "gate_cap e (cl_name c) s = (Inr (ok, capability_of tool), s1)" "call_intact e c s s1"
      "knows e (cl_name c) s (ok, tool)" by (rule gate_cap_run)
    let ?x = "opt_or (capability_of tool) []"
    have k: "carried e c s s1" using g(2) by (rule carried_undisturbed)
    have calls: "kn_calls s1 = kn_calls s" using k by (simp add: carried_def)
    have Q: "?Q s2" if "ok" "passed e c s s2" "never_gated (capability_of tool)
        \<or> permission_executes e mode ?x (cl_args c) \<or> confirmed t c s s2" for s2
      using that g(3) by (auto simp: permitted_def)
    note start = handed_bind[where m="gate_cap e (cl_name c)", OF g(1)]
    show ?thesis
    proof (cases "ok \<and> \<not> never_gated (capability_of tool)")
      case easy: False
      then show ?thesis using False calls Q k
        by (auto simp: permission_gate_def carried_passed intro!: start handed_ret handed_next)
    next
      case gated: True
      show ?thesis
      proof (cases "find_existing_approval t c (kn_approvals s1)")
        case None
        have "handed ?Q h c s (andthen get (\<lambda>s. case find_existing_approval t c (kn_approvals s) of
            Some ap \<Rightarrow> m ap
          | None \<Rightarrow> n)) s1" if "handed ?Q h c s n s1" for m n
          using that None by (intro handed_get) simp
        then show ?thesis using False gated Q k
          by (simp add: permission_gate_def) (intro start, simp, blast intro: permission_decision[OF k] carried_passed)
      next
        case (Some ap)
        have "handed ?Q h c s
          (if resolve_confirmation (dt_presence t) = ''prepare'' then ret staged
           else andthen (interrupt p) (\<lambda>v. if is_approved v then h c else ret m)) s1" for staged p m
          by (rule handed_confirm[OF k find_existing_in(2)[OF Some]]) (use gated Q in \<open>auto simp: engine_simps\<close>)
        then show ?thesis using False gated
          by (simp add: permission_gate_def) (intro start, simp add: handed_get Some)
      qed
    qed
  qed
  then show "kn_calls (snd (permission_gate e t mode h c s)) = kn_calls s \<or>
      (\<exists>s1. ?Q s1 \<and> kn_calls s1 = kn_calls s \<and> kn_calls (snd (permission_gate e t mode h c s)) = kn_calls (snd (h c s1)))"
    by (simp add: handed_def)
qed

section \<open>The lock, the read-back, the cap and the dispatcher\<close>

definition serialized :: "turn_env \<Rightarrow> deep_turn \<Rightarrow> tool_call \<Rightarrow> chain_state \<Rightarrow> chain_state \<Rightarrow> bool" where
  "serialized e t c s s1 \<longleftrightarrow> passed e c s s1 \<and>
     (is_builtin c \<or> tv_redis e \<or> \<not> dt_require_redis t \<or>
      (\<exists>tool. knows e (cl_name c) s (True, tool) \<and> capability_of tool \<noteq> None \<and> never_gated (capability_of tool)))"

lemma under_write_lock_ends:
  "kn_calls (snd (under_write_lock e key h c s)) = kn_calls s \<or>
   kn_calls (snd (under_write_lock e key h c s)) = kn_calls (snd (h c (s\<lparr>kn_asked := Suc (kn_asked s)\<rparr>)))"
proof -
  have end_state: "snd (under_write_lock e key h c s)
      = snd (andthen (andthen (ask (\<lambda>n. tv_lock e n key)) lift_sum) (\<lambda>obtained. if obtained then h c else raise Contended) s)"
    by (simp add: under_write_lock_def split: prod.split sum.split tool_exn.split)
  show ?thesis unfolding end_state
    by (cases "tv_lock e (kn_asked s) key") (auto simp: andthen_def engine_simps)
qed

interpretation lock_law: interceptor_law "write_lock e t" "serialized e t" for e t
proof
  fix h c and s :: chain_state
  show "kn_calls (snd (write_lock e t h c s)) = kn_calls s \<or>
      (\<exists>s1. serialized e t c s s1 \<and> kn_calls s1 = kn_calls s \<and> kn_calls (snd (write_lock e t h c s)) = kn_calls (snd (h c s1)))"
  proof (cases "is_builtin c \<or> \<not> tv_redis e \<and> \<not> dt_require_redis t")
    case True
    then have "write_lock e t h c = h c" by (auto simp: write_lock_def)
    then show ?thesis using True by (intro passed_on[of _ c s s]) (auto simp: serialized_def)
  next
    case False
    obtain r s1 where r: "resolve_shared e (cl_name c) s = (Inr r, s1)" "call_intact e c s s1" "knows e (cl_name c) s r"
      by (rule resolve_shared_run)
    obtain ok tool where ok: "r = (ok, tool)" by (cases r)
    let ?cap = "if ok then capability_of tool else None"
    have cap: "resolve_cap e (cl_name c) s = (Inr ?cap, s1)" using r(1) ok by (simp add: resolve_cap_def andthen_def engine_simps)
    have k: "passed e c s s1" "passed e c s (s1\<lparr>kn_asked := n\<rparr>)" "kn_calls s1 = kn_calls s" for n
      using carried_undisturbed[OF r(2)] by (simp_all add: carried_passed carried_asked) (simp add: carried_def)
    have run: "write_lock e t h c s = (case write_lock_route (dt_workspace_id t) (tv_redis e) (dt_require_redis t) (\<lambda>_. ?cap) (cl_name c) of
          Unlocked \<Rightarrow> h c | Refused reason \<Rightarrow> ret (write_refused_message c reason) | Under key \<Rightarrow> under_write_lock e key h c) s1"
      using False by (auto simp: write_lock_def andthen_Inr[where m="resolve_cap e (cl_name c)", OF cap])
    show ?thesis
    proof (cases "write_lock_route (dt_workspace_id t) (tv_redis e) (dt_require_redis t) (\<lambda>_. ?cap) (cl_name c)")
      case Unlocked
      then have "serialized e t c s s1" using False k(1) r(3) ok
        by (auto simp: serialized_def write_lock_route_def is_builtin_def Let_def never_gated_def split: if_splits)
      then show ?thesis using run Unlocked k(3) by (intro passed_on[of _ c s s1]) simp_all
    next
      case (Refused reason)
      then show ?thesis using run k(3) by (simp add: engine_simps)
    next
      case (Under key)
      then have "tv_redis e" using False
        by (auto simp: write_lock_route_def is_builtin_def Let_def split: if_splits)
      then have "serialized e t c s (s1\<lparr>kn_asked := Suc (kn_asked s1)\<rparr>)" using k(2) by (simp add: serialized_def)
      then show ?thesis using run Under under_write_lock_ends[of e key h c s1] k(3) by auto
    qed
  qed
qed

lemma record_outcome_calls [simp]: "kn_calls (snd (record_deep_confirmed_outcome e t x l s)) = kn_calls s"
  by (simp add: record_deep_confirmed_outcome_def engine_simps)

lemma resolve_cap_calls: "kn_calls (snd (resolve_cap e name s)) = kn_calls s"
proof -
  obtain r s1 where "resolve_cap e (cl_name \<lparr>cl_name = name, cl_id = [], cl_args = []\<rparr>) s = (Inr r, s1)"
    "call_intact e \<lparr>cl_name = name, cl_id = [], cl_args = []\<rparr> s s1" by (rule resolve_cap_run)
  then show ?thesis by (simp add: call_intact_def)
qed

lemma quiet_calls: "keeps kn_calls (resolve_cap e name)" "keeps kn_calls (ask f)" "keeps kn_calls (assess_call_risk e x a)"
  "keeps kn_calls (record_deep_confirmed_outcome e t x l)"
  by (simp_all add: keeps_def resolve_cap_calls engine_simps) (simp add: assess_call_risk_def andthen_def engine_simps)

lemma after_write_calls: "kn_calls (snd (after_write e t c m s)) = kn_calls s"
proof -
  have "keeps kn_calls (after_write e t c m)"
    unfolding after_write_def by (intro keeps_intros quiet_calls keeps_if keeps_let)
  then show ?thesis by (rule keepsD)
qed

interpretation readback_law: interceptor_law "readback e t" "\<lambda>c s s1. s1 = s" for e t
proof
  fix h c and s :: chain_state
  have "kn_calls (snd (readback e t h c s)) = kn_calls (snd (h c s))"
    by (simp add: readback_def andthen_calls after_write_calls)
  then show "kn_calls (snd (readback e t h c s)) = kn_calls s \<or>
      (\<exists>s1. s1 = s \<and> kn_calls s1 = kn_calls s \<and> kn_calls (snd (readback e t h c s)) = kn_calls (snd (h c s1)))"
    by simp
qed

interpretation repair_law: interceptor_law "repair_cap e" "\<lambda>c s s1. s1 = s" for e
proof
  fix h c and s :: chain_state
  have "kn_calls (snd (repair_cap e h c s)) = kn_calls s \<or> kn_calls (snd (repair_cap e h c s)) = kn_calls (snd (h c s))"
    by (auto simp: repair_cap_def engine_simps count_repair_def note_failure_def forgive_def Let_def intro!: andthen_calls)
  then show "kn_calls (snd (repair_cap e h c s)) = kn_calls s \<or>
      (\<exists>s1. s1 = s \<and> kn_calls s1 = kn_calls s \<and> kn_calls (snd (repair_cap e h c s)) = kn_calls (snd (h c s1)))"
    by simp
qed

lemma dispatcher_calls:
  "kn_calls (snd (muldro_tool_dispatcher e (builtin_body e) c s)) =
     (if is_builtin c then kn_calls s else kn_calls s @ [(cl_name c, cl_args c)])"
  by (simp add: muldro_tool_dispatcher_def builtin_body_def execute_tool_def andthen_def engine_simps split: sum.split)

section \<open>The chain's guarantee\<close>

interpretation audited_scope: two_interceptors "capability_scope e t" "in_scope e t" "governor_audit e" "audited e" for e t
  by unfold_locales

interpretation broken: two_interceptors "\<lambda>h. capability_scope e t (governor_audit e h)" "\<lambda>c. in_scope e t c OO audited e c"
  "unavailable_server e" "untouched e" for e t
  by unfold_locales

interpretation front: two_interceptors "\<lambda>h. capability_scope e t (governor_audit e (unavailable_server e h))"
  "\<lambda>c. (in_scope e t c OO audited e c) OO untouched e c" "trust_gate e t" "trusted e t" for e t
  by unfold_locales

interpretation locked: two_interceptors "write_lock e t" "serialized e t" "repair_cap e" "\<lambda>c s s1. s1 = s" for e t
  by unfold_locales

interpretation read_back: two_interceptors "readback e t" "\<lambda>c s s1. s1 = s" "repair_cap e" "\<lambda>c s s1. s1 = s" for e t
  by unfold_locales

interpretation locked_read: two_interceptors "write_lock e t" "serialized e t" "\<lambda>h. readback e t (repair_cap e h)"
  "\<lambda>c. (\<lambda>s s1. s1 = s) OO (\<lambda>s s1. s1 = s)" for e t
  by unfold_locales

interpretation asked_locked: two_interceptors "permission_gate e t m" "permitted e t m" "\<lambda>h. write_lock e t (repair_cap e h)"
  "\<lambda>c. serialized e t c OO (\<lambda>s s1. s1 = s)" for e t m
  by unfold_locales

interpretation asked_locked_read: two_interceptors "permission_gate e t m" "permitted e t m"
  "\<lambda>h. write_lock e t (readback e t (repair_cap e h))"
  "\<lambda>c. serialized e t c OO ((\<lambda>s s1. s1 = s) OO (\<lambda>s s1. s1 = s))" for e t m
  by unfold_locales

text \<open>The relation of the chain from the state a call comes in to the one its dispatcher runs in.\<close>

definition cleared_by_mode :: "turn_env \<Rightarrow> deep_turn \<Rightarrow> tool_call \<Rightarrow> chain_state \<Rightarrow> chain_state \<Rightarrow> bool" where
  "cleared_by_mode e t c s s1 \<longleftrightarrow>
     (case dt_permission_mode t of
        Some m \<Rightarrow> if m \<in> {''ask'', ''auto''} then permitted e t m c s s1 else s1 = s
      | None \<Rightarrow> s1 = s)"

definition cleared :: "turn_env \<Rightarrow> deep_turn \<Rightarrow> tool_call \<Rightarrow> chain_state \<Rightarrow> chain_state \<Rightarrow> bool" where
  "cleared e t c =
     ((in_scope e t c OO audited e c) OO untouched e c) OO trusted e t c OO cleared_by_mode e t c OO serialized e t c"

lemma tool_chain_unfold:
  "tool_chain e t = (\<lambda>h. capability_scope e t (governor_audit e (unavailable_server e (trust_gate e t h))))
     (let inner = write_lock e t ((if dt_readback t then readback e t else (\<lambda>h. h)) (repair_cap e (muldro_tool_dispatcher e (builtin_body e))))
      in case dt_permission_mode t of
           None \<Rightarrow> inner | Some m \<Rightarrow> if m \<in> {''ask'', ''auto''} then permission_gate e t m inner else inner)"
  by (auto simp: tool_chain_def interceptors_def permission_chain_def Let_def split: option.split)

lemma eq_OO_id: "((\<lambda>s s1. s1 = s) OO R) = R" "(R OO (\<lambda>s s1. s1 = s)) = R"
  by (auto simp: fun_eq_iff)

lemma cleared_by_mode_cases:
  "dt_permission_mode t = None \<Longrightarrow> cleared_by_mode e t c = (\<lambda>s s1. s1 = s)"
  "dt_permission_mode t = Some m \<Longrightarrow>
     cleared_by_mode e t c = (if m \<in> {''ask'', ''auto''} then permitted e t m c else (\<lambda>s s1. s1 = s))"
  by (auto simp: cleared_by_mode_def fun_eq_iff)

lemma executed_cleared:
  assumes "kn_calls (snd (tool_chain e t c s)) \<noteq> kn_calls s"
  shows "\<not> is_builtin c" "kn_calls (snd (tool_chain e t c s)) = kn_calls s @ [(cl_name c, cl_args c)]"
    and "\<exists>s1. cleared e t c s s1"
proof -
  let ?d = "muldro_tool_dispatcher e (builtin_body e)"
  define rest where "rest = (let inner = write_lock e t ((if dt_readback t then readback e t else (\<lambda>h. h)) (repair_cap e ?d))
      in case dt_permission_mode t of
           None \<Rightarrow> inner | Some m \<Rightarrow> if m \<in> {''ask'', ''auto''} then permission_gate e t m inner else inner)"
  have chain: "tool_chain e t c s = capability_scope e t (governor_audit e (unavailable_server e (trust_gate e t rest))) c s"
    unfolding tool_chain_unfold rest_def by simp
  obtain s1 where s1: "(((in_scope e t c OO audited e c) OO untouched e c) OO trusted e t c) s s1" "kn_calls s1 = kn_calls s"
    "kn_calls (snd (tool_chain e t c s)) = kn_calls (snd (rest c s1))"
    using front.composed.hands_on[of e t rest c s] assms unfolding chain by blast
  have "kn_calls (snd (rest c s1)) = kn_calls s1 \<or> (\<exists>s2. (cleared_by_mode e t c OO serialized e t c) s1 s2 \<and>
      kn_calls s2 = kn_calls s1 \<and> kn_calls (snd (rest c s1)) = kn_calls (snd (?d c s2)))"
    using locked.composed.hands_on[of e t ?d c s1] locked_read.composed.hands_on[of e t ?d c s1]
      asked_locked.composed.hands_on[of e t "the (dt_permission_mode t)" ?d c s1]
      asked_locked_read.composed.hands_on[of e t "the (dt_permission_mode t)" ?d c s1]
    by (cases "dt_permission_mode t"; cases "the (dt_permission_mode t) \<in> {''ask'', ''auto''}"; cases "dt_readback t")
      (simp_all add: rest_def cleared_by_mode_cases eq_OO_id)
  then obtain s2 where s2: "(cleared_by_mode e t c OO serialized e t c) s1 s2" "kn_calls s2 = kn_calls s"
    "kn_calls (snd (tool_chain e t c s)) = kn_calls (snd (?d c s2))"
    using s1 assms by auto
  show "\<exists>s1. cleared e t c s s1" using s1(1) s2(1) unfolding cleared_def by blast
  show "\<not> is_builtin c" "kn_calls (snd (tool_chain e t c s)) = kn_calls s @ [(cl_name c, cl_args c)]"
    using s2 assms by (auto simp: dispatcher_calls split: if_splits)
qed

end
