(* ===== verification/Deep_Turn.thy ===== *)
theory Deep_Turn
  imports Gate_Laws
begin

text \<open>
  A turn of the deep runtime: \<open>orchestrator/agent_invoker.py\<close> (the single-lead turn, the autonomous step, the two
  resume paths), the frames of \<open>deep_runtime/stream_adapter.py\<close> that carry a tool's result, a pause or a failure, and the
  thread identity of \<open>deep_runtime/thread_identity.py\<close>. The model's choice of tool calls and its text are parameters;
  calls run one after another. A call is a task of the graph: it starts with the resume values meant for it, and a
  resumed turn is rebuilt, so that everything the closures held is empty again and only the tables persist.
\<close>

section \<open>Thread identity\<close>

definition make_thread_id :: "string \<Rightarrow> string \<Rightarrow> string" where
  "make_thread_id workspace_id ulid = ''c:'' @ workspace_id @ '':'' @ ulid"

definition workspace_of_thread_id :: "json \<Rightarrow> string option" where
  "workspace_of_thread_id thread_id =
     (case thread_id of
        JStr s \<Rightarrow>
          (case partition_at (CHR '':'') s of
             None \<Rightarrow> None
           | Some (tag, rest) \<Rightarrow>
               (case partition_at (CHR '':'') rest of
                  None \<Rightarrow> None
                | Some (ws, _) \<Rightarrow> if tag = ''c'' then Some ws else None))
      | _ \<Rightarrow> None)"

section \<open>Running calls\<close>

definition run_call :: "turn_env \<Rightarrow> deep_turn \<Rightarrow> json list \<Rightarrow> tool_call \<Rightarrow> tool_message chain" where
  "run_call e t resume c = andthen (modify (\<lambda>s. s\<lparr>kn_resume := resume\<rparr>)) (\<lambda>_. tool_chain e t c)"

text \<open>What a rebuilt agent starts from: the tables as they are, the closures' dictionaries and sets empty.\<close>

definition rebuilt :: "chain_state \<Rightarrow> chain_state" where
  "rebuilt s = s\<lparr>kn_cache := [], kn_down_servers := [], kn_down_providers := [], kn_failures := [], kn_resume := []\<rparr>"

datatype stream_frame =
    ToolCall string jdict
  | ToolResult content bool
  | ApprovalNeeded jdict
  | ErrorFrame string
  | AgentDone string "string list"

definition GENERIC_MESSAGE :: string where
  "GENERIC_MESSAGE = ''Something went wrong. Please try again.''"

fun stream_calls ::
  "turn_env \<Rightarrow> deep_turn \<Rightarrow> string \<Rightarrow> string list \<Rightarrow> tool_call list \<Rightarrow> chain_state \<Rightarrow> stream_frame list \<times> chain_state" where
  "stream_calls e t reply called [] s = ([AgentDone reply called], s)"
| "stream_calls e t reply called (c # cs) s =
     (let called' = called @ [cl_name c]
      in case run_call e t [] c s of
           (Inr m, s1) \<Rightarrow>
             (let (fs, s2) = stream_calls e t reply called' cs s1
              in (ToolCall (cl_name c) (cl_args c) # ToolResult (tm_content m) (is_blocked_result m) # fs, s2))
         | (Inl (Interrupted p), s1) \<Rightarrow> ([ToolCall (cl_name c) (cl_args c), ApprovalNeeded p], s1)
         | (Inl _, s1) \<Rightarrow> ([ToolCall (cl_name c) (cl_args c), ErrorFrame GENERIC_MESSAGE], s1))"

section \<open>The autonomous step\<close>

record step_seen =
  sn_result :: string
  sn_tools_called :: "string list"
  sn_errors :: "string list"
  sn_auth_required :: "jdict option"
  sn_approval_blocked :: bool
  sn_error_occurred :: bool

definition parse_tool_result_content :: "turn_env \<Rightarrow> content \<Rightarrow> jdict option" where
  "parse_tool_result_content e cont = (case loads_content (tv_loads e) cont of Some (JObj d) \<Rightarrow> Some d | _ \<Rightarrow> None)"

fun see_frame :: "turn_env \<Rightarrow> stream_frame \<Rightarrow> step_seen \<Rightarrow> step_seen" where
  "see_frame e (ToolCall _ _) n = n"
| "see_frame e (AgentDone reply called) n = n\<lparr>sn_result := reply, sn_tools_called := called\<rparr>"
| "see_frame e (ToolResult cont blocked) n =
     (case parse_tool_result_content e cont of
        Some d \<Rightarrow>
          if auth_required d then
            (if sn_auth_required n = None then n\<lparr>sn_auth_required := Some d\<rparr> else n)
          else if blocked then n\<lparr>sn_errors := sn_errors n @ [content_text (tv_dumps e) cont]\<rparr> else n
      | None \<Rightarrow> if blocked then n\<lparr>sn_errors := sn_errors n @ [content_text (tv_dumps e) cont]\<rparr> else n)"
| "see_frame e (ErrorFrame m) n = n\<lparr>sn_errors := sn_errors n @ [m], sn_error_occurred := True\<rparr>"
| "see_frame e (ApprovalNeeded _) n =
     n\<lparr>sn_approval_blocked := True, sn_errors := sn_errors n @ [''unapproved within-step capability required approval'']\<rparr>"

definition nothing_seen :: step_seen where
  "nothing_seen = \<lparr>sn_result = [], sn_tools_called = [], sn_errors = [], sn_auth_required = None,
     sn_approval_blocked = False, sn_error_occurred = False\<rparr>"

definition step_output :: "step_seen \<Rightarrow> jdict" where
  "step_output n =
     [(''status'', JStr (if sn_auth_required n \<noteq> None \<or> sn_approval_blocked n \<or> sn_error_occurred n then ''error'' else ''completed'')),
      (''result'', JStr (sn_result n)), (''tools_called'', JList (map JStr (sn_tools_called n))),
      (''errors'', JList (map JStr (sn_errors n)))]
     @ (case sn_auth_required n of
          None \<Rightarrow> []
        | Some d \<Rightarrow> [(''error_code'', JStr ''auth_required''), (''provider'', jget_default d ''provider'' (JStr [])),
                    (''server'', jget_default d ''server'' (JStr [])), (''auth_required'', JObj d)])"

definition step_refused :: "string \<Rightarrow> jdict" where
  "step_refused reason =
     [(''status'', JStr ''error''), (''result'', JStr []), (''tools_called'', JList []), (''errors'', JList [JStr reason])]"

record step_call =
  sc_agent_name :: string
  sc_scope :: "string list"
  sc_context_block :: string
  sc_user_id :: string
  sc_workspace_id :: string
  sc_pre_approved :: "string list"
  sc_ulid :: string
  sc_require_redis :: bool
  sc_readback :: bool

definition autonomous_turn :: "step_call \<Rightarrow> deep_turn" where
  "autonomous_turn k =
     \<lparr>dt_agent_name = sc_agent_name k, dt_scope = sc_scope k, dt_source = ''autonomous'', dt_workspace_id = sc_workspace_id k,
      dt_user_id = sc_user_id k, dt_thread_id = make_thread_id (sc_workspace_id k) (sc_ulid k), dt_permission_mode = None,
      dt_presence = ''absent'', dt_pre_approved = sc_pre_approved k, dt_context_block = sc_context_block k, dt_user_message = [],
      dt_require_redis = sc_require_redis k, dt_readback = sc_readback k\<rparr>"

definition run_autonomous_deep_step ::
  "turn_env \<Rightarrow> step_call \<Rightarrow> string \<Rightarrow> tool_call list \<Rightarrow> chain_state \<Rightarrow> jdict \<times> chain_state" where
  "run_autonomous_deep_step e k reply calls s =
     (if py_strip (sc_workspace_id k) = [] then (step_refused ''missing workspace_id'', s)
      else if workspace_of_thread_id (JStr (dt_thread_id (autonomous_turn k))) \<noteq> Some (sc_workspace_id k) then
        (step_refused ''workspace thread mismatch'', s)
      else
        (let (frames, s') = stream_calls e (autonomous_turn k) reply [] calls (rebuilt s)
         in (step_output (fold (see_frame e) frames nothing_seen), s')))"

section \<open>Resuming a paused turn\<close>

definition load_pending_approval :: "string \<Rightarrow> string \<Rightarrow> approval list \<Rightarrow> string + approval" where
  "load_pending_approval approval_id workspace_id rows =
     (case row_find ap_approval_id approval_id rows of
        None \<Rightarrow> Inl ''approval not found''
      | Some ap \<Rightarrow>
          if ap_workspace_id ap \<noteq> workspace_id then Inl ''approval not found''
          else if ap_status ap \<noteq> ''pending'' then Inl ''approval not pending''
          else if jget (dict_or_empty (ap_artifact_refs ap)) ''prepared'' = JBool True then
            Inl ''This approval is prepared work; confirm it via POST /v1/approvals/<approval_id>/approve.''
          else if workspace_of_thread_id (jget (dict_or_empty (ap_artifact_refs ap)) ''thread_id'') \<noteq> Some workspace_id then
            Inl ''approval not found''
          else Inr ap)"

text \<open>The conditional update: whether this caller won it, and the table.\<close>

definition cas_flip_pending :: "string \<Rightarrow> (approval \<Rightarrow> approval) \<Rightarrow> approval list \<Rightarrow> bool \<times> approval list" where
  "cas_flip_pending approval_id values rows =
     (list_ex (\<lambda>ap. ap_approval_id ap = approval_id \<and> ap_status ap = ''pending'') rows,
      map (\<lambda>ap. if ap_approval_id ap = approval_id \<and> ap_status ap = ''pending'' then values ap else ap) rows)"

definition decision_values :: "instant \<Rightarrow> string \<Rightarrow> string \<Rightarrow> approval \<Rightarrow> approval" where
  "decision_values now user_id decision ap =
     ap\<lparr>ap_status := (if decision = ''approve'' then ''approved'' else ''rejected''), ap_decided_at := Some now,
        ap_approved_by := Some user_id\<rparr>"

definition lead_values :: "instant \<Rightarrow> string \<Rightarrow> string \<Rightarrow> string option \<Rightarrow> approval \<Rightarrow> approval" where
  "lead_values now user_id decision reason ap =
     (let decided = (decision_values now user_id decision ap)\<lparr>ap_decision_reason := reason\<rparr>
      in if decision = ''approve'' then
           decided\<lparr>ap_artifact_refs := Some (AList.update ''decision_type''
             (JStr (if opt_or reason [] \<noteq> [] then ''modified'' else ''approved'')) (dict_or_empty (ap_artifact_refs ap)))\<rparr>
         else decided)"

definition scope_of :: "json list \<Rightarrow> string list" where
  "scope_of vs = sort (remdups (List.map_filter as_str vs))"

definition resumed_mode :: "jdict \<Rightarrow> string" where
  "resumed_mode refs = (if jget refs ''permission_mode'' \<in> {JStr ''ask'', JStr ''auto''} then jstr (jget refs ''permission_mode'') else ''ask'')"

text \<open>What the settings add to a rebuilt turn.\<close>

record resume_settings =
  rs_require_redis :: bool
  rs_readback :: bool

definition lead_turn :: "resume_settings \<Rightarrow> string \<Rightarrow> string \<Rightarrow> string list \<Rightarrow> jdict \<Rightarrow> deep_turn" where
  "lead_turn st user_id workspace_id scope refs =
     \<lparr>dt_agent_name = ''lead'', dt_scope = scope, dt_source = ''direct_user_request'', dt_workspace_id = workspace_id,
      dt_user_id = user_id, dt_thread_id = jstr (jget refs ''thread_id''), dt_permission_mode = Some (resumed_mode refs),
      dt_presence = ''present'', dt_pre_approved = [], dt_context_block = jstr (jget_default refs ''context_block'' (JStr [])),
      dt_user_message = [], dt_require_redis = True, dt_readback = rs_readback st\<rparr>"

definition resume_deep_lead ::
  "resume_settings \<Rightarrow> instant \<Rightarrow> string \<Rightarrow> string \<Rightarrow> string option \<Rightarrow> string \<Rightarrow> string \<Rightarrow> approval list
   \<Rightarrow> (string + deep_turn) \<times> approval list" where
  "resume_deep_lead st now approval_id decision reason user_id workspace_id rows =
     (if decision \<notin> {''approve'', ''reject''} then (Inl GENERIC_MESSAGE, rows)
      else case load_pending_approval approval_id workspace_id rows of
          Inl err \<Rightarrow> (Inl err, rows)
        | Inr ap \<Rightarrow>
            (let refs = dict_or_empty (ap_artifact_refs ap)
             in case jget refs ''lead_scope'' of
                  JList (v # vs) \<Rightarrow>
                    if \<not> truthy (jget refs ''thread_id'') then (Inl ''approval not resumable'', rows)
                    else (case cas_flip_pending approval_id (lead_values now user_id decision reason) rows of
                            (won, rows') \<Rightarrow>
                              if \<not> won then (Inl ''approval not pending'', rows')
                              else (Inr (lead_turn st user_id workspace_id (scope_of (v # vs)) refs), rows'))
                | _ \<Rightarrow> (Inl ''approval not resumable'', rows)))"

definition resume_deep_turn ::
  "resume_settings \<Rightarrow> (string \<Rightarrow> string list option) \<Rightarrow> instant \<Rightarrow> string \<Rightarrow> string \<Rightarrow> string \<Rightarrow> string \<Rightarrow> approval list
   \<Rightarrow> (string + deep_turn) \<times> approval list" where
  "resume_deep_turn st agents now approval_id decision user_id workspace_id rows =
     (if decision \<notin> {''approve'', ''reject''} then (Inl GENERIC_MESSAGE, rows)
      else case load_pending_approval approval_id workspace_id rows of
          Inl err \<Rightarrow> (Inl err, rows)
        | Inr ap \<Rightarrow>
            (let refs = dict_or_empty (ap_artifact_refs ap); agent_name = jstr (jget refs ''agent_name'')
             in if \<not> truthy (jget refs ''thread_id'') \<or> \<not> truthy (jget refs ''agent_name'') then
                  (Inl ''approval missing thread_id/agent_name'', rows)
                else case agents agent_name of
                    None \<Rightarrow> (Inl (''Unknown agent: '' @ agent_name), rows)
                  | Some scope \<Rightarrow>
                      (case cas_flip_pending approval_id (decision_values now user_id decision) rows of
                         (won, rows') \<Rightarrow>
                           if \<not> won then (Inl ''approval not pending'', rows')
                           else (Inr \<lparr>dt_agent_name = agent_name, dt_scope = scope, dt_source = ''autonomous'',
                                  dt_workspace_id = workspace_id, dt_user_id = user_id,
                                  dt_thread_id = jstr (jget refs ''thread_id''), dt_permission_mode = None,
                                  dt_presence = ''present'', dt_pre_approved = [],
                                  dt_context_block = jstr (jget_default refs ''context_block'' (JStr [])), dt_user_message = [],
                                  dt_require_redis = rs_require_redis st, dt_readback = rs_readback st\<rparr>, rows'))))"

text \<open>The continuation: the paused call is run again with the decision, on the rebuilt agent and the decided table.\<close>

definition replay_call :: "turn_env \<Rightarrow> deep_turn \<Rightarrow> string \<Rightarrow> tool_call \<Rightarrow> approval list \<Rightarrow> chain_state
    \<Rightarrow> (tool_exn + tool_message) \<times> chain_state" where
  "replay_call e t decision c rows s = run_call e t [JStr decision] c ((rebuilt s)\<lparr>kn_approvals := rows\<rparr>)"

section \<open>What a call that reaches a tool has passed\<close>

text \<open>The registry's answer about the call's tool is the same whenever it answers; so is what the turn remembers of it.\<close>

definition steady :: "turn_env \<Rightarrow> tool_call \<Rightarrow> tool_def \<Rightarrow> chain_state \<Rightarrow> bool" where
  "steady e c d s \<longleftrightarrow> (\<forall>n. tv_registry e n (cl_name c) \<in> {Inl (), Inr (Some d)}) \<and>
     map_of (kn_cache s) (cl_name c) \<in> {None, Some (False, None), Some (True, Some d)}"

definition answered :: "deep_turn \<Rightarrow> chain_state \<Rightarrow> bool" where
  "answered t s \<longleftrightarrow> dt_presence t = ''present'' \<and> (\<exists>v\<in>set (kn_resume s). is_approved v)"

lemma steady_knows:
  assumes "steady e c d s" "knows e (cl_name c) s (True, tool)"
  shows "tool = Some d"
proof -
  have reg: "tv_registry e n (cl_name c) = Inl () \<or> tv_registry e n (cl_name c) = Inr (Some d)" for n
    using assms(1) by (auto simp: steady_def)
  have "tool = Some d" if known: "registry_gives e (cl_name c) (True, tool)"
  proof -
    obtain n where "(True, tool) = (case tv_registry e n (cl_name c) of Inl _ \<Rightarrow> (False, None) | Inr t \<Rightarrow> (True, t))"
      using known unfolding registry_gives_def by blast
    then show ?thesis using reg[of n] by auto
  qed
  then show ?thesis using assms by (auto simp: knows_def steady_def)
qed

lemma steady_answers: "steady e c d s \<Longrightarrow> registry_gives e (cl_name c) (True, Some d') \<Longrightarrow> d' = d"
proof -
  assume st: "steady e c d s" and a: "registry_gives e (cl_name c) (True, Some d')"
  have "steady e c d (rebuilt s)" using st unfolding steady_def rebuilt_def by simp
  moreover have "knows e (cl_name c) (rebuilt s) (True, Some d')" using a unfolding knows_def rebuilt_def by simp
  ultimately show "d' = d" using steady_knows by blast
qed

lemma front_chain:
  assumes "((in_scope e t c OO audited e c) OO untouched e c) s s1" "\<not> is_builtin c" "steady e c d s"
  shows "tables s1 = tables s" "\<forall>r. knows e (cl_name c) s1 r \<longrightarrow> knows e (cl_name c) s r"
    and "\<exists>x. tf_capability d = Some x \<and> x \<noteq> [] \<and> x \<in> set (dt_scope t)"
proof -
  obtain u v where "in_scope e t c s u" "audited e c u v" "untouched e c v s1" using assms(1) by blast
  then show "tables s1 = tables s" "\<forall>r. knows e (cl_name c) s1 r \<longrightarrow> knows e (cl_name c) s r"
    and "\<exists>x. tf_capability d = Some x \<and> x \<noteq> [] \<and> x \<in> set (dt_scope t)"
    using assms(2) steady_answers[OF assms(3)] unfolding in_scope_def audited_def untouched_def call_intact_def
    by (simp, simp, metis)
qed

lemma trusted_meaning:
  assumes "trusted e t c s0 s1" "\<not> is_builtin c" "steady e c d s" "tf_capability d = Some x"
    and "\<forall>r. knows e (cl_name c) s0 r \<longrightarrow> knows e (cl_name c) s r" "tables s0 = tables s"
  shows "never_gated (Some x) \<or> (is_gated_source (dt_source t) \<longrightarrow>
      x \<in> set (dt_pre_approved t) \<or> trust_executes e t x (cl_args c) (kn_trust s) \<or> answered t s)"
    and "set (kn_resume s1) \<subseteq> set (kn_resume s)" "\<forall>r. knows e (cl_name c) s1 r \<longrightarrow> knows e (cl_name c) s r"
proof -
  have k: "tool = Some d" if "knows e (cl_name c) s0 (True, tool)" for tool
    using steady_knows[OF assms(3)] assms(5) that by blast
  show "never_gated (Some x) \<or> (is_gated_source (dt_source t) \<longrightarrow>
      x \<in> set (dt_pre_approved t) \<or> trust_executes e t x (cl_args c) (kn_trust s) \<or> answered t s)"
    using assms(1,2,4,6) by (auto simp: trusted_def tables_def capability_of_def confirmed_def answered_def dest!: k)
qed (use assms in \<open>auto simp: trusted_def passed_def tables_def\<close>)

lemma permitted_meaning:
  assumes "cleared_by_mode e t c s0 s1" "\<not> is_builtin c" "steady e c d s" "tf_capability d = Some x"
    and "\<forall>r. knows e (cl_name c) s0 r \<longrightarrow> knows e (cl_name c) s r" "set (kn_resume s0) \<subseteq> set (kn_resume s)"
  shows "never_gated (Some x) \<or> (\<forall>m\<in>{''ask'', ''auto''}. dt_permission_mode t = Some m \<longrightarrow>
      permission_executes e m x (cl_args c) \<or> answered t s)"
    and "\<forall>r. knows e (cl_name c) s1 r \<longrightarrow> knows e (cl_name c) s r"
proof -
  have k: "tool = Some d" if "knows e (cl_name c) s0 (True, tool)" for tool
    using steady_knows[OF assms(3)] assms(5) that by blast
  have "confirmed t c s0 s1 \<Longrightarrow> answered t s" using assms(6) unfolding confirmed_def answered_def by blast
  then show "never_gated (Some x) \<or> (\<forall>m\<in>{''ask'', ''auto''}. dt_permission_mode t = Some m \<longrightarrow>
      permission_executes e m x (cl_args c) \<or> answered t s)"
    using assms(1,2,4) by (auto simp: cleared_by_mode_def permitted_def capability_of_def dest!: k)
qed (use assms(1,5) in \<open>auto simp: cleared_by_mode_def permitted_def passed_def split: option.splits if_splits\<close>)

text \<open>C3. Whatever a turn is configured with, a tool is executed only for a call that was in the agent's scope and, if
  it is a write that is not one of the internal actions, was cleared by every gate the turn has: on a turn the founder
  did not start, the capability was approved for the step, or the trust matrix lets it run and it needs no read-back
  verification, or a person who is present approved this very call; where a permission mode is on, the mode lets it run
  on some assessment of its risk, or the person approved; and where Redis is required, Redis was there. It is executed
  once, with the arguments of the call.\<close>

theorem executed_call_was_cleared:
  assumes "steady e c d s" and "kn_calls (snd (tool_chain e t c s)) \<noteq> kn_calls s"
  shows "kn_calls (snd (tool_chain e t c s)) = kn_calls s @ [(cl_name c, cl_args c)]
    \<and> (\<exists>x. tf_capability d = Some x \<and> x \<in> set (dt_scope t) \<and>
       (never_gated (Some x) \<or>
        (is_gated_source (dt_source t) \<longrightarrow>
           x \<in> set (dt_pre_approved t) \<or> trust_executes e t x (cl_args c) (kn_trust s) \<or> answered t s) \<and>
        (\<forall>m\<in>{''ask'', ''auto''}. dt_permission_mode t = Some m \<longrightarrow>
           permission_executes e m x (cl_args c) \<or> answered t s) \<and>
        (tv_redis e \<or> \<not> dt_require_redis t)))"
proof -
  note ran = executed_cleared[OF assms(2)]
  obtain s3 where "cleared e t c s s3" using ran(3) by blast
  then obtain s0 s1 s2 where r: "((in_scope e t c OO audited e c) OO untouched e c) s s0" "trusted e t c s0 s1"
    "cleared_by_mode e t c s1 s2" "serialized e t c s2 s3" unfolding cleared_def by blast
  note front = front_chain[OF r(1) ran(1) assms(1)]
  obtain x where x: "tf_capability d = Some x" "x \<noteq> []" "x \<in> set (dt_scope t)" using front(3) by blast
  note trust = trusted_meaning[OF r(2) ran(1) assms(1) x(1) front(2,1)]
  note perm = permitted_meaning[OF r(3) ran(1) assms(1) x(1) trust(3,2)]
  have "tool = Some d" if "knows e (cl_name c) s2 (True, tool)" for tool
    using steady_knows[OF assms(1)] perm(2) that by blast
  then have "never_gated (Some x) \<or> tv_redis e \<or> \<not> dt_require_redis t"
    using r(4) ran(1) x(1) unfolding serialized_def capability_of_def by force
  then show ?thesis using ran(2) x trust(1) perm(1) by blast
qed

end
