(* ===== verification/Turn_Laws.thy ===== *)
theory Turn_Laws
  imports Deep_Turn
begin

text \<open>
  What a turn of the deep runtime does with a write nobody has cleared: it never suspends when nobody is there, it
  stages the write for review instead, and the staged row replays exactly the call that was staged; when somebody is
  there, the write waits for the answer and obeys it.
\<close>

section \<open>Presence never adds authority\<close>

text \<open>The permission mode a turn runs under only ever asks more often than the one that was requested: whatever the
  requested mode would have asked about, the effective mode asks about too, and confirmations are off only when that was
  requested, somebody is present on a turn that could be resumed, and the workspace is entitled to it.\<close>

lemma effective_mode_only_downgrades:
  "let eff = resolve_effective_permission_mode requested (resolve_effective_presence presence durable) entitled in
    eff \<in> set KNOWN_MODES \<and>
    (eff = ''bypass'' \<longleftrightarrow> requested = Some ''bypass'' \<and> presence = ''present'' \<and> durable \<and> entitled) \<and>
    permission_should_interrupt (opt_or requested ''ask'') a \<le> permission_should_interrupt eff a"
  by (cases requested)
    (auto simp: resolve_effective_permission_mode_def resolve_effective_presence_def KNOWN_MODES_def permission_should_interrupt_def)

section \<open>Nobody there: no suspension\<close>

definition calm :: "'a chain \<Rightarrow> bool" where
  "calm m \<longleftrightarrow> (\<forall>s p. fst (m s) \<noteq> Inl (Interrupted p))"

named_theorems calm_intros \<open>a computation never suspends the turn\<close>

lemma calm_andthen [calm_intros]: "calm m \<Longrightarrow> (\<And>x. calm (k x)) \<Longrightarrow> calm (andthen m k)"
  unfolding calm_def andthen_def by (auto split: prod.split sum.split) (metis fst_conv)

lemma calm_simple [calm_intros]: "calm (ret x)" "calm get" "calm (modify f)" "calm (ask q)" "calm (raise (Raised r))" "calm (raise Contended)"
  by (simp_all add: calm_def engine_simps)

lemma calm_branch [calm_intros]:
  "(b \<Longrightarrow> calm m) \<Longrightarrow> (\<not> b \<Longrightarrow> calm n) \<Longrightarrow> calm (if b then m else n)"
  "(\<And>x. calm (h x)) \<Longrightarrow> calm (Let v h)"
  "(\<And>a. calm (l a)) \<Longrightarrow> (\<And>b. calm (r b)) \<Longrightarrow> calm (case sv of Inl a \<Rightarrow> l a | Inr b \<Rightarrow> r b)"
  "calm n \<Longrightarrow> (\<And>x. calm (h x)) \<Longrightarrow> calm (case ov of None \<Rightarrow> n | Some x \<Rightarrow> h x)"
  "(\<And>a b. calm (p a b)) \<Longrightarrow> calm (case pv of (a, b) \<Rightarrow> p a b)"
  "calm u \<Longrightarrow> (\<And>r. calm (f r)) \<Longrightarrow> (\<And>k. calm (g k)) \<Longrightarrow> calm (case lr of Unlocked \<Rightarrow> u | Refused r \<Rightarrow> f r | Under k \<Rightarrow> g k)"
  by (simp_all split: sum.split option.split prod.split lock_route.split)

text \<open>What the tools and the framework do is theirs; the model leaves open that they suspend, here they do not.\<close>

definition tools_never_suspend :: "turn_env \<Rightarrow> bool" where
  "tools_never_suspend e \<longleftrightarrow> (\<forall>n name args p. tv_execute e n name args \<noteq> Inl (Interrupted p)) \<and>
     (\<forall>n c p. tv_builtin e n c \<noteq> Inl (Interrupted p)) \<and> (\<forall>n k p. tv_lock e n k \<noteq> Inl (Interrupted p))"

lemma calm_questions [calm_intros]:
  "calm (resolve_tool_def e name)" "calm (resolve_shared e name)" "calm (gate_cap e name)" "calm (resolve_cap e name)"
  "calm (assess_call_risk e x args)" "calm (is_in_scope e t name)" "calm (server_for e name)" "calm (after_call e m)"
  unfolding resolve_tool_def_def resolve_shared_def gate_cap_def resolve_cap_def assess_call_risk_def is_in_scope_def
    server_for_def after_call_def by (intro calm_intros)+

lemma calm_persist [calm_intros]: "calm (get_or_create_approval e t c draft trust)"
  unfolding get_or_create_approval_def by (intro calm_intros)

lemma calm_outer:
  assumes "calm (h c)"
  shows "calm (capability_scope e t h c)" "calm (governor_audit e h c)" "calm (unavailable_server e h c)"
  unfolding capability_scope_def governor_audit_def unavailable_server_def by (intro calm_intros assms)+

lemma calm_gates:
  assumes "calm (h c)" "dt_presence t \<noteq> ''present''"
  shows "calm (trust_gate e t h c)" "calm (permission_gate e t m h c)"
  unfolding trust_gate_def permission_gate_def decide_and_maybe_persist_def persist_permission_approval_def permission_assessment_def
  by (intro calm_intros assms(1); use assms(2) in \<open>simp add: resolve_confirmation_def split: if_splits\<close>)+

lemma calm_inner:
  assumes "calm (h c)" "tools_never_suspend e"
  shows "calm (write_lock e t h c)" "calm (readback e t h c)" "calm (repair_cap e h c)"
proof -
  have lock: "calm (andthen (andthen (ask (\<lambda>n. tv_lock e n key)) lift_sum) (\<lambda>obtained. if obtained then h c else raise Contended))" for key
    using assms unfolding calm_def tools_never_suspend_def
    by (auto simp: andthen_def engine_simps split: sum.split)
  have "calm (under_write_lock e key h c)" for key
    using lock[of key] unfolding calm_def under_write_lock_def by (auto split: prod.split sum.split tool_exn.split) (metis fst_conv)+
  then show "calm (write_lock e t h c)" unfolding write_lock_def by (intro calm_intros assms(1))
  show "calm (readback e t h c)"
    unfolding readback_def after_write_def record_deep_confirmed_outcome_def by (intro calm_intros assms(1))
  show "calm (repair_cap e h c)" unfolding repair_cap_def by (intro calm_intros assms(1))
qed

lemma calm_innermost:
  assumes "tools_never_suspend e"
  shows "calm (muldro_tool_dispatcher e (builtin_body e) c)"
proof -
  have "calm (builtin_body e c)" "calm (execute_tool e c)"
    using assms by (simp_all add: calm_def builtin_body_def execute_tool_def lift_sum_def andthen_def engine_simps tools_never_suspend_def)
  then show ?thesis unfolding muldro_tool_dispatcher_def by (intro calm_intros)
qed

text \<open>C26. A turn nobody is present on never suspends, whatever its provenance and mode and whatever the approvals table
  holds: every tool call is answered, or fails with an error that ends the turn.\<close>

theorem absent_turn_never_suspends:
  assumes "dt_presence t \<noteq> ''present''" "tools_never_suspend e"
  shows "fst (run_call e t resume c s) \<noteq> Inl (Interrupted p)"
proof -
  have inner: "calm (write_lock e t ((if dt_readback t then readback e t else (\<lambda>h. h)) (repair_cap e (muldro_tool_dispatcher e (builtin_body e)))) c)"
    using assms(2) by (intro calm_inner) (auto intro: calm_inner calm_innermost)
  have "calm (tool_chain e t c)"
    unfolding tool_chain_unfold Let_def using assms(1) inner
    by (intro calm_outer calm_gates) (auto split: option.split intro: calm_gates)
  then show ?thesis by (simp add: run_call_def calm_def)
qed

section \<open>A call the first interceptors let through\<close>

definition inner_chain :: "turn_env \<Rightarrow> deep_turn \<Rightarrow> handler" where
  "inner_chain e t =
     (let inner = write_lock e t ((if dt_readback t then readback e t else (\<lambda>h. h)) (repair_cap e (muldro_tool_dispatcher e (builtin_body e))))
      in case dt_permission_mode t of
           None \<Rightarrow> inner | Some m \<Rightarrow> if m \<in> {''ask'', ''auto''} then permission_gate e t m inner else inner)"

lemma tool_chain_front:
  "tool_chain e t = capability_scope e t (governor_audit e (unavailable_server e (trust_gate e t (inner_chain e t))))"
  unfolding tool_chain_unfold inner_chain_def by simp

text \<open>One of the agent's own tools: registered as \<open>d\<close>, enabled, its capability \<open>x\<close> in scope, its server not known to be down.\<close>

definition registered :: "turn_env \<Rightarrow> deep_turn \<Rightarrow> tool_call \<Rightarrow> tool_def \<Rightarrow> string \<Rightarrow> chain_state \<Rightarrow> bool" where
  "registered e t c d x s \<longleftrightarrow> \<not> is_builtin c \<and> (\<forall>n. tv_registry e n (cl_name c) = Inr (Some d)) \<and>
     map_of (kn_cache s) (cl_name c) \<in> {None, Some (True, Some d)} \<and>
     tf_enabled d \<and> tf_capability d = Some x \<and> x \<noteq> [] \<and> x \<in> set (dt_scope t)"

definition offered :: "turn_env \<Rightarrow> deep_turn \<Rightarrow> tool_call \<Rightarrow> tool_def \<Rightarrow> string \<Rightarrow> chain_state \<Rightarrow> bool" where
  "offered e t c d x s \<longleftrightarrow> registered e t c d x s \<and>
     tf_server d \<notin> Some ` set (kn_down_servers s) \<and> provider_for_server (cl_name c) \<notin> set (kn_down_providers s)"

definition let_through :: "tool_call \<Rightarrow> tool_def \<Rightarrow> chain_state \<Rightarrow> chain_state \<Rightarrow> bool" where
  "let_through c d s s1 \<longleftrightarrow> tables s1 = tables s \<and> kn_calls s1 = kn_calls s \<and> kn_failures s1 = kn_failures s \<and>
     kn_down_servers s1 = kn_down_servers s \<and> kn_down_providers s1 = kn_down_providers s \<and>
     map_of (kn_cache s1) (cl_name c) = Some (True, Some d)"

lemma shared_known:
  assumes "\<forall>n. tv_registry e n name = Inr (Some d)" "map_of (kn_cache s) name \<in> {None, Some (True, Some d)}"
  obtains s1 where "resolve_shared e name s = (Inr (True, Some d), s1)" "tables s1 = tables s" "kn_calls s1 = kn_calls s"
    "kn_failures s1 = kn_failures s" "kn_down_servers s1 = kn_down_servers s" "kn_down_providers s1 = kn_down_providers s"
    "map_of (kn_cache s1) name = Some (True, Some d)"
proof (cases "map_of (kn_cache s) name")
  case None
  then show thesis using assms(1)
    by (intro that[of "s\<lparr>kn_asked := Suc (kn_asked s), kn_cache := (name, True, Some d) # kn_cache s\<rparr>"])
      (simp_all add: resolve_shared_def resolve_tool_def_def andthen_def engine_simps tables_def)
next
  case (Some r)
  then show thesis using assms(2) by (intro that[of s]) (simp_all add: resolve_shared_def engine_simps)
qed

lemma audit_run:
  assumes "registered e t c d x s"
  obtains s1 where "tool_chain e t c s = unavailable_server e (trust_gate e t (inner_chain e t)) c s1" "let_through c d s s1"
proof -
  note o = assms[unfolded registered_def]
  let ?s0 = "s\<lparr>kn_asked := Suc (kn_asked s)\<rparr>"
  have scope: "is_in_scope e t (cl_name c) s = (Inr True, ?s0)"
    using o by (auto simp: is_in_scope_def resolve_tool_def_def andthen_def engine_simps)
  have "map_of (kn_cache ?s0) (cl_name c) \<in> {None, Some (True, Some d)}" using o by simp
  then obtain s1 where s1: "resolve_shared e (cl_name c) ?s0 = (Inr (True, Some d), s1)" "tables s1 = tables ?s0"
    "kn_calls s1 = kn_calls ?s0" "kn_failures s1 = kn_failures ?s0" "kn_down_servers s1 = kn_down_servers ?s0"
    "kn_down_providers s1 = kn_down_providers ?s0" "map_of (kn_cache s1) (cl_name c) = Some (True, Some d)"
    using o shared_known[of e "cl_name c" d ?s0] by blast
  define s2 where "s2 = s1\<lparr>kn_audit := kn_audit s1 @ [(cl_name c, tf_risk_level d)]\<rparr>"
  have "tool_chain e t c s = governor_audit e (unavailable_server e (trust_gate e t (inner_chain e t))) c ?s0"
    using o scope by (simp add: tool_chain_front capability_scope_def andthen_def)
  also have "\<dots> = unavailable_server e (trust_gate e t (inner_chain e t)) c s2"
    using o s1(1) by (simp add: governor_audit_def andthen_def engine_simps s2_def)
  finally show thesis
    using s1 by (intro that[of s2]) (simp_all add: let_through_def tables_def s2_def)
qed

lemma breaker_run:
  assumes "\<not> is_builtin c" "\<forall>n. tv_registry e n (cl_name c) = Inr (Some d)"
  shows "unavailable_server e h c s =
    (if tf_server d \<in> Some ` set (kn_down_servers s) \<or> provider_for_server (cl_name c) \<in> set (kn_down_providers s)
     then (Inr (cached_unavailable c (if tf_server d \<in> Some ` set (kn_down_servers s) then opt_or (tf_server d) []
             else provider_for_server (cl_name c))), s\<lparr>kn_asked := Suc (kn_asked s)\<rparr>)
     else andthen (h c) (after_call e) (s\<lparr>kn_asked := Suc (kn_asked s)\<rparr>))"
proof -
  have sf: "server_for e (cl_name c) s = (Inr (tf_server d), s\<lparr>kn_asked := Suc (kn_asked s)\<rparr>)"
    using assms(2) by (simp add: server_for_def andthen_def engine_simps)
  then show ?thesis using assms(1)
    by (cases "tf_server d") (auto simp: unavailable_server_def andthen_Inr[where m="server_for e (cl_name c)", OF sf] Let_def engine_simps)
qed

lemma front_run:
  assumes "offered e t c d x s"
  obtains s1 where "tool_chain e t c s = andthen (trust_gate e t (inner_chain e t) c) (after_call e) s1" "let_through c d s s1"
proof -
  have o: "registered e t c d x s" "tf_server d \<notin> Some ` set (kn_down_servers s)"
    "provider_for_server (cl_name c) \<notin> set (kn_down_providers s)" using assms by (simp_all add: offered_def)
  obtain s1 where s1: "tool_chain e t c s = unavailable_server e (trust_gate e t (inner_chain e t)) c s1" "let_through c d s s1"
    using audit_run[OF o(1)] by blast
  have "tool_chain e t c s = andthen (trust_gate e t (inner_chain e t) c) (after_call e) (s1\<lparr>kn_asked := Suc (kn_asked s1)\<rparr>)"
    using o s1 breaker_run[of c e d] by (simp add: registered_def let_through_def)
  then show thesis using s1(2)
    by (intro that[of "s1\<lparr>kn_asked := Suc (kn_asked s1)\<rparr>"]) (simp_all add: let_through_def tables_def)
qed

text \<open>The gate's lookup finds what the audit's lookup stored.\<close>

lemma gate_cap_known:
  "map_of (kn_cache s) (cl_name c) = Some (True, Some d) \<Longrightarrow> gate_cap e (cl_name c) s = (Inr (True, tf_capability d), s)"
  by (simp add: gate_cap_def resolve_shared_def andthen_def engine_simps capability_of_def)

section \<open>Nobody there: the write is staged\<close>

text \<open>A write of an unattended turn the trust gate asks about: not internal, not approved for the step, not auto-executed
  on any assessment of its risk.\<close>

definition needs_review :: "turn_env \<Rightarrow> deep_turn \<Rightarrow> tool_call \<Rightarrow> string \<Rightarrow> chain_state \<Rightarrow> bool" where
  "needs_review e t c x s \<longleftrightarrow> is_gated_source (dt_source t) \<and> \<not> never_gated (Some x) \<and> x \<notin> set (dt_pre_approved t) \<and>
     \<not> trust_executes e t x (cl_args c) (kn_trust s)"

lemma evaluated_requires:
  assumes "\<not> trust_executes e t x args (kn_trust s)" "assess_call_risk e x args s1 = (Inr a, s2)"
  shows "trust_requires (fst (evaluate (dt_workspace_id t) x a (Some (dt_workspace_id t)) (kn_trust s))) x a"
  using assms by (auto simp: trust_executes_def possible_risk_def)

lemma after_prepared: "after_call e (prepared_tool_message n i a x) s = (Inr (prepared_tool_message n i a x), s)"
  by (simp add: after_call_def Let_def message_payload_def prepared_tool_message_def unavailable_provider_def unavailable_server_of_def
      auth_required_def engine_simps)

text \<open>The row a staged write leaves.\<close>

definition staged :: "turn_env \<Rightarrow> deep_turn \<Rightarrow> tool_call \<Rightarrow> string \<Rightarrow> approval \<Rightarrow> bool" where
  "staged e t c x row \<longleftrightarrow> ap_approval_type row = PREPARED_APPROVAL_TYPE \<and> ap_status row = ''pending'' \<and> ap_expires_at row = None \<and>
     ap_workspace_id row = dt_workspace_id t \<and> ap_user_id row = dt_user_id t \<and> gate_key row = call_key t c \<and>
     (\<exists>a. ap_artifact_refs row = Some (trust_refs e t c x a True))"

lemma gate_stages:
  assumes "map_of (kn_cache s) (cl_name c) = Some (True, Some d)" "tf_capability d = Some x" "needs_review e t c x s"
    and "\<not> is_builtin c" "dt_presence t \<noteq> ''present''" "find_existing_approval t c (kn_approvals s) = None" "tv_rival e (cl_id c) = None"
  obtains row s1 where "trust_gate e t h c s = (Inr (prepared_tool_message (cl_name c) (cl_id c) (ap_approval_id row) x), s1)"
    "kn_calls s1 = kn_calls s" "kn_approvals s1 = kn_approvals s @ [row]" "staged e t c x row"
proof -
  note nr = assms(3)[unfolded needs_review_def]
  obtain a s2 where a: "assess_call_risk e x (cl_args c) s = (Inr a, s2)" "s2 = s\<lparr>kn_asked := Suc (kn_asked s)\<rparr>"
    by (rule assess_call_risk_run)
  obtain d' tdb where d': "evaluate (dt_workspace_id t) x a (Some (dt_workspace_id t)) (kn_trust s) = (d', tdb)" by fastforce
  have req: "trust_requires d' x a" using evaluated_requires[of e t x "cl_args c" s s a s2] nr a(1) d' by simp
  have prep: "resolve_confirmation (dt_presence t) = ''prepare''" using assms(5) by (simp add: resolve_confirmation_def)
  define refs where "refs = trust_refs e t c x a True"
  define summary where "summary = (if pd_justification d' \<noteq> [] then pd_justification d' else ra_reasoning a)"
  have "\<exists>row rows. create_approval (tv_now e) (tv_ulid e (length (kn_approvals s))) (dt_user_id t) (dt_workspace_id t)
      PREPARED_APPROVAL_TYPE (''Approve: '' @ x) (Some summary) (ra_risk_level a) [] None None (dt_user_id t) (Some refs) None
      (kn_approvals s) = Inr (row, rows) \<and> rows = kn_approvals s @ [row] \<and> staged e t c x row"
    by (simp add: create_approval_def starts_with_def PREPARED_APPROVAL_TYPE_def NON_EXPIRING_TYPES_def Let_def staged_def
        gate_key_def call_key_def refs_def dict_or_empty_def) blast
  then obtain row rows where cr: "create_approval (tv_now e) (tv_ulid e (length (kn_approvals s))) (dt_user_id t) (dt_workspace_id t)
      PREPARED_APPROVAL_TYPE (''Approve: '' @ x) (Some summary) (ra_risk_level a) [] None None (dt_user_id t) (Some refs) None
      (kn_approvals s) = Inr (row, rows)" "rows = kn_approvals s @ [row]" "staged e t c x row" by blast
  have persist: "decide_and_maybe_persist e t c x a s2
      = (Inr (Some (ap_approval_id row)), s2\<lparr>kn_approvals := rows, kn_trust := tdb\<rparr>)"
    using req d' a(2) assms(6,7) cr(1) prep
    by (simp add: decide_and_maybe_persist_def get_or_create_approval_def prepared_approval_overrides_def refs_def[symmetric]
        summary_def[symmetric] find_existing_approval_def andthen_def engine_simps)
  have "trust_gate e t h c s = (Inr (prepared_tool_message (cl_name c) (cl_id c) (ap_approval_id row) x), s2\<lparr>kn_approvals := rows, kn_trust := tdb\<rparr>)"
    using assms(2,4,6) nr prep
    by (simp add: trust_gate_def andthen_Inr[where m="gate_cap e (cl_name c)", OF gate_cap_known[OF assms(1)]]
        andthen_Inr[where m="assess_call_risk e x (cl_args c)", OF a(1)]
        andthen_Inr[where m="decide_and_maybe_persist e t c x a", OF persist] engine_simps)
  then show thesis using cr(2,3) a(2)
    by (intro that[of row "s2\<lparr>kn_approvals := rows, kn_trust := tdb\<rparr>"]) simp_all
qed

text \<open>What a staged row keeps of the call, as far as the arguments survive the redaction and the cap.\<close>

definition recorded_whole :: "turn_env \<Rightarrow> prepared_ctx \<Rightarrow> tool_call \<Rightarrow> bool" where
  "recorded_whole e cx c \<longleftrightarrow> redact (JObj (cl_args c)) = JObj (cl_args c) \<and>
     length (tv_dumps e (JObj (cl_args c))) \<le> MAX_PERSISTED_CONTEXT_CHARS \<and> tv_dumps e (JObj (cl_args c)) \<noteq> [] \<and>
     px_loads cx (tv_dumps e (JObj (cl_args c))) = Some (JObj (cl_args c))"

lemma staged_replays:
  assumes "staged e t c x row" "recorded_whole e cx c" "px_registry cx (cl_name c) = Some (Some x)"
    and "cl_name c \<noteq> []" "x \<noteq> []" "x \<in> set (dt_scope t)"
  shows "prepared_checks cx row = Inr (Inr (cl_name c, x, JObj (cl_args c)))"
proof -
  obtain a where refs: "dict_or_empty (ap_artifact_refs row) = trust_refs e t c x a True"
    using assms(1) by (auto simp: staged_def dict_or_empty_def)
  obtain y ys where scope: "dt_scope t = y # ys" using assms(6) by (cases "dt_scope t") auto
  have input: "redact_tool_input (tv_dumps e) (Some (cl_args c)) = (tv_dumps e (JObj (cl_args c)), False)"
    using assms(2) by (simp add: recorded_whole_def redact_tool_input_def dict_or_empty_def Let_def)
  have got: "jget (trust_refs e t c x a True) ''tool_name'' = JStr (cl_name c)"
    "jget (trust_refs e t c x a True) ''capability'' = JStr x"
    "jget (trust_refs e t c x a True) ''capability_scope'' = JList (JStr y # map JStr ys)"
    "jget (trust_refs e t c x a True) ''tool_input_truncated'' = JBool False"
    "jget (trust_refs e t c x a True) ''tool_input'' = JStr (tv_dumps e (JObj (cl_args c)))"
    by (simp_all add: trust_refs_def build_legibility_refs_def input scope)
  have "JStr x \<in> set (JStr y # map JStr ys)" using assms(6) scope by auto
  then show ?thesis
    using assms(2-5) got by (simp add: prepared_checks_def refs Let_def recorded_input_def recorded_whole_def)
qed

text \<open>C8. A write of an unattended turn that the trust matrix does not let run is not lost and not executed: the call is
  answered as prepared, which does not stop the turn, exactly one pending row that never expires is added to the review
  queue, and confirming that row later runs this tool with these arguments, as long as the tool still serves the
  capability it was reviewed under and the arguments were recorded whole: no secret-looking key in them, at most 8000
  characters, read back as they were written.\<close>

theorem unattended_write_is_staged:
  assumes "offered e t c d x s" "needs_review e t c x s" "dt_presence t \<noteq> ''present''"
    and "find_existing_approval t c (kn_approvals s) = None" "tv_rival e (cl_id c) = None" "cl_name c \<noteq> []"
  shows "\<exists>row s1. tool_chain e t c s = (Inr (prepared_tool_message (cl_name c) (cl_id c) (ap_approval_id row) x), s1)
    \<and> \<not> is_blocked_result (prepared_tool_message (cl_name c) (cl_id c) (ap_approval_id row) x)
    \<and> kn_calls s1 = kn_calls s \<and> kn_approvals s1 = kn_approvals s @ [row] \<and> staged e t c x row
    \<and> (\<forall>cx. px_registry cx (cl_name c) = Some (Some x) \<and> recorded_whole e cx c \<longrightarrow>
         prepared_checks cx row = Inr (Inr (cl_name c, x, JObj (cl_args c))))"
proof -
  obtain s1 where f: "tool_chain e t c s = andthen (trust_gate e t (inner_chain e t) c) (after_call e) s1" "let_through c d s s1"
    using front_run[OF assms(1)] by blast
  have o: "\<not> is_builtin c" "tf_capability d = Some x" "x \<noteq> []" "x \<in> set (dt_scope t)" using assms(1) by (simp_all add: offered_def registered_def)
  have s1: "map_of (kn_cache s1) (cl_name c) = Some (True, Some d)" "kn_calls s1 = kn_calls s" "kn_approvals s1 = kn_approvals s"
    "needs_review e t c x s1" "find_existing_approval t c (kn_approvals s1) = None"
    using f(2) assms(2,4) by (simp_all add: let_through_def tables_def needs_review_def)
  obtain row s2 where g: "trust_gate e t (inner_chain e t) c s1 = (Inr (prepared_tool_message (cl_name c) (cl_id c) (ap_approval_id row) x), s2)"
    "kn_calls s2 = kn_calls s1" "kn_approvals s2 = kn_approvals s1 @ [row]" "staged e t c x row"
    by (rule gate_stages[OF s1(1) o(2) s1(4) o(1) assms(3) s1(5) assms(5)])
  have "tool_chain e t c s = (Inr (prepared_tool_message (cl_name c) (cl_id c) (ap_approval_id row) x), s2)"
    using f(1) by (simp add: andthen_Inr[where m="trust_gate e t (inner_chain e t) c", OF g(1)] after_prepared)
  moreover have "\<not> is_blocked_result (prepared_tool_message (cl_name c) (cl_id c) (ap_approval_id row) x)"
    by (simp add: is_blocked_result_def prepared_tool_message_def)
  ultimately show ?thesis
    using g s1 staged_replays[OF g(4) _ _ assms(6) o(3,4)] by auto
qed

section \<open>Somebody there: the write waits and obeys\<close>

text \<open>A chat turn: the founder's own message, somebody present, a permission mode that asks.\<close>

definition chat_turn :: "deep_turn \<Rightarrow> string \<Rightarrow> bool" where
  "chat_turn t m \<longleftrightarrow> dt_source t = ''direct_user_request'' \<and> dt_presence t = ''present'' \<and>
     dt_permission_mode t = Some m \<and> m \<in> {''ask'', ''auto''}"

definition locked_chain :: "turn_env \<Rightarrow> deep_turn \<Rightarrow> handler" where
  "locked_chain e t = write_lock e t ((if dt_readback t then readback e t else (\<lambda>h. h)) (repair_cap e (muldro_tool_dispatcher e (builtin_body e))))"

lemma chat_front:
  assumes "chat_turn t m" "offered e t c d x s"
  obtains s1 where "tool_chain e t c s = andthen (permission_gate e t m (locked_chain e t) c) (after_call e) s1" "let_through c d s s1"
proof -
  obtain s1 where f: "tool_chain e t c s = andthen (trust_gate e t (inner_chain e t) c) (after_call e) s1" "let_through c d s s1"
    using front_run[OF assms(2)] by blast
  have "trust_gate e t (inner_chain e t) c = inner_chain e t c"
    using assms(1) by (simp add: trust_gate_def chat_turn_def is_gated_source_def)
  moreover have "inner_chain e t = permission_gate e t m (locked_chain e t)"
    using assms(1) by (auto simp: inner_chain_def locked_chain_def chat_turn_def)
  ultimately show thesis using f by (intro that[of s1]) simp_all
qed

text \<open>A write the mode asks about: always in the asking mode, on every possible assessment in the automatic one.\<close>

definition must_ask :: "turn_env \<Rightarrow> string \<Rightarrow> tool_call \<Rightarrow> string \<Rightarrow> bool" where
  "must_ask e m c x \<longleftrightarrow> \<not> never_gated (Some x) \<and> (m = ''ask'' \<or> \<not> permission_executes e m x (cl_args c))"

lemma asked_assessment:
  assumes "must_ask e m c x"
  obtains as lv s1 where "permission_assessment e m x (cl_args c) s = (Inr (Some (as, lv)), s1)" "tables s1 = tables s"
    "kn_calls s1 = kn_calls s" "kn_cache s1 = kn_cache s" "(as, lv) = (None, RISK_NOT_ASSESSED) \<or> (\<exists>a. (as, lv) = (Some a, ra_risk_level a))"
proof (cases "m = ''ask''")
  case True
  then show thesis by (intro that[of None RISK_NOT_ASSESSED s]) (simp_all add: permission_assessment_def engine_simps)
next
  case False
  obtain a s2 where a: "assess_call_risk e x (cl_args c) s = (Inr a, s2)" "s2 = s\<lparr>kn_asked := Suc (kn_asked s)\<rparr>"
    by (rule assess_call_risk_run)
  have "permission_should_interrupt m (Some a)"
    using assms False a(1) by (auto simp: must_ask_def permission_executes_def possible_risk_def)
  then show thesis using False a
    by (intro that[of "Some a" "ra_risk_level a" s2]) (simp_all add: permission_assessment_def andthen_def engine_simps tables_def)
qed

text \<open>The row a paused chat write leaves, and the pause.\<close>

definition waiting :: "turn_env \<Rightarrow> deep_turn \<Rightarrow> string \<Rightarrow> tool_call \<Rightarrow> string \<Rightarrow> approval \<Rightarrow> bool" where
  "waiting e t m c x row \<longleftrightarrow> ap_status row = ''pending'' \<and> ap_workspace_id row = dt_workspace_id t \<and> gate_key row = call_key t c \<and>
     (\<exists>as. ap_artifact_refs row = Some (permission_refs e t c m x as False))"

lemma chat_pauses:
  assumes "chat_turn t m" "offered e t c d x s" "must_ask e m c x" "kn_resume s = []"
    and "find_existing_approval t c (kn_approvals s) = None" "tv_rival e (cl_id c) = None"
  obtains row p s1 where "tool_chain e t c s = (Inl (Interrupted p), s1)" "kn_calls s1 = kn_calls s"
    "kn_approvals s1 = kn_approvals s @ [row]" "waiting e t m c x row"
    "ap_approval_id row = ''apr_'' @ tv_ulid e (length (kn_approvals s))" "jget p ''approval_id'' = JStr (ap_approval_id row)"
proof -
  obtain s1 where f: "tool_chain e t c s = andthen (permission_gate e t m (locked_chain e t) c) (after_call e) s1" "let_through c d s s1"
    using chat_front[OF assms(1,2)] by blast
  have s1: "map_of (kn_cache s1) (cl_name c) = Some (True, Some d)" "kn_approvals s1 = kn_approvals s" "kn_calls s1 = kn_calls s"
    "kn_resume s1 = []" using f(2) assms(4) by (simp_all add: let_through_def tables_def)
  have o: "\<not> is_builtin c" "tf_capability d = Some x" using assms(2) by (simp_all add: offered_def registered_def)
  have m: "m \<noteq> ''bypass''" "dt_presence t = ''present''" "\<not> never_gated (Some x)" using assms(1,3) by (auto simp: chat_turn_def must_ask_def)
  obtain as lv s2 where a: "permission_assessment e m x (cl_args c) s1 = (Inr (Some (as, lv)), s2)" "tables s2 = tables s1"
    "kn_calls s2 = kn_calls s1" "kn_cache s2 = kn_cache s1" by (rule asked_assessment[OF assms(3)])
  have s2: "kn_approvals s2 = kn_approvals s" "kn_resume s2 = []" using a(2) s1 by (simp_all add: tables_def)
  define summary where "summary = (case as of None \<Rightarrow> ''User confirmation required (ask mode).'' | Some a \<Rightarrow> ra_reasoning a)"
  define refs where "refs = permission_refs e t c m x as False"
  have tool: "''tool_name'' \<in> fst ` set refs" by (simp add: refs_def permission_refs_def)
  have "\<exists>row rows. create_approval (tv_now e) (tv_ulid e (length (kn_approvals s))) (dt_user_id t) (dt_workspace_id t)
      (''tool:'' @ cl_name c) (''Approve: '' @ x) (Some summary) lv [] None None (dt_user_id t) (Some refs) None (kn_approvals s)
        = Inr (row, rows) \<and> rows = kn_approvals s @ [row] \<and> waiting e t m c x row
          \<and> ap_approval_id row = ''apr_'' @ tv_ulid e (length (kn_approvals s))"
    using tool by (simp add: create_approval_def Let_def waiting_def dict_or_empty_def gate_key_def call_key_def)
      (auto simp: refs_def)
  then obtain row rows where cr: "create_approval (tv_now e) (tv_ulid e (length (kn_approvals s))) (dt_user_id t) (dt_workspace_id t)
      (''tool:'' @ cl_name c) (''Approve: '' @ x) (Some summary) lv [] None None (dt_user_id t) (Some refs) None (kn_approvals s)
        = Inr (row, rows)" "rows = kn_approvals s @ [row]" "waiting e t m c x row"
    "ap_approval_id row = ''apr_'' @ tv_ulid e (length (kn_approvals s))" by blast
  let ?s3 = "s2\<lparr>kn_approvals := rows, kn_trust := kn_trust s2\<rparr>"
  let ?p = "approval_needed_payload t (ap_approval_id row) (JStr x) lv"
  have here: "\<not> resolve_confirmation (dt_presence t) = ''prepare''" using m(2) by (simp add: resolve_confirmation_def)
  have persist: "persist_permission_approval e t c m x as lv s2 = (Inr (ap_approval_id row), ?s3)"
    using cr(1) s2 assms(5,6) here
    by (simp add: persist_permission_approval_def get_or_create_approval_def prepared_approval_overrides_def
        summary_def[symmetric] refs_def[symmetric] engine_simps) (simp add: find_existing_approval_def engine_simps)
  have "permission_gate e t m (locked_chain e t) c s1 = (Inl (Interrupted ?p), ?s3)"
    using o m s2 s1(2) assms(5) here
    by (simp add: permission_gate_def andthen_Inr[where m="gate_cap e (cl_name c)", OF gate_cap_known[OF s1(1)]]
        andthen_Inr[where m="permission_assessment e m x (cl_args c)", OF a(1)]
        andthen_Inr[where m="persist_permission_approval e t c m x as lv", OF persist])
      (simp add: andthen_def interrupt_run)
  then have "tool_chain e t c s = (Inl (Interrupted ?p), ?s3)" by (simp add: f(1) andthen_def)
  then show thesis
    using cr a(3) s1(3) by (intro that[of ?p ?s3 row]) (simp_all add: approval_needed_payload_def)
qed

text \<open>The decision on the waiting row, and the turn rebuilt from it.\<close>

lemma refs_of_waiting:
  "jget (permission_refs e t c m x as False) ''prepared'' = JNull"
  "jget (permission_refs e t c m x as False) ''thread_id'' = JStr (dt_thread_id t)"
  "jget (permission_refs e t c m x as False) ''lead_scope'' = JList (map JStr (dt_scope t))"
  "jget (permission_refs e t c m x as False) ''permission_mode'' = JStr m"
  by (simp_all add: permission_refs_def build_legibility_refs_def split_def Let_def)

definition resumable :: "deep_turn \<Rightarrow> bool" where
  "resumable t \<longleftrightarrow> workspace_of_thread_id (JStr (dt_thread_id t)) = Some (dt_workspace_id t) \<and> dt_scope t \<noteq> []"

lemma resume_decides:
  assumes "waiting e t m c x row" "resumable t" "ap_approval_id row \<notin> ap_approval_id ` set rows" "decision \<in> {''approve'', ''reject''}"
    and "m \<in> {''ask'', ''auto''}"
  obtains t' where
    "resume_deep_lead st now (ap_approval_id row) decision reason user (dt_workspace_id t) (rows @ [row])
       = (Inr t', rows @ [lead_values now user decision reason row])"
    "chat_turn t' m" "call_key t' c = call_key t c" "set (dt_scope t') = set (dt_scope t)" "dt_require_redis t'"
    "resume_deep_lead st now' (ap_approval_id row) decision' reason' user' (dt_workspace_id t) (rows @ [lead_values now user decision reason row])
       = (Inl (if decision' \<in> {''approve'', ''reject''} then ''approval not pending'' else GENERIC_MESSAGE),
          rows @ [lead_values now user decision reason row])"
proof -
  obtain as where w: "ap_status row = ''pending''" "ap_workspace_id row = dt_workspace_id t"
    "ap_artifact_refs row = Some (permission_refs e t c m x as False)" using assms(1) by (auto simp: waiting_def)
  obtain y ys where scope: "dt_scope t = y # ys" using assms(2) by (cases "dt_scope t") (auto simp: resumable_def)
  define refs where "refs = permission_refs e t c m x as False"
  have refs: "jget refs ''prepared'' = JNull" "jget refs ''thread_id'' = JStr (dt_thread_id t)" "jget refs ''permission_mode'' = JStr m"
    "jget refs ''lead_scope'' = JList (JStr y # map JStr ys)" by (simp_all add: refs_def refs_of_waiting scope)
  have thread: "dt_thread_id t \<noteq> []" using assms(2) by (auto simp: resumable_def workspace_of_thread_id_def)
  have find: "row_find ap_approval_id (ap_approval_id row) (rows @ [r]) = Some r" if "ap_approval_id r = ap_approval_id row" for r
    using assms(3) that by (simp add: row_find_append row_find_None_iff[THEN iffD2])
  have load: "load_pending_approval (ap_approval_id row) (dt_workspace_id t) (rows @ [row]) = Inr row"
    using w assms(2) find[of row] refs by (simp add: load_pending_approval_def resumable_def refs_def[symmetric] dict_or_empty_def)
  have others: "map (\<lambda>ap. if ap_approval_id ap = ap_approval_id row \<and> ap_status ap = ''pending'' then f ap else ap) rows = rows" for f
    using assms(3) by (intro map_idI) (metis imageI)
  have flip: "cas_flip_pending (ap_approval_id row) f (rows @ [row]) = (True, rows @ [f row])" for f
    using w(1) others by (simp add: cas_flip_pending_def)
  define t' where "t' = lead_turn st user (dt_workspace_id t) (scope_of (JStr y # map JStr ys)) refs"
  have run: "resume_deep_lead st now (ap_approval_id row) decision reason user (dt_workspace_id t) (rows @ [row])
       = (Inr t', rows @ [lead_values now user decision reason row])"
    using assms(4) load refs w(3) thread flip by (auto simp: resume_deep_lead_def Let_def t'_def refs_def[symmetric] dict_or_empty_def)
  have decided: "ap_approval_id (lead_values now user decision reason row) = ap_approval_id row"
    "ap_workspace_id (lead_values now user decision reason row) = dt_workspace_id t"
    "ap_status (lead_values now user decision reason row) \<noteq> ''pending''"
    using w(2) by (auto simp: lead_values_def decision_values_def Let_def)
  have again: "load_pending_approval (ap_approval_id row) (dt_workspace_id t) (rows @ [lead_values now user decision reason row])
      = Inl ''approval not pending''"
    using find[OF decided(1)] decided by (simp add: load_pending_approval_def)
  have "List.map_filter as_str (JStr y # map JStr ys) = y # ys" by (simp add: List.map_filter_def comp_def)
  then have "set (dt_scope t') = set (dt_scope t)" by (simp add: t'_def lead_turn_def scope_of_def scope insert_absorb)
  then show thesis
    using run again refs assms(5)
    by (intro that[of t'])
      (auto simp: t'_def lead_turn_def chat_turn_def resumed_mode_def call_key_def resume_deep_lead_def)
qed

text \<open>The replay on the decided row.\<close>

lemma replay_obeys:
  assumes "chat_turn t m" "offered e t c d x s" "\<not> never_gated (Some x)" "kn_resume s = JStr decision # vs"
    and "find_existing_approval t c (kn_approvals s) = Some ap" "ap_decision_reason ap \<noteq> Some ''MCP bridge not initialized''"
  obtains s1 where "let_through c d s s1" "tool_chain e t c s =
    (if decision = ''approve'' then andthen (locked_chain e t c) (after_call e) (s1\<lparr>kn_resume := vs\<rparr>)
     else (Inr (rejected_message c (reject_reason (ap_decision_reason ap))), s1\<lparr>kn_resume := vs\<rparr>))"
proof -
  obtain s1 where f: "tool_chain e t c s = andthen (permission_gate e t m (locked_chain e t) c) (after_call e) s1" "let_through c d s s1"
    using chat_front[OF assms(1,2)] by blast
  have s1: "map_of (kn_cache s1) (cl_name c) = Some (True, Some d)" "kn_approvals s1 = kn_approvals s" "kn_resume s1 = JStr decision # vs"
    using f(2) assms(4) by (simp_all add: let_through_def tables_def)
  have o: "\<not> is_builtin c" "tf_capability d = Some x" using assms(2) by (simp_all add: offered_def registered_def)
  have m: "m \<noteq> ''bypass''" "\<not> resolve_confirmation (dt_presence t) = ''prepare''"
    using assms(1) by (auto simp: chat_turn_def resolve_confirmation_def)
  have int: "interrupt p s1 = (Inr (JStr decision), s1\<lparr>kn_resume := vs\<rparr>)" for p using s1(3) by (simp add: interrupt_run)
  have "permission_gate e t m (locked_chain e t) c s1 = (if decision = ''approve'' then locked_chain e t c
      else ret (rejected_message c (reject_reason (ap_decision_reason ap)))) (s1\<lparr>kn_resume := vs\<rparr>)"
    using o m s1(2) assms(3,5)
    by (simp add: permission_gate_def andthen_Inr[where m="gate_cap e (cl_name c)", OF gate_cap_known[OF s1(1)]]
        andthen_Inr[where m="interrupt p" for p, OF int])
  then have "tool_chain e t c s =
    (if decision = ''approve'' then andthen (locked_chain e t c) (after_call e) (s1\<lparr>kn_resume := vs\<rparr>)
     else (Inr (rejected_message c (reject_reason (ap_decision_reason ap))), s1\<lparr>kn_resume := vs\<rparr>))"
    by (simp add: f(1) andthen_def engine_simps after_call_def Let_def message_payload_def rejected_message_def error_message_def
        unavailable_provider_def unavailable_server_of_def auth_required_def)
      (use assms(6) in \<open>auto simp: reject_reason_def DEFAULT_REJECT_REASON_def opt_or_def split: option.splits\<close>)
  then show thesis using f(2) that by blast
qed

text \<open>With the lock to be had, what the gates let through is executed.\<close>

lemma locked_executes:
  assumes "\<not> is_builtin c" "map_of (kn_cache s) (cl_name c) = Some (True, Some d)" "tf_capability d = Some x"
    and "\<not> never_gated (Some x)" "tv_redis e" "\<forall>n k. tv_lock e n k = Inr True" "failures_of (cl_name c) s < MAX_ATTEMPTS"
  shows "kn_calls (snd (locked_chain e t c s)) = kn_calls s @ [(cl_name c, cl_args c)]"
proof -
  let ?rest = "(if dt_readback t then readback e t else (\<lambda>h. h)) (repair_cap e (muldro_tool_dispatcher e (builtin_body e)))"
  have cap: "resolve_cap e (cl_name c) s = (Inr (Some x), s)"
    using assms(2,3) by (simp add: resolve_cap_def resolve_shared_def andthen_def engine_simps capability_of_def)
  have route: "write_lock_route (dt_workspace_id t) (tv_redis e) (dt_require_redis t) (\<lambda>_. Some x) (cl_name c)
      = Under (write_lock_key (dt_workspace_id t) x)"
    using assms(1,4,5) by (simp add: write_lock_route_def is_builtin_def never_gated_def)
  have "locked_chain e t c s = under_write_lock e (write_lock_key (dt_workspace_id t) x) ?rest c s"
    using assms(1,5) route by (simp add: locked_chain_def write_lock_def andthen_Inr[where m="resolve_cap e (cl_name c)", OF cap])
  then have "kn_calls (snd (locked_chain e t c s)) = kn_calls (snd (?rest c (s\<lparr>kn_asked := Suc (kn_asked s)\<rparr>)))"
    using assms(6) by (simp add: under_write_lock_def andthen_def engine_simps split: prod.split sum.split tool_exn.split)
  also have "\<dots> = kn_calls (snd (repair_cap e (muldro_tool_dispatcher e (builtin_body e)) c (s\<lparr>kn_asked := Suc (kn_asked s)\<rparr>)))"
    using assms(1) by (simp add: readback_def andthen_calls after_write_calls)
  also have "\<dots> = kn_calls (snd (muldro_tool_dispatcher e (builtin_body e) c (s\<lparr>kn_asked := Suc (kn_asked s)\<rparr>)))"
  proof -
    have tail: "kn_calls (snd ((if error_code e r = Some INVALID_ARGS_CODE then andthen (modify (note_failure (cl_name c))) (\<lambda>_. ret r)
        else if tm_status r \<noteq> ''error'' then andthen (modify (forgive (cl_name c))) (\<lambda>_. ret r) else ret r) s)) = kn_calls s" for r s
      by (simp add: engine_simps note_failure_def forgive_def count_repair_def Let_def)
    show ?thesis using assms(1,7) by (simp add: repair_cap_def failures_of_def andthen_calls tail)
  qed
  finally show ?thesis using assms(1) by (simp add: dispatcher_calls)
qed

text \<open>The replay with the gates' decision: one call or none.\<close>

lemma replay_runs:
  assumes "chat_turn t m" "offered e t c d x s" "\<not> never_gated (Some x)" "kn_resume s = [JStr decision]" "kn_failures s = []"
    and "find_existing_approval t c (kn_approvals s) = Some ap" "ap_decision_reason ap = reason" "reason \<noteq> Some ''MCP bridge not initialized''"
    and "tv_redis e" "\<forall>n k. tv_lock e n k = Inr True"
  shows "kn_calls (snd (tool_chain e t c s)) = kn_calls s @ (if decision = ''approve'' then [(cl_name c, cl_args c)] else [])"
    and "decision = ''reject'' \<longrightarrow> fst (tool_chain e t c s) = Inr (rejected_message c (reject_reason reason))"
proof -
  have why: "ap_decision_reason ap \<noteq> Some ''MCP bridge not initialized''" unfolding assms(7) by (rule assms(8))
  obtain s3 where s3: "let_through c d s s3" "tool_chain e t c s =
    (if decision = ''approve'' then andthen (locked_chain e t c) (after_call e) (s3\<lparr>kn_resume := []\<rparr>)
     else (Inr (rejected_message c (reject_reason (ap_decision_reason ap))), s3\<lparr>kn_resume := []\<rparr>))"
    by (rule replay_obeys[OF assms(1-4,6) why])
  have calls: "kn_calls s3 = kn_calls s" "failures_of (cl_name c) (s3\<lparr>kn_resume := []\<rparr>) < MAX_ATTEMPTS"
    using s3(1) assms(5) by (simp_all add: let_through_def failures_of_def MAX_ATTEMPTS_def)
  have exec: "kn_calls (snd (locked_chain e t c (s3\<lparr>kn_resume := []\<rparr>))) = kn_calls s @ [(cl_name c, cl_args c)]"
    using locked_executes[of c "s3\<lparr>kn_resume := []\<rparr>" d x e t] assms(2,3,9,10) s3(1) calls
    by (simp add: offered_def registered_def let_through_def)
  show "kn_calls (snd (tool_chain e t c s)) = kn_calls s @ (if decision = ''approve'' then [(cl_name c, cl_args c)] else [])"
    using s3(2) exec calls(1) by (simp add: andthen_calls)
  show "decision = ''reject'' \<longrightarrow> fst (tool_chain e t c s) = Inr (rejected_message c (reject_reason reason))"
    unfolding s3(2) assms(7) by simp
qed

text \<open>C7. A write that a chat turn must ask about pauses before it runs, leaving one pending row that names this very
  call. Resuming with a decision consumes the row and runs the paused call again: rejected, the tool is not called and
  the model reads the person's reason; approved, and the write lock being free, the tool is called exactly once with the
  arguments of the call. Either way the row is decided once: a second resume, whatever it says, is refused. The one reason left out
  is the text of the breaker's own error, to which it would add its advice.\<close>

theorem paused_write_obeys_the_answer:
  assumes "chat_turn t m" "resumable t" "offered e t c d x s" "must_ask e m c x"
    and "find_existing_approval t c (kn_approvals s) = None" "tv_rival e (cl_id c) = None"
    and "''apr_'' @ tv_ulid e (length (kn_approvals s)) \<notin> ap_approval_id ` set (kn_approvals s)"
    and "tv_redis e" "\<forall>n k. tv_lock e n k = Inr True" "decision \<in> {''approve'', ''reject''}"
    and "reason \<noteq> Some ''MCP bridge not initialized''"
  shows "\<exists>row p s1. run_call e t [] c s = (Inl (Interrupted p), s1) \<and> kn_calls s1 = kn_calls s
    \<and> jget p ''approval_id'' = JStr (ap_approval_id row) \<and> kn_approvals s1 = kn_approvals s @ [row] \<and> waiting e t m c x row \<and>
    (let rows = kn_approvals s @ [lead_values now user decision reason row]
     in \<exists>t'. resume_deep_lead st now (ap_approval_id row) decision reason user (dt_workspace_id t) (kn_approvals s1) = (Inr t', rows)
       \<and> kn_calls (snd (replay_call e t' decision c rows s1)) =
           kn_calls s @ (if decision = ''approve'' then [(cl_name c, cl_args c)] else [])
       \<and> (decision = ''reject'' \<longrightarrow> fst (replay_call e t' decision c rows s1) = Inr (rejected_message c (reject_reason reason)))
       \<and> fst (resume_deep_lead st now' (ap_approval_id row) decision' reason' user' (dt_workspace_id t) rows)
           = Inl (if decision' \<in> {''approve'', ''reject''} then ''approval not pending'' else GENERIC_MESSAGE))"
proof -
  let ?s = "s\<lparr>kn_resume := []\<rparr>"
  have off: "offered e t c d x ?s" using assms(3) by (simp add: offered_def registered_def)
  have same: "kn_calls ?s = kn_calls s" "kn_approvals ?s = kn_approvals s" "kn_resume ?s = []" by simp_all
  obtain row p s1 where "tool_chain e t c ?s = (Inl (Interrupted p), s1)" "kn_calls s1 = kn_calls ?s"
    "kn_approvals s1 = kn_approvals ?s @ [row]" "waiting e t m c x row"
    "ap_approval_id row = ''apr_'' @ tv_ulid e (length (kn_approvals ?s))" "jget p ''approval_id'' = JStr (ap_approval_id row)"
    using chat_pauses[OF assms(1) off assms(4) same(3), unfolded same(2), OF assms(5,6)] unfolding same by blast
  note paused = this[unfolded same]
  have fresh: "ap_approval_id row \<notin> ap_approval_id ` set (kn_approvals s)" unfolding paused(5) by (rule assms(7))
  have mode: "m \<in> {''ask'', ''auto''}" using assms(1) by (simp add: chat_turn_def)
  let ?row = "lead_values now user decision reason row"
  let ?rows = "kn_approvals s @ [?row]"
  obtain t' where t': "resume_deep_lead st now (ap_approval_id row) decision reason user (dt_workspace_id t) (kn_approvals s @ [row]) = (Inr t', ?rows)"
    "chat_turn t' m" "call_key t' c = call_key t c" "set (dt_scope t') = set (dt_scope t)" "dt_require_redis t'"
    "resume_deep_lead st now' (ap_approval_id row) decision' reason' user' (dt_workspace_id t) ?rows
       = (Inl (if decision' \<in> {''approve'', ''reject''} then ''approval not pending'' else GENERIC_MESSAGE), ?rows)"
    using resume_decides[OF paused(4) assms(2) fresh assms(10) mode] by blast
  let ?s2 = "(rebuilt s1)\<lparr>kn_approvals := ?rows, kn_resume := [JStr decision]\<rparr>"
  have off2: "offered e t' c d x ?s2" using assms(3) t'(4) by (simp add: offered_def registered_def rebuilt_def)
  have "gate_key ?row = gate_key row" and why: "ap_decision_reason ?row = reason"
    by (simp_all add: lead_values_def decision_values_def gate_key_def Let_def)
  then have found: "find_existing_approval t' c (kn_approvals ?s2) = Some ?row"
    using assms(5) paused(4) t'(3) by (simp add: waiting_def find_existing_approval_def row_find_append)
  have before: "\<not> never_gated (Some x)" "kn_resume ?s2 = [JStr decision]" "kn_failures ?s2 = []" "kn_calls ?s2 = kn_calls s"
    using assms(4) paused(2) by (simp_all add: must_ask_def rebuilt_def)
  have replay: "replay_call e t' decision c ?rows s1 = tool_chain e t' c ?s2" by (simp add: replay_call_def run_call_def)
  note obeyed = replay_runs[OF t'(2) off2 before(1-3) found why assms(11,8,9)]
  have "kn_calls (snd (replay_call e t' decision c ?rows s1)) = kn_calls s @ (if decision = ''approve'' then [(cl_name c, cl_args c)] else [])"
    using obeyed(1) before(4) by (simp add: replay)
  moreover have "decision = ''reject'' \<longrightarrow> fst (replay_call e t' decision c ?rows s1) = Inr (rejected_message c (reject_reason reason))"
    using obeyed(2) unfolding replay .
  ultimately show ?thesis
    using paused t'(1,6) by (intro exI[of _ row] exI[of _ p] exI[of _ s1]) (auto simp: run_call_def Let_def)
qed

end
