(* ===== verification/Turn_Bounds.thy ===== *)
theory Turn_Bounds
  imports Turn_Laws
begin

text \<open>
  The loops of a turn, and a signal that does not arrive: how often a tool that keeps refusing its arguments can be
  called, how often the tools of a server that needs to be connected again can be called, and what becomes of that
  server's answer on an autonomous step. A result follows its way out through the interceptors by \<open>outcome\<close>.
\<close>

section \<open>The repair loop\<close>

definition traffic :: "chain_state \<Rightarrow> (string \<times> jdict) list \<times> (string \<times> nat) list" where
  "traffic s = (kn_calls s, kn_failures s)"

lemma traffic_ask: "keeps traffic (ask f)"
  by (simp add: keeps_def engine_simps traffic_def)

lemma traffic_questions:
  "keeps traffic (resolve_tool_def e name)" "keeps traffic (resolve_shared e name)"
  "keeps traffic (gate_cap e name)" "keeps traffic (resolve_cap e name)" "keeps traffic (assess_call_risk e x args)"
  "keeps traffic (is_in_scope e t name)" "keeps traffic (server_for e name)" "keeps traffic (after_call e m)"
  "keeps traffic (interrupt p)" "keeps traffic (get_or_create_approval e t c dr tr)" "keeps traffic (record_deep_confirmed_outcome e t x l)"
proof -
  show def': "keeps traffic (resolve_tool_def e name)" unfolding resolve_tool_def_def by (intro keeps_intros traffic_ask)
  show shared: "keeps traffic (resolve_shared e name)"
    unfolding resolve_shared_def by (intro keeps_intros def') (simp add: traffic_def)
  show "keeps traffic (gate_cap e name)" unfolding gate_cap_def by (intro keeps_intros shared)
  show "keeps traffic (resolve_cap e name)" unfolding resolve_cap_def by (intro keeps_intros shared)
  show "keeps traffic (assess_call_risk e x args)" unfolding assess_call_risk_def by (intro keeps_intros traffic_ask)
  show "keeps traffic (is_in_scope e t name)" unfolding is_in_scope_def by (intro keeps_intros def')
  show "keeps traffic (server_for e name)" unfolding server_for_def by (intro keeps_intros traffic_ask)
  show "keeps traffic (after_call e m)"
    unfolding after_call_def by (intro keeps_intros) (simp add: traffic_def mark_down_def)
  show "keeps traffic (interrupt p)" by (simp add: keeps_def interrupt_run traffic_def split: list.split)
  show "keeps traffic (get_or_create_approval e t c dr tr)"
    unfolding get_or_create_approval_def by (intro keeps_intros) (simp_all add: traffic_def)
  show "keeps traffic (record_deep_confirmed_outcome e t x l)"
    by (simp add: keeps_def record_deep_confirmed_outcome_def engine_simps traffic_def)
qed

lemma traffic_after_write: "keeps traffic (after_write e t c m)"
  unfolding after_write_def by (intro keeps_intros traffic_ask traffic_questions)

text \<open>What only depends on the traffic is left alone by every interceptor but the last two.\<close>

lemma traffic_stays: "keeps traffic m \<Longrightarrow> stays (\<lambda>s. J (traffic s)) m"
  by (rule stays_keeps[where J=J]) auto

lemma stays_lock_route:
  "stays I u \<Longrightarrow> (\<And>r. stays I (f r)) \<Longrightarrow> (\<And>k. stays I (g k)) \<Longrightarrow> stays I (case lr of Unlocked \<Rightarrow> u | Refused r \<Rightarrow> f r | Under k \<Rightarrow> g k)"
  by (simp split: lock_route.split)

lemma outer_stays:
  assumes h: "stays (\<lambda>s. J (traffic s)) (h c)"
  shows "stays (\<lambda>s. J (traffic s)) (capability_scope e t h c)" "stays (\<lambda>s. J (traffic s)) (governor_audit e h c)"
    "stays (\<lambda>s. J (traffic s)) (unavailable_server e h c)" "stays (\<lambda>s. J (traffic s)) (trust_gate e t h c)"
    "stays (\<lambda>s. J (traffic s)) (permission_gate e t m h c)" "stays (\<lambda>s. J (traffic s)) (write_lock e t h c)"
    "stays (\<lambda>s. J (traffic s)) (readback e t h c)"
proof -
  note q = traffic_questions[THEN traffic_stays, where J=J] traffic_ask[THEN traffic_stays, where J=J] traffic_after_write[THEN traffic_stays, where J=J]
  note rules = stays_intros h q
  show "stays (\<lambda>s. J (traffic s)) (capability_scope e t h c)" "stays (\<lambda>s. J (traffic s)) (unavailable_server e h c)"
    "stays (\<lambda>s. J (traffic s)) (readback e t h c)"
    unfolding capability_scope_def unavailable_server_def readback_def by (intro rules)+
  show "stays (\<lambda>s. J (traffic s)) (governor_audit e h c)"
    unfolding governor_audit_def by (intro rules) (simp add: traffic_def)
  show "stays (\<lambda>s. J (traffic s)) (trust_gate e t h c)"
    unfolding trust_gate_def decide_and_maybe_persist_def by (intro rules)
  show "stays (\<lambda>s. J (traffic s)) (permission_gate e t m h c)"
    unfolding permission_gate_def persist_permission_approval_def permission_assessment_def by (intro rules)
  have "stays (\<lambda>s. J (traffic s)) (lift_sum r)" for r :: "tool_exn + bool" by (simp add: stays_def engine_simps)
  then have lock: "stays (\<lambda>s. J (traffic s)) (andthen (andthen (ask (\<lambda>n. tv_lock e n key)) lift_sum) (\<lambda>obtained. if obtained then h c else raise Contended))" for key
    by (intro rules)
  have "stays (\<lambda>s. J (traffic s)) (under_write_lock e key h c)" for key
    using lock[of key] unfolding stays_def under_write_lock_def
    by (fastforce split: prod.split sum.split tool_exn.split)
  then show "stays (\<lambda>s. J (traffic s)) (write_lock e t h c)"
    unfolding write_lock_def by (intro rules stays_lock_route)
qed

definition calls_of :: "string \<Rightarrow> chain_state \<Rightarrow> nat" where
  "calls_of n s = length (filter (\<lambda>(k, _). k = n) (kn_calls s))"

definition counted :: "string \<Rightarrow> nat \<Rightarrow> chain_state \<Rightarrow> bool" where
  "counted n b s \<longleftrightarrow> calls_of n s = b + failures_of n s \<and> failures_of n s \<le> MAX_ATTEMPTS"

lemma counted_traffic: "counted n b = (\<lambda>s. (\<lambda>(calls, failures). length (filter (\<lambda>(k, _). k = n) calls) = b + opt_or (map_of failures n) 0 \<and>
   opt_or (map_of failures n) 0 \<le> MAX_ATTEMPTS) (traffic s))"
  by (simp add: counted_def calls_of_def failures_of_def traffic_def fun_eq_iff)

definition never_accepts :: "turn_env \<Rightarrow> string \<Rightarrow> bool" where
  "never_accepts e n \<longleftrightarrow> (\<forall>k args. \<exists>d. tv_execute e k n args = Inr (JObj d) \<and> jget d ''error_code'' = JStr INVALID_ARGS_CODE)"

lemma failures_updates [simp]:
  "failures_of n (note_failure k s) = (if k = n then failures_of n s + 1 else failures_of n s)"
  "failures_of n (forgive k s) = (if k = n then 0 else failures_of n s)"
  "failures_of n (count_repair k out s) = failures_of n s"
  "calls_of n (note_failure k s) = calls_of n s" "calls_of n (forgive k s) = calls_of n s" "calls_of n (count_repair k out s) = calls_of n s"
  by (simp_all add: failures_of_def note_failure_def count_repair_def forgive_def calls_of_def Let_def update_conv' delete_conv')

lemma invalid_code:
  "jget d ''error_code'' = JStr INVALID_ARGS_CODE \<Longrightarrow> error_code e (result_message e c (JObj d)) = Some INVALID_ARGS_CODE"
  by (simp add: error_code_def message_payload_def result_message_def str_of_def)

lemma capped_stays:
  assumes "never_accepts e n"
  shows "stays (counted n b) (repair_cap e (muldro_tool_dispatcher e (builtin_body e)) c)"
  unfolding stays_def
proof (intro allI impI)
  fix s assume I: "counted n b s"
  let ?h = "muldro_tool_dispatcher e (builtin_body e)"
  let ?s1 = "s\<lparr>kn_calls := kn_calls s @ [(cl_name c, cl_args c)], kn_asked := Suc (kn_asked s)\<rparr>"
  have base: "calls_of n ?s1 = (if cl_name c = n then Suc (calls_of n s) else calls_of n s)" "failures_of n ?s1 = failures_of n s"
    by (simp_all add: calls_of_def failures_of_def)
  show "counted n b (snd (repair_cap e ?h c s))"
  proof (cases "is_builtin c \<or> MAX_ATTEMPTS \<le> failures_of (cl_name c) s")
    case True
    then show ?thesis using I
      by (auto simp: repair_cap_def muldro_tool_dispatcher_def builtin_body_def andthen_def engine_simps counted_def calls_of_def
          failures_of_def count_repair_def split: sum.split)
  next
    case False
    obtain r where r: "tv_execute e (kn_asked s) (cl_name c) (cl_args c) = r" by simp
    have run: "?h c s = (case r of Inl x \<Rightarrow> (Inl x, ?s1) | Inr v \<Rightarrow> (Inr (result_message e c v), ?s1))"
      using False r by (simp add: muldro_tool_dispatcher_def execute_tool_def andthen_def engine_simps split: sum.split)
    show ?thesis
    proof (cases "cl_name c = n")
      case True
      obtain d where d: "r = Inr (JObj d)" "jget d ''error_code'' = JStr INVALID_ARGS_CODE"
        using assms r True unfolding never_accepts_def by metis
      have "snd (repair_cap e ?h c s) = note_failure n ?s1"
        using False True d run invalid_code[OF d(2)] by (simp add: repair_cap_def andthen_def engine_simps)
      then show ?thesis using I False True base by (simp add: counted_def)
    next
      case other: False
      have same: "calls_of n ?s1 = calls_of n s" using base other by simp
      have "snd (repair_cap e ?h c s) \<in> {?s1, note_failure (cl_name c) ?s1, forgive (cl_name c) ?s1}"
        using False run by (cases r) (auto simp: repair_cap_def andthen_def engine_simps)
      then show ?thesis using I other same base(2) by (auto simp: counted_def)
    qed
  qed
qed

lemma chain_counts:
  assumes "never_accepts e n"
  shows "stays (counted n b) (tool_chain e t c)"
proof -
  note rules = outer_stays[where J="\<lambda>(calls, failures). length (filter (\<lambda>(k, _). k = n) calls) = b + opt_or (map_of failures n) 0 \<and>
   opt_or (map_of failures n) 0 \<le> MAX_ATTEMPTS", folded counted_traffic]
  have cap: "stays (counted n b) ((if dt_readback t then readback e t else (\<lambda>h. h)) (repair_cap e (muldro_tool_dispatcher e (builtin_body e))) c)"
    by (cases "dt_readback t") (simp_all add: rules(7) capped_stays[OF assms])
  have inner: "stays (counted n b) (locked_chain e t c)"
    unfolding locked_chain_def by (rule rules(6)) (rule cap)
  have "inner_chain e t c = (case dt_permission_mode t of None \<Rightarrow> locked_chain e t c
      | Some m \<Rightarrow> if m \<in> {''ask'', ''auto''} then permission_gate e t m (locked_chain e t) c else locked_chain e t c)"
    by (simp add: inner_chain_def locked_chain_def split: option.split)
  then have "stays (counted n b) (inner_chain e t c)"
    using inner rules(5)[of "locked_chain e t" c] by (simp split: option.split)
  then show ?thesis unfolding tool_chain_front by (intro rules)
qed

lemma stream_stays:
  assumes "\<And>c. stays I (tool_chain e t c)" "\<And>s r. I (s\<lparr>kn_resume := r\<rparr>) = I s" "I s"
  shows "I (snd (stream_calls e t reply called cs s))"
  using assms(3)
proof (induction cs arbitrary: called s)
  case (Cons c cs)
  have "stays I (run_call e t [] c)"
    unfolding run_call_def by (intro stays_andthen stays_modify assms(1)) (simp add: assms(2))
  then have kept: "I (snd (run_call e t [] c s))" using Cons.prems by (rule staysD)
  obtain r s1 where r: "run_call e t [] c s = (r, s1)" by fastforce
  show ?case
  proof (cases r)
    case (Inl x)
    then show ?thesis using kept r by (cases x) simp_all
  next
    case (Inr m)
    then show ?thesis using kept r Cons.IH[of s1 "called @ [cl_name c]"] by (simp add: Let_def split: prod.split) (metis snd_conv)
  qed
qed simp


section \<open>The signal of a connector to be connected again\<close>

lemma UNAVAILABLE_STEER_text: "\<not> list_all is_white UNAVAILABLE_STEER"
  by code_simp

text \<open>A read is executed without a gate or a lock, and what its tool answers comes out as it is.\<close>

lemma read_runs:
  assumes "\<not> is_builtin c" "map_of (kn_cache s) (cl_name c) = Some (True, Some d)" "tf_capability d = Some x" "is_read_only_capability x"
    and "\<forall>n. tv_execute e n (cl_name c) (cl_args c) = Inr (JObj r)" "auth_required r" "failures_of (cl_name c) s < MAX_ATTEMPTS"
    and "dt_permission_mode t = None"
  obtains s1 where "trust_gate e t (inner_chain e t) c s = (Inr (result_message e c (JObj r)), s1)"
    "kn_calls s1 = kn_calls s @ [(cl_name c, cl_args c)]" "kn_cache s1 = kn_cache s"
proof -
  have cap: "resolve_cap e (cl_name c) u = (Inr (Some x), u)" if "kn_cache u = kn_cache s" for u
    using that assms(2,3) by (simp add: resolve_cap_def resolve_shared_def andthen_def engine_simps capability_of_def)
  have ng: "never_gated (Some x)" using assms(4) by (simp add: never_gated_def)
  have route: "write_lock_route w wired rq (\<lambda>_. Some x) (cl_name c) = Unlocked" for w wired rq
    using assms(1,4) by (simp add: write_lock_route_def is_builtin_def)
  let ?body = "repair_cap e (muldro_tool_dispatcher e (builtin_body e)) c"
  have code: "error_code e (result_message e c (JObj r)) = Some ''auth_required''"
    using assms(6) by (simp add: error_code_def message_payload_def result_message_def str_of_def auth_required_def)
  have disp: "muldro_tool_dispatcher e (builtin_body e) c s = (Inr (result_message e c (JObj r)),
      s\<lparr>kn_calls := kn_calls s @ [(cl_name c, cl_args c)], kn_asked := Suc (kn_asked s)\<rparr>)"
    using assms(1,5) by (simp add: muldro_tool_dispatcher_def execute_tool_def andthen_def engine_simps)
  have "\<exists>s1. ?body s = (Inr (result_message e c (JObj r)), s1) \<and> kn_calls s1 = kn_calls s @ [(cl_name c, cl_args c)] \<and> kn_cache s1 = kn_cache s"
    using assms(1,7) code
    by (simp add: repair_cap_def andthen_def engine_simps disp INVALID_ARGS_CODE_def forgive_def count_repair_def Let_def)
  then obtain s1 where s1: "?body s = (Inr (result_message e c (JObj r)), s1)" "kn_calls s1 = kn_calls s @ [(cl_name c, cl_args c)]"
    "kn_cache s1 = kn_cache s" by blast
  have tail: "after_write e t c (result_message e c (JObj r)) s1 = (Inr (result_message e c (JObj r)), s1)"
    using assms(4) by (simp add: after_write_def andthen_Inr[where m="resolve_cap e (cl_name c)", OF cap[OF s1(3)]] engine_simps)
  have inner: "(if dt_readback t then readback e t else (\<lambda>h. h)) (repair_cap e (muldro_tool_dispatcher e (builtin_body e))) c s
      = (Inr (result_message e c (JObj r)), s1)"
    using assms(1) tail by (simp add: readback_def andthen_Inr[where m="?body", OF s1(1)] s1(1))
  have "inner_chain e t c s = (Inr (result_message e c (JObj r)), s1)"
    using inner assms(1,8)
    by (simp add: inner_chain_def Let_def write_lock_def andthen_Inr[where m="resolve_cap e (cl_name c)", OF cap[OF refl]] route)
  then have "trust_gate e t (inner_chain e t) c s = (Inr (result_message e c (JObj r)), s1)"
    using assms(1,3) ng
    by (simp add: trust_gate_def andthen_Inr[where m="gate_cap e (cl_name c)", OF gate_cap_known[OF assms(2)]])
  then show thesis using s1 that by blast
qed

text \<open>The tool of a server answers, whenever it is called, that the server has to be connected again.\<close>

definition needs_reconnect :: "turn_env \<Rightarrow> tool_call \<Rightarrow> tool_def \<Rightarrow> jdict \<Rightarrow> string \<Rightarrow> bool" where
  "needs_reconnect e c d r server \<longleftrightarrow> (\<forall>n. tv_execute e n (cl_name c) (cl_args c) = Inr (JObj r)) \<and> auth_required r \<and>
     jget r ''server'' = JStr server \<and> server \<noteq> [] \<and> tf_server d = Some server"

lemma offered_resume: "offered e t c d x (s\<lparr>kn_resume := r\<rparr>) = offered e t c d x s" "registered e t c d x (s\<lparr>kn_resume := r\<rparr>) = registered e t c d x s"
  by (simp_all add: offered_def registered_def)

lemma first_call:
  assumes "offered e t c d x s" "dt_permission_mode t = None" "is_read_only_capability x" "needs_reconnect e c d r server"
    and "failures_of (cl_name c) s < MAX_ATTEMPTS"
  obtains s1 where "run_call e t [] c s = (Inr (steered (result_message e c (JObj r)) UNAVAILABLE_STEER), s1)"
    "kn_calls s1 = kn_calls s @ [(cl_name c, cl_args c)]" "server \<in> set (kn_down_servers s1)" "registered e t c d x s1"
proof -
  let ?s = "s\<lparr>kn_resume := []\<rparr>"
  have off: "offered e t c d x ?s" using assms(1) by (simp add: offered_resume)
  obtain s1 where f: "tool_chain e t c ?s = andthen (trust_gate e t (inner_chain e t) c) (after_call e) s1" "let_through c d ?s s1"
    by (rule front_run[OF off])
  have s1: "map_of (kn_cache s1) (cl_name c) = Some (True, Some d)" "kn_calls s1 = kn_calls s" "failures_of (cl_name c) s1 < MAX_ATTEMPTS"
    using f(2) assms(5) by (simp_all add: let_through_def failures_of_def)
  have o: "\<not> is_builtin c" "tf_capability d = Some x" using assms(1) by (simp_all add: offered_def registered_def)
  have r: "\<forall>n. tv_execute e n (cl_name c) (cl_args c) = Inr (JObj r)" "auth_required r" "jget r ''server'' = JStr server" "server \<noteq> []"
    using assms(4) by (simp_all add: needs_reconnect_def)
  obtain s2 where g: "trust_gate e t (inner_chain e t) c s1 = (Inr (result_message e c (JObj r)), s2)"
    "kn_calls s2 = kn_calls s1 @ [(cl_name c, cl_args c)]" "kn_cache s2 = kn_cache s1"
    by (rule read_runs[OF o(1) s1(1) o(2) assms(3) r(1,2) s1(3) assms(2)])
  have payload: "unavailable_server_of e (message_payload e (result_message e c (JObj r))) = Some server"
    using r by (simp add: message_payload_def result_message_def unavailable_server_of_def str_of_def)
  obtain s3 where a: "after_call e (result_message e c (JObj r)) s2 = (Inr (steered (result_message e c (JObj r)) UNAVAILABLE_STEER), s3)"
    "kn_calls s3 = kn_calls s2" "kn_cache s3 = kn_cache s2" "server \<in> set (kn_down_servers s3)"
    by (simp add: after_call_def Let_def payload engine_simps mark_down_def)
  have "run_call e t [] c s = (Inr (steered (result_message e c (JObj r)) UNAVAILABLE_STEER), s3)"
    by (simp add: run_call_def f(1) andthen_Inr[where m="trust_gate e t (inner_chain e t) c", OF g(1)] a(1))
  then show thesis
    using g a s1 assms(1) by (intro that[of s3]) (simp_all add: offered_def registered_def)
qed

lemma second_call:
  assumes "registered e t c d x s" "tf_server d = Some server" "server \<in> set (kn_down_servers s)"
  obtains s1 where "run_call e t [] c s = (Inr (cached_unavailable c server), s1)" "kn_calls s1 = kn_calls s"
proof -
  let ?s = "s\<lparr>kn_resume := []\<rparr>"
  have reg: "registered e t c d x ?s" using assms(1) by (simp add: offered_resume)
  obtain s1 where f: "tool_chain e t c ?s = unavailable_server e (trust_gate e t (inner_chain e t)) c s1" "let_through c d ?s s1"
    by (rule audit_run[OF reg])
  have "tool_chain e t c ?s = (Inr (cached_unavailable c server), s1\<lparr>kn_asked := Suc (kn_asked s1)\<rparr>)"
    using assms f breaker_run[of c e d] by (simp add: registered_def let_through_def opt_or_def)
  then show thesis using f(2) by (intro that[of "s1\<lparr>kn_asked := Suc (kn_asked s1)\<rparr>"]) (simp_all add: run_call_def let_through_def)
qed

lemma parse_steered:
  "parse_tool_result_content e (tm_content (steered (result_message e c (JObj r)) UNAVAILABLE_STEER)) = None"
  by (simp add: parse_tool_result_content_def steered_def result_message_def UNAVAILABLE_STEER_text)


end
