(* ===== verification/Turn_Samples.thy ===== *)
theory Turn_Samples
  imports Turn_Bounds
begin

text \<open>
  Concrete turns on which the properties of the deep runtime apply: a write that is cleared, staged or asked about, and
  a read whose connector has to be connected again.
\<close>

section \<open>A turn, its tools and its calls\<close>

definition mail_risk :: risk_assessment where
  "mail_risk = \<lparr>ra_risk_level = ''medium'', ra_reasoning = ''a mail to one person'', ra_reversible = False,
     ra_blast_radius = ''external_single''\<rparr>"

definition send_tool :: tool_def where
  "send_tool = \<lparr>tf_capability = Some ''email.send'', tf_enabled = True, tf_risk_level = ''medium'', tf_server = Some ''gmail''\<rparr>"

definition search_tool :: tool_def where
  "search_tool = \<lparr>tf_capability = Some ''email.search'', tf_enabled = True, tf_risk_level = ''low'', tf_server = Some ''gmail''\<rparr>"

definition send_call :: tool_call where
  "send_call = \<lparr>cl_name = ''send_email'', cl_id = ''call_1'', cl_args = [(''to'', JStr ''a@b.c'')]\<rparr>"

definition search_call :: tool_call where
  "search_call = \<lparr>cl_name = ''search_email'', cl_id = ''call_2'', cl_args = []\<rparr>"

definition turn_sample :: "json \<Rightarrow> turn_env" where
  "turn_sample answer =
     \<lparr>tv_registry = (\<lambda>_ name. Inr (if name = ''send_email'' then Some send_tool
                       else if name = ''search_email'' then Some search_tool else None)),
      tv_risk = (\<lambda>_ _ _. Inr mail_risk), tv_execute = (\<lambda>_ _ _. Inr answer),
      tv_builtin = (\<lambda>_ c. Inr \<lparr>tm_content = Verbatim [], tm_tool_call_id = cl_id c, tm_name = None, tm_status = ''success''\<rparr>),
      tv_redis = True, tv_lock = (\<lambda>_ _. Inr True), tv_tools = (\<lambda>_. Inl ()), tv_read = (\<lambda>_ _ _. Inl ()), tv_rival = Map.empty,
      tv_dumps = (\<lambda>_. ''{}''), tv_loads = (\<lambda>_. None), tv_str = (\<lambda>_. []), tv_now = 0, tv_ulid = (\<lambda>n. ''01''), tv_trust_write_down = False\<rparr>"

definition sample_step_call :: "string list \<Rightarrow> step_call" where
  "sample_step_call approved =
     \<lparr>sc_agent_name = ''executor'', sc_scope = [''email.search'', ''email.send''], sc_context_block = [], sc_user_id = ''user_1'',
      sc_workspace_id = ''ws_1'', sc_pre_approved = approved, sc_ulid = ''01'', sc_require_redis = True, sc_readback = True\<rparr>"

definition sample_chat :: deep_turn where
  "sample_chat =
     \<lparr>dt_agent_name = ''lead'', dt_scope = [''email.search'', ''email.send''], dt_source = ''direct_user_request'', dt_workspace_id = ''ws_1'',
      dt_user_id = ''user_1'', dt_thread_id = ''c:ws_1:01'', dt_permission_mode = Some ''ask'', dt_presence = ''present'',
      dt_pre_approved = [], dt_context_block = [], dt_user_message = ''mail her'', dt_require_redis = True, dt_readback = True\<rparr>"

definition fresh_chain :: chain_state where
  "fresh_chain =
     \<lparr>kn_asked = 0, kn_cache = [], kn_down_servers = [], kn_down_providers = [], kn_failures = [], kn_metrics = [], kn_audit = [],
      kn_approvals = [], kn_trust = \<lparr>td_states = [], td_ceilings = []\<rparr>, kn_resume = [], kn_calls = []\<rparr>"

lemma sample_possible: "possible_risk (turn_sample v) x args a \<Longrightarrow> a = mail_risk"
  by (simp add: possible_risk_def assess_call_risk_def andthen_def engine_simps turn_sample_def)

lemma sample_offered:
  "offered (turn_sample v) t send_call send_tool ''email.send'' fresh_chain \<longleftrightarrow> ''email.send'' \<in> set (dt_scope t)"
  "offered (turn_sample v) t search_call search_tool ''email.search'' fresh_chain \<longleftrightarrow> ''email.search'' \<in> set (dt_scope t)"
  by (simp_all add: offered_def registered_def turn_sample_def send_call_def send_tool_def search_call_def search_tool_def fresh_chain_def
      is_builtin_def DEEPAGENTS_BUILTIN_NAMES_def)

lemma sample_capabilities:
  "\<not> never_gated (Some ''email.send'')" "is_read_only_capability ''email.search''"
  by code_simp+

section \<open>The witnesses\<close>

lemma sample_executes:
  "kn_calls (snd (tool_chain (turn_sample (JObj [])) (autonomous_turn (sample_step_call [''email.send''])) send_call fresh_chain))
     = [(''send_email'', [(''to'', JStr ''a@b.c'')])]"
  by code_simp

theorem executed_call_was_cleared_witness:
  "kn_calls (snd (tool_chain (turn_sample (JObj [])) (autonomous_turn (sample_step_call [''email.send''])) send_call fresh_chain))
     = [(''send_email'', [(''to'', JStr ''a@b.c'')])] \<and> ''email.send'' \<in> set (sc_scope (sample_step_call [''email.send'']))"
proof -
  have st: "steady (turn_sample (JObj [])) send_call send_tool fresh_chain"
    by (simp add: steady_def turn_sample_def send_call_def fresh_chain_def)
  have "kn_calls (snd (tool_chain (turn_sample (JObj [])) (autonomous_turn (sample_step_call [''email.send''])) send_call fresh_chain)) \<noteq> kn_calls fresh_chain"
    unfolding sample_executes by (simp add: fresh_chain_def)
  from executed_call_was_cleared[OF st this] show ?thesis
    by (simp add: fresh_chain_def send_call_def send_tool_def autonomous_turn_def)
qed

theorem absent_turn_never_suspends_witness:
  "fst (run_call (turn_sample (JObj [])) (autonomous_turn (sample_step_call [])) [] send_call fresh_chain) \<noteq> Inl (Interrupted [])"
  by (rule absent_turn_never_suspends) (simp_all add: autonomous_turn_def tools_never_suspend_def turn_sample_def)

lemma sample_needs_review:
  "needs_review (turn_sample v) (autonomous_turn (sample_step_call [])) send_call ''email.send'' fresh_chain"
proof -
  have "trust_requires (fst (evaluate ''ws_1'' ''email.send'' mail_risk (Some ''ws_1'') (kn_trust fresh_chain))) ''email.send'' mail_risk"
    by code_simp
  then have "\<not> trust_executes (turn_sample v) (autonomous_turn (sample_step_call [])) ''email.send'' (cl_args send_call) (kn_trust fresh_chain)"
    by (auto simp: trust_executes_def autonomous_turn_def sample_step_call_def dest!: sample_possible)
  then show ?thesis
    by (simp add: needs_review_def is_gated_source_def autonomous_turn_def sample_step_call_def sample_capabilities)
qed

definition sample_reader :: prepared_ctx where
  "sample_reader =
     \<lparr>px_registry = (\<lambda>_. Some (Some ''email.send'')), px_tool = (\<lambda>_ _ _ _ _. Inr (JObj [])),
      px_loads = (\<lambda>_. Some (JObj (cl_args send_call))), px_str = (\<lambda>_. []), px_lock = None, px_ledger = True,
      px_ulid = (\<lambda>_. ''01''), px_now = 0\<rparr>"

theorem unattended_write_is_staged_witness:
  "\<exists>row s1. tool_chain (turn_sample (JObj [])) (autonomous_turn (sample_step_call [])) send_call fresh_chain
       = (Inr (prepared_tool_message ''send_email'' ''call_1'' (ap_approval_id row) ''email.send''), s1)
     \<and> kn_calls s1 = [] \<and> kn_approvals s1 = [row]
     \<and> prepared_checks sample_reader row = Inr (Inr (''send_email'', ''email.send'', JObj (cl_args send_call)))"
proof -
  let ?e = "turn_sample (JObj [])" and ?t = "autonomous_turn (sample_step_call [])"
  have off: "offered ?e ?t send_call send_tool ''email.send'' fresh_chain"
    by (simp add: sample_offered autonomous_turn_def sample_step_call_def)
  have whole: "recorded_whole ?e sample_reader send_call" by code_simp
  have reg: "px_registry sample_reader (cl_name send_call) = Some (Some ''email.send'')" by (simp add: sample_reader_def)
  have rest: "dt_presence ?t \<noteq> ''present''" "find_existing_approval ?t send_call (kn_approvals fresh_chain) = None"
    "tv_rival ?e (cl_id send_call) = None" "cl_name send_call \<noteq> []"
    by (simp_all add: autonomous_turn_def find_existing_approval_def fresh_chain_def turn_sample_def send_call_def)
  from unattended_write_is_staged[OF off sample_needs_review rest] show ?thesis
    using whole reg by (simp add: fresh_chain_def send_call_def) blast
qed

theorem paused_write_obeys_the_answer_witness:
  "\<exists>row p s1 t'. run_call (turn_sample (JObj [])) sample_chat [] send_call fresh_chain = (Inl (Interrupted p), s1)
     \<and> resume_deep_lead \<lparr>rs_require_redis = True, rs_readback = True\<rparr> 0 (ap_approval_id row) ''approve'' None ''user_1'' ''ws_1'' (kn_approvals s1)
         = (Inr t', [lead_values 0 ''user_1'' ''approve'' None row])
     \<and> kn_calls (snd (replay_call (turn_sample (JObj [])) t' ''approve'' send_call [lead_values 0 ''user_1'' ''approve'' None row] s1))
         = [(''send_email'', [(''to'', JStr ''a@b.c'')])]"
proof -
  let ?e = "turn_sample (JObj [])"
  have off: "offered ?e sample_chat send_call send_tool ''email.send'' fresh_chain" by (simp add: sample_offered sample_chat_def)
  have chat: "chat_turn sample_chat ''ask''" by (simp add: chat_turn_def sample_chat_def)
  have res: "resumable sample_chat" by code_simp
  have must: "must_ask ?e ''ask'' send_call ''email.send''" by (simp add: must_ask_def sample_capabilities)
  have rest: "find_existing_approval sample_chat send_call (kn_approvals fresh_chain) = None" "tv_rival ?e (cl_id send_call) = None"
    "''apr_'' @ tv_ulid ?e (length (kn_approvals fresh_chain)) \<notin> ap_approval_id ` set (kn_approvals fresh_chain)"
    "tv_redis ?e" "\<forall>n k. tv_lock ?e n k = Inr True" "''approve'' \<in> {''approve'', ''reject''}" "(None::string option) \<noteq> Some ''MCP bridge not initialized''"
    by (simp_all add: find_existing_approval_def fresh_chain_def turn_sample_def)
  from paused_write_obeys_the_answer[OF chat res off must rest, where now=0 and now'=0 and user="''user_1''" and user'="''user_1''"
      and st="\<lparr>rs_require_redis = True, rs_readback = True\<rparr>" and decision'="''approve''" and reason'=None]
  show ?thesis by (simp add: Let_def sample_chat_def fresh_chain_def send_call_def) blast
qed


definition reconnect_answer :: jdict where
  "reconnect_answer = [(''status'', JStr ''error''), (''error_code'', JStr ''auth_required''), (''server'', JStr ''gmail'')]"


end
