(* ===== verification/Poll_Results.thy ===== *)
theory Poll_Results
  imports Perception_Policy Triage Prepared
begin

text \<open>
  What a poll of a source can end in, and how its failures are named: \<open>connectors/poll_result.py\<close> (error
  classes, their texts, the result record) and \<open>integrations/mcp_errors.py\<close> (the classification of an exception by
  its type and text). An exception is a value: the name of its type and the text \<open>str(e)\<close> gives. The second
  classification, by \<open>perception_policy.classify_error\<close>, reads the texts the first one produced.
\<close>

section \<open>Exceptions\<close>

text \<open>\<open>AuthRequired\<close> is \<open>McpAuthRequiredError\<close>, the one class the code tests for.\<close>

datatype py_error = Raised string string | AuthRequired string string

definition try_then :: "'e + 'a \<Rightarrow> ('a \<Rightarrow> 'e + 'b) \<Rightarrow> 'e + 'b" where
  "try_then m k = (case m of Inl e \<Rightarrow> Inl e | Inr x \<Rightarrow> k x)"

lemma try_then_simps [simp]: "try_then (Inl e) k = Inl e" "try_then (Inr x) k = k x"
  by (simp_all add: try_then_def)

lemma try_then_cong [fundef_cong]:
  "m = n \<Longrightarrow> (\<And>x. n = Inr x \<Longrightarrow> k x = l x) \<Longrightarrow> try_then m k = try_then n l"
  by (cases n) simp_all

lemma try_then_Inr: "try_then m k = Inr y \<longleftrightarrow> (\<exists>x. m = Inr x \<and> k x = Inr y)"
  by (cases m) simp_all

text \<open>\<open>[f(x) for x in xs]\<close>: stops at the first exception.\<close>

fun try_map :: "('a \<Rightarrow> 'e + 'b) \<Rightarrow> 'a list \<Rightarrow> 'e + 'b list" where
  "try_map f [] = Inr []"
| "try_map f (x # xs) = try_then (f x) (\<lambda>y. try_then (try_map f xs) (\<lambda>ys. Inr (y # ys)))"

lemma try_map_Inr: "try_map f xs = Inr ys \<longleftrightarrow> list_all2 (\<lambda>x y. f x = Inr y) xs ys"
  by (induction xs arbitrary: ys) (auto simp: try_then_Inr list_all2_Cons1)

lemma try_map_raises: "x \<in> set xs \<Longrightarrow> f x = Inl e \<Longrightarrow> \<exists>e'. try_map f xs = Inl e'"
proof (induction xs)
  case (Cons y ys)
  then show ?case by (cases "f y"; cases "try_map f ys") auto
qed simp

text \<open>Python's name for the type of a JSON value, and the errors of the operations it lacks.\<close>

fun type_name :: "json \<Rightarrow> string" where
  "type_name JNull = ''NoneType''"
| "type_name (JBool b) = ''bool''"
| "type_name (JNum n) = (if n = of_int \<lfloor>n\<rfloor> then ''int'' else ''float'')"
| "type_name (JStr s) = ''str''"
| "type_name (JList xs) = ''list''"
| "type_name (JObj d) = ''dict''"

definition no_attribute :: "json \<Rightarrow> string \<Rightarrow> py_error" where
  "no_attribute v a = Raised ''AttributeError'' (quoted (type_name v) @ '' object has no attribute '' @ quoted a)"

definition type_error :: "string \<Rightarrow> py_error" where
  "type_error text = Raised ''TypeError'' text"

text \<open>\<open>v.get(k, default)\<close> on a value that may not be a dictionary.\<close>

definition get_of :: "json \<Rightarrow> string \<Rightarrow> json \<Rightarrow> py_error + json" where
  "get_of v k d = (if is_obj v then Inr (jget_default (obj_items v) k d) else Inl (no_attribute v ''get''))"

lemma get_of_obj [simp]: "get_of (JObj d) k v = Inr (jget_default d k v)"
  by (simp add: get_of_def)

section \<open>Error classes of a poll\<close>

datatype poll_class = PollNone | PollTransient | PollPermanent | PollRateLimited | PollAuthFailed

fun class_message :: "poll_class \<Rightarrow> string option" where
  "class_message PollNone = None"
| "class_message PollTransient = Some ''transient connector error (503 service unavailable)''"
| "class_message PollPermanent = Some ''permanent connector error (4xx unrecoverable)''"
| "class_message PollRateLimited = Some ''rate_limited connector error (429 rate limit exceeded)''"
| "class_message PollAuthFailed = Some ''auth_failed connector error (401 unauthorized: token invalid or revoked)''"

definition CREDENTIAL_ACQUISITION_ERROR :: string where
  "CREDENTIAL_ACQUISITION_ERROR =
     ''transient connector error (503 service unavailable): could not acquire OAuth credentials ''
     @ em_dash @ '' likely token-refresh blip''"

definition MISSING_ERROR_SENTINEL :: string where
  "MISSING_ERROR_SENTINEL =
     ''transient connector error (503 service unavailable): unclassified '' @ em_dash @ '' error detail missing''"

definition error_class_to_policy_error :: "poll_class \<Rightarrow> py_error + string" where
  "error_class_to_policy_error c =
     (case class_message c of
        Some m \<Rightarrow> Inr m
      | None \<Rightarrow> Inl (Raised ''ValueError'' (''error_class_to_policy_error called with 'none' '' @ em_dash @
          '' successful polls must not be recorded as failures'')))"

definition classify_http_status :: "int \<Rightarrow> poll_class" where
  "classify_http_status status =
     (if status \<in> {401, 403} then PollAuthFailed
      else if status = 429 then PollRateLimited
      else if 500 \<le> status then PollTransient
      else if 400 \<le> status then PollPermanent
      else PollNone)"

record poll_result =
  pr_events :: "event list"
  pr_cursor :: "string option"
  pr_error :: poll_class

definition poll_ok :: "poll_result \<Rightarrow> bool" where
  "poll_ok r \<longleftrightarrow> pr_error r = PollNone"

definition poll_failed :: "poll_result \<Rightarrow> bool" where
  "poll_failed r \<longleftrightarrow> pr_error r \<noteq> PollNone"

definition poll_error :: "string option \<Rightarrow> poll_class \<Rightarrow> poll_result" where
  "poll_error cursor c = \<lparr>pr_events = [], pr_cursor = cursor, pr_error = c\<rparr>"

definition MCP_CODE_TO_POLL_CLASS :: "(string \<times> poll_class) list" where
  "MCP_CODE_TO_POLL_CLASS =
     [(''auth_error'', PollPermanent), (''timeout'', PollTransient), (''rate_limit'', PollRateLimited),
      (''server_error'', PollTransient), (''validation_error'', PollPermanent), (''circuit_open'', PollTransient),
      (''not_found'', PollPermanent), (''unknown_error'', PollTransient), (''auth_required'', PollTransient),
      (''session_lost'', PollTransient)]"

text \<open>The code of an action's failure comes out of its answer, so it may be any value; a list or an object cannot
  be a dictionary key.\<close>

fun mcp_code_to_poll_class :: "json \<Rightarrow> py_error + poll_class" where
  "mcp_code_to_poll_class (JStr s) = Inr (if s = [] then PollTransient else opt_or (map_of MCP_CODE_TO_POLL_CLASS s) PollTransient)"
| "mcp_code_to_poll_class (JList xs) = (if xs = [] then Inr PollTransient else Inl (type_error (''unhashable type: '' @ quoted ''list'')))"
| "mcp_code_to_poll_class (JObj d) = (if d = [] then Inr PollTransient else Inl (type_error (''unhashable type: '' @ quoted ''dict'')))"
| "mcp_code_to_poll_class _ = Inr PollTransient"

section \<open>Error codes of the tool transport\<close>

definition has_any :: "string list \<Rightarrow> string \<Rightarrow> bool" where
  "has_any markers text = list_ex (\<lambda>m. contains m text) markers"

definition INSUFFICIENT_SCOPE_MARKERS :: "string list" where
  "INSUFFICIENT_SCOPE_MARKERS =
     [''insufficient authentication scope'', ''insufficient permission'', ''insufficientpermissions'',
      ''insufficient_scope'', ''request had insufficient'', ''accessnotconfigured'']"

definition is_insufficient_scope :: "string \<Rightarrow> bool" where
  "is_insufficient_scope error = has_any INSUFFICIENT_SCOPE_MARKERS (py_lower error)"

fun error_text :: "py_error \<Rightarrow> string" where
  "error_text (Raised ty text) = text"
| "error_text (AuthRequired provider reason) = provider @ '' needs re-authorization (reason='' @ reason @ '')''"

fun mcp_classify_error :: "py_error \<Rightarrow> string" where
  "mcp_classify_error (AuthRequired provider reason) = ''auth_required''"
| "mcp_classify_error (Raised ty text) =
     (let t = py_lower text
      in if has_any [''401'', ''403'', ''unauthorized'', ''forbidden'', ''auth''] t then ''auth_error''
         else if ty \<in> {''TimeoutError'', ''asyncio.TimeoutError''} \<or> contains ''timeout'' t then ''timeout''
         else if has_any [''429'', ''rate limit'', ''too many requests''] t then ''rate_limit''
         else if ty \<in> {''ValueError'', ''TypeError'', ''ValidationError''} then ''validation_error''
         else if has_any [''circuit open'', ''circuit_open''] t then ''circuit_open''
         else if has_any [''404'', ''not found''] t then ''not_found''
         else if has_any [''session task completed'', ''closed resource'', ''broken resource'', ''connection closed'',
                          ''session closed''] t then ''session_lost''
         else if has_any [''500'', ''502'', ''503'', ''504'', ''server error''] t then ''server_error''
         else if has_any [''having trouble'', ''try again shortly'', ''try again later'', ''temporarily unavailable'',
                          ''service unavailable''] t then ''server_error''
         else ''unknown_error'')"

definition is_transient_code :: "string \<Rightarrow> bool" where
  "is_transient_code c \<longleftrightarrow> c \<in> {''timeout'', ''rate_limit'', ''server_error'', ''session_lost''}"

definition retry_after :: "string \<Rightarrow> nat option" where
  "retry_after c =
     (if c = ''rate_limit'' then Some 60 else if c = ''timeout'' then Some 5
      else if c = ''server_error'' then Some 10 else None)"

text \<open>\<open>make_error_response\<close>, with the sanitised text as an argument.\<close>

definition make_error_response :: "py_error \<Rightarrow> string \<Rightarrow> string \<Rightarrow> jdict" where
  "make_error_response e message tool_name =
     [(''status'', JStr ''error''), (''error_code'', JStr (mcp_classify_error e)), (''message'', JStr message)]
     @ (case retry_after (mcp_classify_error e) of None \<Rightarrow> [] | Some n \<Rightarrow> [(''retry_after'', JNum (of_nat n))])
     @ (if tool_name = [] then [] else [(''tool'', JStr tool_name)])"

section \<open>Lemmas\<close>

text \<open>Every code the classifier gives has an entry of its own in the poller's table.\<close>

lemma mcp_codes_are_mapped: "\<exists>c. c \<noteq> PollNone \<and> c \<noteq> PollAuthFailed \<and> mcp_code_to_poll_class (JStr (mcp_classify_error e)) = Inr c"
  by (cases e) (simp_all add: Let_def MCP_CODE_TO_POLL_CLASS_def)

lemma mcp_codes_known: "mcp_classify_error e \<in> fst ` set MCP_CODE_TO_POLL_CLASS"
  by (cases e) (simp_all add: Let_def MCP_CODE_TO_POLL_CLASS_def)

text \<open>A response that names a delay is one the retry loop takes as transient.\<close>

lemma retry_after_transient: "retry_after c = Some n \<Longrightarrow> is_transient_code c"
  by (simp add: retry_after_def is_transient_code_def split: if_splits)

lemma mcp_class_failed: "mcp_code_to_poll_class v = Inr c \<Longrightarrow> c \<noteq> PollNone"
proof (cases v)
  case (JStr s)
  have "c \<in> snd ` set MCP_CODE_TO_POLL_CLASS \<Longrightarrow> c \<noteq> PollNone" for c
    by (auto simp: MCP_CODE_TO_POLL_CLASS_def)
  moreover assume "mcp_code_to_poll_class v = Inr c"
  ultimately show ?thesis using JStr
    by (cases "map_of MCP_CODE_TO_POLL_CLASS s") (force simp: opt_or_def dest: map_of_SomeD split: if_splits)+
qed (simp_all split: if_splits)

end
