(* ===== verification/Gateway.thy ===== *)
theory Gateway
  imports Poll_Results
begin

text \<open>
  Reading a provider through the gateway: \<open>connectors/gateway_connector.py\<close>. The transport is an argument, the answer
  it gives to the n-th call of a poll; so are the parsers of the standard library that read JSON, timestamps and mail
  addresses. What is modelled is what the base class does with the answers: telling a failure from an empty window,
  following the pages up to a cap, and deciding whether the cursor may move and whether a stored one can be believed.
\<close>

section \<open>What a poll relies on\<close>

record poll_env =
  pe_loads :: "string \<Rightarrow> json option"
  pe_dumps :: "jdict \<Rightarrow> string"
  pe_str :: "json \<Rightarrow> string"
  pe_fromisoformat :: "string \<Rightarrow> timestamp option"
  pe_parsedate :: "string \<Rightarrow> timestamp option"
  pe_isoformat :: "instant \<Rightarrow> string"
  pe_parseaddr :: "string \<Rightarrow> string \<times> string"
  pe_parse_float :: "string \<Rightarrow> pyfloat option"

type_synonym tool_caller = "nat \<Rightarrow> string \<Rightarrow> jdict \<Rightarrow> py_error + jdict"

definition OVERLAP_SECONDS :: int where "OVERLAP_SECONDS = 300"
definition CURSOR_FLOOR_DAYS :: int where "CURSOR_FLOOR_DAYS = 90"
definition CURSOR_SKEW :: int where "CURSOR_SKEW = hours 24"

section \<open>Numbers as text\<close>

definition int_text :: "int \<Rightarrow> string" where
  "int_text n = (if n < 0 then CHR ''-'' # nat_text (nat (- n)) else nat_text (nat n))"

text \<open>The digits of \<open>int(s)\<close>: single underscores may stand between digits.\<close>

fun read_digits :: "nat \<Rightarrow> bool \<Rightarrow> string \<Rightarrow> nat option" where
  "read_digits acc after [] = (if after then Some acc else None)"
| "read_digits acc after (c # s) =
     (if is_digit_char c then read_digits (10 * acc + (code c - 48)) True s
      else if c = CHR ''_'' \<and> after then read_digits acc False s
      else None)"

text \<open>\<open>int(s)\<close> on text; more than 4300 digits are refused.\<close>

definition MAX_STR_DIGITS :: nat where "MAX_STR_DIGITS = 4300"

definition py_int :: "string \<Rightarrow> int option" where
  "py_int s =
     (let t = py_strip s
      in if MAX_STR_DIGITS < length (filter is_digit_char t) then None
         else case t of
             [] \<Rightarrow> None
           | c # r \<Rightarrow> (if c = CHR ''-'' then map_option (\<lambda>n. - int n) (read_digits 0 False r)
                       else map_option int (read_digits 0 False (if c = CHR ''+'' then r else t))))"

text \<open>\<open>int(str(v).strip())\<close>: of the other values only an integer has the text of one. Integers and floats are not
  told apart, so a float with no fraction reads as the integer.\<close>

fun int_of_value :: "json \<Rightarrow> int option" where
  "int_of_value (JNum n) =
     (if n = of_int \<lfloor>n\<rfloor> \<and> \<bar>\<lfloor>n\<rfloor>\<bar> < 10 ^ MAX_STR_DIGITS then Some \<lfloor>n\<rfloor> else None)"
| "int_of_value (JStr s) = py_int s"
| "int_of_value _ = None"

text \<open>\<open>s.replace(old, new)\<close>, left to right, without overlaps.\<close>

function py_replace :: "string \<Rightarrow> string \<Rightarrow> string \<Rightarrow> string" where
  "py_replace old new s =
     (if old = [] \<or> s = [] then s
      else if take (length old) s = old then new @ py_replace old new (drop (length old) s)
      else hd s # py_replace old new (tl s))"
  by pat_completeness auto

termination
  by (relation "measure (\<lambda>(old, new, s). length s)") auto

declare py_replace.simps [simp del]

section \<open>One call\<close>

fun is_ok :: "json \<Rightarrow> bool" where
  "is_ok (JStr s) = (py_lower (py_strip s) \<in> {''true'', ''1'', ''yes''})"
| "is_ok v = truthy v"

text \<open>The inside of a successful transport answer: an action that failed, a payload under \<open>data\<close>, or the payload
  itself.\<close>

definition failure_code :: "jdict \<Rightarrow> json" where
  "failure_code parsed = jor (jget (obj_items (jget parsed ''error'')) ''code'') (jget parsed ''error_code'')"

definition unwrap_payload :: "jdict \<Rightarrow> py_error + (poll_class + jdict)" where
  "unwrap_payload parsed =
     (if map_of parsed ''ok'' \<noteq> None \<and> \<not> is_ok (jget parsed ''ok'')
      then try_then (mcp_code_to_poll_class (failure_code parsed)) (\<lambda>c. Inr (Inl c))
      else case map_of parsed ''data'' of
             None \<Rightarrow> Inr (Inr parsed)
           | Some (JObj d) \<Rightarrow> Inr (Inr d)
           | Some _ \<Rightarrow> Inr (Inl PollTransient))"

definition gateway_call ::
  "poll_env \<Rightarrow> tool_caller option \<Rightarrow> nat \<Rightarrow> string \<Rightarrow> jdict \<Rightarrow> py_error + (poll_class + jdict)" where
  "gateway_call env caller n action payload =
     (case caller of
        None \<Rightarrow> Inr (Inl PollTransient)
      | Some call \<Rightarrow>
          try_then (call n action payload) (\<lambda>envelope.
            if jget envelope ''status'' \<noteq> JStr ''ok'' \<or> truthy (jget envelope ''error'')
            then try_then (mcp_code_to_poll_class (jget envelope ''error_code'')) (\<lambda>c. Inr (Inl c))
            else case (case jget envelope ''result'' of
                         JStr s \<Rightarrow> pe_loads env s
                       | JObj d \<Rightarrow> Some (JObj d)
                       | _ \<Rightarrow> None) of
                   Some (JObj parsed) \<Rightarrow> unwrap_payload parsed
                 | _ \<Rightarrow> Inr (Inl PollTransient)))"

section \<open>The paginated walk\<close>

record page_walk =
  pw_pages :: "jdict list list"
  pw_error :: "poll_class option"
  pw_truncated :: bool

definition walk_failed :: "poll_class \<Rightarrow> page_walk" where
  "walk_failed c = \<lparr>pw_pages = [], pw_error = Some c, pw_truncated = False\<rparr>"

definition walk_done :: "jdict list list \<Rightarrow> bool \<Rightarrow> page_walk" where
  "walk_done pages truncated = \<lparr>pw_pages = pages, pw_error = None, pw_truncated = truncated\<rparr>"

record walk_spec =
  wk_action :: string
  wk_payload :: jdict
  wk_items :: string
  wk_max_pages :: nat
  wk_token_key :: string
  wk_next_key :: string
  wk_stop :: "(jdict list \<Rightarrow> bool) option"

definition page_payload :: "walk_spec \<Rightarrow> json \<Rightarrow> jdict" where
  "page_payload w token =
     (if truthy token then AList.update (wk_token_key w) token (wk_payload w) else wk_payload w)"

text \<open>The rows of a page, or none when the payload has no list under its key.\<close>

definition rows_of :: "walk_spec \<Rightarrow> jdict \<Rightarrow> jdict list option" where
  "rows_of w result =
     (case map_of result (wk_items w) of
        Some (JList rows) \<Rightarrow> Some (map obj_items (filter is_obj rows))
      | _ \<Rightarrow> None)"

definition walk_stops :: "walk_spec \<Rightarrow> jdict list \<Rightarrow> bool" where
  "walk_stops w rows = (case wk_stop w of None \<Rightarrow> False | Some stop \<Rightarrow> stop rows)"

fun walk_from ::
  "poll_env \<Rightarrow> tool_caller option \<Rightarrow> walk_spec \<Rightarrow> nat \<Rightarrow> nat \<Rightarrow> json \<Rightarrow> jdict list list \<Rightarrow> py_error + page_walk" where
  "walk_from env caller w 0 n token pages = Inr (walk_done pages True)"
| "walk_from env caller w (Suc k) n token pages =
     try_then (gateway_call env caller n (wk_action w) (page_payload w token)) (\<lambda>answer.
       case answer of
         Inl c \<Rightarrow> Inr (walk_failed c)
       | Inr result \<Rightarrow>
           (case rows_of w result of
              None \<Rightarrow> Inr (walk_failed PollTransient)
            | Some rows \<Rightarrow>
                (let next_token = jget result (wk_next_key w)
                 in if walk_stops w rows then Inr (walk_done (pages @ [rows]) False)
                    else if \<not> truthy next_token then Inr (walk_done (pages @ [rows]) False)
                    else walk_from env caller w k (Suc n) next_token (pages @ [rows]))))"

definition walk_pages :: "poll_env \<Rightarrow> tool_caller option \<Rightarrow> walk_spec \<Rightarrow> py_error + page_walk" where
  "walk_pages env caller w = walk_from env caller w (wk_max_pages w) 0 JNull []"

section \<open>The cursor\<close>

definition resolve_cursor :: "page_walk \<Rightarrow> string option \<Rightarrow> string option \<Rightarrow> string option" where
  "resolve_cursor walk incoming observed = (if pw_truncated walk \<or> observed = None then incoming else observed)"

text \<open>\<open>int(t.timestamp())\<close>: whole seconds, towards zero.\<close>

definition epoch_of :: "instant \<Rightarrow> int" where
  "epoch_of t = (if t < 0 then - ((- t) div secs 1) else t div secs 1)"

definition epoch_cursor_ceiling :: "instant \<Rightarrow> int" where
  "epoch_cursor_ceiling now = epoch_of (now + CURSOR_SKEW)"

definition epoch_cursor_floor :: "instant \<Rightarrow> int" where
  "epoch_cursor_floor now = epoch_of (now - hours (24 * CURSOR_FLOOR_DAYS))"

definition sane_epoch_cursor :: "instant \<Rightarrow> string option \<Rightarrow> int option" where
  "sane_epoch_cursor now cursor =
     (case cursor of
        None \<Rightarrow> None
      | Some s \<Rightarrow>
          if s = [] then None
          else case py_int s of
              None \<Rightarrow> None
            | Some v \<Rightarrow> if v < epoch_cursor_floor now \<or> epoch_cursor_ceiling now < v then None else Some v)"

definition sane_rfc3339_cursor :: "poll_env \<Rightarrow> instant \<Rightarrow> string option \<Rightarrow> instant option" where
  "sane_rfc3339_cursor env now cursor =
     (case cursor of
        None \<Rightarrow> None
      | Some s \<Rightarrow>
          if s = [] then None
          else case Option.bind (pe_fromisoformat env (py_replace ''Z'' ''+00:00'' (py_strip s))) ensure_aware_utc of
              None \<Rightarrow> None
            | Some t \<Rightarrow> if t < now - hours (24 * CURSOR_FLOOR_DAYS) \<or> now + CURSOR_SKEW < t then None else Some t)"

section \<open>The health probe\<close>

record connector_health =
  ch_provider :: string
  ch_status :: string
  ch_last_poll_at :: "instant option"
  ch_error :: "string option"

definition gateway_test ::
  "poll_env \<Rightarrow> tool_caller option \<Rightarrow> instant \<Rightarrow> string \<Rightarrow> string \<Rightarrow> py_error + connector_health" where
  "gateway_test env caller now provider read_action =
     try_then (gateway_call env caller 0 read_action []) (\<lambda>answer.
       let good = (case answer of Inl _ \<Rightarrow> False | Inr _ \<Rightarrow> True)
       in Inr \<lparr>ch_provider = provider, ch_status = (if good then ''healthy'' else ''down''),
               ch_last_poll_at = (if good then Some now else None),
               ch_error = (if good then None else Some (read_action @ '' failed''))\<rparr>)"

section \<open>Numbers read back\<close>

lemma digit_code: "d < 10 \<Longrightarrow> code (char_of (48 + d)) = 48 + d" for d :: nat
  by (simp add: code_def)

lemma nat_text_digits: "c \<in> set (nat_text n) \<Longrightarrow> is_digit_char c"
proof (induction n rule: nat_text.induct)
  case (1 n)
  show ?case
  proof (cases "n < 10")
    case True
    then show ?thesis using 1(2) digit_code[of n] by (simp add: nat_text.simps[of n] is_digit_char_def)
  next
    case False
    then show ?thesis using 1 digit_code[of "n mod 10"]
      by (auto simp: nat_text.simps[of n] is_digit_char_def)
  qed
qed

lemma nat_text_nonempty [simp]: "nat_text n \<noteq> []"
  by (simp add: nat_text.simps[of n])

lemma read_digits_after:
  "\<forall>c\<in>set s. is_digit_char c \<Longrightarrow>
     read_digits acc True s = Some (fold (\<lambda>c a. 10 * a + (code c - 48)) s acc)"
  by (induction s arbitrary: acc) auto

lemma nat_text_value: "fold (\<lambda>c a. 10 * a + (code c - 48)) (nat_text n) 0 = n"
proof (induction n rule: nat_text.induct)
  case (1 n)
  then show ?case
    using digit_code[of n] digit_code[of "n mod 10"] by (cases "n < 10") (simp_all add: nat_text.simps[of n])
qed

lemma read_nat_text: "read_digits 0 False (nat_text n) = Some n"
proof -
  obtain c r where cr: "nat_text n = c # r" by (cases "nat_text n") auto
  then have "is_digit_char c" "\<forall>d\<in>set r. is_digit_char d" using nat_text_digits[of _ n] by auto
  then show ?thesis using read_digits_after[of r "code c - 48"] nat_text_value[of n] cr by simp
qed

lemma nat_text_length: "n < 10 ^ Suc k \<Longrightarrow> length (nat_text n) \<le> Suc k"
proof (induction k arbitrary: n)
  case (Suc k)
  show ?case
  proof (cases "n < 10")
    case False
    have "n div 10 < 10 ^ Suc k" using Suc.prems by (simp add: less_mult_imp_div_less mult.commute)
    then show ?thesis using Suc.IH[of "n div 10"] False by (simp add: nat_text.simps[of n])
  qed (simp add: nat_text.simps[of n])
qed (subst nat_text.simps, simp)

lemma digit_not_white: "is_digit_char c \<Longrightarrow> \<not> is_white c"
  by (auto simp: is_digit_char_def is_white_def)

lemma minus_not_white: "\<not> is_white CHR ''-''" "\<not> is_digit_char CHR ''-''"
  by (simp_all add: is_white_def is_digit_char_def code_def)

lemma sign_not_digit: "is_digit_char c \<Longrightarrow> c \<noteq> CHR ''-'' \<and> c \<noteq> CHR ''+''"
  by (auto simp: is_digit_char_def code_def)

text \<open>A number written as text is read back, as long as the text is short enough for \<open>int\<close>.\<close>

lemma int_text_reads_back:
  assumes "length (nat_text (nat \<bar>n\<bar>)) \<le> MAX_STR_DIGITS"
  shows "py_int (int_text n) = Some n"
proof -
  let ?d = "nat_text (nat \<bar>n\<bar>)"
  have d: "\<forall>c\<in>set ?d. is_digit_char c" using nat_text_digits by blast
  then have f: "filter is_digit_char ?d = ?d" by simp
  obtain c r where cr: "?d = c # r" using nat_text_nonempty by (cases ?d) auto
  then have s: "c \<noteq> CHR ''-''" "c \<noteq> CHR ''+''" using d sign_not_digit by auto
  show ?thesis
  proof (cases "n < 0")
    case True
    then have t: "int_text n = CHR ''-'' # ?d" by (simp add: int_text_def)
    have "py_strip (int_text n) = int_text n"
      unfolding py_strip_def t using d digit_not_white minus_not_white by (intro strip_chars_id) auto
    then show ?thesis using True assms read_nat_text[of "nat \<bar>n\<bar>"] f by (simp add: py_int_def t minus_not_white)
  next
    case False
    then have t: "int_text n = ?d" by (simp add: int_text_def)
    have "py_strip ?d = ?d" unfolding py_strip_def using d digit_not_white by (intro strip_chars_id) auto
    then show ?thesis using False assms read_nat_text[of "nat \<bar>n\<bar>"] f cr s by (simp add: py_int_def t)
  qed
qed

lemma epoch_of_mono: "s \<le> t \<Longrightarrow> epoch_of s \<le> epoch_of t"
proof -
  assume a: "s \<le> t"
  have m: "x \<le> y \<Longrightarrow> x div secs 1 \<le> y div secs 1" for x y :: int
    by (simp add: secs_def zdiv_mono1)
  have p: "0 \<le> x \<Longrightarrow> 0 \<le> x div secs 1" for x :: int
    by (simp add: secs_def pos_imp_zdiv_nonneg_iff)
  show ?thesis using a m[of s t] m[of "- t" "- s"] p[of t] p[of "- s"] by (auto simp: epoch_of_def)
qed

text \<open>The bound a stamp is held to when it is written is the bound it is held to when it is read, at any later time.\<close>

lemma epoch_cursor_reads_back:
  assumes "n \<le> epoch_cursor_ceiling now" "now \<le> later" "epoch_cursor_floor later \<le> n" "\<bar>n\<bar> < 10 ^ 12"
  shows "sane_epoch_cursor later (Some (int_text n)) = Some n"
proof -
  have "nat \<bar>n\<bar> < 10 ^ Suc 11" using assms(4) by (simp add: nat_less_iff)
  then have "length (nat_text (nat \<bar>n\<bar>)) \<le> Suc 11" by (rule nat_text_length)
  then have "py_int (int_text n) = Some n" by (intro int_text_reads_back) (simp add: MAX_STR_DIGITS_def)
  moreover have "epoch_cursor_ceiling now \<le> epoch_cursor_ceiling later"
    using assms(2) by (simp add: epoch_cursor_ceiling_def epoch_of_mono)
  moreover have "int_text n \<noteq> []" by (simp add: int_text_def)
  ultimately show ?thesis using assms(1,3) by (simp add: sane_epoch_cursor_def)
qed

section \<open>What a walk is worth\<close>

text \<open>The page a token names, when the provider answers with one, and the chain of pages from a token: the chain ends
  at a page that offers no next one or that the connector stops at.\<close>

definition page_at ::
  "poll_env \<Rightarrow> tool_caller option \<Rightarrow> walk_spec \<Rightarrow> nat \<Rightarrow> json \<Rightarrow> (jdict list \<times> json) option" where
  "page_at env caller w n token =
     (case gateway_call env caller n (wk_action w) (page_payload w token) of
        Inr (Inr result) \<Rightarrow> map_option (\<lambda>rows. (rows, jget result (wk_next_key w))) (rows_of w result)
      | _ \<Rightarrow> None)"

definition last_page :: "walk_spec \<Rightarrow> jdict list \<Rightarrow> json \<Rightarrow> bool" where
  "last_page w rows next_token \<longleftrightarrow> walk_stops w rows \<or> \<not> truthy next_token"

inductive drained ::
  "poll_env \<Rightarrow> tool_caller option \<Rightarrow> walk_spec \<Rightarrow> nat \<Rightarrow> json \<Rightarrow> jdict list list \<Rightarrow> bool"
  for env caller w where
  final_page: "page_at env caller w n token = Some (rows, t) \<Longrightarrow> last_page w rows t \<Longrightarrow> drained env caller w n token [rows]"
| further_page: "page_at env caller w n token = Some (rows, t) \<Longrightarrow> \<not> last_page w rows t \<Longrightarrow>
    drained env caller w (Suc n) t pages \<Longrightarrow> drained env caller w n token (rows # pages)"

inductive_cases drained_NilE: "drained env caller w n token []"

lemma walk_done_simps [simp]:
  "pw_pages (walk_done ps b) = ps" "pw_error (walk_done ps b) = None" "pw_truncated (walk_done ps b) = b"
  "pw_pages (walk_failed c) = []" "pw_error (walk_failed c) = Some c" "pw_truncated (walk_failed c) = False"
  by (simp_all add: walk_done_def walk_failed_def)

lemma walk_from_page:
  "walk_from env caller w (Suc k) n token pages =
     (case page_at env caller w n token of
        Some (rows, t) \<Rightarrow> if last_page w rows t then Inr (walk_done (pages @ [rows]) False)
                          else walk_from env caller w k (Suc n) t (pages @ [rows])
      | None \<Rightarrow> (case gateway_call env caller n (wk_action w) (page_payload w token) of
                   Inl e \<Rightarrow> Inl e | Inr (Inl c) \<Rightarrow> Inr (walk_failed c) | Inr (Inr _) \<Rightarrow> Inr (walk_failed PollTransient)))"
  by (auto simp: page_at_def last_page_def try_then_def Let_def split: sum.splits option.splits)

declare walk_from.simps(2) [simp del]

text \<open>A walk is whole exactly when the chain ends within the cap; it is cut at the cap when the chain goes on.\<close>

lemma walk_from_whole:
  "walk_from env caller w k n token pages = Inr walk \<and> pw_error walk = None \<and> \<not> pw_truncated walk \<longleftrightarrow>
     (\<exists>ps. drained env caller w n token ps \<and> length ps \<le> k \<and> walk = walk_done (pages @ ps) False)"
proof (induction k arbitrary: n token pages)
  case 0
  then show ?case by (auto elim: drained_NilE)
next
  case (Suc k)
  show ?case
  proof (cases "page_at env caller w n token")
    case None
    then have "\<not> drained env caller w n token ps" for ps by (subst drained.simps) simp
    then show ?thesis using None by (auto simp: walk_from_page split: sum.splits)
  next
    case (Some a)
    obtain rows t where a: "a = (rows, t)" by fastforce
    show ?thesis
    proof (cases "last_page w rows t")
      case True
      have d: "drained env caller w n token ps \<longleftrightarrow> ps = [rows]" for ps
        using Some True a by (subst drained.simps) auto
      show ?thesis unfolding walk_from_page d Some a using True by (simp cong: conj_cong) (metis walk_done_simps(2,3))
    next
      case False
      have d: "drained env caller w n token ps \<longleftrightarrow> (\<exists>qs. ps = rows # qs \<and> drained env caller w (Suc n) t qs)" for ps
        using Some False a by (subst drained.simps) auto
      have "walk_from env caller w (Suc k) n token pages = walk_from env caller w k (Suc n) t (pages @ [rows])"
        unfolding walk_from_page Some a using False by simp
      then show ?thesis unfolding d using Suc.IH[of "Suc n" t "pages @ [rows]"] by fastforce
    qed
  qed
qed

lemma walk_from_truncated:
  assumes "walk_from env caller w k n token pages = Inr walk"
  shows "pw_truncated walk \<longrightarrow> pw_error walk = None \<and> length (pw_pages walk) = length pages + k"
    and "pw_error walk \<noteq> None \<longrightarrow> pw_pages walk = [] \<and> \<not> pw_truncated walk"
  using assms
proof (induction k arbitrary: n token pages)
  case (Suc k)
  {
    case 1
    then show ?case using Suc.IH(1)
      by (fastforce simp: walk_from_page split: option.splits sum.splits if_splits)
  next
    case 2
    then show ?case using Suc.IH(2)
      by (fastforce simp: walk_from_page split: option.splits sum.splits if_splits)
  }
qed auto

text \<open>What a poll may take a walk for: with no error, either the whole chain or exactly the first pages up to the
  cap; with an error, nothing.\<close>

lemma walk_pages_cases:
  assumes "walk_pages env caller w = Inr walk"
  obtains (failed) c where "walk = walk_failed c"
  | (whole) "drained env caller w 0 JNull (pw_pages walk)" "length (pw_pages walk) \<le> wk_max_pages w"
      "walk = walk_done (pw_pages walk) False"
  | (cut) "length (pw_pages walk) = wk_max_pages w" "walk = walk_done (pw_pages walk) True"
proof -
  have a: "walk_from env caller w (wk_max_pages w) 0 JNull [] = Inr walk" using assms by (simp add: walk_pages_def)
  note t = walk_from_truncated[OF a]
  consider "pw_error walk \<noteq> None" | "pw_error walk = None" "\<not> pw_truncated walk" | "pw_truncated walk" by blast
  then show thesis
  proof cases
    case 1
    then obtain c where "pw_error walk = Some c" by blast
    then have "walk = walk_failed c" using 1 t(2) by (simp add: walk_failed_def)
    then show thesis by (rule failed)
  next
    case 2
    then show thesis using whole walk_from_whole[of env caller w "wk_max_pages w" 0 JNull "[]" walk] a by auto
  next
    case 3
    then have "walk = walk_done (pw_pages walk) True" using t(1) by (simp add: walk_done_def)
    then show thesis using cut t(1) 3 by simp
  qed
qed


end
