(* ===== verification/Gateway_Polls.thy ===== *)
theory Gateway_Polls
  imports Gateway
begin

text \<open>
  The three sources read through the gateway: \<open>connectors/gmail.py\<close>, \<open>connectors/calendar.py\<close> and
  \<open>connectors/notion_connector.py\<close>. Each builds a window from its cursor, walks it, turns rows into raw events and
  takes the newest stamp it saw as the next cursor. Rows come from the provider, so every reader below is total or
  says what it raises. An identifier or a title that is not text reads as absent.
\<close>

section \<open>Raw events\<close>

definition raw_event ::
  "string \<Rightarrow> string \<Rightarrow> string \<Rightarrow> string \<Rightarrow> instant option \<Rightarrow> string option \<Rightarrow> json \<Rightarrow> jdict \<Rightarrow> jdict \<Rightarrow> event" where
  "raw_event source event_type entity_type entity_id stamp title summary actor payload =
     \<lparr>ne_event_id = [], ne_workspace_id = [], ne_user_id = [], ne_source = source, ne_event_type = event_type,
      ne_entity_type = entity_type, ne_entity_id = entity_id,
      ne_occurred_at = (case stamp of None \<Rightarrow> NotADatetime | Some t \<Rightarrow> Aware t), ne_created_at = NotADatetime,
      ne_title = title, ne_summary = summary, ne_actor = JObj actor, ne_actor_entities = JNull,
      ne_raw_payload = JObj payload, ne_importance_signals = None, ne_idempotency_key = []\<rparr>"

definition MAX_DATETIME :: instant where
  "MAX_DATETIME = secs 253402300800 - 1"

text \<open>\<open>t.astimezone(timezone.utc)\<close>: a time that leaves the calendar in UTC cannot be written.\<close>

definition to_utc :: "instant \<Rightarrow> py_error + instant" where
  "to_utc t =
     (if NO_TIMESTAMP \<le> t \<and> t \<le> MAX_DATETIME then Inr t
      else Inl (Raised ''OverflowError'' ''date value out of range''))"

section \<open>Gmail\<close>

definition MAX_BACKFILL_PAGES :: nat where "MAX_BACKFILL_PAGES = 4"
definition MAX_INCREMENTAL_PAGES :: nat where "MAX_INCREMENTAL_PAGES = 10"
definition GMAIL_PAGE_SIZE :: nat where "GMAIL_PAGE_SIZE = 25"
definition INITIAL_QUERY :: string where "INITIAL_QUERY = ''is:inbox newer_than:3d''"
definition BULK_MAIL_HEADERS :: "string list" where
  "BULK_MAIL_HEADERS = [''list-unsubscribe'', ''list-id'', ''precedence'']"
definition EPOCH_MILLIS_FLOOR :: int where "EPOCH_MILLIS_FLOOR = 10 ^ 11"
definition SUMMARY_MAX_CHARS :: nat where "SUMMARY_MAX_CHARS = 500"

definition blank :: "string \<Rightarrow> bool" where
  "blank s \<longleftrightarrow> py_strip s = []"

fun first_text :: "jdict \<Rightarrow> string list \<Rightarrow> string" where
  "first_text source [] = []"
| "first_text source (key # keys) =
     (case jget source key of
        JStr s \<Rightarrow> if blank s then first_text source keys else s
      | _ \<Rightarrow> first_text source keys)"

definition text_of :: "poll_env \<Rightarrow> json \<Rightarrow> string" where
  "text_of env v = (case v of JStr s \<Rightarrow> s | _ \<Rightarrow> pe_str env v)"

definition header_entry :: "poll_env \<Rightarrow> json \<Rightarrow> (string \<times> string) list \<Rightarrow> (string \<times> string) list" where
  "header_entry env entry headers =
     (case entry of
        JObj d \<Rightarrow>
          (case jget d ''name'' of
             JStr name \<Rightarrow> (if jget d ''value'' = JNull then headers
                          else AList.update name (text_of env (jget d ''value'')) headers)
           | _ \<Rightarrow> headers)
      | _ \<Rightarrow> headers)"

definition headers_of :: "poll_env \<Rightarrow> jdict \<Rightarrow> (string \<times> string) list" where
  "headers_of env message =
     (case jget (obj_items (jget message ''payload'')) ''headers'' of
        JList entries \<Rightarrow> fold (header_entry env) entries []
      | _ \<Rightarrow> [])"

definition header :: "(string \<times> string) list \<Rightarrow> string \<Rightarrow> string" where
  "header headers name = opt_or (map_of headers name) []"

text \<open>The largest number of milliseconds whose quotient by 1000 is still a float.\<close>

definition FLOAT_LIMIT :: int where
  "FLOAT_LIMIT = 1000 * (2 ^ 1024 - 2 ^ 970)"

definition from_epoch :: "json \<Rightarrow> bool \<Rightarrow> py_error + instant option" where
  "from_epoch value millis =
     (case int_of_value value of
        None \<Rightarrow> Inr None
      | Some number \<Rightarrow>
          (let moment = (\<lambda>t. if NO_TIMESTAMP \<le> t \<and> t \<le> MAX_DATETIME then Some t else None)
           in if \<not> (millis \<or> EPOCH_MILLIS_FLOOR \<le> \<bar>number\<bar>) then Inr (moment (secs number))
              else if FLOAT_LIMIT \<le> \<bar>number\<bar>
              then Inl (Raised ''OverflowError'' ''integer division result too large for a float'')
              else Inr (moment (1000 * number))))"

definition from_text_timestamp :: "poll_env \<Rightarrow> json \<Rightarrow> py_error + instant option" where
  "from_text_timestamp env value =
     (case value of
        JStr s \<Rightarrow>
          (if blank s then Inr None
           else let raw = py_strip s;
                    parsed = (case pe_fromisoformat env (py_replace ''Z'' ''+00:00'' raw) of
                                Some t \<Rightarrow> Some t | None \<Rightarrow> pe_parsedate env raw)
                in case Option.bind parsed ensure_aware_utc of
                     None \<Rightarrow> Inr None
                   | Some t \<Rightarrow> try_then (to_utc t) (\<lambda>u. Inr (Some u)))
      | _ \<Rightarrow> Inr None)"

definition gmail_occurred_at :: "poll_env \<Rightarrow> jdict \<Rightarrow> py_error + instant option" where
  "gmail_occurred_at env message =
     try_then (from_epoch (jget message ''internalDate'') True) (\<lambda>native.
       case native of
         Some t \<Rightarrow> Inr (Some t)
       | None \<Rightarrow>
           try_then (from_epoch (jget message ''messageTimestamp'') False) (\<lambda>epoch.
             case epoch of
               Some t \<Rightarrow> Inr (Some t)
             | None \<Rightarrow> from_text_timestamp env (jget message ''messageTimestamp'')))"

definition snippet_of :: "jdict \<Rightarrow> string" where
  "snippet_of message =
     (let native = first_text message [''snippet''];
          preview = first_text message [''preview''];
          inner = first_text (obj_items (jget message ''preview'')) [''snippet'', ''text'', ''body'', ''preview'']
      in if native \<noteq> [] then native
         else if preview \<noteq> [] then preview
         else if inner \<noteq> [] then inner
         else first_text message [''messageText''])"

definition sender_actor :: "poll_env \<Rightarrow> string \<Rightarrow> jdict" where
  "sender_actor env sender =
     (let parsed = pe_parseaddr env sender;
          address = (if CHR ''@'' \<in> set (snd parsed) then snd parsed else py_strip sender);
          display = py_strip (fst parsed);
          name = (if display \<noteq> [] then display else takeWhile (\<lambda>c. c \<noteq> CHR ''@'') address)
      in [(''type'', JStr ''person''), (''email'', JStr address), (''name'', JStr (if name \<noteq> [] then name else address))])"

definition text_or :: "string \<Rightarrow> string \<Rightarrow> string" where
  "text_or a b = (if a \<noteq> [] then a else b)"

definition gmail_event :: "poll_env \<Rightarrow> jdict \<Rightarrow> py_error + event option" where
  "gmail_event env message =
     (let message_id = first_text message [''messageId'', ''id'']
      in if message_id = [] then Inr None
         else let headers = headers_of env message;
                  sender = text_or (text_or (first_text message [''sender'']) (header headers ''From'')) ''unknown'';
                  subject = text_or (text_or (first_text message [''subject'']) (header headers ''Subject'')) ''(no subject)'';
                  labels = (case jget message ''labelIds'' of JList ls \<Rightarrow> JList ls | _ \<Rightarrow> JList [])
              in try_then (gmail_occurred_at env message) (\<lambda>stamp.
                   Inr (Some (raw_event ''gmail'' ''email_received'' ''email_thread''
                     (text_or (first_text message [''threadId'']) message_id) stamp (Some subject)
                     (JStr (take SUMMARY_MAX_CHARS (snippet_of message))) (sender_actor env sender)
                     [(''message_id'', JStr message_id), (''labels'', labels),
                      (''to'', JStr (text_or (first_text message [''to'']) (header headers ''To''))),
                      (''cc'', JStr (header headers ''Cc'')),
                      (''rfc_message_id'', JStr (header headers ''Message-ID'')),
                      (''in_reply_to'', JStr (header headers ''In-Reply-To'')),
                      (''references'', JStr (header headers ''References'')),
                      (''headers'', JObj (map (\<lambda>(n, v). (n, JStr v))
                         (filter (\<lambda>(n, v). py_lower n \<in> set BULK_MAIL_HEADERS) headers)))]))))"

text \<open>The watermark: the newest stamp of the window that is not past the bound.\<close>

definition fold_stamp :: "int \<Rightarrow> event \<Rightarrow> int option \<Rightarrow> int option" where
  "fold_stamp bound e observed =
     (case ensure_aware_utc (ne_occurred_at e) of
        None \<Rightarrow> observed
      | Some t \<Rightarrow>
          (if bound < epoch_of t then observed
           else Some (case observed of None \<Rightarrow> epoch_of t | Some o' \<Rightarrow> max o' (epoch_of t))))"

fun gmail_fold ::
  "poll_env \<Rightarrow> int \<Rightarrow> jdict list \<Rightarrow> event list \<times> string list \<times> int option \<Rightarrow> py_error + event list \<times> int option" where
  "gmail_fold env bound [] (events, seen, observed) = Inr (events, observed)"
| "gmail_fold env bound (message # messages) (events, seen, observed) =
     try_then (gmail_event env message) (\<lambda>converted.
       case converted of
         None \<Rightarrow> gmail_fold env bound messages (events, seen, observed)
       | Some e \<Rightarrow>
           (let message_id = jstr (jget (payload_of e) ''message_id'')
            in if message_id \<in> set seen then gmail_fold env bound messages (events, seen, observed)
               else gmail_fold env bound messages
                      (events @ [e], message_id # seen, fold_stamp bound e observed)))"

definition gmail_spec :: "int option \<Rightarrow> walk_spec" where
  "gmail_spec watermark =
     \<lparr>wk_action = ''gmail.fetch_emails'',
      wk_payload =
        [(''query'', JStr (case watermark of
            None \<Rightarrow> INITIAL_QUERY
          | Some w \<Rightarrow> ''after:'' @ int_text (w - OVERLAP_SECONDS) @ '' is:inbox'')),
         (''detail'', JStr ''full''), (''maxResults'', JNum (of_nat GMAIL_PAGE_SIZE))],
      wk_items = ''messages'',
      wk_max_pages = (case watermark of None \<Rightarrow> MAX_BACKFILL_PAGES | Some _ \<Rightarrow> MAX_INCREMENTAL_PAGES),
      wk_token_key = ''pageToken'', wk_next_key = ''nextPageToken'', wk_stop = None\<rparr>"

text \<open>\<open>now\<close> is the clock when the cursor is read, \<open>later\<close> the clock after the walk.\<close>

definition gmail_poll ::
  "poll_env \<Rightarrow> tool_caller option \<Rightarrow> instant \<Rightarrow> instant \<Rightarrow> string option \<Rightarrow> py_error + poll_result" where
  "gmail_poll env caller now later cursor =
     try_then (walk_pages env caller (gmail_spec (sane_epoch_cursor now cursor))) (\<lambda>walk.
       case pw_error walk of
         Some c \<Rightarrow> Inr (poll_error cursor c)
       | None \<Rightarrow>
           try_then (gmail_fold env (epoch_cursor_ceiling later) (concat (pw_pages walk)) ([], [], None)) (\<lambda>(events, observed).
             Inr \<lparr>pr_events = events, pr_cursor = resolve_cursor walk cursor (map_option int_text observed),
                  pr_error = PollNone\<rparr>))"

section \<open>Calendar\<close>

definition CALENDAR_MAX_PAGES :: nat where "CALENDAR_MAX_PAGES = 5"
definition CALENDAR_PAGE_SIZE :: nat where "CALENDAR_PAGE_SIZE = 50"

definition rfc3339 :: "poll_env \<Rightarrow> instant \<Rightarrow> string" where
  "rfc3339 env t = py_replace ''+00:00'' ''Z'' (pe_isoformat env t)"

definition calendar_event_types :: "(string \<times> string) list" where
  "calendar_event_types =
     [(''confirmed'', ''event_created''), (''tentative'', ''event_created''), (''cancelled'', ''event_cancelled'')]"

text \<open>\<open>d.get("dateTime") or d.get("date", "")\<close> of an event's end point.\<close>

definition end_point :: "jdict \<Rightarrow> string \<Rightarrow> py_error + json" where
  "end_point item key =
     (let point = jget_default item key (JObj [])
      in try_then (get_of point ''dateTime'' JNull) (\<lambda>exact.
           if truthy exact then Inr exact else get_of point ''date'' (JStr [])))"

definition attendee_name :: "json \<Rightarrow> py_error + json" where
  "attendee_name a =
     try_then (get_of a ''displayName'' JNull) (\<lambda>name.
       if truthy name then Inr name else get_of a ''email'' (JStr []))"

text \<open>\<open>attendees[:5]\<close>, each taken as a value.\<close>

fun first_five :: "json \<Rightarrow> py_error + json list" where
  "first_five (JList xs) = Inr (take 5 xs)"
| "first_five (JStr s) = Inr (map (\<lambda>c. JStr [c]) (take 5 s))"
| "first_five (JObj d) = Inl (type_error (''unhashable type: '' @ quoted ''slice''))"
| "first_five v = Inl (type_error (quoted (type_name v) @ '' object is not subscriptable''))"

fun json_length :: "json \<Rightarrow> nat" where
  "json_length (JList xs) = length xs"
| "json_length (JStr s) = length s"
| "json_length (JObj d) = length d"
| "json_length _ = 0"

text \<open>\<open>', '.join(names)\<close>.\<close>

fun first_non_text :: "nat \<Rightarrow> json list \<Rightarrow> (nat \<times> json) option" where
  "first_non_text k [] = None"
| "first_non_text k (v # vs) = (if as_str v = None then Some (k, v) else first_non_text (Suc k) vs)"

definition join_names :: "json list \<Rightarrow> py_error + string" where
  "join_names names =
     (case first_non_text 0 names of
        None \<Rightarrow> Inr (join_with '', '' (map jstr names))
      | Some (k, v) \<Rightarrow> Inl (type_error (''sequence item '' @ nat_text k @ '': expected str instance, ''
          @ type_name v @ '' found'')))"

definition start_instant :: "poll_env \<Rightarrow> json \<Rightarrow> py_error + instant option" where
  "start_instant env start_time =
     (case start_time of
        JStr s \<Rightarrow> Inr (if s = [] then None
                       else Option.bind (pe_fromisoformat env (py_replace ''Z'' ''+00:00'' s)) ensure_aware_utc)
      | v \<Rightarrow> if truthy v then Inl (no_attribute v ''replace'') else Inr None)"

definition calendar_event :: "poll_env \<Rightarrow> jdict \<Rightarrow> py_error + event" where
  "calendar_event env item =
     (let status = jget_default item ''status'' (JStr ''confirmed'');
          organizer = jget_default item ''organizer'' (JObj []);
          attendees = jget_default item ''attendees'' (JList []);
          summary = jget_default item ''summary'' (JStr ''(no title)'')
      in try_then (end_point item ''start'') (\<lambda>start_time.
         try_then (end_point item ''end'') (\<lambda>end_time.
         try_then (first_five attendees) (\<lambda>some.
         try_then (try_map attendee_name some) (\<lambda>names.
         try_then (if names = [] then Inr [] else try_then (join_names names) (\<lambda>t. Inr ('' with '' @ t))) (\<lambda>listed.
         try_then (start_instant env start_time) (\<lambda>stamp.
         try_then (case status of
                    JList xs \<Rightarrow> Inl (type_error (''unhashable type: '' @ quoted ''list''))
                  | JObj d \<Rightarrow> Inl (type_error (''unhashable type: '' @ quoted ''dict''))
                  | v \<Rightarrow> Inr (opt_or (Option.bind (as_str v) (map_of calendar_event_types)) ''event_updated'')) (\<lambda>event_type.
         try_then (get_of organizer ''email'' (JStr [])) (\<lambda>email.
         try_then (get_of organizer ''displayName'' (JStr [])) (\<lambda>name.
         Inr (raw_event ''calendar'' event_type ''meeting'' (jstr (jget_default item ''id'' (JStr []))) stamp (as_str summary)
           (JStr (text_of env summary @ '' from '' @ text_of env start_time @ '' to '' @ text_of env end_time @ listed))
           [(''type'', JStr ''person''), (''email'', email), (''name'', name)]
           [(''calendar_event_id'', jget item ''id''), (''status'', status),
            (''attendee_count'', JNum (of_nat (json_length attendees)))])))))))))))"

text \<open>\<open>a > b\<close> on text: by code points.\<close>

fun later_text :: "string \<Rightarrow> string \<Rightarrow> bool" where
  "later_text [] b = False"
| "later_text (x # a) [] = True"
| "later_text (x # a) (y # b) = (code y < code x \<or> (x = y \<and> later_text a b))"

definition fold_updated :: "jdict \<Rightarrow> string option \<Rightarrow> string option" where
  "fold_updated item observed =
     (case jget item ''updated'' of
        JStr u \<Rightarrow>
          (if u = [] then observed
           else case observed of None \<Rightarrow> Some u | Some o' \<Rightarrow> if later_text u o' then Some u else observed)
      | _ \<Rightarrow> observed)"

definition calendar_spec :: "poll_env \<Rightarrow> instant \<Rightarrow> instant option \<Rightarrow> walk_spec" where
  "calendar_spec env poll_started watermark =
     \<lparr>wk_action = ''googlecalendar.list_events'',
      wk_payload =
        [(''calendarId'', JStr ''primary''), (''singleEvents'', JBool True),
         (''maxResults'', JNum (of_nat CALENDAR_PAGE_SIZE))]
        @ (case watermark of
             None \<Rightarrow> [(''timeMin'', JStr (rfc3339 env poll_started))]
           | Some w \<Rightarrow> [(''updatedMin'', JStr (rfc3339 env (w - secs OVERLAP_SECONDS)))]),
      wk_items = ''items'', wk_max_pages = CALENDAR_MAX_PAGES, wk_token_key = ''pageToken'',
      wk_next_key = ''nextPageToken'', wk_stop = None\<rparr>"

definition calendar_poll ::
  "poll_env \<Rightarrow> tool_caller option \<Rightarrow> instant \<Rightarrow> instant \<Rightarrow> string option \<Rightarrow> py_error + poll_result" where
  "calendar_poll env caller now poll_started cursor =
     (let watermark = sane_rfc3339_cursor env now cursor
      in try_then (walk_pages env caller (calendar_spec env poll_started watermark)) (\<lambda>walk.
           case pw_error walk of
             Some c \<Rightarrow> Inr (poll_error cursor c)
           | None \<Rightarrow>
               try_then (try_map (calendar_event env) (concat (pw_pages walk))) (\<lambda>events.
                 let observed = fold fold_updated (concat (pw_pages walk)) None;
                     seed = rfc3339 env (poll_started - secs OVERLAP_SECONDS)
                 in Inr \<lparr>pr_events = events,
                         pr_cursor = (if watermark = None \<and> \<not> pw_truncated walk then Some seed
                                      else resolve_cursor walk cursor observed),
                         pr_error = PollNone\<rparr>)))"

section \<open>Notion\<close>

definition NOTION_MAX_PAGES :: nat where "NOTION_MAX_PAGES = 10"
definition NOTION_PAGE_SIZE :: nat where "NOTION_PAGE_SIZE = 50"

definition parse_edited :: "poll_env \<Rightarrow> jdict \<Rightarrow> instant option" where
  "parse_edited env row =
     (case jget row ''last_edited_time'' of
        JStr s \<Rightarrow> (if s = [] then None
                   else Option.bind (pe_fromisoformat env (py_replace ''Z'' ''+00:00'' s)) ensure_aware_utc)
      | _ \<Rightarrow> None)"

definition known_row :: "poll_env \<Rightarrow> instant option \<Rightarrow> jdict \<Rightarrow> bool" where
  "known_row env watermark row =
     (case (watermark, parse_edited env row) of (Some w, Some t) \<Rightarrow> t \<le> w | _ \<Rightarrow> False)"

definition reached_watermark :: "poll_env \<Rightarrow> instant option \<Rightarrow> jdict list \<Rightarrow> bool" where
  "reached_watermark env watermark rows = list_ex (known_row env watermark) rows"

definition notion_spec :: "poll_env \<Rightarrow> instant option \<Rightarrow> walk_spec" where
  "notion_spec env watermark =
     \<lparr>wk_action = ''notion.search'',
      wk_payload =
        [(''query'', JStr []),
         (''sort'', JObj [(''direction'', JStr ''descending''), (''timestamp'', JStr ''last_edited_time'')]),
         (''filter'', JObj [(''property'', JStr ''object''), (''value'', JStr ''page'')]),
         (''pageSize'', JNum (of_nat NOTION_PAGE_SIZE))],
      wk_items = ''results'', wk_max_pages = NOTION_MAX_PAGES, wk_token_key = ''startCursor'',
      wk_next_key = ''next_cursor'', wk_stop = Some (reached_watermark env watermark)\<rparr>"

text \<open>\<open>title_parts[0].get("plain_text", "")\<close> under the page's title property.\<close>

definition page_title :: "jdict \<Rightarrow> py_error + json" where
  "page_title page =
     try_then (get_of (jget_default page ''properties'' (JObj [])) ''title'' (JObj [])) (\<lambda>prop.
     try_then (if truthy prop then get_of prop ''title'' (JList []) else Inr (JList [])) (\<lambda>parts.
       if \<not> truthy parts then Inr (JStr ''(untitled)'')
       else case parts of
           JList (p # _) \<Rightarrow> get_of p ''plain_text'' (JStr [])
         | JStr (c # _) \<Rightarrow> get_of (JStr [c]) ''plain_text'' (JStr [])
         | JObj _ \<Rightarrow> Inl (Raised ''KeyError'' ''0'')
         | v \<Rightarrow> Inl (type_error (quoted (type_name v) @ '' object is not subscriptable''))))"

definition notion_event :: "poll_env \<Rightarrow> jdict \<Rightarrow> py_error + event" where
  "notion_event env page =
     try_then (page_title page) (\<lambda>title.
       let edited = jget_default page ''last_edited_time'' (JStr []);
           created = jget_default page ''created_time'' (JStr []);
           editor = jget_default page ''last_edited_by'' (JObj [])
       in try_then (get_of editor ''type'' (JStr ''person'')) (\<lambda>kind.
          try_then (get_of editor ''name'' (JStr [])) (\<lambda>name.
          Inr (raw_event ''notion'' (if edited = created then ''page_created'' else ''page_updated'') ''page''
            (jstr (jget page ''id'')) (parse_edited env page) (as_str title)
            (JStr (''Notion page: '' @ text_of env title))
            [(''type'', kind), (''name'', name)]
            [(''page_id'', jget page ''id''), (''url'', jget page ''url''), (''last_edited_time'', edited)]))))"

text \<open>The rows that become events: stamped, named, and newer than the watermark.\<close>

definition new_row :: "poll_env \<Rightarrow> instant option \<Rightarrow> jdict \<Rightarrow> bool" where
  "new_row env watermark row \<longleftrightarrow>
     parse_edited env row \<noteq> None \<and> truthy (jget row ''id'') \<and> \<not> known_row env watermark row"

definition fold_edited :: "poll_env \<Rightarrow> jdict \<Rightarrow> (instant \<times> string) option \<Rightarrow> (instant \<times> string) option" where
  "fold_edited env row observed =
     (case parse_edited env row of
        None \<Rightarrow> observed
      | Some t \<Rightarrow>
          (case observed of
             None \<Rightarrow> Some (t, jstr (jget row ''last_edited_time''))
           | Some (t', _) \<Rightarrow> if t' < t then Some (t, jstr (jget row ''last_edited_time'')) else observed))"

definition notion_poll ::
  "poll_env \<Rightarrow> tool_caller option \<Rightarrow> instant \<Rightarrow> string option \<Rightarrow> py_error + poll_result" where
  "notion_poll env caller now cursor =
     (let watermark = sane_rfc3339_cursor env now cursor
      in try_then (walk_pages env caller (notion_spec env watermark)) (\<lambda>walk.
           case pw_error walk of
             Some c \<Rightarrow> Inr (poll_error cursor c)
           | None \<Rightarrow>
               (let rows = filter (new_row env watermark) (concat (pw_pages walk))
                in try_then (try_map (notion_event env) rows) (\<lambda>events.
                     Inr \<lparr>pr_events = events,
                          pr_cursor = resolve_cursor walk cursor (map_option snd (fold (fold_edited env) rows None)),
                          pr_error = PollNone\<rparr>))))"

end
