(* ===== verification/Native_Polls.thy ===== *)
theory Native_Polls
  imports Gateway_Polls
begin

text \<open>
  The two sources read with their own token: \<open>connectors/slack_connector.py\<close> and
  \<open>connectors/github_connector.py\<close>. The HTTP client is an argument: the response to the n-th request of a poll.
  Both polls run inside one \<open>try\<close>, so whatever they raise becomes a transient failure that leaves the cursor alone.
  Identifiers are text in both interfaces; one of another type is outside the model.
\<close>

section \<open>Requests and values\<close>

record http_response =
  hr_status :: int
  hr_headers :: "(string \<times> string) list"
  hr_json :: "py_error + json"

type_synonym http = "nat \<Rightarrow> string \<Rightarrow> jdict \<Rightarrow> py_error + http_response"

text \<open>Header names are looked up without regard to case; the client holds them in lower case.\<close>

definition response_header :: "http_response \<Rightarrow> string \<Rightarrow> string option" where
  "response_header r name = map_of (hr_headers r) (py_lower name)"

text \<open>\<open>a > b\<close>. Two lists or two objects are outside the model.\<close>

fun num_value :: "json \<Rightarrow> pyfloat option" where
  "num_value (JNum n) = Some n"
| "num_value (JBool b) = Some (if b then 1 else 0)"
| "num_value _ = None"

definition py_greater :: "json \<Rightarrow> json \<Rightarrow> py_error + bool" where
  "py_greater a b =
     (case (a, b) of
        (JStr s, JStr t) \<Rightarrow> Inr (later_text s t)
      | _ \<Rightarrow>
          (case (num_value a, num_value b) of
             (Some x, Some y) \<Rightarrow> Inr (y < x)
           | _ \<Rightarrow> Inl (type_error (quoted ''>'' @ '' not supported between instances of '' @ quoted (type_name a)
                     @ '' and '' @ quoted (type_name b)))))"

text \<open>\<open>for x in v\<close> and \<open>list.extend(v)\<close>.\<close>

fun iterate :: "json \<Rightarrow> py_error + json list" where
  "iterate (JList xs) = Inr xs"
| "iterate (JStr s) = Inr (map (\<lambda>c. JStr [c]) s)"
| "iterate (JObj d) = Inr (map (\<lambda>(k, v). JStr k) d)"
| "iterate v = Inl (type_error (quoted (type_name v) @ '' object is not iterable''))"

text \<open>\<open>v[:n]\<close>.\<close>

fun slice :: "nat \<Rightarrow> json \<Rightarrow> py_error + json" where
  "slice n (JStr s) = Inr (JStr (take n s))"
| "slice n (JList xs) = Inr (JList (take n xs))"
| "slice n (JObj d) = Inl (type_error (''unhashable type: '' @ quoted ''slice''))"
| "slice n v = Inl (type_error (quoted (type_name v) @ '' object is not subscriptable''))"

definition hashable :: "json \<Rightarrow> py_error + unit" where
  "hashable v =
     (case v of
        JList xs \<Rightarrow> Inl (type_error (''unhashable type: '' @ quoted ''list''))
      | JObj d \<Rightarrow> Inl (type_error (''unhashable type: '' @ quoted ''dict''))
      | _ \<Rightarrow> Inr ())"

text \<open>The newest of the values seen: \<open>if v and (best is None or v > best): best = v\<close>.\<close>

definition newest :: "json \<Rightarrow> json option \<Rightarrow> py_error + json option" where
  "newest v best =
     (if \<not> truthy v then Inr best
      else case best of
          None \<Rightarrow> Inr (Some v)
        | Some b \<Rightarrow> try_then (py_greater v b) (\<lambda>g. Inr (if g then Some v else best)))"

definition NATIVE_MAX_PAGES :: nat where "NATIVE_MAX_PAGES = 50"

section \<open>Slack\<close>

definition SLACK_ERROR_CLASS :: "(string \<times> poll_class) list" where
  "SLACK_ERROR_CLASS =
     [(''ratelimited'', PollRateLimited), (''account_inactive'', PollAuthFailed), (''token_revoked'', PollAuthFailed),
      (''invalid_auth'', PollAuthFailed), (''not_authed'', PollAuthFailed), (''internal_error'', PollTransient),
      (''fatal_error'', PollTransient), (''service_unavailable'', PollTransient)]"

definition slack_error_class :: "json \<Rightarrow> py_error + poll_class" where
  "slack_error_class e =
     try_then (hashable e) (\<lambda>_. Inr (opt_or (Option.bind (as_str e) (map_of SLACK_ERROR_CLASS)) PollTransient))"

definition slack_cursor_map :: "poll_env \<Rightarrow> string option \<Rightarrow> jdict" where
  "slack_cursor_map env cursor =
     (case cursor of
        None \<Rightarrow> []
      | Some s \<Rightarrow>
          if s = [] then []
          else case pe_loads env s of
              Some (JObj d) \<Rightarrow>
                map (\<lambda>(k, v). (k, JStr (text_of env v)))
                  (filter (\<lambda>(k, v). as_str v \<noteq> None \<or> num_value v \<noteq> None) d)
            | _ \<Rightarrow> [])"

text \<open>One page of a Slack answer: its error class, or its body with the next page's cursor.\<close>

definition slack_answer :: "py_error + http_response \<Rightarrow> py_error + (poll_class + json)" where
  "slack_answer reply =
     try_then reply (\<lambda>resp.
       if hr_status resp \<noteq> 200 then Inr (Inl (classify_http_status (hr_status resp)))
       else try_then (hr_json resp) (\<lambda>data.
            try_then (get_of data ''ok'' JNull) (\<lambda>fine.
            if \<not> truthy fine
            then try_then (get_of data ''error'' (JStr ''unknown'')) (\<lambda>e.
                 try_then (slack_error_class e) (\<lambda>c. Inr (Inl c)))
            else Inr (Inr data))))"

definition slack_next :: "json \<Rightarrow> py_error + json" where
  "slack_next data =
     try_then (get_of data ''response_metadata'' JNull) (\<lambda>meta.
       try_then (get_of (jor meta (JObj [])) ''next_cursor'' JNull) (\<lambda>c. Inr (jor c JNull)))"

text \<open>Every list call and every history call of a poll counts as one request. The first argument is the number of
  pages still allowed.\<close>

fun slack_channels ::
  "http \<Rightarrow> nat \<Rightarrow> nat \<Rightarrow> json \<Rightarrow> json list \<Rightarrow> py_error + ((poll_class + json list) \<times> nat)" where
  "slack_channels web 0 n next_cursor channels = Inr (Inr channels, n)"
| "slack_channels web (Suc k) n next_cursor channels =
     try_then (slack_answer (web n ''https://slack.com/api/conversations.list''
       ([(''types'', JStr ''public_channel,private_channel,im,mpim''), (''limit'', JNum 200)]
        @ (if truthy next_cursor then [(''cursor'', next_cursor)] else [])))) (\<lambda>answer.
       case answer of
         Inl c \<Rightarrow> Inr (Inl c, Suc n)
       | Inr data \<Rightarrow>
           try_then (try_then (get_of data ''channels'' (JList [])) iterate) (\<lambda>more_channels.
           try_then (slack_next data) (\<lambda>after.
             if truthy after then slack_channels web k (Suc n) after (channels @ more_channels)
             else Inr (Inr (channels @ more_channels), Suc n))))"

definition slack_stamp :: "poll_env \<Rightarrow> json \<Rightarrow> py_error + instant option" where
  "slack_stamp env ts =
     (if \<not> truthy ts then Inr None
      else case (case ts of JStr s \<Rightarrow> pe_parse_float env s | v \<Rightarrow> num_value v) of
          Some x \<Rightarrow>
            (let t = round_half_even (1000000 * x)
             in if 2 ^ 63 \<le> \<bar>x\<bar> then Inl (Raised ''OverflowError'' ''timestamp out of range for platform time_t'')
                else Inr (if NO_TIMESTAMP \<le> t \<and> t \<le> MAX_DATETIME then Some t else None))
        | None \<Rightarrow>
            (case ts of
               JStr s \<Rightarrow> Inr None
             | v \<Rightarrow> Inl (type_error (''float() argument must be a string or a real number, not '' @ quoted (type_name v)))))"

definition slack_event :: "poll_env \<Rightarrow> json \<Rightarrow> string \<Rightarrow> json \<Rightarrow> py_error + event option" where
  "slack_event env msg channel_id channel_name =
     try_then (get_of msg ''subtype'' (JStr [])) (\<lambda>subtype.
       if subtype \<in> {JStr ''channel_join'', JStr ''channel_leave'', JStr ''bot_message''} then Inr None
       else let text = jget_default (obj_items msg) ''text'' (JStr []);
                user = jget_default (obj_items msg) ''user'' (JStr []);
                ts = jget_default (obj_items msg) ''ts'' (JStr [])
            in try_then (slack_stamp env ts) (\<lambda>stamp.
               try_then (slice 100 text) (\<lambda>head.
               try_then (slice 500 text) (\<lambda>body.
               Inr (Some (raw_event ''slack'' ''message_posted'' ''message_thread''
                 (jstr (jget_default (obj_items msg) ''thread_ts'' ts)) stamp
                 (Some (''#'' @ text_of env channel_name @ '': '' @ text_of env head)) body
                 [(''type'', JStr ''person''), (''name'', user), (''slack_id'', user)]
                 [(''channel_id'', JStr channel_id), (''channel_name'', channel_name), (''ts'', ts)]))))))"

fun slack_messages ::
  "poll_env \<Rightarrow> string \<Rightarrow> json \<Rightarrow> json list \<Rightarrow> event list \<Rightarrow> json option \<Rightarrow> py_error + event list \<times> json option" where
  "slack_messages env channel_id channel_name [] events max_ts = Inr (events, max_ts)"
| "slack_messages env channel_id channel_name (msg # msgs) events max_ts =
     try_then (get_of msg ''ts'' (JStr [])) (\<lambda>ts.
     try_then (newest ts max_ts) (\<lambda>max_ts'.
     try_then (slack_event env msg channel_id channel_name) (\<lambda>e.
       slack_messages env channel_id channel_name msgs (events @ (case e of None \<Rightarrow> [] | Some x \<Rightarrow> [x])) max_ts')))"

text \<open>The outcome of one channel: its events, the watermark it earned, its error, and the requests made so far.\<close>

type_synonym channel_outcome = "event list \<times> json option \<times> poll_class option \<times> nat"

fun slack_history ::
  "poll_env \<Rightarrow> http \<Rightarrow> nat \<Rightarrow> nat \<Rightarrow> string \<Rightarrow> json \<Rightarrow> json \<Rightarrow> json \<Rightarrow> event list \<Rightarrow> json option \<Rightarrow> py_error + channel_outcome" where
  "slack_history env web 0 n channel_id channel_name oldest next_cursor events max_ts = Inr (events, None, None, n)"
| "slack_history env web (Suc k) n channel_id channel_name oldest next_cursor events max_ts =
     try_then (slack_answer (web n ''https://slack.com/api/conversations.history''
       ([(''channel'', JStr channel_id), (''limit'', JNum 200)]
        @ (if truthy next_cursor then [(''cursor'', next_cursor)]
           else if truthy oldest then [(''oldest'', oldest)] else [])))) (\<lambda>answer.
       case answer of
         Inl c \<Rightarrow> Inr (events, None, Some c, Suc n)
       | Inr data \<Rightarrow>
           try_then (try_then (get_of data ''messages'' (JList [])) iterate) (\<lambda>msgs.
           try_then (slack_messages env channel_id channel_name msgs events max_ts) (\<lambda>(events', max_ts').
           try_then (slack_next data) (\<lambda>after.
             if truthy after
             then slack_history env web k (Suc n) channel_id channel_name oldest after events' max_ts'
             else Inr (events', max_ts', None, Suc n)))))"

text \<open>The channels one after the other; the first error of one ends the poll with nothing.\<close>

definition channel_ref :: "json \<Rightarrow> py_error + string \<times> json" where
  "channel_ref channel =
     (case channel of
        JObj d \<Rightarrow>
          (case map_of d ''id'' of
             None \<Rightarrow> Inl (Raised ''KeyError'' (quoted ''id''))
           | Some c \<Rightarrow> Inr (jstr c, jget_default d ''name'' c))
      | JStr s \<Rightarrow> Inl (type_error (''string indices must be integers, not '' @ quoted ''str''))
      | JList xs \<Rightarrow> Inl (type_error ''list indices must be integers or slices, not str'')
      | v \<Rightarrow> Inl (type_error (quoted (type_name v) @ '' object is not subscriptable'')))"

fun slack_drain ::
  "poll_env \<Rightarrow> http \<Rightarrow> string option \<Rightarrow> jdict \<Rightarrow> nat \<Rightarrow> json list \<Rightarrow> event list \<Rightarrow> jdict \<Rightarrow> py_error + poll_result" where
  "slack_drain env web cursor incoming n [] events new_map =
     Inr \<lparr>pr_events = events, pr_cursor = (if new_map = [] then cursor else Some (pe_dumps env new_map)),
          pr_error = PollNone\<rparr>"
| "slack_drain env web cursor incoming n (channel # channels) events new_map =
     try_then (channel_ref channel) (\<lambda>(channel_id, channel_name).
     try_then (slack_history env web NATIVE_MAX_PAGES n channel_id channel_name (jget incoming channel_id) JNull [] None)
       (\<lambda>(drained, max_ts, error, n').
         case error of
           Some c \<Rightarrow> Inr (poll_error cursor c)
         | None \<Rightarrow>
             try_then (case max_ts of
                        None \<Rightarrow> Inr new_map
                      | Some m \<Rightarrow>
                          (case map_of new_map channel_id of
                             None \<Rightarrow> Inr (AList.update channel_id m new_map)
                           | Some prior \<Rightarrow>
                               try_then (py_greater m prior) (\<lambda>g. Inr (if g then AList.update channel_id m new_map else new_map))))
               (\<lambda>new_map'. slack_drain env web cursor incoming n' channels (events @ drained) new_map')))"

definition slack_poll :: "poll_env \<Rightarrow> http \<Rightarrow> string option \<Rightarrow> string \<Rightarrow> poll_result" where
  "slack_poll env web cursor access_token =
     (if access_token = [] then poll_error cursor PollAuthFailed
      else let incoming = slack_cursor_map env cursor
           in case try_then (slack_channels web NATIVE_MAX_PAGES 0 JNull []) (\<lambda>(answer, n).
                     case answer of
                       Inl c \<Rightarrow> Inr (poll_error cursor c)
                     | Inr channels \<Rightarrow> slack_drain env web cursor incoming n channels [] incoming) of
                Inl e \<Rightarrow> poll_error cursor PollTransient
              | Inr r \<Rightarrow> r)"

section \<open>GitHub\<close>

definition LINK_SEGMENT :: pattern where
  "LINK_SEGMENT =
     seqs [lits ''<'', Grp 1 (Many 1 (Sat (\<lambda>c. c \<noteq> CHR ''>''))), lits ''>'', Many 0 (Sat is_white), lits '';'',
           Many 0 (Sat is_white), lits ''rel='', Sat (\<lambda>c. c = CHR 0x22), Grp 2 (Many 1 (Sat (\<lambda>c. c \<noteq> CHR 0x22))),
           Sat (\<lambda>c. c = CHR 0x22)]"

definition next_page_url :: "string option \<Rightarrow> string option" where
  "next_page_url link_header =
     (case filter (\<lambda>cs. group cs 2 = Some ''next'') (finditer LINK_SEGMENT (opt_or link_header [])) of
        [] \<Rightarrow> None
      | cs # _ \<Rightarrow> group cs 1)"

text \<open>\<open>str.isdigit\<close>, which accepts the superscript digits.\<close>

definition is_digit_text :: "string \<Rightarrow> bool" where
  "is_digit_text s \<longleftrightarrow> s \<noteq> [] \<and> list_all (\<lambda>c. is_digit_char c \<or> code c \<in> {178, 179, 185}) s"

definition entity_id_from_subject_url :: "json \<Rightarrow> string \<Rightarrow> string" where
  "entity_id_from_subject_url url fallback =
     (case url of
        JStr s \<Rightarrow>
          (let path = takeWhile (\<lambda>c. c \<noteq> CHR ''#'') (takeWhile (\<lambda>c. c \<noteq> CHR ''?'') s);
               parts = filter (\<lambda>p. p \<noteq> []) (split_on (\<lambda>c. c = CHR ''/'') path)
           in case dropWhile (\<lambda>p. p \<noteq> ''repos'') parts of
                [_, owner, repo, kind, number] \<Rightarrow>
                  if is_digit_text number then owner @ ''/'' @ repo @ ''#'' @ number else fallback
              | _ \<Rightarrow> fallback)
      | _ \<Rightarrow> fallback)"

definition github_occurred_at :: "poll_env \<Rightarrow> json \<Rightarrow> py_error + instant option" where
  "github_occurred_at env value =
     (case value of
        JStr s \<Rightarrow>
          (if blank s then Inr None
           else case Option.bind (pe_fromisoformat env (py_replace ''Z'' ''+00:00'' (py_strip s))) ensure_aware_utc of
               None \<Rightarrow> Inr None
             | Some t \<Rightarrow> try_then (to_utc t) (\<lambda>u. Inr (Some u)))
      | _ \<Rightarrow> Inr None)"

definition GITHUB_TYPES :: "(string \<times> string) list" where
  "GITHUB_TYPES =
     [(''PullRequest'', ''pr_updated''), (''Issue'', ''issue_updated''), (''Release'', ''release_published''),
      (''Discussion'', ''discussion_updated''), (''Commit'', ''commit_commented'')]"

definition github_event :: "poll_env \<Rightarrow> json \<Rightarrow> py_error + event" where
  "github_event env notif =
     try_then (get_of notif ''subject'' (JObj [])) (\<lambda>subject.
     try_then (get_of subject ''type'' (JStr [])) (\<lambda>notif_type.
     try_then (get_of subject ''title'' (JStr [])) (\<lambda>title.
     try_then (try_then (get_of notif ''repository'' (JObj [])) (\<lambda>r. get_of r ''full_name'' (JStr []))) (\<lambda>repo.
     try_then (hashable notif_type) (\<lambda>_.
     try_then (if \<not> truthy notif_type then Inr ''notification''
              else case notif_type of JStr s \<Rightarrow> Inr (py_lower s) | v \<Rightarrow> Inl (no_attribute v ''lower'')) (\<lambda>entity_type.
     try_then (github_occurred_at env (jget (obj_items notif) ''updated_at'')) (\<lambda>stamp.
       let reason = jget_default (obj_items notif) ''reason'' (JStr []);
           notification_id = jget_default (obj_items notif) ''id'' (JStr []);
           url = jget (obj_items subject) ''url''
       in Inr (raw_event ''github'' (opt_or (Option.bind (as_str notif_type) (map_of GITHUB_TYPES)) ''github_notification'')
            entity_type (entity_id_from_subject_url url (jstr notification_id)) stamp (as_str title)
            (JStr (text_of env reason @ '': '' @ text_of env title @ '' in '' @ text_of env repo))
            [(''type'', JStr ''repository''), (''name'', repo)]
            [(''notification_id'', notification_id), (''reason'', reason), (''repo'', repo), (''url'', url)]))))))))"

fun github_page ::
  "poll_env \<Rightarrow> json list \<Rightarrow> event list \<Rightarrow> json option \<Rightarrow> py_error + event list \<times> json option" where
  "github_page env [] events newest_at = Inr (events, newest_at)"
| "github_page env (notif # notifs) events newest_at =
     try_then (github_event env notif) (\<lambda>e.
     try_then (newest (jget (obj_items notif) ''updated_at'') newest_at) (\<lambda>newest_at'.
       github_page env notifs (events @ [e]) newest_at'))"

definition github_status_class :: "http_response \<Rightarrow> poll_class" where
  "github_status_class resp =
     (if hr_status resp = 403 \<and> (response_header resp ''X-RateLimit-Remaining'' = Some ''0''
           \<or> opt_or (response_header resp ''Retry-After'') [] \<noteq> [])
      then PollRateLimited
      else classify_http_status (hr_status resp))"

fun github_walk ::
  "poll_env \<Rightarrow> http \<Rightarrow> string option \<Rightarrow> nat \<Rightarrow> nat \<Rightarrow> string \<Rightarrow> jdict \<Rightarrow> event list \<Rightarrow> json option \<Rightarrow> py_error + poll_result" where
  "github_walk env web cursor 0 n url params events newest_at =
     Inr \<lparr>pr_events = events, pr_cursor = (case newest_at of None \<Rightarrow> cursor | Some v \<Rightarrow> Some (text_of env v)), pr_error = PollNone\<rparr>"
| "github_walk env web cursor (Suc k) n url params events newest_at =
     try_then (web n url params) (\<lambda>resp.
       if hr_status resp \<noteq> 200 then Inr (poll_error cursor (github_status_class resp))
       else try_then (try_then (hr_json resp) iterate) (\<lambda>notifs.
            try_then (github_page env notifs events newest_at) (\<lambda>(events', newest_at').
              case next_page_url (response_header resp ''Link'') of
                Some url' \<Rightarrow> github_walk env web cursor k (Suc n) url' [] events' newest_at'
              | None \<Rightarrow> github_walk env web cursor 0 (Suc n) url [] events' newest_at')))"

definition github_poll :: "poll_env \<Rightarrow> http \<Rightarrow> string option \<Rightarrow> string \<Rightarrow> poll_result" where
  "github_poll env web cursor access_token =
     (if access_token = [] then poll_error cursor PollAuthFailed
      else case github_walk env web cursor NATIVE_MAX_PAGES 0 ''https://api.github.com/notifications''
                  ([(''all'', JStr ''false''), (''participating'', JStr ''true'')]
                   @ (case cursor of None \<Rightarrow> [] | Some c \<Rightarrow> if c = [] then [] else [(''since'', JStr c)])) [] None of
             Inl e \<Rightarrow> poll_error cursor PollTransient
           | Inr r \<Rightarrow> r)"

end
