(* ===== verification/Poller.thy ===== *)
theory Poller
  imports Native_Polls
begin

text \<open>
  Polling a source and keeping what it returned: \<open>orchestrator/connector_poller.py\<close>, the cursor table
  (\<open>models/observation_cursor.py\<close>) and the first half of a perception cycle
  (\<open>orchestrator/perception_runner.py::run_perception_cycle\<close>, up to the summary the later agents read). The stored
  events and the cursors are the state; the tokens, the transport and the clock are arguments.
\<close>

section \<open>Sources\<close>

text \<open>\<open>CONNECTOR_REGISTRY\<close> with each connector's \<open>cursor_type\<close>.\<close>

definition CONNECTOR_REGISTRY :: "(string \<times> string) list" where
  "CONNECTOR_REGISTRY =
     [(''gmail'', ''timestamp''), (''calendar'', ''timestamp''), (''notion'', ''timestamp''),
      (''slack'', ''per_channel_ts''), (''github'', ''since_timestamp'')]"

definition GATEWAY_CONNECTORS :: "string list" where
  "GATEWAY_CONNECTORS = [''gmail'', ''calendar'', ''notion'']"

definition gateway_provider_for_source :: "string \<Rightarrow> string option" where
  "gateway_provider_for_source source =
     map_of [(''gmail'', ''gmail''), (''calendar'', ''googlecalendar''), (''notion'', ''notion'')] source"

definition PROVIDER_SOURCES :: "(string \<times> string list) list" where
  "PROVIDER_SOURCES = [(''github'', [''github''])]"

definition provider_for_source :: "string \<Rightarrow> string" where
  "provider_for_source source =
     (case filter (\<lambda>(p, ss). source \<in> set ss) PROVIDER_SOURCES of [] \<Rightarrow> source | (p, _) # _ \<Rightarrow> p)"

section \<open>State\<close>

record observation_cursor =
  oc_cursor_id :: string
  oc_user_id :: string
  oc_workspace_id :: string
  oc_source :: string
  oc_cursor_type :: string
  oc_cursor_value :: string
  oc_last_observation_at :: instant

definition oc_key :: "observation_cursor \<Rightarrow> string \<times> string \<times> string" where
  "oc_key c = (oc_workspace_id c, oc_user_id c, oc_source c)"

record perception_db =
  pd_events :: "event list"
  pd_cursors :: "observation_cursor list"

record poller_env =
  pl_poll :: poll_env
  pl_caller :: "tool_caller option"
  pl_web :: "string \<Rightarrow> http"
  pl_token :: "string \<Rightarrow> string \<Rightarrow> string option \<times> string"
  pl_read_at :: instant
  pl_walked_at :: instant
  pl_times_out :: bool
  pl_ingest :: ingest_env
  pl_rules :: "filter_rule list"
  pl_triage_down :: bool
  pl_new_cursor_id :: string

section \<open>Polling\<close>

definition stored_cursor :: "perception_db \<Rightarrow> string \<Rightarrow> string \<Rightarrow> string \<Rightarrow> string option" where
  "stored_cursor db source user_id workspace_id =
     map_option oc_cursor_value (row_find oc_key (workspace_id, user_id, source) (pd_cursors db))"

definition run_connector :: "poller_env \<Rightarrow> string \<Rightarrow> string option \<Rightarrow> string \<Rightarrow> py_error + poll_result" where
  "run_connector env source cursor access_token =
     (if source = ''gmail'' then gmail_poll (pl_poll env) (pl_caller env) (pl_read_at env) (pl_walked_at env) cursor
      else if source = ''calendar'' then calendar_poll (pl_poll env) (pl_caller env) (pl_read_at env) (pl_read_at env) cursor
      else if source = ''notion'' then notion_poll (pl_poll env) (pl_caller env) (pl_read_at env) cursor
      else if source = ''slack'' then Inr (slack_poll (pl_poll env) (pl_web env access_token) cursor access_token)
      else Inr (github_poll (pl_poll env) (pl_web env access_token) cursor access_token))"

text \<open>The text of a failed poll; \<open>PollNone\<close> never gets here.\<close>

definition policy_text :: "poll_class \<Rightarrow> string" where
  "policy_text c = (case error_class_to_policy_error c of Inr m \<Rightarrow> m | Inl e \<Rightarrow> error_text e)"

definition failed_poll_text :: "string \<Rightarrow> poll_class \<Rightarrow> string" where
  "failed_poll_text source c = ''Poll failed for '' @ source @ '': '' @ policy_text c"

definition exception_class :: "py_error \<Rightarrow> poll_class" where
  "exception_class e = (case mcp_code_to_poll_class (JStr (mcp_classify_error e)) of Inr c \<Rightarrow> c | Inl _ \<Rightarrow> PollTransient)"

definition exception_text :: "string \<Rightarrow> py_error \<Rightarrow> string" where
  "exception_text source e =
     ''Poll failed for '' @ source @ '' ('' @ mcp_classify_error e @ '': '' @ policy_text (exception_class e) @ ''): '' @ error_text e"

fun is_timeout :: "py_error \<Rightarrow> bool" where
  "is_timeout (Raised ty text) = (ty = ''TimeoutError'')"
| "is_timeout (AuthRequired p r) = False"

type_synonym polled = "event list \<times> string option \<times> string option \<times> string"

definition finish_poll :: "poller_env \<Rightarrow> string \<Rightarrow> string option \<Rightarrow> string \<Rightarrow> string \<Rightarrow> polled" where
  "finish_poll env source cursor access_token cursor_type =
     (if pl_times_out env then ([], cursor, Some ''Poll timed out after 30s'', cursor_type)
      else case run_connector env source cursor access_token of
          Inr r \<Rightarrow> if poll_failed r then ([], pr_cursor r, Some (failed_poll_text source (pr_error r)), cursor_type)
                   else (pr_events r, pr_cursor r, None, cursor_type)
        | Inl e \<Rightarrow> if is_timeout e then ([], cursor, Some ''Poll timed out after 30s'', cursor_type)
                   else ([], None, Some (exception_text source e), cursor_type))"

definition poll :: "poller_env \<Rightarrow> perception_db \<Rightarrow> string \<Rightarrow> string \<Rightarrow> string \<Rightarrow> polled" where
  "poll env db source user_id workspace_id =
     (case map_of CONNECTOR_REGISTRY source of
        None \<Rightarrow> ([], None, Some (''No connector registered for source: '' @ source @ '' ('' @ policy_text PollPermanent @ '')''),
                 ''opaque'')
      | Some cursor_type \<Rightarrow>
          let cursor = stored_cursor db source user_id workspace_id
          in if gateway_provider_for_source source \<noteq> None then
               (if source \<notin> set GATEWAY_CONNECTORS
                then ([], None, Some (''Poll skipped for '' @ source @ '': '' @ policy_text PollTransient), cursor_type)
                else finish_poll env source cursor [] cursor_type)
             else (case pl_token env user_id (provider_for_source source) of
                     (None, reason) \<Rightarrow>
                       ([], None,
                        Some (''No valid credentials for '' @ source @ '' (provider '' @ provider_for_source source @ '') ''
                          @ em_dash @ '' ''
                          @ (if reason = ''refresh_failed'' then CREDENTIAL_ACQUISITION_ERROR else policy_text PollAuthFailed)),
                        cursor_type)
                   | (Some token, _) \<Rightarrow> finish_poll env source cursor token cursor_type))"

section \<open>The cursor row\<close>

text \<open>\<open>INSERT ... ON CONFLICT DO UPDATE\<close> on the unique constraint of workspace, user and source.\<close>

definition cursor_upsert ::
  "poller_env \<Rightarrow> string \<Rightarrow> string \<Rightarrow> string \<Rightarrow> string \<Rightarrow> string \<Rightarrow> perception_db \<Rightarrow> perception_db" where
  "cursor_upsert env source user_id workspace_id new_cursor cursor_type db =
     (let key = (workspace_id, user_id, source)
      in db\<lparr>pd_cursors :=
          (if row_find oc_key key (pd_cursors db) = None
           then pd_cursors db @
             [\<lparr>oc_cursor_id = ''cur_'' @ pl_new_cursor_id env, oc_user_id = user_id, oc_workspace_id = workspace_id,
               oc_source = source, oc_cursor_type = cursor_type, oc_cursor_value = new_cursor,
               oc_last_observation_at = pl_walked_at env\<rparr>]
           else row_update oc_key key (\<lambda>c. c\<lparr>oc_cursor_value := new_cursor, oc_cursor_type := cursor_type,
               oc_last_observation_at := pl_walked_at env\<rparr>) (pd_cursors db))\<rparr>)"

definition advance ::
  "poller_env \<Rightarrow> string \<Rightarrow> string \<Rightarrow> string \<Rightarrow> string option \<Rightarrow> string \<Rightarrow> perception_db \<Rightarrow> perception_db" where
  "advance env source user_id workspace_id new_cursor cursor_type db =
     (if opt_or new_cursor [] \<noteq> [] \<and> source \<noteq> []
      then cursor_upsert env source user_id workspace_id (opt_or new_cursor []) cursor_type db
      else db)"

definition update_cursor ::
  "poller_env \<Rightarrow> string \<Rightarrow> string \<Rightarrow> string \<Rightarrow> string option \<Rightarrow> string \<Rightarrow> perception_db \<Rightarrow> perception_db" where
  "update_cursor env source user_id workspace_id new_cursor cursor_type db =
     (case new_cursor of
        None \<Rightarrow> db
      | Some c \<Rightarrow> if c = [] then db else cursor_upsert env source user_id workspace_id c cursor_type db)"

section \<open>Ingestion\<close>

definition observation_line :: "event \<Rightarrow> string" where
  "observation_line raw = ''['' @ ne_source raw @ ''] '' @ ne_event_type raw @ '': '' @ opt_or (ne_title raw) []"

text \<open>What the chunks stored stays when a later one raises; the cursor moves only after all of them.\<close>

definition ingest_raw_events ::
  "poller_env \<Rightarrow> event list \<Rightarrow> string \<Rightarrow> string \<Rightarrow> string \<Rightarrow> string option \<Rightarrow> string \<Rightarrow> perception_db
   \<Rightarrow> (py_exn + string list) \<times> perception_db" where
  "ingest_raw_events env raw_events user_id workspace_id source new_cursor cursor_type db =
     (case process_batch (pl_ingest env) (pl_rules env) (pl_triage_down env) workspace_id user_id raw_events (pd_events db) of
        (Inl x, store) \<Rightarrow> (Inl x, db\<lparr>pd_events := store\<rparr>)
      | (Inr event_ids, store) \<Rightarrow>
          (Inr (map (\<lambda>(raw, i). observation_line raw) (filter (\<lambda>(raw, i). i \<noteq> None) (zip raw_events event_ids))),
           advance env source user_id workspace_id new_cursor cursor_type (db\<lparr>pd_events := store\<rparr>)))"

section \<open>The first half of a cycle\<close>

datatype cycle_result =
    SkippedMcpOnly
  | SkippedBudget
  | PollError string
  | NoNewEvents
  | NoNewObservations nat
  | Observed string "event list"
  | CycleRaised py_exn

definition observer_summary :: "string \<Rightarrow> string list \<Rightarrow> string" where
  "observer_summary source summaries =
     ''Polled '' @ source @ '': '' @ nat_text (length summaries) @ '' new event(s).'' @ [CHR 0x0A]
     @ join_with [CHR 0x0A] (map (\<lambda>s. ''- '' @ s) (take 20 summaries))"

definition perceive ::
  "poller_env \<Rightarrow> bool \<Rightarrow> string \<Rightarrow> string \<Rightarrow> string \<Rightarrow> perception_db \<Rightarrow> cycle_result \<times> perception_db" where
  "perceive env budget_allows source user_id workspace_id db =
     (if source \<notin> fst ` set CONNECTOR_REGISTRY then (SkippedMcpOnly, db)
      else if \<not> budget_allows then (SkippedBudget, db)
      else case poll env db source user_id workspace_id of
          (raw_events, new_cursor, error, cursor_type) \<Rightarrow>
            (case error of
               Some text \<Rightarrow> (PollError text, db)
             | None \<Rightarrow>
                 if raw_events = []
                 then (NoNewEvents, update_cursor env source user_id workspace_id new_cursor cursor_type db)
                 else (case ingest_raw_events env raw_events user_id workspace_id source new_cursor cursor_type db of
                     (Inl x, db') \<Rightarrow> (CycleRaised x, db')
                   | (Inr summaries, db') \<Rightarrow>
                       (if summaries = [] then NoNewObservations (length raw_events)
                        else Observed (observer_summary source summaries) raw_events, db'))))"

end
