(* ===== verification/Poll_Laws.thy ===== *)
theory Poll_Laws
  imports Poller
begin

text \<open>
  What polling guarantees: a failed poll keeps its cursor and returns nothing; a cursor that moves has been earned by a
  window read to its end; and between the poll and the stored cursor stand the events, all of them stored unless two of
  them share a key.
\<close>

section \<open>A failed poll keeps its cursor\<close>

definition faithful_failure :: "string option \<Rightarrow> poll_result \<Rightarrow> bool" where
  "faithful_failure cursor r \<longleftrightarrow> (poll_failed r \<longrightarrow> pr_events r = [] \<and> pr_cursor r = cursor)"

lemma faithful_simps [simp]:
  "faithful_failure cursor (poll_error cursor c)"
  "pr_error r = PollNone \<Longrightarrow> faithful_failure cursor r"
  by (simp_all add: faithful_failure_def poll_error_def poll_failed_def)

lemma gmail_faithful: "gmail_poll env caller now later cursor = Inr r \<Longrightarrow> faithful_failure cursor r"
  by (auto simp: gmail_poll_def try_then_Inr split: option.splits prod.splits)

lemma calendar_faithful: "calendar_poll env caller now begun cursor = Inr r \<Longrightarrow> faithful_failure cursor r"
  by (auto simp: calendar_poll_def try_then_Inr Let_def split: option.splits)

lemma notion_faithful: "notion_poll env caller now cursor = Inr r \<Longrightarrow> faithful_failure cursor r"
  by (auto simp: notion_poll_def try_then_Inr Let_def split: option.splits)

lemma slack_drain_faithful:
  "slack_drain env web cursor incoming n channels events new_map = Inr r \<Longrightarrow> faithful_failure cursor r"
proof (induction channels arbitrary: n events new_map)
  case (Cons channel channels)
  then show ?case by (auto simp: try_then_def split: sum.splits option.splits prod.splits if_splits)
qed auto

lemma slack_faithful: "faithful_failure cursor (slack_poll env web cursor token)"
  by (auto simp: slack_poll_def Let_def try_then_def split: sum.splits prod.splits dest: slack_drain_faithful)

lemma github_walk_faithful:
  "github_walk env web cursor k n url params events newest_at = Inr r \<Longrightarrow> faithful_failure cursor r"
proof (induction k arbitrary: n url params events newest_at)
  case (Suc k)
  then show ?case by (auto simp: try_then_Inr split: option.splits prod.splits if_splits)
qed auto

lemma github_faithful: "faithful_failure cursor (github_poll env web cursor token)"
  using github_walk_faithful by (auto simp: github_poll_def split: sum.splits)

lemma connector_faithful: "run_connector env source cursor token = Inr r \<Longrightarrow> faithful_failure cursor r"
  using gmail_faithful calendar_faithful notion_faithful slack_faithful github_faithful
  by (auto simp: run_connector_def split: if_splits)

section \<open>A moved cursor stands for a whole window\<close>

definition window_spec :: "poller_env \<Rightarrow> string \<Rightarrow> string option \<Rightarrow> walk_spec" where
  "window_spec env source cursor =
     (if source = ''gmail'' then gmail_spec (sane_epoch_cursor (pl_read_at env) cursor)
      else if source = ''calendar''
      then calendar_spec (pl_poll env) (pl_read_at env) (sane_rfc3339_cursor (pl_poll env) (pl_read_at env) cursor)
      else notion_spec (pl_poll env) (sane_rfc3339_cursor (pl_poll env) (pl_read_at env) cursor))"

definition window_events :: "poller_env \<Rightarrow> string \<Rightarrow> string option \<Rightarrow> jdict list \<Rightarrow> py_error + event list" where
  "window_events env source cursor rows =
     (if source = ''gmail''
      then try_then (gmail_fold (pl_poll env) (epoch_cursor_ceiling (pl_walked_at env)) rows ([], [], None)) (\<lambda>p. Inr (fst p))
      else if source = ''calendar'' then try_map (calendar_event (pl_poll env)) rows
      else try_map (notion_event (pl_poll env))
             (filter (new_row (pl_poll env) (sane_rfc3339_cursor (pl_poll env) (pl_read_at env) cursor)) rows))"

text \<open>What the three polls share: a moved cursor means a walk that was neither failed nor cut.\<close>

definition from_window ::
  "poller_env \<Rightarrow> string \<Rightarrow> string option \<Rightarrow> poll_result \<Rightarrow> jdict list list \<Rightarrow> bool" where
  "from_window env source cursor r pages \<longleftrightarrow>
     drained (pl_poll env) (pl_caller env) (window_spec env source cursor) 0 JNull pages \<and>
     length pages \<le> wk_max_pages (window_spec env source cursor) \<and>
     window_events env source cursor (concat pages) = Inr (pr_events r)"

lemma whole_or_held:
  assumes "walk_pages env caller w = Inr walk" "pw_error walk = None" "\<not> pw_truncated walk"
  shows "drained env caller w 0 JNull (pw_pages walk) \<and> length (pw_pages walk) \<le> wk_max_pages w"
  using assms(1) by (rule walk_pages_cases) (use assms(2,3) in \<open>auto dest: arg_cong[of _ _ pw_error] arg_cong[of _ _ pw_truncated]\<close>)

lemma gmail_from_window:
  assumes "gmail_poll (pl_poll env) (pl_caller env) (pl_read_at env) (pl_walked_at env) cursor = Inr r" "pr_cursor r \<noteq> cursor"
  shows "\<exists>pages. from_window env ''gmail'' cursor r pages"
proof -
  let ?w = "window_spec env ''gmail'' cursor"
  obtain walk where w: "walk_pages (pl_poll env) (pl_caller env) ?w = Inr walk"
    using assms(1) by (auto simp: gmail_poll_def window_spec_def try_then_Inr)
  have e: "pw_error walk = None" using assms w
    by (auto simp: gmail_poll_def window_spec_def poll_error_def split: option.splits)
  obtain events observed where
    f: "gmail_fold (pl_poll env) (epoch_cursor_ceiling (pl_walked_at env)) (concat (pw_pages walk)) ([], [], None) = Inr (events, observed)"
    and r: "pr_events r = events" "pr_cursor r = resolve_cursor walk cursor (map_option int_text observed)"
    using assms(1) w e by (auto simp: gmail_poll_def window_spec_def try_then_Inr)
  have "\<not> pw_truncated walk" using r(2) assms(2) by (auto simp: resolve_cursor_def)
  then have "from_window env ''gmail'' cursor r (pw_pages walk)"
    using whole_or_held[OF w e] f r(1) by (simp add: from_window_def window_events_def)
  then show ?thesis ..
qed

lemma calendar_from_window:
  assumes "calendar_poll (pl_poll env) (pl_caller env) (pl_read_at env) (pl_read_at env) cursor = Inr r" "pr_cursor r \<noteq> cursor"
  shows "\<exists>pages. from_window env ''calendar'' cursor r pages"
proof -
  let ?w = "window_spec env ''calendar'' cursor"
  obtain walk where w: "walk_pages (pl_poll env) (pl_caller env) ?w = Inr walk"
    using assms(1) by (auto simp: calendar_poll_def window_spec_def try_then_Inr Let_def)
  have e: "pw_error walk = None" using assms w
    by (auto simp: calendar_poll_def window_spec_def poll_error_def Let_def split: option.splits)
  have f: "try_map (calendar_event (pl_poll env)) (concat (pw_pages walk)) = Inr (pr_events r)"
    and t: "pw_truncated walk \<longrightarrow> pr_cursor r = cursor"
    using assms(1) w e by (auto simp: calendar_poll_def window_spec_def try_then_Inr Let_def resolve_cursor_def)
  have "\<not> pw_truncated walk" using t assms(2) by auto
  then have "from_window env ''calendar'' cursor r (pw_pages walk)"
    using whole_or_held[OF w e] f by (simp add: from_window_def window_events_def)
  then show ?thesis ..
qed

lemma notion_from_window:
  assumes "notion_poll (pl_poll env) (pl_caller env) (pl_read_at env) cursor = Inr r" "pr_cursor r \<noteq> cursor"
  shows "\<exists>pages. from_window env ''notion'' cursor r pages"
proof -
  let ?w = "window_spec env ''notion'' cursor"
  obtain walk where w: "walk_pages (pl_poll env) (pl_caller env) ?w = Inr walk"
    using assms(1) by (auto simp: notion_poll_def window_spec_def try_then_Inr Let_def)
  have e: "pw_error walk = None" using assms w
    by (auto simp: notion_poll_def window_spec_def poll_error_def Let_def split: option.splits)
  have f: "window_events env ''notion'' cursor (concat (pw_pages walk)) = Inr (pr_events r)"
    and t: "pw_truncated walk \<longrightarrow> pr_cursor r = cursor"
    using assms(1) w e
    by (auto simp: notion_poll_def window_spec_def window_events_def try_then_Inr Let_def resolve_cursor_def)
  have "\<not> pw_truncated walk" using t assms(2) by auto
  then have "from_window env ''notion'' cursor r (pw_pages walk)"
    using whole_or_held[OF w e] f by (simp add: from_window_def)
  then show ?thesis ..
qed

lemma gateway_from_window:
  assumes "source \<in> set GATEWAY_CONNECTORS" "run_connector env source cursor token = Inr r" "pr_cursor r \<noteq> cursor"
  shows "\<exists>pages. from_window env source cursor r pages"
  using assms gmail_from_window calendar_from_window notion_from_window
  by (auto simp: run_connector_def GATEWAY_CONNECTORS_def)

section \<open>What a batch stores\<close>

lemma stored_keys_append [simp]: "stored_keys ws (a @ b) = stored_keys ws a @ stored_keys ws b"
  by (simp add: stored_keys_def)

lemma chunk_rows_unique_keys:
  assumes "length ids = length fresh" "length results = length fresh"
  shows "map ne_unique_key (chunk_rows env ws uid ids fresh results) = map (\<lambda>p. (ws, snd p)) fresh"
  using assms chunk_rows_nth[OF assms]
  by (intro nth_equalityI) (simp_all add: ne_unique_key_def)

lemma stored_keys_unique: "k \<in> set (stored_keys ws store) \<longleftrightarrow> (ws, k) \<in> ne_unique_key ` set store"
  by (auto simp: stored_keys_def ne_unique_key_def image_iff)

lemma fresh_distinct:
  assumes "distinct (map (make_idempotency_key env) chunk)"
  shows "distinct (map snd (fresh_of env ws store chunk))"
proof -
  have "map snd (fresh_of env ws store chunk) = filter (\<lambda>k. k \<notin> set (stored_keys ws store)) (map (make_idempotency_key env) chunk)"
    by (simp add: fresh_of_def filter_map comp_def case_prod_unfold)
  then show ?thesis using assms by (simp add: distinct_filter)
qed

lemma process_chunk_stores:
  assumes "process_chunk env rules down ws uid [] chunk store = (Inr ids, store')"
    and "distinct (map (make_idempotency_key env) chunk)" "distinct (map ne_unique_key store)"
  shows "make_idempotency_key env ` set chunk \<subseteq> set (stored_keys ws store')"
    and "set (stored_keys ws store) \<subseteq> set (stored_keys ws store')" and "distinct (map ne_unique_key store')"
proof -
  let ?fresh = "fresh_of env ws store chunk"
  have known: "make_idempotency_key env ` set chunk \<subseteq> set (stored_keys ws store) \<union> snd ` set ?fresh"
  proof (rule image_subsetI)
    fix r
    assume "r \<in> set chunk"
    then have "make_idempotency_key env r \<notin> set (stored_keys ws store) \<Longrightarrow>
      (r, make_idempotency_key env r) \<in> set ?fresh" by (simp add: fresh_of_mem)
    then show "make_idempotency_key env r \<in> set (stored_keys ws store) \<union> snd ` set ?fresh" by (metis UnI1 UnI2 image_eqI snd_conv)
  qed
  have "make_idempotency_key env ` set chunk \<subseteq> set (stored_keys ws store') \<and>
    set (stored_keys ws store) \<subseteq> set (stored_keys ws store') \<and> distinct (map ne_unique_key store')"
  proof (cases "?fresh = []")
    case True
    then have "store' = store" using assms(1) by (simp add: process_chunk_def)
    then show ?thesis using known True assms(3) by simp
  next
    case False
    then obtain results where t: "triage_batch (ie_triage env) (Some rules) down ws (map fst ?fresh) = Inr results"
      using assms(1) by (auto simp: process_chunk_def Let_def split: sum.splits)
    have lr: "length results = length ?fresh" using triage_batch_verdicts[OF t] by simp
    let ?ids = "map (\<lambda>i. ''evt_'' @ ie_new_id env (length store + i)) [0..<length ?fresh]"
    let ?rows = "chunk_rows env ws uid ?ids ?fresh results"
    have keys: "map ne_unique_key ?rows = map (\<lambda>p. (ws, snd p)) ?fresh"
      using lr by (intro chunk_rows_unique_keys) simp_all
    have rows: "set (stored_keys ws ?rows) = snd ` set ?fresh"
    proof (intro set_eqI)
      fix k
      have "ne_unique_key ` set ?rows = (\<lambda>p. (ws, snd p)) ` set ?fresh" using keys by (metis set_map)
      then show "k \<in> set (stored_keys ws ?rows) \<longleftrightarrow> k \<in> snd ` set ?fresh"
        unfolding stored_keys_unique by auto
    qed
    have "distinct (map (\<lambda>p. (ws, snd p)) ?fresh)"
      using fresh_distinct[OF assms(2), of ws store] by (simp add: distinct_map inj_on_def)
    moreover have "ne_unique_key ` set store \<inter> (\<lambda>p. (ws, snd p)) ` set ?fresh = {}"
      unfolding disjoint_iff using stored_keys_unique[of _ ws store] by (auto simp: fresh_of_mem)
    ultimately have d: "distinct (map ne_unique_key (store @ ?rows))"
      using assms(3) unfolding map_append keys distinct_append set_map by blast
    then have "store' = store @ ?rows" using assms(1) False t by (simp add: process_chunk_def Let_def del: map_append)
    then show ?thesis using known rows d by simp
  qed
  then show "make_idempotency_key env ` set chunk \<subseteq> set (stored_keys ws store')"
    "set (stored_keys ws store) \<subseteq> set (stored_keys ws store')" "distinct (map ne_unique_key store')" by simp_all
qed

lemma process_chunks_store:
  assumes "process_chunks env rules down ws uid chunks store = (Inr ids, store')"
    and "\<forall>c\<in>set chunks. distinct (map (make_idempotency_key env) c)" "distinct (map ne_unique_key store)"
  shows "(\<forall>c\<in>set chunks. make_idempotency_key env ` set c \<subseteq> set (stored_keys ws store')) \<and>
    set (stored_keys ws store) \<subseteq> set (stored_keys ws store')"
  using assms
proof (induction chunks arbitrary: store ids)
  case (Cons chunk chunks)
  obtain ids1 store1 ids2 where p: "process_chunk env rules down ws uid [] chunk store = (Inr ids1, store1)"
    "process_chunks env rules down ws uid chunks store1 = (Inr ids2, store')"
    using Cons.prems(1) by (auto split: prod.splits sum.splits)
  have d: "distinct (map (make_idempotency_key env) chunk)" using Cons.prems(2) by simp
  note s = process_chunk_stores[OF p(1) d Cons.prems(3)]
  show ?case using Cons.IH[OF p(2) _ s(3)] Cons.prems(2) s(1,2) by auto
qed simp

lemma chunk_distinct: "distinct xs \<Longrightarrow> c \<in> set (chunks_of n xs) \<Longrightarrow> distinct c"
proof (induction n xs rule: chunks_of.induct)
  case (1 n xs)
  show ?case
  proof (cases "xs = [] \<or> n = 0")
    case False
    then have "c = take n xs \<or> c \<in> set (chunks_of n (drop n xs))"
      using 1(3) by (simp add: chunks_of.simps[of n xs])
    then show ?thesis using 1(1)[OF False] 1(2) by auto
  qed (use 1(3) in \<open>auto simp: chunks_of.simps\<close>)
qed

lemma chunks_of_map: "map (map f) (chunks_of n xs) = chunks_of n (map f xs)"
proof (induction n xs rule: chunks_of.induct)
  case (1 n xs)
  then show ?case
    by (simp add: chunks_of.simps[of n xs] chunks_of.simps[of n "map f xs"] take_map drop_map)
qed

lemma process_batch_stores:
  assumes "process_batch env rules down ws uid events store = (Inr ids, store')"
    and "distinct (map (make_idempotency_key env) events)" "distinct (map ne_unique_key store)"
  shows "\<forall>e\<in>set events. make_idempotency_key env e \<in> set (stored_keys ws store')"
proof -
  have "\<forall>c\<in>set (chunks_of BATCH_SIZE events). distinct (map (make_idempotency_key env) c)"
    using chunk_distinct[OF assms(2)] chunks_of_map[of "make_idempotency_key env" BATCH_SIZE events]
    by (metis image_eqI set_map)
  then have "\<forall>c\<in>set (chunks_of BATCH_SIZE events). make_idempotency_key env ` set c \<subseteq> set (stored_keys ws store')"
    using process_chunks_store[OF _ _ assms(3)] assms(1) by (simp add: process_batch_def)
  moreover have "set events = (\<Union>c\<in>set (chunks_of BATCH_SIZE events). set c)"
    using chunks_of_concat[of BATCH_SIZE events] by (simp add: BATCH_SIZE_def flip: set_concat)
  ultimately show ?thesis by blast
qed

end
