(* ===== verification/Poll_Properties.thy ===== *)
theory Poll_Properties
  imports Poll_Laws
begin

text \<open>
  The properties of polling, each applied to a concrete poll in \<open>Poll_Samples\<close>.
\<close>

section \<open>The cursor row\<close>

lemma oc_key_update [simp]:
  "oc_key (c\<lparr>oc_cursor_value := v, oc_cursor_type := t, oc_last_observation_at := w\<rparr>) = oc_key c"
  by (simp add: oc_key_def)

lemma stored_cursor_upsert:
  "stored_cursor (cursor_upsert env source u ws c ct db) source u ws = Some c"
proof (cases "row_find oc_key (ws, u, source) (pd_cursors db)")
  case None
  then show ?thesis by (simp add: stored_cursor_def cursor_upsert_def row_find_append oc_key_def)
next
  case (Some r)
  then show ?thesis by (simp add: stored_cursor_def cursor_upsert_def row_find_update)
qed

lemma pd_events_upsert [simp]: "pd_events (cursor_upsert env source u ws c ct db) = pd_events db"
  by (simp add: cursor_upsert_def Let_def)

lemma pd_events_advance [simp]: "pd_events (advance env source u ws c ct db) = pd_events db"
  by (simp add: advance_def)

lemma stored_cursor_events [simp]: "stored_cursor (db\<lparr>pd_events := es\<rparr>) source u ws = stored_cursor db source u ws"
  by (simp add: stored_cursor_def)

lemma stored_cursor_advance:
  "stored_cursor (advance env source u ws c ct db) source u ws =
     (if opt_or c [] \<noteq> [] \<and> source \<noteq> [] then c else stored_cursor db source u ws)"
  using stored_cursor_upsert[of env source u ws "opt_or c []" ct db] by (cases c) (auto simp: advance_def)

lemma update_cursor_advances: "source \<noteq> [] \<Longrightarrow> update_cursor env source u ws c ct db = advance env source u ws c ct db"
  by (auto simp: update_cursor_def advance_def split: option.splits)

section \<open>What a poll without error returned\<close>

lemma finish_poll_ok:
  assumes "finish_poll env source cursor token ct = (events, c, None, ct')"
  obtains r where "run_connector env source cursor token = Inr r" "\<not> poll_failed r" "events = pr_events r" "c = pr_cursor r"
  using assms that by (auto simp: finish_poll_def split: if_splits sum.splits)

lemma poll_ok_connector:
  assumes "poll env db source u ws = (events, c, None, ct)"
  shows "\<exists>token r. run_connector env source (stored_cursor db source u ws) token = Inr r \<and> \<not> poll_failed r \<and>
    events = pr_events r \<and> c = pr_cursor r \<and> source \<in> fst ` set CONNECTOR_REGISTRY"
proof -
  obtain ct' where reg: "map_of CONNECTOR_REGISTRY source = Some ct'"
    using assms by (auto simp: poll_def split: option.splits)
  then obtain token where "finish_poll env source (stored_cursor db source u ws) token ct' = (events, c, None, ct)"
    using assms by (auto simp: poll_def Let_def split: if_splits prod.splits option.splits)
  then obtain r where "run_connector env source (stored_cursor db source u ws) token = Inr r" "\<not> poll_failed r"
    "events = pr_events r" "c = pr_cursor r" by (rule finish_poll_ok)
  moreover have "source \<in> fst ` set CONNECTOR_REGISTRY" using map_of_SomeD[OF reg] by force
  ultimately show ?thesis by blast
qed

lemma perceive_cases:
  assumes "perceive env budget source u ws db = (res, db')"
  obtains (kept) "db' = db" "\<And>events c ct. budget \<Longrightarrow> poll env db source u ws = (events, c, None, ct) \<Longrightarrow> False"
  | (empty) c ct where "poll env db source u ws = ([], c, None, ct)" "db' = advance env source u ws c ct db"
      "res = NoNewEvents"
  | (broke) events c ct x store where "poll env db source u ws = (events, c, None, ct)" "events \<noteq> []"
      "process_batch (pl_ingest env) (pl_rules env) (pl_triage_down env) ws u events (pd_events db) = (Inl x, store)"
      "res = CycleRaised x" "db' = db\<lparr>pd_events := store\<rparr>"
  | (stored) events c ct ids store where "poll env db source u ws = (events, c, None, ct)" "events \<noteq> []"
      "process_batch (pl_ingest env) (pl_rules env) (pl_triage_down env) ws u events (pd_events db) = (Inr ids, store)"
      "db' = advance env source u ws c ct (db\<lparr>pd_events := store\<rparr>)"
      "res = NoNewObservations (length events) \<or> (\<exists>t. res = Observed t events)"
      "(\<forall>i\<in>set ids. i = None) \<longrightarrow> res = NoNewObservations (length events)"
proof (cases "source \<in> fst ` set CONNECTOR_REGISTRY \<and> budget")
  case False
  have "db' = db" using assms False by (auto simp: perceive_def split: if_splits)
  then show ?thesis using False poll_ok_connector kept by blast
next
  case True
  then have s: "source \<noteq> []" by (auto simp: CONNECTOR_REGISTRY_def)
  obtain events c err ct where p: "poll env db source u ws = (events, c, err, ct)" by (metis prod_cases4)
  show ?thesis
  proof (cases err)
    case (Some t)
    then show ?thesis using assms True p kept by (simp add: perceive_def)
  next
    case None
    show ?thesis
    proof (cases "events = []")
      case True
      then show ?thesis using assms \<open>source \<in> _ \<and> budget\<close> p None empty s by (simp add: perceive_def update_cursor_advances)
    next
      case False
      obtain res1 store where b: "process_batch (pl_ingest env) (pl_rules env) (pl_triage_down env) ws u events (pd_events db) = (res1, store)"
        by fastforce
      show ?thesis
      proof (cases res1)
        case (Inl x)
        then show ?thesis using assms True p None False b broke by (simp add: perceive_def ingest_raw_events_def)
      next
        case (Inr ids)
        let ?new = "filter (\<lambda>(raw, i). i \<noteq> None) (zip events ids)"
        have "perceive env budget source u ws db = (if ?new = [] then NoNewObservations (length events)
            else Observed (observer_summary source (map (\<lambda>(raw, i). observation_line raw) ?new)) events,
            advance env source u ws c ct (db\<lparr>pd_events := store\<rparr>))"
          using True p None False b Inr by (simp add: perceive_def ingest_raw_events_def)
        from this[unfolded assms(1)] have r: "res = (if ?new = [] then NoNewObservations (length events)
            else Observed (observer_summary source (map (\<lambda>(raw, i). observation_line raw) ?new)) events)"
          "db' = advance env source u ws c ct (db\<lparr>pd_events := store\<rparr>)" by (simp_all only: prod.inject)
        have z: "?new = []" if "\<forall>i\<in>set ids. i = None"
          using that by (auto simp: filter_empty_conv dest: set_zip_rightD)
        have k: "(\<forall>i\<in>set ids. i = None) \<longrightarrow> res = NoNewObservations (length events)" unfolding r using z by presburger
        have o': "res = NoNewObservations (length events) \<or> (\<exists>t. res = Observed t events)"
          unfolding r(1) by (cases "?new = []") (simp_all only: if_True if_False refl simp_thms, blast)
        show ?thesis by (rule stored[OF _ False _ r(2) o' k]) (use p None b Inr in simp_all)
      qed
    qed
  qed
qed


section \<open>Replies in one thread\<close>

definition from_slack :: "event \<Rightarrow> bool" where
  "from_slack e \<longleftrightarrow> ne_source e = ''slack'' \<and> ne_event_type e = ''message_posted'' \<and> jget (payload_of e) ''message_id'' = JNull"

lemma slack_event_is: "slack_event env msg channel_id channel_name = Inr (Some e) \<Longrightarrow> from_slack e"
  by (auto simp: from_slack_def slack_event_def Let_def try_then_Inr raw_event_def payload_of_def split: if_splits)

lemma slack_messages_are:
  "slack_messages env channel_id channel_name msgs events best = Inr (events', best') \<Longrightarrow> \<forall>e\<in>set events. from_slack e \<Longrightarrow>
     \<forall>e\<in>set events'. from_slack e"
proof (induction msgs arbitrary: events best)
  case (Cons msg msgs)
  obtain ts b e where e: "slack_event env msg channel_id channel_name = Inr e"
    and r: "slack_messages env channel_id channel_name msgs (events @ (case e of None \<Rightarrow> [] | Some x \<Rightarrow> [x])) b = Inr (events', best')"
    using Cons.prems(1) by (auto simp: try_then_Inr)
  have "\<forall>x\<in>set (events @ (case e of None \<Rightarrow> [] | Some x \<Rightarrow> [x])). from_slack x"
    using Cons.prems(2) slack_event_is e by (cases e) auto
  then show ?case using Cons.IH[OF r] by blast
qed auto

lemma slack_history_is:
  "slack_history env web k n channel_id channel_name oldest next_cursor events best = Inr (events', best', err, n') \<Longrightarrow>
     \<forall>e\<in>set events. from_slack e \<Longrightarrow> \<forall>e\<in>set events'. from_slack e"
proof (induction k arbitrary: n next_cursor events best)
  case (Suc k)
  let ?request = "web n ''https://slack.com/api/conversations.history''
    ([(''channel'', JStr channel_id), (''limit'', JNum 200)]
     @ (if truthy next_cursor then [(''cursor'', next_cursor)]
        else if truthy oldest then [(''oldest'', oldest)] else []))"
  obtain answer where a: "slack_answer ?request = Inr answer" using Suc.prems(1) by (auto simp: try_then_Inr)
  show ?case
  proof (cases answer)
    case (Inl c)
    then show ?thesis using Suc.prems a by simp
  next
    case (Inr data)
    then obtain msgs es b t where m: "slack_messages env channel_id channel_name msgs events best = Inr (es, b)"
      and r: "(if truthy t then slack_history env web k (Suc n) channel_id channel_name oldest t es b
               else Inr (es, b, None, Suc n)) = Inr (events', best', err, n')"
      using Suc.prems(1) a by (auto simp: try_then_Inr simp del: slack_history.simps(1))
    show ?thesis using slack_messages_are[OF m Suc.prems(2)] Suc.IH r by (cases "truthy t") auto
  qed
qed auto

lemma slack_drain_is:
  "slack_drain env web cursor incoming n channels events new_map = Inr r \<Longrightarrow> \<forall>e\<in>set events. from_slack e \<Longrightarrow>
     \<forall>e\<in>set (pr_events r). from_slack e"
proof (induction channels arbitrary: n events new_map)
  case (Cons channel channels)
  obtain cid name where c: "channel_ref channel = Inr (cid, name)"
    using Cons.prems(1) by (auto simp: try_then_Inr)
  obtain drained best err n' where h: "slack_history env web NATIVE_MAX_PAGES n cid name (jget incoming cid) JNull [] None =
      Inr (drained, best, err, n')" using Cons.prems(1) c by (auto simp: try_then_Inr)
  show ?case
  proof (cases err)
    case (Some k)
    then have "r = poll_error cursor k" using Cons.prems(1) c h by simp
    then show ?thesis by (simp add: poll_error_def)
  next
    case None
    from this obtain m where "slack_drain env web cursor incoming n' channels (events @ drained) m = Inr r"
      using Cons.prems(1) c h by (auto simp: try_then_Inr)
    moreover have "\<forall>e\<in>set (events @ drained). from_slack e" using Cons.prems(2) slack_history_is[OF h] by auto
    ultimately show ?thesis by (rule Cons.IH)
  qed
qed auto

lemma slack_poll_is: "e \<in> set (pr_events (slack_poll env web cursor token)) \<Longrightarrow> from_slack e"
  by (auto simp: slack_poll_def poll_error_def Let_def try_then_def split: if_splits sum.splits prod.splits dest: slack_drain_is)

lemma single_chunk: "events \<noteq> [] \<Longrightarrow> length events \<le> n \<Longrightarrow> chunks_of n events = [events]"
  by (subst chunks_of.simps) (cases "n = 0"; auto simp: chunks_of.simps[of n "[]"])

lemma sunk_chunk_ids:
  assumes "process_chunk env rules down ws uid [] chunk store = (Inr ids, store)"
  shows "\<forall>i\<in>set ids. i = None"
proof (cases "fresh_of env ws store chunk = []")
  case False
  then obtain results where t: "triage_batch (ie_triage env) (Some rules) down ws (map fst (fresh_of env ws store chunk)) = Inr results"
    using assms by (auto simp: process_chunk_def Let_def split: sum.splits)
  have "length results = length (fresh_of env ws store chunk)" using triage_batch_verdicts[OF t] by simp
  then have "chunk_rows env ws uid (map (\<lambda>i. ''evt_'' @ ie_new_id env (length store + i)) [0..<length (fresh_of env ws store chunk)])
      (fresh_of env ws store chunk) results \<noteq> []"
    using False by (subst length_0_conv[symmetric]) (simp add: chunk_rows_nth)
  then show ?thesis using assms t False by (auto simp: process_chunk_def Let_def simp del: map_append split: if_splits)
qed (use assms in \<open>auto simp: process_chunk_def\<close>)

text \<open>C14. Two replies in one Slack thread lose their poll: when both are new and the poll fits one batch, the cycle
  stores none of the events and still writes the new cursor, so the poll that follows starts after them.\<close>

theorem sunk_poll_is_passed_over:
  assumes "perceive env budget ''slack'' u ws db = (res, db')" "\<forall>x. res \<noteq> CycleRaised x" "budget"
    and "poll env db ''slack'' u ws = (events, Some c, None, ct)" "c \<noteq> []" "length events \<le> BATCH_SIZE"
    and "a \<in> set events" "b \<in> set events" "a \<noteq> b" "ne_entity_id a = ne_entity_id b"
    and "make_idempotency_key (pl_ingest env) a \<notin> set (stored_keys ws (pd_events db))"
  shows "pd_events db' = pd_events db \<and> res = NoNewObservations (length events) \<and> stored_cursor db' ''slack'' u ws = Some c"
proof -
  have slack: "from_slack a" "from_slack b"
    using poll_ok_connector[OF assms(4)] assms(7,8) slack_poll_is by (auto simp: run_connector_def)
  have ne: "events \<noteq> []" using assms(7) by auto
  have "\<exists>ids store. process_batch (pl_ingest env) (pl_rules env) (pl_triage_down env) ws u events (pd_events db) = (Inr ids, store) \<and>
    db' = advance env ''slack'' u ws (Some c) ct (db\<lparr>pd_events := store\<rparr>) \<and>
    ((\<forall>i\<in>set ids. i = None) \<longrightarrow> res = NoNewObservations (length events))"
    using assms(1)
  proof (cases rule: perceive_cases)
    case kept
    then show ?thesis using assms(3,4) by blast
  qed (use assms(2,4) ne in simp_all)
  then obtain ids store where s: "process_batch (pl_ingest env) (pl_rules env) (pl_triage_down env) ws u events (pd_events db) = (Inr ids, store)"
    "db' = advance env ''slack'' u ws (Some c) ct (db\<lparr>pd_events := store\<rparr>)"
    "(\<forall>i\<in>set ids. i = None) \<longrightarrow> res = NoNewObservations (length events)" by blast
  have one: "process_chunk (pl_ingest env) (pl_rules env) (pl_triage_down env) ws u [] events (pd_events db) = (Inr ids, store)"
    using s(1) single_chunk[OF ne assms(6)] by (auto simp: process_batch_def split: prod.splits sum.splits)
  have kept: "store = pd_events db"
    using thread_replies_sink_their_chunk[OF assms(9) _ _ assms(10) _ _ _ assms(7,8,11), of "pl_rules env" "pl_triage_down env" u "[]"]
      slack one by (simp add: from_slack_def)
  then show ?thesis using s sunk_chunk_ids[OF one[unfolded kept]] assms(5) by (simp add: stored_cursor_advance)
qed

section \<open>The mail cursor\<close>

lemma to_utc_range: "to_utc t = Inr u \<Longrightarrow> NO_TIMESTAMP \<le> u \<and> u \<le> MAX_DATETIME"
  by (simp add: to_utc_def split: if_splits)

lemma from_epoch_range: "from_epoch v b = Inr (Some t) \<Longrightarrow> NO_TIMESTAMP \<le> t \<and> t \<le> MAX_DATETIME"
  by (auto simp: from_epoch_def Let_def split: option.splits if_splits)

lemma from_text_range: "from_text_timestamp env v = Inr (Some t) \<Longrightarrow> NO_TIMESTAMP \<le> t \<and> t \<le> MAX_DATETIME"
  by (auto simp: from_text_timestamp_def Let_def try_then_Inr dest!: to_utc_range split: json.splits option.splits if_splits)

lemma gmail_stamp_range: "gmail_occurred_at env message = Inr (Some t) \<Longrightarrow> NO_TIMESTAMP \<le> t \<and> t \<le> MAX_DATETIME"
  by (auto simp: gmail_occurred_at_def try_then_Inr dest: from_epoch_range from_text_range split: option.splits)

lemma epoch_range: "NO_TIMESTAMP \<le> t \<Longrightarrow> t \<le> MAX_DATETIME \<Longrightarrow> \<bar>epoch_of t\<bar> < 10 ^ 12"
proof -
  assume "NO_TIMESTAMP \<le> t" "t \<le> MAX_DATETIME"
  then have "epoch_of NO_TIMESTAMP \<le> epoch_of t" "epoch_of t \<le> epoch_of MAX_DATETIME" by (simp_all add: epoch_of_mono)
  moreover have "epoch_of NO_TIMESTAMP = -62135596800" "epoch_of MAX_DATETIME = 253402300799"
    by (simp_all add: epoch_of_def NO_TIMESTAMP_def MAX_DATETIME_def secs_def)
  ultimately show ?thesis by simp
qed

lemma gmail_event_stamp:
  assumes "gmail_event env message = Inr (Some e)" "ensure_aware_utc (ne_occurred_at e) = Some t"
  shows "NO_TIMESTAMP \<le> t \<and> t \<le> MAX_DATETIME"
proof -
  obtain stamp where "gmail_occurred_at env message = Inr stamp"
    "ne_occurred_at e = (case stamp of None \<Rightarrow> NotADatetime | Some t \<Rightarrow> Aware t)"
    using assms(1) by (auto simp: gmail_event_def Let_def try_then_Inr raw_event_def split: if_splits)
  then show ?thesis using assms(2) gmail_stamp_range by (cases stamp) auto
qed

definition believable :: "int \<Rightarrow> int option \<Rightarrow> bool" where
  "believable bound observed \<longleftrightarrow> (\<forall>n. observed = Some n \<longrightarrow> n \<le> bound \<and> \<bar>n\<bar> < 10 ^ 12)"

lemma fold_stamp_believable:
  assumes "gmail_event env message = Inr (Some e)" "believable bound observed"
  shows "believable bound (fold_stamp bound e observed)"
proof (cases "ensure_aware_utc (ne_occurred_at e)")
  case (Some t)
  have "\<bar>epoch_of t\<bar> < 10 ^ 12" using gmail_event_stamp[OF assms(1) Some] epoch_range by blast
  then show ?thesis using Some assms(2)
    by (cases observed) (auto simp: fold_stamp_def believable_def max_def)
qed (use assms(2) in \<open>simp add: fold_stamp_def\<close>)

lemma gmail_fold_believable:
  "gmail_fold env bound messages (events, seen, observed) = Inr (events', observed') \<Longrightarrow> believable bound observed \<Longrightarrow>
     believable bound observed'"
proof (induction messages arbitrary: events seen observed)
  case (Cons message messages)
  obtain converted where c: "gmail_event env message = Inr converted" using Cons.prems(1) by (auto simp: try_then_Inr)
  show ?case
  proof (cases converted)
    case None
    then show ?thesis using Cons c by simp
  next
    case (Some e)
    then show ?thesis using Cons c fold_stamp_believable[of env message e bound observed]
      by (auto simp: Let_def split: if_splits)
  qed
qed simp

text \<open>C16. The mail cursor never pins itself: whatever stamps the senders wrote, a cursor that a poll sets is a number of
  seconds within the bound of that moment, so every later poll reads it back as it was written, until it is too old.\<close>

theorem mail_cursor_reads_back:
  assumes "gmail_poll env caller now later cursor = Inr r" "pr_cursor r \<noteq> cursor" "later \<le> next_now"
  shows "\<exists>n. pr_cursor r = Some (int_text n) \<and> n \<le> epoch_cursor_ceiling later \<and>
    (epoch_cursor_floor next_now \<le> n \<longrightarrow> sane_epoch_cursor next_now (pr_cursor r) = Some n)"
proof -
  obtain walk events observed where
    f: "gmail_fold env (epoch_cursor_ceiling later) (concat (pw_pages walk)) ([], [], None) = Inr (events, observed)"
    and c: "pr_cursor r = resolve_cursor walk cursor (map_option int_text observed)"
    using assms(1,2) by (auto simp: gmail_poll_def try_then_Inr poll_error_def split: option.splits)
  obtain n where n: "observed = Some n" "pr_cursor r = Some (int_text n)"
    using c assms(2) by (auto simp: resolve_cursor_def split: if_splits)
  then have "n \<le> epoch_cursor_ceiling later" "\<bar>n\<bar> < 10 ^ 12"
    using gmail_fold_believable[OF f] by (simp_all add: believable_def)
  then show ?thesis using n(2) epoch_cursor_reads_back assms(3) by metis
qed

section \<open>A stamp at the edge of the calendar\<close>

lemma edge_stamp_raises:
  assumes "first_text message [''messageId'', ''id''] \<noteq> []" "int_of_value (jget message ''internalDate'') = None"
    and "jget message ''messageTimestamp'' = JStr s" "py_int s = None" "\<not> blank s"
    and "pe_fromisoformat env (py_replace ''Z'' ''+00:00'' (py_strip s)) = Some (Aware t)"
    and "t < NO_TIMESTAMP \<or> MAX_DATETIME < t"
  shows "gmail_event env message = Inl (Raised ''OverflowError'' ''date value out of range'')"
proof -
  have "from_text_timestamp env (JStr s) = Inl (Raised ''OverflowError'' ''date value out of range'')"
    using assms(5-7) by (auto simp: from_text_timestamp_def to_utc_def Let_def)
  then have "gmail_occurred_at env message = Inl (Raised ''OverflowError'' ''date value out of range'')"
    using assms(2-4) by (simp add: gmail_occurred_at_def from_epoch_def)
  then show ?thesis using assms(1) by (simp add: gmail_event_def Let_def)
qed

lemma gmail_fold_raises:
  "message \<in> set messages \<Longrightarrow> gmail_event env message = Inl e \<Longrightarrow> \<exists>e'. gmail_fold env bound messages st = Inl e'"
proof (induction messages arbitrary: st)
  case (Cons m messages)
  obtain events seen observed where st: "st = (events, seen, observed)" by (metis prod_cases3)
  show ?case
  proof (cases "gmail_event env m")
    case (Inr converted)
    then have "message \<in> set messages" using Cons.prems by auto
    then show ?thesis using Cons.IH Cons.prems(2) Inr st by (cases converted) (auto simp: Let_def)
  qed (simp add: st)
qed simp

text \<open>C13. One message can stop a mailbox: a message whose only stamp is a time that leaves the calendar in UTC, such as
  the first of January of the year 1 east of Greenwich, fails the whole poll; nothing is stored, the cursor stays, and
  the same holds for every poll whose window has that message.\<close>

theorem edge_stamp_stops_the_mailbox:
  assumes "perceive env budget ''gmail'' u ws db = (res, db')" "budget" "\<not> pl_times_out env"
    and "walk_pages (pl_poll env) (pl_caller env) (window_spec env ''gmail'' (stored_cursor db ''gmail'' u ws)) = Inr walk"
    and "pw_error walk = None" "message \<in> set (concat (pw_pages walk))"
    and "first_text message [''messageId'', ''id''] \<noteq> []" "int_of_value (jget message ''internalDate'') = None"
    and "jget message ''messageTimestamp'' = JStr s" "py_int s = None" "\<not> blank s"
    and "pe_fromisoformat (pl_poll env) (py_replace ''Z'' ''+00:00'' (py_strip s)) = Some (Aware t)"
    and "t < NO_TIMESTAMP \<or> MAX_DATETIME < t"
  shows "(\<exists>why. res = PollError why) \<and> db' = db"
proof -
  let ?cursor = "stored_cursor db ''gmail'' u ws"
  obtain e where "gmail_fold (pl_poll env) (epoch_cursor_ceiling (pl_walked_at env)) (concat (pw_pages walk)) ([], [], None) = Inl e"
    using gmail_fold_raises[OF assms(6) edge_stamp_raises[OF assms(7-13)]] by blast
  then have "gmail_poll (pl_poll env) (pl_caller env) (pl_read_at env) (pl_walked_at env) ?cursor = Inl e"
    using assms(4,5) by (simp add: gmail_poll_def window_spec_def)
  then have "run_connector env ''gmail'' ?cursor [] = Inl e" by (simp add: run_connector_def)
  then obtain c why ct where "poll env db ''gmail'' u ws = ([], c, Some why, ct)"
    using assms(3) by (cases "is_timeout e") (auto simp: poll_def finish_poll_def CONNECTOR_REGISTRY_def
        gateway_provider_for_source_def GATEWAY_CONNECTORS_def Let_def)
  then show ?thesis using assms(1,2) by (auto simp: perceive_def CONNECTOR_REGISTRY_def)
qed

section \<open>The backfill\<close>

text \<open>The cursor after one poll, and after some number of them: a failed poll leaves it, a poll that returns none as
  well.\<close>

definition cursor_after :: "py_error + poll_result \<Rightarrow> string option \<Rightarrow> string option" where
  "cursor_after outcome cursor =
     (case outcome of
        Inl e \<Rightarrow> cursor
      | Inr r \<Rightarrow> if poll_failed r \<or> opt_or (pr_cursor r) [] = [] then cursor else pr_cursor r)"

fun mail_cursor :: "poll_env \<Rightarrow> (nat \<Rightarrow> tool_caller option) \<Rightarrow> (nat \<Rightarrow> instant) \<Rightarrow> nat \<Rightarrow> string option" where
  "mail_cursor env callers clock 0 = None"
| "mail_cursor env callers clock (Suc k) =
     (let cursor = mail_cursor env callers clock k
      in cursor_after (gmail_poll env (callers k) (clock k) (clock k) cursor) cursor)"

lemma never_last_never_drained:
  assumes "drained env caller w n token pages" "wk_stop w = None"
    and "\<And>n token rows t. page_at env caller w n token = Some (rows, t) \<Longrightarrow> truthy t"
  shows False
  using assms by (induction rule: drained.induct) (auto simp: last_page_def walk_stops_def)


text \<open>The calendar leaves its first sync whatever it saw: the cursor seeded at the start of the poll is read back for as
  long as it is believable, given that the library reads the text it writes.\<close>

lemma calendar_leaves_initial_sync:
  assumes "calendar_poll env caller now begun cursor = Inr r" "sane_rfc3339_cursor env now cursor = None"
    and "pr_cursor r \<noteq> cursor" "rfc3339 env (begun - secs OVERLAP_SECONDS) \<noteq> []"
    and "pe_fromisoformat env (py_replace ''Z'' ''+00:00'' (py_strip (rfc3339 env (begun - secs OVERLAP_SECONDS)))) =
      Some (Aware (begun - secs OVERLAP_SECONDS))"
    and "begun \<le> next_now" "next_now \<le> begun - secs OVERLAP_SECONDS + hours (24 * CURSOR_FLOOR_DAYS)"
  shows "sane_rfc3339_cursor env next_now (pr_cursor r) = Some (begun - secs OVERLAP_SECONDS)"
proof -
  have "pr_cursor r = Some (rfc3339 env (begun - secs OVERLAP_SECONDS))"
    using assms(1-3) by (auto simp: calendar_poll_def try_then_Inr Let_def poll_error_def resolve_cursor_def split: option.splits if_splits)
  moreover have "begun - secs OVERLAP_SECONDS \<le> next_now + CURSOR_SKEW"
    using assms(6) by (simp add: secs_def OVERLAP_SECONDS_def CURSOR_SKEW_def hours_def)
  ultimately show ?thesis using assms(4,5,7) by (simp add: sane_rfc3339_cursor_def)
qed

section \<open>The two classifications of a failure\<close>

text \<open>Searching a long text, made to compute: two characters that differ in their last five bits differ also without
  regard to case, and a comparison that failed ends the match.\<close>

lemma digit_bits:
  "digit0 c = bit (of_char c :: nat) 0" "digit1 c = bit (of_char c :: nat) 1" "digit2 c = bit (of_char c :: nat) 2"
  "digit3 c = bit (of_char c :: nat) 3" "digit4 c = bit (of_char c :: nat) 4"
proof -
  have d: "digit0 (char_of n) = bit n 0" "digit1 (char_of n) = bit n 1" "digit2 (char_of n) = bit n 2"
    "digit3 (char_of n) = bit n 3" "digit4 (char_of n) = bit n 4" for n :: nat
    by (simp_all add: char_of_def)
  from d[of "of_char c"] show "digit0 c = bit (of_char c :: nat) 0" "digit1 c = bit (of_char c :: nat) 1"
    "digit2 c = bit (of_char c :: nat) 2" "digit3 c = bit (of_char c :: nat) 3" "digit4 c = bit (of_char c :: nat) 4"
    by (simp_all only: char_of_char)
qed

lemma lower_digits:
  "digit0 (lower c) = digit0 c" "digit1 (lower c) = digit1 c" "digit2 (lower c) = digit2 c"
  "digit3 (lower c) = digit3 c" "digit4 (lower c) = digit4 c"
proof -
  have "of_char (lower c) mod 32 = (of_char c mod 32 :: nat)"
  proof (cases "65 \<le> (of_char c :: nat) \<and> (of_char c :: nat) \<le> 90")
    case True
    then show ?thesis by (simp add: lower_def)
  qed (simp add: lower_def Let_def)
  then have b: "take_bit 5 (of_char (lower c)) = (take_bit 5 (of_char c) :: nat)" by (simp add: take_bit_eq_mod)
  have "bit (of_char (lower c) :: nat) i = bit (of_char c :: nat) i" if "i < 5" for i
    using arg_cong[OF b, of "\<lambda>n. bit n i"] that by (simp add: bit_take_bit_iff)
  then show
    "digit0 (lower c) = digit0 c" "digit1 (lower c) = digit1 c" "digit2 (lower c) = digit2 c"
    "digit3 (lower c) = digit3 c" "digit4 (lower c) = digit4 c"
    unfolding digit_bits by simp_all
qed

definition near :: "char \<Rightarrow> char \<Rightarrow> bool" where
  "near a b \<longleftrightarrow> (if digit0 a = digit0 b then if digit1 a = digit1 b then if digit2 a = digit2 b then
     if digit3 a = digit3 b then digit4 a = digit4 b else False else False else False else False)"

lemma same_char_code [code]:
  "same_char ic a b = (if near a b then if ic then lower a = lower b else a = b else False)"
proof -
  have "lower a = lower b \<Longrightarrow> near a b" using lower_digits[of a] lower_digits[of b] by (simp add: near_def)
  moreover have "near a a" by (simp add: near_def)
  ultimately show ?thesis by (auto simp: same_char_def)
qed

lemma pmatch_code [code]:
  "pmatch ic [] prev s = True"
  "pmatch ic (Ch c # r) prev s = (case s of [] \<Rightarrow> False | x # xs \<Rightarrow> if same_char ic c x then pmatch ic r (Some x) xs else False)"
  "pmatch ic (OptCh c # r) prev s =
     (if (case s of [] \<Rightarrow> False | x # xs \<Rightarrow> if same_char ic c x then pmatch ic r (Some x) xs else False) then True
      else pmatch ic r prev s)"
  "pmatch ic (OptAny # r) prev s =
     (if (case s of [] \<Rightarrow> False | x # xs \<Rightarrow> if x = CHR 0x0A then False else pmatch ic r (Some x) xs) then True else pmatch ic r prev s)"
  "pmatch ic (Spaces # r) prev s =
     (if (case s of [] \<Rightarrow> False | x # xs \<Rightarrow> if is_space x then pmatch ic (Spaces # r) (Some x) xs else False) then True
      else pmatch ic r prev s)"
  "pmatch ic (Boundary # r) prev s = (if pmatch ic r prev s then word_at prev \<noteq> word_at (first_char s) else False)"
  by (auto split: list.splits)

lemma psearch_code [code]:
  "psearch ic p prev [] = pmatch ic p prev []"
  "psearch ic p prev (x # xs) = (if pmatch ic p prev (x # xs) then True else psearch ic p (Some x) xs)"
  by simp_all

fun any_match :: "(bool \<times> relem list) list \<Rightarrow> string \<Rightarrow> bool" where
  "any_match [] s = False"
| "any_match ((ic, p) # ps) s = (if psearch ic p None s then True else any_match ps s)"

lemma matches_code [code]: "matches ps s = any_match ps s"
  by (induction ps s rule: any_match.induct) (simp_all add: matches_def)

text \<open>Patterns without word boundaries are found wherever their text stands.\<close>

fun plain_elem :: "relem \<Rightarrow> bool" where
  "plain_elem (Ch c) = True"
| "plain_elem OptAny = True"
| "plain_elem _ = False"

lemma pmatch_longer: "list_all plain_elem p \<Longrightarrow> pmatch ic p prev s \<Longrightarrow> pmatch ic p prev' (s @ t)"
proof (induction ic p prev s arbitrary: prev' rule: pmatch.induct)
  case (2 ic c r prev s)
  then show ?case by (cases s) auto
next
  case (4 ic r prev s)
  then show ?case by (cases s) (auto split: list.splits)
qed auto

lemma psearch_longer: "list_all plain_elem p \<Longrightarrow> psearch ic p prev s \<Longrightarrow> psearch ic p prev' (s @ t)"
proof (induction s arbitrary: prev prev')
  case Nil
  then show ?case using pmatch_longer[of p ic prev "[]" prev' t] by (cases t) auto
next
  case (Cons x s)
  then show ?case using pmatch_longer[of p ic prev "x # s" prev' t] by auto
qed

lemma psearch_within: "list_all plain_elem p \<Longrightarrow> psearch ic p None s \<Longrightarrow> psearch ic p prev (a @ s @ t)"
proof (induction a arbitrary: prev)
  case (Cons x a)
  then show ?case by simp
qed (simp add: psearch_longer)

lemma psearch_after: "psearch ic p (Some y) s \<Longrightarrow> psearch ic p prev (a @ y # s)"
  by (induction a arbitrary: prev) auto

lemma permanent_texts:
  assumes "c = PollPermanent \<or> c = PollAuthFailed"
  shows "classify_error (failed_poll_text source c) = Permanent"
proof -
  have "psearch True (whole ''permanent'') (Some CHR '' '') ''permanent connector error (4xx unrecoverable)''" by code_simp
  from psearch_after[OF this, of None "''Poll failed for '' @ source @ '':''"]
  have p: "psearch True (whole ''permanent'') None (failed_poll_text source PollPermanent)"
    by (simp add: failed_poll_text_def policy_text_def error_class_to_policy_error_def)
  have "psearch True (lit ''unauthorized'') None ''unauthorized: token invalid or revoked)''" by code_simp
  from psearch_within[OF _ this, of None "''Poll failed for '' @ source @ '': auth_failed connector error (401 ''" "[]"]
  have "psearch True (lit ''unauthorized'') None (failed_poll_text source PollAuthFailed)"
    by (simp add: failed_poll_text_def policy_text_def error_class_to_policy_error_def lit_def)
  then have "matches PERMANENT_PATTERNS (failed_poll_text source c)"
    using p assms by (auto simp: matches_def PERMANENT_PATTERNS_def)
  then show ?thesis by (simp add: classify_error_def failed_poll_text_def)
qed

text \<open>The texts of failed polls carry their class through the second classification: for every registered source, a
  permanent failure or a refused credential is taken as permanent there and every other failure as transient.\<close>

lemma poll_failures_keep_their_class:
  "source \<in> fst ` set CONNECTOR_REGISTRY \<Longrightarrow> c \<noteq> PollNone \<Longrightarrow>
     classify_error (failed_poll_text source c) = (if c \<in> {PollPermanent, PollAuthFailed} then Permanent else error_class.Transient)"
proof -
  have "list_all (\<lambda>source. list_all (\<lambda>c. classify_error (failed_poll_text source c) = error_class.Transient)
    [PollTransient, PollRateLimited]) (map fst CONNECTOR_REGISTRY)"
    by code_simp
  then show "source \<in> fst ` set CONNECTOR_REGISTRY \<Longrightarrow> c \<noteq> PollNone \<Longrightarrow> ?thesis"
    using permanent_texts[of c source] by (cases c) (auto simp: list_all_iff)
qed

definition refusals :: "string list" where
  "refusals = [''permission denied'', ''Permission denied'', ''access denied'', ''Access denied'', ''revoked'']"

lemma refusal_found:
  assumes "w \<in> set refusals"
  shows "\<exists>p. (True, p) \<in> set PERMANENT_PATTERNS \<and> list_all plain_elem p \<and> psearch True p None w"
proof -
  have "list_all (\<lambda>w. list_ex (\<lambda>(ic, p). ic \<and> list_all plain_elem p \<and> psearch True p None w) PERMANENT_PATTERNS) refusals"
    by code_simp
  then show ?thesis using assms by (fastforce simp: list_all_iff list_ex_iff)
qed

text \<open>C17. The text of an exception overrides its class: an exception the poller classifies as transient, so that the
  class text alone would be retried six times, opens the circuit at the first failure when its own text says that
  something was denied or revoked.\<close>

theorem exception_text_overrides_its_class:
  assumes "exception_class e = PollTransient" "error_text e = a @ w @ b" "w \<in> set refusals"
  shows "classify_error (policy_text (exception_class e)) = error_class.Transient \<and>
    threshold_for_error_class (classify_error (exception_text source e)) = PERMANENT_FAILURE_THRESHOLD"
proof -
  obtain p where p: "(True, p) \<in> set PERMANENT_PATTERNS" "list_all plain_elem p" "psearch True p None w"
    using refusal_found[OF assms(3)] by blast
  obtain front where f: "exception_text source e = front @ w @ b" using assms(2) by (auto simp: exception_text_def)
  have "psearch True p None (exception_text source e)" unfolding f by (rule psearch_within[OF p(2,3)])
  then have "matches PERMANENT_PATTERNS (exception_text source e)" using p(1) by (force simp: matches_def list_ex_iff)
  moreover have "exception_text source e \<noteq> []" by (simp add: exception_text_def)
  moreover have "classify_error (policy_text PollTransient) = error_class.Transient" by code_simp
  ultimately show ?thesis using assms(1) by (simp add: classify_error_def threshold_for_error_class_def)
qed

end
