(* ===== verification/Poll_Samples.thy ===== *)
theory Poll_Samples
  imports Poll_Properties
begin

text \<open>
  The properties of polling at concrete polls: a mailbox with one message, one with a message stamped outside the
  calendar, one that never ends, and a Slack channel with two replies in one thread.
\<close>

section \<open>A mailbox\<close>

definition sample_library :: poll_env where
  "sample_library =
     \<lparr>pe_loads = (\<lambda>s. None), pe_dumps = (\<lambda>d. ''cursor''), pe_str = (\<lambda>v. ''?''),
      pe_fromisoformat = (\<lambda>s. if s = ''0001-01-01T00:00:00+10:00'' then Some (Aware (NO_TIMESTAMP - hours 10)) else None),
      pe_parsedate = (\<lambda>s. None), pe_isoformat = (\<lambda>t. ''?''), pe_parseaddr = (\<lambda>s. ([], s)), pe_parse_float = (\<lambda>s. None)\<rparr>"

definition sample_message :: "string \<Rightarrow> jdict" where
  "sample_message stamp = [(''messageId'', JStr ''m1''), (''threadId'', JStr ''t1''), (''messageTimestamp'', JStr stamp)]"

definition one_message :: "string \<Rightarrow> tool_caller" where
  "one_message stamp n action payload =
     Inr [(''status'', JStr ''ok''), (''result'', JObj [(''messages'', JList [JObj (sample_message stamp)])])]"

definition slack_page :: "string \<Rightarrow> json \<Rightarrow> py_error + http_response" where
  "slack_page key rows = Inr \<lparr>hr_status = 200, hr_headers = [], hr_json = Inr (JObj [(''ok'', JBool True), (key, rows)])\<rparr>"

definition sample_reply :: "string \<Rightarrow> string \<Rightarrow> json" where
  "sample_reply ts text = JObj [(''ts'', JStr ts), (''thread_ts'', JStr ''1.0''), (''text'', JStr text)]"

definition two_replies :: http where
  "two_replies n url params =
     (if n = 0 then slack_page ''channels'' (JList [JObj [(''id'', JStr ''C1'')]])
      else slack_page ''messages'' (JList [sample_reply ''3.0'' ''no'', sample_reply ''2.0'' ''yes'']))"

definition sample_poller :: "tool_caller \<Rightarrow> poller_env" where
  "sample_poller caller =
     \<lparr>pl_poll = sample_library, pl_caller = Some caller, pl_web = (\<lambda>token. two_replies),
      pl_token = (\<lambda>u p. (Some ''token'', ''ok'')), pl_read_at = secs 50, pl_walked_at = secs 51,
      pl_times_out = False, pl_ingest = sample_ingest, pl_rules = [], pl_triage_down = False, pl_new_cursor_id = ''1''\<rparr>"

definition empty_db :: perception_db where
  "empty_db = \<lparr>pd_events = [], pd_cursors = []\<rparr>"

lemma sample_parts [simp]:
  "pl_ingest (sample_poller caller) = sample_ingest" "pl_rules (sample_poller caller) = []"
  "pl_triage_down (sample_poller caller) = False" "pd_events empty_db = []" "stored_cursor empty_db source u ws = None"
  by (simp_all add: sample_poller_def empty_db_def stored_cursor_def)

lemma sample_walk:
  "walk_pages sample_library (Some (one_message stamp)) (gmail_spec w) = Inr (walk_done [[sample_message stamp]] False)"
proof -
  have m: "\<exists>k. wk_max_pages (gmail_spec w) = Suc k"
    by (cases w) (simp_all add: gmail_spec_def MAX_BACKFILL_PAGES_def MAX_INCREMENTAL_PAGES_def)
  have r: "rows_of (gmail_spec w) [(''messages'', JList [JObj (sample_message stamp)])] = Some [sample_message stamp]"
    by (simp add: rows_of_def gmail_spec_def)
  have "page_at sample_library (Some (one_message stamp)) (gmail_spec w) 0 JNull = Some ([sample_message stamp], JNull)"
    by (simp add: page_at_def gateway_call_def one_message_def unwrap_payload_def r) (simp add: gmail_spec_def)
  then show ?thesis using m
    by (auto simp: walk_pages_def walk_from_page last_page_def)
qed

lemmas sample_texts = py_int_def py_strip_def strip_chars_def is_white_def is_digit_char_def code_def MAX_STR_DIGITS_def

lemma sample_numbers: "py_int ''42'' = Some 42" "py_int ''0001-01-01T00:00:00+10:00'' = None" "int_text 42 = ''42''"
  by (simp_all add: sample_texts int_text_def nat_text.simps char_of_def bit_Suc_0_iff)

lemma sample_blank: "\<not> blank ''m1''" "\<not> blank ''t1''" "\<not> blank ''42''" "\<not> blank ''0001-01-01T00:00:00+10:00''"
  by (simp_all add: blank_def sample_texts)

lemma sample_edge: "py_replace ''Z'' ''+00:00'' (py_strip ''0001-01-01T00:00:00+10:00'') = ''0001-01-01T00:00:00+10:00''"
  by (simp add: sample_texts py_replace.simps)

definition sample_mail :: event where
  "sample_mail = raw_event ''gmail'' ''email_received'' ''email_thread'' ''t1'' (Some (secs 42)) (Some ''(no subject)'') (JStr [])
     (sender_actor sample_library ''unknown'')
     [(''message_id'', JStr ''m1''), (''labels'', JList []), (''to'', JStr []), (''cc'', JStr []), (''rfc_message_id'', JStr []),
      (''in_reply_to'', JStr []), (''references'', JStr []), (''headers'', JObj [])]"

lemma sample_mail_read: "gmail_event sample_library (sample_message ''42'') = Inr (Some sample_mail)"
proof -
  have t: "gmail_occurred_at sample_library (sample_message ''42'') = Inr (Some (secs 42))"
    by (simp add: gmail_occurred_at_def sample_message_def from_epoch_def sample_numbers EPOCH_MILLIS_FLOOR_def
        NO_TIMESTAMP_def MAX_DATETIME_def)
  show ?thesis unfolding gmail_event_def t
    by (simp add: sample_message_def sample_blank headers_of_def header_def text_or_def snippet_of_def sample_mail_def Let_def)
qed

text \<open>Triage of events that no rule decides, with no rules and a model that does not answer.\<close>

lemma quiet_triage:
  assumes "\<forall>e\<in>set es. classify_by_rules e = Inr None \<and> is_obj (ne_actor e)"
  shows "\<exists>rs. triage_batch (ie_triage sample_ingest) (Some []) down ws es = Inr rs"
proof -
  have r: "rules_pass (ie_triage sample_ingest) [] es = Inr (replicate (length es) None)"
    using assms by (induction es) (simp_all add: classify_one_def matching_rule_id_def)
  have "prompt_error xs = None" if "set xs \<subseteq> set es" for xs
    using assms that by (induction xs) (auto elim!: is_obj.elims(2))
  moreover have "set (remainder_of es (replicate (length es) None)) \<subseteq> set es"
    by (auto simp: remainder_of_def dest: set_zip_leftD)
  ultimately have "\<exists>rs. classify_llm (ie_triage sample_ingest) (remainder_of es (replicate (length es) None)) = Inr rs"
    by (simp add: classify_llm_def)
  then show ?thesis using r by (auto simp: triage_batch_def load_sender_rules_def Let_def)
qed

lemma quiet_batch:
  assumes "\<forall>e\<in>set es. classify_by_rules e = Inr None \<and> is_obj (ne_actor e)" "es \<noteq> []" "length es \<le> BATCH_SIZE"
  shows "\<exists>ids store. process_batch sample_ingest [] down ws u es [] = (Inr ids, store)"
proof -
  have "fresh_of sample_ingest ws [] es = map (\<lambda>r. (r, make_idempotency_key sample_ingest r)) es"
    by (simp add: fresh_of_def stored_keys_def)
  then have "\<exists>ids store. process_chunk sample_ingest [] down ws u [] es [] = (Inr ids, store)"
    using quiet_triage[OF assms(1), of down ws] by (auto simp: process_chunk_def Let_def comp_def)
  then show ?thesis using single_chunk[OF assms(2,3)] by (auto simp: process_batch_def)
qed

lemma sample_poll_result:
  "poll (sample_poller (one_message ''42'')) empty_db ''gmail'' ''u'' ''ws'' = ([sample_mail], Some ''42'', None, ''timestamp'')"
proof -
  have f: "fold_stamp (epoch_cursor_ceiling (secs 51)) sample_mail None = Some 42"
    by (simp add: fold_stamp_def sample_mail_def raw_event_def epoch_cursor_ceiling_def epoch_of_def CURSOR_SKEW_def hours_def secs_def)
  have "gmail_poll sample_library (Some (one_message ''42'')) (secs 50) (secs 51) None =
      Inr \<lparr>pr_events = [sample_mail], pr_cursor = Some ''42'', pr_error = PollNone\<rparr>"
    by (simp add: gmail_poll_def sample_walk sample_mail_read f resolve_cursor_def sample_numbers)
  then show ?thesis
    by (simp add: poll_def finish_poll_def run_connector_def stored_cursor_def empty_db_def sample_poller_def CONNECTOR_REGISTRY_def
        gateway_provider_for_source_def GATEWAY_CONNECTORS_def poll_failed_def)
qed


theorem mail_cursor_reads_back_witness:
  "sane_epoch_cursor (secs 100) (Some ''42'') = Some 42"
proof -
  have p: "gmail_poll sample_library (Some (one_message ''42'')) (secs 50) (secs 51) None =
      Inr \<lparr>pr_events = [sample_mail], pr_cursor = Some ''42'', pr_error = PollNone\<rparr>"
    by (simp add: gmail_poll_def sample_walk sample_mail_read resolve_cursor_def sample_numbers fold_stamp_def sample_mail_def
        raw_event_def epoch_cursor_ceiling_def epoch_of_def CURSOR_SKEW_def hours_def secs_def)
  obtain n where n: "''42'' = int_text n" "epoch_cursor_floor (secs 100) \<le> n \<longrightarrow> sane_epoch_cursor (secs 100) (Some ''42'') = Some n"
    "n \<le> epoch_cursor_ceiling (secs 51)"
    using mail_cursor_reads_back[OF p, of "secs 100"] by auto
  have "length (nat_text (nat \<bar>n\<bar>)) \<le> length (int_text n)" by (simp add: int_text_def)
  then have "length (nat_text (nat \<bar>n\<bar>)) \<le> 2" unfolding n(1)[symmetric] by simp
  then have "py_int (int_text n) = Some n" using n(1) by (intro int_text_reads_back) (simp add: MAX_STR_DIGITS_def)
  then have "n = 42" using n(1) sample_numbers(1) by simp
  then show ?thesis using n(2) by (simp add: epoch_cursor_floor_def epoch_of_def hours_def secs_def CURSOR_FLOOR_DAYS_def)
qed

theorem edge_stamp_stops_the_mailbox_witness:
  "\<exists>why. perceive (sample_poller (one_message ''0001-01-01T00:00:00+10:00'')) True ''gmail'' ''u'' ''ws'' empty_db =
     (PollError why, empty_db)"
proof -
  let ?stamp = "''0001-01-01T00:00:00+10:00''"
  let ?env = "sample_poller (one_message ?stamp)"
  obtain res db' where p: "perceive ?env True ''gmail'' ''u'' ''ws'' empty_db = (res, db')" by fastforce
  have w: "walk_pages (pl_poll ?env) (pl_caller ?env) (window_spec ?env ''gmail'' (stored_cursor empty_db ''gmail'' ''u'' ''ws'')) =
      Inr (walk_done [[sample_message ?stamp]] False)"
    by (simp add: window_spec_def) (simp add: sample_poller_def sample_walk)
  have "(\<exists>why. res = PollError why) \<and> db' = empty_db"
    by (rule edge_stamp_stops_the_mailbox[OF p _ _ w, where message = "sample_message ?stamp" and s = ?stamp and t = "NO_TIMESTAMP - hours 10"])
      (simp_all add: sample_message_def sample_blank sample_numbers sample_edge hours_def secs_def, simp_all add: sample_poller_def sample_library_def hours_def secs_def)
  then show ?thesis using p by auto
qed

section \<open>A mailbox without an end\<close>

definition endless :: tool_caller where
  "endless n action payload =
     Inr [(''status'', JStr ''ok''), (''result'', JObj [(''messages'', JList []), (''nextPageToken'', JStr ''more'')])]"


section \<open>A failed poll\<close>

theorem exception_text_overrides_its_class_witness:
  "threshold_for_error_class (classify_error (exception_text ''gmail'' (Raised ''OSError'' ''[Errno 13] Permission denied''))) = 1"
proof -
  have "exception_class (Raised ''OSError'' ''[Errno 13] Permission denied'') = PollTransient" by code_simp
  from exception_text_overrides_its_class[OF this, of "''[Errno 13] ''" "''Permission denied''" "[]" "''gmail''"]
  show ?thesis by (simp add: refusals_def PERMANENT_FAILURE_THRESHOLD_def)
qed

section \<open>Two replies\<close>

definition sample_posted :: "string \<Rightarrow> string \<Rightarrow> event" where
  "sample_posted ts text = raw_event ''slack'' ''message_posted'' ''message_thread'' ''1.0'' None (Some (''#C1: '' @ text)) (JStr text)
     [(''type'', JStr ''person''), (''name'', JStr []), (''slack_id'', JStr [])]
     [(''channel_id'', JStr ''C1''), (''channel_name'', JStr ''C1''), (''ts'', JStr ts)]"

lemma sample_reply_read:
  "length text \<le> 100 \<Longrightarrow> ts \<noteq> [] \<Longrightarrow> slack_event sample_library (sample_reply ts text) ''C1'' (JStr ''C1'') = Inr (Some (sample_posted ts text))"
  by (simp add: slack_event_def sample_reply_def slack_stamp_def sample_library_def sample_posted_def text_of_def Let_def)

lemma sample_history:
  "slack_poll sample_library two_replies None ''token'' =
     \<lparr>pr_events = [sample_posted ''3.0'' ''no'', sample_posted ''2.0'' ''yes''], pr_cursor = Some ''cursor'', pr_error = PollNone\<rparr>"
proof -
  obtain k where pages: "NATIVE_MAX_PAGES = Suc k" by (simp add: NATIVE_MAX_PAGES_def)
  have channels: "slack_channels two_replies NATIVE_MAX_PAGES 0 JNull [] = Inr (Inr [JObj [(''id'', JStr ''C1'')]], 1)"
    unfolding pages by (simp add: two_replies_def slack_page_def slack_answer_def slack_next_def jor_def)
  have order: "later_text ''2.0'' ''3.0'' = False" by (simp add: code_def)
  have msgs: "slack_messages sample_library ''C1'' (JStr ''C1'') [sample_reply ''3.0'' ''no'', sample_reply ''2.0'' ''yes''] [] None =
      Inr ([sample_posted ''3.0'' ''no'', sample_posted ''2.0'' ''yes''], Some (JStr ''3.0''))"
    by (simp add: sample_reply_read) (simp add: sample_reply_def newest_def py_greater_def order code_def)
  have "slack_history sample_library two_replies NATIVE_MAX_PAGES 1 ''C1'' (JStr ''C1'') JNull JNull [] None =
      Inr ([sample_posted ''3.0'' ''no'', sample_posted ''2.0'' ''yes''], Some (JStr ''3.0''), None, 2)"
    unfolding pages by (simp add: two_replies_def slack_page_def slack_answer_def slack_next_def jor_def msgs del: slack_messages.simps)
  then show ?thesis
    by (simp add: slack_poll_def slack_cursor_map_def channels channel_ref_def) (simp add: sample_library_def)
qed

theorem sunk_poll_is_passed_over_witness:
  "\<exists>db'. perceive (sample_poller endless) True ''slack'' ''u'' ''ws'' empty_db = (NoNewObservations 2, db') \<and>
     pd_events db' = [] \<and> stored_cursor db' ''slack'' ''u'' ''ws'' = Some ''cursor''"
proof -
  let ?events = "[sample_posted ''3.0'' ''no'', sample_posted ''2.0'' ''yes'']"
  obtain res db' where p: "perceive (sample_poller endless) True ''slack'' ''u'' ''ws'' empty_db = (res, db')" by fastforce
  have q: "poll (sample_poller endless) empty_db ''slack'' ''u'' ''ws'' = (?events, Some ''cursor'', None, ''per_channel_ts'')"
    by (simp add: poll_def finish_poll_def run_connector_def stored_cursor_def empty_db_def sample_poller_def CONNECTOR_REGISTRY_def
        gateway_provider_for_source_def sample_history poll_failed_def)
  have "\<forall>e\<in>set ?events. classify_by_rules e = Inr None \<and> is_obj (ne_actor e)"
    by (simp add: classify_by_rules_def sample_posted_def raw_event_def lower_headers_def py_lower_def)
  then obtain ids store where "process_batch sample_ingest [] False ''ws'' ''u'' ?events [] = (Inr ids, store)"
    using quiet_batch[of ?events False "''ws''" "''u''"] by (auto simp: BATCH_SIZE_def)
  then have r: "\<forall>x. res \<noteq> CycleRaised x"
    using p by (auto simp: perceive_def q ingest_raw_events_def CONNECTOR_REGISTRY_def split: if_splits)
  have "pd_events db' = pd_events empty_db \<and> res = NoNewObservations (length ?events) \<and> stored_cursor db' ''slack'' ''u'' ''ws'' = Some ''cursor''"
    by (rule sunk_poll_is_passed_over[OF p r _ q, where a = "sample_posted ''3.0'' ''no''" and b = "sample_posted ''2.0'' ''yes''"])
      (simp_all add: BATCH_SIZE_def sample_posted_def raw_event_def stored_keys_def empty_db_def)
  then show ?thesis using p by (auto simp: empty_db_def)
qed

end
