(* ===== verification/Spec2Isabelle.thy ===== *)
theory Spec2Isabelle
  imports Circuit_Breakers Perception_Policy Dag_Properties Approvals Run_Queue Entity_Facts Feed Turn_Samples Poll_Samples
begin

text \<open>
  A model of the execution core of muldro, an assistant that plans work, asks for approval where its
  trust in a capability does not suffice, carries the plan out as a graph of steps, and learns from
  what the user decides. All paths below are under \<open>backend/src\<close>.

  \<^bold>\<open>How the parts interact.\<close> A plan (\<open>models/plans.py\<close>) goes through the governor, which asks the trust
  engine and stores one run with its verdict. The graph executor starts, resumes, pauses and cancels
  runs; while one is running it drives the DAG engine, which takes the ready steps in batches, gates
  each at the trust engine, sends it to an executor agent, reads its effect back, and records the
  outcome in the step's row, in the event log and in the trust table. The transition tables of
  \<open>services/execution_state.py\<close> guard every status change. Writes that the executor makes go through the
  idempotency ledger, under a lock per workspace and capability. At a resume the rows are brought up to
  the event log. What waits for the user is an approval: the handlers of \<open>api/routes_approvals.py\<close>
  decide it, release or cancel the run it belongs to, or replay the call that was recorded with it; the
  scheduler's background tick picks released runs up, retries those that raise and dead-letters those
  that keep raising. A read-back verdict also feeds the world model's beliefs. Beside this, the
  perception policy decides when the sources of new information are polled; a poll reads a source from its
  cursor on, and what it returns is triaged, stored and shown as units of the feed. Circuit breakers
  guard the calls to the model API, the tool servers and the graph database.

  \<^bold>\<open>Theories.\<close>
  \<^item> \<open>Prelude\<close>, \<open>Json\<close>: instants in microseconds, table rows as lists, exceptions as sums, the small
    state-and-exception monad (\<open>ret\<close>, \<open>raise\<close>, \<open>andthen\<close>) with its Hoare triples and frame rules, and
    JSON values with Python's readers.
  \<^item> \<open>Task_Graph\<close>, \<open>Execution_State\<close>: the rows of runs, steps and checkpoints; both transition tables and
    the two transition functions. The locale \<open>status_machine\<close> is what the engine needs of a table.
  \<^item> \<open>Circuit_Breakers\<close>: the three breakers; the locale \<open>breaker\<close> is their contract.
  \<^item> \<open>Capabilities\<close>, \<open>Verification\<close>: the capability catalog, the irreversibility predicate, post-conditions,
    read-back verdicts, compensations.
  \<^item> \<open>Trust\<close>, \<open>Trust_Engine\<close>: \<open>services/risk_assessor.py\<close> and \<open>services/trust_engine.py\<close>. The levels are
    the code's strings; \<open>level_of\<close> maps them to the ordered type \<open>level\<close>.
  \<^item> \<open>Governor\<close>: \<open>services/governor.py\<close>, the approvals factory, what a rejection is held against.
  \<^item> \<open>Perception_Policy\<close>: \<open>services/perception_policy.py\<close> with its error-class patterns.
  \<^item> \<open>Step_Graph\<close>, \<open>Run_World\<close>, \<open>Dag_Runner\<close>: the step store, the step-level trust gate, re-authorisation,
    the founder's steps, the per-step pipeline and the loop of \<open>services/dag_runner.py\<close>. \<open>Dag_Properties\<close>
    has the properties of whole runs of the loop.
  \<^item> \<open>Run_Projection\<close>, \<open>Graph_Executor\<close>, \<open>Run_Properties\<close>: the event log and what is read from it, the life of
    a run in \<open>services/graph_executor.py\<close>, and the stuck-run check.
  \<^item> \<open>Identity\<close>, \<open>Ledger\<close>: the keys of writes and the ledger, both as the code's statements run alone and
    as an inductive step relation of any number of workers; the locale \<open>write_gate\<close> is what the tool
    wrapper needs of the ledger.
  \<^item> \<open>Locks\<close>: the write lock and the run lease over Redis (\<open>services/write_lock.py\<close>,
    \<open>services/autonomous_lease.py\<close>), and which tool calls take the lock; the locale \<open>exclusive_lease\<close> is
    their contract, and an inductive step relation interleaves any number of users.
  \<^item> \<open>Prepared\<close>: actions recorded for review and replayed when confirmed
    (\<open>deep_runtime/middleware/approval_persistence.py\<close>, \<open>services/prepared_actions.py\<close>).
  \<^item> \<open>Approvals\<close>: the approve, reject and edit handlers and the expiry of \<open>services/heartbeat.py\<close>, over the
    rows of the run, the trust table and the prepared action.
  \<^item> \<open>Run_Queue\<close>: the background tick with its database session, the resume reaper, the dead-letter queue
    and its retry tick (\<open>services/scheduler\<close>, \<open>services/dead_letter.py\<close>).
  \<^item> \<open>Entity_Facts\<close>: confidence, the bi-temporal store and its reconciliation with verdicts
    (\<open>services/entity_facts\<close>); the locale \<open>history\<close> is what a reader of the past relies on.

  \<^item> \<open>Tool_Gates\<close>, \<open>Gate_Laws\<close>: the interceptors around a tool call of the deep runtime
    (\<open>deep_runtime/middleware\<close>), from the capability scope to the dispatcher, in the order of
    \<open>_build_deep_agent_for\<close>; the locale \<open>interceptor_law\<close> is the contract of one of them, and two in a row
    satisfy the composed contract.
  \<^item> \<open>Deep_Turn\<close>, \<open>Turn_Laws\<close>, \<open>Turn_Bounds\<close>, \<open>Turn_Samples\<close>: the autonomous step, the pause and both
    resume paths of \<open>orchestrator/agent_invoker.py\<close> with the frames of \<open>deep_runtime/stream_adapter.py\<close>; what
    they do with a write nobody has cleared, the bound of the repair loop, and concrete turns.
  \<^item> \<open>Text_Patterns\<close>: Python's string methods on Latin-1 and regular expressions as data with a backtracking
    matcher; \<open>dead\<close> decides that a pattern cannot match over an alphabet.
  \<^item> \<open>Perceived\<close>, \<open>Triage\<close>, \<open>Mail_Filters\<close>, \<open>Engagement\<close>: events and their grouping by thing; triage and the
    batch ingestion (\<open>services/triage.py\<close>, \<open>services/event_processor.py\<close>); the founder's mail filters from
    proposal to revocation (\<open>services/filter_rules.py\<close>, \<open>services/filter_proposals.py\<close>); dismissals and what
    they teach (\<open>services/engagement_service.py\<close>, \<open>services/unit_dismissals.py\<close>, \<open>api/routes_units.py\<close>).
  \<^item> \<open>Rank\<close>, \<open>Deadline\<close>, \<open>Feed_Features\<close>: \<open>view/ranking\<close>: scores and order, the dates a text names, and the
    assembly of the ranker's input from rows that may fail to be read.
  \<^item> \<open>View_Units\<close>, \<open>Domain_Units\<close>, \<open>View_Bodies\<close>, \<open>Feed\<close>: frames and units of perceived things and of the
    system's own rows, the prose on a card with its budget and its store, and the composition of the feed
    (\<open>view/frame.py\<close>, \<open>view/perception.py\<close>, \<open>view/domain_units.py\<close>, \<open>view/body_fill.py\<close>, \<open>view/feed.py\<close>).
  \<^item> \<open>Poll_Results\<close>, \<open>Gateway\<close>: the classes and texts of failed polls (\<open>connectors/poll_result.py\<close>,
    \<open>integrations/mcp_errors.py\<close>); a call through the gateway, the paginated walk, and the bounds on a stored
    cursor (\<open>connectors/gateway_connector.py\<close>), with the walk's specification as a chain of pages.
  \<^item> \<open>Gateway_Polls\<close>, \<open>Native_Polls\<close>: the polls of mail, calendar and Notion through the gateway, and of Slack and
    GitHub with a token of their own (\<open>connectors/gmail.py\<close>, \<open>calendar.py\<close>, \<open>notion_connector.py\<close>,
    \<open>slack_connector.py\<close>, \<open>github_connector.py\<close>).
  \<^item> \<open>Poller\<close>, \<open>Poll_Laws\<close>, \<open>Poll_Properties\<close>, \<open>Poll_Samples\<close>: \<open>orchestrator/connector_poller.py\<close>, the cursor rows
    and the cycle of \<open>orchestrator/perception_runner.py\<close> up to the summary the agents read; what a moved cursor
    guarantees, and concrete polls.

  \<^bold>\<open>What is shown.\<close> The gate: what reaches the executor is decided by the trust engine, the presence of
  the user and the exemptions; the engine auto-executes only what has been assessed and earned, and a
  ceiling caps it. Trust: graduation gives exactly the highest level earned, a rejection costs a level
  for a day, decisions are isolated. Runs: the loop returns, the log covers the rows, the outcome
  reaches the plan, tokens are counted once, a cancellation settles the steps, an exception is
  recorded. Writes: at most one attempt at a logical write takes effect, whatever the interleaving,
  and a completed one is replayed. Polling: intervals stay within bounds and leases exclude double
  picks. Breakers: an open circuit sends nothing, the threshold opens it, one probe tests it. Locks: two
  owners of one key never overlap. Approvals: a decision is final, an approval releases exactly its
  step, a recorded call runs as reviewed and at most once, a secret is never recorded. The queue: a run
  alone is retried a bounded number of times. Beliefs: one current value for each attribute whatever
  the interleaving, the past is never rewritten, and evidence does not lower a confidence. The
  feed: every unit composed honours its contract, one feature record is built for each whatever fails, no
  claim of a model reaches the order, nothing is dropped by the fold, and the system's own work, a waiting
  decision first, is always above it. The prose: the lede is the first paragraph and fits its budget, a
  poll pays for eight bodies at most and a quiet one for none. Triage and filters: an event is stored with
  the verdict of the rules or the model, a confirmed proposal becomes exactly its rules, a revoked rule
  releases what it hid, a dismissal hides what was seen until something new is stored. Reading a source: a walk
  of pages answers for its window in full or not at all, a cursor moves only after a poll that succeeded, past
  a window read to its end for a source behind the gateway, and a mail cursor that was set can be read back. Tool calls: what is
  executed was in scope and cleared by every gate the turn has, a turn nobody is present on never
  suspends and stages such a write for review, a paused write runs or not as the person answered, and a
  tool that keeps refusing its arguments is executed three times at most in a turn. Several
  theorems record where the code does something else than its comments say: a gated step cannot be
  rejected, a raising run blocks the queue ahead of others, dead letters never exhaust, a confirmation
  can lower a belief, a prepared action whose tool raised can no longer be confirmed, two replies in one
  thread sink the chunk that brings them and the cursor passes over it, a stamp at the edge of the calendar
  stops a mailbox, a busy mailbox never leaves its first sync, the text of an exception overrides its class, a race loses a dismissal, a claimed deadline reaches the top, and
  a connector that has to be connected again is not reported to the run that needs it.

  \<^bold>\<open>Bounds and fuel.\<close> \<open>execute_dag\<close> takes fuel, one unit per batch; \<open>execute_dag_terminates\<close> shows that
  \<open>total_weight\<close> of the rows, which counts the retries and status changes each step has left, is always
  enough, so the fuel never decides an outcome. The search of a pattern moves to the right at each step and
  a body is asked for three times at most. The walks over pages recurse on the pages left under the code's own caps. The waiting loop of the write lock is bounded by its
  timeout. Everything else is structural or primitive recursion.
  Python's integers are \<open>int\<close> or \<open>nat\<close>; floats are exact rationals, with \<open>pyround\<close> for \<open>round\<close>, and
  reals where the code takes an exponential.

  \<^bold>\<open>Parameters.\<close> The language model's answers and its choice of calls, the executor agent's outcome for its n-th action,
  what a tool, the registry or the risk assessment answers to the n-th question of a turn, connector reads, what the gateway or the HTTP client answers to the n-th request of a poll, whether a poll times
  out, Python's parsers of JSON text, dates and floats, \<open>dateutil\<close>, \<open>email.utils.parseaddr\<close>, ISO renderings, which database reads fail, clocks, ULIDs, SHA-256, canonical JSON text, the Redis cache and row locks held by other
  transactions are arguments or fields of the records of services. Where a theorem needs something of
  them it is a hypothesis and the witness instantiates it.

  \<^bold>\<open>Not modelled.\<close> Network, database and process I/O (MCP sessions, the tests of a connection, the API's request and
  response shapes), prompts, the choice of calls and the text stream of the agent loop (the graph that runs it,
  its checkpoints, read-only delegates, the budget hook and the dormant extraction hook are in or around
  third-party packages; of LangGraph only \<open>interrupt\<close> and the replay of a call are modelled, calls one after
  another), the second half of a perception cycle (thread contexts, the agents and what their answers set off), notifications
  and the push of units to the live channel, embeddings
  and the graph queries, migrations, and the frontend: they hold no decision logic that a kernel could
  check against the source, or they are calls to code that is not in the repository.
\<close>

end
